(* ===== verification/Prelude.thy ===== *)
theory Prelude
  imports Main "HOL-Library.Word" "HOL-Library.AList" "HOL-Library.Multiset"
begin

text \<open>
  What the components share: the machine integers and byte strings of Go, the parts of
  its standard library the source calls (decimal formatting and parsing, ASCII case
  folding, \<^verbatim>\<open>strings.Join\<close>, \<^verbatim>\<open>sort.SearchFloat64s\<close>, FNV-1a hashing), integer division
  that truncates, and the generic lemmas on lists, association lists and words that the
  component proofs rest on.
\<close>

unbundle bit_operations_syntax

section \<open>Machine integers and byte strings\<close>

type_synonym u8 = "8 word"
type_synonym u32 = "32 word"
type_synonym u64 = "64 word"
type_synonym i64 = "64 word"

text \<open>Go's \<^verbatim>\<open>string\<close> is a sequence of bytes, which HOL's \<^typ>\<open>string\<close> is as well.\<close>

named_theorems go_simps \<open>unfolding of the Go runtime helpers\<close>

definition i64_max :: int where
  "i64_max = 9223372036854775807"

definition i64_min :: int where
  "i64_min = -9223372036854775808"

text \<open>Integer division of Go truncates towards zero.\<close>

definition go_quot :: "int \<Rightarrow> int \<Rightarrow> int" where
  "go_quot a b = sgn a * sgn b * (\<bar>a\<bar> div \<bar>b\<bar>)"

definition go_rem :: "int \<Rightarrow> int \<Rightarrow> int" where
  "go_rem a b = a - b * go_quot a b"

lemma go_quot_nonneg: "0 \<le> a \<Longrightarrow> 0 < b \<Longrightarrow> go_quot a b = a div b"
  by (cases "a = 0") (simp_all add: go_quot_def)

text \<open>\<^verbatim>\<open>time.Time.Sub\<close> clamps the difference to the range of a duration.\<close>

definition clamp_i64 :: "int \<Rightarrow> int" where
  "clamp_i64 x = max i64_min (min i64_max x)"

section \<open>Standard library: strings\<close>

definition ascii_lower :: "char \<Rightarrow> char" where
  "ascii_lower c = (let n = of_char c :: nat in if 65 \<le> n \<and> n \<le> 90 then char_of (n + 32) else c)"

definition to_lower :: "string \<Rightarrow> string" where
  "to_lower s = map ascii_lower s"

definition has_prefix :: "string \<Rightarrow> string \<Rightarrow> bool" where
  "has_prefix p s \<longleftrightarrow> take (length p) s = p"

definition has_suffix :: "string \<Rightarrow> string \<Rightarrow> bool" where
  "has_suffix p s \<longleftrightarrow> length p \<le> length s \<and> drop (length s - length p) s = p"

fun join_str :: "string \<Rightarrow> string list \<Rightarrow> string" where
  "join_str sep [] = []"
| "join_str sep [x] = x"
| "join_str sep (x # y # xs) = x @ sep @ join_str sep (y # xs)"

lemma has_prefix_append [simp]: "has_prefix p (p @ s)"
  by (simp add: has_prefix_def)

lemma has_prefix_obtain: "has_prefix p s \<Longrightarrow> \<exists>r. s = p @ r"
  unfolding has_prefix_def by (metis append_take_drop_id)

section \<open>Standard library: runes\<close>

text \<open>
  Ranging over a string decodes UTF-8: the rune at the front and its width in bytes. A byte
  that starts no valid encoding is the rune \<open>0xFFFD\<close> of width one.
\<close>

definition cont_byte :: "nat \<Rightarrow> bool" where
  "cont_byte b \<longleftrightarrow> 128 \<le> b \<and> b \<le> 191"

fun decode_rune :: "nat list \<Rightarrow> nat \<times> nat" where
  "decode_rune [] = (65533, 0)"
| "decode_rune (b0 # bs) =
     (if b0 < 128 then (b0, 1)
      else case bs of
        b1 # bs1 \<Rightarrow>
          (if 194 \<le> b0 \<and> b0 \<le> 223 \<and> cont_byte b1 then ((b0 - 192) * 64 + (b1 - 128), 2)
           else case bs1 of
             b2 # bs2 \<Rightarrow>
               (if 224 \<le> b0 \<and> b0 \<le> 239 \<and> cont_byte b1 \<and> cont_byte b2 \<and>
                   (b0 = 224 \<longrightarrow> 160 \<le> b1) \<and> (b0 = 237 \<longrightarrow> b1 \<le> 159)
                then (((b0 - 224) * 64 + (b1 - 128)) * 64 + (b2 - 128), 3)
                else case bs2 of
                  b3 # bs3 \<Rightarrow>
                    (if 240 \<le> b0 \<and> b0 \<le> 244 \<and> cont_byte b1 \<and> cont_byte b2 \<and> cont_byte b3 \<and>
                        (b0 = 240 \<longrightarrow> 144 \<le> b1) \<and> (b0 = 244 \<longrightarrow> b1 \<le> 143)
                     then ((((b0 - 240) * 64 + (b1 - 128)) * 64 + (b2 - 128)) * 64 + (b3 - 128), 4)
                     else (65533, 1))
                | [] \<Rightarrow> (65533, 1))
           | [] \<Rightarrow> (65533, 1))
      | [] \<Rightarrow> (65533, 1))"

lemma decode_rune_width: "bs \<noteq> [] \<Longrightarrow> 0 < snd (decode_rune bs)"
  by (cases bs) (auto split: list.splits)

function runes_of_bytes :: "nat list \<Rightarrow> nat list" where
  "runes_of_bytes bs =
     (if bs = [] then []
      else fst (decode_rune bs) # runes_of_bytes (drop (snd (decode_rune bs)) bs))"
  by pat_completeness auto
termination
  by (relation "measure length") (auto simp: decode_rune_width)

declare runes_of_bytes.simps [simp del]

definition runes :: "string \<Rightarrow> nat list" where
  "runes s = runes_of_bytes (map of_char s)"

lemma runes_ascii: "list_all (\<lambda>c. of_char c < (128::nat)) s \<Longrightarrow> runes s = map of_char s"
proof (induction s)
  case Nil
  then show ?case by (simp add: runes_def runes_of_bytes.simps)
next
  case (Cons c s)
  then show ?case by (simp add: runes_def runes_of_bytes.simps [of "of_char c # map of_char s"])
qed

definition encode_rune :: "nat \<Rightarrow> string" where
  "encode_rune r = map char_of
     (if r < 128 then [r]
      else if r < 2048 then [192 + r div 64, 128 + r mod 64]
      else if r < 65536 then [224 + r div 4096, 128 + r div 64 mod 64, 128 + r mod 64]
      else [240 + r div 262144, 128 + r div 4096 mod 64, 128 + r div 64 mod 64, 128 + r mod 64 :: nat])"

text \<open>\<^verbatim>\<open>strings.Map\<close> for a function that drops no rune.\<close>

definition strings_map :: "(nat \<Rightarrow> nat) \<Rightarrow> string \<Rightarrow> string" where
  "strings_map f s = concat (map (encode_rune \<circ> f) (runes s))"

section \<open>Standard library: decimal integers\<close>

definition digit_char :: "nat \<Rightarrow> char" where
  "digit_char d = char_of (48 + d)"

definition is_digit :: "char \<Rightarrow> bool" where
  "is_digit c \<longleftrightarrow> 48 \<le> (of_char c :: nat) \<and> (of_char c :: nat) \<le> 57"

definition digit_val :: "char \<Rightarrow> nat" where
  "digit_val c = of_char c - 48"

fun nat_digits :: "nat \<Rightarrow> string" where
  "nat_digits n = (if n < 10 then [digit_char n] else nat_digits (n div 10) @ [digit_char (n mod 10)])"

declare nat_digits.simps [simp del]

text \<open>\<^verbatim>\<open>strconv.FormatInt(x, 10)\<close>, also what \<^verbatim>\<open>%d\<close> prints.\<close>

definition format_int :: "int \<Rightarrow> string" where
  "format_int x = (if x < 0 then CHR ''-'' # nat_digits (nat (- x)) else nat_digits (nat x))"

definition digits_val :: "string \<Rightarrow> nat" where
  "digits_val s = foldl (\<lambda>n c. 10 * n + digit_val c) 0 s"

text \<open>
  \<^verbatim>\<open>strconv.ParseInt(s, 10, 64)\<close>: an optional sign, at least one digit, nothing else, and
  a value in the range of a signed 64-bit integer; \<^term>\<open>None\<close> is any of its errors.
\<close>

definition parse_digits :: "string \<Rightarrow> nat option" where
  "parse_digits s = (if s \<noteq> [] \<and> list_all is_digit s then Some (digits_val s) else None)"

definition parse_int64 :: "string \<Rightarrow> int option" where
  "parse_int64 s =
     (let (neg, ds) =
        (case s of
           [] \<Rightarrow> (False, [])
         | c # cs \<Rightarrow> if c = CHR ''-'' then (True, cs)
                    else if c = CHR ''+'' then (False, cs) else (False, s))
      in case parse_digits ds of
           None \<Rightarrow> None
         | Some n \<Rightarrow>
             (let v = (if neg then - int n else int n)
              in if i64_min \<le> v \<and> v \<le> i64_max then Some v else None))"

lemma of_char_digit_char: "d < 10 \<Longrightarrow> (of_char (digit_char d) :: nat) = 48 + d"
  by (simp add: digit_char_def)

lemma digit_char_is_digit: "d < 10 \<Longrightarrow> is_digit (digit_char d)"
  by (simp add: is_digit_def of_char_digit_char)

lemma digit_val_digit_char: "d < 10 \<Longrightarrow> digit_val (digit_char d) = d"
  by (simp add: digit_val_def of_char_digit_char)

lemma nat_digits_nonempty [simp]: "nat_digits n \<noteq> []"
  by (subst nat_digits.simps) simp

lemma nat_digits_all_digits: "list_all is_digit (nat_digits n)"
proof (induction n rule: nat_digits.induct)
  case (1 n)
  then show ?case
    by (subst nat_digits.simps) (simp add: digit_char_is_digit)
qed

lemma digits_val_append: "digits_val (s @ [c]) = 10 * digits_val s + digit_val c"
  by (simp add: digits_val_def)

lemma digits_val_nat_digits: "digits_val (nat_digits n) = n"
proof (induction n rule: nat_digits.induct)
  case (1 n)
  show ?case
  proof (cases "n < 10")
    case True
    then show ?thesis
      by (subst nat_digits.simps) (simp add: digits_val_def digit_val_digit_char)
  next
    case False
    then show ?thesis
      using "1.IH" by (subst nat_digits.simps) (simp add: digits_val_append digit_val_digit_char)
  qed
qed

lemma parse_digits_nat_digits: "parse_digits (nat_digits n) = Some n"
  by (simp add: parse_digits_def nat_digits_all_digits digits_val_nat_digits)

lemma is_digit_not_sign: "is_digit c \<Longrightarrow> c \<noteq> CHR ''-'' \<and> c \<noteq> CHR ''+''"
  by (auto simp: is_digit_def)

lemma nat_digits_ConsE:
  obtains c cs where "nat_digits n = c # cs" and "is_digit c"
  using nat_digits_all_digits [of n] nat_digits_nonempty [of n]
  by (cases "nat_digits n") auto

lemma parse_int64_format_int:
  assumes "i64_min \<le> x" and "x \<le> i64_max"
  shows "parse_int64 (format_int x) = Some x"
proof (cases "x < 0")
  case True
  then show ?thesis
    using assms by (simp add: parse_int64_def format_int_def parse_digits_nat_digits)
next
  case False
  obtain c cs where c: "nat_digits (nat x) = c # cs" "is_digit c"
    by (rule nat_digits_ConsE)
  have "parse_digits (c # cs) = Some (nat x)"
    using parse_digits_nat_digits [of "nat x"] c(1) by simp
  then show ?thesis
    using False assms c is_digit_not_sign [OF c(2)]
    by (simp add: parse_int64_def format_int_def)
qed

lemma format_int_chars: "c \<in> set (format_int x) \<Longrightarrow> is_digit c \<or> c = CHR ''-''"
  using nat_digits_all_digits by (auto simp: format_int_def list_all_iff split: if_splits)

lemma format_int_nonempty [simp]: "format_int x \<noteq> []"
  by (simp add: format_int_def)

lemma format_int_inject: "format_int x = format_int y \<longleftrightarrow> x = y"
proof
  assume eq: "format_int x = format_int y"
  have neg_iff: "(x < 0) = (y < 0)"
  proof -
    have hd_neg: "hd (format_int z) = CHR ''-'' \<longleftrightarrow> z < 0" for z
    proof (cases "z < 0")
      case False
      obtain c cs where "nat_digits (nat z) = c # cs" "is_digit c"
        by (rule nat_digits_ConsE)
      then show ?thesis using False is_digit_not_sign [of c] by (simp add: format_int_def)
    qed (simp add: format_int_def)
    show ?thesis using hd_neg [of x] hd_neg [of y] eq by simp
  qed
  have "nat_digits (nat \<bar>x\<bar>) = nat_digits (nat \<bar>y\<bar>)"
    using eq neg_iff by (auto simp: format_int_def split: if_splits)
  then have "nat \<bar>x\<bar> = nat \<bar>y\<bar>"
    by (metis digits_val_nat_digits)
  then show "x = y" using neg_iff by linarith
qed simp

section \<open>Standard library: binary search\<close>

text \<open>
  \<^verbatim>\<open>sort.SearchFloat64s(a, x)\<close> is \<^verbatim>\<open>sort.Search\<close> for the least index whose element is at
  least \<^term>\<open>x\<close>: it keeps \<^verbatim>\<open>i <= j\<close> and halves the interval. Floating-point numbers
  are any linearly ordered type here, since the search only compares them.
\<close>

function search_ge :: "'f::linorder list \<Rightarrow> 'f \<Rightarrow> nat \<Rightarrow> nat \<Rightarrow> nat" where
  "search_ge a x i j =
     (if i < j
      then (let h = (i + j) div 2
            in if \<not> (x \<le> a ! h) then search_ge a x (Suc h) j else search_ge a x i h)
      else i)"
  by pat_completeness auto
termination
  by (relation "measure (\<lambda>(a, x, i, j). j - i)") auto

declare search_ge.simps [simp del]

definition search_floats :: "'f::linorder list \<Rightarrow> 'f \<Rightarrow> nat" where
  "search_floats a x = search_ge a x 0 (length a)"

lemma search_ge_bounds: "i \<le> j \<Longrightarrow> i \<le> search_ge a x i j \<and> search_ge a x i j \<le> j"
proof (induction a x i j rule: search_ge.induct)
  case (1 a x i j)
  show ?case
  proof (cases "i < j")
    case True
    let ?h = "(i + j) div 2"
    have h: "i \<le> ?h" "?h < j" using True by auto
    show ?thesis
    proof (cases "x \<le> a ! ?h")
      case True
      then show ?thesis
        using "1.IH"(2) [OF \<open>i < j\<close> refl] h \<open>i < j\<close> by (auto simp: search_ge.simps [of a x i j] Let_def)
    next
      case False
      then show ?thesis
        using "1.IH"(1) [OF \<open>i < j\<close> refl] h \<open>i < j\<close> by (auto simp: search_ge.simps [of a x i j] Let_def)
    qed
  next
    case False
    then have "search_ge a x i j = i" by (subst search_ge.simps) simp
    then show ?thesis using "1.prems" by simp
  qed
qed

lemma search_floats_le: "search_floats a x \<le> length a"
  using search_ge_bounds [of 0 "length a" a x] by (simp add: search_floats_def)

lemma search_ge_step:
  "i < j \<Longrightarrow> search_ge a x i j =
     (if x \<le> a ! ((i + j) div 2) then search_ge a x i ((i + j) div 2)
      else search_ge a x (Suc ((i + j) div 2)) j)"
  by (subst search_ge.simps) (simp add: Let_def)

definition splits_at :: "'f::linorder list \<Rightarrow> 'f \<Rightarrow> nat \<Rightarrow> bool" where
  "splits_at a x s \<longleftrightarrow> (\<forall>k < s. a ! k < x) \<and> (\<forall>k. s \<le> k \<and> k < length a \<longrightarrow> x \<le> a ! k)"

lemma search_ge_correct:
  assumes "sorted a" and "j \<le> length a" and "i \<le> j"
    and "\<forall>k<i. a ! k < x" and "\<forall>k. j \<le> k \<and> k < length a \<longrightarrow> x \<le> a ! k"
  shows "splits_at a x (search_ge a x i j)"
  using assms
proof (induction a x i j rule: search_ge.induct)
  case (1 a x i j)
  show ?case
  proof (cases "i < j")
    case False
    then have "search_ge a x i j = i" by (subst search_ge.simps) simp
    then show ?thesis using False "1.prems" by (simp add: splits_at_def)
  next
    case ij: True
    define h where "h = (i + j) div 2"
    have h: "i \<le> h" "h < j" "h < length a" using ij "1.prems" by (auto simp: h_def)
    show ?thesis
    proof (cases "x \<le> a ! h")
      case True
      have "\<forall>k. h \<le> k \<and> k < length a \<longrightarrow> x \<le> a ! k"
        using True "1.prems"(1) by (meson order_trans sorted_nth_mono)
      then have "splits_at a x (search_ge a x i h)"
        using "1.IH"(2) [OF ij h_def] True h "1.prems" by simp
      then show ?thesis using True search_ge_step [OF ij, of a x] by (simp add: h_def)
    next
      case False
      have "a ! k < x" if "k < Suc h" for k
      proof -
        have "a ! k \<le> a ! h"
          using that h(3) "1.prems"(1) by (simp add: sorted_nth_mono)
        then show ?thesis using False by simp
      qed
      then have "splits_at a x (search_ge a x (Suc h) j)"
        using "1.IH"(1) [OF ij h_def] False h "1.prems" by simp
      then show ?thesis using False search_ge_step [OF ij, of a x] by (simp add: h_def)
    qed
  qed
qed

lemma search_floats_splits: "sorted a \<Longrightarrow> splits_at a x (search_floats a x)"
  unfolding search_floats_def by (rule search_ge_correct) auto

text \<open>On sorted bounds the binary search is the linear scan.\<close>

lemma search_floats_takeWhile:
  assumes "sorted a"
  shows "search_floats a x = length (takeWhile (\<lambda>b. b < x) a)"
proof -
  let ?s = "search_floats a x"
  have c: "\<forall>k < ?s. a ! k < x" "\<forall>k. ?s \<le> k \<and> k < length a \<longrightarrow> x \<le> a ! k"
    using search_floats_splits [OF assms, of x] by (simp_all add: splits_at_def)
  have "takeWhile (\<lambda>b. b < x) a = take ?s a"
  proof (rule takeWhile_eq_take_P_nth)
    show "a ! i < x" if "i < ?s" "i < length a" for i using c(1) that by simp
    show "\<not> a ! ?s < x" if "?s < length a" using c(2) that by (simp add: not_less)
  qed
  then show ?thesis using search_floats_le [of a x] by simp
qed

section \<open>Standard library: FNV-1a\<close>

definition fnv_offset64 :: u64 where
  "fnv_offset64 = 14695981039346656037"

definition fnv_prime64 :: u64 where
  "fnv_prime64 = 1099511628211"

definition fnv1a_step :: "u64 \<Rightarrow> u8 \<Rightarrow> u64" where
  "fnv1a_step h b = (h XOR ucast b) * fnv_prime64"

definition fnv1a_write :: "u64 \<Rightarrow> u8 list \<Rightarrow> u64" where
  "fnv1a_write h bs = foldl fnv1a_step h bs"

definition bytes_of :: "string \<Rightarrow> u8 list" where
  "bytes_of s = map of_char s"

lemma fnv1a_write_append: "fnv1a_write h (xs @ ys) = fnv1a_write (fnv1a_write h xs) ys"
  by (simp add: fnv1a_write_def)

section \<open>Outcomes of blocking calls\<close>

text \<open>
  A call that uses channels or indexes a slice may return, block for ever (no other goroutine
  can move it), or panic.
\<close>

datatype 'a outcome = Done 'a | Blocked | Panic

fun bind_outcome :: "'a outcome \<Rightarrow> ('a \<Rightarrow> 'b outcome) \<Rightarrow> 'b outcome" where
  "bind_outcome (Done x) f = f x"
| "bind_outcome Blocked f = Blocked"
| "bind_outcome Panic f = Panic"

lemma bind_outcome_Done_iff [simp]:
  "bind_outcome m f = Done y \<longleftrightarrow> (\<exists>x. m = Done x \<and> f x = Done y)"
  by (cases m) auto

lemma bind_outcome_cong [fundef_cong]:
  "m = m' \<Longrightarrow> (\<And>x. m' = Done x \<Longrightarrow> f x = f' x) \<Longrightarrow> bind_outcome m f = bind_outcome m' f'"
  by (cases m') auto

section \<open>Association lists, lists, words\<close>

lemma map_of_update [simp]: "map_of (AList.update k v al) = (map_of al)(k \<mapsto> v)"
  by (simp add: update_conv')

lemma of_nat_sum_list: "of_nat (sum_list xs) = sum_list (map of_nat xs)"
  by (induction xs) simp_all

lemma sum_list_update_alist:
  fixes f :: "'v \<Rightarrow> 'a::ab_group_add"
  shows "sum_list (map (f \<circ> snd) (AList.update k v al)) =
    sum_list (map (f \<circ> snd) al) + f v - (case map_of al k of None \<Rightarrow> 0 | Some w \<Rightarrow> f w)"
  by (induction al) (auto split: option.split)

lemma sum_list_update_word:
  fixes xs :: "('a::len) word list"
  shows "i < length xs \<Longrightarrow> sum_list (xs[i := xs ! i + 1]) = sum_list xs + 1"
  by (induction xs arbitrary: i) (auto split: nat.split simp: add.assoc add.commute add.left_commute)

lemma sum_list_replicate_0 [simp]: "sum_list (replicate n (0::('a::len) word)) = 0"
  by (induction n) auto

lemma card_insert_le_Suc: "finite A \<Longrightarrow> card (insert x A) \<le> Suc (card A)"
  by (simp add: card_insert_if)

section \<open>Loops that may fail\<close>

text \<open>A loop over a list that stops at the first error.\<close>

fun fold_result :: "('a \<Rightarrow> 's \<Rightarrow> 'e + 's) \<Rightarrow> 'a list \<Rightarrow> 's \<Rightarrow> 'e + 's" where
  "fold_result f [] s = Inr s"
| "fold_result f (x # xs) s = (case f x s of Inl e \<Rightarrow> Inl e | Inr s' \<Rightarrow> fold_result f xs s')"

lemma fold_result_append:
  "fold_result f (xs @ ys) s = (case fold_result f xs s of Inl e \<Rightarrow> Inl e | Inr s' \<Rightarrow> fold_result f ys s')"
  by (induction xs arbitrary: s) (simp_all split: sum.split)

lemma fold_result_fold:
  "(\<And>x s. x \<in> set xs \<Longrightarrow> f x s = Inr (g x s)) \<Longrightarrow> fold_result f xs s = Inr (fold g xs s)"
  by (induction xs arbitrary: s) simp_all

lemma fold_result_keeps:
  assumes "fold_result f xs s = Inr s'" and "P s"
    and "\<And>x s s'. x \<in> set xs \<Longrightarrow> P s \<Longrightarrow> f x s = Inr s' \<Longrightarrow> P s'"
  shows "P s'"
  using assms
proof (induction xs arbitrary: s)
  case (Cons x xs)
  obtain t where t: "f x s = Inr t" "fold_result f xs t = Inr s'"
    using Cons.prems(1) by (auto split: sum.splits)
  have "P t" using Cons.prems(2, 3) t(1) by (metis list.set_intros(1))
  then show ?case using Cons.IH [OF t(2)] Cons.prems(3) by (metis list.set_intros(2))
qed simp

end
