(* ===== verification/Pdata.thy ===== *)
theory Pdata
  imports Prelude
begin

text \<open>
  The trace data the processors read: attribute values and maps, spans, scopes and
  resources, as the source uses them through \<^verbatim>\<open>pcommon\<close> and \<^verbatim>\<open>ptrace\<close>. These types belong to
  a library that is not part of the repository; what is fixed here is the data the source
  reads from them. Rendering a value as a string (\<^verbatim>\<open>Value.AsString\<close>) is not fixed: the
  definitions that need it take it as an argument.
\<close>

section \<open>Attribute values and maps\<close>

text \<open>
  A value is a string, a 64-bit integer, a Boolean, or one of the kinds the source never
  looks into (double, map, slice, bytes), which only carries a handle.
\<close>

datatype pvalue = ValueStr string | ValueInt i64 | ValueBool bool | ValueOther nat

text \<open>\<^verbatim>\<open>Value.Str\<close> and \<^verbatim>\<open>Value.Int\<close> give the zero value on a value of another kind.\<close>

fun val_str :: "pvalue \<Rightarrow> string" where
  "val_str (ValueStr s) = s"
| "val_str _ = []"

fun val_int :: "pvalue \<Rightarrow> i64" where
  "val_int (ValueInt i) = i"
| "val_int _ = 0"

type_synonym attrs = "(string \<times> pvalue) list"

abbreviation attr_get :: "attrs \<Rightarrow> string \<Rightarrow> pvalue option" where
  "attr_get m k \<equiv> map_of m k"

abbreviation attr_put :: "string \<Rightarrow> pvalue \<Rightarrow> attrs \<Rightarrow> attrs" where
  "attr_put k v m \<equiv> AList.update k v m"

section \<open>Spans, scopes, resources\<close>

datatype span_kind = SpanKindUnspecified | SpanKindInternal | SpanKindServer | SpanKindClient
  | SpanKindProducer | SpanKindConsumer | SpanKindOther u32

datatype status_code = StatusCodeUnset | StatusCodeOk | StatusCodeError | StatusCodeOther u32

type_synonym trace_id = "u8 list"

record span =
  traceID :: trace_id
  spanID :: "u8 list"
  span_name :: string
  span_kind :: span_kind
  startTimestamp :: u64
  endTimestamp :: u64
  statusCode :: status_code
  span_attrs :: attrs
  traceState :: string

record scope_spans =
  scope_name :: string
  scope_spans_list :: "span list"

record resource_spans =
  resource_attrs :: attrs
  scopes :: "scope_spans list"

type_synonym traces = "resource_spans list"

text \<open>All spans under a resource, in order, and all spans of a payload.\<close>

definition spans_of_resource :: "resource_spans \<Rightarrow> span list" where
  "spans_of_resource rs = concat (map scope_spans_list (scopes rs))"

definition spans_of :: "traces \<Rightarrow> span list" where
  "spans_of td = concat (map spans_of_resource td)"

lemma spans_of_simps [simp]:
  "spans_of [] = []"
  "spans_of (rs # td) = spans_of_resource rs @ spans_of td"
  "spans_of (td @ td') = spans_of td @ spans_of td'"
  by (simp_all add: spans_of_def)

section \<open>Timestamps\<close>

text \<open>
  \<^verbatim>\<open>pcommon.Timestamp.AsTime\<close> reads the unsigned nanosecond count as a signed one; a time is
  its distance to the Unix epoch in nanoseconds. \<^verbatim>\<open>Duration.Milliseconds\<close> truncates.
\<close>

definition as_time :: "u64 \<Rightarrow> int" where
  "as_time ts = sint ts"

definition time_sub :: "int \<Rightarrow> int \<Rightarrow> int" where
  "time_sub a b = clamp_i64 (a - b)"

definition duration_ms :: "int \<Rightarrow> int" where
  "duration_ms d = go_quot d 1000000"

end
