(* ===== verification/Sampling.thy ===== *)
theory Sampling
  imports Pdata
begin

text \<open>
  The policy evaluators of the tail sampler
  (\<^verbatim>\<open>processor/signoztailsampler/internal/sampling\<close>) and the default evaluator of a policy
  group (\<^verbatim>\<open>processor/signoztailsampler/evaluator.go\<close>). The interface \<^verbatim>\<open>PolicyEvaluator\<close> is the
  datatype \<open>evaluator\<close> with one constructor per implementing type; \<open>evaluate\<close> is its method,
  which returns the decision, the error and the evaluator with its counters and caches updated.
\<close>

section \<open>Decisions and trace data\<close>

datatype decision = Unspecified | Pending | Sampled | NotSampled | Dropped | Error
  | InvertSampled | InvertNotSampled | NoResult

record trace_data =
  decisions :: "decision list"
  arrivalTime :: int
  decisionTime :: int
  spanCount :: i64
  receivedBatches :: traces
  finalDecision :: decision

section \<open>Traversals\<close>

text \<open>
  The traversals call closures that may change captured variables (the cache of a matcher,
  the extremes of the latency filter), so a callback takes and returns that state \<open>'s\<close>.
\<close>

type_synonym ('s, 'a) callback = "'s \<Rightarrow> 'a \<Rightarrow> bool \<times> 's"

fun spans_any :: "('s, span) callback \<Rightarrow> 's \<Rightarrow> span list \<Rightarrow> bool \<times> 's" where
  "spans_any check s [] = (False, s)"
| "spans_any check s (x # xs) =
     (let (b, s') = check s x in if b then (True, s') else spans_any check s' xs)"

fun hasInstrumentationLibrarySpanWithCondition ::
  "scope_spans list \<Rightarrow> ('s, span) callback \<Rightarrow> 's \<Rightarrow> bool \<times> 's" where
  "hasInstrumentationLibrarySpanWithCondition [] check s = (False, s)"
| "hasInstrumentationLibrarySpanWithCondition (ils # ilss) check s =
     (let (b, s') = spans_any check s (scope_spans_list ils)
      in if b then (True, s') else hasInstrumentationLibrarySpanWithCondition ilss check s')"

fun spans_all :: "('s, span) callback \<Rightarrow> 's \<Rightarrow> span list \<Rightarrow> bool \<times> 's" where
  "spans_all check s [] = (True, s)"
| "spans_all check s (x # xs) =
     (let (b, s') = check s x in if \<not> b then (False, s') else spans_all check s' xs)"

fun invertHasInstrumentationLibrarySpanWithCondition ::
  "scope_spans list \<Rightarrow> ('s, span) callback \<Rightarrow> 's \<Rightarrow> bool \<times> 's" where
  "invertHasInstrumentationLibrarySpanWithCondition [] check s = (True, s)"
| "invertHasInstrumentationLibrarySpanWithCondition (ils # ilss) check s =
     (let (b, s') = spans_all check s (scope_spans_list ils)
      in if \<not> b then (False, s') else invertHasInstrumentationLibrarySpanWithCondition ilss check s')"

fun hasResourceOrSpanWithCondition ::
  "traces \<Rightarrow> ('s, attrs) callback \<Rightarrow> ('s, span) callback \<Rightarrow> 's \<Rightarrow> decision \<times> 's" where
  "hasResourceOrSpanWithCondition [] fr fs s = (NotSampled, s)"
| "hasResourceOrSpanWithCondition (rs # td) fr fs s =
     (let (b, s1) = fr s (resource_attrs rs)
      in if b then (Sampled, s1)
         else (let (b', s2) = hasInstrumentationLibrarySpanWithCondition (scopes rs) fs s1
               in if b' then (Sampled, s2) else hasResourceOrSpanWithCondition td fr fs s2))"

fun invertHasResourceOrSpanWithCondition ::
  "traces \<Rightarrow> ('s, attrs) callback \<Rightarrow> ('s, span) callback \<Rightarrow> 's \<Rightarrow> decision \<times> 's" where
  "invertHasResourceOrSpanWithCondition [] fr fs s = (InvertSampled, s)"
| "invertHasResourceOrSpanWithCondition (rs # td) fr fs s =
     (let (b, s1) = fr s (resource_attrs rs)
      in if \<not> b then (InvertNotSampled, s1)
         else (let (b', s2) = invertHasInstrumentationLibrarySpanWithCondition (scopes rs) fs s1
               in if \<not> b' then (InvertNotSampled, s2)
                  else invertHasResourceOrSpanWithCondition td fr fs s2))"

fun hasSpanWithCondition :: "traces \<Rightarrow> ('s, span) callback \<Rightarrow> 's \<Rightarrow> decision \<times> 's" where
  "hasSpanWithCondition [] check s = (NotSampled, s)"
| "hasSpanWithCondition (rs # td) check s =
     (let (b, s') = hasInstrumentationLibrarySpanWithCondition (scopes rs) check s
      in if b then (Sampled, s') else hasSpanWithCondition td check s')"

section \<open>The parts of the environment the evaluators call\<close>

text \<open>
  What the evaluators read that is not theirs: the current Unix second, compiled regular
  expressions (\<^verbatim>\<open>regexp\<close>, written as their pattern), the LRU cache of match results
  (\<^verbatim>\<open>groupcache/lru\<close>, a library outside the repository) and the trace-state parser of the
  OpenTelemetry SDK. \<^term>\<open>traceStateGet\<close> gives \<^term>\<open>None\<close> when parsing fails.
\<close>

record 'c eval_env =
  curSecond :: i64
  reValid :: "string \<Rightarrow> bool"
  reMatch :: "string \<Rightarrow> string \<Rightarrow> bool"
  cacheNew :: "int \<Rightarrow> 'c"
  cacheGet :: "'c \<Rightarrow> string \<Rightarrow> bool option \<times> 'c"
  cacheAdd :: "'c \<Rightarrow> string \<Rightarrow> bool \<Rightarrow> 'c"
  traceStateGet :: "string \<Rightarrow> string \<Rightarrow> string option"

section \<open>Matchers of the string filters\<close>

datatype 'c matcher = ExactMatcher "string list" | RegexMatcher 'c "string list"

fun matcher_run :: "'c eval_env \<Rightarrow> ('c matcher, string) callback" where
  "matcher_run env (ExactMatcher vs) toMatch = (toMatch \<in> set vs, ExactMatcher vs)"
| "matcher_run env (RegexMatcher c rs) toMatch =
     (case cacheGet env c toMatch of
        (Some v, c') \<Rightarrow> (v, RegexMatcher c' rs)
      | (None, c') \<Rightarrow>
          (let b = list_ex (\<lambda>r. reMatch env r toMatch) rs
           in (b, RegexMatcher (cacheAdd env c' toMatch b) rs)))"

text \<open>The pair of callbacks of \<^verbatim>\<open>stringAttributeFilter.Evaluate\<close>, plain and inverted.\<close>

definition string_resource_cb :: "'c eval_env \<Rightarrow> string \<Rightarrow> ('c matcher, attrs) callback" where
  "string_resource_cb env key m resource =
     (case attr_get resource key of
        Some v \<Rightarrow> matcher_run env m (val_str v)
      | None \<Rightarrow> (False, m))"

definition string_span_cb :: "'c eval_env \<Rightarrow> string \<Rightarrow> ('c matcher, span) callback" where
  "string_span_cb env key m sp =
     (case attr_get (span_attrs sp) key of
        Some v \<Rightarrow> if length (val_str v) > 0 then matcher_run env m (val_str v) else (False, m)
      | None \<Rightarrow> (False, m))"

definition negate_cb :: "('s, 'a) callback \<Rightarrow> ('s, 'a) callback" where
  "negate_cb f s x = (let (b, s') = f s x in (\<not> b, s'))"

section \<open>Evaluators\<close>

datatype 'c evaluator =
    AlwaysSample
  | NeverSample
  | NumericAttributeFilter string i64 i64
  | StringAttributeFilter string "'c matcher" bool
  | ProbabilisticSampler u64 string
  | RateLimiting i64 i64 i64
  | SpanCountSampler u32
  | StatusCodeFilter "status_code list"
  | LatencyFilter i64
  | TraceStateFilter string "string list"
  | AndPolicy "'c evaluator list"
  | CompositePolicy "('c evaluator \<times> i64 \<times> i64) list" i64 i64
  | DefaultEvaluator string "'c evaluator" string "'c evaluator list" "'c evaluator list"

text \<open>
  The fields are those of the structs: \<open>RateLimiting currentSecond spansInCurrentSecond
  spansPerSecond\<close>; \<open>CompositePolicy subpolicies maxTotalSPS currentSecond\<close>, a sub-policy being
  its evaluator with \<open>allocatedSPS\<close> and \<open>sampledSPS\<close>; \<open>DefaultEvaluator name sampler
  filterOperator filters subEvaluators\<close>.
\<close>

text \<open>An evaluation gives a decision and, when it failed, the text of the error.\<close>

type_synonym eval_result = "decision \<times> string option"

definition hashTraceID :: "string \<Rightarrow> trace_id \<Rightarrow> u64" where
  "hashTraceID salt b = fnv1a_write (fnv1a_write fnv_offset64 (bytes_of salt)) b"

definition numeric_cb :: "string \<Rightarrow> i64 \<Rightarrow> i64 \<Rightarrow> (unit, span) callback" where
  "numeric_cb key minValue maxValue s sp =
     (case attr_get (span_attrs sp) key of
        Some v \<Rightarrow> (sint minValue \<le> sint (val_int v) \<and> sint (val_int v) \<le> sint maxValue, s)
      | None \<Rightarrow> (False, s))"

definition latency_cb :: "i64 \<Rightarrow> (u64 \<times> u64, span) callback" where
  "latency_cb thresholdMs s sp =
     (let (minTime, maxTime) = s;
          minTime' = (if minTime = 0 \<or> startTimestamp sp < minTime then startTimestamp sp else minTime);
          maxTime' = (if maxTime = 0 \<or> maxTime < endTimestamp sp then endTimestamp sp else maxTime);
          duration = time_sub (as_time maxTime') (as_time minTime')
      in (sint thresholdMs \<le> duration_ms duration, (minTime', maxTime')))"

definition status_cb :: "status_code list \<Rightarrow> (unit, span) callback" where
  "status_cb codes s sp = (list_ex (\<lambda>c. statusCode sp = c) codes, s)"

definition trace_state_cb :: "'c eval_env \<Rightarrow> string \<Rightarrow> string list \<Rightarrow> (unit, span) callback" where
  "trace_state_cb env key vs s sp =
     (case traceStateGet env (traceState sp) key of
        None \<Rightarrow> (False, s)
      | Some v \<Rightarrow> (v \<in> set vs, s))"

definition evaluate_string ::
  "'c eval_env \<Rightarrow> string \<Rightarrow> 'c matcher \<Rightarrow> bool \<Rightarrow> trace_data \<Rightarrow> decision \<times> 'c matcher" where
  "evaluate_string env key m invertMatch trace =
     (if invertMatch
      then invertHasResourceOrSpanWithCondition (receivedBatches trace)
             (negate_cb (string_resource_cb env key)) (negate_cb (string_span_cb env key)) m
      else hasResourceOrSpanWithCondition (receivedBatches trace)
             (string_resource_cb env key) (string_span_cb env key) m)"

definition evaluate_rate ::
  "i64 \<Rightarrow> i64 \<Rightarrow> i64 \<Rightarrow> i64 \<Rightarrow> trace_data \<Rightarrow> decision \<times> i64 \<times> i64" where
  "evaluate_rate currSecond currentSecond spansInCurrentSecond spansPerSecond trace =
     (let (cs, n) = (if currentSecond \<noteq> currSecond then (currSecond, 0)
                     else (currentSecond, spansInCurrentSecond));
          spansInSecondIfSampled = n + spanCount trace
      in if spansInSecondIfSampled <s spansPerSecond
         then (Sampled, cs, spansInSecondIfSampled)
         else (NotSampled, cs, n))"

section \<open>Evaluation of composed policies\<close>

text \<open>
  The loops over sub-evaluators call the interface method, here \<open>ev\<close>, and keep every
  evaluator they called with its state updated.
\<close>

type_synonym 'e evaluate_call = "'e \<Rightarrow> eval_result \<times> 'e"

text \<open>\<^verbatim>\<open>And.Evaluate\<close>\<close>

fun and_loop :: "'e evaluate_call \<Rightarrow> 'e list \<Rightarrow> eval_result \<times> 'e list" where
  "and_loop ev [] = ((Sampled, None), [])"
| "and_loop ev (e # es) =
     (let ((d, err), e') = ev e
      in if err \<noteq> None then ((Unspecified, err), e' # es)
         else if d = NotSampled \<or> d = InvertNotSampled then ((NotSampled, None), e' # es)
         else (let (r, es') = and_loop ev es in (r, e' # es')))"

text \<open>\<^verbatim>\<open>Composite.Evaluate\<close>: a sub-policy is its evaluator, \<open>allocatedSPS\<close> and \<open>sampledSPS\<close>.\<close>

type_synonym 'e subpolicy = "'e \<times> i64 \<times> i64"

fun composite_loop ::
  "'e evaluate_call \<Rightarrow> i64 \<Rightarrow> i64 \<Rightarrow> 'e subpolicy list \<Rightarrow> eval_result \<times> 'e subpolicy list" where
  "composite_loop ev maxTotalSPS spans [] = ((NotSampled, None), [])"
| "composite_loop ev maxTotalSPS spans ((e, alloc, n) # subs) =
     (let ((d, err), e') = ev e
      in if err \<noteq> None then ((Unspecified, err), (e', alloc, n) # subs)
         else if d = Sampled \<or> d = InvertSampled
         then (let spansInSecondIfSampled = n + spans
               in if spansInSecondIfSampled \<le>s alloc \<and> spansInSecondIfSampled \<le>s maxTotalSPS
                  then ((Sampled, None), (e', alloc, spansInSecondIfSampled) # subs)
                  else ((NotSampled, None), (e', alloc, n) # subs))
         else (let (r, subs') = composite_loop ev maxTotalSPS spans subs
               in (r, (e', alloc, n) # subs')))"

definition reset_sps :: "'e subpolicy list \<Rightarrow> 'e subpolicy list" where
  "reset_sps subs = map (\<lambda>(e, alloc, n). (e, alloc, 0)) subs"

text \<open>The two loops of \<^verbatim>\<open>defaultEvaluator.Evaluate\<close>: filters, then sub-policies.\<close>

fun filter_loop :: "'e evaluate_call \<Rightarrow> string \<Rightarrow> 'e list \<Rightarrow> bool \<Rightarrow> (decision + bool) \<times> 'e list" where
  "filter_loop ev op [] matched = (Inr matched, [])"
| "filter_loop ev op (f # fs) matched =
     (let ((d, err), f') = ev f
      in if err \<noteq> None then (Inl Error, f' # fs)
         else if d = NotSampled \<and> to_lower op = ''and'' then (Inl NoResult, f' # fs)
         else (let (r, fs') = filter_loop ev op fs (matched \<or> d = Sampled)
               in (r, f' # fs')))"

fun sub_loop :: "'e evaluate_call \<Rightarrow> 'e list \<Rightarrow> decision option \<times> 'e list" where
  "sub_loop ev [] = (None, [])"
| "sub_loop ev (e # es) =
     (let ((d, err), e') = ev e
      in if err = None \<and> d \<noteq> NoResult then (Some d, e' # es)
         else (let (r, es') = sub_loop ev es in (r, e' # es')))"

lemma and_loop_cong [fundef_cong]:
  assumes "es = es'" and "\<And>e. e \<in> set es' \<Longrightarrow> ev e = ev' e"
  shows "and_loop ev es = and_loop ev' es'"
  unfolding assms(1) using assms(2) by (induction es') (simp_all add: Let_def split_beta)

lemma composite_loop_cong [fundef_cong]:
  assumes "m = m'" "n = n'" "subs = subs'" and "\<And>s. s \<in> set subs' \<Longrightarrow> ev (fst s) = ev' (fst s)"
  shows "composite_loop ev m n subs = composite_loop ev' m' n' subs'"
  unfolding assms(1-3) using assms(4)
proof (induction subs')
  case (Cons s subs')
  obtain e alloc k where s: "s = (e, alloc, k)" by (cases s)
  have "ev e = ev' e" using Cons.prems [of s] s by simp
  moreover have "composite_loop ev m' n' subs' = composite_loop ev' m' n' subs'"
    using Cons by simp
  ultimately show ?case by (simp add: s Let_def split_beta)
qed simp

lemma filter_loop_cong [fundef_cong]:
  assumes "op = op'" "fs = fs'" "b = b'" and "\<And>e. e \<in> set fs' \<Longrightarrow> ev e = ev' e"
  shows "filter_loop ev op fs b = filter_loop ev' op' fs' b'"
  unfolding assms(1-3) using assms(4)
  by (induction fs' arbitrary: b') (simp_all add: Let_def split_beta)

lemma sub_loop_cong [fundef_cong]:
  assumes "es = es'" and "\<And>e. e \<in> set es' \<Longrightarrow> ev e = ev' e"
  shows "sub_loop ev es = sub_loop ev' es'"
  unfolding assms(1) using assms(2) by (induction es') (simp_all add: Let_def split_beta)

text \<open>\<^verbatim>\<open>defaultEvaluator.Evaluate\<close>, over the interface method.\<close>

definition default_evaluate ::
  "'e evaluate_call \<Rightarrow> string \<Rightarrow> 'e list \<Rightarrow> 'e list \<Rightarrow> 'e \<Rightarrow> eval_result \<times> 'e list \<times> 'e list \<times> 'e" where
  "default_evaluate ev op filters subs sampler =
     (case filter_loop ev op filters False of
        (Inl d, filters') \<Rightarrow> ((d, None), filters', subs, sampler)
      | (Inr matched, filters') \<Rightarrow>
          (if matched
           then (case sub_loop ev subs of
                   (Some d, subs') \<Rightarrow> ((d, None), filters', subs', sampler)
                 | (None, subs') \<Rightarrow>
                     (let (r, sampler') = ev sampler in (r, filters', subs', sampler')))
           else ((NoResult, None), filters', subs, sampler)))"

lemma default_evaluate_cong [fundef_cong]:
  assumes "op = op'" "fs = fs'" "subs = subs'" "s = s'"
    and "\<And>e. e \<in> set fs' \<union> set subs' \<union> {s'} \<Longrightarrow> ev e = ev' e"
  shows "default_evaluate ev op fs subs s = default_evaluate ev' op' fs' subs' s'"
proof -
  have "filter_loop ev op' fs' False = filter_loop ev' op' fs' False"
    "sub_loop ev subs' = sub_loop ev' subs'" "ev s' = ev' s'"
    using assms(5) by (auto intro!: filter_loop_cong sub_loop_cong)
  then show ?thesis
    unfolding default_evaluate_def assms(1-4) by (auto split: sum.splits option.splits prod.splits)
qed

lemma subpolicy_size:
  assumes "(e, alloc, n) \<in> set (if c then reset_sps subs else subs)"
  shows "size e \<le> size_list (size_prod size (\<lambda>x. 0)) subs"
proof -
  obtain n' where "(e, alloc, n') \<in> set subs"
    using assms by (auto simp: reset_sps_def split: if_splits)
  then show ?thesis
    by (rule size_list_estimation') simp
qed

section \<open>The interface method\<close>

text \<open>\<^verbatim>\<open>Evaluate\<close> of the policies that keep no state.\<close>

definition evaluate_numeric :: "string \<Rightarrow> i64 \<Rightarrow> i64 \<Rightarrow> trace_data \<Rightarrow> decision" where
  "evaluate_numeric key minValue maxValue trace =
     fst (hasSpanWithCondition (receivedBatches trace) (numeric_cb key minValue maxValue) ())"

definition evaluate_probabilistic :: "u64 \<Rightarrow> string \<Rightarrow> trace_id \<Rightarrow> decision" where
  "evaluate_probabilistic threshold salt tid =
     (if hashTraceID salt tid \<le> threshold then Sampled else NotSampled)"

definition evaluate_span_count :: "u32 \<Rightarrow> trace_data \<Rightarrow> decision" where
  "evaluate_span_count minSpans trace =
     (if sint minSpans \<le> sint (spanCount trace) then Sampled else NotSampled)"

definition evaluate_status_code :: "status_code list \<Rightarrow> trace_data \<Rightarrow> decision" where
  "evaluate_status_code codes trace =
     fst (hasSpanWithCondition (receivedBatches trace) (status_cb codes) ())"

definition evaluate_latency :: "i64 \<Rightarrow> trace_data \<Rightarrow> decision" where
  "evaluate_latency thresholdMs trace =
     fst (hasSpanWithCondition (receivedBatches trace) (latency_cb thresholdMs) (0, 0))"

definition evaluate_trace_state :: "'c eval_env \<Rightarrow> string \<Rightarrow> string list \<Rightarrow> trace_data \<Rightarrow> decision" where
  "evaluate_trace_state env key vs trace =
     fst (hasSpanWithCondition (receivedBatches trace) (trace_state_cb env key vs) ())"

lemmas evaluate_stateless =
  evaluate_numeric_def evaluate_probabilistic_def evaluate_span_count_def
  evaluate_status_code_def evaluate_latency_def evaluate_trace_state_def

declare evaluate_stateless [simp]

function evaluate ::
  "'c eval_env \<Rightarrow> trace_id \<Rightarrow> trace_data \<Rightarrow> 'c evaluator \<Rightarrow> eval_result \<times> 'c evaluator" where
  "evaluate env tid trace AlwaysSample = ((Sampled, None), AlwaysSample)"
| "evaluate env tid trace NeverSample = ((NotSampled, None), NeverSample)"
| "evaluate env tid trace (NumericAttributeFilter key lo hi) =
     ((evaluate_numeric key lo hi trace, None),
      NumericAttributeFilter key lo hi)"
| "evaluate env tid trace (StringAttributeFilter key m ivt) =
     (let (d, m') = evaluate_string env key m ivt trace
      in ((d, None), StringAttributeFilter key m' ivt))"
| "evaluate env tid trace (ProbabilisticSampler threshold salt) =
     ((evaluate_probabilistic threshold salt tid, None),
      ProbabilisticSampler threshold salt)"
| "evaluate env tid trace (RateLimiting cs n sps) =
     (let (d, cs', n') = evaluate_rate (curSecond env) cs n sps trace
      in ((d, None), RateLimiting cs' n' sps))"
| "evaluate env tid trace (SpanCountSampler minSpans) =
     ((evaluate_span_count minSpans trace, None),
      SpanCountSampler minSpans)"
| "evaluate env tid trace (StatusCodeFilter codes) =
     ((evaluate_status_code codes trace, None),
      StatusCodeFilter codes)"
| "evaluate env tid trace (LatencyFilter thr) =
     ((evaluate_latency thr trace, None),
      LatencyFilter thr)"
| "evaluate env tid trace (TraceStateFilter key vs) =
     ((evaluate_trace_state env key vs trace, None),
      TraceStateFilter key vs)"
| "evaluate env tid trace (AndPolicy subs) =
     (let (r, subs') = and_loop (evaluate env tid trace) subs in (r, AndPolicy subs'))"
| "evaluate env tid trace (CompositePolicy subs maxTotal cs) =
     (let newSecond = cs \<noteq> curSecond env;
          (r, subs') = composite_loop (evaluate env tid trace) maxTotal (spanCount trace)
             (if newSecond then reset_sps subs else subs)
      in (r, CompositePolicy subs' maxTotal (curSecond env)))"
| "evaluate env tid trace (DefaultEvaluator nm sampler op filters subs) =
     (let (r, filters', subs', sampler') =
        default_evaluate (evaluate env tid trace) op filters subs sampler
      in (r, DefaultEvaluator nm sampler' op filters' subs'))"
  by pat_completeness auto
termination
proof (relation "measure (\<lambda>(env, tid, trace, e). size e)", goal_cases)
  case (3 env tid trace subs maxTotal cs x s)
  then show ?case
    using subpolicy_size [of "fst s" "fst (snd s)" "snd (snd s)" x subs] by (auto simp: less_Suc_eq_le)
qed (auto simp: less_Suc_eq_le size_list_estimation' trans_le_add1 trans_le_add2)

section \<open>The contract of the interface\<close>

text \<open>
  Every evaluator of the package succeeds, so the error branches of the loops are never
  taken. Over a method with this law the loops compute what their comments say: the
  decision of each sub-evaluator is a function of the evaluator before the call, since
  each is called at most once per trace.
\<close>

locale policy_method =
  fixes ev :: "'e \<Rightarrow> eval_result \<times> 'e"
  assumes no_error: "snd (fst (ev e)) = None"
begin

lemma ev_cases: "\<exists>d e'. ev e = ((d, None), e')"
  using no_error [of e] by (cases "ev e") (auto simp: prod_eq_iff)

lemma and_loop_result:
  "fst (and_loop ev es) =
     (if \<exists>e \<in> set es. fst (fst (ev e)) \<in> {NotSampled, InvertNotSampled} then NotSampled else Sampled, None)"
proof (induction es)
  case (Cons e es)
  obtain d e' where "ev e = ((d, None), e')" using ev_cases by blast
  then show ?case using Cons by (auto simp: Let_def split_beta)
qed simp

lemma filter_loop_result:
  "fst (filter_loop ev op fs b) =
     (if to_lower op = ''and'' \<and> (\<exists>f \<in> set fs. fst (fst (ev f)) = NotSampled) then Inl NoResult
      else Inr (b \<or> (\<exists>f \<in> set fs. fst (fst (ev f)) = Sampled)))"
proof (induction fs arbitrary: b)
  case (Cons f fs)
  obtain d f' where "ev f = ((d, None), f')" using ev_cases by blast
  then show ?case using Cons by (auto simp: Let_def split_beta)
qed simp

lemma sub_loop_result:
  "fst (sub_loop ev es) = find (\<lambda>d. d \<noteq> NoResult) (map (\<lambda>e. fst (fst (ev e))) es)"
proof (induction es)
  case (Cons e es)
  obtain d e' where "ev e = ((d, None), e')" using ev_cases by blast
  then show ?case using Cons by (auto simp: Let_def split_beta)
qed simp

lemma default_evaluate_result:
  "fst (default_evaluate ev op fs subs s) =
     (if (to_lower op = ''and'' \<and> (\<exists>f \<in> set fs. fst (fst (ev f)) = NotSampled))
         \<or> \<not> (\<exists>f \<in> set fs. fst (fst (ev f)) = Sampled)
      then NoResult
      else (case find (\<lambda>d. d \<noteq> NoResult) (map (\<lambda>e. fst (fst (ev e))) subs) of
              Some d \<Rightarrow> d
            | None \<Rightarrow> fst (fst (ev s))), None)"
  using filter_loop_result [of op fs False] sub_loop_result [of subs] ev_cases [of s]
  by (cases "filter_loop ev op fs False"; cases "sub_loop ev subs")
     (auto simp: default_evaluate_def split: sum.splits option.splits)

end

lemma loops_no_error:
  assumes "\<And>e. e \<in> set es \<Longrightarrow> snd (fst (ev e)) = None"
  shows "snd (fst (and_loop ev es)) = None"
  using assms by (induction es) (auto simp: Let_def split_beta)

lemma composite_no_error:
  assumes "\<And>s. s \<in> set subs \<Longrightarrow> snd (fst (ev (fst s))) = None"
  shows "snd (fst (composite_loop ev m n subs)) = None"
  using assms
proof (induction subs)
  case (Cons s subs)
  obtain e alloc k where s: "s = (e, alloc, k)" by (cases s)
  have "snd (fst (ev e)) = None" using Cons.prems [of s] s by simp
  then show ?case using Cons s by (simp add: Let_def split_beta)
qed simp

lemma filter_loop_Inl: "fst (filter_loop ev op fs b) = Inl d \<Longrightarrow> d \<in> {Error, NoResult}"
  by (induction fs arbitrary: b) (auto simp: Let_def split_beta split: if_splits)

lemma default_no_error:
  assumes "snd (fst (ev s)) = None"
  shows "snd (fst (default_evaluate ev op fs subs s)) = None"
  using assms by (auto simp: default_evaluate_def Let_def split_beta split: sum.splits option.splits prod.splits)

lemma evaluate_no_error: "snd (fst (evaluate env tid trace e)) = None"
proof (induction env tid trace e rule: evaluate.induct)
  case (11 env tid trace subs)
  then show ?case using loops_no_error [of subs "evaluate env tid trace"] by (simp add: split_beta)
next
  case (12 env tid trace subs maxTotal cs)
  then show ?case
    using composite_no_error [of "if cs \<noteq> curSecond env then reset_sps subs else subs" "evaluate env tid trace"]
    by (simp add: split_beta Let_def)
next
  case (13 env tid trace nm sampler op filters subs)
  then show ?case using default_no_error [of "evaluate env tid trace" sampler] by (simp add: split_beta)
qed (simp_all add: split_beta)

interpretation pe: policy_method "evaluate env tid trace" for env tid trace
  by unfold_locales (rule evaluate_no_error)

lemma evaluate_DefaultEvaluator:
  "fst (evaluate env tid trace (DefaultEvaluator nm s op fs subs)) =
     (if (to_lower op = ''and'' \<and> (\<exists>f \<in> set fs. fst (fst (evaluate env tid trace f)) = NotSampled))
         \<or> \<not> (\<exists>f \<in> set fs. fst (fst (evaluate env tid trace f)) = Sampled)
      then NoResult
      else (case find (\<lambda>d. d \<noteq> NoResult) (map (\<lambda>e. fst (fst (evaluate env tid trace e))) subs) of
              Some d \<Rightarrow> d
            | None \<Rightarrow> fst (fst (evaluate env tid trace s))), None)"
  using pe.default_evaluate_result [of env tid trace op fs subs s] by (simp add: split_beta)

end
