(* ===== verification/SamplingSpec.thy ===== *)
theory SamplingSpec
  imports Sampling
begin

text \<open>
  What the evaluators decide, free of traversal order, caches and counters: the string filter
  against the regular expressions themselves, the latency filter against the extent of the
  trace, the rate limiters against the number of spans let through in a second.
\<close>

section \<open>Traversals without side effects on the verdict\<close>

text \<open>
  A callback computes a predicate when its verdict is that predicate in every state of an
  invariant, which it keeps.
\<close>

definition computes :: "('s \<Rightarrow> bool) \<Rightarrow> ('s, 'a) callback \<Rightarrow> ('a \<Rightarrow> bool) \<Rightarrow> bool" where
  "computes I f P \<longleftrightarrow> (\<forall>s x. I s \<longrightarrow> fst (f s x) = P x \<and> I (snd (f s x)))"

lemma computesD: "computes I f P \<Longrightarrow> I s \<Longrightarrow> fst (f s x) = P x \<and> I (snd (f s x))"
  by (simp add: computes_def)

lemma computes_negate: "computes I f P \<Longrightarrow> computes I (negate_cb f) (\<lambda>x. \<not> P x)"
  by (simp add: computes_def negate_cb_def split_beta)

lemma spans_any_append:
  "spans_any f s (xs @ ys) =
     (let (b, s') = spans_any f s xs in if b then (True, s') else spans_any f s' ys)"
  by (induction xs arbitrary: s) (auto simp: Let_def split_beta)

lemma hasIL_spans_any:
  "hasInstrumentationLibrarySpanWithCondition ilss f s = spans_any f s (concat (map scope_spans_list ilss))"
  by (induction ilss arbitrary: s) (auto simp: spans_any_append Let_def split_beta)

lemma spans_all_any:
  "spans_all f s xs = (let (b, s') = spans_any (negate_cb f) s xs in (\<not> b, s'))"
  by (induction xs arbitrary: s) (auto simp: negate_cb_def Let_def split_beta)

lemma invertHasIL_spans_any:
  "invertHasInstrumentationLibrarySpanWithCondition ilss f s =
     (let (b, s') = spans_any (negate_cb f) s (concat (map scope_spans_list ilss)) in (\<not> b, s'))"
  by (induction ilss arbitrary: s) (auto simp: spans_all_any spans_any_append Let_def split_beta)

lemma hasSpan_spans_any:
  "hasSpanWithCondition td f s =
     (let (b, s') = spans_any f s (spans_of td) in (if b then Sampled else NotSampled, s'))"
  by (induction td arbitrary: s)
    (auto simp: hasIL_spans_any spans_any_append spans_of_resource_def Let_def split_beta)

lemma spans_any_computes:
  "computes I f P \<Longrightarrow> I s \<Longrightarrow>
   fst (spans_any f s xs) = (\<exists>x \<in> set xs. P x) \<and> I (snd (spans_any f s xs))"
proof (induction xs arbitrary: s)
  case (Cons x xs)
  have "fst (f s x) = P x" "I (snd (f s x))"
    using computesD [OF Cons.prems] by simp_all
  then show ?case using Cons.IH [OF Cons.prems(1)] by (auto simp: Let_def split_beta)
qed simp

text \<open>A payload has a hit when a resource or a span under it satisfies its predicate.\<close>

definition has_hit :: "(attrs \<Rightarrow> bool) \<Rightarrow> (span \<Rightarrow> bool) \<Rightarrow> traces \<Rightarrow> bool" where
  "has_hit PR PS td \<longleftrightarrow>
     (\<exists>rs \<in> set td. PR (resource_attrs rs) \<or> (\<exists>sp \<in> set (spans_of_resource rs). PS sp))"

lemma hasResourceOrSpan_computes:
  assumes R: "computes I fr PR" and S: "computes I fs PS"
  shows "I s \<Longrightarrow>
     fst (hasResourceOrSpanWithCondition td fr fs s) = (if has_hit PR PS td then Sampled else NotSampled)
     \<and> I (snd (hasResourceOrSpanWithCondition td fr fs s))"
proof (induction td arbitrary: s)
  case (Cons rs td)
  let ?s1 = "snd (fr s (resource_attrs rs))"
  let ?r = "spans_any fs ?s1 (spans_of_resource rs)"
  have 1: "fst (fr s (resource_attrs rs)) = PR (resource_attrs rs)" "I ?s1"
    using computesD [OF R Cons.prems] by simp_all
  have 2: "fst ?r = (\<exists>sp \<in> set (spans_of_resource rs). PS sp)" "I (snd ?r)"
    using spans_any_computes [OF S 1(2)] by simp_all
  show ?case
    using 1 2 Cons.IH [OF 2(2)]
    by (auto simp: has_hit_def hasIL_spans_any spans_of_resource_def Let_def split_beta)
qed (simp add: has_hit_def)

lemma invertHasResourceOrSpan_computes:
  assumes R: "computes I fr (\<lambda>x. \<not> PR x)" and S: "computes I fs (\<lambda>x. \<not> PS x)"
  shows "I s \<Longrightarrow>
     fst (invertHasResourceOrSpanWithCondition td fr fs s) =
       (if has_hit PR PS td then InvertNotSampled else InvertSampled)
     \<and> I (snd (invertHasResourceOrSpanWithCondition td fr fs s))"
proof (induction td arbitrary: s)
  case (Cons rs td)
  let ?s1 = "snd (fr s (resource_attrs rs))"
  let ?r = "spans_any (negate_cb fs) ?s1 (spans_of_resource rs)"
  have 1: "fst (fr s (resource_attrs rs)) = (\<not> PR (resource_attrs rs))" "I ?s1"
    using computesD [OF R Cons.prems] by simp_all
  have 2: "fst ?r = (\<exists>sp \<in> set (spans_of_resource rs). PS sp)" "I (snd ?r)"
    using spans_any_computes [OF computes_negate [OF S] 1(2)] by simp_all
  show ?case
    using 1 2 Cons.IH [OF 2(2)]
    by (auto simp: has_hit_def invertHasIL_spans_any spans_of_resource_def Let_def split_beta)
qed (simp add: has_hit_def)

section \<open>The string filter and its cache\<close>

text \<open>
  What the filter relies on in the LRU cache: a hit is an entry that was stored, storing adds
  no entry but the one given, and looking up adds none. Which entries are evicted is open.
\<close>

definition lru_contract :: "'c eval_env \<Rightarrow> ('c \<Rightarrow> (string \<times> bool) set) \<Rightarrow> bool" where
  "lru_contract env entries \<longleftrightarrow>
     (\<forall>n. entries (cacheNew env n) = {}) \<and>
     (\<forall>c k v c'. cacheGet env c k = (Some v, c') \<longrightarrow> (k, v) \<in> entries c \<and> entries c' \<subseteq> entries c) \<and>
     (\<forall>c k c'. cacheGet env c k = (None, c') \<longrightarrow> entries c' \<subseteq> entries c) \<and>
     (\<forall>c k v. entries (cacheAdd env c k v) \<subseteq> insert (k, v) (entries c))"

fun matcher_matches :: "'c eval_env \<Rightarrow> 'c matcher \<Rightarrow> string \<Rightarrow> bool" where
  "matcher_matches env (ExactMatcher vs) s \<longleftrightarrow> s \<in> set vs"
| "matcher_matches env (RegexMatcher c rs) s \<longleftrightarrow> (\<exists>r \<in> set rs. reMatch env r s)"

fun matcher_coherent :: "'c eval_env \<Rightarrow> ('c \<Rightarrow> (string \<times> bool) set) \<Rightarrow> 'c matcher \<Rightarrow> bool" where
  "matcher_coherent env entries (ExactMatcher vs) = True"
| "matcher_coherent env entries (RegexMatcher c rs) \<longleftrightarrow>
     (\<forall>(k, v) \<in> entries c. v = (\<exists>r \<in> set rs. reMatch env r k))"

definition same_rules :: "'c eval_env \<Rightarrow> ('c \<Rightarrow> (string \<times> bool) set) \<Rightarrow> 'c matcher \<Rightarrow> 'c matcher \<Rightarrow> bool" where
  "same_rules env entries m m' \<longleftrightarrow>
     matcher_coherent env entries m' \<and> matcher_matches env m' = matcher_matches env m"

lemma matcher_run_correct:
  assumes "lru_contract env entries" and "same_rules env entries m0 m"
  shows "fst (matcher_run env m s) = matcher_matches env m0 s
       \<and> same_rules env entries m0 (snd (matcher_run env m s))"
proof (cases m)
  case (ExactMatcher vs)
  then show ?thesis using assms(2) by (auto simp: same_rules_def fun_eq_iff)
next
  case (RegexMatcher c rs)
  obtain r c' where g: "cacheGet env c s = (r, c')" by fastforce
  have m0: "matcher_matches env m0 k = (\<exists>r \<in> set rs. reMatch env r k)" for k
    using assms(2) RegexMatcher by (simp add: same_rules_def fun_eq_iff)
  have coh: "\<And>k v. (k, v) \<in> entries c \<Longrightarrow> v = (\<exists>r \<in> set rs. reMatch env r k)"
    using assms(2) RegexMatcher by (auto simp: same_rules_def)
  show ?thesis
  proof (cases r)
    case (Some v)
    have "(s, v) \<in> entries c" "entries c' \<subseteq> entries c"
      using assms(1) g Some unfolding lru_contract_def by blast+
    then show ?thesis
      using coh g Some RegexMatcher m0 by (auto simp: same_rules_def fun_eq_iff)
  next
    case None
    let ?b = "list_ex (\<lambda>r. reMatch env r s) rs"
    have "entries c' \<subseteq> entries c" "entries (cacheAdd env c' s ?b) \<subseteq> insert (s, ?b) (entries c')"
      using assms(1) g None unfolding lru_contract_def by blast+
    then have "(k, v) = (s, ?b) \<or> (k, v) \<in> entries c" if "(k, v) \<in> entries (cacheAdd env c' s ?b)" for k v
      using that by blast
    then have "v = (\<exists>r \<in> set rs. reMatch env r k)" if "(k, v) \<in> entries (cacheAdd env c' s ?b)" for k v
      using that coh [of k v] by (auto simp: list_ex_iff)
    then show ?thesis
      using g None RegexMatcher m0 by (auto simp: same_rules_def fun_eq_iff list_ex_iff Let_def)
  qed
qed

definition resource_matches :: "string \<Rightarrow> (string \<Rightarrow> bool) \<Rightarrow> attrs \<Rightarrow> bool" where
  "resource_matches key P m \<longleftrightarrow> (\<exists>v. attr_get m key = Some v \<and> P (val_str v))"

definition span_matches :: "string \<Rightarrow> (string \<Rightarrow> bool) \<Rightarrow> span \<Rightarrow> bool" where
  "span_matches key P sp \<longleftrightarrow>
     (\<exists>v. attr_get (span_attrs sp) key = Some v \<and> val_str v \<noteq> [] \<and> P (val_str v))"

lemma string_cbs_compute:
  assumes "lru_contract env entries"
  shows "computes (same_rules env entries m0) (string_resource_cb env key)
           (resource_matches key (matcher_matches env m0))"
    and "computes (same_rules env entries m0) (string_span_cb env key)
           (span_matches key (matcher_matches env m0))"
  using matcher_run_correct [OF assms, of m0]
  by (auto simp: computes_def string_resource_cb_def string_span_cb_def resource_matches_def
        span_matches_def split: option.splits)

lemma evaluate_string_correct:
  fixes key :: string and trace :: trace_data
  assumes lru: "lru_contract env entries" and coh: "matcher_coherent env entries m"
  defines "hit \<equiv> has_hit (resource_matches key (matcher_matches env m))
                         (span_matches key (matcher_matches env m)) (receivedBatches trace)"
  shows "fst (evaluate_string env key m ivt trace) =
           (if ivt then (if hit then InvertNotSampled else InvertSampled)
            else (if hit then Sampled else NotSampled))"
    and "same_rules env entries m (snd (evaluate_string env key m ivt trace))"
proof -
  have "same_rules env entries m m" using coh by (simp add: same_rules_def)
  note cbs = string_cbs_compute [OF lru, of m key]
  from hasResourceOrSpan_computes [OF cbs \<open>same_rules env entries m m\<close>]
    invertHasResourceOrSpan_computes [OF cbs [THEN computes_negate] \<open>same_rules env entries m m\<close>]
  show "fst (evaluate_string env key m ivt trace) =
           (if ivt then (if hit then InvertNotSampled else InvertSampled)
            else (if hit then Sampled else NotSampled))"
    and "same_rules env entries m (snd (evaluate_string env key m ivt trace))"
    by (simp_all add: evaluate_string_def hit_def)
qed

lemma evaluate_string_range:
  "fst (evaluate_string env key m ivt trace) \<in>
     (if ivt then {InvertSampled, InvertNotSampled} else {Sampled, NotSampled})"
proof -
  have "fst (hasResourceOrSpanWithCondition td fr fs s) \<in> {Sampled, NotSampled}" for td fr fs and s :: "'a matcher"
    by (induction td arbitrary: s) (auto simp: Let_def split_beta)
  moreover have "fst (invertHasResourceOrSpanWithCondition td fr fs s) \<in> {InvertSampled, InvertNotSampled}"
    for td fr fs and s :: "'a matcher"
    by (induction td arbitrary: s) (auto simp: Let_def split_beta)
  ultimately show ?thesis by (simp add: evaluate_string_def)
qed

section \<open>The latency filter\<close>

text \<open>The extent of a non-empty list of spans, in nanoseconds: latest end minus earliest start.\<close>

definition trace_extent :: "span list \<Rightarrow> int" where
  "trace_extent xs = Max (set (map (uint \<circ> endTimestamp) xs)) - Min (set (map (uint \<circ> startTimestamp) xs))"

text \<open>Timestamps that are set and below \<open>2 ^ 63\<close>, the range \<^verbatim>\<open>AsTime\<close> reads as a positive time.\<close>

definition ts_ok :: "u64 \<Rightarrow> bool" where
  "ts_ok t \<longleftrightarrow> 0 < uint t \<and> uint t \<le> i64_max"

lemma ts_ok_sint: "ts_ok t \<Longrightarrow> sint t = uint t"
  by (simp add: ts_ok_def i64_max_def sint_uint signed_take_bit_int_eq_self)

lemma ts_ok_nonzero: "ts_ok t \<Longrightarrow> t \<noteq> 0"
  by (auto simp: ts_ok_def)

lemma go_quot_mono: "0 < m \<Longrightarrow> a \<le> b \<Longrightarrow> go_quot a m \<le> go_quot b m"
proof -
  assume m: "0 < m" and ab: "a \<le> b"
  have neg: "go_quot x m = - ((- x) div m)" if "x < 0" for x
    using that m by (simp add: go_quot_def)
  show ?thesis
  proof (cases "b < 0")
    case True
    then show ?thesis using ab m by (simp add: neg zdiv_mono1)
  next
    case False
    have "go_quot a m \<le> 0" if "a < 0"
      using that m by (simp add: neg pos_imp_zdiv_nonneg_iff)
    moreover have "0 \<le> go_quot b m" using False m by (simp add: go_quot_nonneg pos_imp_zdiv_nonneg_iff)
    ultimately show ?thesis
      using ab m False by (cases "a < 0") (auto simp: go_quot_nonneg zdiv_mono1)
  qed
qed

definition lat_ms :: "u64 \<times> u64 \<Rightarrow> int" where
  "lat_ms s = go_quot (uint (snd s) - uint (fst s)) 1000000"

definition lat_step :: "u64 \<times> u64 \<Rightarrow> span \<Rightarrow> u64 \<times> u64" where
  "lat_step s sp = (min (fst s) (startTimestamp sp), max (snd s) (endTimestamp sp))"

lemma clamp_i64_id: "i64_min \<le> x \<Longrightarrow> x \<le> i64_max \<Longrightarrow> clamp_i64 x = x"
  by (simp add: clamp_i64_def)

lemma lat_ms_latency:
  assumes "ts_ok a" "ts_ok b"
  shows "duration_ms (time_sub (as_time b) (as_time a)) = lat_ms (a, b)"
proof -
  have "i64_min \<le> uint b - uint a" "uint b - uint a \<le> i64_max"
    using assms by (auto simp: ts_ok_def i64_min_def i64_max_def)
  then show ?thesis
    using assms by (simp add: duration_ms_def time_sub_def as_time_def ts_ok_sint clamp_i64_id lat_ms_def)
qed

lemma latency_cb_ok:
  assumes "ts_ok mn" "ts_ok mx" "ts_ok (startTimestamp sp)" "ts_ok (endTimestamp sp)"
  shows "latency_cb thr (mn, mx) sp = (sint thr \<le> lat_ms (lat_step (mn, mx) sp), lat_step (mn, mx) sp)"
proof -
  have "(if mn = 0 \<or> startTimestamp sp < mn then startTimestamp sp else mn) = min mn (startTimestamp sp)"
    "(if mx = 0 \<or> mx < endTimestamp sp then endTimestamp sp else mx) = max mx (endTimestamp sp)"
    using assms ts_ok_nonzero by (auto simp: min_def max_def)
  moreover have "ts_ok (min mn (startTimestamp sp))" "ts_ok (max mx (endTimestamp sp))"
    using assms by (auto simp: min_def max_def)
  ultimately show ?thesis
    by (simp add: latency_cb_def lat_step_def lat_ms_latency Let_def)
qed

lemma latency_cb_first:
  assumes "ts_ok (startTimestamp sp)" "ts_ok (endTimestamp sp)"
  shows "latency_cb thr (0, 0) sp =
    (sint thr \<le> lat_ms (startTimestamp sp, endTimestamp sp), (startTimestamp sp, endTimestamp sp))"
  using assms by (simp add: latency_cb_def lat_ms_latency Let_def)

lemma lat_step_mono: "lat_ms s \<le> lat_ms (lat_step s sp)"
  unfolding lat_ms_def lat_step_def
  by (rule go_quot_mono) (auto simp: min_def max_def word_le_def not_le)

lemma lat_fold_mono: "lat_ms s \<le> lat_ms (foldl lat_step s xs)"
proof (induction xs arbitrary: s)
  case (Cons x xs)
  have "lat_ms s \<le> lat_ms (lat_step s x)" by (rule lat_step_mono)
  also have "\<dots> \<le> lat_ms (foldl lat_step (lat_step s x) xs)" by (rule Cons.IH)
  finally show ?case by simp
qed simp

definition spans_ts_ok :: "span list \<Rightarrow> bool" where
  "spans_ts_ok xs \<longleftrightarrow> (\<forall>sp \<in> set xs. ts_ok (startTimestamp sp) \<and> ts_ok (endTimestamp sp))"

lemma latency_run:
  "ts_ok mn \<Longrightarrow> ts_ok mx \<Longrightarrow> spans_ts_ok xs \<Longrightarrow> lat_ms (mn, mx) < sint thr \<Longrightarrow>
   fst (spans_any (latency_cb thr) (mn, mx) xs) = (sint thr \<le> lat_ms (foldl lat_step (mn, mx) xs))"
proof (induction xs arbitrary: mn mx)
  case (Cons x xs)
  obtain mn' mx' where st: "lat_step (mn, mx) x = (mn', mx')" by fastforce
  have ok: "ts_ok mn'" "ts_ok mx'" "spans_ts_ok xs"
    using Cons.prems st by (auto simp: lat_step_def spans_ts_ok_def min_def max_def)
  have cb: "latency_cb thr (mn, mx) x = (sint thr \<le> lat_ms (mn', mx'), (mn', mx'))"
    using latency_cb_ok [of mn mx x thr] Cons.prems st by (simp add: spans_ts_ok_def)
  show ?case
  proof (cases "sint thr \<le> lat_ms (mn', mx')")
    case True
    then show ?thesis
      using cb st lat_fold_mono [of "(mn', mx')" xs] by (simp add: order_trans)
  next
    case False
    then show ?thesis using cb st Cons.IH [OF ok] by simp
  qed
qed simp

lemma lat_fold_extremes:
  "uint (fst (foldl lat_step s xs)) = Min (insert (uint (fst s)) (set (map (uint \<circ> startTimestamp) xs)))
   \<and> uint (snd (foldl lat_step s xs)) = Max (insert (uint (snd s)) (set (map (uint \<circ> endTimestamp) xs)))"
proof (induction xs arbitrary: s)
  case (Cons x xs)
  have m: "uint (fst (lat_step s x)) = min (uint (fst s)) (uint (startTimestamp x))"
    "uint (snd (lat_step s x)) = max (uint (snd s)) (uint (endTimestamp x))"
    by (auto simp: lat_step_def min_def max_def word_le_def)
  show ?case
    using Cons.IH [of "lat_step s x"] unfolding m
    by (cases "xs = []") (simp_all add: Min_insert Max_insert min.assoc max.assoc)
qed simp

lemma latency_sampled_iff:
  assumes "spans_ts_ok xs"
  shows "fst (spans_any (latency_cb thr) (0, 0) xs) \<longleftrightarrow>
           xs \<noteq> [] \<and> sint thr \<le> duration_ms (trace_extent xs)"
proof (cases xs)
  case (Cons x ys)
  let ?s = "(startTimestamp x, endTimestamp x)"
  have ok: "ts_ok (startTimestamp x)" "ts_ok (endTimestamp x)" "spans_ts_ok ys"
    using assms Cons by (auto simp: spans_ts_ok_def)
  have ext: "duration_ms (trace_extent xs) = lat_ms (foldl lat_step ?s ys)"
    using lat_fold_extremes [of ?s ys] by (simp add: Cons trace_extent_def duration_ms_def lat_ms_def)
  show ?thesis
  proof (cases "sint thr \<le> lat_ms ?s")
    case True
    then show ?thesis
      using Cons ext ok latency_cb_first [of x thr] lat_fold_mono [of ?s ys] by (simp add: order_trans)
  next
    case False
    then show ?thesis
      using Cons ext ok latency_cb_first [of x thr] latency_run [of "startTimestamp x" "endTimestamp x" ys thr]
      by simp
  qed
qed simp

end
