(* ===== verification/TailConfig.thy ===== *)
theory TailConfig
  imports SamplingSpec Complex_Main "HOL-Library.Log_Nat"
begin

text \<open>
  The configuration of the tail sampler (\<^verbatim>\<open>config.go\<close>) and the constructors that turn it into
  evaluators (\<^verbatim>\<open>evaluator.go\<close> and the \<^verbatim>\<open>New...\<close> functions of \<^verbatim>\<open>internal/sampling\<close>).
  \<^verbatim>\<open>regexp.MustCompile\<close> panics on a pattern that does not compile, so a constructor that
  compiles patterns gives \<^term>\<open>None\<close> there.
\<close>

section \<open>Configuration\<close>

record string_attribute_cfg =
  sa_key :: string
  sa_values :: "string list"
  sa_regex :: bool
  sa_cacheMaxSize :: int
  sa_invertMatch :: bool

record numeric_attribute_cfg =
  na_key :: string
  na_minValue :: i64
  na_maxValue :: i64

record policy_filter_cfg =
  filterOp :: string
  stringAttributeCfgs :: "string_attribute_cfg list"
  numericAttributeCfgs :: "numeric_attribute_cfg list"

record base_policy =
  bp_name :: string
  bp_type :: string
  bp_priority :: int
  bp_hashSalt :: string
  bp_samplingPercentage :: rat
  bp_filter :: policy_filter_cfg

record policy_group_cfg =
  base :: base_policy
  subPolicies :: "base_policy list"

record tail_config =
  decisionWait :: int
  numTraces :: u64
  expectedNewTracesPerSec :: u64
  policyCfgs :: "policy_group_cfg list"
  version :: int

text \<open>\<^verbatim>\<open>Config.Validate\<close>: the names of the policies it reports; no name is success.\<close>

definition validate_config :: "tail_config \<Rightarrow> string list" where
  "validate_config cfg = map (bp_name \<circ> base) (filter (\<lambda>p. bp_priority (base p) = 0) (policyCfgs cfg))"

section \<open>Sampling thresholds\<close>

text \<open>
  Rounding to \<open>p\<close> significant bits, ties to even: what \<^verbatim>\<open>float64\<close> (\<open>p = 53\<close>) and a
  \<^verbatim>\<open>big.Float\<close> of that precision do on values in the normal range. A floating-point number is
  the rational it denotes.
\<close>

definition bit_len :: "nat \<Rightarrow> int" where
  "bit_len n = int (floorlog 2 n)"

definition floor_log2 :: "rat \<Rightarrow> int" where
  "floor_log2 x =
     (let (n, d) = quotient_of x;
          e = bit_len (nat n) - bit_len (nat d)
      in if 2 powi e \<le> x then e else e - 1)"

definition round_half_even :: "rat \<Rightarrow> int" where
  "round_half_even x =
     (let f = \<lfloor>x\<rfloor>; r = x - of_int f
      in if r < 1 / 2 then f else if 1 / 2 < r then f + 1 else if even f then f else f + 1)"

definition round_sig :: "nat \<Rightarrow> rat \<Rightarrow> rat" where
  "round_sig p x =
     (if x = 0 then 0
      else (let e = floor_log2 \<bar>x\<bar> - (int p - 1)
            in sgn x * of_int (round_half_even (\<bar>x\<bar> / 2 powi e)) * 2 powi e))"

text \<open>
  \<^verbatim>\<open>calculateThreshold\<close>: the product of \<open>2 ^ 64 - 1\<close> and the ratio in 64-bit precision, read
  back as an unsigned integer, which truncates and clamps to the range.
\<close>

definition big_float_uint64 :: "rat \<Rightarrow> u64" where
  "big_float_uint64 x =
     (if x \<le> 0 then 0
      else if 18446744073709551615 \<le> \<lfloor>x\<rfloor> then 18446744073709551615
      else of_int \<lfloor>x\<rfloor>)"

definition calculateThreshold :: "rat \<Rightarrow> u64" where
  "calculateThreshold ratio = big_float_uint64 (round_sig 64 (18446744073709551615 * ratio))"

definition defaultHashSalt :: string where
  "defaultHashSalt = ''default-hash-seed''"

definition NewProbabilisticSampler :: "string \<Rightarrow> rat \<Rightarrow> 'c evaluator" where
  "NewProbabilisticSampler hashSalt samplingPercentage =
     ProbabilisticSampler (calculateThreshold (round_sig 53 (samplingPercentage / 100)))
       (if hashSalt = [] then defaultHashSalt else hashSalt)"

section \<open>Constructors of the filters\<close>

definition addFilters :: "'c eval_env \<Rightarrow> string list \<Rightarrow> string list option" where
  "addFilters env exprs = (if list_all (reValid env) exprs then Some exprs else None)"

definition NewStringAttributeFilter ::
  "'c eval_env \<Rightarrow> string \<Rightarrow> string list \<Rightarrow> bool \<Rightarrow> int \<Rightarrow> bool \<Rightarrow> 'c evaluator option" where
  "NewStringAttributeFilter env key values regexMatchEnabled evictSize invertMatch =
     (if regexMatchEnabled
      then (case addFilters env values of
              None \<Rightarrow> None
            | Some filterList \<Rightarrow>
                Some (StringAttributeFilter key
                  (RegexMatcher (cacheNew env (if evictSize \<le> 0 then 128 else evictSize)) filterList)
                  invertMatch))
      else Some (StringAttributeFilter key (ExactMatcher (filter (\<lambda>v. v \<noteq> []) values)) invertMatch))"

definition NewTraceStateFilter :: "string \<Rightarrow> string list \<Rightarrow> 'c evaluator" where
  "NewTraceStateFilter key values =
     TraceStateFilter key (filter (\<lambda>v. v \<noteq> [] \<and> length key + length v < 256) values)"

fun parse_status :: "string \<Rightarrow> status_code option" where
  "parse_status s =
     (if s = ''OK'' then Some StatusCodeOk
      else if s = ''ERROR'' then Some StatusCodeError
      else if s = ''UNSET'' then Some StatusCodeUnset
      else None)"

text \<open>\<^term>\<open>Inl\<close> carries the text of the error.\<close>

definition NewStatusCodeFilter :: "string list \<Rightarrow> string + 'c evaluator" where
  "NewStatusCodeFilter ss =
     (if ss = [] then Inl ''expected at least one status code to filter on''
      else case those (map parse_status ss) of
             None \<Rightarrow> Inl ''unknown status code''
           | Some codes \<Rightarrow> Inr (StatusCodeFilter codes))"

definition NewComposite :: "i64 \<Rightarrow> ('c evaluator \<times> i64) list \<Rightarrow> 'c evaluator" where
  "NewComposite maxTotalSpansPerSecond params =
     CompositePolicy (map (\<lambda>(e, m). (e, m, 0)) params) maxTotalSpansPerSecond 0"

definition NewRateLimiting :: "i64 \<Rightarrow> 'c evaluator" where
  "NewRateLimiting spansPerSecond = RateLimiting 0 0 spansPerSecond"

section \<open>The default evaluator of a policy\<close>

definition prepareFilterEvaluators :: "'c eval_env \<Rightarrow> policy_filter_cfg \<Rightarrow> 'c evaluator list option" where
  "prepareFilterEvaluators env cfg =
     (case those (map (\<lambda>s. NewStringAttributeFilter env (sa_key s) (sa_values s) (sa_regex s)
                         (sa_cacheMaxSize s) (sa_invertMatch s)) (stringAttributeCfgs cfg)) of
        None \<Rightarrow> None
      | Some fs \<Rightarrow>
          Some (fs @ map (\<lambda>n. NumericAttributeFilter (na_key n) (na_minValue n) (na_maxValue n))
                       (numericAttributeCfgs cfg)))"

definition samplerFor :: "rat \<Rightarrow> 'c evaluator" where
  "samplerFor percentage =
     (if percentage = 0 then NeverSample
      else if percentage = 100 then AlwaysSample
      else NewProbabilisticSampler [] percentage)"

text \<open>
  \<^verbatim>\<open>NewDefaultEvaluator\<close> sorts the sub-policies by priority with \<^verbatim>\<open>sort.Slice\<close>, which leaves the
  order of equal priorities open: the sort is an argument, any function that permutes its
  input into priority order. A sub-policy is built by a call without sub-policies of its own.
\<close>

definition build_evaluator ::
  "'c eval_env \<Rightarrow> base_policy \<Rightarrow> 'c evaluator list \<Rightarrow> 'c evaluator option" where
  "build_evaluator env pol subEvaluators =
     map_option (\<lambda>filters. DefaultEvaluator (bp_name pol) (samplerFor (bp_samplingPercentage pol))
                    (filterOp (bp_filter pol)) filters subEvaluators)
       (prepareFilterEvaluators env (bp_filter pol))"

definition priority_sort :: "(base_policy list \<Rightarrow> base_policy list) \<Rightarrow> bool" where
  "priority_sort srt \<longleftrightarrow> (\<forall>xs. mset (srt xs) = mset xs \<and> sorted (map bp_priority (srt xs)))"

definition NewDefaultEvaluator ::
  "(base_policy list \<Rightarrow> base_policy list) \<Rightarrow> 'c eval_env \<Rightarrow> base_policy \<Rightarrow> base_policy list \<Rightarrow>
   'c evaluator option" where
  "NewDefaultEvaluator srt env pol subpolicies =
     (case those (map (\<lambda>r. build_evaluator env r []) (srt subpolicies)) of
        None \<Rightarrow> None
      | Some subEvaluators \<Rightarrow> build_evaluator env pol subEvaluators)"

lemma priority_sort_insort: "priority_sort (sort_key bp_priority)"
  by (simp add: priority_sort_def)

lemma calculateThreshold_0: "calculateThreshold 0 = 0"
  by (simp add: calculateThreshold_def big_float_uint64_def round_sig_def)

lemma those_map_Some:
  "those (map f xs) = Some ys \<Longrightarrow> length ys = length xs \<and> (\<forall>i < length xs. f (xs ! i) = Some (ys ! i))"
proof (induction xs arbitrary: ys)
  case (Cons x xs)
  then show ?case by (auto simp: nth_Cons split: option.splits nat.splits)
qed simp

text \<open>
  A hit of the inverted filter is \<^term>\<open>InvertNotSampled\<close> and a miss \<^term>\<open>InvertSampled\<close>; the
  filter loop looks for \<^term>\<open>Sampled\<close> and \<^term>\<open>NotSampled\<close> only.
\<close>

fun inverted_string_filter :: "'c evaluator \<Rightarrow> bool" where
  "inverted_string_filter (StringAttributeFilter key m ivt) = ivt"
| "inverted_string_filter _ = False"

lemma inverted_decision:
  "inverted_string_filter e \<Longrightarrow> fst (fst (evaluate env tid trace e)) \<in> {InvertSampled, InvertNotSampled}"
proof (cases e)
  case (StringAttributeFilter key m ivt)
  assume "inverted_string_filter e"
  then have "ivt" using StringAttributeFilter by simp
  then show ?thesis
    using evaluate_string_range [of env key m True trace] StringAttributeFilter by (simp add: split_beta)
qed simp_all

end
