(* ===== verification/IdBatcher.thy ===== *)
theory IdBatcher
  imports Pdata
begin

text \<open>
  The batcher of trace ids (\<^verbatim>\<open>processor/signoztailsampler/internal/idbatcher/id_batcher.go\<close>):
  a pipe of a fixed number of batches, a batch being built, and a channel of ids that a
  goroutine drains into that batch. The goroutine is the operation \<open>pump\<close>; the mutexes make
  every operation here atomic. \<^verbatim>\<open>Stop\<close> is the two steps it has for the other goroutines:
  closing the id channel, and, once the goroutine has drained it, setting \<open>stopped\<close> and
  closing the pipe.
\<close>

section \<open>State and operations\<close>

type_synonym batch = "trace_id list"

record batcher =
  pendingIds :: "trace_id list"
  pendingCap :: nat
  pendingClosed :: bool
  batches :: "batch list"
  batchesCap :: nat
  batchesClosed :: bool
  currentBatch :: batch
  stopped :: bool

datatype batcher_error = ErrInvalidNumBatches | ErrInvalidBatchChannelSize

definition batcher_new :: "nat \<Rightarrow> nat \<Rightarrow> batcher_error + batcher" where
  "batcher_new numBatches batchChannelSize =
     (if numBatches < 1 then Inl ErrInvalidNumBatches
      else if batchChannelSize < 1 then Inl ErrInvalidBatchChannelSize
      else Inr \<lparr>pendingIds = [], pendingCap = batchChannelSize, pendingClosed = False,
                batches = replicate numBatches [], batchesCap = numBatches, batchesClosed = False,
                currentBatch = [], stopped = False\<rparr>)"

text \<open>Sending on a closed channel panics; on a full one it blocks.\<close>

definition AddToCurrentBatch :: "batcher \<Rightarrow> trace_id \<Rightarrow> batcher outcome" where
  "AddToCurrentBatch b tid =
     (if pendingClosed b then Panic
      else if length (pendingIds b) < pendingCap b then Done (b\<lparr>pendingIds := pendingIds b @ [tid]\<rparr>)
      else Blocked)"

text \<open>One iteration of the goroutine started by \<^verbatim>\<open>New\<close>.\<close>

definition pump :: "batcher \<Rightarrow> batcher outcome" where
  "pump b = (case pendingIds b of
               [] \<Rightarrow> Blocked
             | tid # rest \<Rightarrow> Done (b\<lparr>pendingIds := rest, currentBatch := currentBatch b @ [tid]\<rparr>))"

text \<open>
  The receive gives the first batch, blocks on an empty open pipe, and reports a closed and
  empty one; the batch being built takes the freed place unless the batcher is stopped.
\<close>

definition CloseCurrentAndTakeFirstBatch :: "batcher \<Rightarrow> ((batch \<times> bool) \<times> batcher) outcome" where
  "CloseCurrentAndTakeFirstBatch b =
     (case batches b of
        readBatch # rest \<Rightarrow>
          if stopped b then Done ((readBatch, True), b\<lparr>batches := rest\<rparr>)
          else if length rest < batchesCap b
          then Done ((readBatch, True), b\<lparr>batches := rest @ [currentBatch b], currentBatch := []\<rparr>)
          else Blocked
      | [] \<Rightarrow>
          if batchesClosed b then Done ((currentBatch b, False), b\<lparr>currentBatch := []\<rparr>)
          else Blocked)"

definition stop_begin :: "batcher \<Rightarrow> batcher outcome" where
  "stop_begin b = (if pendingClosed b then Panic else Done (b\<lparr>pendingClosed := True\<rparr>))"

definition stop_end :: "batcher \<Rightarrow> batcher outcome" where
  "stop_end b =
     (if pendingClosed b \<and> pendingIds b = [] \<and> \<not> batchesClosed b
      then Done (b\<lparr>stopped := True, batchesClosed := True\<rparr>)
      else Blocked)"

section \<open>Invariant\<close>

definition batcher_inv :: "batcher \<Rightarrow> bool" where
  "batcher_inv b \<longleftrightarrow>
     0 < pendingCap b \<and> 0 < batchesCap b \<and> length (pendingIds b) \<le> pendingCap b \<and>
     (stopped b \<longleftrightarrow> batchesClosed b) \<and>
     (\<not> stopped b \<longrightarrow> length (batches b) = batchesCap b) \<and>
     (stopped b \<longrightarrow> length (batches b) \<le> batchesCap b \<and> pendingClosed b \<and> pendingIds b = [])"

lemma batcher_new_inv: "batcher_new n k = Inr b \<Longrightarrow> batcher_inv b"
  by (auto simp: batcher_new_def batcher_inv_def split: if_splits)

lemma batcher_new_open: "batcher_new n k = Inr b \<Longrightarrow> \<not> pendingClosed b"
  by (auto simp: batcher_new_def split: if_splits)

lemma Add_inv: "batcher_inv b \<Longrightarrow> AddToCurrentBatch b tid = Done b' \<Longrightarrow> batcher_inv b'"
  by (auto simp: batcher_inv_def AddToCurrentBatch_def split: if_splits)

lemma pump_inv: "batcher_inv b \<Longrightarrow> pump b = Done b' \<Longrightarrow> batcher_inv b'"
  by (auto simp: batcher_inv_def pump_def split: list.splits)

lemma Close_inv:
  "batcher_inv b \<Longrightarrow> CloseCurrentAndTakeFirstBatch b = Done (r, b') \<Longrightarrow> batcher_inv b'"
  by (auto simp: batcher_inv_def CloseCurrentAndTakeFirstBatch_def split: list.splits if_splits)

lemma stop_inv:
  "batcher_inv b \<Longrightarrow> stop_begin b = Done b' \<Longrightarrow> batcher_inv b'"
  "batcher_inv b \<Longrightarrow> stop_end b = Done b' \<Longrightarrow> batcher_inv b'"
  by (auto simp: batcher_inv_def stop_begin_def stop_end_def split: if_splits)

lemmas batcher_inv_intros = batcher_new_inv Add_inv pump_inv Close_inv stop_inv

text \<open>The ids on their way through the pipe, oldest first: a queue that the operations share.\<close>

definition in_flight :: "batcher \<Rightarrow> trace_id list" where
  "in_flight b = concat (batches b) @ currentBatch b @ pendingIds b"

lemma in_flight_Add: "AddToCurrentBatch b tid = Done b' \<Longrightarrow> in_flight b' = in_flight b @ [tid]"
  by (auto simp: AddToCurrentBatch_def in_flight_def split: if_splits)

lemma in_flight_pump: "pump b = Done b' \<Longrightarrow> in_flight b' = in_flight b"
  by (auto simp: pump_def in_flight_def split: list.splits)

lemma in_flight_Close:
  assumes "batcher_inv b" and "CloseCurrentAndTakeFirstBatch b = Done ((out, ok), b')"
  shows "in_flight b = out @ in_flight b'"
  using assms
  by (auto simp: CloseCurrentAndTakeFirstBatch_def in_flight_def batcher_inv_def split: list.splits if_splits)

lemma in_flight_stop:
  "stop_begin b = Done b' \<Longrightarrow> in_flight b' = in_flight b"
  "stop_end b = Done b' \<Longrightarrow> in_flight b' = in_flight b"
  by (auto simp: stop_begin_def stop_end_def in_flight_def split: if_splits)

text \<open>Taking never blocks, and adding blocks only until the goroutine runs once.\<close>

lemma Close_total: "batcher_inv b \<Longrightarrow> \<exists>r b'. CloseCurrentAndTakeFirstBatch b = Done (r, b')"
  by (auto simp: batcher_inv_def CloseCurrentAndTakeFirstBatch_def split: list.splits)

lemma Add_Blocked_pump:
  assumes "batcher_inv b" and "AddToCurrentBatch b tid = Blocked"
  shows "\<exists>b' b''. pump b = Done b' \<and> AddToCurrentBatch b' tid = Done b''"
proof -
  have full: "\<not> pendingClosed b" "length (pendingIds b) = pendingCap b" "0 < pendingCap b"
    using assms by (auto simp: batcher_inv_def AddToCurrentBatch_def split: if_splits)
  then obtain t rest where p: "pendingIds b = t # rest" by (cases "pendingIds b") auto
  then show ?thesis using full by (simp add: pump_def AddToCurrentBatch_def)
qed

section \<open>Waiting to add\<close>

text \<open>
  A caller that finds the channel full waits; the only step that can free a place is one of
  the goroutine, so the call returns after it.
\<close>

definition add_wait :: "batcher \<Rightarrow> trace_id \<Rightarrow> batcher outcome" where
  "add_wait b tid =
     (case AddToCurrentBatch b tid of
        Blocked \<Rightarrow> bind_outcome (pump b) (\<lambda>b'. AddToCurrentBatch b' tid)
      | r \<Rightarrow> r)"

lemma add_wait_inv: "batcher_inv b \<Longrightarrow> add_wait b tid = Done b' \<Longrightarrow> batcher_inv b'"
  by (auto simp: add_wait_def split: outcome.splits dest: pump_inv Add_inv)

lemma in_flight_add_wait: "add_wait b tid = Done b' \<Longrightarrow> in_flight b' = in_flight b @ [tid]"
  by (auto simp: add_wait_def in_flight_Add in_flight_pump split: outcome.splits)

lemma add_wait_total:
  assumes "batcher_inv b" and "\<not> pendingClosed b"
  shows "\<exists>b'. add_wait b tid = Done b' \<and> \<not> pendingClosed b'"
proof (cases "AddToCurrentBatch b tid")
  case Blocked
  then obtain b' b'' where p: "pump b = Done b'" "AddToCurrentBatch b' tid = Done b''"
    using Add_Blocked_pump [OF assms(1)] by blast
  then have "\<not> pendingClosed b''"
    by (auto simp: AddToCurrentBatch_def split: if_splits)
  then show ?thesis using p Blocked by (simp add: add_wait_def)
qed (use assms in \<open>auto simp: add_wait_def AddToCurrentBatch_def split: if_splits\<close>)

section \<open>Runs\<close>

text \<open>
  The interleavings of producers, the goroutine, the consumer's ticks and \<^verbatim>\<open>Stop\<close>, with the
  ids that went in and the batches that came out.
\<close>

inductive batcher_run :: "batcher \<Rightarrow> trace_id list \<Rightarrow> batch list \<Rightarrow> batcher \<Rightarrow> bool" where
  run_start: "batcher_run b [] [] b"
| run_add: "batcher_run b ins outs c \<Longrightarrow> AddToCurrentBatch c tid = Done c' \<Longrightarrow>
    batcher_run b (ins @ [tid]) outs c'"
| run_pump: "batcher_run b ins outs c \<Longrightarrow> pump c = Done c' \<Longrightarrow> batcher_run b ins outs c'"
| run_take: "batcher_run b ins outs c \<Longrightarrow> CloseCurrentAndTakeFirstBatch c = Done ((out, ok), c') \<Longrightarrow>
    batcher_run b ins (outs @ [out]) c'"
| run_stop_begin: "batcher_run b ins outs c \<Longrightarrow> stop_begin c = Done c' \<Longrightarrow> batcher_run b ins outs c'"
| run_stop_end: "batcher_run b ins outs c \<Longrightarrow> stop_end c = Done c' \<Longrightarrow> batcher_run b ins outs c'"

lemma batcher_run_inv: "batcher_run b ins outs c \<Longrightarrow> batcher_inv b \<Longrightarrow> batcher_inv c"
  by (induction rule: batcher_run.induct) (auto dest: batcher_inv_intros)

lemma batcher_run_queue:
  "batcher_run b ins outs c \<Longrightarrow> batcher_inv b \<Longrightarrow> concat outs @ in_flight c = in_flight b @ ins"
proof (induction rule: batcher_run.induct)
  case (run_take b ins outs c out ok c')
  then have "in_flight c = out @ in_flight c'"
    using in_flight_Close batcher_run_inv by blast
  then show ?case using run_take.IH [OF run_take.prems] by simp
qed (auto dest: in_flight_Add in_flight_pump in_flight_stop)

text \<open>Between two states that are not stopped, the pipe is a delay line of batches.\<close>

inductive delay_run :: "batcher \<Rightarrow> batch list \<Rightarrow> batch list \<Rightarrow> batcher \<Rightarrow> bool" where
  delay_start: "delay_run b [] [] b"
| delay_add: "delay_run b closed outs c \<Longrightarrow> AddToCurrentBatch c tid = Done c' \<Longrightarrow> delay_run b closed outs c'"
| delay_pump: "delay_run b closed outs c \<Longrightarrow> pump c = Done c' \<Longrightarrow> delay_run b closed outs c'"
| delay_take: "delay_run b closed outs c \<Longrightarrow> CloseCurrentAndTakeFirstBatch c = Done ((out, ok), c') \<Longrightarrow>
    delay_run b (closed @ [currentBatch c]) (outs @ [out]) c'"

lemma ops_stopped:
  "AddToCurrentBatch c tid = Done c' \<Longrightarrow> stopped c' = stopped c \<and> batchesCap c' = batchesCap c \<and> batches c' = batches c"
  "pump c = Done c' \<Longrightarrow> stopped c' = stopped c \<and> batchesCap c' = batchesCap c \<and> batches c' = batches c"
  "CloseCurrentAndTakeFirstBatch c = Done (r, c') \<Longrightarrow> stopped c' = stopped c \<and> batchesCap c' = batchesCap c"
  by (auto simp: AddToCurrentBatch_def pump_def CloseCurrentAndTakeFirstBatch_def split: if_splits list.splits)

lemma delay_run_line:
  "delay_run b closed outs c \<Longrightarrow> batcher_inv b \<Longrightarrow> \<not> stopped b \<Longrightarrow>
   batcher_inv c \<and> \<not> stopped c \<and> batchesCap c = batchesCap b \<and> length outs = length closed \<and>
   outs @ batches c = batches b @ closed"
proof (induction rule: delay_run.induct)
  case (delay_take b closed outs c out ok c')
  then have c: "batcher_inv c" "\<not> stopped c" "outs @ batches c = batches b @ closed" by auto
  have "batches c = out # tl (batches c)" "batches c' = tl (batches c) @ [currentBatch c]"
    using delay_take.hyps(2) c(1,2)
    by (auto simp: CloseCurrentAndTakeFirstBatch_def batcher_inv_def split: list.splits if_splits)
  then show ?case
    using delay_take Close_inv [OF c(1) delay_take.hyps(2)] ops_stopped(3) [OF delay_take.hyps(2)] c
    by (metis (no_types, lifting) append.assoc append_Cons append_Nil length_append_singleton)
qed (auto dest: ops_stopped Add_inv pump_inv)

section \<open>The interface the sampler uses\<close>

text \<open>
  The sampler relies on a queue of ids that can always be added to while it is open and
  always be taken from, and that hands out every id once, in the order of arrival.
\<close>

locale trace_batcher =
  fixes add :: "'b \<Rightarrow> trace_id \<Rightarrow> 'b outcome"
    and take_first :: "'b \<Rightarrow> ((batch \<times> bool) \<times> 'b) outcome"
    and queue :: "'b \<Rightarrow> trace_id list"
    and inv_b :: "'b \<Rightarrow> bool"
    and is_open :: "'b \<Rightarrow> bool"
  assumes add_total: "inv_b b \<Longrightarrow> is_open b \<Longrightarrow> \<exists>b'. add b tid = Done b' \<and> inv_b b' \<and> is_open b'"
    and add_queue: "add b tid = Done b' \<Longrightarrow> queue b' = queue b @ [tid]"
    and take_total: "inv_b b \<Longrightarrow> \<exists>r b'. take_first b = Done (r, b') \<and> inv_b b' \<and> (is_open b \<longrightarrow> is_open b')"
    and take_queue: "inv_b b \<Longrightarrow> take_first b = Done ((out, ok), b') \<Longrightarrow> queue b = out @ queue b'"
begin

lemma add_Done:
  assumes "inv_b b" and "is_open b"
  obtains b' where "add b tid = Done b'" "inv_b b'" "is_open b'" "queue b' = queue b @ [tid]"
  using add_total [OF assms, of tid] add_queue by blast

lemma take_Done:
  assumes "inv_b b"
  obtains out ok b' where "take_first b = Done ((out, ok), b')" "inv_b b'" "is_open b \<longrightarrow> is_open b'"
    "queue b = out @ queue b'"
proof -
  obtain r b' where r: "take_first b = Done (r, b')" "inv_b b'" "is_open b \<longrightarrow> is_open b'"
    using take_total [OF assms] by blast
  obtain out ok where "r = (out, ok)" by (cases r)
  then show thesis using that r take_queue [OF assms] by blast
qed

lemma taken_was_queued:
  "inv_b b \<Longrightarrow> take_first b = Done ((out, ok), b') \<Longrightarrow> set out \<subseteq> set (queue b)"
  by (drule (1) take_queue) simp

end

lemma Close_open: "CloseCurrentAndTakeFirstBatch b = Done (r, b') \<Longrightarrow> pendingClosed b' = pendingClosed b"
  by (auto simp: CloseCurrentAndTakeFirstBatch_def split: list.splits if_splits)

interpretation bq: trace_batcher add_wait CloseCurrentAndTakeFirstBatch in_flight batcher_inv
  "\<lambda>b. \<not> pendingClosed b"
proof (unfold_locales, goal_cases)
  case (1 b tid)
  then show ?case using add_wait_total add_wait_inv by blast
next
  case (2 b tid b')
  then show ?case by (rule in_flight_add_wait)
next
  case (3 b)
  then show ?case using Close_total [OF 3] Close_inv Close_open by metis
next
  case (4 b out ok b')
  then show ?case by (rule in_flight_Close)
qed

end
