(* ===== verification/TailSampler.thy ===== *)
theory TailSampler
  imports TailConfig IdBatcher
begin

text \<open>
  The tail sampling processor (\<^verbatim>\<open>processor/signoztailsampler/processor.go\<close>): spans are
  buffered per trace, a ticker takes the traces whose waiting time is over and decides them,
  later spans of a decided trace follow the decision, and a channel of the configured size
  bounds the number of traces kept. Every method is one atomic step here; statistics that are
  only recorded are left out, the counters of a tick are kept.
\<close>

section \<open>State\<close>

record 'c policy =
  pol_name :: string
  pol_evaluator :: "'c evaluator"

text \<open>
  \<open>sent\<close> is the list of calls to \<^verbatim>\<open>nextConsumer.ConsumeTraces\<close>, with the name of the policy
  whose context is passed; late spans are sent with the context of the processor (\<^term>\<open>None\<close>).
\<close>

record 'c tail_sampler =
  maxNumTraces :: u64
  policies :: "'c policy list"
  idToTrace :: "trace_id \<rightharpoonup> trace_data"
  decisionBatcher :: batcher
  deleteChan :: "trace_id list"
  deleteCap :: nat
  numTracesOnMap :: u64
  sent :: "(string option \<times> traces) list"

record policy_metrics =
  idNotFoundOnMapCount :: nat
  evaluateErrorCount :: nat
  decisionSampled :: nat
  decisionNotSampled :: nat

definition no_metrics :: policy_metrics where
  "no_metrics = \<lparr>idNotFoundOnMapCount = 0, evaluateErrorCount = 0, decisionSampled = 0, decisionNotSampled = 0\<rparr>"

section \<open>Construction\<close>

datatype processor_error = ConfigInvalid "string list" | BatcherError batcher_error

text \<open>\<^verbatim>\<open>copy(dst, src)\<close> of Go overwrites the common prefix and never grows \<open>dst\<close>.\<close>

definition go_copy :: "'a list \<Rightarrow> 'a list \<Rightarrow> 'a list" where
  "go_copy dst src = take (length dst) src @ drop (length src) dst"

text \<open>The policies built from a list of groups; \<^term>\<open>None\<close> when a pattern does not compile.\<close>

definition build_policies ::
  "(base_policy list \<Rightarrow> base_policy list) \<Rightarrow> 'c eval_env \<Rightarrow> policy_group_cfg list \<Rightarrow> 'c policy list option" where
  "build_policies srt env groups =
     those (map (\<lambda>p. map_option (\<lambda>e. \<lparr>pol_name = bp_name (base p), pol_evaluator = e\<rparr>)
                   (NewDefaultEvaluator srt env (base p) (subPolicies p))) groups)"

text \<open>
  \<^verbatim>\<open>DecisionWait.Seconds()\<close> converted to an unsigned integer truncates; \<^verbatim>\<open>runtime.NumCPU\<close> is the
  argument \<open>numCPU\<close>, the two sorts are arguments as in \<^const>\<open>NewDefaultEvaluator\<close>.
\<close>

definition newTracesProcessor ::
  "(policy_group_cfg list \<Rightarrow> policy_group_cfg list) \<Rightarrow> (base_policy list \<Rightarrow> base_policy list) \<Rightarrow>
   'c eval_env \<Rightarrow> nat \<Rightarrow> tail_config \<Rightarrow> (processor_error + 'c tail_sampler) outcome" where
  "newTracesProcessor gsrt srt env numCPU cfg =
     (if validate_config cfg \<noteq> [] then Done (Inl (ConfigInvalid (validate_config cfg)))
      else case batcher_new (nat (go_quot (decisionWait cfg) 1000000000)) (2 * numCPU) of
             Inl e \<Rightarrow> Done (Inl (BatcherError e))
           | Inr b \<Rightarrow>
               (let policyGroups = gsrt (go_copy [] (policyCfgs cfg))
                in case build_policies srt env policyGroups of
                     None \<Rightarrow> Panic
                   | Some pols \<Rightarrow>
                       Done (Inr \<lparr>maxNumTraces = numTraces cfg, policies = pols, idToTrace = Map.empty,
                                  decisionBatcher = b, deleteChan = [], deleteCap = unat (numTraces cfg),
                                  numTracesOnMap = 0, sent = []\<rparr>)))"

section \<open>Decisions\<close>

text \<open>
  The loop of \<^verbatim>\<open>makeDecision\<close>: it stores each decision at the index of its policy (writing
  past the slice panics), counts errors, and stops at the first policy that decides.
\<close>

fun eval_policies ::
  "'c eval_env \<Rightarrow> trace_id \<Rightarrow> nat \<Rightarrow> 'c policy list \<Rightarrow> trace_data \<Rightarrow> nat \<Rightarrow>
   ((decision \<times> string option) \<times> 'c policy list \<times> trace_data \<times> nat) outcome" where
  "eval_policies env tid i [] trace errs = Done ((NoResult, None), [], trace, errs)"
| "eval_policies env tid i (p # ps) trace errs =
     (let ((d, err), e') = evaluate env tid trace (pol_evaluator p);
          p' = p\<lparr>pol_evaluator := e'\<rparr>;
          errs' = (if err \<noteq> None then Suc errs else errs)
      in if length (decisions trace) \<le> i then Panic
         else (let trace' = trace\<lparr>decisions := (decisions trace)[i := d]\<rparr>
               in if d = Sampled \<or> d = NotSampled
                  then Done ((d, Some (pol_name p)), p' # ps, trace', errs')
                  else bind_outcome (eval_policies env tid (Suc i) ps trace' errs')
                         (\<lambda>(r, ps', t, n). Done (r, p' # ps', t, n))))"

definition count_decision :: "decision \<Rightarrow> policy_metrics \<Rightarrow> policy_metrics" where
  "count_decision d m =
     (case d of
        Sampled \<Rightarrow> m\<lparr>decisionSampled := Suc (decisionSampled m)\<rparr>
      | NotSampled \<Rightarrow> m\<lparr>decisionNotSampled := Suc (decisionNotSampled m)\<rparr>
      | _ \<Rightarrow> m)"

definition makeDecision ::
  "'c eval_env \<Rightarrow> 'c policy list \<Rightarrow> trace_id \<Rightarrow> trace_data \<Rightarrow> policy_metrics \<Rightarrow>
   ((decision \<times> string) \<times> 'c policy list \<times> trace_data \<times> policy_metrics) outcome" where
  "makeDecision env pols tid trace m =
     bind_outcome (eval_policies env tid 0 pols trace (evaluateErrorCount m))
       (\<lambda>((d, who), pols', trace', errs).
          let (d', who') = (case who of Some nm \<Rightarrow> (d, nm) | None \<Rightarrow> (Sampled, ''always_sample''))
          in Done ((d', who'), pols', trace', count_decision d' (m\<lparr>evaluateErrorCount := errs\<rparr>)))"

text \<open>One id of the batch in \<^verbatim>\<open>samplingPolicyOnTick\<close>; \<open>now\<close> is the reading of the clock.\<close>

definition decide_one ::
  "'c eval_env \<Rightarrow> int \<Rightarrow> trace_id \<Rightarrow> 'c tail_sampler \<times> policy_metrics \<Rightarrow>
   ('c tail_sampler \<times> policy_metrics) outcome" where
  "decide_one env now tid = (\<lambda>(t, m).
     case idToTrace t tid of
       None \<Rightarrow> Done (t, m\<lparr>idNotFoundOnMapCount := Suc (idNotFoundOnMapCount m)\<rparr>)
     | Some trace \<Rightarrow>
         bind_outcome (makeDecision env (policies t) tid (trace\<lparr>decisionTime := now\<rparr>) m)
           (\<lambda>((d, who), pols', trace', m').
              let t' = t\<lparr>policies := pols',
                         idToTrace := (idToTrace t)(tid \<mapsto> trace'\<lparr>finalDecision := d\<rparr>)\<rparr>
              in Done (if d = Sampled
                       then t'\<lparr>sent := sent t' @ [(Some who, receivedBatches trace')]\<rparr> else t', m')))"

fun decide_all ::
  "'c eval_env \<Rightarrow> int \<Rightarrow> batch \<Rightarrow> 'c tail_sampler \<times> policy_metrics \<Rightarrow>
   ('c tail_sampler \<times> policy_metrics) outcome" where
  "decide_all env now [] s = Done s"
| "decide_all env now (tid # tids) s = bind_outcome (decide_one env now tid s) (decide_all env now tids)"

definition samplingPolicyOnTick ::
  "'c eval_env \<Rightarrow> int \<Rightarrow> 'c tail_sampler \<Rightarrow> ('c tail_sampler \<times> policy_metrics) outcome" where
  "samplingPolicyOnTick env now t =
     bind_outcome (CloseCurrentAndTakeFirstBatch (decisionBatcher t))
       (\<lambda>((batch, ok), b). decide_all env now batch (t\<lparr>decisionBatcher := b\<rparr>, no_metrics))"

section \<open>Consuming spans\<close>

text \<open>
  \<^verbatim>\<open>groupSpansByTraceKey\<close> builds a Go map, whose iteration order is not fixed: the groups are
  an association list, and \<^verbatim>\<open>processTraces\<close> is followed for any order of it.
\<close>

type_synonym span_groups = "(trace_id \<times> span list) list"

definition add_span :: "span_groups \<Rightarrow> span \<Rightarrow> span_groups" where
  "add_span gs sp =
     AList.update (traceID sp) ((case map_of gs (traceID sp) of None \<Rightarrow> [] | Some xs \<Rightarrow> xs) @ [sp]) gs"

definition groupSpansByTraceKey :: "resource_spans \<Rightarrow> span_groups" where
  "groupSpansByTraceKey rs = foldl add_span [] (spans_of_resource rs)"

text \<open>\<^verbatim>\<open>appendToTraces\<close>: a resource with one scope, whose own fields are left at their zero values.\<close>

definition appendToTraces :: "traces \<Rightarrow> resource_spans \<Rightarrow> span list \<Rightarrow> traces" where
  "appendToTraces dest rss spans =
     dest @ [\<lparr>resource_attrs = resource_attrs rss,
              scopes = [\<lparr>scope_name = [], scope_spans_list = spans\<rparr>]\<rparr>]"

definition dropTrace :: "'c tail_sampler \<Rightarrow> trace_id \<Rightarrow> 'c tail_sampler" where
  "dropTrace t tid =
     (case idToTrace t tid of
        None \<Rightarrow> t
      | Some trace \<Rightarrow>
          t\<lparr>idToTrace := (idToTrace t)(tid := None), numTracesOnMap := numTracesOnMap t + NOT 0\<rparr>)"

text \<open>
  The loop \<^verbatim>\<open>for !postDeletion\<close>: the id is sent when the channel has room; otherwise the oldest
  id is received and its trace dropped. Receiving from an empty channel blocks.
\<close>

function post_deletion :: "'c tail_sampler \<Rightarrow> trace_id \<Rightarrow> 'c tail_sampler outcome" where
  "post_deletion t tid =
     (if length (deleteChan t) < deleteCap t then Done (t\<lparr>deleteChan := deleteChan t @ [tid]\<rparr>)
      else case deleteChan t of
             [] \<Rightarrow> Blocked
           | traceKeyToDrop # rest \<Rightarrow>
               post_deletion (dropTrace (t\<lparr>deleteChan := rest\<rparr>) traceKeyToDrop) tid)"
  by pat_completeness auto

lemma dropTrace_deleteChan [simp]:
  "deleteChan (dropTrace t tid) = deleteChan t" "deleteCap (dropTrace t tid) = deleteCap t"
  by (simp_all add: dropTrace_def split: option.splits)

termination post_deletion
  by (relation "measure (\<lambda>(t, tid). length (deleteChan t))") auto

declare post_deletion.simps [simp del]

definition new_trace :: "'c tail_sampler \<Rightarrow> int \<Rightarrow> span list \<Rightarrow> trace_data" where
  "new_trace t now spans =
     \<lparr>decisions = replicate (length (policies t)) Pending, arrivalTime = now, decisionTime = 0,
      spanCount = of_nat (length spans), receivedBatches = [], finalDecision = Unspecified\<rparr>"

text \<open>The registration part of \<^verbatim>\<open>processTraces\<close>: the entry of the trace, counted or created.\<close>

definition register_trace ::
  "int \<Rightarrow> trace_id \<times> span list \<Rightarrow> 'c tail_sampler \<Rightarrow> ('c tail_sampler \<times> trace_data) outcome" where
  "register_trace now = (\<lambda>(tid, spans) t.
     case idToTrace t tid of
       Some trace \<Rightarrow>
         (let trace' = trace\<lparr>spanCount := spanCount trace + of_nat (length spans)\<rparr>
          in Done (t\<lparr>idToTrace := (idToTrace t)(tid \<mapsto> trace')\<rparr>, trace'))
     | None \<Rightarrow>
         (let trace' = new_trace t now spans
          in bind_outcome (add_wait (decisionBatcher t) tid)
               (\<lambda>b. bind_outcome
                  (post_deletion (t\<lparr>idToTrace := (idToTrace t)(tid \<mapsto> trace'), decisionBatcher := b,
                                    numTracesOnMap := numTracesOnMap t + 1\<rparr>) tid)
                  (\<lambda>t'. Done (t', trace')))))"

text \<open>
  The routing part: spans of an undecided trace are buffered in its entry (the entry is a
  pointer, and buffering into one that has been dropped meanwhile changes nothing that can
  still be read), those of a sampled trace are sent on, those of a rejected trace are counted.
\<close>

definition route_spans ::
  "resource_spans \<Rightarrow> trace_id \<times> span list \<Rightarrow> 'c tail_sampler \<times> trace_data \<Rightarrow> 'c tail_sampler" where
  "route_spans rs = (\<lambda>(tid, spans) (t, trace).
     case finalDecision trace of
       Unspecified \<Rightarrow>
         (if idToTrace t tid = None then t
          else t\<lparr>idToTrace := (idToTrace t)(tid \<mapsto>
                   trace\<lparr>receivedBatches := appendToTraces (receivedBatches trace) rs spans\<rparr>)\<rparr>)
     | Sampled \<Rightarrow> t\<lparr>sent := sent t @ [(None, appendToTraces [] rs spans)]\<rparr>
     | _ \<Rightarrow> t)"

fun process_groups ::
  "int \<Rightarrow> resource_spans \<Rightarrow> span_groups \<Rightarrow> 'c tail_sampler \<Rightarrow> 'c tail_sampler outcome" where
  "process_groups now rs [] t = Done t"
| "process_groups now rs (g # gs) t =
     bind_outcome (register_trace now g t) (\<lambda>s. process_groups now rs gs (route_spans rs g s))"

text \<open>
  \<^verbatim>\<open>processTraces\<close> and \<^verbatim>\<open>ConsumeTraces\<close> with \<open>ord\<close>, the order in which the map of groups of
  each resource is iterated.
\<close>

definition processTraces ::
  "(span_groups \<Rightarrow> span_groups) \<Rightarrow> int \<Rightarrow> resource_spans \<Rightarrow> 'c tail_sampler \<Rightarrow> 'c tail_sampler outcome" where
  "processTraces ord now rs t = process_groups now rs (ord (groupSpansByTraceKey rs)) t"

fun ConsumeTraces ::
  "(span_groups \<Rightarrow> span_groups) \<Rightarrow> int \<Rightarrow> traces \<Rightarrow> 'c tail_sampler \<Rightarrow> 'c tail_sampler outcome" where
  "ConsumeTraces ord now [] t = Done t"
| "ConsumeTraces ord now (rs # td) t =
     bind_outcome (processTraces ord now rs t) (ConsumeTraces ord now td)"

end
