(* ===== verification/TailSamplerProps.thy ===== *)
theory TailSamplerProps
  imports TailSampler
begin

text \<open>
  Lemmas on the tail sampling processor: how grouping and registration treat spans, the
  invariant that ties the map of traces to the deletion channel, and what a tick does.
\<close>

section \<open>Grouping\<close>

lemma map_of_foldl_add_span:
  "map_of (foldl add_span gs xs) tid =
     (if filter (\<lambda>sp. traceID sp = tid) xs = [] then map_of gs tid
      else Some ((case map_of gs tid of None \<Rightarrow> [] | Some ys \<Rightarrow> ys) @ filter (\<lambda>sp. traceID sp = tid) xs))"
proof (induction xs arbitrary: gs)
  case (Cons x xs)
  have "map_of (add_span gs x) tid =
     (if traceID x = tid then Some ((case map_of gs tid of None \<Rightarrow> [] | Some ys \<Rightarrow> ys) @ [x])
      else map_of gs tid)"
    by (auto simp: add_span_def)
  then show ?case by (auto simp: Cons.IH split: option.splits)
qed simp

lemma distinct_foldl_add_span: "distinct (map fst gs) \<Longrightarrow> distinct (map fst (foldl add_span gs xs))"
  by (induction xs arbitrary: gs) (auto simp: add_span_def distinct_update)

lemma distinct_groups [simp]: "distinct (map fst (groupSpansByTraceKey rs))"
  by (simp add: groupSpansByTraceKey_def distinct_foldl_add_span)

lemma map_of_groups:
  "map_of (groupSpansByTraceKey rs) tid =
     (let xs = filter (\<lambda>sp. traceID sp = tid) (spans_of_resource rs) in if xs = [] then None else Some xs)"
  by (simp add: groupSpansByTraceKey_def map_of_foldl_add_span Let_def)

section \<open>The deletion channel\<close>

lemma post_deletion_room:
  "length (deleteChan t) < deleteCap t \<Longrightarrow>
   post_deletion t tid = Done (t\<lparr>deleteChan := deleteChan t @ [tid]\<rparr>)"
  by (simp add: post_deletion.simps [of t])

lemma post_deletion_full:
  assumes "length (deleteChan t) = deleteCap t" and "deleteChan t = k # rest"
  shows "post_deletion t tid =
     Done ((dropTrace (t\<lparr>deleteChan := rest\<rparr>) k)\<lparr>deleteChan := rest @ [tid]\<rparr>)"
proof -
  have "post_deletion t tid = post_deletion (dropTrace (t\<lparr>deleteChan := rest\<rparr>) k) tid"
    using assms by (simp add: post_deletion.simps [of t])
  also have "\<dots> = Done ((dropTrace (t\<lparr>deleteChan := rest\<rparr>) k)\<lparr>deleteChan := rest @ [tid]\<rparr>)"
    using assms by (subst post_deletion_room) auto
  finally show ?thesis .
qed

lemma post_deletion_no_capacity:
  "deleteCap t = 0 \<Longrightarrow> deleteChan t = [] \<Longrightarrow> post_deletion t tid = Blocked"
  by (simp add: post_deletion.simps [of t])

section \<open>The invariant\<close>

definition sampler_inv :: "'c tail_sampler \<Rightarrow> bool" where
  "sampler_inv t \<longleftrightarrow>
     0 < deleteCap t \<and> distinct (deleteChan t) \<and> dom (idToTrace t) = set (deleteChan t) \<and>
     length (deleteChan t) \<le> deleteCap t \<and> numTracesOnMap t = of_nat (length (deleteChan t)) \<and>
     batcher_inv (decisionBatcher t) \<and> \<not> pendingClosed (decisionBatcher t) \<and>
     (\<forall>tid tr. idToTrace t tid = Some tr \<longrightarrow> length (decisions tr) = length (policies t))"

lemma sampler_invD:
  assumes "sampler_inv t"
  shows "0 < deleteCap t" "distinct (deleteChan t)" "dom (idToTrace t) = set (deleteChan t)"
    "length (deleteChan t) \<le> deleteCap t" "numTracesOnMap t = of_nat (length (deleteChan t))"
    "batcher_inv (decisionBatcher t)" "\<not> pendingClosed (decisionBatcher t)"
    "\<And>tid tr. idToTrace t tid = Some tr \<Longrightarrow> length (decisions tr) = length (policies t)"
  using assms by (auto simp: sampler_inv_def)

lemma card_traces: "sampler_inv t \<Longrightarrow> card (dom (idToTrace t)) = length (deleteChan t)"
  by (simp add: sampler_inv_def distinct_card)

text \<open>Replacing an entry by one with as many decisions keeps the invariant.\<close>

lemma sampler_inv_update:
  assumes "sampler_inv t" and "idToTrace t tid = Some tr" and "length (decisions tr') = length (decisions tr)"
  shows "sampler_inv (t\<lparr>idToTrace := (idToTrace t)(tid \<mapsto> tr')\<rparr>)"
proof -
  have "insert tid (set (deleteChan t)) = set (deleteChan t)"
    using sampler_invD(3) [OF assms(1)] assms(2) by auto
  then show ?thesis using assms by (auto simp: sampler_inv_def)
qed

lemma sampler_inv_sent: "sampler_inv (t\<lparr>sent := s\<rparr>) = sampler_inv t"
  by (simp add: sampler_inv_def)

text \<open>Registering a new trace evicts the oldest one exactly when the channel is full.\<close>

lemma register_new:
  assumes inv: "sampler_inv t" and new: "idToTrace t tid = None"
  obtains b where "add_wait (decisionBatcher t) tid = Done b" "batcher_inv b" "\<not> pendingClosed b"
    and "register_trace now (tid, spans) t =
      Done (t\<lparr>decisionBatcher := b,
              idToTrace := (if length (deleteChan t) < deleteCap t then idToTrace t
                            else (idToTrace t)(hd (deleteChan t) := None))(tid \<mapsto> new_trace t now spans),
              deleteChan := (if length (deleteChan t) < deleteCap t then deleteChan t
                             else tl (deleteChan t)) @ [tid],
              numTracesOnMap := (if length (deleteChan t) < deleteCap t then numTracesOnMap t + 1
                                 else numTracesOnMap t)\<rparr>, new_trace t now spans)"
proof -
  note I = sampler_invD [OF inv]
  obtain b where b: "add_wait (decisionBatcher t) tid = Done b" "batcher_inv b" "\<not> pendingClosed b"
    using bq.add_Done [OF I(6,7)] by metis
  have fresh: "tid \<notin> set (deleteChan t)" using new I(3) by auto
  show thesis
  proof (cases "length (deleteChan t) < deleteCap t")
    case True
    then show thesis
      using b new by (intro that [of b]) (simp_all add: register_trace_def Let_def post_deletion_room)
  next
    case False
    then obtain k rest where chan: "deleteChan t = k # rest" "length (deleteChan t) = deleteCap t"
      using I(1,4) by (cases "deleteChan t") auto
    then have k: "k \<noteq> tid" "k \<in> dom (idToTrace t)" using fresh I(3) by auto
    let ?t = "t\<lparr>idToTrace := (idToTrace t)(tid \<mapsto> new_trace t now spans), decisionBatcher := b,
                numTracesOnMap := numTracesOnMap t + 1\<rparr>"
    have "post_deletion ?t tid = Done ((dropTrace (?t\<lparr>deleteChan := rest\<rparr>) k)\<lparr>deleteChan := rest @ [tid]\<rparr>)"
      using chan by (intro post_deletion_full) simp_all
    then show thesis
      using b new chan k
      by (intro that [of b]) (auto simp: register_trace_def Let_def dropTrace_def fun_upd_twist)
  qed
qed

lemma register_known:
  "idToTrace t tid = Some tr \<Longrightarrow>
   register_trace now (tid, spans) t =
     Done (t\<lparr>idToTrace := (idToTrace t)(tid \<mapsto> tr\<lparr>spanCount := spanCount tr + of_nat (length spans)\<rparr>)\<rparr>,
           tr\<lparr>spanCount := spanCount tr + of_nat (length spans)\<rparr>)"
  by (simp add: register_trace_def Let_def)

lemma register_inv:
  assumes inv: "sampler_inv t"
  obtains t' tr where "register_trace now (tid, spans) t = Done (t', tr)" "sampler_inv t'"
    "idToTrace t' tid = Some tr" "policies t' = policies t" "sent t' = sent t" "deleteCap t' = deleteCap t"
proof (cases "idToTrace t tid")
  case (Some tr)
  then show thesis
    using inv by (intro that [OF register_known]) (auto intro: sampler_inv_update)
next
  case None
  note I = sampler_invD [OF inv]
  let ?room = "length (deleteChan t) < deleteCap t"
  let ?ids = "(if ?room then idToTrace t else (idToTrace t)(hd (deleteChan t) := None))(tid \<mapsto> new_trace t now spans)"
  let ?chan = "(if ?room then deleteChan t else tl (deleteChan t)) @ [tid]"
  have fresh: "tid \<notin> set (deleteChan t)" using None I(3) by auto
  obtain b where b: "batcher_inv b" "\<not> pendingClosed b"
    and reg: "register_trace now (tid, spans) t =
      Done (t\<lparr>decisionBatcher := b, idToTrace := ?ids, deleteChan := ?chan,
              numTracesOnMap := (if ?room then numTracesOnMap t + 1 else numTracesOnMap t)\<rparr>, new_trace t now spans)"
    by (rule register_new [OF inv None])
  have chan: "distinct ?chan \<and> dom ?ids = set ?chan \<and> length ?chan \<le> deleteCap t \<and>
    (if ?room then numTracesOnMap t + 1 else numTracesOnMap t) = of_nat (length ?chan)"
  proof (cases ?room)
    case True
    then show ?thesis using I fresh by simp
  next
    case False
    then obtain k rest where c: "deleteChan t = k # rest" "length (deleteChan t) = deleteCap t"
      using I(1,4) by (cases "deleteChan t") auto
    then show ?thesis using False I fresh by auto
  qed
  have dec: "length (decisions tr) = length (policies t)" if "?ids i = Some tr" for i tr
    using that I(8) by (auto simp: new_trace_def split: if_splits)
  show thesis
    by (rule that [OF reg]) (use chan dec b I(1) in \<open>auto simp: sampler_inv_def\<close>)
qed

lemma route_inv:
  assumes "sampler_inv t" and "idToTrace t tid = Some tr"
  shows "sampler_inv (route_spans rs (tid, spans) (t, tr))"
    and "policies (route_spans rs (tid, spans) (t, tr)) = policies t"
    and "deleteCap (route_spans rs (tid, spans) (t, tr)) = deleteCap t"
  using assms
  by (auto simp: route_spans_def sampler_inv_sent split: decision.splits intro!: sampler_inv_update)

lemma process_groups_inv:
  "sampler_inv t \<Longrightarrow> \<exists>t'. process_groups now rs gs t = Done t' \<and> sampler_inv t' \<and>
     policies t' = policies t \<and> deleteCap t' = deleteCap t"
proof (induction gs arbitrary: t)
  case (Cons g gs)
  obtain tid spans where g: "g = (tid, spans)" by (cases g)
  obtain t1 tr where r: "register_trace now (tid, spans) t = Done (t1, tr)" "sampler_inv t1"
    "idToTrace t1 tid = Some tr" "policies t1 = policies t" "deleteCap t1 = deleteCap t"
    using register_inv [OF Cons.prems] by metis
  let ?t2 = "route_spans rs (tid, spans) (t1, tr)"
  obtain t' where "process_groups now rs gs ?t2 = Done t'" "sampler_inv t'"
    "policies t' = policies ?t2" "deleteCap t' = deleteCap ?t2"
    using Cons.IH [OF route_inv(1) [OF r(2,3)]] by blast
  then show ?case using g r route_inv(2,3) [OF r(2,3)] by simp
qed simp

lemma ConsumeTraces_inv:
  "sampler_inv t \<Longrightarrow> \<exists>t'. ConsumeTraces ord now td t = Done t' \<and> sampler_inv t' \<and>
     policies t' = policies t \<and> deleteCap t' = deleteCap t"
proof (induction td arbitrary: t)
  case (Cons rs td)
  obtain t1 where t1: "processTraces ord now rs t = Done t1" "sampler_inv t1"
    "policies t1 = policies t" "deleteCap t1 = deleteCap t"
    unfolding processTraces_def using process_groups_inv [OF Cons.prems] by blast
  obtain t2 where "ConsumeTraces ord now td t1 = Done t2" "sampler_inv t2"
    "policies t2 = policies t1" "deleteCap t2 = deleteCap t1"
    using Cons.IH [OF t1(2)] by blast
  then show ?case using t1 by simp
qed simp

section \<open>Decisions\<close>

text \<open>
  Over a slice of decisions that has room for every policy the loop returns; the result is the
  decision of the first policy that says \<^term>\<open>Sampled\<close> or \<^term>\<open>NotSampled\<close>.
\<close>

definition decisive :: "decision \<Rightarrow> bool" where
  "decisive d \<longleftrightarrow> d = Sampled \<or> d = NotSampled"

definition policy_decision :: "'c eval_env \<Rightarrow> trace_id \<Rightarrow> trace_data \<Rightarrow> 'c policy \<Rightarrow> decision" where
  "policy_decision env tid trace p = fst (fst (evaluate env tid trace (pol_evaluator p)))"

fun first_decision :: "'c eval_env \<Rightarrow> trace_id \<Rightarrow> trace_data \<Rightarrow> 'c policy list \<Rightarrow> decision \<times> string option" where
  "first_decision env tid trace [] = (NoResult, None)"
| "first_decision env tid trace (p # ps) =
     (if decisive (policy_decision env tid trace p)
      then (policy_decision env tid trace p, Some (pol_name p))
      else first_decision env tid trace ps)"

text \<open>No evaluator looks at the decisions recorded so far.\<close>

lemma evaluate_string_frame:
  "evaluate_string env key m ivt (trace\<lparr>decisions := ds\<rparr>) = evaluate_string env key m ivt trace"
  by (simp add: evaluate_string_def)

lemma evaluate_frame: "evaluate env tid (trace\<lparr>decisions := ds\<rparr>) e = evaluate env tid trace e"
proof (induction env tid trace e rule: evaluate.induct)
  case (11 env tid trace subs)
  then show ?case by (simp cong: and_loop_cong)
next
  case (12 env tid trace subs maxTotal cs)
  have "composite_loop (evaluate env tid (trace\<lparr>decisions := ds\<rparr>)) maxTotal (spanCount trace)
          (if cs \<noteq> curSecond env then reset_sps subs else subs) =
        composite_loop (evaluate env tid trace) maxTotal (spanCount trace)
          (if cs \<noteq> curSecond env then reset_sps subs else subs)"
    using "12" by (intro composite_loop_cong) auto
  then show ?case by simp
next
  case (13 env tid trace nm sampler op filters subs)
  then have "default_evaluate (evaluate env tid (trace\<lparr>decisions := ds\<rparr>)) op filters subs sampler =
     default_evaluate (evaluate env tid trace) op filters subs sampler"
    by (intro default_evaluate_cong) auto
  then show ?case by simp
qed (simp_all add: evaluate_string_frame evaluate_rate_def)

lemma first_decision_frame:
  "first_decision env tid (trace\<lparr>decisions := ds\<rparr>) ps = first_decision env tid trace ps"
  by (induction ps) (simp_all add: policy_decision_def evaluate_frame)

lemma eval_policies_result:
  "i + length ps \<le> length (decisions trace) \<Longrightarrow>
   \<exists>ps' ds. eval_policies env tid i ps trace errs =
       Done (first_decision env tid trace ps, ps', trace\<lparr>decisions := ds\<rparr>, errs)
     \<and> length ds = length (decisions trace) \<and> map pol_name ps' = map pol_name ps"
proof (induction ps arbitrary: i trace)
  case Nil
  show ?case by (intro exI [of _ "[]"] exI [of _ "decisions trace"]) simp
next
  case (Cons p ps)
  obtain d e' where ev: "evaluate env tid trace (pol_evaluator p) = ((d, None), e')"
    using pe.ev_cases [of env tid trace "pol_evaluator p"] by blast
  have pd: "policy_decision env tid trace p = d" by (simp add: policy_decision_def ev)
  have i: "i < length (decisions trace)" using Cons.prems by simp
  let ?ds = "(decisions trace)[i := d]"
  show ?case
  proof (cases "decisive d")
    case True
    then show ?thesis
      using i by (intro exI [of _ "p\<lparr>pol_evaluator := e'\<rparr> # ps"] exI [of _ ?ds])
        (auto simp: ev pd decisive_def Let_def)
  next
    case False
    obtain ps' ds where "eval_policies env tid (Suc i) ps (trace\<lparr>decisions := ?ds\<rparr>) errs =
         Done (first_decision env tid trace ps, ps', trace\<lparr>decisions := ds\<rparr>, errs)"
      "length ds = length (decisions trace)" "map pol_name ps' = map pol_name ps"
      using Cons.IH [of "Suc i" "trace\<lparr>decisions := ?ds\<rparr>"] Cons.prems by (auto simp: first_decision_frame)
    then show ?thesis
      using False i by (intro exI [of _ "p\<lparr>pol_evaluator := e'\<rparr> # ps'"] exI [of _ ds])
        (auto simp: ev pd decisive_def Let_def)
  qed
qed

definition final_decision :: "decision \<times> string option \<Rightarrow> decision \<times> string" where
  "final_decision r = (case snd r of Some nm \<Rightarrow> (fst r, nm) | None \<Rightarrow> (Sampled, ''always_sample''))"

lemma first_decision_cases:
  "first_decision env tid trace ps = (NoResult, None) \<or>
   (\<exists>d nm. first_decision env tid trace ps = (d, Some nm) \<and> decisive d)"
  by (induction ps) auto

lemma final_decision_decisive: "decisive (fst (final_decision (first_decision env tid trace ps)))"
  using first_decision_cases [of env tid trace ps] by (auto simp: final_decision_def decisive_def)

lemma makeDecision_result:
  assumes "length pols \<le> length (decisions trace)"
  obtains pols' ds where "makeDecision env pols tid trace m =
      Done (final_decision (first_decision env tid trace pols), pols', trace\<lparr>decisions := ds\<rparr>,
            count_decision (fst (final_decision (first_decision env tid trace pols))) m)"
    and "length ds = length (decisions trace)" and "map pol_name pols' = map pol_name pols"
proof -
  obtain pols' ds where "eval_policies env tid 0 pols trace (evaluateErrorCount m) =
       Done (first_decision env tid trace pols, pols', trace\<lparr>decisions := ds\<rparr>, evaluateErrorCount m)"
    "length ds = length (decisions trace)" "map pol_name pols' = map pol_name pols"
    using eval_policies_result [of 0 pols trace env tid "evaluateErrorCount m"] assms by auto
  then show thesis
    by (intro that [where pols' = pols' and ds = ds])
      (auto simp: makeDecision_def final_decision_def split: prod.splits option.splits)
qed

lemma length_policies: "map pol_name ps' = map pol_name ps \<Longrightarrow> length ps' = length ps"
  using map_eq_imp_length_eq by blast

lemma decide_one_known:
  assumes inv: "sampler_inv t" and tr: "idToTrace t tid = Some trace"
  obtains pols' ds where
    "decide_one env now tid (t, m) =
       (let (d, who) = final_decision (first_decision env tid (trace\<lparr>decisionTime := now\<rparr>) (policies t))
        in Done (t\<lparr>policies := pols',
              idToTrace := (idToTrace t)(tid \<mapsto>
                 trace\<lparr>decisionTime := now, decisions := ds, finalDecision := d\<rparr>),
              sent := sent t @ (if d = Sampled then [(Some who, receivedBatches trace)] else [])\<rparr>,
              count_decision d m))"
    and "length ds = length (decisions trace)" and "map pol_name pols' = map pol_name (policies t)"
proof -
  have "length (policies t) \<le> length (decisions (trace\<lparr>decisionTime := now\<rparr>))"
    using sampler_invD(8) [OF inv tr] by simp
  then obtain pols' ds where
    "makeDecision env (policies t) tid (trace\<lparr>decisionTime := now\<rparr>) m =
      Done (final_decision (first_decision env tid (trace\<lparr>decisionTime := now\<rparr>) (policies t)), pols',
            trace\<lparr>decisionTime := now\<rparr>\<lparr>decisions := ds\<rparr>,
            count_decision (fst (final_decision (first_decision env tid (trace\<lparr>decisionTime := now\<rparr>) (policies t)))) m)"
    "length ds = length (decisions trace)" "map pol_name pols' = map pol_name (policies t)"
    using makeDecision_result [of "policies t" "trace\<lparr>decisionTime := now\<rparr>" env tid m] by auto
  then show thesis
    using tr by (intro that [where pols' = pols' and ds = ds]) (auto simp: decide_one_def Let_def split: prod.splits)
qed

lemma decide_one_inv:
  assumes inv: "sampler_inv t"
  shows "\<exists>t' m'. decide_one env now tid (t, m) = Done (t', m') \<and> sampler_inv t' \<and>
     map pol_name (policies t') = map pol_name (policies t) \<and> deleteCap t' = deleteCap t \<and>
     deleteChan t' = deleteChan t"
proof (cases "idToTrace t tid")
  case (Some trace)
  then show ?thesis
  proof (rule decide_one_known [OF inv, where env = env and now = now and m = m], goal_cases)
    case (1 pols' ds)
    let ?fd = "final_decision (first_decision env tid (trace\<lparr>decisionTime := now\<rparr>) (policies t))"
    let ?tr = "trace\<lparr>decisionTime := now, decisions := ds, finalDecision := fst ?fd\<rparr>"
    have "sampler_inv (t\<lparr>idToTrace := (idToTrace t)(tid \<mapsto> ?tr)\<rparr>)"
      using 1(2) by (intro sampler_inv_update [OF inv Some]) simp
    then have "sampler_inv (t\<lparr>policies := pols', idToTrace := (idToTrace t)(tid \<mapsto> ?tr), sent := s\<rparr>)" for s
      using length_policies [OF 1(3)] by (simp add: sampler_inv_def)
    then show ?case using 1 by (simp add: split_beta)
  qed
qed (use inv in \<open>simp add: decide_one_def\<close>)

lemma decide_all_inv:
  "sampler_inv t \<Longrightarrow> \<exists>t' m'. decide_all env now tids (t, m) = Done (t', m') \<and> sampler_inv t' \<and>
     map pol_name (policies t') = map pol_name (policies t) \<and> deleteCap t' = deleteCap t \<and>
     deleteChan t' = deleteChan t"
proof (induction tids arbitrary: t m)
  case (Cons tid tids)
  obtain t1 m1 where 1: "decide_one env now tid (t, m) = Done (t1, m1)" "sampler_inv t1"
    "map pol_name (policies t1) = map pol_name (policies t)" "deleteCap t1 = deleteCap t"
    "deleteChan t1 = deleteChan t"
    using decide_one_inv [OF Cons.prems] by blast
  then show ?case using Cons.IH [OF 1(2), of m1] by auto
qed simp

lemma tick_inv:
  assumes inv: "sampler_inv t"
  shows "\<exists>t' m. samplingPolicyOnTick env now t = Done (t', m) \<and> sampler_inv t' \<and>
     map pol_name (policies t') = map pol_name (policies t) \<and> deleteCap t' = deleteCap t \<and>
     deleteChan t' = deleteChan t"
proof -
  note I = sampler_invD [OF inv]
  obtain out ok b where b: "CloseCurrentAndTakeFirstBatch (decisionBatcher t) = Done ((out, ok), b)"
    "batcher_inv b" "\<not> pendingClosed b"
    using bq.take_Done [OF I(6)] I(7) by metis
  then have "sampler_inv (t\<lparr>decisionBatcher := b\<rparr>)" using inv by (simp add: sampler_inv_def)
  from decide_all_inv [OF this, of env now out no_metrics] show ?thesis
    using b by (simp add: samplingPolicyOnTick_def)
qed

section \<open>Runs of the processor\<close>

text \<open>
  What happens to a processor after its construction: payloads, ticks, and the batcher's
  goroutine, in any order; the environment and the iteration orders may differ each time.
\<close>

inductive sampler_run :: "'c tail_sampler \<Rightarrow> 'c tail_sampler \<Rightarrow> bool" for t0 where
  start: "sampler_run t0 t0"
| consume: "sampler_run t0 t \<Longrightarrow> ConsumeTraces ord now td t = Done t' \<Longrightarrow> sampler_run t0 t'"
| tick: "sampler_run t0 t \<Longrightarrow> samplingPolicyOnTick env now t = Done (t', m) \<Longrightarrow> sampler_run t0 t'"
| goroutine: "sampler_run t0 t \<Longrightarrow> pump (decisionBatcher t) = Done b \<Longrightarrow>
    sampler_run t0 (t\<lparr>decisionBatcher := b\<rparr>)"

lemma pump_open: "pump b = Done b' \<Longrightarrow> pendingClosed b' = pendingClosed b"
  by (auto simp: pump_def split: list.splits)

lemma sampler_run_inv:
  "sampler_run t0 t \<Longrightarrow> sampler_inv t0 \<Longrightarrow>
   sampler_inv t \<and> deleteCap t = deleteCap t0 \<and> map pol_name (policies t) = map pol_name (policies t0)"
proof (induction rule: sampler_run.induct)
  case (consume t ord now td t')
  then show ?case using ConsumeTraces_inv [of t ord now td] by auto
next
  case (tick t env now t' m)
  then show ?case using tick_inv [of t env now] by auto
next
  case (goroutine t b)
  then show ?case by (auto simp: sampler_inv_def pump_open intro: pump_inv)
qed simp

end
