(* ===== verification/TailTheorems.thy ===== *)
theory TailTheorems
  imports TailSamplerProps
begin

text \<open>
  The properties of the tail sampling processor, its evaluators and its batcher, each with a
  witness at a concrete input. The example environment, spans and policies of the witnesses
  come first.
\<close>

section \<open>Example data\<close>

text \<open>
  A cache for the witnesses: an association list that stores every match result it is given
  and never evicts. It satisfies \<^const>\<open>lru_contract\<close> with its own entries.
\<close>

definition ex_env :: "(string \<times> bool) list eval_env" where
  "ex_env = \<lparr>curSecond = 7, reValid = (\<lambda>r. True), reMatch = (\<lambda>r s. has_prefix r s),
     cacheNew = (\<lambda>n. []), cacheGet = (\<lambda>c k. (map_of c k, c)),
     cacheAdd = (\<lambda>c k v. (k, v) # c), traceStateGet = (\<lambda>raw key. None)\<rparr>"

lemma ex_env_contract: "lru_contract ex_env set"
  by (auto simp: lru_contract_def ex_env_def dest: map_of_SomeD)

definition ex_span :: "trace_id \<Rightarrow> u64 \<Rightarrow> u64 \<Rightarrow> attrs \<Rightarrow> span" where
  "ex_span tid s e al = \<lparr>traceID = tid, spanID = [1], span_name = ''op'', span_kind = SpanKindServer,
     startTimestamp = s, endTimestamp = e, statusCode = StatusCodeOk, span_attrs = al, traceState = []\<rparr>"

definition ex_resource :: "span list \<Rightarrow> resource_spans" where
  "ex_resource sps = \<lparr>resource_attrs = [], scopes = [\<lparr>scope_name = ''lib'', scope_spans_list = sps\<rparr>]\<rparr>"

definition ex_trace :: "span list \<Rightarrow> trace_data" where
  "ex_trace sps = \<lparr>decisions = [Pending, Pending], arrivalTime = 0, decisionTime = 0,
     spanCount = of_nat (length sps), receivedBatches = [ex_resource sps], finalDecision = Unspecified\<rparr>"

definition ex_batcher :: batcher where
  "ex_batcher = \<lparr>pendingIds = [], pendingCap = 4, pendingClosed = False, batches = [[]], batchesCap = 1,
     batchesClosed = False, currentBatch = [], stopped = False\<rparr>"

definition ex_sampler :: "nat \<Rightarrow> (string \<times> bool) list tail_sampler" where
  "ex_sampler cap = \<lparr>maxNumTraces = of_nat cap,
     policies = [\<lparr>pol_name = ''never'', pol_evaluator = NeverSample\<rparr>],
     idToTrace = Map.empty, decisionBatcher = ex_batcher, deleteChan = [], deleteCap = cap,
     numTracesOnMap = 0, sent = []\<rparr>"

lemma ex_batcher_inv: "batcher_inv ex_batcher"
  by (simp add: ex_batcher_def batcher_inv_def)

lemma ex_sampler_inv: "0 < cap \<Longrightarrow> sampler_inv (ex_sampler cap)"
  using ex_batcher_inv by (simp add: ex_sampler_def sampler_inv_def) (simp add: ex_batcher_def)

definition ex_policy_cfg :: "string \<Rightarrow> int \<Rightarrow> rat \<Rightarrow> base_policy" where
  "ex_policy_cfg nm prio pct = \<lparr>bp_name = nm, bp_type = ''policy_group'', bp_priority = prio,
     bp_hashSalt = [], bp_samplingPercentage = pct,
     bp_filter = \<lparr>filterOp = ''and'', stringAttributeCfgs = [], numericAttributeCfgs = []\<rparr>\<rparr>"

definition ex_config :: "u64 \<Rightarrow> tail_config" where
  "ex_config n = \<lparr>decisionWait = 2000000000, numTraces = n, expectedNewTracesPerSec = 10,
     policyCfgs = [\<lparr>base = ex_policy_cfg ''drop'' 1 0, subPolicies = []\<rparr>], version = 1\<rparr>"

section \<open>The policies of a new processor\<close>

lemma new_processor_no_policies:
  assumes "newTracesProcessor gsrt srt env numCPU cfg = Done (Inr t)"
    and "\<And>xs. mset (gsrt xs) = mset xs"
  shows "policies t = []"
proof -
  have "gsrt (go_copy [] (policyCfgs cfg)) = []"
    using assms(2) [of "[]"] by (simp add: go_copy_def)
  then show ?thesis
    using assms(1)
    by (auto simp: newTracesProcessor_def build_policies_def Let_def split: if_splits sum.splits)
qed

text \<open>
  \<^verbatim>\<open>newTracesProcessor\<close> copies the configured policy groups into an empty slice, which
  copies nothing, so a processor never has a policy, whatever is configured.
\<close>

theorem tail_policies_ignored:
  assumes "newTracesProcessor gsrt srt env numCPU cfg = Done (Inr t)"
    and "\<And>xs. mset (gsrt xs) = mset xs"
  shows "policies t = []"
  using assms by (rule new_processor_no_policies)

lemma new_processor_shape:
  assumes "newTracesProcessor gsrt srt env numCPU cfg = Done (Inr t)"
  obtains b pols where "batcher_inv b" "\<not> pendingClosed b"
    "t = \<lparr>maxNumTraces = numTraces cfg, policies = pols, idToTrace = Map.empty,
          decisionBatcher = b, deleteChan = [], deleteCap = unat (numTraces cfg),
          numTracesOnMap = 0, sent = []\<rparr>"
proof -
  obtain b pols where b: "batcher_new (nat (go_quot (decisionWait cfg) 1000000000)) (2 * numCPU) = Inr b"
    and "t = \<lparr>maxNumTraces = numTraces cfg, policies = pols, idToTrace = Map.empty,
          decisionBatcher = b, deleteChan = [], deleteCap = unat (numTraces cfg),
          numTracesOnMap = 0, sent = []\<rparr>"
    using assms by (auto simp: newTracesProcessor_def Let_def split: if_splits sum.splits option.splits)
  then show thesis using that batcher_new_inv [OF b] batcher_new_open [OF b] by blast
qed

lemma new_processor_inv:
  "newTracesProcessor gsrt srt env numCPU cfg = Done (Inr t) \<Longrightarrow> 0 < numTraces cfg \<Longrightarrow> sampler_inv t"
  by (rule new_processor_shape, assumption)
     (auto simp: sampler_inv_def word_less_nat_alt)

lemma ex_new_processor:
  "\<exists>t. newTracesProcessor id (sort_key bp_priority) ex_env 2 (ex_config n) = Done (Inr t)"
  by (simp add: newTracesProcessor_def validate_config_def ex_config_def ex_policy_cfg_def batcher_new_def
      go_quot_def go_copy_def build_policies_def Let_def)

theorem tail_policies_ignored_witness:
  "\<exists>t. newTracesProcessor id (sort_key bp_priority) ex_env 2 (ex_config 5) = Done (Inr t) \<and>
       policyCfgs (ex_config 5) \<noteq> [] \<and> policies t = []"
proof -
  obtain t where t: "newTracesProcessor id (sort_key bp_priority) ex_env 2 (ex_config 5) = Done (Inr t)"
    using ex_new_processor by blast
  then show ?thesis using tail_policies_ignored [OF t] by (auto simp: ex_config_def)
qed

definition no_reject :: "'c tail_sampler \<Rightarrow> bool" where
  "no_reject t \<longleftrightarrow> policies t = [] \<and>
     (\<forall>tid tr. idToTrace t tid = Some tr \<longrightarrow> finalDecision tr \<in> {Unspecified, Sampled})"

lemma no_reject_upd:
  "no_reject t \<Longrightarrow> finalDecision tr \<in> {Unspecified, Sampled} \<Longrightarrow>
   no_reject (t\<lparr>idToTrace := (idToTrace t)(tid \<mapsto> tr)\<rparr>)"
  by (auto simp: no_reject_def)

lemma register_no_reject:
  assumes "sampler_inv t" and "no_reject t" and "register_trace now (tid, spans) t = Done (t', tr)"
  shows "no_reject t' \<and> finalDecision tr \<in> {Unspecified, Sampled}"
proof (cases "idToTrace t tid")
  case (Some tr0)
  then have "finalDecision tr0 \<in> {Unspecified, Sampled}" using assms(2) by (simp add: no_reject_def)
  then show ?thesis
    using assms(2,3) Some by (auto simp: register_known [OF Some] intro!: no_reject_upd)
next
  case None
  show ?thesis
    by (rule register_new [OF assms(1) None, of now spans])
       (use assms(2,3) in \<open>auto simp: no_reject_def new_trace_def split: if_splits\<close>)
qed

lemma route_no_reject:
  "no_reject t \<Longrightarrow> finalDecision tr \<in> {Unspecified, Sampled} \<Longrightarrow> no_reject (route_spans rs (tid, spans) (t, tr))"
  by (auto simp: route_spans_def no_reject_def split: decision.splits if_splits)

lemma process_groups_no_reject:
  "sampler_inv t \<Longrightarrow> no_reject t \<Longrightarrow> process_groups now rs gs t = Done t' \<Longrightarrow> no_reject t'"
proof (induction gs arbitrary: t)
  case (Cons g gs)
  obtain tid spans where g: "g = (tid, spans)" by (cases g)
  obtain t1 tr where r: "register_trace now (tid, spans) t = Done (t1, tr)" "sampler_inv t1"
    "idToTrace t1 tid = Some tr"
    using register_inv [OF Cons.prems(1)] by metis
  have n: "no_reject t1" "finalDecision tr \<in> {Unspecified, Sampled}"
    using register_no_reject [OF Cons.prems(1,2) r(1)] by simp_all
  have "process_groups now rs gs (route_spans rs (tid, spans) (t1, tr)) = Done t'"
    using Cons.prems(3) g r(1) by simp
  then show ?case
    using Cons.IH route_inv(1) [OF r(2,3)] route_no_reject [OF n] by blast
qed simp

lemma ConsumeTraces_no_reject:
  "sampler_inv t \<Longrightarrow> no_reject t \<Longrightarrow> ConsumeTraces ord now td t = Done t' \<Longrightarrow> no_reject t'"
proof (induction td arbitrary: t)
  case (Cons rs td)
  then obtain t1 where t1: "process_groups now rs (ord (groupSpansByTraceKey rs)) t = Done t1"
    "ConsumeTraces ord now td t1 = Done t'"
    by (auto simp: processTraces_def)
  have "sampler_inv t1" using process_groups_inv [OF Cons.prems(1)] t1(1) by (metis outcome.inject)
  then show ?case using Cons.IH process_groups_no_reject [OF Cons.prems(1,2) t1(1)] t1(2) by blast
qed simp

lemma decide_one_no_reject:
  assumes "sampler_inv t" and "no_reject t" and "decide_one env now tid (t, m) = Done (t', m')"
  shows "no_reject t'"
proof (cases "idToTrace t tid")
  case (Some trace)
  have "policies t = []" using assms(2) by (simp add: no_reject_def)
  then have "final_decision (first_decision env tid tr (policies t)) = (Sampled, ''always_sample'')" for tr
    by (simp add: final_decision_def)
  moreover obtain pols' ds where "map pol_name pols' = map pol_name (policies t)" and
    "decide_one env now tid (t, m) =
       (let (d, who) = final_decision (first_decision env tid (trace\<lparr>decisionTime := now\<rparr>) (policies t))
        in Done (t\<lparr>policies := pols',
              idToTrace := (idToTrace t)(tid \<mapsto>
                 trace\<lparr>decisionTime := now, decisions := ds, finalDecision := d\<rparr>),
              sent := sent t @ (if d = Sampled then [(Some who, receivedBatches trace)] else [])\<rparr>,
              count_decision d m))"
    by (rule decide_one_known [OF assms(1) Some, of env now m])
  ultimately have "policies t' = []" and "idToTrace t' = (idToTrace t)(tid \<mapsto>
      trace\<lparr>decisionTime := now, decisions := ds, finalDecision := Sampled\<rparr>)"
    using assms(3) \<open>policies t = []\<close> by auto
  then show ?thesis using assms(2) by (auto simp: no_reject_def)
qed (use assms in \<open>simp add: decide_one_def\<close>)

lemma decide_all_no_reject:
  "sampler_inv t \<Longrightarrow> no_reject t \<Longrightarrow> decide_all env now tids (t, m) = Done (t', m') \<Longrightarrow> no_reject t'"
proof (induction tids arbitrary: t m)
  case (Cons tid tids)
  then obtain t1 m1 where d: "decide_one env now tid (t, m) = Done (t1, m1)"
    "decide_all env now tids (t1, m1) = Done (t', m')"
    by auto
  have "sampler_inv t1" using decide_one_inv [OF Cons.prems(1), of env now tid m] d(1) by auto
  then show ?case using Cons.IH decide_one_no_reject [OF Cons.prems(1,2) d(1)] d(2) by blast
qed simp

lemma tick_no_reject:
  assumes inv: "sampler_inv t" and n: "no_reject t" and k: "samplingPolicyOnTick env now t = Done (t', m)"
  shows "no_reject t'"
proof -
  note I = sampler_invD [OF inv]
  obtain out ok b where b: "CloseCurrentAndTakeFirstBatch (decisionBatcher t) = Done ((out, ok), b)"
    "batcher_inv b" "\<not> pendingClosed b"
    using bq.take_Done [OF I(6)] I(7) by metis
  then have "sampler_inv (t\<lparr>decisionBatcher := b\<rparr>)" "no_reject (t\<lparr>decisionBatcher := b\<rparr>)"
    using inv n by (simp_all add: sampler_inv_def no_reject_def)
  then show ?thesis using decide_all_no_reject k b by (fastforce simp: samplingPolicyOnTick_def)
qed

lemma sampler_run_no_reject:
  "sampler_run t0 t \<Longrightarrow> sampler_inv t0 \<Longrightarrow> no_reject t0 \<Longrightarrow> no_reject t"
proof (induction rule: sampler_run.induct)
  case (consume t ord now td t')
  then show ?case using ConsumeTraces_no_reject sampler_run_inv by blast
next
  case (tick t env now t' m)
  then show ?case using tick_no_reject sampler_run_inv by blast
qed (auto simp: no_reject_def)

text \<open>
  C1: As a consequence every trace that a processor decides, in any run after its construction,
  is sampled, and no span is ever rejected.
\<close>

theorem tail_never_rejects:
  assumes "newTracesProcessor gsrt srt env numCPU cfg = Done (Inr t0)"
    and "\<And>xs. mset (gsrt xs) = mset xs"
    and "0 < numTraces cfg" and "sampler_run t0 t" and "idToTrace t tid = Some trace"
  shows "finalDecision trace \<in> {Unspecified, Sampled}"
proof -
  have "policies t0 = []"
    using assms(1,2) by (rule new_processor_no_policies)
  moreover have "idToTrace t0 = Map.empty"
    using assms(1) by (rule new_processor_shape) simp
  ultimately have "no_reject t0" by (simp add: no_reject_def)
  then show ?thesis
    using sampler_run_no_reject [OF assms(4) new_processor_inv [OF assms(1,3)]] assms(5)
    by (auto simp: no_reject_def)
qed

lemma ex_trace_run:
  "\<exists>t0 t tr. newTracesProcessor id (sort_key bp_priority) ex_env 2 (ex_config 5) = Done (Inr t0) \<and>
     sampler_run t0 t \<and> idToTrace t [1] = Some tr"
proof -
  obtain t0 where t0: "newTracesProcessor id (sort_key bp_priority) ex_env 2 (ex_config 5) = Done (Inr t0)"
    using ex_new_processor by blast
  have inv: "sampler_inv t0" by (rule new_processor_inv [OF t0]) (simp add: ex_config_def)
  let ?rs = "ex_resource [ex_span [1] 10 20 []]"
  have g: "groupSpansByTraceKey ?rs = [([1], [ex_span [1] 10 20 []])]"
    by (simp add: groupSpansByTraceKey_def ex_resource_def spans_of_resource_def add_span_def ex_span_def)
  obtain t1 tr where r: "register_trace 0 ([1], [ex_span [1] 10 20 []]) t0 = Done (t1, tr)"
    "idToTrace t1 [1] = Some tr"
    using register_inv [OF inv] by metis
  let ?t = "route_spans ?rs ([1], [ex_span [1] 10 20 []]) (t1, tr)"
  have "ConsumeTraces id 0 [?rs] t0 = Done ?t" using r by (simp add: processTraces_def g)
  then have "sampler_run t0 ?t" by (rule sampler_run.consume [OF sampler_run.start])
  moreover have "\<exists>x. idToTrace ?t [1] = Some x" using r(2) by (auto simp: route_spans_def split: decision.splits)
  ultimately show ?thesis using t0 by blast
qed

theorem tail_never_rejects_witness:
  "\<exists>t0 t tr. newTracesProcessor id (sort_key bp_priority) ex_env 2 (ex_config 5) = Done (Inr t0) \<and>
     sampler_run t0 t \<and> idToTrace t [1] = Some tr \<and> finalDecision tr \<in> {Unspecified, Sampled}"
proof -
  obtain t0 t tr where "newTracesProcessor id (sort_key bp_priority) ex_env 2 (ex_config 5) = Done (Inr t0)"
    "sampler_run t0 t" "idToTrace t [1] = Some tr"
    using ex_trace_run by blast
  then show ?thesis using tail_never_rejects [of id _ ex_env 2 "ex_config 5" t0 t "[1]" tr]
    by (auto simp: ex_config_def)
qed

section \<open>Memory and progress\<close>

text \<open>
  C2: In every run of a processor configured for at least one trace, the map holds at most
  \<^verbatim>\<open>NumTraces\<close> traces, the deletion channel holds each of their ids once, and the gauge
  \<^verbatim>\<open>numTracesOnMap\<close> is their number.
\<close>

theorem tail_memory_bounded:
  assumes "newTracesProcessor gsrt srt env numCPU cfg = Done (Inr t0)" and "0 < numTraces cfg"
    and "sampler_run t0 t"
  shows "card (dom (idToTrace t)) \<le> unat (numTraces cfg) \<and>
         set (deleteChan t) = dom (idToTrace t) \<and> distinct (deleteChan t) \<and>
         numTracesOnMap t = of_nat (card (dom (idToTrace t)))"
proof -
  have cap: "deleteCap t0 = unat (numTraces cfg)"
    using assms(1) by (rule new_processor_shape) simp
  have inv: "sampler_inv t" "deleteCap t = deleteCap t0"
    using sampler_run_inv [OF assms(3) new_processor_inv [OF assms(1,2)]] by simp_all
  show ?thesis
    using sampler_invD [OF inv(1)] card_traces [OF inv(1)] inv(2) cap by simp
qed

theorem tail_memory_bounded_witness:
  "\<exists>t0 t. newTracesProcessor id (sort_key bp_priority) ex_env 2 (ex_config 5) = Done (Inr t0) \<and>
     sampler_run t0 t \<and> idToTrace t [1] \<noteq> None \<and> card (dom (idToTrace t)) \<le> 5"
proof -
  obtain t0 t tr where t: "newTracesProcessor id (sort_key bp_priority) ex_env 2 (ex_config 5) = Done (Inr t0)"
    "sampler_run t0 t" "idToTrace t [1] = Some tr"
    using ex_trace_run by blast
  have "0 < numTraces (ex_config 5)" by (simp add: ex_config_def)
  from tail_memory_bounded [OF t(1) this t(2)] show ?thesis using t by (auto simp: ex_config_def)
qed

text \<open>
  A new trace that finds the deletion channel full drops exactly the oldest trace: every
  other entry stays, the new one is last in the channel.
\<close>

theorem tail_evicts_oldest:
  assumes "sampler_inv t" and "idToTrace t tid = None" and "length (deleteChan t) = deleteCap t"
  shows "\<exists>t' tr. register_trace now (tid, spans) t = Done (t', tr) \<and>
     deleteChan t' = tl (deleteChan t) @ [tid] \<and>
     idToTrace t' = (idToTrace t)(hd (deleteChan t) := None, tid \<mapsto> new_trace t now spans)"
  by (rule register_new [OF assms(1,2), of now spans]) (use assms(3) in auto)

definition ex_full :: "(string \<times> bool) list tail_sampler" where
  "ex_full = (ex_sampler 1)\<lparr>idToTrace := [[1] \<mapsto> (ex_trace [])\<lparr>decisions := [Pending]\<rparr>], deleteChan := [[1]],
     numTracesOnMap := 1\<rparr>"

lemma ex_full_inv: "sampler_inv ex_full"
  using ex_sampler_inv [of 1]
  by (auto simp: sampler_inv_def ex_full_def ex_sampler_def split: if_splits)

theorem tail_evicts_oldest_witness:
  "\<exists>t' tr. register_trace 0 ([2], []) ex_full = Done (t', tr) \<and> deleteChan t' = [[2]]"
proof -
  have "idToTrace ex_full [2] = None" "length (deleteChan ex_full) = deleteCap ex_full"
    by (simp_all add: ex_full_def ex_sampler_def)
  from tail_evicts_oldest [OF ex_full_inv this, of 0 "[]"] show ?thesis
    by (auto simp: ex_full_def)
qed

text \<open>
  C3: Consuming a payload and a tick always return in a state of the invariant: no send blocks,
  no index is out of range, whatever the order in which the groups of spans are visited.
\<close>

theorem tail_operations_return:
  assumes "sampler_inv t"
  shows "(\<exists>t'. ConsumeTraces ord now td t = Done t' \<and> sampler_inv t') \<and>
         (\<exists>t' m. samplingPolicyOnTick env now t = Done (t', m) \<and> sampler_inv t')"
  using ConsumeTraces_inv [OF assms, of ord now td] tick_inv [OF assms, of env now] by blast

theorem tail_operations_return_witness:
  "\<exists>t'. ConsumeTraces rev 0 [ex_resource [ex_span [1] 1 2 [], ex_span [2] 1 2 []]] ex_full = Done t'"
  using tail_operations_return [OF ex_full_inv, of rev 0 "[ex_resource [ex_span [1] 1 2 [], ex_span [2] 1 2 []]]"]
  by blast

text \<open>
  With \<^verbatim>\<open>NumTraces\<close> configured as zero, the first new trace blocks its caller for ever: the
  deletion channel has no room, and the processor waits to receive from it while it is empty.
\<close>

theorem tail_zero_capacity_blocks:
  assumes "newTracesProcessor gsrt srt env numCPU cfg = Done (Inr t)" and "numTraces cfg = 0"
  shows "register_trace now (tid, spans) t = Blocked"
proof -
  obtain b pols where b: "batcher_inv b" "\<not> pendingClosed b"
    and t: "t = \<lparr>maxNumTraces = numTraces cfg, policies = pols, idToTrace = Map.empty,
          decisionBatcher = b, deleteChan = [], deleteCap = unat (numTraces cfg),
          numTracesOnMap = 0, sent = []\<rparr>"
    using assms(1) by (rule new_processor_shape)
  obtain b' where "add_wait b tid = Done b'" using bq.add_Done [OF b] by metis
  then show ?thesis
    using t assms(2) by (simp add: register_trace_def Let_def post_deletion_no_capacity)
qed

theorem tail_zero_capacity_blocks_witness:
  "\<exists>t. newTracesProcessor id (sort_key bp_priority) ex_env 2 (ex_config 0) = Done (Inr t) \<and>
       register_trace 0 ([1], []) t = Blocked"
proof -
  obtain t where t: "newTracesProcessor id (sort_key bp_priority) ex_env 2 (ex_config 0) = Done (Inr t)"
    using ex_new_processor by blast
  have "numTraces (ex_config 0) = 0" by (simp add: ex_config_def)
  then show ?thesis using tail_zero_capacity_blocks [OF t] t by blast
qed

section \<open>Decisions\<close>

lemma first_decision_spec:
  "(\<exists>i < length ps. decisive (policy_decision env tid trace (ps ! i)) \<and>
      (\<forall>j < i. \<not> decisive (policy_decision env tid trace (ps ! j))) \<and>
      first_decision env tid trace ps = (policy_decision env tid trace (ps ! i), Some (pol_name (ps ! i)))) \<or>
   (\<forall>p \<in> set ps. \<not> decisive (policy_decision env tid trace p)) \<and>
     first_decision env tid trace ps = (NoResult, None)"
proof (induction ps)
  case (Cons p ps)
  show ?case
  proof (cases "decisive (policy_decision env tid trace p)")
    case True
    then show ?thesis by (intro disjI1 exI [of _ 0]) simp
  next
    case False
    show ?thesis using Cons.IH
    proof (elim disjE exE conjE, goal_cases)
      case (1 i)
      then show ?case using False
        by (intro disjI1 exI [of _ "Suc i"]) (auto simp: less_Suc_eq_0_disj)
    qed (use False in simp)
  qed
qed simp

text \<open>
  \<^verbatim>\<open>makeDecision\<close> takes the decision of the first policy, in priority order, that says sampled
  or not sampled, and samples the trace when there is none; one of the two counters of the tick
  goes up by one and no error is counted.
\<close>

theorem tail_first_policy_decides:
  assumes "length pols \<le> length (decisions trace)"
  shows "\<exists>d who pols' trace' m'. makeDecision env pols tid trace m = Done ((d, who), pols', trace', m') \<and>
    ((\<exists>i < length pols. decisive d \<and> d = policy_decision env tid trace (pols ! i) \<and> who = pol_name (pols ! i) \<and>
        (\<forall>j < i. \<not> decisive (policy_decision env tid trace (pols ! j)))) \<or>
     (\<forall>p \<in> set pols. \<not> decisive (policy_decision env tid trace p)) \<and> d = Sampled \<and> who = ''always_sample'') \<and>
    decisionSampled m' = decisionSampled m + (if d = Sampled then 1 else 0) \<and>
    decisionNotSampled m' = decisionNotSampled m + (if d = NotSampled then 1 else 0) \<and>
    evaluateErrorCount m' = evaluateErrorCount m"
proof -
  let ?fd = "first_decision env tid trace pols"
  obtain pols' ds where md: "makeDecision env pols tid trace m =
      Done (final_decision ?fd, pols', trace\<lparr>decisions := ds\<rparr>, count_decision (fst (final_decision ?fd)) m)"
    by (rule makeDecision_result [OF assms])
  have cnt: "decisionSampled (count_decision d m) = decisionSampled m + (if d = Sampled then 1 else 0)"
    "decisionNotSampled (count_decision d m) = decisionNotSampled m + (if d = NotSampled then 1 else 0)"
    "evaluateErrorCount (count_decision d m) = evaluateErrorCount m" for d
    by (cases d; simp add: count_decision_def)+
  obtain d who where fd: "final_decision ?fd = (d, who)" by fastforce
  have "(\<exists>i < length pols. decisive d \<and> d = policy_decision env tid trace (pols ! i) \<and> who = pol_name (pols ! i) \<and>
        (\<forall>j < i. \<not> decisive (policy_decision env tid trace (pols ! j)))) \<or>
     (\<forall>p \<in> set pols. \<not> decisive (policy_decision env tid trace p)) \<and> d = Sampled \<and> who = ''always_sample''"
    using first_decision_spec [of pols env tid trace] fd by (auto simp: final_decision_def)
  then show ?thesis using md fd cnt by (intro exI conjI) (assumption | simp)+
qed

definition ex_policies :: "(string \<times> bool) list policy list" where
  "ex_policies = [\<lparr>pol_name = ''a'', pol_evaluator = DefaultEvaluator ''a'' NeverSample [] [] []\<rparr>,
                  \<lparr>pol_name = ''b'', pol_evaluator = NeverSample\<rparr>]"

theorem tail_first_policy_decides_witness:
  "length ex_policies \<le> length (decisions (ex_trace [])) \<and>
   (\<exists>pols' trace' m'. makeDecision ex_env ex_policies [1] (ex_trace []) no_metrics =
      Done ((NotSampled, ''b''), pols', trace', m') \<and> decisionNotSampled m' = 1)"
proof -
  have len: "length ex_policies \<le> length (decisions (ex_trace []))"
    by (simp add: ex_policies_def ex_trace_def)
  have "policy_decision ex_env [1] (ex_trace []) (ex_policies ! 0) = NoResult"
    "policy_decision ex_env [1] (ex_trace []) (ex_policies ! 1) = NotSampled"
    by (simp_all add: ex_policies_def policy_decision_def default_evaluate_def)
  then show ?thesis
    using len tail_first_policy_decides [OF len, of ex_env "[1]" no_metrics]
    by (auto simp: ex_policies_def no_metrics_def decisive_def less_Suc_eq)
qed

text \<open>
  A tick that finds a trace of its batch records the decision in its entry and, when that is
  sampled, sends everything received for it; the received spans stay in the entry in both
  cases, although the source says they are removed.
\<close>

theorem tail_tick_decides_trace:
  assumes "sampler_inv t" and "idToTrace t tid = Some trace"
  shows "\<exists>t' m' tr d who. decide_one env now tid (t, m) = Done (t', m') \<and>
     idToTrace t' = (idToTrace t)(tid \<mapsto> tr) \<and>
     finalDecision tr = d \<and> decisive d \<and> decisionTime tr = now \<and>
     receivedBatches tr = receivedBatches trace \<and>
     sent t' = sent t @ (if d = Sampled then [(Some who, receivedBatches trace)] else [])"
proof -
  let ?fd = "final_decision (first_decision env tid (trace\<lparr>decisionTime := now\<rparr>) (policies t))"
  obtain pols' ds where
    "decide_one env now tid (t, m) =
       (let (d, who) = ?fd
        in Done (t\<lparr>policies := pols',
              idToTrace := (idToTrace t)(tid \<mapsto>
                 trace\<lparr>decisionTime := now, decisions := ds, finalDecision := d\<rparr>),
              sent := sent t @ (if d = Sampled then [(Some who, receivedBatches trace)] else [])\<rparr>,
              count_decision d m))"
    by (rule decide_one_known [OF assms, of env now m])
  then have "decide_one env now tid (t, m) =
      Done (t\<lparr>policies := pols',
              idToTrace := (idToTrace t)(tid \<mapsto>
                 trace\<lparr>decisionTime := now, decisions := ds, finalDecision := fst ?fd\<rparr>),
              sent := sent t @ (if fst ?fd = Sampled then [(Some (snd ?fd), receivedBatches trace)] else [])\<rparr>,
              count_decision (fst ?fd) m)"
    by (simp add: split_beta)
  then show ?thesis
    using final_decision_decisive [of env tid "trace\<lparr>decisionTime := now\<rparr>" "policies t"]
    by (intro exI conjI) (assumption | simp)+
qed

theorem tail_tick_decides_trace_witness:
  "\<exists>t' m' tr d. decide_one ex_env 9 [1] (ex_full, no_metrics) = Done (t', m') \<and>
     idToTrace t' [1] = Some tr \<and> finalDecision tr = d \<and> decisive d \<and>
     receivedBatches tr = [ex_resource []]"
proof -
  have "idToTrace ex_full [1] = Some ((ex_trace [])\<lparr>decisions := [Pending]\<rparr>)"
    by (simp add: ex_full_def)
  from tail_tick_decides_trace [OF ex_full_inv this, of ex_env 9 no_metrics] show ?thesis
    by (auto simp: ex_trace_def)
qed

text \<open>
  The spans of a group go where the decision on their trace says: into the buffer of a trace
  that is undecided or new, to the next consumer for a sampled one, nowhere for a rejected one.
  The batch built for them keeps the resource but not the name of their scope.
\<close>

theorem tail_routes_group:
  fixes rs :: resource_spans and spans :: "span list"
  assumes "sampler_inv t"
  defines "batch \<equiv> \<lparr>resource_attrs = resource_attrs rs,
                     scopes = [\<lparr>scope_name = [], scope_spans_list = spans\<rparr>]\<rparr>"
  shows "\<exists>t' tr'. process_groups now rs [(tid, spans)] t = Done t' \<and> idToTrace t' tid = Some tr' \<and>
    (case idToTrace t tid of
       None \<Rightarrow> receivedBatches tr' = [batch] \<and> spanCount tr' = of_nat (length spans) \<and> sent t' = sent t
     | Some tr \<Rightarrow> spanCount tr' = spanCount tr + of_nat (length spans) \<and>
         (case finalDecision tr of
            Unspecified \<Rightarrow> receivedBatches tr' = receivedBatches tr @ [batch] \<and> sent t' = sent t
          | Sampled \<Rightarrow> receivedBatches tr' = receivedBatches tr \<and> sent t' = sent t @ [(None, [batch])]
          | _ \<Rightarrow> receivedBatches tr' = receivedBatches tr \<and> sent t' = sent t))"
proof (cases "idToTrace t tid")
  case None
  show ?thesis
    by (rule register_new [OF assms(1) None, of now spans])
      (simp add: None route_spans_def new_trace_def appendToTraces_def batch_def)
next
  case (Some tr)
  then show ?thesis
    by (cases "finalDecision tr")
      (simp_all add: register_known [OF Some] route_spans_def appendToTraces_def batch_def)
qed

theorem tail_routes_group_witness:
  "\<exists>t' tr'. process_groups 0 (ex_resource []) [([1], [ex_span [1] 5 6 []])] ex_full = Done t' \<and>
     idToTrace t' [1] = Some tr' \<and> length (receivedBatches tr') = 2"
proof -
  have "idToTrace ex_full [1] = Some ((ex_trace [])\<lparr>decisions := [Pending]\<rparr>)"
    by (simp add: ex_full_def)
  then show ?thesis
    using tail_routes_group [OF ex_full_inv, of 0 "ex_resource []" "[1]" "[ex_span [1] 5 6 []]"]
    by (auto simp: ex_trace_def)
qed

end
