(* ===== verification/SamplingTheorems.thy ===== *)
theory SamplingTheorems
  imports TailTheorems
begin

text \<open>
  The properties of the policy evaluators over one call and over runs of calls, and of the
  batcher that delays the decisions.
\<close>

section \<open>Runs of one evaluator\<close>

text \<open>The decisions of one evaluator on a sequence of traces, and its state at the end.\<close>

fun eval_run :: "'c eval_env \<Rightarrow> 'c evaluator \<Rightarrow> (trace_id \<times> trace_data) list \<Rightarrow>
                 decision list \<times> 'c evaluator" where
  "eval_run env e [] = ([], e)"
| "eval_run env e ((tid, trace) # ts) =
     (let ((d, err), e') = evaluate env tid trace e; (ds, e'') = eval_run env e' ts in (d # ds, e''))"

section \<open>The default evaluator\<close>

text \<open>
  A policy group gives no result unless one of its filters samples (and, for the operator
  AND, none rejects); otherwise it takes the first result of its sub-policies and falls back to
  its own sampler. It never reports an error.
\<close>

theorem default_evaluator_decision:
  "fst (evaluate env tid trace (DefaultEvaluator nm s op fs subs)) =
     (if (to_lower op = ''and'' \<and> (\<exists>f \<in> set fs. fst (fst (evaluate env tid trace f)) = NotSampled))
         \<or> \<not> (\<exists>f \<in> set fs. fst (fst (evaluate env tid trace f)) = Sampled)
      then NoResult
      else (case find (\<lambda>d. d \<noteq> NoResult) (map (\<lambda>e. fst (fst (evaluate env tid trace e))) subs) of
              Some d \<Rightarrow> d
            | None \<Rightarrow> fst (fst (evaluate env tid trace s))), None)"
  by (rule evaluate_DefaultEvaluator)

theorem default_evaluator_decision_witness:
  "fst (evaluate ex_env [1] (ex_trace []) (DefaultEvaluator ''p'' NeverSample ''or'' [NeverSample, AlwaysSample] [])) =
     (NotSampled, None)"
  unfolding default_evaluator_decision by (simp add: to_lower_def)

text \<open>
  A policy group all of whose filters are string filters with \<^verbatim>\<open>InvertMatch\<close> gives no result
  on any trace: the inverted verdicts are neither of the two the filter loop looks for, although
  the configuration documents that an inverted match samples.
\<close>

theorem inverted_filters_never_match:
  assumes "\<And>f. f \<in> set fs \<Longrightarrow> inverted_string_filter f"
  shows "fst (evaluate env tid trace (DefaultEvaluator nm s op fs subs)) = (NoResult, None)"
proof -
  have "fst (fst (evaluate env tid trace f)) \<notin> {Sampled, NotSampled}" if "f \<in> set fs" for f
    using inverted_decision [OF assms [OF that], of env tid trace] by auto
  then show ?thesis
    unfolding evaluate_DefaultEvaluator by auto
qed

theorem inverted_filters_never_match_witness:
  "fst (evaluate ex_env [1] (ex_trace [])
     (DefaultEvaluator ''p'' AlwaysSample ''or'' [StringAttributeFilter ''k'' (ExactMatcher [''v'']) True] []))
   = (NoResult, None)"
  by (rule inverted_filters_never_match) simp

section \<open>The string filter\<close>

definition string_verdict :: "'c eval_env \<Rightarrow> string \<Rightarrow> (string \<Rightarrow> bool) \<Rightarrow> bool \<Rightarrow> trace_data \<Rightarrow> decision" where
  "string_verdict env key P ivt trace =
     (let hit = has_hit (resource_matches key P) (span_matches key P) (receivedBatches trace)
      in if ivt then (if hit then InvertNotSampled else InvertSampled)
         else (if hit then Sampled else NotSampled))"

lemma eval_run_string:
  assumes "lru_contract env entries"
  shows "matcher_coherent env entries m \<Longrightarrow>
    fst (eval_run env (StringAttributeFilter key m ivt) ts) =
      map (\<lambda>(tid, trace). string_verdict env key (matcher_matches env m) ivt trace) ts"
proof (induction ts arbitrary: m)
  case (Cons t ts)
  obtain tid trace where t: "t = (tid, trace)" by (cases t)
  let ?m' = "snd (evaluate_string env key m ivt trace)"
  have "same_rules env entries m ?m'"
    by (rule evaluate_string_correct(2) [OF assms Cons.prems])
  then have "matcher_coherent env entries ?m'" "matcher_matches env ?m' = matcher_matches env m"
    by (simp_all add: same_rules_def)
  with Cons.IH [of ?m'] show ?case
    using evaluate_string_correct(1) [OF assms Cons.prems, of key ivt trace]
    by (simp add: t split_beta string_verdict_def)
qed simp

text \<open>
  A string filter built from regular expressions decides every trace of a run as the
  expressions say, whatever the cache of match results keeps or evicts in between.
\<close>

theorem string_filter_cache_transparent:
  assumes "lru_contract env entries"
    and "NewStringAttributeFilter env key patterns True maxSize ivt = Some e"
  shows "fst (eval_run env e ts) =
    map (\<lambda>(tid, trace). string_verdict env key (\<lambda>s. \<exists>r \<in> set patterns. reMatch env r s) ivt trace) ts"
proof -
  let ?m = "RegexMatcher (cacheNew env (if maxSize \<le> 0 then 128 else maxSize)) patterns"
  have e: "e = StringAttributeFilter key ?m ivt"
    using assms(2) by (auto simp: NewStringAttributeFilter_def addFilters_def split: if_splits)
  have "matcher_coherent env entries ?m"
    using assms(1) by (simp add: lru_contract_def)
  moreover have "matcher_matches env ?m = (\<lambda>s. \<exists>r \<in> set patterns. reMatch env r s)"
    by (simp add: fun_eq_iff)
  ultimately show ?thesis using eval_run_string [OF assms(1)] by (simp add: e)
qed

theorem string_filter_cache_transparent_witness:
  "fst (eval_run ex_env (StringAttributeFilter ''k'' (RegexMatcher [] [''a'']) False)
     [([1], ex_trace [ex_span [1] 1 2 [(''k'', ValueStr ''ab'')]]), ([2], ex_trace [])]) = [Sampled, NotSampled]"
proof -
  have "NewStringAttributeFilter ex_env ''k'' [''a''] True 0 False =
      Some (StringAttributeFilter ''k'' (RegexMatcher [] [''a'']) False)"
    by (simp add: NewStringAttributeFilter_def addFilters_def ex_env_def)
  from string_filter_cache_transparent [OF ex_env_contract this] show ?thesis
    by (simp add: string_verdict_def has_hit_def resource_matches_def span_matches_def ex_trace_def
        ex_resource_def ex_span_def ex_env_def spans_of_resource_def has_prefix_def del: eval_run.simps)
qed

section \<open>The latency filter\<close>

text \<open>
  On spans whose timestamps are set and below \<open>2 ^ 63\<close> the latency filter samples exactly
  the traces whose extent, latest end minus earliest start over all spans, is at least the
  threshold in milliseconds, though it stops at the first span that shows it.
\<close>

theorem latency_filter_decides_extent:
  assumes "spans_ts_ok (spans_of (receivedBatches trace))"
  shows "fst (fst (evaluate env tid trace (LatencyFilter thr))) =
    (if spans_of (receivedBatches trace) \<noteq> [] \<and>
        sint thr \<le> duration_ms (trace_extent (spans_of (receivedBatches trace)))
     then Sampled else NotSampled)"
  using latency_sampled_iff [OF assms, of thr] by (simp add: hasSpan_spans_any split_beta)

theorem latency_filter_decides_extent_witness:
  "fst (fst (evaluate ex_env [1] (ex_trace [ex_span [1] 1000000 4000000 [], ex_span [1] 2000000 9000000 []])
     (LatencyFilter 8))) = Sampled"
proof -
  have "spans_ts_ok (spans_of (receivedBatches
      (ex_trace [ex_span [1] 1000000 4000000 [], ex_span [1] 2000000 9000000 []])))"
    by (simp add: spans_ts_ok_def ts_ok_def ex_trace_def ex_resource_def ex_span_def spans_of_def
        spans_of_resource_def i64_max_def)
  from latency_filter_decides_extent [OF this, of ex_env "[1]" 8] show ?thesis
    by (simp add: trace_extent_def duration_ms_def ex_trace_def ex_resource_def ex_span_def spans_of_def
        spans_of_resource_def go_quot_def)
qed

section \<open>Rate limits\<close>

text \<open>The spans of the traces of a run that were sampled.\<close>

definition sampled_spans :: "(trace_id \<times> trace_data) list \<Rightarrow> decision list \<Rightarrow> int" where
  "sampled_spans ts ds =
     sum_list (map (\<lambda>(t, d). if d = Sampled then sint (spanCount (snd t)) else 0) (zip ts ds))"

lemma no_sampled_spans: "Sampled \<notin> set ds \<Longrightarrow> sampled_spans ts ds = 0"
  by (induction ts ds rule: list_induct2') (auto simp: sampled_spans_def)

definition counts_fit :: "i64 \<Rightarrow> (trace_id \<times> trace_data) list \<Rightarrow> bool" where
  "counts_fit n ts \<longleftrightarrow> 0 \<le> sint n \<and> (\<forall>t \<in> set ts. 0 \<le> sint (spanCount (snd t))) \<and>
     sint n + sum_list (map (sint \<circ> spanCount \<circ> snd) ts) \<le> i64_max"

lemma sum_list_nonneg_sint: "\<forall>t \<in> set ts. 0 \<le> sint (f t) \<Longrightarrow> 0 \<le> sum_list (map (sint \<circ> f) ts)"
  by (induction ts) auto

lemma sint_add_fit:
  fixes a b :: i64
  assumes "0 \<le> sint a" and "0 \<le> sint b" and "sint a + sint b \<le> i64_max"
  shows "sint (a + b) = sint a + sint b"
  using assms by (simp add: sint_word_ariths i64_max_def signed_take_bit_int_eq_self)

lemma counts_fit_step:
  assumes "counts_fit n (t # ts)"
  shows "counts_fit n ts" and "counts_fit (n + spanCount (snd t)) ts"
    and "sint (n + spanCount (snd t)) = sint n + sint (spanCount (snd t))"
proof -
  have nn: "0 \<le> sum_list (map (sint \<circ> spanCount \<circ> snd) ts)"
    using assms sum_list_nonneg_sint [of ts "spanCount \<circ> snd"] by (simp add: counts_fit_def comp_def)
  show s: "sint (n + spanCount (snd t)) = sint n + sint (spanCount (snd t))"
    by (rule sint_add_fit) (use assms nn in \<open>auto simp: counts_fit_def\<close>)
  show "counts_fit n ts" using assms by (auto simp: counts_fit_def)
  show "counts_fit (n + spanCount (snd t)) ts"
    using assms s by (auto simp: counts_fit_def)
qed

lemma rate_limit_run:
  "counts_fit n ts \<Longrightarrow> ds = fst (eval_run env (RateLimiting (curSecond env) n sps) ts) \<Longrightarrow>
   0 \<le> sampled_spans ts ds \<and> (Sampled \<in> set ds \<longrightarrow> sint n + sampled_spans ts ds < sint sps)"
proof (induction ts arbitrary: n ds)
  case (Cons t ts)
  obtain tid trace where t: "t = (tid, trace)" by (cases t)
  note fit = counts_fit_step [OF Cons.prems(1)]
  have sp: "0 \<le> sint (spanCount trace)" using Cons.prems(1) by (simp add: counts_fit_def t)
  show ?case
  proof (cases "n + spanCount trace <s sps")
    case True
    let ?ds = "fst (eval_run env (RateLimiting (curSecond env) (n + spanCount trace) sps) ts)"
    have "ds = Sampled # ?ds"
      using Cons.prems(2) True by (simp add: t evaluate_rate_def split_beta Let_def)
    moreover have "sint n + sint (spanCount trace) < sint sps"
      using True fit(3) by (simp add: t word_sless_alt)
    moreover have "Sampled \<notin> set ?ds \<longrightarrow> sampled_spans ts ?ds = 0"
      by (simp add: no_sampled_spans)
    ultimately show ?thesis
      using Cons.IH [OF fit(2) [unfolded t snd_conv] refl] fit(3) sp by (auto simp: t sampled_spans_def)
  next
    case False
    let ?ds = "fst (eval_run env (RateLimiting (curSecond env) n sps) ts)"
    have "ds = NotSampled # ?ds"
      using Cons.prems(2) False by (simp add: t evaluate_rate_def split_beta Let_def)
    then show ?thesis
      using Cons.IH [OF fit(1) refl] by (auto simp: t sampled_spans_def)
  qed
qed (simp add: sampled_spans_def)

text \<open>
  Within one second a rate limiter lets through strictly fewer spans than its limit, as long
  as the span counts it adds up stay within 63 bits; a trace above the rest of the budget is
  rejected as a whole and leaves the budget to the traces after it.
\<close>

theorem rate_limit_respected:
  assumes "counts_fit n ts"
    and "ds = fst (eval_run env (RateLimiting (curSecond env) n sps) ts)" and "Sampled \<in> set ds"
  shows "sint n + sampled_spans ts ds < sint sps"
  using rate_limit_run [OF assms(1,2)] assms(3) by blast

theorem rate_limit_respected_witness:
  "\<exists>ts ds. ds = fst (eval_run ex_env (RateLimiting 7 0 3) ts) \<and> ds = [Sampled, NotSampled, Sampled] \<and>
     sampled_spans ts ds < 3"
proof -
  let ?tr = "\<lambda>n. ex_trace (replicate n (ex_span [1] 1 2 []))"
  let ?ts = "[([1], ?tr 1), ([2], ?tr 2), ([3], ?tr 1)]"
  have fit: "counts_fit 0 ?ts" by (simp add: counts_fit_def ex_trace_def i64_max_def)
  have ds: "fst (eval_run ex_env (RateLimiting (curSecond ex_env) 0 3) ?ts) = [Sampled, NotSampled, Sampled]"
    by (simp add: evaluate_rate_def Let_def ex_env_def ex_trace_def word_sless_alt)
  from rate_limit_respected [OF fit refl, of ex_env 3] show ?thesis
    using ds by (intro exI [of _ ?ts]) (auto simp: ex_env_def simp del: eval_run.simps)
qed

section \<open>Composite policies\<close>

text \<open>
  The total of a composite policy does not bound what it samples: the limit is compared with
  each sub-policy on its own, so two sub-policies with the full share sample twice the
  total in one second.
\<close>

theorem composite_total_exceeded:
  "\<exists>ts. counts_fit 0 ts \<and>
    (let ds = fst (eval_run ex_env
       (NewComposite 2 [(StatusCodeFilter [StatusCodeOk], 2), (StatusCodeFilter [StatusCodeError], 2)]) ts)
     in sampled_spans ts ds = 4)"
proof -
  let ?ok = "ex_span [1] 1 2 []"
  let ?err = "?ok\<lparr>statusCode := StatusCodeError\<rparr>"
  let ?ts = "[([1], ex_trace [?ok, ?ok]), ([2], ex_trace [?err, ?err])]"
  have "counts_fit 0 ?ts" by (simp add: counts_fit_def ex_trace_def i64_max_def)
  moreover have "fst (eval_run ex_env
       (NewComposite 2 [(StatusCodeFilter [StatusCodeOk], 2), (StatusCodeFilter [StatusCodeError], 2)]) ?ts)
      = [Sampled, Sampled]"
    by (simp add: NewComposite_def ex_env_def ex_trace_def ex_resource_def ex_span_def hasSpan_spans_any
        spans_of_def spans_of_resource_def status_cb_def reset_sps_def word_sle_eq)
  ultimately show ?thesis
    by (intro exI [of _ ?ts]) (simp add: sampled_spans_def ex_trace_def Let_def del: eval_run.simps)
qed

section \<open>The batcher\<close>

text \<open>
  C37: Whatever the interleaving of producers, the goroutine, the ticks and \<^verbatim>\<open>Stop\<close>, the ids that came
  out of the batcher followed by those still in it are the ids that were in it followed by
  those that went in: none is lost, duplicated or reordered.
\<close>

theorem batcher_exactly_once_in_order:
  assumes "batcher_new numBatches chanCap = Inr b" and "batcher_run b ins outs c"
  shows "concat outs @ in_flight c = ins"
proof -
  have "in_flight b = []"
    using assms(1) by (auto simp: batcher_new_def in_flight_def split: if_splits)
  then show ?thesis using batcher_run_queue [OF assms(2)] batcher_new_inv [OF assms(1)] by simp
qed

lemma ex_batcher_new: "batcher_new 1 4 = Inr ex_batcher"
  by (simp add: batcher_new_def ex_batcher_def)

definition ex_batcher_added :: batcher where
  "ex_batcher_added = ex_batcher\<lparr>pendingIds := [[1]]\<rparr>"

definition ex_batcher_pumped :: batcher where
  "ex_batcher_pumped = ex_batcher\<lparr>currentBatch := [[1]]\<rparr>"

definition ex_batcher_taken :: batcher where
  "ex_batcher_taken = ex_batcher\<lparr>batches := [[[1]]]\<rparr>"

lemmas ex_batcher_defs =
  ex_batcher_def ex_batcher_added_def ex_batcher_pumped_def ex_batcher_taken_def

lemma ex_batcher_steps:
  "AddToCurrentBatch ex_batcher [1] = Done ex_batcher_added"
  "pump ex_batcher_added = Done ex_batcher_pumped"
  "CloseCurrentAndTakeFirstBatch ex_batcher_pumped = Done (([], True), ex_batcher_taken)"
  "CloseCurrentAndTakeFirstBatch ex_batcher_taken = Done (([[1]], True), ex_batcher)"
  by (simp_all add: ex_batcher_defs AddToCurrentBatch_def pump_def CloseCurrentAndTakeFirstBatch_def)

theorem batcher_exactly_once_in_order_witness:
  "batcher_run ex_batcher [[1]] [[], [[1]]] ex_batcher \<and> concat [[], [[1]]] @ in_flight ex_batcher = [[1]]"
proof -
  have "batcher_run ex_batcher ([] @ [[1]]) ([[]] @ [[[1]]]) ex_batcher"
    using run_take [OF run_take [OF run_pump [OF run_add [OF run_start ex_batcher_steps(1)]
        ex_batcher_steps(2)] ex_batcher_steps(3)] ex_batcher_steps(4)] by simp
  then have "batcher_run ex_batcher [[1]] [[], [[1]]] ex_batcher" by simp
  with batcher_exactly_once_in_order [OF ex_batcher_new this] show ?thesis by blast
qed

text \<open>
  Until it is stopped the batcher is a delay line: the batch closed by a tick is what the tick
  \<open>numBatches\<close> later takes out, and the first \<open>numBatches\<close> ticks take out empty batches.
\<close>

theorem batcher_delays_batches:
  assumes "batcher_new numBatches chanCap = Inr b" and "delay_run b shut outs c"
  shows "outs = take (length shut) (replicate numBatches [] @ shut)"
proof -
  have b: "batches b = replicate numBatches []" "\<not> stopped b"
    using assms(1) by (auto simp: batcher_new_def split: if_splits)
  have "outs @ batches c = replicate numBatches [] @ shut" "length outs = length shut"
    using delay_run_line [OF assms(2) batcher_new_inv [OF assms(1)] b(2)] b(1) by auto
  then show ?thesis by (metis append_eq_conv_conj)
qed

theorem batcher_delays_batches_witness:
  "delay_run ex_batcher [[[1]], []] [[], [[1]]] ex_batcher \<and>
   [[], [[1]]] = take 2 (replicate 1 [] @ [[[1::u8]], []])"
proof -
  have c: "currentBatch ex_batcher_pumped = [[1]]" "currentBatch ex_batcher_taken = []"
    by (simp_all add: ex_batcher_defs)
  have run: "delay_run ex_batcher [[[1]], []] [[], [[1]]] ex_batcher"
    using delay_take [OF delay_take [OF delay_pump [OF delay_add [OF delay_start ex_batcher_steps(1)]
        ex_batcher_steps(2)] ex_batcher_steps(3)] ex_batcher_steps(4)] by (simp add: c)
  from batcher_delays_batches [OF ex_batcher_new run] run show ?thesis by simp
qed

end
