(* ===== verification/SpanMetricsKeys.thy ===== *)
theory SpanMetricsKeys
  imports Pdata
begin

text \<open>
  Metric keys and dimensions of the span metrics processor
  (\<^verbatim>\<open>processor/signozspanmetricsprocessor/processor.go\<close> and \<^verbatim>\<open>config.go\<close>): the time bucket in
  front of a key, the key itself, the dimensions stored for it, the limits on the services
  and operations that are told apart, the remote address of a client span, and the
  patterns that exclude spans.
\<close>

section \<open>Configuration\<close>

datatype temporality = Delta | Cumulative

record dim_cfg =
  dc_name :: string
  dc_default :: "string option"

record exclude_pattern =
  ep_name :: string
  ep_pattern :: string

record sm_config =
  metricsExporter :: string
  latencyHistogramBuckets :: "int list option"
  cfgDimensions :: "dim_cfg list"
  excludePatterns :: "exclude_pattern list"
  dimensionsCacheSize :: int
  aggregationTemporality :: string
  skipSanitizeLabel :: bool
  metricsFlushInterval :: int
  timeBucketInterval :: int
  enableExpHistogram :: bool
  maxServicesToTrack :: int
  maxOperationsToTrackPerService :: int
  skipSpansOlderThan :: int

definition GetAggregationTemporality :: "sm_config \<Rightarrow> temporality" where
  "GetAggregationTemporality c =
     (if aggregationTemporality c = ''AGGREGATION_TEMPORALITY_DELTA'' then Delta else Cumulative)"

definition GetTimeBucketInterval :: "sm_config \<Rightarrow> int" where
  "GetTimeBucketInterval c = (if timeBucketInterval c = 0 then 60 * 1000000000 else timeBucketInterval c)"

definition GetSkipSpansOlderThan :: "sm_config \<Rightarrow> int" where
  "GetSkipSpansOlderThan c =
     (if skipSpansOlderThan c \<le> 0 then 24 * 3600 * 1000000000 else skipSpansOlderThan c)"

definition createDefaultConfig :: "bool \<Rightarrow> sm_config" where
  "createDefaultConfig gate =
     \<lparr>metricsExporter = [], latencyHistogramBuckets = None, cfgDimensions = [], excludePatterns = [],
      dimensionsCacheSize = 1000, aggregationTemporality = ''AGGREGATION_TEMPORALITY_CUMULATIVE'',
      skipSanitizeLabel = gate, metricsFlushInterval = 60 * 1000000000, timeBucketInterval = 0,
      enableExpHistogram = False, maxServicesToTrack = 256, maxOperationsToTrackPerService = 2048,
      skipSpansOlderThan = 0\<rparr>"

section \<open>What the processor calls outside the repository\<close>

text \<open>
  \<^verbatim>\<open>Value.AsString\<close>, the \<^verbatim>\<open>String\<close> methods of span kinds and status codes, matching of a
  compiled pattern, the Unicode classes, and the host of a parsed URL (\<^term>\<open>None\<close> when it does not parse).
\<close>

record key_env =
  asString :: "pvalue \<Rightarrow> string"
  kindString :: "span_kind \<Rightarrow> string"
  statusString :: "status_code \<Rightarrow> string"
  rxValid :: "string \<Rightarrow> bool"
  rxMatch :: "string \<Rightarrow> string \<Rightarrow> bool"
  isLetter :: "nat \<Rightarrow> bool"
  isDigit :: "nat \<Rightarrow> bool"
  urlHost :: "string \<Rightarrow> string option"

section \<open>Names\<close>

definition serviceNameKey :: string where "serviceNameKey = ''service.name''"
definition operationKey :: string where "operationKey = ''operation''"
definition spanKindKey :: string where "spanKindKey = ''span.kind''"
definition statusCodeKey :: string where "statusCodeKey = ''status.code''"
definition tagHTTPStatusCode :: string where "tagHTTPStatusCode = ''http.status_code''"
definition tagHTTPStatusCodeStable :: string where "tagHTTPStatusCodeStable = ''http.response.status_code''"
definition signozID :: string where "signozID = ''signoz.collector.id''"
definition resourcePrefix :: string where "resourcePrefix = ''resource_''"
definition overflowServiceName :: string where "overflowServiceName = ''overflow_service''"
definition overflowOperation :: string where "overflowOperation = ''overflow_operation''"

definition sep :: char where
  "sep = CHR 0x00"

fun SpanKindStr :: "span_kind \<Rightarrow> string" where
  "SpanKindStr SpanKindUnspecified = ''SPAN_KIND_UNSPECIFIED''"
| "SpanKindStr SpanKindInternal = ''SPAN_KIND_INTERNAL''"
| "SpanKindStr SpanKindServer = ''SPAN_KIND_SERVER''"
| "SpanKindStr SpanKindClient = ''SPAN_KIND_CLIENT''"
| "SpanKindStr SpanKindProducer = ''SPAN_KIND_PRODUCER''"
| "SpanKindStr SpanKindConsumer = ''SPAN_KIND_CONSUMER''"
| "SpanKindStr (SpanKindOther n) = []"

fun StatusCodeStr :: "status_code \<Rightarrow> string" where
  "StatusCodeStr StatusCodeUnset = ''STATUS_CODE_UNSET''"
| "StatusCodeStr StatusCodeOk = ''STATUS_CODE_OK''"
| "StatusCodeStr StatusCodeError = ''STATUS_CODE_ERROR''"
| "StatusCodeStr (StatusCodeOther n) = []"

section \<open>Sanitized names\<close>

definition sanitizeRune :: "key_env \<Rightarrow> nat \<Rightarrow> nat" where
  "sanitizeRune E r = (if isLetter E r \<or> isDigit E r then r else 95)"

definition sanitize :: "key_env \<Rightarrow> string \<Rightarrow> bool \<Rightarrow> string" where
  "sanitize E s skipSanitize =
     (if s = [] then s
      else (let s1 = strings_map (sanitizeRune E) s;
                s2 = (if isDigit E (of_char (s1 ! 0)) then ''key_'' @ s1 else s1);
                s3 = (if \<not> skipSanitize \<and> has_prefix ''_'' s2 then ''key'' @ s2 else s2)
            in if has_prefix ''__'' s3 then ''key'' @ s3 else s3))"

text \<open>
  The loop of \<^verbatim>\<open>validateDimensions\<close> over the configured names; the set of label names taken so far is a
  list, and the error is its text.
\<close>

fun validate_loop :: "(string \<Rightarrow> string) \<Rightarrow> string list \<Rightarrow> string list \<Rightarrow> string option" where
  "validate_loop san labels [] = None"
| "validate_loop san labels (n # ns) =
     (if n \<in> set labels then Some (''duplicate dimension name '' @ n)
      else if san n = n then validate_loop san (n # labels) ns
      else if san n \<in> set (n # labels) then Some (''duplicate dimension name '' @ san n @ '' after sanitization'')
      else validate_loop san (san n # n # labels) ns)"

definition reserved_labels :: "(string \<Rightarrow> string) \<Rightarrow> string list" where
  "reserved_labels san =
     operationKey # concat (map (\<lambda>k. [k, san k]) [serviceNameKey, spanKindKey, statusCodeKey])"

definition validateDimensions :: "key_env \<Rightarrow> dim_cfg list \<Rightarrow> bool \<Rightarrow> string option" where
  "validateDimensions E dims skipSanitize =
     (let san = (\<lambda>s. sanitize E s skipSanitize)
      in validate_loop san (reserved_labels san) (map dc_name dims))"

section \<open>Dimensions\<close>

record dimension =
  dim_name :: string
  dim_value :: "pvalue option"

definition newDimensions :: "dim_cfg list \<Rightarrow> dimension list" where
  "newDimensions cfgDims =
     map (\<lambda>d. \<lparr>dim_name = dc_name d, dim_value = map_option ValueStr (dc_default d)\<rparr>) cfgDims"

definition getDimensionValue :: "dimension \<Rightarrow> attrs \<Rightarrow> attrs \<Rightarrow> pvalue option" where
  "getDimensionValue d spanAttr resourceAttr =
     (case attr_get spanAttr (dim_name d) of
        Some attr \<Rightarrow> Some attr
      | None \<Rightarrow>
          (let stable = (if dim_name d = tagHTTPStatusCode
                         then attr_get spanAttr tagHTTPStatusCodeStable else None)
           in case stable of
                Some attr \<Rightarrow> Some attr
              | None \<Rightarrow>
                  (case attr_get resourceAttr (dim_name d) of
                     Some attr \<Rightarrow> Some attr
                   | None \<Rightarrow> dim_value d)))"

text \<open>The value, and whether the resource has an attribute of that name too.\<close>

definition getDimensionValueWithResource :: "dimension \<Rightarrow> attrs \<Rightarrow> attrs \<Rightarrow> pvalue option \<times> bool" where
  "getDimensionValueWithResource d spanAttr resourceAttr =
     (case attr_get spanAttr (dim_name d) of
        Some attr \<Rightarrow> (Some attr, attr_get resourceAttr (dim_name d) \<noteq> None)
      | None \<Rightarrow>
          (let stable = (if dim_name d = tagHTTPStatusCode
                         then attr_get spanAttr tagHTTPStatusCodeStable else None)
           in case stable of
                Some attr \<Rightarrow> (Some attr, False)
              | None \<Rightarrow>
                  (case attr_get resourceAttr (dim_name d) of
                     Some attr \<Rightarrow> (Some attr, True)
                   | None \<Rightarrow> (dim_value d, False))))"

lemma dimension_values_agree:
  "fst (getDimensionValueWithResource d s r) = getDimensionValue d s r"
  by (cases "attr_get s (dim_name d)"; cases "dim_name d = tagHTTPStatusCode";
      cases "attr_get s tagHTTPStatusCodeStable"; cases "attr_get r (dim_name d)")
    (simp_all add: getDimensionValueWithResource_def getDimensionValue_def)

section \<open>Services and operations tracked\<close>

text \<open>
  \<^verbatim>\<open>serviceToOperations\<close>: the operations seen for each service, both in the order they were
  first seen, each once.
\<close>

type_synonym tracked = "(string \<times> string list) list"

definition operations_of :: "tracked \<Rightarrow> string \<Rightarrow> string list" where
  "operations_of sto service = (case map_of sto service of None \<Rightarrow> [] | Some ops \<Rightarrow> ops)"

record limits =
  maxNumberOfServicesToTrack :: int
  maxNumberOfOperationsToTrackPerService :: int

text \<open>The first lines of \<^verbatim>\<open>buildKey\<close> and \<^verbatim>\<open>buildDimensionKVs\<close>: the names after the limits.\<close>

definition overflow_names :: "limits \<Rightarrow> tracked \<Rightarrow> string \<Rightarrow> string \<Rightarrow> string \<times> string" where
  "overflow_names lim sto serviceName spanName =
     (let serviceName = (if maxNumberOfServicesToTrack lim < int (length sto)
                         then overflowServiceName else serviceName);
          spanName = (if maxNumberOfOperationsToTrackPerService lim < int (length (operations_of sto serviceName))
                      then overflowOperation else spanName)
      in (serviceName, spanName))"

definition track :: "tracked \<Rightarrow> string \<Rightarrow> string \<Rightarrow> tracked" where
  "track sto serviceName spanName =
     AList.update serviceName (let ops = operations_of sto serviceName
                               in if spanName \<in> set ops then ops else ops @ [spanName]) sto"

section \<open>Metric keys\<close>

definition concatDimensionValue :: "string \<Rightarrow> string \<Rightarrow> bool \<Rightarrow> string" where
  "concatDimensionValue dest value prefixSep = dest @ (if prefixSep then [sep] else []) @ value"

fun key_dims :: "key_env \<Rightarrow> dimension list \<Rightarrow> attrs \<Rightarrow> attrs \<Rightarrow> string \<Rightarrow> string" where
  "key_dims E [] spanAttr resourceAttr dest = dest"
| "key_dims E (d # ds) spanAttr resourceAttr dest =
     key_dims E ds spanAttr resourceAttr
       (case getDimensionValue d spanAttr resourceAttr of
          Some v \<Rightarrow> concatDimensionValue dest (asString E v) True
        | None \<Rightarrow> dest)"

definition buildKey ::
  "key_env \<Rightarrow> limits \<Rightarrow> string \<Rightarrow> string \<Rightarrow> span \<Rightarrow> dimension list \<Rightarrow> attrs \<Rightarrow> tracked \<Rightarrow> string \<times> tracked" where
  "buildKey E lim dest serviceName sp optionalDims resourceAttrs sto =
     (let (serviceName, spanName) = overflow_names lim sto serviceName (span_name sp);
          dest = concatDimensionValue dest serviceName False;
          dest = concatDimensionValue dest spanName True;
          dest = concatDimensionValue dest (SpanKindStr (span_kind sp)) True;
          dest = concatDimensionValue dest (StatusCodeStr (statusCode sp)) True;
          dest = key_dims E optionalDims (span_attrs sp) resourceAttrs dest
      in (dest, track sto serviceName spanName))"

fun custom_key_dims :: "key_env \<Rightarrow> dimension list \<Rightarrow> attrs \<Rightarrow> attrs \<Rightarrow> string \<Rightarrow> string" where
  "custom_key_dims E [] spanAttr resourceAttr dest = dest"
| "custom_key_dims E (d # ds) spanAttr resourceAttr dest =
     (let (v, foundInResource) = getDimensionValueWithResource d spanAttr resourceAttr;
          dest1 = (case v of Some v \<Rightarrow> concatDimensionValue dest (asString E v) True | None \<Rightarrow> dest);
          dest2 = (if foundInResource
                   then concatDimensionValue dest1 (resourcePrefix @ (case v of Some v \<Rightarrow> asString E v | None \<Rightarrow> [])) True
                   else dest1)
      in custom_key_dims E ds spanAttr resourceAttr dest2)"

definition buildCustomKey ::
  "key_env \<Rightarrow> string \<Rightarrow> string \<Rightarrow> span \<Rightarrow> dimension list \<Rightarrow> attrs \<Rightarrow> string list \<Rightarrow> string" where
  "buildCustomKey E dest serviceName sp optionalDims resourceAttrs extraVals =
     (let dest = concatDimensionValue dest serviceName False;
          dest = concatDimensionValue dest (StatusCodeStr (statusCode sp)) True;
          dest = foldl (\<lambda>d v. concatDimensionValue d v True) dest extraVals
      in custom_key_dims E optionalDims (span_attrs sp) resourceAttrs dest)"

section \<open>Time buckets\<close>

text \<open>
  Times are nanoseconds from the Unix epoch. \<^verbatim>\<open>Time.Truncate\<close> rounds down to a multiple of the
  interval counted from the first of January of the year 1, which lies 62135596800 seconds before the epoch;
  a non-positive interval leaves the time as it is. \<^verbatim>\<open>Time.Unix\<close> gives whole seconds.
\<close>

definition zero_time :: int where
  "zero_time = - 62135596800 * 1000000000"

definition time_truncate :: "int \<Rightarrow> int \<Rightarrow> int" where
  "time_truncate t d = (if d \<le> 0 then t else t - (t - zero_time) mod d)"

definition time_unix :: "int \<Rightarrow> int" where
  "time_unix t = t div 1000000000"

definition timestamp_from_time :: "int \<Rightarrow> u64" where
  "timestamp_from_time t = of_int t"

definition AddTimeToKeyBuf :: "sm_config \<Rightarrow> int \<Rightarrow> string \<Rightarrow> string" where
  "AddTimeToKeyBuf cfg t keyBuf =
     keyBuf @ format_int (time_unix (time_truncate t (GetTimeBucketInterval cfg))) @ [sep]"

definition time_prefix :: "sm_config \<Rightarrow> span \<Rightarrow> string" where
  "time_prefix cfg sp =
     (if GetAggregationTemporality cfg = Delta then AddTimeToKeyBuf cfg (as_time (startTimestamp sp)) [] else [])"

definition buildMetricKey ::
  "key_env \<Rightarrow> sm_config \<Rightarrow> limits \<Rightarrow> string \<Rightarrow> span \<Rightarrow> dimension list \<Rightarrow> attrs \<Rightarrow> tracked \<Rightarrow> string \<times> tracked" where
  "buildMetricKey E cfg lim serviceName sp dims resourceAttr sto =
     buildKey E lim (time_prefix cfg sp) serviceName sp dims resourceAttr sto"

definition buildCustomMetricKey ::
  "key_env \<Rightarrow> sm_config \<Rightarrow> string \<Rightarrow> span \<Rightarrow> dimension list \<Rightarrow> attrs \<Rightarrow> string list \<Rightarrow> string" where
  "buildCustomMetricKey E cfg serviceName sp dims resourceAttr extraVals =
     buildCustomKey E (time_prefix cfg sp) serviceName sp dims resourceAttr extraVals"

definition parseTimesFromKeyOrNow :: "string \<Rightarrow> int \<Rightarrow> u64 \<Rightarrow> u64 \<times> u64" where
  "parseTimesFromKeyOrNow k now processorStartTime =
     (let (prefix, rest) = (takeWhile (\<lambda>c. c \<noteq> sep) k, dropWhile (\<lambda>c. c \<noteq> sep) k)
      in if rest = [] \<or> prefix = [] then (processorStartTime, timestamp_from_time now)
         else case parse_int64 prefix of
                None \<Rightarrow> (processorStartTime, timestamp_from_time now)
              | Some u \<Rightarrow> (let bucketStart = timestamp_from_time (u * 1000000000) in (bucketStart, bucketStart)))"

section \<open>Stored dimensions\<close>

text \<open>
  \<^verbatim>\<open>attrsCardinality\<close>: the values seen per attribute, kept for the log.
\<close>

type_synonym cardinality = "(string \<times> string list) list"

definition count_values :: "key_env \<Rightarrow> attrs \<Rightarrow> cardinality \<Rightarrow> cardinality" where
  "count_values E dims card0 =
     foldl (\<lambda>c (k, v). AList.update k (List.insert (asString E v) (case map_of c k of None \<Rightarrow> [] | Some vs \<Rightarrow> vs)) c)
       card0 dims"

fun put_dims :: "dimension list \<Rightarrow> attrs \<Rightarrow> attrs \<Rightarrow> attrs \<Rightarrow> attrs" where
  "put_dims [] spanAttr resourceAttr dims = dims"
| "put_dims (d # ds) spanAttr resourceAttr dims =
     (let (v, foundInResource) = getDimensionValueWithResource d spanAttr resourceAttr;
          dims1 = (case v of Some v \<Rightarrow> attr_put (dim_name d) v dims | None \<Rightarrow> dims);
          dims2 = (case v of
                     Some v \<Rightarrow> if foundInResource then attr_put (resourcePrefix @ dim_name d) v dims1 else dims1
                   | None \<Rightarrow> dims1)
      in put_dims ds spanAttr resourceAttr dims2)"

definition buildDimensionKVs ::
  "key_env \<Rightarrow> limits \<Rightarrow> string \<Rightarrow> span \<Rightarrow> dimension list \<Rightarrow> attrs \<Rightarrow> tracked \<Rightarrow> cardinality \<Rightarrow>
   attrs \<times> cardinality" where
  "buildDimensionKVs E lim serviceName sp optionalDims resourceAttrs sto crd =
     (let (serviceName, spanName) = overflow_names lim sto serviceName (span_name sp);
          dims = attr_put serviceNameKey (ValueStr serviceName) [];
          dims = attr_put operationKey (ValueStr spanName) dims;
          dims = attr_put spanKindKey (ValueStr (SpanKindStr (span_kind sp))) dims;
          dims = attr_put statusCodeKey (ValueStr (StatusCodeStr (statusCode sp))) dims;
          dims = put_dims optionalDims (span_attrs sp) resourceAttrs dims
      in (dims, count_values E dims crd))"

definition buildCustomDimensionKVs ::
  "key_env \<Rightarrow> string \<Rightarrow> span \<Rightarrow> dimension list \<Rightarrow> attrs \<Rightarrow> attrs \<Rightarrow> cardinality \<Rightarrow> attrs \<times> cardinality" where
  "buildCustomDimensionKVs E serviceName sp optionalDims resourceAttrs extraDims crd =
     (let dims = attr_put serviceNameKey (ValueStr serviceName) [];
          dims = foldl (\<lambda>m (k, v). attr_put k v m) dims extraDims;
          dims = attr_put statusCodeKey (ValueStr (StatusCodeStr (statusCode sp))) dims;
          dims = put_dims optionalDims (span_attrs sp) resourceAttrs dims
      in (dims, count_values E dims crd))"

section \<open>Excluded spans\<close>

definition any_attr :: "key_env \<Rightarrow> string \<Rightarrow> string \<Rightarrow> attrs \<Rightarrow> bool" where
  "any_attr E key pattern m = list_ex (\<lambda>(k, v). key = k \<and> rxMatch E pattern (asString E v)) m"

fun shouldSkip :: "key_env \<Rightarrow> (string \<times> string) list \<Rightarrow> string \<Rightarrow> span \<Rightarrow> attrs \<Rightarrow> bool" where
  "shouldSkip E [] serviceName sp resourceAttrs = False"
| "shouldSkip E ((key, pattern) # rs) serviceName sp resourceAttrs =
     (if key = serviceNameKey \<and> rxMatch E pattern serviceName then True
      else if key = operationKey \<and> rxMatch E pattern (span_name sp) then True
      else if key = spanKindKey \<and> rxMatch E pattern (kindString E (span_kind sp)) then True
      else if key = statusCodeKey \<and> rxMatch E pattern (statusString E (statusCode sp)) then True
      else if any_attr E key pattern (span_attrs sp) \<or> any_attr E key pattern resourceAttrs then True
      else shouldSkip E rs serviceName sp resourceAttrs)"

section \<open>Remote addresses\<close>

definition with_port :: "attrs \<Rightarrow> pvalue \<Rightarrow> string \<Rightarrow> string" where
  "with_port m a port =
     (case attr_get m port of
        Some p \<Rightarrow> val_str a @ '':'' @ val_str p
      | None \<Rightarrow> val_str a)"

definition getPeerAddress :: "attrs \<Rightarrow> string option" where
  "getPeerAddress m =
     (case attr_get m ''net.peer.name'' of Some a \<Rightarrow> Some (with_port m a ''net.peer.port'')
      | None \<Rightarrow>
     (case attr_get m ''server.address'' of Some a \<Rightarrow> Some (with_port m a ''server.port'')
      | None \<Rightarrow>
     (case attr_get m ''net.peer.ip'' of Some a \<Rightarrow> Some (with_port m a ''net.peer.port'')
      | None \<Rightarrow>
     (case attr_get m ''net.sock.peer.addr'' of Some a \<Rightarrow> Some (with_port m a ''net.sock.peer.port'')
      | None \<Rightarrow>
     (case attr_get m ''network.peer.address'' of Some a \<Rightarrow> Some (with_port m a ''network.peer.port'')
      | None \<Rightarrow> None)))))"

definition rpc_address :: "attrs \<Rightarrow> string" where
  "rpc_address m =
     (case attr_get m ''rpc.service'' of Some s \<Rightarrow> val_str s | None \<Rightarrow> []) @
     (case attr_get m ''rpc.method'' of Some s \<Rightarrow> ''/'' @ val_str s | None \<Rightarrow> [])"

definition url_address :: "key_env \<Rightarrow> attrs \<Rightarrow> string option" where
  "url_address E m =
     (case (case attr_get m ''http.url'' of Some u \<Rightarrow> Some u | None \<Rightarrow> attr_get m ''url.full'') of
        Some u \<Rightarrow>
          (let urlValue = val_str u;
               urlValue = (if \<not> has_prefix ''http://'' urlValue \<and> \<not> has_prefix ''https://'' urlValue
                           then ''http://'' @ urlValue else urlValue)
           in urlHost E urlValue)
      | None \<Rightarrow> map_option val_str (attr_get m ''peer.service''))"

definition getRemoteAddress :: "key_env \<Rightarrow> span \<Rightarrow> string option" where
  "getRemoteAddress E sp =
     (let m = span_attrs sp
      in if attr_get m ''rpc.system'' \<noteq> None
         then (if rpc_address m \<noteq> [] then Some (rpc_address m) else getPeerAddress m)
         else case attr_get m ''http.host'' of
                Some host \<Rightarrow> Some (val_str host)
              | None \<Rightarrow>
                  (case getPeerAddress m of
                     Some peerAddress \<Rightarrow>
                       (case attr_get m ''net.transport'' of
                          Some transport \<Rightarrow>
                            if val_str transport = ''unix'' \<and> val_str transport = ''pipe'' then None
                            else Some peerAddress
                        | None \<Rightarrow> Some peerAddress)
                   | None \<Rightarrow> url_address E m))"

end
