(* ===== verification/LruCache.thy ===== *)
theory LruCache
  imports Prelude
begin

text \<open>
  The dimension cache of the span metrics processor
  (\<^verbatim>\<open>processor/signozspanmetricsprocessor/internal/cache/cache.go\<close>): an LRU cache together with
  the items it evicted, which stay readable until they are removed on purpose. The LRU cache
  itself (\<^verbatim>\<open>hashicorp/golang-lru/simplelru\<close>) is a library outside the repository: its
  operations are arguments, and \<open>lru_laws\<close> is what the processor relies on.
\<close>

section \<open>The LRU library\<close>

text \<open>
  The operations that call the eviction callback return the entries they pass to it.
\<close>

record ('l, 'k, 'v) lru_ops =
  lruGet :: "'l \<Rightarrow> 'k \<Rightarrow> 'v option \<times> 'l"
  lruAdd :: "'l \<Rightarrow> 'k \<Rightarrow> 'v \<Rightarrow> ('k \<times> 'v) list \<times> 'l"
  lruContains :: "'l \<Rightarrow> 'k \<Rightarrow> bool"
  lruLen :: "'l \<Rightarrow> nat"
  lruPurge :: "'l \<Rightarrow> ('k \<times> 'v) list \<times> 'l"
  lruNew :: "int \<Rightarrow> string + 'l"

text \<open>
  With \<open>ents l\<close> the entries of a cache and \<open>cap l\<close> its size: looking up does not change the
  entries; adding stores the entry and evicts only others, handing each one it drops to the
  callback with its value; the number of entries stays within the size; purging empties the cache.
\<close>

definition lru_laws :: "('l, 'k, 'v) lru_ops \<Rightarrow> ('l \<Rightarrow> 'k \<rightharpoonup> 'v) \<Rightarrow> ('l \<Rightarrow> nat) \<Rightarrow> bool" where
  "lru_laws L ents cap \<longleftrightarrow>
     (\<forall>n l. lruNew L n = Inr l \<longrightarrow> ents l = Map.empty \<and> cap l = nat n) \<and>
     (\<forall>n. 0 < n \<longrightarrow> (\<exists>l. lruNew L n = Inr l)) \<and>
     (\<forall>l k v l'. lruGet L l k = (v, l') \<longrightarrow> v = ents l k \<and> ents l' = ents l \<and> cap l' = cap l) \<and>
     (\<forall>l k v es l'. lruAdd L l k v = (es, l') \<longrightarrow>
        ents l' = ((ents l)(k \<mapsto> v)) |` (- fst ` set es) \<and> cap l' = cap l \<and>
        (\<forall>(x, w) \<in> set es. x \<noteq> k \<and> ents l x = Some w)) \<and>
     (\<forall>l k. lruContains L l k = (ents l k \<noteq> None)) \<and>
     (\<forall>l. finite (dom (ents l)) \<and> card (dom (ents l)) \<le> cap l \<and> lruLen L l = card (dom (ents l))) \<and>
     (\<forall>l es l'. lruPurge L l = (es, l') \<longrightarrow> ents l' = Map.empty \<and> cap l' = cap l)"

section \<open>The cache\<close>

record ('l, 'k, 'v) dim_cache =
  lru :: 'l
  evictedItems :: "'k \<rightharpoonup> 'v"

text \<open>The callback: \<^verbatim>\<open>evictedItems[key] = value\<close> for every entry the LRU cache drops.\<close>

definition onEvict :: "('k \<rightharpoonup> 'v) \<Rightarrow> ('k \<times> 'v) list \<Rightarrow> ('k \<rightharpoonup> 'v)" where
  "onEvict m es = foldl (\<lambda>m (k, v). m(k \<mapsto> v)) m es"

definition NewCache :: "('l, 'k, 'v) lru_ops \<Rightarrow> int \<Rightarrow> string + ('l, 'k, 'v) dim_cache" where
  "NewCache L sz =
     (case lruNew L sz of
        Inl err \<Rightarrow> Inl err
      | Inr l \<Rightarrow> Inr \<lparr>lru = l, evictedItems = Map.empty\<rparr>)"

definition RemoveEvictedItems :: "('l, 'k, 'v) dim_cache \<Rightarrow> ('l, 'k, 'v) dim_cache" where
  "RemoveEvictedItems c = c\<lparr>evictedItems := Map.empty\<rparr>"

definition cache_add ::
  "('l, 'k, 'v) lru_ops \<Rightarrow> ('l, 'k, 'v) dim_cache \<Rightarrow> 'k \<Rightarrow> 'v \<Rightarrow> bool \<times> ('l, 'k, 'v) dim_cache" where
  "cache_add L c key value =
     (let (es, l) = lruAdd L (lru c) key value
      in (es \<noteq> [], \<lparr>lru = l, evictedItems = onEvict (evictedItems c) es\<rparr>))"

definition cache_get ::
  "('l, 'k, 'v) lru_ops \<Rightarrow> ('l, 'k, 'v) dim_cache \<Rightarrow> 'k \<Rightarrow> 'v option \<times> ('l, 'k, 'v) dim_cache" where
  "cache_get L c key =
     (let (hit, l) = lruGet L (lru c) key; c1 = c\<lparr>lru := l\<rparr>
      in case hit of
           Some v \<Rightarrow> (Some v, c1)
         | None \<Rightarrow>
             (case evictedItems c1 key of
                None \<Rightarrow> (None, c1)
              | Some v \<Rightarrow>
                  (let c2 = c1\<lparr>evictedItems := (evictedItems c1)(key := None)\<rparr>
                   in (Some v, snd (cache_add L c2 key v)))))"

definition cache_contains :: "('l, 'k, 'v) lru_ops \<Rightarrow> ('l, 'k, 'v) dim_cache \<Rightarrow> 'k \<Rightarrow> bool" where
  "cache_contains L c key = lruContains L (lru c) key"

definition cache_len :: "('l, 'k, 'v) lru_ops \<Rightarrow> ('l, 'k, 'v) dim_cache \<Rightarrow> nat" where
  "cache_len L c = lruLen L (lru c)"

definition cache_purge :: "('l, 'k, 'v) lru_ops \<Rightarrow> ('l, 'k, 'v) dim_cache \<Rightarrow> ('l, 'k, 'v) dim_cache" where
  "cache_purge L c =
     (let (es, l) = lruPurge L (lru c)
      in RemoveEvictedItems \<lparr>lru = l, evictedItems = onEvict (evictedItems c) es\<rparr>)"

section \<open>Contents\<close>

text \<open>What can be read from the cache: the LRU entries, and below them the evicted items.\<close>

definition contents :: "('l \<Rightarrow> 'k \<rightharpoonup> 'v) \<Rightarrow> ('l, 'k, 'v) dim_cache \<Rightarrow> ('k \<rightharpoonup> 'v)" where
  "contents ents c = evictedItems c ++ ents (lru c)"

lemma onEvict_map_of: "onEvict m es = m ++ map_of (rev es)"
  by (induction es arbitrary: m) (auto simp: onEvict_def map_add_assoc [symmetric])

lemma map_of_rev_evicted:
  assumes "\<forall>(x, w) \<in> set es. m x = Some w"
  shows "map_of (rev es) = m |` (fst ` set es)"
proof
  fix x
  show "map_of (rev es) x = (m |` (fst ` set es)) x"
  proof (cases "map_of (rev es) x")
    case None
    then show ?thesis by (simp add: map_of_eq_None_iff)
  next
    case (Some w)
    then have "(x, w) \<in> set es" by (auto dest: map_of_SomeD)
    then have "m x = Some w" and "x \<in> fst ` set es" using assms by force+
    then show ?thesis using Some by simp
  qed
qed

lemma lru_AddD:
  "lru_laws L ents cap \<Longrightarrow> lruAdd L l k v = (es, l') \<Longrightarrow>
   ents l' = ((ents l)(k \<mapsto> v)) |` (- fst ` set es) \<and> cap l' = cap l \<and>
   (\<forall>(x, w) \<in> set es. x \<noteq> k \<and> ents l x = Some w)"
  unfolding lru_laws_def by blast

lemma lru_GetD:
  "lru_laws L ents cap \<Longrightarrow> lruGet L l k = (v, l') \<Longrightarrow> v = ents l k \<and> ents l' = ents l \<and> cap l' = cap l"
  unfolding lru_laws_def by blast

lemma lru_PurgeD: "lru_laws L ents cap \<Longrightarrow> lruPurge L l = (es, l') \<Longrightarrow> ents l' = Map.empty \<and> cap l' = cap l"
  unfolding lru_laws_def by blast

lemma contents_add:
  assumes "lru_laws L ents cap"
  shows "contents ents (snd (cache_add L c k v)) = (contents ents c)(k \<mapsto> v)"
proof -
  obtain es l where e: "lruAdd L (lru c) k v = (es, l)" by fastforce
  note a = lru_AddD [OF assms e]
  have "\<forall>(x, w) \<in> set es. ((ents (lru c))(k \<mapsto> v)) x = Some w" using a by fastforce
  note m = map_of_rev_evicted [OF this]
  show ?thesis
    by (rule ext) (use a m in \<open>auto simp: contents_def cache_add_def e onEvict_map_of map_add_def
        restrict_map_def Let_def split: option.splits\<close>)
qed

lemma contents_get:
  assumes "lru_laws L ents cap"
  shows "fst (cache_get L c k) = contents ents c k" and "contents ents (snd (cache_get L c k)) = contents ents c"
proof -
  obtain hit l where e: "lruGet L (lru c) k = (hit, l)" by fastforce
  note g = lru_GetD [OF assms e]
  show "fst (cache_get L c k) = contents ents c k"
    using g by (simp add: cache_get_def e contents_def map_add_def Let_def split: option.splits)
  show "contents ents (snd (cache_get L c k)) = contents ents c"
  proof (cases "hit = None \<and> evictedItems c k \<noteq> None")
    case False
    then show ?thesis
      using g by (auto simp: cache_get_def e contents_def Let_def split: option.splits)
  next
    case True
    then obtain v where v: "evictedItems c k = Some v" by blast
    let ?c2 = "c\<lparr>lru := l, evictedItems := (evictedItems c)(k := None)\<rparr>"
    have "snd (cache_get L c k) = snd (cache_add L ?c2 k v)"
      using True v by (simp add: cache_get_def e Let_def)
    then have "contents ents (snd (cache_get L c k)) = (contents ents ?c2)(k \<mapsto> v)"
      using contents_add [OF assms] by simp
    also have "\<dots> = contents ents c"
      using g True v by (auto simp: contents_def map_add_def fun_eq_iff split: option.splits)
    finally show ?thesis .
  qed
qed

lemma contents_remove_evicted: "contents ents (RemoveEvictedItems c) = ents (lru c)"
  by (simp add: contents_def RemoveEvictedItems_def)

lemma contents_purge: "lru_laws L ents cap \<Longrightarrow> contents ents (cache_purge L c) = Map.empty"
  using lru_PurgeD [of L ents cap "lru c"]
  by (cases "lruPurge L (lru c)") (simp add: cache_purge_def contents_remove_evicted)

lemma cache_contains_iff: "lru_laws L ents cap \<Longrightarrow> cache_contains L c k \<longleftrightarrow> k \<in> dom (ents (lru c))"
  by (auto simp: cache_contains_def lru_laws_def)

lemma cache_cap:
  assumes "lru_laws L ents cap"
  shows "cap (lru (snd (cache_add L c k v))) = cap (lru c)"
    and "cap (lru (snd (cache_get L c k))) = cap (lru c)"
    and "cap (lru (cache_purge L c)) = cap (lru c)"
proof -
  show add: "cap (lru (snd (cache_add L c k v))) = cap (lru c)" for c k v
    using lru_AddD [OF assms] by (cases "lruAdd L (lru c) k v") (simp add: cache_add_def)
  show "cap (lru (snd (cache_get L c k))) = cap (lru c)"
    using lru_GetD [OF assms] add
    by (cases "lruGet L (lru c) k") (auto simp: cache_get_def Let_def split: option.splits)
  show "cap (lru (cache_purge L c)) = cap (lru c)"
    using lru_PurgeD [OF assms]
    by (cases "lruPurge L (lru c)") (simp add: cache_purge_def RemoveEvictedItems_def)
qed

section \<open>The interface the processor uses\<close>

text \<open>
  The processor needs a store of dimensions that loses nothing between two flushes: a lookup
  returns what was stored and keeps everything readable, and so does storing.
\<close>

locale dimension_store =
  fixes get :: "'c \<Rightarrow> 'k \<Rightarrow> 'v option \<times> 'c"
    and add :: "'c \<Rightarrow> 'k \<Rightarrow> 'v \<Rightarrow> bool \<times> 'c"
    and cont :: "'c \<Rightarrow> 'k \<rightharpoonup> 'v"
    and valid :: bool
  assumes get_fst: "valid \<Longrightarrow> fst (get c k) = cont c k"
    and get_cont: "valid \<Longrightarrow> cont (snd (get c k)) = cont c"
    and add_cont: "valid \<Longrightarrow> cont (snd (add c k v)) = (cont c)(k \<mapsto> v)"
begin

text \<open>Looking a key up and storing a value when it is missing, what every family does.\<close>

lemma lookup_or_store:
  assumes valid
  shows "cont (if fst (get c k) = None then snd (add (snd (get c k)) k v) else snd (get c k)) =
           (if cont c k = None then (cont c)(k \<mapsto> v) else cont c)"
  using assms by (simp add: get_fst get_cont add_cont)

text \<open>Looking up a list of keys answers each as the first lookup would have.\<close>

lemma lookups_stable:
  assumes valid
  shows "cont (foldl (\<lambda>c k. snd (get c k)) c ks) = cont c"
  by (induction ks arbitrary: c) (simp_all add: get_cont [OF assms])

end

interpretation ds: dimension_store "cache_get L" "cache_add L" "contents ents" "lru_laws L ents cap"
  for L ents cap
  by unfold_locales (auto simp: contents_get contents_add)

end
