(* ===== verification/SpanMetrics.thy ===== *)
theory SpanMetrics
  imports SpanMetricsKeys LruCache
begin

text \<open>
  The span metrics processor (\<^verbatim>\<open>processor/signozspanmetricsprocessor/processor.go\<close>): five
  families of histograms with a dimension cache each, the aggregation of spans into them, and
  the export that builds the metrics, drops what the caches no longer hold and resets delta
  metrics. Floating-point numbers are an arbitrary ordered type \<open>'f\<close> with an addition that needs
  no law, exponential histograms (\<^verbatim>\<open>go-expohisto\<close>) an arbitrary type \<open>'h\<close>. Go ranges over a map in
  an unspecified order; the maps here are association lists and are walked in their order.
\<close>

section \<open>Histograms\<close>

record 'f exemplar_data =
  ed_traceID :: trace_id
  ed_spanID :: "u8 list"
  ed_value :: 'f

record 'f histogram_data =
  h_count :: u64
  h_sum :: 'f
  bucketCounts :: "u64 list"
  exemplarsData :: "'f exemplar_data list"

type_synonym 'f histogram_map = "(string \<times> 'f histogram_data) list"

definition new_histogram :: "'f::zero list \<Rightarrow> 'f histogram_data" where
  "new_histogram bounds =
     \<lparr>h_count = 0, h_sum = 0, bucketCounts = replicate (length bounds + 1) 0, exemplarsData = []\<rparr>"

text \<open>The body the four \<^verbatim>\<open>update...Histogram\<close> share; an index out of range panics.\<close>

definition observe ::
  "'f::{linorder,plus} list \<Rightarrow> 'f \<Rightarrow> trace_id \<Rightarrow> u8 list \<Rightarrow> 'f histogram_data \<Rightarrow> 'f histogram_data outcome" where
  "observe bounds latency tid sid histo =
     (let index = search_floats bounds latency
      in if index < length (bucketCounts histo)
         then Done \<lparr>h_count = h_count histo + 1, h_sum = h_sum histo + latency,
                    bucketCounts = (bucketCounts histo)[index := bucketCounts histo ! index + 1],
                    exemplarsData = exemplarsData histo @ [\<lparr>ed_traceID = tid, ed_spanID = sid, ed_value = latency\<rparr>]\<rparr>
         else Panic)"

definition update_family ::
  "'f::{linorder,plus,zero} list \<Rightarrow> string \<Rightarrow> 'f \<Rightarrow> trace_id \<Rightarrow> u8 list \<Rightarrow> 'f histogram_map \<Rightarrow>
   'f histogram_map outcome" where
  "update_family bounds key latency tid sid hs =
     bind_outcome
       (observe bounds latency tid sid (case map_of hs key of Some h \<Rightarrow> h | None \<Rightarrow> new_histogram bounds))
       (\<lambda>h. Done (AList.update key h hs))"

section \<open>Exponential histograms\<close>

record ('f, 'h) exp_ops =
  expInit :: 'h
  expUpdate :: "'h \<Rightarrow> 'f \<Rightarrow> 'h"
  expCount :: "'h \<Rightarrow> u64"
  expSum :: "'h \<Rightarrow> 'f"
  expMin :: "'h \<Rightarrow> 'f"
  expMax :: "'h \<Rightarrow> 'f"
  expZeroCount :: "'h \<Rightarrow> u64"
  expScale :: "'h \<Rightarrow> u32"
  expPosOffset :: "'h \<Rightarrow> u32"
  expPosLen :: "'h \<Rightarrow> nat"
  expPosAt :: "'h \<Rightarrow> nat \<Rightarrow> u64"
  expNegOffset :: "'h \<Rightarrow> u32"
  expNegLen :: "'h \<Rightarrow> nat"
  expNegAt :: "'h \<Rightarrow> nat \<Rightarrow> u64"

record 'f exp_point =
  xp_start :: u64
  xp_time :: u64
  xp_count :: u64
  xp_sum :: 'f
  xp_min :: "'f option"
  xp_max :: "'f option"
  xp_zeroCount :: u64
  xp_scale :: u32
  xp_positive :: "u32 \<times> u64 list"
  xp_negative :: "u32 \<times> u64 list"
  xp_attrs :: attrs

definition expoHistToExponentialDataPoint ::
  "('f, 'h) exp_ops \<Rightarrow> 'h \<Rightarrow> u64 \<times> u64 \<Rightarrow> attrs \<Rightarrow> 'f exp_point" where
  "expoHistToExponentialDataPoint X agg tms dims =
     \<lparr>xp_start = fst tms, xp_time = snd tms, xp_count = expCount X agg, xp_sum = expSum X agg,
      xp_min = (if expCount X agg \<noteq> 0 then Some (expMin X agg) else None),
      xp_max = (if expCount X agg \<noteq> 0 then Some (expMax X agg) else None),
      xp_zeroCount = expZeroCount X agg, xp_scale = expScale X agg,
      xp_positive = (expPosOffset X agg, map (expPosAt X agg) [0..<expPosLen X agg]),
      xp_negative = (expNegOffset X agg, map (expNegAt X agg) [0..<expNegLen X agg]),
      xp_attrs = dims\<rparr>"

section \<open>Metrics\<close>

datatype 'f exemplar_point = EmptyExemplar | Exemplar 'f u64 trace_id "u8 list"

datatype 'f number_value = IntValue i64 | DoubleValue 'f

record 'f number_point =
  np_start :: u64
  np_time :: u64
  np_value :: "'f number_value"
  np_attrs :: attrs

record 'f hist_point =
  hp_start :: u64
  hp_time :: u64
  hp_bounds :: "'f list"
  hp_bucketCounts :: "u64 list"
  hp_count :: u64
  hp_sum :: 'f
  hp_exemplars :: "'f exemplar_point list"
  hp_attrs :: attrs

datatype 'f metric_data =
    SumData temporality "'f number_point list"
  | HistogramData temporality "'f hist_point list"
  | ExpHistogramData temporality "'f exp_point list"

record 'f metric =
  m_name :: string
  m_unit :: string
  m_data :: "'f metric_data"

text \<open>An exemplar without a trace id is appended empty.\<close>

definition setExemplars :: "'f exemplar_data list \<Rightarrow> u64 \<Rightarrow> 'f exemplar_point list" where
  "setExemplars eds timestamp =
     map (\<lambda>ed. if list_all (\<lambda>b. b = 0) (ed_traceID ed) then EmptyExemplar
               else Exemplar (ed_value ed) timestamp (ed_traceID ed) (ed_spanID ed)) eds"

section \<open>The processor\<close>

type_synonym 'l dims_cache = "('l, string, attrs) dim_cache"

record ('l, 'f, 'h) span_metrics =
  instanceID :: string
  config :: sm_config
  dimensions :: "dimension list"
  expDimensions :: "dimension list"
  callDimensions :: "dimension list"
  dbCallDimensions :: "dimension list"
  externalCallDimensions :: "dimension list"
  processorStart :: u64
  histograms :: "'f histogram_map"
  latencyBounds :: "'f list"
  expHistograms :: "(string \<times> 'h) list"
  callHistograms :: "'f histogram_map"
  dbCallHistograms :: "'f histogram_map"
  externalCallHistograms :: "'f histogram_map"
  metricKeyToDimensions :: "'l dims_cache"
  expHistogramKeyToDimensions :: "'l dims_cache"
  callMetricKeyToDimensions :: "'l dims_cache"
  dbCallMetricKeyToDimensions :: "'l dims_cache"
  externalCallMetricKeyToDimensions :: "'l dims_cache"
  attrsCardinality :: cardinality
  excludePatternRegex :: "(string \<times> string) list"
  serviceToOperations :: tracked
  sm_limits :: limits
  exported :: "'f metric list option list"
  forwarded :: "traces list"

text \<open>
  What the processor calls: the libraries of \<^const>\<open>asString\<close> and the LRU cache, the division of a
  nanosecond count into milliseconds, the exponential histogram, and the clock, read once for
  every span (\<open>spanClock\<close>) and once for every data point (\<open>pointClock\<close>, by metric and key).
\<close>

record ('l, 'f, 'h) sm_env =
  keyEnv :: key_env
  toMillis :: "u64 \<Rightarrow> 'f"
  boundMillis :: "int \<Rightarrow> 'f"
  defaultBounds :: "'f list"
  spanClock :: "span \<Rightarrow> int"
  pointClock :: "string \<Rightarrow> string \<Rightarrow> int"
  expOps :: "('f, 'h) exp_ops"
  lruOps :: "('l, string, attrs) lru_ops"

definition mapDurationsToMillis :: "('l, 'f, 'h) sm_env \<Rightarrow> int list \<Rightarrow> 'f list" where
  "mapDurationsToMillis env vs = map (boundMillis env) vs"

definition newProcessor ::
  "('l, 'f, 'h) sm_env \<Rightarrow> int \<Rightarrow> string \<Rightarrow> sm_config \<Rightarrow> (string + ('l, 'f, 'h) span_metrics) outcome" where
  "newProcessor env now instance_id pConfig =
     (let pConfig = (if timeBucketInterval pConfig = 0
                     then pConfig\<lparr>timeBucketInterval := 60 * 1000000000\<rparr> else pConfig);
          bounds = (case latencyHistogramBuckets pConfig of
                      None \<Rightarrow> defaultBounds env
                    | Some ds \<Rightarrow> mapDurationsToMillis env ds);
          dims = cfgDimensions pConfig;
          named = (\<lambda>n. \<lparr>dc_name = n, dc_default = None\<rparr>);
          callDims = named tagHTTPStatusCode # dims;
          dbCallDims = named ''db.system'' # named ''db.name'' # dims;
          externalCallDims = named tagHTTPStatusCode # dims
      in case validateDimensions (keyEnv env) dims (skipSanitizeLabel pConfig) of
           Some err \<Rightarrow> Done (Inl err)
         | None \<Rightarrow>
             if dimensionsCacheSize pConfig \<le> 0 then Done (Inl (''invalid cache size: '' @ format_int (dimensionsCacheSize pConfig) @
               '', the maximum number of the items in the cache should be positive''))
             else (case NewCache (lruOps env) (dimensionsCacheSize pConfig) of
                     Inl err \<Rightarrow> Done (Inl err)
                   | Inr c \<Rightarrow>
                       if \<not> list_all (\<lambda>p. rxValid (keyEnv env) (ep_pattern p)) (excludePatterns pConfig)
                       then Panic
                       else Done (Inr
                         \<lparr>instanceID = instance_id, config = pConfig,
                          dimensions = newDimensions dims, expDimensions = newDimensions dims,
                          callDimensions = newDimensions callDims, dbCallDimensions = newDimensions dbCallDims,
                          externalCallDimensions = newDimensions externalCallDims,
                          processorStart = timestamp_from_time now,
                          histograms = [], latencyBounds = bounds, expHistograms = [], callHistograms = [],
                          dbCallHistograms = [], externalCallHistograms = [],
                          metricKeyToDimensions = c, expHistogramKeyToDimensions = c,
                          callMetricKeyToDimensions = c, dbCallMetricKeyToDimensions = c,
                          externalCallMetricKeyToDimensions = c, attrsCardinality = [],
                          excludePatternRegex =
                            foldl (\<lambda>m p. AList.update (ep_name p) (ep_pattern p) m) [] (excludePatterns pConfig),
                          serviceToOperations = [],
                          sm_limits = \<lparr>maxNumberOfServicesToTrack = maxServicesToTrack pConfig,
                             maxNumberOfOperationsToTrackPerService = maxOperationsToTrackPerService pConfig\<rparr>,
                          exported = [], forwarded = []\<rparr>)))"

section \<open>Updates of the families\<close>

definition updateHistogram ::
  "string \<Rightarrow> 'f::{linorder,plus,zero} \<Rightarrow> trace_id \<Rightarrow> u8 list \<Rightarrow> ('l, 'f, 'h) span_metrics \<Rightarrow>
   ('l, 'f, 'h) span_metrics outcome" where
  "updateHistogram key latency tid sid p =
     bind_outcome (update_family (latencyBounds p) key latency tid sid (histograms p))
       (\<lambda>hs. Done (p\<lparr>histograms := hs\<rparr>))"

definition updateCallHistogram ::
  "string \<Rightarrow> 'f::{linorder,plus,zero} \<Rightarrow> trace_id \<Rightarrow> u8 list \<Rightarrow> ('l, 'f, 'h) span_metrics \<Rightarrow>
   ('l, 'f, 'h) span_metrics outcome" where
  "updateCallHistogram key latency tid sid p =
     bind_outcome (update_family (latencyBounds p) key latency tid sid (callHistograms p))
       (\<lambda>hs. Done (p\<lparr>callHistograms := hs\<rparr>))"

definition updateDBHistogram ::
  "string \<Rightarrow> 'f::{linorder,plus,zero} \<Rightarrow> trace_id \<Rightarrow> u8 list \<Rightarrow> ('l, 'f, 'h) span_metrics \<Rightarrow>
   ('l, 'f, 'h) span_metrics outcome" where
  "updateDBHistogram key latency tid sid p =
     bind_outcome (update_family (latencyBounds p) key latency tid sid (dbCallHistograms p))
       (\<lambda>hs. Done (p\<lparr>dbCallHistograms := hs\<rparr>))"

definition updateExternalHistogram ::
  "string \<Rightarrow> 'f::{linorder,plus,zero} \<Rightarrow> trace_id \<Rightarrow> u8 list \<Rightarrow> ('l, 'f, 'h) span_metrics \<Rightarrow>
   ('l, 'f, 'h) span_metrics outcome" where
  "updateExternalHistogram key latency tid sid p =
     bind_outcome (update_family (latencyBounds p) key latency tid sid (externalCallHistograms p))
       (\<lambda>hs. Done (p\<lparr>externalCallHistograms := hs\<rparr>))"

definition updateExpHistogram ::
  "('l, 'f, 'h) sm_env \<Rightarrow> string \<Rightarrow> 'f \<Rightarrow> ('l, 'f, 'h) span_metrics \<Rightarrow> ('l, 'f, 'h) span_metrics" where
  "updateExpHistogram env key latency p =
     (let X = expOps env;
          h = (case map_of (expHistograms p) key of Some h \<Rightarrow> h | None \<Rightarrow> expInit X)
      in p\<lparr>expHistograms := AList.update key (expUpdate X h latency) (expHistograms p)\<rparr>)"

section \<open>Dimension caches\<close>

text \<open>
  The five \<^verbatim>\<open>cache\<close> methods look the key up, which refreshes it, and store the dimensions on a miss.
  Building dimensions also counts attribute values, so it returns them with the new count.
\<close>

definition cache_dims ::
  "('l, string, attrs) lru_ops \<Rightarrow> string \<Rightarrow> (cardinality \<Rightarrow> attrs \<times> cardinality) \<Rightarrow> 'l dims_cache \<Rightarrow> cardinality \<Rightarrow>
   'l dims_cache \<times> cardinality" where
  "cache_dims L k build c crd =
     (let (v, c1) = cache_get L c k
      in if v \<noteq> None then (c1, crd)
         else (let (dims, crd1) = build crd in (snd (cache_add L c1 k dims), crd1)))"

definition cache_latency ::
  "('l, 'f, 'h) sm_env \<Rightarrow> string \<Rightarrow> span \<Rightarrow> string \<Rightarrow> attrs \<Rightarrow> ('l, 'f, 'h) span_metrics \<Rightarrow>
   ('l, 'f, 'h) span_metrics" where
  "cache_latency env serviceName sp k resourceAttrs p =
     (let (c, crd) = cache_dims (lruOps env) k
            (buildDimensionKVs (keyEnv env) (sm_limits p) serviceName sp (dimensions p) resourceAttrs
               (serviceToOperations p))
            (metricKeyToDimensions p) (attrsCardinality p)
      in p\<lparr>metricKeyToDimensions := c, attrsCardinality := crd\<rparr>)"

definition expHistogramCache ::
  "('l, 'f, 'h) sm_env \<Rightarrow> string \<Rightarrow> span \<Rightarrow> string \<Rightarrow> attrs \<Rightarrow> ('l, 'f, 'h) span_metrics \<Rightarrow>
   ('l, 'f, 'h) span_metrics" where
  "expHistogramCache env serviceName sp k resourceAttrs p =
     (let (c, crd) = cache_dims (lruOps env) k
            (buildDimensionKVs (keyEnv env) (sm_limits p) serviceName sp (expDimensions p) resourceAttrs
               (serviceToOperations p))
            (expHistogramKeyToDimensions p) (attrsCardinality p)
      in p\<lparr>expHistogramKeyToDimensions := c, attrsCardinality := crd\<rparr>)"

definition callCache ::
  "('l, 'f, 'h) sm_env \<Rightarrow> string \<Rightarrow> span \<Rightarrow> string \<Rightarrow> attrs \<Rightarrow> ('l, 'f, 'h) span_metrics \<Rightarrow>
   ('l, 'f, 'h) span_metrics" where
  "callCache env serviceName sp k resourceAttrs p =
     (let (c, crd) = cache_dims (lruOps env) k
            (buildDimensionKVs (keyEnv env) (sm_limits p) serviceName sp (callDimensions p) resourceAttrs
               (serviceToOperations p))
            (callMetricKeyToDimensions p) (attrsCardinality p)
      in p\<lparr>callMetricKeyToDimensions := c, attrsCardinality := crd\<rparr>)"

definition dbCallCache ::
  "('l, 'f, 'h) sm_env \<Rightarrow> string \<Rightarrow> span \<Rightarrow> string \<Rightarrow> attrs \<Rightarrow> ('l, 'f, 'h) span_metrics \<Rightarrow>
   ('l, 'f, 'h) span_metrics" where
  "dbCallCache env serviceName sp k resourceAttrs p =
     (let (c, crd) = cache_dims (lruOps env) k
            (buildCustomDimensionKVs (keyEnv env) serviceName sp (dbCallDimensions p) resourceAttrs [])
            (dbCallMetricKeyToDimensions p) (attrsCardinality p)
      in p\<lparr>dbCallMetricKeyToDimensions := c, attrsCardinality := crd\<rparr>)"

definition externalCallCache ::
  "('l, 'f, 'h) sm_env \<Rightarrow> string \<Rightarrow> span \<Rightarrow> string \<Rightarrow> attrs \<Rightarrow> attrs \<Rightarrow> ('l, 'f, 'h) span_metrics \<Rightarrow>
   ('l, 'f, 'h) span_metrics" where
  "externalCallCache env serviceName sp k resourceAttrs extraDims p =
     (let (c, crd) = cache_dims (lruOps env) k
            (buildCustomDimensionKVs (keyEnv env) serviceName sp (externalCallDimensions p) resourceAttrs extraDims)
            (externalCallMetricKeyToDimensions p) (attrsCardinality p)
      in p\<lparr>externalCallMetricKeyToDimensions := c, attrsCardinality := crd\<rparr>)"

section \<open>Aggregation of spans\<close>

text \<open>The key of a family, which tracks the service and operation on the way.\<close>

definition take_key ::
  "('l, 'f, 'h) sm_env \<Rightarrow> string \<Rightarrow> span \<Rightarrow> dimension list \<Rightarrow> attrs \<Rightarrow> ('l, 'f, 'h) span_metrics \<Rightarrow>
   string \<times> ('l, 'f, 'h) span_metrics" where
  "take_key env serviceName sp dims resourceAttr p =
     (let (k, sto) = buildMetricKey (keyEnv env) (config p) (sm_limits p) serviceName sp dims resourceAttr
            (serviceToOperations p)
      in (k, p\<lparr>serviceToOperations := sto\<rparr>))"

definition latencyInMilliseconds :: "('l, 'f::zero, 'h) sm_env \<Rightarrow> span \<Rightarrow> 'f" where
  "latencyInMilliseconds env sp =
     (if startTimestamp sp < endTimestamp sp then toMillis env (endTimestamp sp - startTimestamp sp) else 0)"

definition is_stale :: "('l, 'f, 'h) sm_env \<Rightarrow> sm_config \<Rightarrow> span \<Rightarrow> bool" where
  "is_stale env cfg sp =
     (let spanSkipWindow = GetSkipSpansOlderThan cfg
      in 0 < spanSkipWindow \<and> as_time (startTimestamp sp) < spanClock env sp - spanSkipWindow)"

definition aggregate_latency ::
  "('l, 'f::{linorder,plus,zero}, 'h) sm_env \<Rightarrow> string \<Rightarrow> span \<Rightarrow> attrs \<Rightarrow> ('l, 'f, 'h) span_metrics \<Rightarrow>
   ('l, 'f, 'h) span_metrics outcome" where
  "aggregate_latency env serviceName sp resourceAttr p =
     (let (key, p1) = take_key env serviceName sp (dimensions p) resourceAttr p;
          p2 = cache_latency env serviceName sp key resourceAttr p1
      in updateHistogram key (latencyInMilliseconds env sp) (traceID sp) (spanID sp) p2)"

definition aggregate_exp ::
  "('l, 'f::{linorder,plus,zero}, 'h) sm_env \<Rightarrow> string \<Rightarrow> span \<Rightarrow> attrs \<Rightarrow> ('l, 'f, 'h) span_metrics \<Rightarrow>
   ('l, 'f, 'h) span_metrics" where
  "aggregate_exp env serviceName sp resourceAttr p =
     (if enableExpHistogram (config p)
      then (let (key, p1) = take_key env serviceName sp (expDimensions p) resourceAttr p;
                p2 = expHistogramCache env serviceName sp key resourceAttr p1
            in updateExpHistogram env key (latencyInMilliseconds env sp) p2)
      else p)"

definition aggregate_call ::
  "('l, 'f::{linorder,plus,zero}, 'h) sm_env \<Rightarrow> string \<Rightarrow> span \<Rightarrow> attrs \<Rightarrow> ('l, 'f, 'h) span_metrics \<Rightarrow>
   ('l, 'f, 'h) span_metrics outcome" where
  "aggregate_call env serviceName sp resourceAttr p =
     (let (key, p1) = take_key env serviceName sp (callDimensions p) resourceAttr p;
          p2 = callCache env serviceName sp key resourceAttr p1
      in updateCallHistogram key (latencyInMilliseconds env sp) (traceID sp) (spanID sp) p2)"

definition aggregate_external ::
  "('l, 'f::{linorder,plus,zero}, 'h) sm_env \<Rightarrow> string \<Rightarrow> span \<Rightarrow> attrs \<Rightarrow> ('l, 'f, 'h) span_metrics \<Rightarrow>
   ('l, 'f, 'h) span_metrics outcome" where
  "aggregate_external env serviceName sp resourceAttr p =
     (case getRemoteAddress (keyEnv env) sp of
        Some remoteAddr \<Rightarrow>
          if span_kind sp = SpanKindClient
          then (let key = buildCustomMetricKey (keyEnv env) (config p) serviceName sp (externalCallDimensions p)
                            resourceAttr [remoteAddr];
                    p1 = externalCallCache env serviceName sp key resourceAttr [(''address'', ValueStr remoteAddr)] p
                in updateExternalHistogram key (latencyInMilliseconds env sp) (traceID sp) (spanID sp) p1)
          else Done p
      | None \<Rightarrow> Done p)"

definition aggregate_db ::
  "('l, 'f::{linorder,plus,zero}, 'h) sm_env \<Rightarrow> string \<Rightarrow> span \<Rightarrow> attrs \<Rightarrow> ('l, 'f, 'h) span_metrics \<Rightarrow>
   ('l, 'f, 'h) span_metrics outcome" where
  "aggregate_db env serviceName sp resourceAttr p =
     (if span_kind sp \<noteq> SpanKindServer \<and> attr_get (span_attrs sp) ''db.system'' \<noteq> None
      then (let key = buildCustomMetricKey (keyEnv env) (config p) serviceName sp (dbCallDimensions p) resourceAttr [];
                p1 = dbCallCache env serviceName sp key resourceAttr p
            in updateDBHistogram key (latencyInMilliseconds env sp) (traceID sp) (spanID sp) p1)
      else Done p)"

definition aggregateMetricsForSpan ::
  "('l, 'f::{linorder,plus,zero}, 'h) sm_env \<Rightarrow> string \<Rightarrow> attrs \<Rightarrow> span \<Rightarrow> ('l, 'f, 'h) span_metrics \<Rightarrow>
   ('l, 'f, 'h) span_metrics outcome" where
  "aggregateMetricsForSpan env serviceName resourceAttr sp p =
     (if is_stale env (config p) sp then Done p
      else if shouldSkip (keyEnv env) (excludePatternRegex p) serviceName sp resourceAttr then Done p
      else bind_outcome (aggregate_latency env serviceName sp resourceAttr p) (\<lambda>p.
           bind_outcome (aggregate_call env serviceName sp resourceAttr
                           (aggregate_exp env serviceName sp resourceAttr p)) (\<lambda>p.
           bind_outcome (aggregate_external env serviceName sp resourceAttr p) (\<lambda>p.
             aggregate_db env serviceName sp resourceAttr p))))"

fun aggregate_spans ::
  "('l, 'f::{linorder,plus,zero}, 'h) sm_env \<Rightarrow> string \<Rightarrow> attrs \<Rightarrow> span list \<Rightarrow> ('l, 'f, 'h) span_metrics \<Rightarrow>
   ('l, 'f, 'h) span_metrics outcome" where
  "aggregate_spans env serviceName resourceAttr [] p = Done p"
| "aggregate_spans env serviceName resourceAttr (sp # sps) p =
     bind_outcome (aggregateMetricsForSpan env serviceName resourceAttr sp p)
       (\<lambda>p. aggregate_spans env serviceName resourceAttr sps p)"

text \<open>
  The resource attributes are changed in place: the traces come back with the collector id
  put into every resource that names its service.
\<close>

fun aggregateMetrics ::
  "('l, 'f::{linorder,plus,zero}, 'h) sm_env \<Rightarrow> traces \<Rightarrow> ('l, 'f, 'h) span_metrics \<Rightarrow>
   (traces \<times> ('l, 'f, 'h) span_metrics) outcome" where
  "aggregateMetrics env [] p = Done ([], p)"
| "aggregateMetrics env (rs # td) p =
     (case attr_get (resource_attrs rs) serviceNameKey of
        None \<Rightarrow> bind_outcome (aggregateMetrics env td p) (\<lambda>(td', p'). Done (rs # td', p'))
      | Some serviceAttr \<Rightarrow>
          (let resourceAttr = attr_put signozID (ValueStr (instanceID p)) (resource_attrs rs)
           in bind_outcome (aggregate_spans env (val_str serviceAttr) resourceAttr (spans_of_resource rs) p)
                (\<lambda>p. bind_outcome (aggregateMetrics env td p)
                   (\<lambda>(td', p'). Done (rs\<lparr>resource_attrs := resourceAttr\<rparr> # td', p')))))"

definition sm_ConsumeTraces ::
  "('l, 'f::{linorder,plus,zero}, 'h) sm_env \<Rightarrow> traces \<Rightarrow> ('l, 'f, 'h) span_metrics \<Rightarrow>
   ('l, 'f, 'h) span_metrics outcome" where
  "sm_ConsumeTraces env td p =
     bind_outcome (aggregateMetrics env td p) (\<lambda>(td', p'). Done (p'\<lparr>forwarded := forwarded p' @ [td']\<rparr>))"

section \<open>Collection\<close>

text \<open>
  The loop of a \<^verbatim>\<open>collect...Metrics\<close> method: one point per entry, with the dimensions found for its
  key; a key that is not found is an error, here \<^term>\<open>Inl\<close> of the key, and ends the loop.
\<close>

fun collect_loop ::
  "('l, string, attrs) lru_ops \<Rightarrow> (string \<Rightarrow> 'd \<Rightarrow> attrs \<Rightarrow> 'p) \<Rightarrow> (string \<times> 'd) list \<Rightarrow> 'l dims_cache \<Rightarrow>
   (string + 'p list) \<times> 'l dims_cache" where
  "collect_loop L mk [] c = (Inr [], c)"
| "collect_loop L mk ((k, d) # es) c =
     (case cache_get L c k of
        (None, c') \<Rightarrow> (Inl k, c')
      | (Some dims, c') \<Rightarrow>
          (let (r, c'') = collect_loop L mk es c'
           in (case r of Inl e \<Rightarrow> Inl e | Inr ps \<Rightarrow> Inr (mk k d dims # ps), c'')))"

definition point_times ::
  "('l, 'f, 'h) sm_env \<Rightarrow> ('l, 'f, 'h) span_metrics \<Rightarrow> string \<Rightarrow> string \<Rightarrow> u64 \<times> u64" where
  "point_times env p metricName k = parseTimesFromKeyOrNow k (pointClock env metricName k) (processorStart p)"

definition latency_point ::
  "('l, 'f, 'h) sm_env \<Rightarrow> ('l, 'f, 'h) span_metrics \<Rightarrow> string \<Rightarrow> 'f histogram_data \<Rightarrow> attrs \<Rightarrow> 'f hist_point" where
  "latency_point env p k hist dims =
     (let (start, end_time) = point_times env p ''signoz_latency'' k
      in \<lparr>hp_start = start, hp_time = end_time, hp_bounds = latencyBounds p,
          hp_bucketCounts = bucketCounts hist, hp_count = h_count hist, hp_sum = h_sum hist,
          hp_exemplars = setExemplars (exemplarsData hist) end_time, hp_attrs = dims\<rparr>)"

definition number_point ::
  "u64 \<times> u64 \<Rightarrow> 'f number_value \<Rightarrow> attrs \<Rightarrow> 'f number_point" where
  "number_point tms v dims = \<lparr>np_start = fst tms, np_time = snd tms, np_value = v, np_attrs = dims\<rparr>"

definition call_point ::
  "('l, 'f, 'h) sm_env \<Rightarrow> ('l, 'f, 'h) span_metrics \<Rightarrow> string \<Rightarrow> 'f histogram_data \<Rightarrow> attrs \<Rightarrow> 'f number_point" where
  "call_point env p k hist dims =
     number_point (point_times env p ''signoz_calls_total'' k) (IntValue (h_count hist)) dims"

definition exp_data_point ::
  "('l, 'f, 'h) sm_env \<Rightarrow> ('l, 'f, 'h) span_metrics \<Rightarrow> string \<Rightarrow> 'h \<Rightarrow> attrs \<Rightarrow> 'f exp_point" where
  "exp_data_point env p k h dims =
     expoHistToExponentialDataPoint (expOps env) h (point_times env p ''signoz_latency'' k) dims"

definition sum_and_count ::
  "('l, 'f, 'h) sm_env \<Rightarrow> ('l, 'f, 'h) span_metrics \<Rightarrow> string \<Rightarrow> string \<Rightarrow> 'f histogram_data \<Rightarrow> attrs \<Rightarrow>
   'f number_point \<times> 'f number_point" where
  "sum_and_count env p nm k hist dims =
     (let tms = point_times env p nm k
      in (number_point tms (DoubleValue (h_sum hist)) dims, number_point tms (IntValue (h_count hist)) dims))"

type_synonym ('l, 'f, 'h) collected = "(string + 'f metric list) \<times> ('l, 'f, 'h) span_metrics"

definition collectCallMetrics ::
  "('l, 'f, 'h) sm_env \<Rightarrow> ('l, 'f, 'h) span_metrics \<Rightarrow> ('l, 'f, 'h) collected" where
  "collectCallMetrics env p =
     (let (r, c) = collect_loop (lruOps env) (call_point env p)
            (callHistograms p) (callMetricKeyToDimensions p)
      in (map_sum id (\<lambda>ps. [\<lparr>m_name = ''signoz_calls_total'', m_unit = [],
            m_data = SumData (GetAggregationTemporality (config p)) ps\<rparr>]) r,
          p\<lparr>callMetricKeyToDimensions := c\<rparr>))"

definition collectLatencyMetrics ::
  "('l, 'f, 'h) sm_env \<Rightarrow> ('l, 'f, 'h) span_metrics \<Rightarrow> ('l, 'f, 'h) collected" where
  "collectLatencyMetrics env p =
     (let (r, c) = collect_loop (lruOps env) (latency_point env p) (histograms p) (metricKeyToDimensions p)
      in (map_sum id (\<lambda>ps. [\<lparr>m_name = ''signoz_latency'', m_unit = ''ms'',
            m_data = HistogramData (GetAggregationTemporality (config p)) ps\<rparr>]) r,
          p\<lparr>metricKeyToDimensions := c\<rparr>))"

definition collectExternalCallMetrics ::
  "('l, 'f, 'h) sm_env \<Rightarrow> ('l, 'f, 'h) span_metrics \<Rightarrow> ('l, 'f, 'h) collected" where
  "collectExternalCallMetrics env p =
     (let (r, c) = collect_loop (lruOps env) (sum_and_count env p ''signoz_external_call_latency'')
            (externalCallHistograms p) (externalCallMetricKeyToDimensions p);
          tmp = GetAggregationTemporality (config p)
      in (map_sum id (\<lambda>ps.
            [\<lparr>m_name = ''signoz_external_call_latency_sum'', m_unit = ''1'', m_data = SumData tmp (map fst ps)\<rparr>,
             \<lparr>m_name = ''signoz_external_call_latency_count'', m_unit = ''1'', m_data = SumData tmp (map snd ps)\<rparr>]) r,
          p\<lparr>externalCallMetricKeyToDimensions := c\<rparr>))"

definition collectDBCallMetrics ::
  "('l, 'f, 'h) sm_env \<Rightarrow> ('l, 'f, 'h) span_metrics \<Rightarrow> ('l, 'f, 'h) collected" where
  "collectDBCallMetrics env p =
     (let (r, c) = collect_loop (lruOps env) (sum_and_count env p ''signoz_db_latency'')
            (dbCallHistograms p) (dbCallMetricKeyToDimensions p);
          tmp = GetAggregationTemporality (config p)
      in (map_sum id (\<lambda>ps.
            [\<lparr>m_name = ''signoz_db_latency_sum'', m_unit = ''1'', m_data = SumData tmp (map fst ps)\<rparr>,
             \<lparr>m_name = ''signoz_db_latency_count'', m_unit = ''1'', m_data = SumData tmp (map snd ps)\<rparr>]) r,
          p\<lparr>dbCallMetricKeyToDimensions := c\<rparr>))"

definition collectExpHistogramMetrics ::
  "('l, 'f, 'h) sm_env \<Rightarrow> ('l, 'f, 'h) span_metrics \<Rightarrow> ('l, 'f, 'h) collected" where
  "collectExpHistogramMetrics env p =
     (let (r, c) = collect_loop (lruOps env) (exp_data_point env p)
            (expHistograms p) (expHistogramKeyToDimensions p)
      in (map_sum id (\<lambda>ps. [\<lparr>m_name = ''signoz_latency'', m_unit = ''ms'',
            m_data = ExpHistogramData (GetAggregationTemporality (config p)) ps\<rparr>]) r,
          p\<lparr>expHistogramKeyToDimensions := c\<rparr>))"

section \<open>Export\<close>

definition clear_exemplars :: "'f histogram_map \<Rightarrow> 'f histogram_map" where
  "clear_exemplars hs = map (\<lambda>(k, h). (k, h\<lparr>exemplarsData := []\<rparr>)) hs"

definition resetExemplarData :: "('l, 'f, 'h) span_metrics \<Rightarrow> ('l, 'f, 'h) span_metrics" where
  "resetExemplarData p =
     p\<lparr>histograms := clear_exemplars (histograms p), callHistograms := clear_exemplars (callHistograms p),
       dbCallHistograms := clear_exemplars (dbCallHistograms p),
       externalCallHistograms := clear_exemplars (externalCallHistograms p)\<rparr>"

definition resetAccumulatedMetrics ::
  "('l, 'f, 'h) sm_env \<Rightarrow> ('l, 'f, 'h) span_metrics \<Rightarrow> ('l, 'f, 'h) span_metrics" where
  "resetAccumulatedMetrics env p =
     p\<lparr>histograms := [], expHistograms := [], callHistograms := [], dbCallHistograms := [],
       externalCallHistograms := [],
       metricKeyToDimensions := cache_purge (lruOps env) (metricKeyToDimensions p),
       expHistogramKeyToDimensions := cache_purge (lruOps env) (expHistogramKeyToDimensions p),
       callMetricKeyToDimensions := cache_purge (lruOps env) (callMetricKeyToDimensions p),
       dbCallMetricKeyToDimensions := cache_purge (lruOps env) (dbCallMetricKeyToDimensions p),
       externalCallMetricKeyToDimensions := cache_purge (lruOps env) (externalCallMetricKeyToDimensions p)\<rparr>"

definition prune :: "('l, string, attrs) lru_ops \<Rightarrow> 'l dims_cache \<Rightarrow> (string \<times> 'd) list \<Rightarrow> (string \<times> 'd) list" where
  "prune L c hs = filter (\<lambda>(k, h). cache_contains L c k) hs"

text \<open>After the points are built: forget the evicted dimensions and the entries that lost theirs.\<close>

definition drop_evicted ::
  "('l, 'f, 'h) sm_env \<Rightarrow> ('l, 'f, 'h) span_metrics \<Rightarrow> ('l, 'f, 'h) span_metrics" where
  "drop_evicted env p =
     (let p = p\<lparr>metricKeyToDimensions := RemoveEvictedItems (metricKeyToDimensions p),
                expHistogramKeyToDimensions := RemoveEvictedItems (expHistogramKeyToDimensions p),
                callMetricKeyToDimensions := RemoveEvictedItems (callMetricKeyToDimensions p),
                dbCallMetricKeyToDimensions := RemoveEvictedItems (dbCallMetricKeyToDimensions p),
                externalCallMetricKeyToDimensions := RemoveEvictedItems (externalCallMetricKeyToDimensions p)\<rparr>;
          L = lruOps env
      in p\<lparr>histograms := prune L (metricKeyToDimensions p) (histograms p),
           callHistograms := prune L (callMetricKeyToDimensions p) (callHistograms p),
           dbCallHistograms := prune L (dbCallMetricKeyToDimensions p) (dbCallHistograms p),
           externalCallHistograms := prune L (externalCallMetricKeyToDimensions p) (externalCallHistograms p),
           expHistograms := prune L (expHistogramKeyToDimensions p) (expHistograms p)\<rparr>)"

text \<open>Running one collector after the metrics collected so far, unless one of them failed.\<close>

definition then_collect ::
  "('l, 'f, 'h) collected \<Rightarrow> (('l, 'f, 'h) span_metrics \<Rightarrow> ('l, 'f, 'h) collected) \<Rightarrow> ('l, 'f, 'h) collected" where
  "then_collect x f =
     (case x of
        (Inl e, p) \<Rightarrow> (Inl e, p)
      | (Inr ms, p) \<Rightarrow>
          (case f p of (Inl e, p') \<Rightarrow> (Inl e, p') | (Inr ms', p') \<Rightarrow> (Inr (ms @ ms'), p')))"

definition collect_all ::
  "('l, 'f, 'h) sm_env \<Rightarrow> ('l, 'f, 'h) span_metrics \<Rightarrow> ('l, 'f, 'h) collected" where
  "collect_all env p =
     then_collect (then_collect (then_collect (then_collect (collectCallMetrics env p)
       (collectLatencyMetrics env)) (collectExternalCallMetrics env)) (collectDBCallMetrics env))
       (collectExpHistogramMetrics env)"

definition buildMetrics ::
  "('l, 'f, 'h) sm_env \<Rightarrow> ('l, 'f, 'h) span_metrics \<Rightarrow> ('l, 'f, 'h) collected" where
  "buildMetrics env p =
     (case collect_all env p of
        (Inl e, p') \<Rightarrow> (Inl e, p')
      | (Inr ms, p') \<Rightarrow>
          (let p1 = drop_evicted env p';
               p2 = (if GetAggregationTemporality (config p1) = Delta
                     then resetAccumulatedMetrics env p1 else p1)
           in (Inr ms, resetExemplarData p2)))"

text \<open>Every consumer gets the same metrics; after an error these are the zero value, \<^term>\<open>None\<close>.\<close>

definition exportMetrics ::
  "('l, 'f, 'h) sm_env \<Rightarrow> ('l, 'f, 'h) span_metrics \<Rightarrow> ('l, 'f, 'h) span_metrics" where
  "exportMetrics env p =
     (let (r, p') = buildMetrics env p; p'' = resetExemplarData p'
      in p''\<lparr>exported := exported p'' @ [case r of Inl e \<Rightarrow> None | Inr ms \<Rightarrow> Some ms]\<rparr>)"

end
