(* ===== verification/SpanMetricsProps.thy ===== *)
theory SpanMetricsProps
  imports SpanMetrics
begin

text \<open>
  The invariant of the span metrics processor and what its operations do to it: histograms
  whose buckets add up to their count, every key readable in the cache of its family, and the
  services and operations within their limits.
\<close>

section \<open>Histograms\<close>

definition hist_ok :: "'f list \<Rightarrow> 'f histogram_data \<Rightarrow> bool" where
  "hist_ok bounds h \<longleftrightarrow> length (bucketCounts h) = Suc (length bounds) \<and> sum_list (bucketCounts h) = h_count h"

definition fam_ok :: "'f list \<Rightarrow> 'f histogram_map \<Rightarrow> bool" where
  "fam_ok bounds hs \<longleftrightarrow> distinct (map fst hs) \<and> (\<forall>(k, h) \<in> set hs. hist_ok bounds h)"

text \<open>The observations of a family: the counts of its histograms, added up.\<close>

definition observations :: "'f histogram_map \<Rightarrow> u64" where
  "observations hs = sum_list (map (h_count \<circ> snd) hs)"

lemma new_histogram_ok: "hist_ok bounds (new_histogram bounds)"
  by (simp add: hist_ok_def new_histogram_def)

lemma observe_ok:
  assumes "hist_ok bounds h"
  shows "\<exists>h'. observe bounds latency tid sid h = Done h' \<and> hist_ok bounds h' \<and> h_count h' = h_count h + 1"
proof -
  have "search_floats bounds latency < length (bucketCounts h)"
    using assms search_floats_le [of bounds latency] by (simp add: hist_ok_def)
  then show ?thesis
    using assms by (simp add: observe_def hist_ok_def sum_list_update_word Let_def)
qed

lemma fam_lookup_ok:
  "fam_ok bounds hs \<Longrightarrow>
   hist_ok bounds (case map_of hs key of Some h \<Rightarrow> h | None \<Rightarrow> new_histogram bounds)"
  by (auto simp: fam_ok_def new_histogram_ok split: option.splits dest: map_of_SomeD)

lemma observations_update:
  assumes "distinct (map fst hs)"
  shows "observations (AList.update key h hs) =
    observations hs + h_count h - (case map_of hs key of Some h0 \<Rightarrow> h_count h0 | None \<Rightarrow> 0)"
  using assms by (induction hs) (auto simp: observations_def)

lemma set_update_subset: "set (AList.update k v al) \<subseteq> insert (k, v) (set al)"
  by (induction al) auto

lemma fam_ok_update: "fam_ok bounds hs \<Longrightarrow> hist_ok bounds h \<Longrightarrow> fam_ok bounds (AList.update key h hs)"
  using set_update_subset [of key h hs] by (fastforce simp: fam_ok_def distinct_update)

lemma update_family_ok:
  assumes "fam_ok bounds hs"
  obtains hs' where "update_family bounds key latency tid sid hs = Done hs'" "fam_ok bounds hs'"
    "fst ` set hs' = insert key (fst ` set hs)" "observations hs' = observations hs + 1"
proof -
  let ?h = "case map_of hs key of Some h \<Rightarrow> h | None \<Rightarrow> new_histogram bounds"
  obtain h' where h': "observe bounds latency tid sid ?h = Done h'" "hist_ok bounds h'"
    "h_count h' = h_count ?h + 1"
    using observe_ok [OF fam_lookup_ok [OF assms]] by blast
  have "observations (AList.update key h' hs) = observations hs + 1"
    using assms h'(3) observations_update [of hs key h']
    by (auto simp: fam_ok_def new_histogram_def split: option.splits)
  then show thesis
    using that [of "AList.update key h' hs"] h' fam_ok_update [OF assms h'(2)]
    by (simp add: update_family_def dom_update)
qed

section \<open>Families and their caches\<close>

definition covered :: "('l \<Rightarrow> string \<rightharpoonup> attrs) \<Rightarrow> 'l dims_cache \<Rightarrow> (string \<times> 'd) list \<Rightarrow> bool" where
  "covered ents c hs \<longleftrightarrow> fst ` set hs \<subseteq> dom (contents ents c)"

lemma covered_Nil [simp]: "covered ents c []"
  by (simp add: covered_def)

lemma cache_dims_contents:
  assumes "lru_laws L ents cap"
  shows "contents ents (fst (cache_dims L k build c crd)) =
    (if contents ents c k = None then (contents ents c)(k \<mapsto> fst (build crd)) else contents ents c)"
  using ds.lookup_or_store [of L ents cap, OF assms, of c k "fst (build crd)"]
    contents_get [OF assms]
  by (auto simp: cache_dims_def split_beta Let_def)

lemma covered_cache_dims:
  assumes "lru_laws L ents cap" and "covered ents c hs" and "fst ` set hs' \<subseteq> insert k (fst ` set hs)"
  shows "covered ents (fst (cache_dims L k build c crd)) hs'"
proof -
  have dom: "dom (contents ents (fst (cache_dims L k build c crd))) = insert k (dom (contents ents c))"
    unfolding cache_dims_contents [OF assms(1)] by (cases "contents ents c k") (simp_all add: insert_absorb domI)
  have "insert k (fst ` set hs) \<subseteq> insert k (dom (contents ents c))"
    using assms(2) unfolding covered_def by (rule insert_mono)
  with assms(3) show ?thesis unfolding covered_def dom by (rule subset_trans)
qed

lemma cache_dims_cap:
  assumes "lru_laws L ents cap"
  shows "cap (lru (fst (cache_dims L k build c crd))) = cap (lru c)"
  by (simp add: cache_dims_def split_beta Let_def cache_cap [OF assms])

lemma collect_loop_points:
  assumes "lru_laws L ents cap"
  shows "covered ents c es \<Longrightarrow>
    fst (collect_loop L mk es c) = Inr (map (\<lambda>(k, d). mk k d (the (contents ents c k))) es) \<and>
    contents ents (snd (collect_loop L mk es c)) = contents ents c \<and>
    cap (lru (snd (collect_loop L mk es c))) = cap (lru c)"
proof (induction es arbitrary: c)
  case (Cons e es)
  obtain k d where e: "e = (k, d)" by (cases e)
  obtain dims where dims: "contents ents c k = Some dims" using Cons.prems by (auto simp: covered_def e)
  obtain c' where c': "cache_get L c k = (Some dims, c')" "contents ents c' = contents ents c"
      "cap (lru c') = cap (lru c)"
    using contents_get [OF assms, of c k] cache_cap(2) [OF assms, of c k] dims
    by (cases "cache_get L c k") auto
  have "covered ents c' es" using Cons.prems c' by (simp add: covered_def)
  from Cons.IH [OF this] show ?case
    using c' dims by (simp add: e split_beta Let_def)
qed simp

lemma covered_prune:
  assumes "lru_laws L ents cap"
  shows "covered ents (RemoveEvictedItems c) (prune L (RemoveEvictedItems c) hs)"
proof -
  have "lru (RemoveEvictedItems c) = lru c" by (simp add: RemoveEvictedItems_def)
  then show ?thesis
    by (auto simp: covered_def prune_def contents_remove_evicted cache_contains_iff [OF assms])
qed

lemma prune_length:
  assumes "lru_laws L ents cap" and "distinct (map fst hs)"
  shows "length (prune L c hs) \<le> cap (lru c)"
proof -
  have sub: "fst ` set (prune L c hs) \<subseteq> dom (ents (lru c))"
    by (auto simp: prune_def cache_contains_iff [OF assms(1)])
  have fin: "finite (dom (ents (lru c)))" "card (dom (ents (lru c))) \<le> cap (lru c)"
    using assms(1) by (simp_all add: lru_laws_def)
  have "distinct (map fst (prune L c hs))"
    using assms(2) by (simp add: prune_def distinct_map_filter)
  then have "length (prune L c hs) = card (fst ` set (prune L c hs))"
    by (metis distinct_card length_map set_map)
  also have "\<dots> \<le> card (dom (ents (lru c)))" by (rule card_mono [OF fin(1) sub])
  finally show ?thesis using fin(2) by simp
qed

lemma fam_ok_filter: "fam_ok bounds hs \<Longrightarrow> fam_ok bounds (filter P hs)"
  by (auto simp: fam_ok_def distinct_map_filter)

lemma fam_ok_prune: "fam_ok bounds hs \<Longrightarrow> fam_ok bounds (prune L c hs)"
  by (simp add: prune_def fam_ok_filter)

lemma clear_exemplars_keys [simp]: "map fst (clear_exemplars hs) = map fst hs"
  by (simp add: clear_exemplars_def split_beta)

lemma clear_exemplars_fst [simp]: "fst ` set (clear_exemplars hs) = fst ` set hs"
  by (simp flip: set_map)

lemma fam_ok_clear [simp]: "fam_ok bounds (clear_exemplars hs) \<longleftrightarrow> fam_ok bounds hs"
proof -
  have "(\<forall>(k, h) \<in> set (clear_exemplars hs). hist_ok bounds h) \<longleftrightarrow> (\<forall>(k, h) \<in> set hs. hist_ok bounds h)"
    by (fastforce simp: clear_exemplars_def hist_ok_def)
  then show ?thesis by (simp add: fam_ok_def)
qed

lemma covered_clear [simp]: "covered ents c (clear_exemplars hs) \<longleftrightarrow> covered ents c hs"
  by (simp add: covered_def)

lemma clear_exemplars_Nil [simp]: "clear_exemplars [] = []"
  by (simp add: clear_exemplars_def)

lemma clear_exemplars_length [simp]: "length (clear_exemplars hs) = length hs"
  by (simp add: clear_exemplars_def)

section \<open>Tracked services and operations\<close>

text \<open>
  A list grows by one distinct name at a time and only up to its limit, apart from the
  overflow name.
\<close>

definition within :: "int \<Rightarrow> string \<Rightarrow> string list \<Rightarrow> bool" where
  "within mx overflow xs \<longleftrightarrow>
     distinct xs \<and> (int (length xs) \<le> mx + 1 \<or> overflow \<in> set xs \<and> int (length xs) \<le> mx + 2)"

definition tracked_ok :: "limits \<Rightarrow> tracked \<Rightarrow> bool" where
  "tracked_ok lim sto \<longleftrightarrow>
     within (maxNumberOfServicesToTrack lim) overflowServiceName (map fst sto) \<and>
     (\<forall>(s, ops) \<in> set sto. within (maxNumberOfOperationsToTrackPerService lim) overflowOperation ops)"

lemma within_Nil: "0 \<le> mx \<Longrightarrow> within mx ov []"
  by (simp add: within_def)

lemma within_add:
  assumes "within mx ov xs" and "x = ov \<or> int (length xs) \<le> mx"
  shows "within mx ov (if x \<in> set xs then xs else xs @ [x])"
  using assms by (auto simp: within_def)

lemma tracked_ok_track:
  assumes "tracked_ok lim sto" and "0 \<le> maxNumberOfOperationsToTrackPerService lim"
    and "overflow_names lim sto service op = (s, n)"
  shows "tracked_ok lim (track sto s n)"
proof -
  have s: "s = overflowServiceName \<or> int (length (map fst sto)) \<le> maxNumberOfServicesToTrack lim"
    and n: "n = overflowOperation \<or> int (length (operations_of sto s)) \<le> maxNumberOfOperationsToTrackPerService lim"
    using assms(3) by (auto simp: overflow_names_def Let_def split: if_splits)
  let ?ops = "operations_of sto s"
  have "within (maxNumberOfOperationsToTrackPerService lim) overflowOperation ?ops"
    using assms(1,2) by (auto simp: operations_of_def tracked_ok_def within_Nil split: option.splits dest: map_of_SomeD)
  then have ops: "within (maxNumberOfOperationsToTrackPerService lim) overflowOperation
      (if n \<in> set ?ops then ?ops else ?ops @ [n])"
    using n by (rule within_add)
  have keys: "within (maxNumberOfServicesToTrack lim) overflowServiceName (map fst (track sto s n))"
    using within_add [of _ _ "map fst sto" s] s assms(1)
    by (auto simp: track_def update_keys tracked_ok_def)
  have "set (track sto s n) \<subseteq> insert (s, if n \<in> set ?ops then ?ops else ?ops @ [n]) (set sto)"
    unfolding track_def Let_def by (rule set_update_subset)
  then show ?thesis
    using keys ops assms(1) unfolding tracked_ok_def by blast
qed

lemma buildKey_tracked:
  "snd (buildKey E lim dest service sp dims ra sto) =
     (case overflow_names lim sto service (span_name sp) of (s, n) \<Rightarrow> track sto s n)"
  by (simp add: buildKey_def split_beta Let_def)

section \<open>The invariant of the processor\<close>

definition sm_inv ::
  "('l \<Rightarrow> string \<rightharpoonup> attrs) \<Rightarrow> ('l, 'f::{linorder,plus,zero}, 'h) span_metrics \<Rightarrow> bool" where
  "sm_inv ents p \<longleftrightarrow>
     fam_ok (latencyBounds p) (histograms p) \<and> fam_ok (latencyBounds p) (callHistograms p) \<and>
     fam_ok (latencyBounds p) (dbCallHistograms p) \<and> fam_ok (latencyBounds p) (externalCallHistograms p) \<and>
     distinct (map fst (expHistograms p)) \<and>
     covered ents (metricKeyToDimensions p) (histograms p) \<and>
     covered ents (callMetricKeyToDimensions p) (callHistograms p) \<and>
     covered ents (dbCallMetricKeyToDimensions p) (dbCallHistograms p) \<and>
     covered ents (externalCallMetricKeyToDimensions p) (externalCallHistograms p) \<and>
     covered ents (expHistogramKeyToDimensions p) (expHistograms p) \<and>
     0 \<le> maxNumberOfServicesToTrack (sm_limits p) \<and>
     0 \<le> maxNumberOfOperationsToTrackPerService (sm_limits p) \<and>
     tracked_ok (sm_limits p) (serviceToOperations p)"

text \<open>What no aggregation changes, and the capacities of the five caches.\<close>

definition fixed_part ::
  "('l \<Rightarrow> nat) \<Rightarrow> ('l, 'f, 'h) span_metrics \<Rightarrow>
   string \<times> sm_config \<times> 'f list \<times> (string \<times> string) list \<times> limits \<times> 'f metric list option list \<times>
   traces list \<times> nat list" where
  "fixed_part cap p =
     (instanceID p, config p, latencyBounds p, excludePatternRegex p, sm_limits p, exported p, forwarded p,
      map (cap \<circ> lru) [metricKeyToDimensions p, callMetricKeyToDimensions p, dbCallMetricKeyToDimensions p,
                       externalCallMetricKeyToDimensions p, expHistogramKeyToDimensions p])"

lemma take_key_shape:
  assumes "sm_inv ents p"
  shows "\<exists>k sto. take_key env service sp dims ra p = (k, p\<lparr>serviceToOperations := sto\<rparr>) \<and>
    tracked_ok (sm_limits p) sto"
proof -
  let ?b = "buildMetricKey (keyEnv env) (config p) (sm_limits p) service sp dims ra (serviceToOperations p)"
  obtain s n where sn: "overflow_names (sm_limits p) (serviceToOperations p) service (span_name sp) = (s, n)"
    by fastforce
  have "snd ?b = track (serviceToOperations p) s n"
    by (simp add: buildMetricKey_def buildKey_tracked sn)
  moreover have "tracked_ok (sm_limits p) (track (serviceToOperations p) s n)"
    by (rule tracked_ok_track [OF _ _ sn]) (use assms in \<open>simp_all add: sm_inv_def\<close>)
  ultimately show ?thesis
    by (intro exI [of _ "fst ?b"] exI [of _ "track (serviceToOperations p) s n"]) (simp add: take_key_def split_beta)
qed

text \<open>Storing the dimensions of a key and then observing under it keeps a family and its cache in step.\<close>

lemma family_step:
  assumes "lru_laws L ents cap" and "fam_ok bounds hs" and "covered ents c hs"
  shows "\<exists>c' crd' hs'. cache_dims L k build c crd = (c', crd') \<and>
    update_family bounds k latency tid sid hs = Done hs' \<and> fam_ok bounds hs' \<and> covered ents c' hs' \<and>
    cap (lru c') = cap (lru c) \<and> observations hs' = observations hs + 1"
proof -
  obtain c' crd' where c: "cache_dims L k build c crd = (c', crd')" by fastforce
  obtain hs' where hs: "update_family bounds k latency tid sid hs = Done hs'" "fam_ok bounds hs'"
      "fst ` set hs' = insert k (fst ` set hs)" "observations hs' = observations hs + 1"
    by (rule update_family_ok [OF assms(2)])
  have "covered ents c' hs'" "cap (lru c') = cap (lru c)"
    using covered_cache_dims [OF assms(1,3), of hs' k build crd] cache_dims_cap [OF assms(1), of k build c crd]
      hs(3) c by simp_all
  then show ?thesis using c hs by blast
qed

text \<open>One span in one family: what each of the four aggregation steps below does.\<close>

lemma aggregate_latency_ok:
  assumes L: "lru_laws (lruOps env) ents cap" and inv: "sm_inv ents p"
  shows "\<exists>p'. aggregate_latency env service sp ra p = Done p' \<and> sm_inv ents p' \<and>
    fixed_part cap p' = fixed_part cap p \<and> callHistograms p' = callHistograms p \<and>
    observations (histograms p') = observations (histograms p) + 1"
proof -
  obtain k sto where k: "take_key env service sp (dimensions p) ra p = (k, p\<lparr>serviceToOperations := sto\<rparr>)"
      "tracked_ok (sm_limits p) sto"
    using take_key_shape [OF inv] by blast
  have "fam_ok (latencyBounds p) (histograms p)" "covered ents (metricKeyToDimensions p) (histograms p)"
    using inv by (simp_all add: sm_inv_def)
  from family_step [OF L this, of k
      "buildDimensionKVs (keyEnv env) (sm_limits p) service sp (dimensions p) ra sto" "attrsCardinality p"
      "latencyInMilliseconds env sp" "traceID sp" "spanID sp"]
  obtain c crd hs where s: "cache_dims (lruOps env) k
        (buildDimensionKVs (keyEnv env) (sm_limits p) service sp (dimensions p) ra sto)
        (metricKeyToDimensions p) (attrsCardinality p) = (c, crd)"
      "update_family (latencyBounds p) k (latencyInMilliseconds env sp) (traceID sp) (spanID sp)
        (histograms p) = Done hs" "fam_ok (latencyBounds p) hs" "covered ents c hs"
      "cap (lru c) = cap (lru (metricKeyToDimensions p))" "observations hs = observations (histograms p) + 1"
    by blast
  show ?thesis
    using inv s k
    by (simp add: aggregate_latency_def cache_latency_def updateHistogram_def sm_inv_def fixed_part_def Let_def)
qed

lemma aggregate_call_ok:
  assumes L: "lru_laws (lruOps env) ents cap" and inv: "sm_inv ents p"
  shows "\<exists>p'. aggregate_call env service sp ra p = Done p' \<and> sm_inv ents p' \<and>
    fixed_part cap p' = fixed_part cap p \<and> histograms p' = histograms p \<and>
    observations (callHistograms p') = observations (callHistograms p) + 1"
proof -
  obtain k sto where k: "take_key env service sp (callDimensions p) ra p = (k, p\<lparr>serviceToOperations := sto\<rparr>)"
      "tracked_ok (sm_limits p) sto"
    using take_key_shape [OF inv] by blast
  have "fam_ok (latencyBounds p) (callHistograms p)" "covered ents (callMetricKeyToDimensions p) (callHistograms p)"
    using inv by (simp_all add: sm_inv_def)
  from family_step [OF L this, of k
      "buildDimensionKVs (keyEnv env) (sm_limits p) service sp (callDimensions p) ra sto" "attrsCardinality p"
      "latencyInMilliseconds env sp" "traceID sp" "spanID sp"]
  obtain c crd hs where s: "cache_dims (lruOps env) k
        (buildDimensionKVs (keyEnv env) (sm_limits p) service sp (callDimensions p) ra sto)
        (callMetricKeyToDimensions p) (attrsCardinality p) = (c, crd)"
      "update_family (latencyBounds p) k (latencyInMilliseconds env sp) (traceID sp) (spanID sp)
        (callHistograms p) = Done hs" "fam_ok (latencyBounds p) hs" "covered ents c hs"
      "cap (lru c) = cap (lru (callMetricKeyToDimensions p))" "observations hs = observations (callHistograms p) + 1"
    by blast
  show ?thesis
    using inv s k
    by (simp add: aggregate_call_def callCache_def updateCallHistogram_def sm_inv_def fixed_part_def Let_def)
qed

lemma aggregate_external_ok:
  assumes L: "lru_laws (lruOps env) ents cap" and inv: "sm_inv ents p"
  shows "\<exists>p'. aggregate_external env service sp ra p = Done p' \<and> sm_inv ents p' \<and>
    fixed_part cap p' = fixed_part cap p \<and> histograms p' = histograms p \<and> callHistograms p' = callHistograms p"
proof (cases "getRemoteAddress (keyEnv env) sp")
  case None
  then show ?thesis using inv by (simp add: aggregate_external_def)
next
  case (Some addr)
  define k where "k = buildCustomMetricKey (keyEnv env) (config p) service sp (externalCallDimensions p) ra [addr]"
  have "fam_ok (latencyBounds p) (externalCallHistograms p)"
    "covered ents (externalCallMetricKeyToDimensions p) (externalCallHistograms p)"
    using inv by (simp_all add: sm_inv_def)
  from family_step [OF L this, of k
      "buildCustomDimensionKVs (keyEnv env) service sp (externalCallDimensions p) ra [(''address'', ValueStr addr)]"
      "attrsCardinality p" "latencyInMilliseconds env sp" "traceID sp" "spanID sp"]
  obtain c crd hs where s: "cache_dims (lruOps env) k
        (buildCustomDimensionKVs (keyEnv env) service sp (externalCallDimensions p) ra [(''address'', ValueStr addr)])
        (externalCallMetricKeyToDimensions p) (attrsCardinality p) = (c, crd)"
      "update_family (latencyBounds p) k (latencyInMilliseconds env sp) (traceID sp) (spanID sp)
        (externalCallHistograms p) = Done hs" "fam_ok (latencyBounds p) hs" "covered ents c hs"
      "cap (lru c) = cap (lru (externalCallMetricKeyToDimensions p))"
    by blast
  show ?thesis
    using inv s Some
    by (simp add: aggregate_external_def externalCallCache_def updateExternalHistogram_def sm_inv_def fixed_part_def
        k_def [symmetric] Let_def)
qed

lemma aggregate_db_ok:
  assumes L: "lru_laws (lruOps env) ents cap" and inv: "sm_inv ents p"
  shows "\<exists>p'. aggregate_db env service sp ra p = Done p' \<and> sm_inv ents p' \<and>
    fixed_part cap p' = fixed_part cap p \<and> histograms p' = histograms p \<and> callHistograms p' = callHistograms p"
proof -
  define k where "k = buildCustomMetricKey (keyEnv env) (config p) service sp (dbCallDimensions p) ra []"
  have "fam_ok (latencyBounds p) (dbCallHistograms p)"
    "covered ents (dbCallMetricKeyToDimensions p) (dbCallHistograms p)"
    using inv by (simp_all add: sm_inv_def)
  from family_step [OF L this, of k
      "buildCustomDimensionKVs (keyEnv env) service sp (dbCallDimensions p) ra []"
      "attrsCardinality p" "latencyInMilliseconds env sp" "traceID sp" "spanID sp"]
  obtain c crd hs where s: "cache_dims (lruOps env) k
        (buildCustomDimensionKVs (keyEnv env) service sp (dbCallDimensions p) ra [])
        (dbCallMetricKeyToDimensions p) (attrsCardinality p) = (c, crd)"
      "update_family (latencyBounds p) k (latencyInMilliseconds env sp) (traceID sp) (spanID sp)
        (dbCallHistograms p) = Done hs" "fam_ok (latencyBounds p) hs" "covered ents c hs"
      "cap (lru c) = cap (lru (dbCallMetricKeyToDimensions p))"
    by blast
  show ?thesis
    using inv s
    by (simp add: aggregate_db_def dbCallCache_def updateDBHistogram_def sm_inv_def fixed_part_def
        k_def [symmetric] Let_def)
qed

lemma aggregate_exp_ok:
  assumes L: "lru_laws (lruOps env) ents cap" and inv: "sm_inv ents p"
  shows "sm_inv ents (aggregate_exp env service sp ra p) \<and>
    fixed_part cap (aggregate_exp env service sp ra p) = fixed_part cap p \<and>
    histograms (aggregate_exp env service sp ra p) = histograms p \<and>
    callHistograms (aggregate_exp env service sp ra p) = callHistograms p"
proof -
  obtain k sto where k: "take_key env service sp (expDimensions p) ra p = (k, p\<lparr>serviceToOperations := sto\<rparr>)"
      "tracked_ok (sm_limits p) sto"
    using take_key_shape [OF inv] by blast
  let ?b = "buildDimensionKVs (keyEnv env) (sm_limits p) service sp (expDimensions p) ra sto"
  obtain c crd where c: "cache_dims (lruOps env) k ?b (expHistogramKeyToDimensions p) (attrsCardinality p) = (c, crd)"
    by fastforce
  have "covered ents c (AList.update k h (expHistograms p))" for h
    using covered_cache_dims [OF L, of "expHistogramKeyToDimensions p" "expHistograms p" "AList.update k h (expHistograms p)"
        k ?b "attrsCardinality p"] inv c by (simp add: sm_inv_def dom_update)
  moreover have "cap (lru c) = cap (lru (expHistogramKeyToDimensions p))"
    using cache_dims_cap [OF L, of k ?b "expHistogramKeyToDimensions p" "attrsCardinality p"] c by simp
  ultimately show ?thesis
    using inv k c
    by (simp add: aggregate_exp_def expHistogramCache_def updateExpHistogram_def sm_inv_def fixed_part_def Let_def
        distinct_update)
qed

section \<open>Spans, batches\<close>

text \<open>A span is accepted when it is neither stale nor excluded.\<close>

definition accepted :: "('l, 'f, 'h) sm_env \<Rightarrow> sm_config \<Rightarrow> (string \<times> string) list \<Rightarrow> string \<Rightarrow> attrs \<Rightarrow> span \<Rightarrow> bool" where
  "accepted env cfg rx service ra sp \<longleftrightarrow> \<not> is_stale env cfg sp \<and> \<not> shouldSkip (keyEnv env) rx service sp ra"

definition same_counts :: "('l, 'f, 'h) span_metrics \<Rightarrow> ('l, 'f, 'h) span_metrics \<Rightarrow> u64 \<Rightarrow> bool" where
  "same_counts p p' n \<longleftrightarrow> observations (histograms p') = observations (histograms p) + n \<and>
     observations (callHistograms p') = observations (callHistograms p) + n"

lemma same_counts_trans: "same_counts p p1 m \<Longrightarrow> same_counts p1 p2 n \<Longrightarrow> same_counts p p2 (m + n)"
  by (simp add: same_counts_def add.assoc)

lemma fixed_part_parts:
  "fixed_part cap p' = fixed_part cap p \<Longrightarrow>
   config p' = config p \<and> excludePatternRegex p' = excludePatternRegex p \<and> instanceID p' = instanceID p \<and>
   sm_limits p' = sm_limits p \<and> exported p' = exported p \<and> latencyBounds p' = latencyBounds p \<and>
   forwarded p' = forwarded p"
  by (simp add: fixed_part_def)

lemma aggregate_span_ok:
  assumes L: "lru_laws (lruOps env) ents cap" and inv: "sm_inv ents p"
  shows "\<exists>p'. aggregateMetricsForSpan env service ra sp p = Done p' \<and> sm_inv ents p' \<and>
    fixed_part cap p' = fixed_part cap p \<and>
    same_counts p p' (if accepted env (config p) (excludePatternRegex p) service ra sp then 1 else 0)"
proof (cases "accepted env (config p) (excludePatternRegex p) service ra sp")
  case False
  then show ?thesis using inv by (auto simp: aggregateMetricsForSpan_def accepted_def same_counts_def)
next
  case True
  obtain p1 where p1: "aggregate_latency env service sp ra p = Done p1" "sm_inv ents p1"
      "fixed_part cap p1 = fixed_part cap p" "callHistograms p1 = callHistograms p"
      "observations (histograms p1) = observations (histograms p) + 1"
    using aggregate_latency_ok [OF L inv] by blast
  note e = aggregate_exp_ok [OF L p1(2), of service sp ra]
  obtain p2 where p2: "aggregate_call env service sp ra (aggregate_exp env service sp ra p1) = Done p2"
      "sm_inv ents p2" "fixed_part cap p2 = fixed_part cap p" "histograms p2 = histograms p1"
      "observations (callHistograms p2) = observations (callHistograms p) + 1"
    using aggregate_call_ok [OF L, of "aggregate_exp env service sp ra p1" service sp ra] e p1 by auto
  obtain p3 where p3: "aggregate_external env service sp ra p2 = Done p3" "sm_inv ents p3"
      "fixed_part cap p3 = fixed_part cap p2" "histograms p3 = histograms p2" "callHistograms p3 = callHistograms p2"
    using aggregate_external_ok [OF L p2(2)] by blast
  obtain p4 where p4: "aggregate_db env service sp ra p3 = Done p4" "sm_inv ents p4"
      "fixed_part cap p4 = fixed_part cap p3" "histograms p4 = histograms p3" "callHistograms p4 = callHistograms p3"
    using aggregate_db_ok [OF L p3(2)] by blast
  have "aggregateMetricsForSpan env service ra sp p = Done p4"
    using True p1(1) p2(1) p3(1) p4(1) by (simp add: aggregateMetricsForSpan_def accepted_def)
  then show ?thesis using True p1 p2 p3 p4 by (auto simp: same_counts_def)
qed

lemma aggregate_spans_ok:
  assumes L: "lru_laws (lruOps env) ents cap"
  shows "sm_inv ents p \<Longrightarrow>
    \<exists>p'. aggregate_spans env service ra sps p = Done p' \<and> sm_inv ents p' \<and>
      fixed_part cap p' = fixed_part cap p \<and>
      same_counts p p' (of_nat (length (filter (accepted env (config p) (excludePatternRegex p) service ra) sps)))"
proof (induction sps arbitrary: p)
  case Nil
  then show ?case by (simp add: same_counts_def)
next
  case (Cons sp sps)
  obtain p1 where p1: "aggregateMetricsForSpan env service ra sp p = Done p1" "sm_inv ents p1"
      "fixed_part cap p1 = fixed_part cap p"
      "same_counts p p1 (if accepted env (config p) (excludePatternRegex p) service ra sp then 1 else 0)"
    using aggregate_span_ok [OF L Cons.prems] by blast
  obtain p2 where p2: "aggregate_spans env service ra sps p1 = Done p2" "sm_inv ents p2"
      "fixed_part cap p2 = fixed_part cap p"
      "same_counts p1 p2 (of_nat (length (filter (accepted env (config p) (excludePatternRegex p) service ra) sps)))"
    using Cons.IH [OF p1(2)] p1(3) fixed_part_parts [OF p1(3)] by auto
  then show ?case
    using p1 same_counts_trans [OF p1(4) p2(4)] by (auto split: if_splits)
qed

text \<open>The accepted spans of a payload, and the payload as it is forwarded.\<close>

definition marked :: "string \<Rightarrow> resource_spans \<Rightarrow> attrs" where
  "marked iid rs = attr_put signozID (ValueStr iid) (resource_attrs rs)"

definition accepted_spans ::
  "('l, 'f, 'h) sm_env \<Rightarrow> sm_config \<Rightarrow> (string \<times> string) list \<Rightarrow> string \<Rightarrow> traces \<Rightarrow> span list" where
  "accepted_spans env cfg rx iid td =
     concat (map (\<lambda>rs. case attr_get (resource_attrs rs) serviceNameKey of
         None \<Rightarrow> []
       | Some v \<Rightarrow> filter (accepted env cfg rx (val_str v) (marked iid rs)) (spans_of_resource rs)) td)"

definition forward_mark :: "string \<Rightarrow> resource_spans \<Rightarrow> resource_spans" where
  "forward_mark iid rs =
     (if attr_get (resource_attrs rs) serviceNameKey = None then rs else rs\<lparr>resource_attrs := marked iid rs\<rparr>)"

lemma aggregateMetrics_ok:
  assumes L: "lru_laws (lruOps env) ents cap"
  shows "sm_inv ents p \<Longrightarrow>
    \<exists>p'. aggregateMetrics env td p = Done (map (forward_mark (instanceID p)) td, p') \<and> sm_inv ents p' \<and>
      fixed_part cap p' = fixed_part cap p \<and>
      same_counts p p' (of_nat (length (accepted_spans env (config p) (excludePatternRegex p) (instanceID p) td)))"
proof (induction td arbitrary: p)
  case Nil
  then show ?case by (simp add: same_counts_def accepted_spans_def)
next
  case (Cons rs td)
  show ?case
  proof (cases "attr_get (resource_attrs rs) serviceNameKey")
    case None
    then show ?thesis using Cons.IH [OF Cons.prems] by (auto simp: forward_mark_def accepted_spans_def)
  next
    case (Some v)
    obtain p1 where p1: "aggregate_spans env (val_str v) (marked (instanceID p) rs) (spans_of_resource rs) p = Done p1"
        "sm_inv ents p1" "fixed_part cap p1 = fixed_part cap p"
        "same_counts p p1 (of_nat (length (filter (accepted env (config p) (excludePatternRegex p) (val_str v)
           (marked (instanceID p) rs)) (spans_of_resource rs))))"
      using aggregate_spans_ok [OF L Cons.prems] by blast
    note fp = fixed_part_parts [OF p1(3)]
    obtain p2 where p2: "aggregateMetrics env td p1 = Done (map (forward_mark (instanceID p)) td, p2)"
        "sm_inv ents p2" "fixed_part cap p2 = fixed_part cap p"
        "same_counts p1 p2 (of_nat (length (accepted_spans env (config p) (excludePatternRegex p) (instanceID p) td)))"
      using Cons.IH [OF p1(2)] p1(3) fp by auto
    have "aggregateMetrics env (rs # td) p = Done (map (forward_mark (instanceID p)) (rs # td), p2)"
      using Some p1(1) p2(1) by (simp add: marked_def [symmetric] forward_mark_def Let_def)
    moreover have "accepted_spans env (config p) (excludePatternRegex p) (instanceID p) (rs # td) =
        filter (accepted env (config p) (excludePatternRegex p) (val_str v) (marked (instanceID p) rs)) (spans_of_resource rs)
        @ accepted_spans env (config p) (excludePatternRegex p) (instanceID p) td"
      using Some by (simp add: accepted_spans_def)
    ultimately show ?thesis
      using p2 same_counts_trans [OF p1(4) p2(4)] by auto
  qed
qed

section \<open>Export\<close>

text \<open>
  The metrics an export should build: one point for every entry of every family, with the
  dimensions its cache has for the key.
\<close>

definition points :: "('l \<Rightarrow> string \<rightharpoonup> attrs) \<Rightarrow> 'l dims_cache \<Rightarrow> (string \<Rightarrow> 'd \<Rightarrow> attrs \<Rightarrow> 'p) \<Rightarrow> (string \<times> 'd) list \<Rightarrow> 'p list" where
  "points ents c mk hs = map (\<lambda>(k, d). mk k d (the (contents ents c k))) hs"

definition call_metrics :: "('l, 'f, 'h) sm_env \<Rightarrow> ('l \<Rightarrow> string \<rightharpoonup> attrs) \<Rightarrow> ('l, 'f, 'h) span_metrics \<Rightarrow> 'f metric list" where
  "call_metrics env ents p =
     [\<lparr>m_name = ''signoz_calls_total'', m_unit = [], m_data = SumData (GetAggregationTemporality (config p))
        (points ents (callMetricKeyToDimensions p)
           (call_point env p)
           (callHistograms p))\<rparr>]"

definition latency_metrics :: "('l, 'f, 'h) sm_env \<Rightarrow> ('l \<Rightarrow> string \<rightharpoonup> attrs) \<Rightarrow> ('l, 'f, 'h) span_metrics \<Rightarrow> 'f metric list" where
  "latency_metrics env ents p =
     [\<lparr>m_name = ''signoz_latency'', m_unit = ''ms'', m_data = HistogramData (GetAggregationTemporality (config p))
        (points ents (metricKeyToDimensions p) (latency_point env p) (histograms p))\<rparr>]"

definition external_metrics :: "('l, 'f, 'h) sm_env \<Rightarrow> ('l \<Rightarrow> string \<rightharpoonup> attrs) \<Rightarrow> ('l, 'f, 'h) span_metrics \<Rightarrow> 'f metric list" where
  "external_metrics env ents p =
     (let ps = points ents (externalCallMetricKeyToDimensions p) (sum_and_count env p ''signoz_external_call_latency'')
                 (externalCallHistograms p);
          tmp = GetAggregationTemporality (config p)
      in [\<lparr>m_name = ''signoz_external_call_latency_sum'', m_unit = ''1'', m_data = SumData tmp (map fst ps)\<rparr>,
          \<lparr>m_name = ''signoz_external_call_latency_count'', m_unit = ''1'', m_data = SumData tmp (map snd ps)\<rparr>])"

definition db_metrics :: "('l, 'f, 'h) sm_env \<Rightarrow> ('l \<Rightarrow> string \<rightharpoonup> attrs) \<Rightarrow> ('l, 'f, 'h) span_metrics \<Rightarrow> 'f metric list" where
  "db_metrics env ents p =
     (let ps = points ents (dbCallMetricKeyToDimensions p) (sum_and_count env p ''signoz_db_latency'')
                 (dbCallHistograms p);
          tmp = GetAggregationTemporality (config p)
      in [\<lparr>m_name = ''signoz_db_latency_sum'', m_unit = ''1'', m_data = SumData tmp (map fst ps)\<rparr>,
          \<lparr>m_name = ''signoz_db_latency_count'', m_unit = ''1'', m_data = SumData tmp (map snd ps)\<rparr>])"

definition exp_metrics :: "('l, 'f, 'h) sm_env \<Rightarrow> ('l \<Rightarrow> string \<rightharpoonup> attrs) \<Rightarrow> ('l, 'f, 'h) span_metrics \<Rightarrow> 'f metric list" where
  "exp_metrics env ents p =
     [\<lparr>m_name = ''signoz_latency'', m_unit = ''ms'', m_data = ExpHistogramData (GetAggregationTemporality (config p))
        (points ents (expHistogramKeyToDimensions p)
           (exp_data_point env p)
           (expHistograms p))\<rparr>]"

definition metrics_spec :: "('l, 'f, 'h) sm_env \<Rightarrow> ('l \<Rightarrow> string \<rightharpoonup> attrs) \<Rightarrow> ('l, 'f, 'h) span_metrics \<Rightarrow> 'f metric list" where
  "metrics_spec env ents p =
     call_metrics env ents p @ latency_metrics env ents p @ external_metrics env ents p @
     db_metrics env ents p @ exp_metrics env ents p"

lemmas metric_parts = call_metrics_def latency_metrics_def external_metrics_def db_metrics_def exp_metrics_def

text \<open>Two processors that differ in their caches only, and these hold the same.\<close>

definition same_contents :: "('l \<Rightarrow> string \<rightharpoonup> attrs) \<Rightarrow> ('l \<Rightarrow> nat) \<Rightarrow> 'l dims_cache \<Rightarrow> 'l dims_cache \<Rightarrow> bool" where
  "same_contents ents cap c c' \<longleftrightarrow> contents ents c' = contents ents c \<and> cap (lru c') = cap (lru c)"

definition cache_equiv ::
  "('l \<Rightarrow> string \<rightharpoonup> attrs) \<Rightarrow> ('l \<Rightarrow> nat) \<Rightarrow> ('l, 'f, 'h) span_metrics \<Rightarrow> ('l, 'f, 'h) span_metrics \<Rightarrow> bool" where
  "cache_equiv ents cap p q \<longleftrightarrow>
     q = p\<lparr>metricKeyToDimensions := metricKeyToDimensions q,
           expHistogramKeyToDimensions := expHistogramKeyToDimensions q,
           callMetricKeyToDimensions := callMetricKeyToDimensions q,
           dbCallMetricKeyToDimensions := dbCallMetricKeyToDimensions q,
           externalCallMetricKeyToDimensions := externalCallMetricKeyToDimensions q\<rparr> \<and>
     same_contents ents cap (metricKeyToDimensions p) (metricKeyToDimensions q) \<and>
     same_contents ents cap (expHistogramKeyToDimensions p) (expHistogramKeyToDimensions q) \<and>
     same_contents ents cap (callMetricKeyToDimensions p) (callMetricKeyToDimensions q) \<and>
     same_contents ents cap (dbCallMetricKeyToDimensions p) (dbCallMetricKeyToDimensions q) \<and>
     same_contents ents cap (externalCallMetricKeyToDimensions p) (externalCallMetricKeyToDimensions q)"

lemma same_contents_refl [simp]: "same_contents ents cap c c"
  by (simp add: same_contents_def)

lemma same_contents_trans: "same_contents ents cap a b \<Longrightarrow> same_contents ents cap b c \<Longrightarrow> same_contents ents cap a c"
  by (simp add: same_contents_def)

lemma covered_same: "same_contents ents cap c c' \<Longrightarrow> covered ents c' hs \<longleftrightarrow> covered ents c hs"
  by (simp add: same_contents_def covered_def)

lemma points_same: "same_contents ents cap c c' \<Longrightarrow> points ents c' mk hs = points ents c mk hs"
  by (simp add: same_contents_def points_def)

lemma cache_equiv_obtain:
  assumes "cache_equiv ents cap p q"
  obtains c1 c2 c3 c4 c5 where
    "q = p\<lparr>metricKeyToDimensions := c1, expHistogramKeyToDimensions := c2, callMetricKeyToDimensions := c3,
           dbCallMetricKeyToDimensions := c4, externalCallMetricKeyToDimensions := c5\<rparr>"
    "same_contents ents cap (metricKeyToDimensions p) c1" "same_contents ents cap (expHistogramKeyToDimensions p) c2"
    "same_contents ents cap (callMetricKeyToDimensions p) c3" "same_contents ents cap (dbCallMetricKeyToDimensions p) c4"
    "same_contents ents cap (externalCallMetricKeyToDimensions p) c5"
  using assms unfolding cache_equiv_def by blast

lemma cache_equiv_trans: "cache_equiv ents cap p q \<Longrightarrow> cache_equiv ents cap q r \<Longrightarrow> cache_equiv ents cap p r"
  by (erule cache_equiv_obtain, erule cache_equiv_obtain)
    (auto simp: cache_equiv_def intro: same_contents_trans)

lemma latency_point_equiv: "cache_equiv ents cap p q \<Longrightarrow> latency_point env q = latency_point env p"
  by (erule cache_equiv_obtain) (simp add: latency_point_def point_times_def fun_eq_iff)

lemma call_point_equiv: "cache_equiv ents cap p q \<Longrightarrow> call_point env q = call_point env p"
  by (erule cache_equiv_obtain) (simp add: call_point_def point_times_def fun_eq_iff)

lemma exp_data_point_equiv: "cache_equiv ents cap p q \<Longrightarrow> exp_data_point env q = exp_data_point env p"
  by (erule cache_equiv_obtain) (simp add: exp_data_point_def point_times_def fun_eq_iff)

lemma sum_and_count_equiv: "cache_equiv ents cap p q \<Longrightarrow> sum_and_count env q = sum_and_count env p"
  by (erule cache_equiv_obtain) (simp add: sum_and_count_def point_times_def fun_eq_iff)

lemma cache_equiv_inv: "cache_equiv ents cap p q \<Longrightarrow> sm_inv ents q \<longleftrightarrow> sm_inv ents p"
  by (erule cache_equiv_obtain) (simp add: sm_inv_def covered_same)

lemma metrics_equiv:
  assumes "cache_equiv ents cap p q"
  shows "call_metrics env ents q = call_metrics env ents p" and "latency_metrics env ents q = latency_metrics env ents p"
    and "external_metrics env ents q = external_metrics env ents p" and "db_metrics env ents q = db_metrics env ents p"
    and "exp_metrics env ents q = exp_metrics env ents p"
  unfolding metric_parts call_point_equiv [OF assms] exp_data_point_equiv [OF assms] latency_point_equiv [OF assms] sum_and_count_equiv [OF assms]
  by (rule cache_equiv_obtain [OF assms]; simp add: points_same Let_def)+

lemma collect_loop_spec:
  assumes "lru_laws L ents cap" and "covered ents c hs"
  shows "\<exists>c'. collect_loop L mk hs c = (Inr (points ents c mk hs), c') \<and> same_contents ents cap c c'"
  using collect_loop_points [OF assms, of mk]
  by (cases "collect_loop L mk hs c") (simp add: points_def same_contents_def)

lemma collectCall_spec:
  assumes "lru_laws (lruOps env) ents cap" and "sm_inv ents p"
  shows "\<exists>q. collectCallMetrics env p = (Inr (call_metrics env ents p), q) \<and> cache_equiv ents cap p q"
proof -
  have "covered ents (callMetricKeyToDimensions p) (callHistograms p)"
    using assms(2) by (simp add: sm_inv_def)
  from collect_loop_spec [OF assms(1) this] obtain c' where
    "collect_loop (lruOps env) (call_point env p)
       (callHistograms p) (callMetricKeyToDimensions p) =
     (Inr (points ents (callMetricKeyToDimensions p) (call_point env p)
       (callHistograms p)), c')" "same_contents ents cap (callMetricKeyToDimensions p) c'"
    by blast
  then show ?thesis
    by (simp add: collectCallMetrics_def call_metrics_def cache_equiv_def Let_def)
qed

lemma collectLatency_spec:
  assumes "lru_laws (lruOps env) ents cap" and "sm_inv ents p"
  shows "\<exists>q. collectLatencyMetrics env p = (Inr (latency_metrics env ents p), q) \<and> cache_equiv ents cap p q"
proof -
  have "covered ents (metricKeyToDimensions p) (histograms p)"
    using assms(2) by (simp add: sm_inv_def)
  from collect_loop_spec [OF assms(1) this] obtain c' where
    "collect_loop (lruOps env) (latency_point env p)
       (histograms p) (metricKeyToDimensions p) =
     (Inr (points ents (metricKeyToDimensions p) (latency_point env p)
       (histograms p)), c')" "same_contents ents cap (metricKeyToDimensions p) c'"
    by blast
  then show ?thesis
    by (simp add: collectLatencyMetrics_def latency_metrics_def cache_equiv_def Let_def)
qed

lemma collectExternal_spec:
  assumes "lru_laws (lruOps env) ents cap" and "sm_inv ents p"
  shows "\<exists>q. collectExternalCallMetrics env p = (Inr (external_metrics env ents p), q) \<and> cache_equiv ents cap p q"
proof -
  have "covered ents (externalCallMetricKeyToDimensions p) (externalCallHistograms p)"
    using assms(2) by (simp add: sm_inv_def)
  from collect_loop_spec [OF assms(1) this] obtain c' where
    "collect_loop (lruOps env) (sum_and_count env p ''signoz_external_call_latency'')
       (externalCallHistograms p) (externalCallMetricKeyToDimensions p) =
     (Inr (points ents (externalCallMetricKeyToDimensions p) (sum_and_count env p ''signoz_external_call_latency'')
       (externalCallHistograms p)), c')" "same_contents ents cap (externalCallMetricKeyToDimensions p) c'"
    by blast
  then show ?thesis
    by (simp add: collectExternalCallMetrics_def external_metrics_def cache_equiv_def Let_def)
qed

lemma collectDB_spec:
  assumes "lru_laws (lruOps env) ents cap" and "sm_inv ents p"
  shows "\<exists>q. collectDBCallMetrics env p = (Inr (db_metrics env ents p), q) \<and> cache_equiv ents cap p q"
proof -
  have "covered ents (dbCallMetricKeyToDimensions p) (dbCallHistograms p)"
    using assms(2) by (simp add: sm_inv_def)
  from collect_loop_spec [OF assms(1) this] obtain c' where
    "collect_loop (lruOps env) (sum_and_count env p ''signoz_db_latency'')
       (dbCallHistograms p) (dbCallMetricKeyToDimensions p) =
     (Inr (points ents (dbCallMetricKeyToDimensions p) (sum_and_count env p ''signoz_db_latency'')
       (dbCallHistograms p)), c')" "same_contents ents cap (dbCallMetricKeyToDimensions p) c'"
    by blast
  then show ?thesis
    by (simp add: collectDBCallMetrics_def db_metrics_def cache_equiv_def Let_def)
qed

lemma collectExp_spec:
  assumes "lru_laws (lruOps env) ents cap" and "sm_inv ents p"
  shows "\<exists>q. collectExpHistogramMetrics env p = (Inr (exp_metrics env ents p), q) \<and> cache_equiv ents cap p q"
proof -
  have "covered ents (expHistogramKeyToDimensions p) (expHistograms p)"
    using assms(2) by (simp add: sm_inv_def)
  from collect_loop_spec [OF assms(1) this] obtain c' where
    "collect_loop (lruOps env) (exp_data_point env p)
       (expHistograms p) (expHistogramKeyToDimensions p) =
     (Inr (points ents (expHistogramKeyToDimensions p) (exp_data_point env p)
       (expHistograms p)), c')" "same_contents ents cap (expHistogramKeyToDimensions p) c'"
    by blast
  then show ?thesis
    by (simp add: collectExpHistogramMetrics_def exp_metrics_def cache_equiv_def Let_def)
qed

text \<open>One more collector after some that succeeded.\<close>

lemma then_collect_spec:
  assumes "x = (Inr ms, q)" and "cache_equiv ents cap p q" and "sm_inv ents p"
    and "\<And>q. sm_inv ents q \<Longrightarrow> \<exists>r. f q = (Inr (g q), r) \<and> cache_equiv ents cap q r"
    and "\<And>q. cache_equiv ents cap p q \<Longrightarrow> g q = g p"
  shows "\<exists>r. then_collect x f = (Inr (ms @ g p), r) \<and> cache_equiv ents cap p r"
proof -
  obtain r where "f q = (Inr (g q), r)" "cache_equiv ents cap q r"
    using assms(4) [of q] cache_equiv_inv [OF assms(2)] assms(3) by blast
  then show ?thesis
    using assms(1) assms(5) [OF assms(2)] cache_equiv_trans [OF assms(2)] by (auto simp: then_collect_def)
qed

lemma collect_all_spec:
  assumes L: "lru_laws (lruOps env) ents cap" and inv: "sm_inv ents p"
  shows "\<exists>q. collect_all env p = (Inr (metrics_spec env ents p), q) \<and> cache_equiv ents cap p q"
proof -
  obtain q1 where 1: "collectCallMetrics env p = (Inr (call_metrics env ents p), q1)" "cache_equiv ents cap p q1"
    using collectCall_spec [OF L inv] by blast
  obtain q2 where 2: "then_collect (collectCallMetrics env p) (collectLatencyMetrics env) =
      (Inr (call_metrics env ents p @ latency_metrics env ents p), q2)" "cache_equiv ents cap p q2"
    using then_collect_spec [OF 1 inv, where f = "collectLatencyMetrics env" and g = "latency_metrics env ents"]
      collectLatency_spec [OF L] metrics_equiv(2) by blast
  obtain q3 where 3: "then_collect (then_collect (collectCallMetrics env p) (collectLatencyMetrics env))
      (collectExternalCallMetrics env) =
      (Inr ((call_metrics env ents p @ latency_metrics env ents p) @ external_metrics env ents p), q3)"
      "cache_equiv ents cap p q3"
    using then_collect_spec [OF 2 inv, where f = "collectExternalCallMetrics env" and g = "external_metrics env ents"]
      collectExternal_spec [OF L] metrics_equiv(3) by blast
  obtain q4 where 4: "then_collect (then_collect (then_collect (collectCallMetrics env p) (collectLatencyMetrics env))
      (collectExternalCallMetrics env)) (collectDBCallMetrics env) =
      (Inr (((call_metrics env ents p @ latency_metrics env ents p) @ external_metrics env ents p) @
            db_metrics env ents p), q4)" "cache_equiv ents cap p q4"
    using then_collect_spec [OF 3 inv, where f = "collectDBCallMetrics env" and g = "db_metrics env ents"]
      collectDB_spec [OF L] metrics_equiv(4) by blast
  show ?thesis
    unfolding collect_all_def metrics_spec_def
    using then_collect_spec [OF 4 inv, where f = "collectExpHistogramMetrics env" and g = "exp_metrics env ents"]
      collectExp_spec [OF L] metrics_equiv(5) [where p = p] by (simp only: append_assoc)
qed

text \<open>The sizes of the five families, and the capacities of their caches.\<close>

definition family_sizes :: "('l, 'f, 'h) span_metrics \<Rightarrow> nat list" where
  "family_sizes p = [length (histograms p), length (callHistograms p), length (dbCallHistograms p),
     length (externalCallHistograms p), length (expHistograms p)]"

definition capacities :: "('l \<Rightarrow> nat) \<Rightarrow> ('l, 'f, 'h) span_metrics \<Rightarrow> nat list" where
  "capacities cap p = map (cap \<circ> lru) [metricKeyToDimensions p, callMetricKeyToDimensions p,
     dbCallMetricKeyToDimensions p, externalCallMetricKeyToDimensions p, expHistogramKeyToDimensions p]"

lemma remove_evicted_lru [simp]: "lru (RemoveEvictedItems c) = lru c"
  by (simp add: RemoveEvictedItems_def)

lemma distinct_prune: "distinct (map fst hs) \<Longrightarrow> distinct (map fst (prune L c hs))"
  by (simp add: prune_def distinct_map_filter)

lemma drop_evicted_ok:
  assumes L: "lru_laws (lruOps env) ents cap" and inv: "sm_inv ents p"
  shows "sm_inv ents (drop_evicted env p) \<and>
    list_all2 (\<le>) (family_sizes (drop_evicted env p)) (capacities cap p) \<and>
    capacities cap (drop_evicted env p) = capacities cap p"
proof -
  have d: "distinct (map fst (histograms p))" "distinct (map fst (callHistograms p))"
    "distinct (map fst (dbCallHistograms p))" "distinct (map fst (externalCallHistograms p))"
    "distinct (map fst (expHistograms p))"
    using inv by (simp_all add: sm_inv_def fam_ok_def)
  have "sm_inv ents (drop_evicted env p)"
    using inv d by (simp add: sm_inv_def drop_evicted_def fam_ok_prune covered_prune [OF L] distinct_prune Let_def)
  moreover have "list_all2 (\<le>) (family_sizes (drop_evicted env p)) (capacities cap p)"
    using d by (auto simp: drop_evicted_def family_sizes_def capacities_def Let_def intro: order_trans [OF prune_length [OF L]])
  moreover have "capacities cap (drop_evicted env p) = capacities cap p"
    by (simp add: drop_evicted_def capacities_def Let_def)
  ultimately show ?thesis by blast
qed

lemma resetExemplarData_ok:
  "sm_inv ents (resetExemplarData p) = sm_inv ents p"
  "family_sizes (resetExemplarData p) = family_sizes p" "capacities cap (resetExemplarData p) = capacities cap p"
  by (simp_all add: resetExemplarData_def sm_inv_def family_sizes_def capacities_def)

lemma resetAccumulated_ok:
  assumes L: "lru_laws (lruOps env) ents cap" and inv: "sm_inv ents p"
  shows "sm_inv ents (resetAccumulatedMetrics env p)"
    and "family_sizes (resetAccumulatedMetrics env p) = [0, 0, 0, 0, 0]"
    and "capacities cap (resetAccumulatedMetrics env p) = capacities cap p"
  using inv
  by (simp_all add: resetAccumulatedMetrics_def sm_inv_def family_sizes_def capacities_def fam_ok_def
      cache_cap [OF L])

text \<open>What a flush does not change.\<close>

definition stable_part ::
  "('l, 'f, 'h) span_metrics \<Rightarrow> string \<times> sm_config \<times> 'f list \<times> (string \<times> string) list \<times> limits \<times> traces list" where
  "stable_part p = (instanceID p, config p, latencyBounds p, excludePatternRegex p, sm_limits p, forwarded p)"

lemma cache_equiv_stable:
  "cache_equiv ents cap p q \<Longrightarrow> stable_part q = stable_part p \<and> exported q = exported p \<and>
     capacities cap q = capacities cap p"
  by (erule cache_equiv_obtain) (simp add: stable_part_def capacities_def same_contents_def)

lemma exportMetrics_ok:
  assumes L: "lru_laws (lruOps env) ents cap" and inv: "sm_inv ents p"
  shows "\<exists>p'. exportMetrics env p = p' \<and> sm_inv ents p' \<and> stable_part p' = stable_part p \<and>
    exported p' = exported p @ [Some (metrics_spec env ents p)] \<and>
    list_all2 (\<le>) (family_sizes p') (capacities cap p) \<and> capacities cap p' = capacities cap p \<and>
    (GetAggregationTemporality (config p) = Delta \<longrightarrow> family_sizes p' = [0, 0, 0, 0, 0])"
proof -
  obtain q where q: "collect_all env p = (Inr (metrics_spec env ents p), q)" "cache_equiv ents cap p q"
    using collect_all_spec [OF L inv] by blast
  have invq: "sm_inv ents q" using cache_equiv_inv [OF q(2)] inv by simp
  note sq = cache_equiv_stable [OF q(2)]
  note dq = drop_evicted_ok [OF L invq]
  have fix_drop: "stable_part (drop_evicted env q) = stable_part q" "exported (drop_evicted env q) = exported q"
    by (simp_all add: drop_evicted_def stable_part_def Let_def)
  define r where "r = (if GetAggregationTemporality (config (drop_evicted env q)) = Delta
                       then resetAccumulatedMetrics env (drop_evicted env q) else drop_evicted env q)"
  have cfg: "config (drop_evicted env q) = config p" using fix_drop(1) sq by (simp add: stable_part_def)
  have r: "sm_inv ents r" "stable_part r = stable_part p" "exported r = exported p"
      "capacities cap r = capacities cap p" "list_all2 (\<le>) (family_sizes r) (capacities cap p)"
      "GetAggregationTemporality (config p) = Delta \<longrightarrow> family_sizes r = [0, 0, 0, 0, 0]"
  proof -
    have stable_reset: "stable_part (resetAccumulatedMetrics env x) = stable_part x"
      "exported (resetAccumulatedMetrics env x) = exported x" for x :: "('a, 'b, 'c) span_metrics"
      by (simp_all add: resetAccumulatedMetrics_def stable_part_def)
    note ra = resetAccumulated_ok [OF L conjunct1 [OF dq]]
    show "sm_inv ents r" using dq ra by (simp add: r_def)
    show "stable_part r = stable_part p" "exported r = exported p"
      using fix_drop sq stable_reset by (simp_all add: r_def)
    show "capacities cap r = capacities cap p" using dq ra sq by (simp add: r_def)
    show "GetAggregationTemporality (config p) = Delta \<longrightarrow> family_sizes r = [0, 0, 0, 0, 0]"
      using ra cfg by (simp add: r_def)
    show "list_all2 (\<le>) (family_sizes r) (capacities cap p)"
      using dq ra sq cfg by (auto simp: r_def capacities_def)
  qed
  have "exportMetrics env p =
      (resetExemplarData (resetExemplarData r))\<lparr>exported := exported p @ [Some (metrics_spec env ents p)]\<rparr>"
    using q(1) r(3) by (simp add: exportMetrics_def buildMetrics_def r_def [symmetric] Let_def resetExemplarData_def)
  then show ?thesis
    using r by (simp add: resetExemplarData_def sm_inv_def stable_part_def family_sizes_def capacities_def)
qed

end
