(* ===== verification/SpanMetricsTheorems.thy ===== *)
theory SpanMetricsTheorems
  imports SpanMetricsProps
begin

text \<open>
  The properties of the span metrics processor. The witnesses run it on a concrete LRU cache,
  with integers for floating-point numbers.
\<close>

section \<open>Runs\<close>

text \<open>
  The states a processor reaches from its creation by consuming traces and by exporting, in
  any order; the clock and the other parts of the environment may differ from step to step,
  the LRU library is the same.
\<close>

inductive sm_run ::
  "('l, string, attrs) lru_ops \<Rightarrow> ('l, 'f::{linorder,plus,zero}, 'h) span_metrics \<Rightarrow>
   ('l, 'f, 'h) span_metrics \<Rightarrow> bool" for L p0 where
  sm_start: "sm_run L p0 p0"
| sm_consume: "sm_run L p0 p \<Longrightarrow> lruOps env = L \<Longrightarrow> sm_ConsumeTraces env td p = Done p' \<Longrightarrow> sm_run L p0 p'"
| sm_export: "sm_run L p0 p \<Longrightarrow> lruOps env = L \<Longrightarrow> sm_run L p0 (exportMetrics env p)"

definition sane_limits :: "sm_config \<Rightarrow> bool" where
  "sane_limits cfg \<longleftrightarrow> 0 \<le> maxServicesToTrack cfg \<and> 0 \<le> maxOperationsToTrackPerService cfg"

lemma newProcessor_inv:
  assumes "newProcessor env now iid cfg = Done (Inr p)" and "sane_limits cfg"
  shows "sm_inv ents p"
  using assms
  by (auto simp: newProcessor_def sm_inv_def fam_ok_def tracked_ok_def within_def sane_limits_def Let_def
      split: option.splits if_splits sum.splits)

lemma newProcessor_caps:
  assumes "newProcessor env now iid cfg = Done (Inr p)" and "lru_laws (lruOps env) ents cap"
  shows "capacities cap p = replicate 5 (nat (dimensionsCacheSize cfg))"
proof -
  have "lruNew (lruOps env) n = Inr l \<Longrightarrow> cap l = nat n" for n l
    using assms(2) unfolding lru_laws_def by blast
  then show ?thesis
    using assms(1)
    by (auto simp: newProcessor_def capacities_def NewCache_def Let_def numeral_eq_Suc
        split: option.splits if_splits sum.splits)
qed

lemma capacities_fixed: "fixed_part cap p' = fixed_part cap p \<Longrightarrow> capacities cap p' = capacities cap p"
  by (simp add: fixed_part_def capacities_def)

lemma consume_ok:
  assumes L: "lru_laws (lruOps env) ents cap" and inv: "sm_inv ents p"
  shows "\<exists>p'. sm_ConsumeTraces env td p = Done p' \<and> sm_inv ents p' \<and> capacities cap p' = capacities cap p \<and>
    config p' = config p \<and> sm_limits p' = sm_limits p \<and> latencyBounds p' = latencyBounds p \<and>
    forwarded p' = forwarded p @ [map (forward_mark (instanceID p)) td] \<and>
    same_counts p p' (of_nat (length (accepted_spans env (config p) (excludePatternRegex p) (instanceID p) td)))"
proof -
  obtain p1 where p1: "aggregateMetrics env td p = Done (map (forward_mark (instanceID p)) td, p1)"
      "sm_inv ents p1" "fixed_part cap p1 = fixed_part cap p"
      "same_counts p p1 (of_nat (length (accepted_spans env (config p) (excludePatternRegex p) (instanceID p) td)))"
    using aggregateMetrics_ok [OF L inv] by blast
  let ?p = "p1\<lparr>forwarded := forwarded p1 @ [map (forward_mark (instanceID p)) td]\<rparr>"
  have "sm_ConsumeTraces env td p = Done ?p" using p1(1) by (simp add: sm_ConsumeTraces_def)
  moreover have "sm_inv ents ?p" using p1(2) by (simp add: sm_inv_def)
  moreover have "capacities cap ?p = capacities cap p"
    using capacities_fixed [OF p1(3)] by (simp add: capacities_def)
  ultimately show ?thesis using p1(4) fixed_part_parts [OF p1(3)] by (simp add: same_counts_def)
qed

lemma sm_run_inv:
  assumes "sm_run L p0 p" and "lru_laws L ents cap" and "sm_inv ents p0"
  shows "sm_inv ents p \<and> capacities cap p = capacities cap p0 \<and> config p = config p0 \<and>
    sm_limits p = sm_limits p0 \<and> latencyBounds p = latencyBounds p0"
  using assms
proof (induction rule: sm_run.induct)
  case (sm_consume p e td p')
  then have L: "lru_laws (lruOps e) ents cap" and inv: "sm_inv ents p" by simp_all
  show ?case using consume_ok [OF L inv, of td] sm_consume by auto
next
  case (sm_export p e)
  then have L: "lru_laws (lruOps e) ents cap" and inv: "sm_inv ents p" by simp_all
  show ?case using exportMetrics_ok [OF L inv] sm_export by (auto simp: stable_part_def)
qed simp

text \<open>The hypotheses the properties of runs share, and what they give in the state that is reached.\<close>

lemma reachable_inv:
  assumes "newProcessor env0 now iid cfg = Done (Inr p0)" and "sane_limits cfg"
    and "lru_laws (lruOps env0) ents cap" and "sm_run (lruOps env0) p0 p"
  shows "sm_inv ents p" and "capacities cap p = replicate 5 (nat (dimensionsCacheSize cfg))"
  using sm_run_inv [OF assms(4,3) newProcessor_inv [OF assms(1,2)]] newProcessor_caps [OF assms(1,3)]
  by simp_all

section \<open>Example data\<close>

text \<open>
  An LRU cache for the witnesses: a capacity (one more than the number) and the entries, the
  newest first; adding drops what is beyond the capacity. It satisfies \<^const>\<open>lru_laws\<close>.
\<close>

type_synonym 'v small_lru = "nat \<times> (string \<times> 'v) list"

definition small_entries :: "'v small_lru \<Rightarrow> string \<rightharpoonup> 'v" where
  "small_entries l = map_of (take (Suc (fst l)) (snd l))"

definition small_cap :: "'v small_lru \<Rightarrow> nat" where
  "small_cap l = Suc (fst l)"

definition small_next :: "'v small_lru \<Rightarrow> string \<Rightarrow> 'v \<Rightarrow> (string \<times> 'v) list" where
  "small_next l k v = AList.clearjunk ((k, v) # take (Suc (fst l)) (snd l))"

definition small_lru :: "('v small_lru, string, 'v) lru_ops" where
  "small_lru =
     \<lparr>lruGet = (\<lambda>l k. (small_entries l k, l)),
      lruAdd = (\<lambda>l k v. (drop (Suc (fst l)) (small_next l k v), (fst l, take (Suc (fst l)) (small_next l k v)))),
      lruContains = (\<lambda>l k. small_entries l k \<noteq> None),
      lruLen = (\<lambda>l. card (dom (small_entries l))),
      lruPurge = (\<lambda>l. (snd l, (fst l, []))),
      lruNew = (\<lambda>n. if n \<le> 0 then Inl ''must provide a positive size'' else Inr (nat n - 1, []))\<rparr>"

lemma small_card: "card (dom (small_entries l)) \<le> Suc (fst l)"
proof -
  have "card (dom (small_entries l)) = card (fst ` set (take (Suc (fst l)) (snd l)))"
    by (simp add: small_entries_def dom_map_of_conv_image_fst)
  also have "\<dots> \<le> length (take (Suc (fst l)) (snd l))"
    by (metis card_length length_map set_map)
  finally show ?thesis by simp
qed

lemma distinct_split_restrict:
  assumes "distinct (map fst (xs @ ys))"
  shows "map_of xs = (map_of (xs @ ys)) |` (- fst ` set ys)"
proof
  fix x
  show "map_of xs x = (map_of (xs @ ys) |` (- fst ` set ys)) x"
  proof (cases "x \<in> fst ` set ys")
    case True
    then show ?thesis using assms by (auto simp: map_of_eq_None_iff)
  next
    case False
    then have "map_of ys x = None" by (simp add: map_of_eq_None_iff)
    then show ?thesis using False by (simp add: map_add_def split: option.split)
  qed
qed

lemma small_next_hd: "\<exists>tl. small_next l k v = (k, v) # tl"
  by (simp add: small_next_def)

lemma small_add_law:
  assumes "lruAdd small_lru l k v = (es, l')"
  shows "small_entries l' = ((small_entries l)(k \<mapsto> v)) |` (- fst ` set es) \<and> small_cap l' = small_cap l \<and>
    (\<forall>(x, w) \<in> set es. x \<noteq> k \<and> small_entries l x = Some w)"
proof -
  let ?n = "small_next l k v"
  let ?kept = "take (Suc (fst l)) ?n"
  have es: "es = drop (Suc (fst l)) ?n" "l' = (fst l, ?kept)" using assms by (simp_all add: small_lru_def)
  have dist: "distinct (map fst ?n)" unfolding small_next_def by (rule distinct_clearjunk)
  have whole: "map_of ?n = (small_entries l)(k \<mapsto> v)"
    unfolding small_next_def small_entries_def map_of_clearjunk by simp
  have split: "?kept @ es = ?n" by (simp add: es)
  have dist2: "distinct (map fst (?kept @ es))" using dist by (simp add: split)
  have "small_entries l' = ((small_entries l)(k \<mapsto> v)) |` (- fst ` set es)"
    using distinct_split_restrict [OF dist2] whole by (simp only: split) (simp add: es small_entries_def)
  moreover have "x \<noteq> k \<and> small_entries l x = Some w" if "(x, w) \<in> set es" for x w
  proof -
    have "(k, v) \<in> set ?kept" using small_next_hd [of l k v] by auto
    then have "k \<in> fst ` set ?kept" by force
    moreover have "x \<in> fst ` set es" using that by force
    ultimately have "x \<noteq> k" using dist2 by auto
    moreover have "map_of ?n x = Some w" using that dist by (simp add: es(1) map_of_eq_Some_iff in_set_dropD)
    ultimately show ?thesis using whole by simp
  qed
  ultimately show ?thesis by (auto simp: small_cap_def es)
qed

lemma small_lru_laws: "lru_laws small_lru small_entries small_cap"
  unfolding lru_laws_def
proof (intro conjI, goal_cases)
  case 4
  show ?case using small_add_law by blast
qed (auto simp: small_lru_def small_entries_def small_cap_def small_card [unfolded small_entries_def] finite_dom_map_of
      split: if_splits)

definition ex_key_env :: key_env where
  "ex_key_env = \<lparr>asString = val_str, kindString = (\<lambda>k. ''Server''), statusString = (\<lambda>s. ''Ok''),
     rxValid = (\<lambda>r. True), rxMatch = (\<lambda>r s. r = s), isLetter = (\<lambda>r. 97 \<le> r \<and> r \<le> 122),
     isDigit = (\<lambda>r. 48 \<le> r \<and> r \<le> 57), urlHost = Some\<rparr>"

definition ex_sm_env :: "(attrs small_lru, int, nat) sm_env" where
  "ex_sm_env = \<lparr>keyEnv = ex_key_env, toMillis = (\<lambda>d. uint d div 1000000), boundMillis = (\<lambda>d. d div 1000000),
     defaultBounds = [2, 4], spanClock = (\<lambda>sp. 50), pointClock = (\<lambda>m k. 60),
     expOps = \<lparr>expInit = 0, expUpdate = (\<lambda>h f. Suc h), expCount = of_nat, expSum = (\<lambda>h. 0), expMin = (\<lambda>h. 0),
       expMax = (\<lambda>h. 0), expZeroCount = of_nat, expScale = (\<lambda>h. 0), expPosOffset = (\<lambda>h. 0), expPosLen = (\<lambda>h. 0),
       expPosAt = (\<lambda>h i. 0), expNegOffset = (\<lambda>h. 0), expNegLen = (\<lambda>h. 0), expNegAt = (\<lambda>h i. 0)\<rparr>,
     lruOps = small_lru\<rparr>"

definition ex_sm_cfg :: "string \<Rightarrow> sm_config" where
  "ex_sm_cfg tmp = (createDefaultConfig False)\<lparr>aggregationTemporality := tmp, dimensionsCacheSize := 1\<rparr>"

definition sm_span :: "string \<Rightarrow> attrs \<Rightarrow> span" where
  "sm_span nm al = \<lparr>traceID = [1], spanID = [1], span_name = nm, span_kind = SpanKindServer,
     startTimestamp = 5, endTimestamp = 9, statusCode = StatusCodeOk, span_attrs = al, traceState = []\<rparr>"

definition sm_traces :: traces where
  "sm_traces = [\<lparr>resource_attrs = [(serviceNameKey, ValueStr ''shop'')],
     scopes = [\<lparr>scope_name = [], scope_spans_list = [sm_span ''a'' [], sm_span ''b'' []]\<rparr>]\<rparr>]"

lemma ex_sm_laws: "lru_laws (lruOps ex_sm_env) small_entries small_cap"
  using small_lru_laws by (simp add: ex_sm_env_def)

lemma ex_sm_sane: "sane_limits (ex_sm_cfg tmp)"
  by (simp add: sane_limits_def ex_sm_cfg_def createDefaultConfig_def)

lemma ex_sm_new: "\<exists>p. newProcessor ex_sm_env 0 ''id'' (ex_sm_cfg tmp) = Done (Inr p)"
  by (simp add: newProcessor_def ex_sm_env_def ex_sm_cfg_def createDefaultConfig_def validateDimensions_def
      NewCache_def small_lru_def Let_def)

section \<open>Aggregation and export\<close>

text \<open>
  C4: In every state the processor reaches, consuming a payload returns (no index is out of
  range), counts each span that is neither stale nor excluded exactly once in the latency
  family and exactly once in the calls family, and forwards the payload with nothing changed
  but the collector id put into each resource that names its service.
\<close>

theorem span_metrics_count_every_span:
  assumes "newProcessor env0 now iid cfg = Done (Inr p0)" and "sane_limits cfg"
    and "lru_laws (lruOps env0) ents cap" and "sm_run (lruOps env0) p0 p" and "lruOps env = lruOps env0"
  shows "\<exists>p'. sm_ConsumeTraces env td p = Done p' \<and>
    forwarded p' = forwarded p @ [map (forward_mark (instanceID p)) td] \<and>
    (let n = of_nat (length (accepted_spans env (config p) (excludePatternRegex p) (instanceID p) td))
     in observations (histograms p') = observations (histograms p) + n \<and>
        observations (callHistograms p') = observations (callHistograms p) + n)"
proof -
  have "lru_laws (lruOps env) ents cap" using assms(3,5) by simp
  from consume_ok [OF this reachable_inv(1) [OF assms(1-4)], of td] show ?thesis
    by (auto simp: same_counts_def)
qed

lemma ex_consume_counts:
  assumes "newProcessor ex_sm_env 0 ''id'' (ex_sm_cfg tmp) = Done (Inr p)"
  shows "accepted_spans ex_sm_env (config p) (excludePatternRegex p) (instanceID p) sm_traces =
    [sm_span ''a'' [], sm_span ''b'' []]"
  using assms
  by (auto simp: newProcessor_def ex_sm_env_def ex_sm_cfg_def createDefaultConfig_def validateDimensions_def
      NewCache_def small_lru_def sm_traces_def sm_span_def accepted_spans_def spans_of_resource_def accepted_def
      is_stale_def GetSkipSpansOlderThan_def serviceNameKey_def as_time_def Let_def)

theorem span_metrics_count_every_span_witness:
  "\<exists>p p'. newProcessor ex_sm_env 0 ''id'' (ex_sm_cfg []) = Done (Inr p) \<and>
     sm_ConsumeTraces ex_sm_env sm_traces p = Done p' \<and>
     observations (callHistograms p') = observations (callHistograms p) + 2"
proof -
  obtain p where p: "newProcessor ex_sm_env 0 ''id'' (ex_sm_cfg []) = Done (Inr p)" using ex_sm_new by blast
  from span_metrics_count_every_span [OF p ex_sm_sane ex_sm_laws sm_start refl, of sm_traces] p show ?thesis
    by (auto simp: ex_consume_counts [OF p])
qed



text \<open>
  After an export no family has more entries than the configured size of the dimension
  cache, and with delta temporality every family is empty.
\<close>

theorem span_metrics_memory_bounded:
  assumes "newProcessor env0 now iid cfg = Done (Inr p0)" and "sane_limits cfg"
    and "lru_laws (lruOps env0) ents cap" and "sm_run (lruOps env0) p0 p" and "lruOps env = lruOps env0"
  shows "(\<forall>n \<in> set (family_sizes (exportMetrics env p)). n \<le> nat (dimensionsCacheSize cfg)) \<and>
    (GetAggregationTemporality (config p) = Delta \<longrightarrow> family_sizes (exportMetrics env p) = [0, 0, 0, 0, 0])"
proof -
  have L: "lru_laws (lruOps env) ents cap" using assms(3,5) by simp
  note ok = exportMetrics_ok [OF this reachable_inv(1) [OF assms(1-4)]]
  have "list_all2 (\<le>) (family_sizes (exportMetrics env p)) (replicate 5 (nat (dimensionsCacheSize cfg)))"
    using ok reachable_inv(2) [OF assms(1-4)] by auto
  then have "\<forall>n \<in> set (family_sizes (exportMetrics env p)). n \<le> nat (dimensionsCacheSize cfg)"
    by (auto simp: list_all2_conv_all_nth in_set_conv_nth)
  then show ?thesis using ok by blast
qed

theorem span_metrics_memory_bounded_witness:
  "\<exists>p p'. newProcessor ex_sm_env 0 ''id'' (ex_sm_cfg []) = Done (Inr p) \<and>
     sm_ConsumeTraces ex_sm_env sm_traces p = Done p' \<and>
     (\<forall>n \<in> set (family_sizes (exportMetrics ex_sm_env p')). n \<le> 1)"
proof -
  obtain p where p: "newProcessor ex_sm_env 0 ''id'' (ex_sm_cfg []) = Done (Inr p)" using ex_sm_new by blast
  obtain p' where p': "sm_ConsumeTraces ex_sm_env sm_traces p = Done p'"
    using consume_ok [OF ex_sm_laws newProcessor_inv [OF p ex_sm_sane]] by blast
  have "nat (dimensionsCacheSize (ex_sm_cfg [])) = 1" by (simp add: ex_sm_cfg_def)
  then show ?thesis
    using p p' span_metrics_memory_bounded [OF p ex_sm_sane ex_sm_laws sm_consume [OF sm_start refl p'] refl]
    by auto
qed

text \<open>
  C39: In every state the processor reaches, each histogram has one bucket more than there are
  bounds, and its buckets add up to its count.
\<close>

theorem span_metrics_histograms_consistent:
  assumes "newProcessor env0 now iid cfg = Done (Inr p0)" and "sane_limits cfg"
    and "lru_laws (lruOps env0) ents cap" and "sm_run (lruOps env0) p0 p"
    and "(k, h) \<in> set (histograms p @ callHistograms p @ dbCallHistograms p @ externalCallHistograms p)"
  shows "length (bucketCounts h) = length (latencyBounds p) + 1 \<and> sum_list (bucketCounts h) = h_count h"
  using reachable_inv(1) [OF assms(1-4)] assms(5)
  by (auto simp: sm_inv_def fam_ok_def hist_ok_def)

lemma ex_consume_calls:
  "\<exists>p p' e es. newProcessor ex_sm_env 0 ''id'' (ex_sm_cfg []) = Done (Inr p) \<and>
     sm_ConsumeTraces ex_sm_env sm_traces p = Done p' \<and> callHistograms p' = e # es"
proof -
  obtain p where p: "newProcessor ex_sm_env 0 ''id'' (ex_sm_cfg []) = Done (Inr p)" using ex_sm_new by blast
  obtain p' where p': "sm_ConsumeTraces ex_sm_env sm_traces p = Done p'" "same_counts p p' 2"
    using consume_ok [OF ex_sm_laws newProcessor_inv [OF p ex_sm_sane], of sm_traces]
    by (auto simp: ex_consume_counts [OF p])
  have "callHistograms p = []"
    using p by (auto simp: newProcessor_def Let_def split: option.splits if_splits sum.splits)
  then have "callHistograms p' \<noteq> []" using p'(2) by (auto simp: same_counts_def observations_def)
  then show ?thesis using p p'(1) by (meson list.exhaust)
qed

theorem span_metrics_histograms_consistent_witness:
  "\<exists>p p' k h. newProcessor ex_sm_env 0 ''id'' (ex_sm_cfg []) = Done (Inr p) \<and>
     sm_ConsumeTraces ex_sm_env sm_traces p = Done p' \<and> (k, h) \<in> set (callHistograms p') \<and>
     sum_list (bucketCounts h) = h_count h"
proof -
  obtain p p' k h es where p: "newProcessor ex_sm_env 0 ''id'' (ex_sm_cfg []) = Done (Inr p)"
    and p': "sm_ConsumeTraces ex_sm_env sm_traces p = Done p'" and e: "callHistograms p' = (k, h) # es"
    using ex_consume_calls by (metis surj_pair)
  have "(k, h) \<in> set (histograms p' @ callHistograms p' @ dbCallHistograms p' @ externalCallHistograms p')"
    by (simp add: e)
  from span_metrics_histograms_consistent [OF p ex_sm_sane ex_sm_laws sm_consume [OF sm_start refl p'] this]
  show ?thesis using p p' e by (intro exI [of _ p] exI [of _ p'] exI [of _ k] exI [of _ h]) simp
qed

text \<open>
  The services tracked never exceed the limit by more than two, nor do the operations of any
  service: one entry arrives at the limit and one is the overflow name.
\<close>

theorem span_metrics_cardinality_bounded:
  assumes "newProcessor env0 now iid cfg = Done (Inr p0)" and "sane_limits cfg"
    and "lru_laws (lruOps env0) ents cap" and "sm_run (lruOps env0) p0 p"
  shows "int (length (serviceToOperations p)) \<le> maxServicesToTrack cfg + 2 \<and>
    (\<forall>(s, ops) \<in> set (serviceToOperations p). int (length ops) \<le> maxOperationsToTrackPerService cfg + 2)"
proof -
  have lim: "sm_limits p = \<lparr>maxNumberOfServicesToTrack = maxServicesToTrack cfg,
      maxNumberOfOperationsToTrackPerService = maxOperationsToTrackPerService cfg\<rparr>"
    using sm_run_inv [OF assms(4,3) newProcessor_inv [OF assms(1,2)]] assms(1)
    by (auto simp: newProcessor_def Let_def split: option.splits if_splits sum.splits)
  have "tracked_ok (sm_limits p) (serviceToOperations p)"
    using reachable_inv(1) [OF assms(1-4)] by (simp add: sm_inv_def)
  then show ?thesis by (auto simp: tracked_ok_def within_def lim)
qed

theorem span_metrics_cardinality_bounded_witness:
  "\<exists>p p'. newProcessor ex_sm_env 0 ''id'' (ex_sm_cfg []) = Done (Inr p) \<and>
     sm_ConsumeTraces ex_sm_env sm_traces p = Done p' \<and> length (serviceToOperations p') \<le> 258"
proof -
  obtain p p' where p: "newProcessor ex_sm_env 0 ''id'' (ex_sm_cfg []) = Done (Inr p)"
    and p': "sm_ConsumeTraces ex_sm_env sm_traces p = Done p'"
    using ex_consume_calls by blast
  from span_metrics_cardinality_bounded [OF p ex_sm_sane ex_sm_laws sm_consume [OF sm_start refl p']] p p'
  show ?thesis by (auto simp: ex_sm_cfg_def createDefaultConfig_def)
qed

end
