(* ===== verification/SpanMetricsKeyTheorems.thy ===== *)
theory SpanMetricsKeyTheorems
  imports SpanMetricsTheorems
begin

text \<open>
  The properties of metric keys, time buckets, dimension names, remote addresses, histogram
  buckets and the dimension cache.
\<close>

section \<open>The shape of a key\<close>

lemma key_dims_append: "key_dims E ds al ra dest = dest @ key_dims E ds al ra []"
proof (induction ds arbitrary: dest)
  case (Cons d ds)
  show ?case
  proof (cases "getDimensionValue d al ra")
    case None
    then show ?thesis using Cons.IH [of dest] by simp
  next
    case (Some v)
    then show ?thesis
      using Cons.IH [of "concatDimensionValue dest (asString E v) True"]
        Cons.IH [of "concatDimensionValue [] (asString E v) True"]
      by (simp add: concatDimensionValue_def)
  qed
qed simp

lemma key_dims_head: "key_dims E ds al ra [] = [] \<or> hd (key_dims E ds al ra []) = sep"
proof (induction ds)
  case (Cons d ds)
  show ?case
  proof (cases "getDimensionValue d al ra")
    case None
    then show ?thesis using Cons by simp
  next
    case (Some v)
    then have "key_dims E (d # ds) al ra [] = key_dims E ds al ra (sep # asString E v)"
      by (simp add: concatDimensionValue_def)
    also have "\<dots> = (sep # asString E v) @ key_dims E ds al ra []"
      by (rule key_dims_append)
    finally show ?thesis by simp
  qed
qed simp

lemma buildKey_shape:
  "overflow_names lim sto service (span_name sp) = (s, n) \<Longrightarrow>
   fst (buildKey E lim dest service sp dims ra sto) =
     dest @ s @ sep # n @ sep # SpanKindStr (span_kind sp) @ sep # StatusCodeStr (statusCode sp) @
     key_dims E dims (span_attrs sp) ra []"
  by (simp add: buildKey_def concatDimensionValue_def Let_def key_dims_append [of E dims "span_attrs sp" ra
      "dest @ s @ sep # n @ sep # SpanKindStr (span_kind sp) @ sep # StatusCodeStr (statusCode sp)"])

lemma SpanKindStr_no_sep: "sep \<notin> set (SpanKindStr k)"
  by (cases k) (simp_all add: sep_def)

lemma StatusCodeStr_no_sep: "sep \<notin> set (StatusCodeStr c)"
  by (cases c) (simp_all add: sep_def)

lemma takeWhile_stop: "x \<notin> set xs \<Longrightarrow> us = [] \<or> hd us = x \<Longrightarrow> takeWhile (\<lambda>c. c \<noteq> x) (xs @ us) = xs"
  by (induction xs) (cases us; auto)+

lemma split_at_end:
  assumes "x \<notin> set xs" "x \<notin> set ys" "us = [] \<or> hd us = x" "vs = [] \<or> hd vs = x" "xs @ us = ys @ vs"
  shows "xs = ys"
  using takeWhile_stop [OF assms(1,3)] takeWhile_stop [OF assms(2,4)] assms(5) by simp

lemma split_at_sep:
  assumes "x \<notin> set xs" "x \<notin> set ys" "xs @ x # us = ys @ x # vs"
  shows "xs = ys \<and> us = vs"
  using split_at_end [OF assms(1,2) _ _ assms(3)] assms(3) by simp

lemma overflow_names_no_sep:
  assumes "overflow_names lim sto service op = (s, n)" and "sep \<notin> set service" and "sep \<notin> set op"
  shows "sep \<notin> set s" and "sep \<notin> set n"
  using assms
  by (auto simp: overflow_names_def overflowServiceName_def overflowOperation_def sep_def Let_def split: if_splits)

text \<open>
  When neither service names nor span names contain a zero byte, two spans that share a metric
  key agree on the service and operation recorded for them, on the span kind and on the status.
\<close>

theorem metric_key_determines_span:
  assumes "fst (buildKey E lim dest service1 sp1 dims1 ra1 sto1) = fst (buildKey E lim dest service2 sp2 dims2 ra2 sto2)"
    and "sep \<notin> set service1" and "sep \<notin> set service2"
    and "sep \<notin> set (span_name sp1)" and "sep \<notin> set (span_name sp2)"
  shows "overflow_names lim sto1 service1 (span_name sp1) = overflow_names lim sto2 service2 (span_name sp2) \<and>
    SpanKindStr (span_kind sp1) = SpanKindStr (span_kind sp2) \<and>
    StatusCodeStr (statusCode sp1) = StatusCodeStr (statusCode sp2)"
proof -
  obtain s1 n1 where o1: "overflow_names lim sto1 service1 (span_name sp1) = (s1, n1)" by fastforce
  obtain s2 n2 where o2: "overflow_names lim sto2 service2 (span_name sp2) = (s2, n2)" by fastforce
  note ns = overflow_names_no_sep [OF o1 assms(2,4)] overflow_names_no_sep [OF o2 assms(3,5)]
  have "s1 @ sep # n1 @ sep # SpanKindStr (span_kind sp1) @ sep # StatusCodeStr (statusCode sp1) @
      key_dims E dims1 (span_attrs sp1) ra1 [] =
    s2 @ sep # n2 @ sep # SpanKindStr (span_kind sp2) @ sep # StatusCodeStr (statusCode sp2) @
      key_dims E dims2 (span_attrs sp2) ra2 []"
    using assms(1) buildKey_shape [OF o1] buildKey_shape [OF o2] by simp
  from split_at_sep [OF ns(1,3) this]
  have s: "s1 = s2" and r1: "n1 @ sep # SpanKindStr (span_kind sp1) @ sep # StatusCodeStr (statusCode sp1) @
      key_dims E dims1 (span_attrs sp1) ra1 [] =
    n2 @ sep # SpanKindStr (span_kind sp2) @ sep # StatusCodeStr (statusCode sp2) @
      key_dims E dims2 (span_attrs sp2) ra2 []" by simp_all
  from split_at_sep [OF ns(2,4) r1]
  have n: "n1 = n2" and r2: "SpanKindStr (span_kind sp1) @ sep # StatusCodeStr (statusCode sp1) @
      key_dims E dims1 (span_attrs sp1) ra1 [] =
    SpanKindStr (span_kind sp2) @ sep # StatusCodeStr (statusCode sp2) @
      key_dims E dims2 (span_attrs sp2) ra2 []" by simp_all
  from split_at_sep [OF SpanKindStr_no_sep SpanKindStr_no_sep r2]
  have k: "SpanKindStr (span_kind sp1) = SpanKindStr (span_kind sp2)"
    and r3: "StatusCodeStr (statusCode sp1) @ key_dims E dims1 (span_attrs sp1) ra1 [] =
      StatusCodeStr (statusCode sp2) @ key_dims E dims2 (span_attrs sp2) ra2 []" by simp_all
  from split_at_end [OF StatusCodeStr_no_sep StatusCodeStr_no_sep key_dims_head key_dims_head r3]
  show ?thesis using s n k o1 o2 by simp
qed

definition ex_lim :: limits where
  "ex_lim = \<lparr>maxNumberOfServicesToTrack = 1, maxNumberOfOperationsToTrackPerService = 5\<rparr>"

theorem metric_key_determines_span_witness:
  "fst (buildKey ex_key_env ex_lim [] ''a'' (sm_span ''op'' []) [] [] []) =
     fst (buildKey ex_key_env ex_lim [] ''a'' (sm_span ''op'' [(''k'', ValueStr ''v'')]) [] [] [(''a'', [''op''])]) \<and>
   overflow_names ex_lim [] ''a'' ''op'' = overflow_names ex_lim [(''a'', [''op''])] ''a'' ''op''"
proof -
  have k: "fst (buildKey ex_key_env ex_lim [] ''a'' (sm_span ''op'' []) [] [] []) =
     fst (buildKey ex_key_env ex_lim [] ''a'' (sm_span ''op'' [(''k'', ValueStr ''v'')]) [] [] [(''a'', [''op''])])"
    by (simp add: buildKey_def overflow_names_def ex_lim_def operations_of_def sm_span_def Let_def)
  from metric_key_determines_span [OF k] k show ?thesis by (simp add: sm_span_def sep_def)
qed

text \<open>
  The key leaves out absent dimensions without a mark, so spans with different dimensions can
  share a key: one that has only the first of two configured dimensions and one that has only the
  second, with the same value, are counted together under the dimensions of the earlier one.
\<close>

theorem metric_key_confuses_dimensions:
  "\<exists>dims sp1 sp2.
     fst (buildKey ex_key_env ex_lim [] ''shop'' sp1 dims [] []) =
     fst (buildKey ex_key_env ex_lim [] ''shop'' sp2 dims [] (snd (buildKey ex_key_env ex_lim [] ''shop'' sp1 dims [] []))) \<and>
     fst (buildDimensionKVs ex_key_env ex_lim ''shop'' sp1 dims [] [] []) \<noteq>
     fst (buildDimensionKVs ex_key_env ex_lim ''shop'' sp2 dims [] [] [])"
proof -
  let ?dims = "[\<lparr>dim_name = ''a'', dim_value = None\<rparr>, \<lparr>dim_name = ''b'', dim_value = None\<rparr>]"
  show ?thesis
    by (intro exI [of _ ?dims] exI [of _ "sm_span ''op'' [(''a'', ValueStr ''v'')]"]
          exI [of _ "sm_span ''op'' [(''b'', ValueStr ''v'')]"])
      (simp add: buildKey_def buildDimensionKVs_def overflow_names_def ex_lim_def operations_of_def sm_span_def
        track_def getDimensionValue_def getDimensionValueWithResource_def serviceNameKey_def operationKey_def
        spanKindKey_def statusCodeKey_def tagHTTPStatusCode_def concatDimensionValue_def Let_def)
qed

section \<open>Keys and dimensions at the limit\<close>

lemma put_dims_service:
  "\<forall>d \<in> set ds. dim_name d \<noteq> serviceNameKey \<Longrightarrow>
   attr_get (put_dims ds al ra m) serviceNameKey = attr_get m serviceNameKey"
proof (induction ds arbitrary: m)
  case (Cons d ds)
  have "resourcePrefix @ dim_name d \<noteq> serviceNameKey"
    by (simp add: resourcePrefix_def serviceNameKey_def)
  then show ?case using Cons by (auto simp: Let_def split_beta split: option.splits)
qed simp

lemma length_track: "length (track sto s n) = (if s \<in> fst ` set sto then length sto else Suc (length sto))"
proof -
  have "length (track sto s n) = length (map fst (track sto s n))" by simp
  also have "\<dots> = (if s \<in> fst ` set sto then length sto else Suc (length sto))"
    by (simp add: track_def update_keys Let_def)
  finally show ?thesis .
qed

text \<open>
  The key is built before the dimensions and adds its service to those tracked, so for the first span of
  the service that reaches the limit the two disagree: the key carries the name of the service, the
  dimensions stored under that key the overflow name.
\<close>

theorem key_and_dimensions_disagree_at_limit:
  assumes "int (length sto) = maxNumberOfServicesToTrack lim" and "service \<notin> fst ` set sto"
    and "0 \<le> maxNumberOfOperationsToTrackPerService lim" and "service \<noteq> overflowServiceName"
    and "\<forall>d \<in> set dims. dim_name d \<noteq> serviceNameKey"
  shows "\<exists>rest. fst (buildKey E lim [] service sp dims ra sto) = service @ sep # rest \<and>
    attr_get (fst (buildDimensionKVs E lim service sp dims ra (snd (buildKey E lim [] service sp dims ra sto)) crd))
      serviceNameKey = Some (ValueStr overflowServiceName)"
proof -
  have ops: "operations_of sto service = []"
    using assms(2) map_of_eq_None_iff [of sto service] by (simp add: operations_of_def)
  then have o: "overflow_names lim sto service (span_name sp) = (service, span_name sp)"
    using assms(1,3) by (simp add: overflow_names_def Let_def)
  have "snd (buildKey E lim [] service sp dims ra sto) = track sto service (span_name sp)"
    by (simp add: buildKey_tracked o)
  moreover have "maxNumberOfServicesToTrack lim < int (length (track sto service (span_name sp)))"
    using assms(1,2) by (simp add: length_track)
  ultimately show ?thesis
    using buildKey_shape [OF o, of E "[]" dims ra] assms(5)
    by (auto simp: buildDimensionKVs_def overflow_names_def put_dims_service [unfolded serviceNameKey_def] serviceNameKey_def operationKey_def
        spanKindKey_def statusCodeKey_def Let_def)
qed

theorem key_and_dimensions_disagree_at_limit_witness:
  "\<exists>rest. fst (buildKey ex_key_env ex_lim [] ''b'' (sm_span ''op'' []) [] [] [(''a'', [''op''])]) = ''b'' @ sep # rest \<and>
    attr_get (fst (buildDimensionKVs ex_key_env ex_lim ''b'' (sm_span ''op'' []) [] []
       (snd (buildKey ex_key_env ex_lim [] ''b'' (sm_span ''op'' []) [] [] [(''a'', [''op''])])) []))
      serviceNameKey = Some (ValueStr overflowServiceName)"
  by (rule key_and_dimensions_disagree_at_limit) (simp_all add: ex_lim_def overflowServiceName_def)

section \<open>Time buckets\<close>

lemma time_truncate_bounds:
  "0 < d \<Longrightarrow> time_truncate t d \<le> t \<and> t < time_truncate t d + d"
  by (simp add: time_truncate_def)

lemma time_truncate_seconds:
  assumes "0 < d" and "1000000000 dvd d"
  shows "time_truncate t d div 1000000000 * 1000000000 = time_truncate t d"
proof -
  have "time_truncate t d = d * ((t - zero_time) div d) + zero_time"
    using assms(1) by (simp add: time_truncate_def minus_mod_eq_mult_div [symmetric])
  moreover have "(1000000000::int) dvd zero_time" by (simp add: zero_time_def)
  ultimately have "1000000000 dvd time_truncate t d" using assms(2) by simp
  then show ?thesis by simp
qed

lemma sint64_range: "- 9223372036854775808 \<le> sint (x :: i64) \<and> sint x \<le> 9223372036854775807"
  using sint_range_size [of x] by (simp add: word_size)

lemma time_truncate_range:
  assumes "0 < d"
  shows "i64_min \<le> time_unix (time_truncate (as_time ts) d) \<and> time_unix (time_truncate (as_time ts) d) \<le> i64_max"
proof -
  have t: "- 9223372036854775808 \<le> as_time ts" "as_time ts \<le> 9223372036854775807"
    using sint64_range [of ts] by (simp_all add: as_time_def)
  have "(as_time ts - zero_time) mod d \<le> as_time ts - zero_time"
    using t assms by (intro zmod_le_nonneg_dividend) (simp add: zero_time_def)
  then have "zero_time \<le> time_truncate (as_time ts) d"
    using assms by (simp add: time_truncate_def)
  then have "-62135596800 \<le> time_unix (time_truncate (as_time ts) d)"
    by (simp add: time_unix_def zero_time_def)
  moreover have "time_unix (time_truncate (as_time ts) d) \<le> 9223372036854775807 div 1000000000"
    unfolding time_unix_def using time_truncate_bounds [OF assms, of "as_time ts"] t
    by (intro zdiv_mono1) auto
  ultimately show ?thesis by (simp add: i64_min_def i64_max_def)
qed

lemma parse_times_prefix:
  assumes "sep \<notin> set pre" and "pre \<noteq> []"
  shows "parseTimesFromKeyOrNow (pre @ sep # rest) now start =
    (case parse_int64 pre of
       None \<Rightarrow> (start, timestamp_from_time now)
     | Some u \<Rightarrow> (timestamp_from_time (u * 1000000000), timestamp_from_time (u * 1000000000)))"
proof -
  have "takeWhile (\<lambda>c. c \<noteq> sep) (pre @ sep # rest) = pre" by (rule takeWhile_stop [OF assms(1)]) simp
  moreover have "dropWhile (\<lambda>c. c \<noteq> sep) (pre @ sep # rest) = sep # rest"
    using assms(1) by (induction pre) auto
  ultimately show ?thesis using assms(2) by (simp add: parseTimesFromKeyOrNow_def Let_def split: option.split)
qed

lemma format_int_no_sep: "sep \<notin> set (format_int x)"
  using format_int_chars [of sep x] by (auto simp: is_digit_def sep_def)

lemma buildKey_dest: "\<exists>rest. fst (buildKey E lim dest service sp dims ra sto) = dest @ rest"
  by (cases "overflow_names lim sto service (span_name sp)") (auto dest!: buildKey_shape)

text \<open>
  With delta temporality and an interval of whole seconds, the times read back from a metric key are
  the start of the bucket the key was built for, the one that contains the start of the span.
\<close>

theorem delta_key_times_roundtrip:
  assumes "GetAggregationTemporality cfg = Delta"
    and "0 < GetTimeBucketInterval cfg" and "1000000000 dvd GetTimeBucketInterval cfg"
  shows "\<exists>bucket. bucket \<le> as_time (startTimestamp sp) \<and>
    as_time (startTimestamp sp) < bucket + GetTimeBucketInterval cfg \<and>
    parseTimesFromKeyOrNow (fst (buildMetricKey E cfg lim service sp dims ra sto)) now start =
      (timestamp_from_time bucket, timestamp_from_time bucket)"
proof -
  let ?b = "time_truncate (as_time (startTimestamp sp)) (GetTimeBucketInterval cfg)"
  let ?f = "format_int (time_unix ?b)"
  have pre: "time_prefix cfg sp = ?f @ [sep]"
    using assms(1) by (simp add: time_prefix_def AddTimeToKeyBuf_def)
  obtain rest where key: "fst (buildMetricKey E cfg lim service sp dims ra sto) = ?f @ sep # rest"
    using buildKey_dest [of E lim "time_prefix cfg sp" service sp dims ra sto] pre by (auto simp: buildMetricKey_def)
  have "parse_int64 ?f = Some (time_unix ?b)"
    using time_truncate_range [OF assms(2)] by (intro parse_int64_format_int) simp_all
  moreover have "time_unix ?b * 1000000000 = ?b"
    unfolding time_unix_def by (rule time_truncate_seconds [OF assms(2,3)])
  ultimately have "parseTimesFromKeyOrNow (fst (buildMetricKey E cfg lim service sp dims ra sto)) now start =
      (timestamp_from_time ?b, timestamp_from_time ?b)"
    using parse_times_prefix [OF format_int_no_sep, of "time_unix ?b" rest now start] by (simp add: key)
  then show ?thesis using time_truncate_bounds [OF assms(2)] by blast
qed

theorem delta_key_times_roundtrip_witness:
  "\<exists>bucket. bucket \<le> 5 \<and> 5 < bucket + 60000000000 \<and>
    parseTimesFromKeyOrNow (fst (buildMetricKey ex_key_env (ex_sm_cfg ''AGGREGATION_TEMPORALITY_DELTA'') ex_lim ''a''
      (sm_span ''op'' []) [] [] [])) 0 0 = (timestamp_from_time bucket, timestamp_from_time bucket)"
proof -
  let ?cfg = "ex_sm_cfg ''AGGREGATION_TEMPORALITY_DELTA''"
  have c: "GetAggregationTemporality ?cfg = Delta" "GetTimeBucketInterval ?cfg = 60000000000"
    by (simp_all add: ex_sm_cfg_def createDefaultConfig_def GetAggregationTemporality_def GetTimeBucketInterval_def)
  have "as_time (startTimestamp (sm_span ''op'' [])) = 5" by (simp add: sm_span_def as_time_def)
  then show ?thesis
    using delta_key_times_roundtrip [OF c(1), where sp = "sm_span ''op'' []" and E = ex_key_env and lim = ex_lim and
        service = "''a''" and dims = "[]" and ra = "[]" and sto = "[]" and now = 0 and start = 0] c(2)
    by simp
qed

text \<open>
  With cumulative temporality the times of a point are the start of the processor and the current time,
  except for a service whose name reads as a decimal integer: that name is taken for a time bucket, and
  the point is dated that many seconds after the epoch.
\<close>

theorem cumulative_key_times:
  assumes "GetAggregationTemporality cfg = Cumulative"
    and "overflow_names lim sto service (span_name sp) = (service, n)"
    and "service \<noteq> []" and "sep \<notin> set service"
  shows "parseTimesFromKeyOrNow (fst (buildMetricKey E cfg lim service sp dims ra sto)) now start =
    (case parse_int64 service of
       None \<Rightarrow> (start, timestamp_from_time now)
     | Some u \<Rightarrow> (timestamp_from_time (u * 1000000000), timestamp_from_time (u * 1000000000)))"
proof -
  have "time_prefix cfg sp = []" using assms(1) by (simp add: time_prefix_def)
  then show ?thesis
    using buildKey_shape [OF assms(2), of E "[]" dims ra] parse_times_prefix [OF assms(4,3)]
    by (simp add: buildMetricKey_def)
qed

theorem cumulative_key_times_witness:
  "parseTimesFromKeyOrNow (fst (buildMetricKey ex_key_env (ex_sm_cfg []) ex_lim ''7'' (sm_span ''op'' []) [] [] [])) 90 80 =
    (7000000000, 7000000000)"
proof -
  have "GetAggregationTemporality (ex_sm_cfg []) = Cumulative"
    by (simp add: ex_sm_cfg_def GetAggregationTemporality_def)
  moreover have "overflow_names ex_lim [] ''7'' (span_name (sm_span ''op'' [])) = (''7'', ''op'')"
    by (simp add: overflow_names_def ex_lim_def operations_of_def sm_span_def)
  moreover have "parse_int64 ''7'' = Some 7"
    by (simp add: parse_int64_def parse_digits_def is_digit_def digits_val_def digit_val_def i64_min_def i64_max_def)
  ultimately show ?thesis
    using cumulative_key_times [where cfg = "ex_sm_cfg []" and lim = ex_lim and sto = "[]" and service = "''7''" and
        sp = "sm_span ''op'' []" and n = "''op''" and E = ex_key_env and dims = "[]" and ra = "[]" and now = 90 and start = 80]
    by (simp add: timestamp_from_time_def sep_def)
qed

section \<open>Remote addresses\<close>

lemma attr_get_put_other: "k \<noteq> k' \<Longrightarrow> attr_get (attr_put k' v m) k = attr_get m k"
  by simp

text \<open>
  The transport of a span has no influence on its remote address: the test that should drop the peer
  address of a socket or pipe asks for both names at once and never holds.
\<close>

theorem remote_address_ignores_transport:
  "getRemoteAddress E (sp\<lparr>span_attrs := attr_put ''net.transport'' v (span_attrs sp)\<rparr>) = getRemoteAddress E sp"
proof -
  have "with_port (attr_put ''net.transport'' v m) a port = with_port m a port" if "port \<noteq> ''net.transport''"
    for m a port using that by (simp add: with_port_def)
  then have "getPeerAddress (attr_put ''net.transport'' v m) = getPeerAddress m" for m
    by (simp add: getPeerAddress_def cong: option.case_cong)
  moreover have "rpc_address (attr_put ''net.transport'' v m) = rpc_address m" for m
    by (simp add: rpc_address_def)
  moreover have "url_address E (attr_put ''net.transport'' v m) = url_address E m" for m
    by (simp add: url_address_def cong: option.case_cong)
  moreover have "\<not> (val_str w = ''unix'' \<and> val_str w = ''pipe'')" for w
    by simp
  ultimately show ?thesis by (auto simp: getRemoteAddress_def Let_def split: option.split)
qed

section \<open>Dimension names\<close>

lemma validate_loop_distinct:
  "validate_loop san labels ns = None \<Longrightarrow>
   distinct ns \<and> distinct (map san ns) \<and> (\<forall>n \<in> set ns. n \<notin> set labels \<and> san n \<notin> set labels)"
proof (induction san labels ns rule: validate_loop.induct)
  case (2 san labels n ns)
  show ?case
  proof (cases "san n = n")
    case True
    then have "validate_loop san (n # labels) ns = None" "n \<notin> set labels"
      using "2.prems" by (auto split: if_splits)
    then show ?thesis using "2.IH"(1) [OF _ True] True by fastforce
  next
    case False
    then have l: "validate_loop san (san n # n # labels) ns = None" "n \<notin> set labels" "san n \<notin> set (n # labels)"
      using "2.prems" by (auto split: if_splits)
    then show ?thesis using "2.IH"(2) [OF l(2) False l(3) l(1)] by fastforce
  qed
qed simp

text \<open>
  When the configured dimensions pass validation, no two of them have the same label, before or after
  sanitizing, and none has the label of a built-in dimension.
\<close>

theorem validated_dimensions_distinct:
  assumes "validateDimensions E dims skip = None"
  shows "distinct (map dc_name dims) \<and> distinct (map (\<lambda>d. sanitize E (dc_name d) skip) dims) \<and>
    (\<forall>d \<in> set dims. \<forall>k \<in> {serviceNameKey, operationKey, spanKindKey, statusCodeKey}.
       dc_name d \<noteq> k \<and> sanitize E (dc_name d) skip \<noteq> k)"
proof -
  let ?san = "\<lambda>s. sanitize E s skip"
  have "validate_loop ?san (reserved_labels ?san) (map dc_name dims) = None"
    using assms by (simp add: validateDimensions_def Let_def)
  note d = validate_loop_distinct [OF this]
  have "{serviceNameKey, operationKey, spanKindKey, statusCodeKey} \<subseteq> set (reserved_labels ?san)"
    by (simp add: reserved_labels_def)
  then have "dc_name x \<noteq> k \<and> ?san (dc_name x) \<noteq> k"
    if "x \<in> set dims" "k \<in> {serviceNameKey, operationKey, spanKindKey, statusCodeKey}" for x k
    using d that by (metis imageI set_map subsetD)
  moreover have "distinct (map ?san (map dc_name dims)) = distinct (map (\<lambda>d. ?san (dc_name d)) dims)"
    by (simp only: map_map comp_def)
  ultimately show ?thesis using d by blast
qed

theorem validated_dimensions_distinct_witness:
  "validateDimensions ex_key_env [\<lparr>dc_name = ''a'', dc_default = None\<rparr>, \<lparr>dc_name = ''b'', dc_default = None\<rparr>] False = None \<and>
   distinct [''a'', ''b'']"
proof -
  let ?dims = "[\<lparr>dc_name = ''a'', dc_default = None\<rparr>, \<lparr>dc_name = ''b'', dc_default = None\<rparr>]"
  have v: "validateDimensions ex_key_env ?dims False = None"
    by code_simp
  from validated_dimensions_distinct [OF v] v show ?thesis by simp
qed

section \<open>Buckets\<close>

text \<open>
  On sorted bounds an observation adds one to the bucket of the first bound that is not below the
  latency, the one a linear scan finds, and leaves the other buckets alone.
\<close>

theorem observation_bucket:
  assumes "sorted bounds" and "observe bounds latency tid sid h = Done h'"
  shows "bucketCounts h' =
    (let i = length (takeWhile (\<lambda>b. b < latency) bounds) in (bucketCounts h)[i := bucketCounts h ! i + 1])"
  using assms(2) by (auto simp: observe_def search_floats_takeWhile [OF assms(1)] Let_def split: if_splits)

theorem observation_bucket_witness:
  "\<exists>h'. observe [2, 4] (3::int) [] [] (new_histogram [2, 4]) = Done h' \<and> bucketCounts h' = [0, 1, 0]"
proof -
  let ?h = "new_histogram [2, 4 :: int]"
  obtain h' where h': "observe [2, 4] 3 [] [] ?h = Done h'"
    using observe_ok [OF new_histogram_ok] by blast
  have "sorted [2, 4 :: int]" by simp
  from observation_bucket [OF this h'] h' show ?thesis by (simp add: new_histogram_def Let_def)
qed

section \<open>The dimension cache\<close>

text \<open>Lookups of keys (\<^term>\<open>Inl\<close>) and additions (\<^term>\<open>Inr\<close>), one after the other.\<close>

definition cache_steps ::
  "('l, 'k, 'v) lru_ops \<Rightarrow> ('k + 'k \<times> 'v) list \<Rightarrow> ('l, 'k, 'v) dim_cache \<Rightarrow> ('l, 'k, 'v) dim_cache" where
  "cache_steps L steps c =
     foldl (\<lambda>c s. case s of Inl k \<Rightarrow> snd (cache_get L c k) | Inr (k, v) \<Rightarrow> snd (cache_add L c k v)) c steps"

lemma contents_steps:
  assumes "lru_laws L ents cap"
  shows "k \<notin> fst ` {x. Inr x \<in> set steps} \<Longrightarrow> contents ents (cache_steps L steps c) k = contents ents c k"
proof (induction steps arbitrary: c)
  case (Cons s steps)
  have "k \<notin> fst ` {x. Inr x \<in> set steps}" using Cons.prems by auto
  note IH = Cons.IH [OF this]
  show ?case
  proof (cases s)
    case (Inl k')
    then show ?thesis using IH by (simp add: cache_steps_def contents_get(2) [OF assms])
  next
    case (Inr x)
    obtain k' v where x: "x = (k', v)" by (cases x)
    have "k \<noteq> k'" using Cons.prems Inr x by force
    then show ?thesis using IH Inr x by (simp add: cache_steps_def contents_add [OF assms])
  qed
qed (simp add: cache_steps_def)

text \<open>
  Dimensions once stored under a key are found again after any number of lookups and of additions of
  other keys, however small the LRU cache is, until the evicted items are removed.
\<close>

theorem dimension_cache_keeps:
  assumes "lru_laws L ents cap" and "k \<notin> fst ` {x. Inr x \<in> set steps}"
  shows "fst (cache_get L (cache_steps L steps (snd (cache_add L c k v))) k) = Some v"
  using contents_steps [OF assms, of "snd (cache_add L c k v)"]
  by (simp add: contents_get(1) [OF assms(1)] contents_add [OF assms(1)])

theorem dimension_cache_keeps_witness:
  "fst (cache_get small_lru (cache_steps small_lru [Inr (''b'', 2), Inl ''a'', Inr (''c'', 3)]
     (snd (cache_add small_lru \<lparr>lru = (0, []), evictedItems = Map.empty\<rparr> ''a'' (1 :: nat)))) ''a'') = Some 1"
proof -
  have "''a'' \<notin> fst ` {x. Inr x \<in> set [Inr (''b'', 2 :: nat), Inl ''a'', Inr (''c'', 3)]}" by auto
  from dimension_cache_keeps [OF small_lru_laws this] show ?thesis by blast
qed

end
