(* ===== verification/StanzaField.thy ===== *)
theory StanzaField
  imports Prelude
begin

text \<open>
  Field names of the logs pipeline (\<^verbatim>\<open>processor/signozlogspipelineprocessor/stanza/entry/field.go\<close>):
  the state machine that splits a name in JSON dot notation into keys, the function that writes
  keys in that notation, and the choice of the part of an entry the name refers to.
\<close>

section \<open>Splitting\<close>

datatype split_state = Begin | InBracket | InQuote | OutQuote | OutBracket | InUnbracketedToken

record splitter =
  sp_state :: split_state
  quoteChar :: char
  tokenStart :: nat
  sp_fields :: "string list"

definition slice :: "string \<Rightarrow> nat \<Rightarrow> nat \<Rightarrow> string" where
  "slice s a b = take (b - a) (drop a s)"

text \<open>
  One iteration, for the character \<open>c\<close> at index \<open>i\<close>. Go iterates over runes; every character the
  machine looks for is ASCII and no byte of a longer rune equals one, so the bytes of a longer
  rune are one character after the other here, each treated as any other one.
\<close>

definition split_step :: "string \<Rightarrow> nat \<Rightarrow> char \<Rightarrow> splitter \<Rightarrow> string + splitter" where
  "split_step s i c st =
     (case sp_state st of
        Begin \<Rightarrow>
          if c = CHR ''['' then Inr (st\<lparr>sp_state := InBracket\<rparr>)
          else Inr (st\<lparr>tokenStart := i, sp_state := InUnbracketedToken\<rparr>)
      | InBracket \<Rightarrow>
          if \<not> (c = CHR 0x27 \<or> c = CHR 0x22) then Inl ''strings in brackets must be surrounded by quotes''
          else Inr (st\<lparr>sp_state := InQuote, quoteChar := c, tokenStart := i + 1\<rparr>)
      | InQuote \<Rightarrow>
          if c = quoteChar st
          then Inr (st\<lparr>sp_fields := sp_fields st @ [slice s (tokenStart st) i], sp_state := OutQuote\<rparr>)
          else Inr st
      | OutQuote \<Rightarrow>
          if c \<noteq> CHR '']'' then Inl ''found characters between closed quote and closing bracket''
          else Inr (st\<lparr>sp_state := OutBracket\<rparr>)
      | OutBracket \<Rightarrow>
          if c = CHR ''.'' then Inr (st\<lparr>sp_state := InUnbracketedToken, tokenStart := i + 1\<rparr>)
          else if c = CHR ''['' then Inr (st\<lparr>sp_state := InBracket\<rparr>)
          else Inl ''bracketed access must be followed by a dot or another bracketed access''
      | InUnbracketedToken \<Rightarrow>
          if c = CHR ''.''
          then Inr (st\<lparr>sp_fields := sp_fields st @ [slice s (tokenStart st) i], tokenStart := i + 1\<rparr>)
          else if c = CHR ''[''
          then Inr (st\<lparr>sp_fields := sp_fields st @ [slice s (tokenStart st) i], sp_state := InBracket\<rparr>)
          else Inr st)"

fun split_loop :: "string \<Rightarrow> nat \<Rightarrow> string \<Rightarrow> splitter \<Rightarrow> string + splitter" where
  "split_loop s i [] st = Inr st"
| "split_loop s i (c # cs) st =
     (case split_step s i c st of Inl e \<Rightarrow> Inl e | Inr st' \<Rightarrow> split_loop s (Suc i) cs st')"

definition split_finish :: "string \<Rightarrow> splitter \<Rightarrow> string + string list" where
  "split_finish s st =
     (let check = (\<lambda>fs. if fs = [] then Inl ''fields size is 0'' else Inr fs)
      in case sp_state st of
           InBracket \<Rightarrow> Inl ''found unclosed left bracket''
         | OutQuote \<Rightarrow> Inl ''found unclosed left bracket''
         | InQuote \<Rightarrow>
             if quoteChar st = CHR 0x22 then Inl ''found unclosed double quote''
             else Inl ''found unclosed single quote''
         | InUnbracketedToken \<Rightarrow> check (sp_fields st @ [drop (tokenStart st) s])
         | Begin \<Rightarrow> check (sp_fields st)
         | OutBracket \<Rightarrow> check (sp_fields st))"

definition fromJSONDot :: "string \<Rightarrow> string + string list" where
  "fromJSONDot s =
     (case split_loop s 0 s \<lparr>sp_state = Begin, quoteChar = CHR 0x00, tokenStart = 0, sp_fields = []\<rparr> of
        Inl e \<Rightarrow> Inl e
      | Inr st \<Rightarrow> split_finish s st)"

section \<open>Writing\<close>

definition toJSONDot :: "string \<Rightarrow> string list \<Rightarrow> string" where
  "toJSONDot prefix keys =
     (if keys = [] then prefix
      else if list_ex (\<lambda>k. CHR ''.'' \<in> set k) keys
      then prefix @ concat (map (\<lambda>k. ''['' @ [CHR 0x27] @ k @ [CHR 0x27] @ '']'') keys)
      else prefix @ ''.'' @ join_str ''.'' keys)"

section \<open>Fields\<close>

text \<open>
  A field of the attributes or of the resource is a field of the \<^verbatim>\<open>stanza\<close> library, given by its
  keys; a field of the body is the one of this package.
\<close>

datatype field = AttributeField "string list" | ResourceField "string list" | BodyField "string list"

definition newField :: "string \<Rightarrow> bool \<Rightarrow> string + field" where
  "newField s rootable =
     (case fromJSONDot s of
        Inl err \<Rightarrow> Inl (''splitting field: '' @ err)
      | Inr keys \<Rightarrow>
          (if hd keys = ''attributes''
           then if \<not> rootable \<and> length keys = 1
                then Inl ''attributes cannot be referenced without subfield''
                else Inr (AttributeField (tl keys))
           else if hd keys = ''resource''
           then if \<not> rootable \<and> length keys = 1
                then Inl ''resource cannot be referenced without subfield''
                else Inr (ResourceField (tl keys))
           else if hd keys = ''body'' then Inr (BodyField (tl keys))
           else Inl ''unrecognized prefix''))"

definition NewField :: "string \<Rightarrow> string + field" where
  "NewField s = newField s False"

definition NewBodyField :: "string list \<Rightarrow> field" where
  "NewBodyField keys = BodyField keys"

definition parent_keys :: "string list \<Rightarrow> string list" where
  "parent_keys keys = (if keys = [] then keys else take (length keys - 1) keys)"

definition child_keys :: "string list \<Rightarrow> string \<Rightarrow> string list" where
  "child_keys keys key = keys @ [key]"

definition body_field_string :: "string list \<Rightarrow> string" where
  "body_field_string keys = toJSONDot ''body'' keys"

text \<open>\<^verbatim>\<open>BodyField.UnmarshalText\<close>\<close>

definition unmarshal_body_field :: "string \<Rightarrow> string + string list" where
  "unmarshal_body_field text =
     (case fromJSONDot text of
        Inl e \<Rightarrow> Inl e
      | Inr keys \<Rightarrow> if hd keys \<noteq> ''body'' then Inl (''must start with 'body': '' @ text) else Inr (tl keys))"

section \<open>Runs of the machine\<close>

lemma slice_append: "length pre = a \<Longrightarrow> slice (pre @ t @ rest) a (a + length t) = t"
  by (auto simp: slice_def)

lemma split_loop_append:
  "split_loop s i (xs @ ys) st =
     (case split_loop s i xs st of Inl e \<Rightarrow> Inl e | Inr st' \<Rightarrow> split_loop s (i + length xs) ys st')"
  by (induction s i xs st rule: split_loop.induct) (auto split: sum.splits)

text \<open>A token, and the inside of quotes, are skipped.\<close>

lemma split_token:
  "sp_state st = InUnbracketedToken \<Longrightarrow> CHR ''.'' \<notin> set t \<Longrightarrow> CHR ''['' \<notin> set t \<Longrightarrow>
   split_loop s i (t @ rest) st = split_loop s (i + length t) rest st"
  by (induction t arbitrary: i) (auto simp: split_step_def)

lemma split_quoted:
  "sp_state st = InQuote \<Longrightarrow> quoteChar st \<notin> set t \<Longrightarrow>
   split_loop s i (t @ rest) st = split_loop s (i + length t) rest st"
  by (induction t arbitrary: i) (auto simp: split_step_def)

definition plain_key :: "string \<Rightarrow> bool" where
  "plain_key k \<longleftrightarrow> CHR ''.'' \<notin> set k \<and> CHR ''['' \<notin> set k"

lemma split_plain:
  "keys \<noteq> [] \<Longrightarrow> list_all plain_key keys \<Longrightarrow> sp_state st = InUnbracketedToken \<Longrightarrow> tokenStart st = length pre \<Longrightarrow>
   s = pre @ join_str ''.'' keys \<Longrightarrow>
   \<exists>st'. split_loop s (length pre) (join_str ''.'' keys) st = Inr st' \<and>
         split_finish s st' = Inr (sp_fields st @ keys)"
proof (induction keys arbitrary: pre st rule: induct_list012)
  case (2 k)
  have "split_loop s (length pre) (k @ []) st = split_loop s (length pre + length k) [] st"
    using 2 by (intro split_token) (simp_all add: plain_key_def)
  then show ?case using 2 by (simp add: split_finish_def)
next
  case (3 k k' ks)
  let ?rest = "join_str ''.'' (k' # ks)"
  let ?pre = "pre @ k @ ''.''"
  let ?st = "st\<lparr>sp_fields := sp_fields st @ [k], tokenStart := length ?pre\<rparr>"
  have s: "s = ?pre @ ?rest" using "3.prems"(5) by simp
  have "split_loop s (length pre) (join_str ''.'' (k # k' # ks)) st =
      split_loop s (length pre + length k) (''.'' @ ?rest) st"
    using 3 split_token [of st k s "length pre" "''.'' @ ?rest"] by (simp add: plain_key_def)
  also have "\<dots> = split_loop s (length ?pre) ?rest ?st"
    using 3 slice_append [of pre "length pre" k "''.'' @ ?rest"] by (simp add: split_step_def)
  finally have step: "split_loop s (length pre) (join_str ''.'' (k # k' # ks)) st = split_loop s (length ?pre) ?rest ?st" .
  have "\<exists>st'. split_loop s (length ?pre) ?rest ?st = Inr st' \<and> split_finish s st' = Inr (sp_fields ?st @ k' # ks)"
    by (rule "3.IH"(2)) (use "3.prems" s in simp_all)
  then show ?case using step by simp
qed simp

definition quoted :: "string list \<Rightarrow> string" where
  "quoted keys = concat (map (\<lambda>k. ''['' @ [CHR 0x27] @ k @ [CHR 0x27] @ '']'') keys)"

lemma split_one_quoted:
  assumes "sp_state st = OutBracket" and "CHR 0x27 \<notin> set k" and "s = pre @ quoted [k] @ rest"
  shows "\<exists>st'. split_loop s (length pre) (quoted [k] @ rest) st = split_loop s (length pre + length (quoted [k])) rest st' \<and>
    sp_state st' = OutBracket \<and> sp_fields st' = sp_fields st @ [k]"
proof -
  let ?p = "pre @ ''['' @ [CHR 0x27]"
  let ?q = "st\<lparr>sp_state := InQuote, quoteChar := CHR 0x27, tokenStart := length ?p\<rparr>"
  let ?tail = "[CHR 0x27] @ '']'' @ rest"
  have s: "s = ?p @ k @ ?tail" using assms(3) by (simp add: quoted_def)
  have "split_loop s (length pre) (quoted [k] @ rest) st = split_loop s (length ?p) (k @ ?tail) ?q"
    using assms(1) by (simp add: quoted_def split_step_def)
  also have "\<dots> = split_loop s (length ?p + length k) ?tail ?q"
    by (rule split_quoted) (use assms(2) in simp_all)
  also have "\<dots> = split_loop s (length pre + length (quoted [k])) rest
      (?q\<lparr>sp_fields := sp_fields st @ [k], sp_state := OutBracket\<rparr>)"
    using slice_append [of ?p "length ?p" k ?tail] s by (simp add: split_step_def quoted_def)
  finally show ?thesis by (intro exI conjI) auto
qed

lemma split_all_quoted:
  "list_all (\<lambda>k. CHR 0x27 \<notin> set k) keys \<Longrightarrow> sp_state st = OutBracket \<Longrightarrow> s = pre @ quoted keys \<Longrightarrow>
   \<exists>st'. split_loop s (length pre) (quoted keys) st = Inr st' \<and> sp_state st' = OutBracket \<and>
         sp_fields st' = sp_fields st @ keys"
proof (induction keys arbitrary: pre st)
  case Nil
  then show ?case by (simp add: quoted_def)
next
  case (Cons k keys)
  have q: "quoted (k # keys) = quoted [k] @ quoted keys" by (simp add: quoted_def)
  obtain st1 where st1: "split_loop s (length pre) (quoted [k] @ quoted keys) st =
      split_loop s (length pre + length (quoted [k])) (quoted keys) st1"
      "sp_state st1 = OutBracket" "sp_fields st1 = sp_fields st @ [k]"
    using split_one_quoted [of st k s pre "quoted keys"] Cons.prems q by auto
  have "\<exists>st'. split_loop s (length (pre @ quoted [k])) (quoted keys) st1 = Inr st' \<and> sp_state st' = OutBracket \<and>
      sp_fields st' = sp_fields st1 @ keys"
    by (rule Cons.IH) (use Cons.prems q st1 in simp_all)
  then show ?case using st1 q by auto
qed

text \<open>
  Keys that can be written: without a key that contains a dot, no key has a bracket; with one, the
  keys are quoted and none has a single quote.
\<close>

definition writable_keys :: "string list \<Rightarrow> bool" where
  "writable_keys keys \<longleftrightarrow>
     (if list_ex (\<lambda>k. CHR ''.'' \<in> set k) keys then list_all (\<lambda>k. CHR 0x27 \<notin> set k) keys
      else list_all (\<lambda>k. CHR ''['' \<notin> set k) keys)"

lemma split_begin:
  assumes "p \<noteq> []" and "plain_key p" and "sp_state st = Begin"
  shows "split_loop s 0 (p @ rest) st =
    split_loop s (length p) rest (st\<lparr>tokenStart := 0, sp_state := InUnbracketedToken\<rparr>)"
proof -
  obtain c cs where p: "p = c # cs" using assms(1) by (cases p) auto
  have "split_loop s 0 (p @ rest) st =
      split_loop s (Suc 0) (cs @ rest) (st\<lparr>tokenStart := 0, sp_state := InUnbracketedToken\<rparr>)"
    using assms(2,3) p by (auto simp: split_step_def plain_key_def)
  also have "\<dots> = split_loop s (Suc 0 + length cs) rest (st\<lparr>tokenStart := 0, sp_state := InUnbracketedToken\<rparr>)"
    by (rule split_token) (use assms(2) p in \<open>simp_all add: plain_key_def\<close>)
  finally show ?thesis by (simp add: p)
qed

lemma fromJSONDot_plain:
  assumes "p \<noteq> []" "plain_key p" "list_all plain_key keys"
  shows "fromJSONDot (join_str ''.'' (p # keys)) = Inr (p # keys)"
proof -
  let ?s = "join_str ''.'' (p # keys)"
  let ?i = "\<lparr>sp_state = Begin, quoteChar = CHR 0x00, tokenStart = 0, sp_fields = []\<rparr>"
  let ?st = "?i\<lparr>sp_state := InUnbracketedToken\<rparr>"
  obtain rest where rest: "?s = p @ rest" by (cases keys) auto
  have "split_loop ?s 0 ?s ?i = split_loop ?s (length p) rest ?st"
    using split_begin [OF assms(1,2), of ?i ?s rest] rest by simp
  also have "\<dots> = split_loop ?s 0 (p @ rest) ?st"
    by (subst split_token) (use assms(2) in \<open>simp_all add: plain_key_def\<close>)
  finally have eq: "split_loop ?s 0 ?s ?i = split_loop ?s 0 ?s ?st" using rest by simp
  have "\<exists>st'. split_loop ?s (length ([]::string)) ?s ?st = Inr st' \<and> split_finish ?s st' = Inr (sp_fields ?st @ p # keys)"
    by (rule split_plain) (use assms in simp_all)
  then show ?thesis using eq by (auto simp: fromJSONDot_def)
qed

lemma fromJSONDot_quoted:
  assumes "p \<noteq> []" "plain_key p" "list_all (\<lambda>k. CHR 0x27 \<notin> set k) keys" "keys \<noteq> []"
  shows "fromJSONDot (p @ quoted keys) = Inr (p # keys)"
proof -
  let ?s = "p @ quoted keys"
  let ?i = "\<lparr>sp_state = Begin, quoteChar = CHR 0x00, tokenStart = 0, sp_fields = []\<rparr>"
  let ?o = "?i\<lparr>sp_state := OutBracket, sp_fields := [p]\<rparr>"
  obtain r where r: "quoted keys = CHR ''['' # r" using assms(4) by (cases keys) (auto simp: quoted_def)
  have "split_loop ?s 0 ?s ?i = split_loop ?s (length p) (quoted keys) (?i\<lparr>sp_state := InUnbracketedToken\<rparr>)"
    using split_begin [OF assms(1,2), of ?i ?s "quoted keys"] by simp
  also have "\<dots> = split_loop ?s (length p) (quoted keys) ?o"
    by (simp add: r split_step_def slice_def)
  finally have eq: "split_loop ?s 0 ?s ?i = split_loop ?s (length p) (quoted keys) ?o" .
  obtain st' where "split_loop ?s (length p) (quoted keys) ?o = Inr st'" "sp_state st' = OutBracket"
      "sp_fields st' = [p] @ keys"
    using split_all_quoted [OF assms(3), of ?o ?s p] by auto
  then show ?thesis using eq by (simp add: fromJSONDot_def split_finish_def Let_def)
qed

lemma fromJSONDot_toJSONDot:
  assumes "p \<noteq> []" "plain_key p" "writable_keys keys"
  shows "fromJSONDot (toJSONDot p keys) = Inr (p # keys)"
proof (cases "list_ex (\<lambda>k. CHR ''.'' \<in> set k) keys")
  case True
  then have "keys \<noteq> []" by auto
  then show ?thesis
    using True assms fromJSONDot_quoted [of p keys] by (simp add: toJSONDot_def writable_keys_def quoted_def)
next
  case False
  have pk: "list_all plain_key keys"
    using False assms(3) by (auto simp: writable_keys_def plain_key_def list_ex_iff list_all_iff)
  then show ?thesis
    using False fromJSONDot_plain [OF assms(1,2) pk] by (cases keys) (simp_all add: toJSONDot_def)
qed

end
