(* ===== verification/StanzaEntry.thy ===== *)
theory StanzaEntry
  imports StanzaField
begin

text \<open>
  Log entries and the operations on their body
  (\<^verbatim>\<open>processor/signozlogspipelineprocessor/stanza/entry/body_field.go\<close>), the transformers that
  move values between fields (\<^verbatim>\<open>stanza/operator/operators/{add,copy,move,remove,noop}\<close>) and the
  frame every operator runs in (\<^verbatim>\<open>stanza/operator/helper/transformer.go\<close>). The entry type is the
  one of the \<^verbatim>\<open>stanza\<close> library. A Go map is the list of its entries: maps are values here, so the
  model covers entries in which no map is shared between two places.
\<close>

section \<open>Values and entries\<close>

datatype int_kind = KInt | KInt8 | KInt16 | KInt32 | KInt64 | KUint | KUint8 | KUint16 | KUint32 | KUint64

text \<open>
  What an \<^verbatim>\<open>any\<close> holds. \<open>VNilMap\<close> is the nil \<^verbatim>\<open>map[string]any\<close>, which reads as empty and panics when
  it is written; a float is its bits; \<open>VOther\<close> stands for a value of any other type.
\<close>

datatype any = VNil | VBool bool | VStr string | VBytes string | VInt int_kind i64 | VFloat u64
  | VStrList "string list" | VList "any list" | VMap "(string \<times> any) list" | VNilMap | VOther nat

type_synonym vmap = "(string \<times> any) list"

datatype severity = SevDefault | SevTrace | SevTrace2 | SevTrace3 | SevTrace4
  | SevDebug | SevDebug2 | SevDebug3 | SevDebug4 | SevInfo | SevInfo2 | SevInfo3 | SevInfo4
  | SevWarn | SevWarn2 | SevWarn3 | SevWarn4 | SevError | SevError2 | SevError3 | SevError4
  | SevFatal | SevFatal2 | SevFatal3 | SevFatal4

text \<open>\<^term>\<open>None\<close> is the zero time of \<open>eTimestamp\<close> and the nil slice or map of the other fields.\<close>

record entry =
  eTimestamp :: "int option"
  eObservedTimestamp :: int
  eSeverity :: severity
  eSeverityText :: string
  eAttributes :: "vmap option"
  eResource :: "vmap option"
  eBody :: any
  eTraceID :: "u8 list option"
  eSpanID :: "u8 list option"
  eTraceFlags :: "u8 list option"
  eScopeName :: string

section \<open>Bodies that hold JSON\<close>

definition InternalTempAttributePrefix :: string where
  "InternalTempAttributePrefix = ''__signozlogspipelineprocessor_internal__''"

definition cachedBodyJsonKey :: string where
  "cachedBodyJsonKey = InternalTempAttributePrefix @ ''parsedBodyJson''"

text \<open>The JSON library: a text that does not parse into a map, the text \<^verbatim>\<open>null\<close>, an object.\<close>

datatype json_result = JErr | JNull | JMap vmap

definition body_bytes :: "any \<Rightarrow> string option" where
  "body_bytes v = (case v of VBytes s \<Rightarrow> Some s | VStr s \<Rightarrow> Some s | _ \<Rightarrow> None)"

text \<open>
  \<^verbatim>\<open>ParseBodyJson\<close>: the map, \<^term>\<open>None\<close> for nil, and the entry with the parsed body cached in its
  attributes. The type assertion on a cached value panics when it is not a map.
\<close>

definition ParseBodyJson :: "(string \<Rightarrow> json_result) \<Rightarrow> entry \<Rightarrow> (vmap option \<times> entry) outcome" where
  "ParseBodyJson unmarshal e =
     (case eBody e of
        VMap m \<Rightarrow> Done (Some m, e)
      | VNilMap \<Rightarrow> Done (None, e)
      | _ \<Rightarrow>
          (let al = (case eAttributes e of None \<Rightarrow> [] | Some al \<Rightarrow> al);
               e1 = e\<lparr>eAttributes := Some al\<rparr>
           in case map_of al cachedBodyJsonKey of
                Some (VMap m) \<Rightarrow> Done (Some m, e1)
              | Some VNilMap \<Rightarrow> Done (None, e1)
              | Some _ \<Rightarrow> Panic
              | None \<Rightarrow>
                  (case body_bytes (eBody e) of
                     None \<Rightarrow> Done (None, e1)
                   | Some bs \<Rightarrow>
                       (case unmarshal bs of
                          JErr \<Rightarrow> Done (None, e1)
                        | JNull \<Rightarrow> Done (None, e1\<lparr>eAttributes := Some (AList.update cachedBodyJsonKey VNilMap al)\<rparr>)
                        | JMap m \<Rightarrow>
                            Done (Some m, e1\<lparr>eAttributes := Some (AList.update cachedBodyJsonKey (VMap m) al)\<rparr>)))))"

section \<open>Body fields\<close>

fun get_path :: "string list \<Rightarrow> any \<Rightarrow> any option" where
  "get_path [] v = Some v"
| "get_path (k # ks) v =
     (case v of
        VMap m \<Rightarrow> (case map_of m k of None \<Rightarrow> None | Some v' \<Rightarrow> get_path ks v')
      | _ \<Rightarrow> None)"

definition body_get :: "(string \<Rightarrow> json_result) \<Rightarrow> string list \<Rightarrow> entry \<Rightarrow> (any option \<times> entry) outcome" where
  "body_get unmarshal keys e =
     (if keys = [] then Done (Some (eBody e), e)
      else bind_outcome (ParseBodyJson unmarshal e)
             (\<lambda>(bodyJson, e'). case bodyJson of
                Some m \<Rightarrow> Done (get_path keys (VMap m), e')
              | None \<Rightarrow> Done (get_path keys (eBody e'), e')))"

text \<open>A map value as a reference: \<^term>\<open>Some None\<close> is the nil map. Writing to the nil map panics.\<close>

fun map_ref :: "any \<Rightarrow> vmap option option" where
  "map_ref (VMap m) = Some (Some m)"
| "map_ref VNilMap = Some None"
| "map_ref _ = None"

fun ref_value :: "vmap option \<Rightarrow> any" where
  "ref_value (Some m) = VMap m"
| "ref_value None = VNilMap"

fun map_write :: "string \<Rightarrow> any \<Rightarrow> vmap option \<Rightarrow> vmap option outcome" where
  "map_write k v (Some m) = Done (Some (AList.update k v m))"
| "map_write k v None = Panic"

definition getNestedMap :: "vmap \<Rightarrow> string \<Rightarrow> vmap option" where
  "getNestedMap m k =
     (case map_of m k of
        None \<Rightarrow> Some []
      | Some v \<Rightarrow> (case map_ref v of Some r \<Rightarrow> r | None \<Rightarrow> Some []))"

text \<open>The loop of \<^verbatim>\<open>BodyField.Set\<close>, and the descent of \<^verbatim>\<open>BodyField.Merge\<close>, on the map reached so far.\<close>

fun set_path :: "string list \<Rightarrow> any \<Rightarrow> vmap option \<Rightarrow> vmap option outcome" where
  "set_path [] v cur = Done cur"
| "set_path [k] v cur = map_write k v cur"
| "set_path (k # k' # ks) v cur =
     (case cur of
        None \<Rightarrow> Panic
      | Some m \<Rightarrow> bind_outcome (set_path (k' # ks) v (getNestedMap m k)) (\<lambda>c. map_write k (ref_value c) cur))"

fun write_all :: "vmap \<Rightarrow> vmap option \<Rightarrow> vmap option outcome" where
  "write_all [] cur = Done cur"
| "write_all ((k, v) # kvs) cur = bind_outcome (map_write k v cur) (write_all kvs)"

fun merge_path :: "string list \<Rightarrow> vmap \<Rightarrow> vmap option \<Rightarrow> vmap option outcome" where
  "merge_path [] mv cur = write_all mv cur"
| "merge_path (k # ks) mv cur =
     (case cur of
        None \<Rightarrow> Panic
      | Some m \<Rightarrow> bind_outcome (merge_path ks mv (getNestedMap m k)) (\<lambda>c. map_write k (ref_value c) cur))"

definition body_map :: "any \<Rightarrow> vmap option" where
  "body_map v = (case map_ref v of Some r \<Rightarrow> r | None \<Rightarrow> Some [])"

definition body_merge :: "string list \<Rightarrow> vmap \<Rightarrow> entry \<Rightarrow> entry outcome" where
  "body_merge keys mv e =
     bind_outcome (merge_path keys mv (body_map (eBody e))) (\<lambda>c. Done (e\<lparr>eBody := ref_value c\<rparr>))"

definition body_set :: "string list \<Rightarrow> any \<Rightarrow> entry \<Rightarrow> entry outcome" where
  "body_set keys v e =
     (case map_ref v of
        Some r \<Rightarrow> body_merge keys (case r of Some m \<Rightarrow> m | None \<Rightarrow> []) e
      | None \<Rightarrow>
          if keys = [] then Done (e\<lparr>eBody := v\<rparr>)
          else bind_outcome (set_path keys v (body_map (eBody e))) (\<lambda>c. Done (e\<lparr>eBody := ref_value c\<rparr>)))"

fun delete_path :: "string list \<Rightarrow> vmap \<Rightarrow> (any \<times> vmap) option" where
  "delete_path [] m = None"
| "delete_path [k] m = (case map_of m k of None \<Rightarrow> None | Some v \<Rightarrow> Some (v, AList.delete k m))"
| "delete_path (k # k' # ks) m =
     (case map_of m k of
        Some (VMap m') \<Rightarrow>
          (case delete_path (k' # ks) m' of
             None \<Rightarrow> None
           | Some (v, m'') \<Rightarrow> Some (v, AList.update k (VMap m'') m))
      | _ \<Rightarrow> None)"

definition body_delete :: "string list \<Rightarrow> entry \<Rightarrow> any option \<times> entry" where
  "body_delete keys e =
     (if keys = [] then (Some (eBody e), e\<lparr>eBody := VNil\<rparr>)
      else case eBody e of
             VMap m \<Rightarrow>
               (case delete_path keys m of
                  None \<Rightarrow> (None, e)
                | Some (v, m') \<Rightarrow> (Some v, e\<lparr>eBody := VMap m'\<rparr>))
           | _ \<Rightarrow> (None, e))"

section \<open>Laws of body fields\<close>

definition is_map :: "any \<Rightarrow> bool" where
  "is_map v \<longleftrightarrow> map_ref v \<noteq> None"

text \<open>Two paths are independent when neither is a prefix of the other.\<close>

fun independent :: "string list \<Rightarrow> string list \<Rightarrow> bool" where
  "independent (k # ks) (l # ls) \<longleftrightarrow> k \<noteq> l \<or> independent ks ls"
| "independent _ _ \<longleftrightarrow> False"

lemma map_write_Done [simp]: "map_write k v cur = Done c \<longleftrightarrow> (\<exists>m. cur = Some m \<and> c = Some (AList.update k v m))"
  by (cases cur) auto

lemma set_path_get:
  "set_path keys v cur = Done c \<Longrightarrow> keys \<noteq> [] \<Longrightarrow> get_path keys (ref_value c) = Some v"
  by (induction keys v cur arbitrary: c rule: set_path.induct) (auto split: option.splits)

lemma set_path_Some: "set_path keys v cur = Done c \<Longrightarrow> keys \<noteq> [] \<Longrightarrow> \<exists>m. cur = Some m"
  by (cases "(keys, v, cur)" rule: set_path.cases) (auto split: option.splits)

lemma get_path_nested:
  assumes "keys \<noteq> []"
  shows "get_path keys (ref_value (getNestedMap m k)) = get_path (k # keys) (VMap m)"
proof -
  obtain l ls where "keys = l # ls" using assms by (cases keys) auto
  then show ?thesis
    by (auto simp: getNestedMap_def split: option.splits any.splits)
qed

lemma set_path_other:
  "set_path keys v cur = Done c \<Longrightarrow> independent keys ls \<Longrightarrow> get_path ls (ref_value c) = get_path ls (ref_value cur)"
proof (induction keys v cur arbitrary: c ls rule: set_path.induct)
  case (2 k v cur)
  then show ?case by (cases ls) auto
next
  case (3 k k' ks v cur)
  then obtain m d where m: "cur = Some m" "set_path (k' # ks) v (getNestedMap m k) = Done d"
      "c = Some (AList.update k (ref_value d) m)"
    by (auto split: option.splits)
  obtain l ls' where l: "ls = l # ls'" using "3.prems"(2) by (cases ls) auto
  show ?case
  proof (cases "k = l")
    case False
    then show ?thesis using m l by simp
  next
    case True
    then have ind: "independent (k' # ks) ls'" using "3.prems"(2) l by simp
    then have "ls' \<noteq> []" by auto
    have "get_path ls' (ref_value d) = get_path ls' (ref_value (getNestedMap m k))"
      using "3.IH" [OF m(1) m(2) ind] by simp
    then show ?thesis
      using m l True get_path_nested [OF \<open>ls' \<noteq> []\<close>, of m k] by simp
  qed
qed simp

lemma delete_path_get:
  "delete_path keys m = Some (v, m') \<Longrightarrow> get_path keys (VMap m) = Some v \<and> get_path keys (VMap m') = None"
proof (induction keys m arbitrary: m' rule: delete_path.induct)
  case (2 k m)
  then show ?case by (auto simp: delete_conv' split: option.splits)
next
  case (3 k k' ks m)
  then obtain n n' where n: "map_of m k = Some (VMap n)" "delete_path (k' # ks) n = Some (v, n')"
      "m' = AList.update k (VMap n') m"
    by (auto split: option.splits any.splits)
  then show ?case using "3.IH" [OF n(1) _ n(2)] by simp
qed simp

lemma delete_path_other:
  "delete_path keys m = Some (v, m') \<Longrightarrow> independent keys ls \<Longrightarrow> get_path ls (VMap m') = get_path ls (VMap m)"
proof (induction keys m arbitrary: m' ls rule: delete_path.induct)
  case (2 k m)
  then show ?case by (cases ls) (auto simp: delete_conv' split: option.splits)
next
  case (3 k k' ks m)
  then obtain n n' where n: "map_of m k = Some (VMap n)" "delete_path (k' # ks) n = Some (v, n')"
      "m' = AList.update k (VMap n') m"
    by (auto split: option.splits any.splits)
  then show ?case using "3.IH" [OF n(1) _ n(2)] "3.prems"(2) by (cases ls) auto
qed simp

lemma get_path_body_map:
  "ks \<noteq> [] \<Longrightarrow> get_path ks (ref_value (body_map v)) = get_path ks v"
  by (cases ks; cases v) (auto simp: body_map_def)

lemma independent_nonempty: "independent ks ls \<Longrightarrow> ks \<noteq> [] \<and> ls \<noteq> []"
  by (cases ks; cases ls) auto

lemma body_set_scalar:
  assumes "\<not> is_map v" and "keys \<noteq> []"
  shows "body_set keys v e =
    bind_outcome (set_path keys v (body_map (eBody e))) (\<lambda>c. Done (e\<lparr>eBody := ref_value c\<rparr>))"
  using assms by (simp add: body_set_def is_map_def)

lemma body_set_get:
  assumes "\<not> is_map v" and "body_set keys v e = Done e'"
  shows "get_path keys (eBody e') = Some v"
proof (cases "keys = []")
  case True
  then show ?thesis using assms by (auto simp: body_set_def is_map_def)
next
  case False
  then show ?thesis using assms set_path_get [of keys v] by (auto simp: body_set_scalar)
qed

lemma body_set_other:
  assumes "\<not> is_map v" and "independent keys ls" and "body_set keys v e = Done e'"
  shows "get_path ls (eBody e') = get_path ls (eBody e)"
proof -
  note ne = independent_nonempty [OF assms(2)]
  obtain c where "set_path keys v (body_map (eBody e)) = Done c" "eBody e' = ref_value c"
    using assms ne by (auto simp: body_set_scalar)
  then show ?thesis
    using set_path_other [OF _ assms(2)] get_path_body_map ne by auto
qed

lemma body_delete_get:
  assumes "keys \<noteq> []" and "body_delete keys e = (Some v, e')"
  shows "get_path keys (eBody e) = Some v" and "get_path keys (eBody e') = None"
  using assms delete_path_get [of keys _ v]
  by (auto simp: body_delete_def split: any.splits option.splits)

lemma body_delete_other:
  assumes "independent keys ls" and "body_delete keys e = (Some v, e')"
  shows "get_path ls (eBody e') = get_path ls (eBody e)"
  using assms(2) delete_path_other [OF _ assms(1)] independent_nonempty [OF assms(1)]
  by (auto simp: body_delete_def split: any.splits option.splits)

section \<open>The interface of a field\<close>

text \<open>
  What the operators need of the fields of an entry: reading back what was written, losing
  what was deleted, and leaving independent fields alone.
\<close>

locale field_store =
  fixes get :: "'p \<Rightarrow> 'e \<Rightarrow> any option"
    and put :: "'p \<Rightarrow> any \<Rightarrow> 'e \<Rightarrow> 'e outcome"
    and del :: "'p \<Rightarrow> 'e \<Rightarrow> any option \<times> 'e"
    and scalar :: "any \<Rightarrow> bool"
    and proper :: "'p \<Rightarrow> bool"
    and indep :: "'p \<Rightarrow> 'p \<Rightarrow> bool"
  assumes put_get: "scalar v \<Longrightarrow> put p v e = Done e' \<Longrightarrow> get p e' = Some v"
    and put_other: "scalar v \<Longrightarrow> indep p q \<Longrightarrow> put p v e = Done e' \<Longrightarrow> get q e' = get q e"
    and del_get: "proper p \<Longrightarrow> del p e = (Some v, e') \<Longrightarrow> get p e = Some v \<and> get p e' = None"
    and del_other: "indep p q \<Longrightarrow> del p e = (Some v, e') \<Longrightarrow> get q e' = get q e"
begin

text \<open>Writing a value to a new place and then deleting the old one renames the field.\<close>

lemma rename:
  assumes "get p e = Some v" "scalar v" "proper p" "indep p q" "indep q p"
    and "put q v e = Done e1" "del p e1 = (Some w, e2)"
  shows "w = v \<and> get q e2 = Some v \<and> get p e2 = None \<and>
    (\<forall>r. indep p r \<longrightarrow> indep q r \<longrightarrow> get r e2 = get r e)"
proof -
  have "get p e1 = Some v" using put_other [OF assms(2,5,6)] assms(1) by simp
  moreover have "get q e1 = Some v" by (rule put_get [OF assms(2,6)])
  moreover have "get q e2 = get q e1" by (rule del_other [OF assms(4,7)])
  moreover have "get r e2 = get r e" if "indep p r" "indep q r" for r
    using del_other [OF that(1) assms(7)] put_other [OF assms(2) that(2) assms(6)] by simp
  ultimately show ?thesis using del_get [OF assms(3,7)] by auto
qed

text \<open>Deleting first and writing then, what a move does.\<close>

lemma move:
  assumes "del p e = (Some v, e1)" "scalar v" "proper p" "indep q p" "put q v e1 = Done e2"
  shows "get p e = Some v \<and> get q e2 = Some v \<and> get p e2 = None"
  using assms del_get [OF assms(3,1)] put_get [OF assms(2,5)] put_other [OF assms(2,4,5)] by simp

end

interpretation bf: field_store "\<lambda>keys e. get_path keys (eBody e)" body_set body_delete "\<lambda>v. \<not> is_map v"
  "\<lambda>keys. keys \<noteq> []" independent
proof (unfold_locales, goal_cases)
  case (1 v p e e')
  then show ?case by (rule body_set_get)
next
  case (2 v p q e e')
  then show ?case by (rule body_set_other)
next
  case (3 p e v e')
  then show ?case using body_delete_get by blast
next
  case (4 p q e v e')
  then show ?case by (rule body_delete_other)
qed

section \<open>Transformers\<close>

text \<open>
  A field as an operator uses it. The library's fields are such records too. Setting may give an
  error, reading may change the entry (it caches the parsed body) or panic.
\<close>

record field_ops =
  fGet :: "entry \<Rightarrow> (any option \<times> entry) outcome"
  fSet :: "any \<Rightarrow> entry \<Rightarrow> (string option \<times> entry) outcome"
  fDelete :: "entry \<Rightarrow> any option \<times> entry"
  fString :: string

definition body_field_ops :: "(string \<Rightarrow> json_result) \<Rightarrow> string list \<Rightarrow> field_ops" where
  "body_field_ops unmarshal keys =
     \<lparr>fGet = body_get unmarshal keys,
      fSet = (\<lambda>v e. bind_outcome (body_set keys v e) (\<lambda>e'. Done (None, e'))),
      fDelete = body_delete keys, fString = body_field_string keys\<rparr>"

text \<open>A transform returns its error, if any, and the entry it changed.\<close>

type_synonym transform = "entry \<Rightarrow> (string option \<times> entry) outcome"

definition copy_transform :: "field_ops \<Rightarrow> field_ops \<Rightarrow> transform" where
  "copy_transform from to e =
     bind_outcome (fGet from e) (\<lambda>(val, e1).
       case val of
         None \<Rightarrow> Done (Some (''copy: from field does not exist in this entry: '' @ fString from), e1)
       | Some v \<Rightarrow> fSet to v e1)"

definition move_transform :: "field_ops \<Rightarrow> field_ops \<Rightarrow> transform" where
  "move_transform from to e =
     (case fDelete from e of
        (None, e1) \<Rightarrow> Done (Some (''move: field does not exist: '' @ fString from), e1)
      | (Some v, e1) \<Rightarrow> fSet to v e1)"

datatype rootable_field = AllAttributes | AllResource | RField field_ops

definition remove_transform :: "rootable_field \<Rightarrow> transform" where
  "remove_transform field e =
     (case field of
        AllAttributes \<Rightarrow> Done (None, e\<lparr>eAttributes := None\<rparr>)
      | AllResource \<Rightarrow> Done (None, e\<lparr>eResource := None\<rparr>)
      | RField f \<Rightarrow>
          (case fDelete f e of
             (None, e1) \<Rightarrow> Done (Some (''remove: field does not exist: '' @ fString f), e1)
           | (Some v, e1) \<Rightarrow> Done (None, e1)))"

text \<open>
  Expressions (\<^verbatim>\<open>expr-lang\<close>) are functions of their environment: the entry, whose attributes are
  those before the body was parsed when there were none, and the parsed body when the
  expression refers to a field of it.
\<close>

record expr_env =
  env_entry :: entry
  env_body_map :: "vmap option option"

definition GetExprEnv :: "(string \<Rightarrow> json_result) \<Rightarrow> entry \<Rightarrow> bool \<Rightarrow> (expr_env \<times> entry) outcome" where
  "GetExprEnv unmarshal e hasBodyFieldRef =
     (if hasBodyFieldRef
      then bind_outcome (ParseBodyJson unmarshal e) (\<lambda>(m, e').
             Done (\<lparr>env_entry = (if eAttributes e = None then e else e'), env_body_map = Some m\<rparr>, e'))
      else Done (\<lparr>env_entry = e, env_body_map = None\<rparr>, e))"

record 'r program =
  prog_run :: "expr_env \<Rightarrow> string + 'r"
  prog_bodyRef :: bool

text \<open>\<open>value\<close> is the configured constant, \<^term>\<open>VNil\<close> when there is none.\<close>

definition add_transform ::
  "(string \<Rightarrow> json_result) \<Rightarrow> field_ops \<Rightarrow> any \<Rightarrow> any program option \<Rightarrow> transform" where
  "add_transform unmarshal field v prog e =
     (if v \<noteq> VNil then fSet field v e
      else case prog of
             Some pr \<Rightarrow>
               bind_outcome (GetExprEnv unmarshal e (prog_bodyRef pr)) (\<lambda>(env, e1).
                 case prog_run pr env of
                   Inl err \<Rightarrow> Done (Some (''evaluate value_expr: '' @ err), e1)
                 | Inr r \<Rightarrow> fSet field r e1)
           | None \<Rightarrow> Done (Some (''add: missing required field '' @ [CHR 0x27] @ ''value'' @ [CHR 0x27]), e))"

section \<open>The frame of an operator\<close>

datatype on_error = SendOnError | SendOnErrorQuiet | DropOnError | DropOnErrorQuiet

text \<open>
  \<open>write\<close> hands the entry to the next operator, which changes it in place. Its error is ignored.
\<close>

definition HandleEntryError ::
  "on_error \<Rightarrow> (entry \<Rightarrow> entry outcome) \<Rightarrow> entry \<Rightarrow> string \<Rightarrow> (string option \<times> entry) outcome" where
  "HandleEntryError onError write e err =
     (if onError = SendOnError \<or> onError = SendOnErrorQuiet
      then bind_outcome (write e) (\<lambda>e'. Done (Some err, e'))
      else Done (Some err, e))"

definition Skip ::
  "(string \<Rightarrow> json_result) \<Rightarrow> bool program option \<Rightarrow> entry \<Rightarrow> ((string + bool) \<times> entry) outcome" where
  "Skip unmarshal ifExpr e =
     (case ifExpr of
        None \<Rightarrow> Done (Inr False, e)
      | Some pr \<Rightarrow>
          bind_outcome (GetExprEnv unmarshal e (prog_bodyRef pr)) (\<lambda>(env, e1).
            case prog_run pr env of
              Inl err \<Rightarrow> Done (Inl (''running if expr: '' @ err), e1)
            | Inr matches \<Rightarrow> Done (Inr (\<not> matches), e1)))"

definition ProcessWith ::
  "(string \<Rightarrow> json_result) \<Rightarrow> on_error \<Rightarrow> bool program option \<Rightarrow> (entry \<Rightarrow> entry outcome) \<Rightarrow> transform \<Rightarrow> transform" where
  "ProcessWith unmarshal onError ifExpr write transform e =
     bind_outcome (Skip unmarshal ifExpr e) (\<lambda>(skip, e1).
       case skip of
         Inl err \<Rightarrow> HandleEntryError onError write e1 err
       | Inr True \<Rightarrow> bind_outcome (write e1) (\<lambda>e2. Done (None, e2))
       | Inr False \<Rightarrow>
           bind_outcome (transform e1) (\<lambda>(err, e2).
             case err of
               Some err \<Rightarrow> HandleEntryError onError write e2 err
             | None \<Rightarrow> bind_outcome (write e2) (\<lambda>e3. Done (None, e3))))"

definition noop_process :: "(entry \<Rightarrow> entry outcome) \<Rightarrow> transform" where
  "noop_process write e = bind_outcome (write e) (\<lambda>e'. Done (None, e'))"

end
