(* ===== verification/StanzaOps.thy ===== *)
theory StanzaOps
  imports StanzaEntry "HOL-Library.Char_ord" "HOL-Library.List_Lexorder"
begin

text \<open>
  The operators of the logs pipeline under \<^verbatim>\<open>stanza/operator\<close>: severity, epoch time, trace and
  scope parsers, the parser frame, the normalizer, JSON flattening, the router, and the cache of
  the regex parser with its limiter.
\<close>

section \<open>What the operators call\<close>

text \<open>
  JSON decoding, Unicode lower casing, the integer a float64 is when it is whole, \<^verbatim>\<open>%v\<close> formatting,
  \<^verbatim>\<open>strconv.Unquote\<close>, the streaming JSON decoder of \<^verbatim>\<open>sonic\<close> (what it stored, and whether it
  succeeded) and \<^verbatim>\<open>sonic.Marshal\<close>.
\<close>

record ops_env =
  unmarshalJSON :: "string \<Rightarrow> json_result"
  toLower :: "string \<Rightarrow> string"
  wholeFloat :: "u64 \<Rightarrow> int option"
  sprint :: "any \<Rightarrow> string"
  unquote :: "string \<Rightarrow> string option"
  sonicDecode :: "string \<Rightarrow> vmap \<times> bool"
  sonicMarshal :: "any \<Rightarrow> string option"

section \<open>Severity\<close>

type_synonym severity_map = "(string \<times> severity) list"

definition severities :: "severity list" where
  "severities = [SevTrace, SevTrace2, SevTrace3, SevTrace4, SevDebug, SevDebug2, SevDebug3, SevDebug4,
     SevInfo, SevInfo2, SevInfo3, SevInfo4, SevWarn, SevWarn2, SevWarn3, SevWarn4,
     SevError, SevError2, SevError3, SevError4, SevFatal, SevFatal2, SevFatal3, SevFatal4]"

definition severity_names :: "string list" where
  "severity_names = [''trace'', ''trace2'', ''trace3'', ''trace4'', ''debug'', ''debug2'', ''debug3'', ''debug4'',
     ''info'', ''info2'', ''info3'', ''info4'', ''warn'', ''warn2'', ''warn3'', ''warn4'',
     ''error'', ''error2'', ''error3'', ''error4'', ''fatal'', ''fatal2'', ''fatal3'', ''fatal4'']"

definition alias_mapping :: severity_map where
  "alias_mapping =
     zip severity_names severities @ zip (map (\<lambda>i. format_int (int i)) [1..<25]) severities"

definition map_add_values :: "severity_map \<Rightarrow> severity \<Rightarrow> string list \<Rightarrow> severity_map" where
  "map_add_values m sev vals = foldl (\<lambda>m s. AList.update s sev m) m vals"

definition getBuiltinMapping :: "string \<Rightarrow> severity_map" where
  "getBuiltinMapping name =
     (if name = ''none'' then []
      else if name = ''otel'' \<or> name = ''aliases'' then alias_mapping
      else foldl (\<lambda>m (sev, s). map_add_values m sev [s]) alias_mapping
             [(SevWarn, ''warning''), (SevWarn2, ''warning2''), (SevWarn3, ''warning3''), (SevWarn4, ''warning4''),
              (SevError, ''err''), (SevError2, ''err2''), (SevError3, ''err3''), (SevError4, ''err4'')])"

definition sev_lookup :: "severity_map \<Rightarrow> string \<Rightarrow> severity" where
  "sev_lookup m s = (case map_of m s of Some sev \<Rightarrow> sev | None \<Rightarrow> SevDefault)"

text \<open>\<^verbatim>\<open>severityMap.find\<close>: the level and the text, or the error.\<close>

definition sev_find :: "ops_env \<Rightarrow> severity_map \<Rightarrow> any \<Rightarrow> string + severity \<times> string" where
  "sev_find env m v =
     (case v of
        VInt KInt i \<Rightarrow> (let s = format_int (sint i) in Inr (sev_lookup m s, s))
      | VFloat f \<Rightarrow>
          (case wholeFloat env f of
             None \<Rightarrow> Inl ''cannot be a severity unless it is a whole number''
           | Some n \<Rightarrow> (let s = format_int n in Inr (sev_lookup m s, s)))
      | VStr s \<Rightarrow> Inr (sev_lookup m (toLower env s), s)
      | VBytes s \<Rightarrow> Inr (sev_lookup m (toLower env s), s)
      | _ \<Rightarrow> Inl ''cannot be a severity'')"

definition expandRange :: "int \<Rightarrow> int \<Rightarrow> string list" where
  "expandRange mn mx = (if mn > mx then map format_int [mx..mn] else map format_int [mn..mx])"

definition isRange :: "any \<Rightarrow> (int \<times> int) option" where
  "isRange v =
     (case v of
        VMap m \<Rightarrow>
          (case (map_of m ''min'', map_of m ''max'') of
             (Some (VInt KInt a), Some (VInt KInt b)) \<Rightarrow> Some (sint a, sint b)
           | _ \<Rightarrow> None)
      | _ \<Rightarrow> None)"

definition parseableValues :: "ops_env \<Rightarrow> any \<Rightarrow> string + string list" where
  "parseableValues env v =
     (case v of
        VInt KInt i \<Rightarrow> Inr [format_int (sint i)]
      | VStr s \<Rightarrow>
          (if s = ''2xx'' then Inr (expandRange 200 299)
           else if s = ''3xx'' then Inr (expandRange 300 399)
           else if s = ''4xx'' then Inr (expandRange 400 499)
           else if s = ''5xx'' then Inr (expandRange 500 599)
           else Inr [toLower env s])
      | VBytes s \<Rightarrow> Inr [toLower env s]
      | _ \<Rightarrow> (case isRange v of
               Some (mn, mx) \<Rightarrow> Inr (expandRange mn mx)
             | None \<Rightarrow> Inl ''cannot be parsed as a severity''))"

definition validateSeverity :: "ops_env \<Rightarrow> string \<Rightarrow> string + severity" where
  "validateSeverity env s =
     (case sev_find env (getBuiltinMapping ''aliases'') (VStr s) of Inl e \<Rightarrow> Inl e | Inr (sev, t) \<Rightarrow> Inr sev)"

fun add_values :: "ops_env \<Rightarrow> severity \<Rightarrow> any list \<Rightarrow> severity_map \<Rightarrow> string + severity_map" where
  "add_values env sev [] m = Inr m"
| "add_values env sev (v # vs) m =
     (case parseableValues env v of
        Inl e \<Rightarrow> Inl e
      | Inr ss \<Rightarrow> add_values env sev vs (map_add_values m sev ss))"

text \<open>The loop of \<^verbatim>\<open>SeverityConfig.Build\<close>; a nil value matches neither case of its type switch.\<close>

fun build_mapping :: "ops_env \<Rightarrow> (string \<times> any) list \<Rightarrow> severity_map \<Rightarrow> string + severity_map" where
  "build_mapping env [] m = Inr m"
| "build_mapping env ((name, unknown) # rest) m =
     (case validateSeverity env name of
        Inl e \<Rightarrow> Inl e
      | Inr sev \<Rightarrow>
          (case (case unknown of VNil \<Rightarrow> Inr m | VList vs \<Rightarrow> add_values env sev vs m | u \<Rightarrow> add_values env sev [u] m) of
             Inl e \<Rightarrow> Inl e
           | Inr m' \<Rightarrow> build_mapping env rest m'))"

record severity_parser =
  sp_parseFrom :: field_ops
  sp_mapping :: severity_map
  overwriteText :: bool

definition severity_build ::
  "ops_env \<Rightarrow> field_ops option \<Rightarrow> string \<Rightarrow> (string \<times> any) list \<Rightarrow> bool \<Rightarrow> string + severity_parser" where
  "severity_build env parseFrom preset mapping overwrite =
     (case build_mapping env mapping (getBuiltinMapping preset) of
        Inl e \<Rightarrow> Inl e
      | Inr m \<Rightarrow>
          (case parseFrom of
             None \<Rightarrow> Inl (''missing required field '' @ [CHR 0x27] @ ''parse_from'' @ [CHR 0x27])
           | Some f \<Rightarrow> Inr \<lparr>sp_parseFrom = f, sp_mapping = m, overwriteText = overwrite\<rparr>))"

definition missing_parse_from :: string where
  "missing_parse_from = ''log entry does not have the expected parse_from field''"

text \<open>\<open>sevString\<close> is the library's name of a level.\<close>

definition severity_parse :: "ops_env \<Rightarrow> (severity \<Rightarrow> string) \<Rightarrow> severity_parser \<Rightarrow> transform" where
  "severity_parse env sevString p e =
     bind_outcome (fGet (sp_parseFrom p) e) (\<lambda>(v, e1).
       case v of
         None \<Rightarrow> Done (Some missing_parse_from, e1)
       | Some v \<Rightarrow>
           (case sev_find env (sp_mapping p) v of
              Inl err \<Rightarrow> Done (Some err, e1)
            | Inr (sev, t) \<Rightarrow>
                (let t' = (if overwriteText p \<and> sev \<noteq> SevDefault then sevString sev else t)
                 in Done (None, e1\<lparr>eSeverity := sev, eSeverityText := t'\<rparr>))))"

section \<open>Trace ids\<close>

definition hex_digit :: "char \<Rightarrow> nat option" where
  "hex_digit c =
     (let n = of_char c :: nat
      in if 48 \<le> n \<and> n \<le> 57 then Some (n - 48)
         else if 97 \<le> n \<and> n \<le> 102 then Some (n - 87)
         else if 65 \<le> n \<and> n \<le> 70 then Some (n - 55)
         else None)"

text \<open>\<^verbatim>\<open>hex.DecodeString\<close>; \<^term>\<open>None\<close> is an error.\<close>

fun hex_decode :: "string \<Rightarrow> u8 list option" where
  "hex_decode [] = Some []"
| "hex_decode [c] = None"
| "hex_decode (a # b # cs) =
     (case (hex_digit a, hex_digit b, hex_decode cs) of
        (Some x, Some y, Some bs) \<Rightarrow> Some (of_nat (16 * x + y) # bs)
      | _ \<Rightarrow> None)"

text \<open>The bytes, \<^term>\<open>None\<close> for nil, and whether decoding failed.\<close>

definition parseHexField :: "ops_env \<Rightarrow> field_ops \<Rightarrow> entry \<Rightarrow> ((u8 list option \<times> bool) \<times> entry) outcome" where
  "parseHexField env f e =
     bind_outcome (fGet f e) (\<lambda>(v, e1).
       case v of
         None \<Rightarrow> Done ((None, False), e1)
       | Some v \<Rightarrow>
           (case hex_decode (sprint env v) of
              None \<Rightarrow> Done ((None, True), e1)
            | Some bs \<Rightarrow> Done ((Some bs, False), e1)))"

definition trace_parse :: "ops_env \<Rightarrow> field_ops \<Rightarrow> field_ops \<Rightarrow> field_ops \<Rightarrow> transform" where
  "trace_parse env tid sid flags e =
     bind_outcome (parseHexField env tid e) (\<lambda>((t, err1), e1).
     bind_outcome (parseHexField env sid (e1\<lparr>eTraceID := t\<rparr>)) (\<lambda>((s, err2), e2).
     bind_outcome (parseHexField env flags (e2\<lparr>eSpanID := s\<rparr>)) (\<lambda>((f, err3), e3).
       Done (if err1 \<or> err2 \<or> err3 then Some ''Error decoding traces for logs'' else None, e3\<lparr>eTraceFlags := f\<rparr>))))"

section \<open>Scope names\<close>

definition scope_parse :: "field_ops \<Rightarrow> transform" where
  "scope_parse f e =
     bind_outcome (fGet f e) (\<lambda>(v, e1).
       case v of
         None \<Rightarrow> Done (Some missing_parse_from, e1)
       | Some (VStr s) \<Rightarrow> Done (None, e1\<lparr>eScopeName := s\<rparr>)
       | Some v \<Rightarrow> bind_outcome (fSet f v e1) (\<lambda>(err, e2). Done (Some ''parse_from field does not contain a string'', e2)))"

section \<open>Epoch times\<close>

text \<open>
  Times are nanoseconds from the epoch. \<^verbatim>\<open>time.Unix(sec, nsec)\<close> is their sum.
\<close>

definition time_of_unix :: "int \<Rightarrow> int \<Rightarrow> int" where
  "time_of_unix sec nsec = sec * 1000000000 + nsec"

definition toTime :: "string \<Rightarrow> int \<Rightarrow> int" where
  "toTime layout i =
     (if layout = ''s'' then time_of_unix i 0
      else if layout = ''ms'' then time_of_unix (go_quot i 1000) (go_rem i 1000 * 1000000)
      else if layout = ''us'' then time_of_unix (go_quot i 1000000) (go_rem i 1000000 * 1000)
      else time_of_unix 0 i)"

definition subsecToNs :: "string \<Rightarrow> int" where
  "subsecToNs layout = (if layout = ''s.ms'' then 1000000 else if layout = ''s.us'' then 1000 else 1)"

text \<open>A string at its dots.\<close>

fun split_dots :: "string \<Rightarrow> string \<Rightarrow> string list" where
  "split_dots cur [] = [cur]"
| "split_dots cur (c # cs) = (if c = CHR ''.'' then cur # split_dots [] cs else split_dots (cur @ [c]) cs)"

definition whole_layouts :: "string list" where
  "whole_layouts = [''s'', ''ms'', ''us'', ''ns'']"

definition split_layouts :: "string list" where
  "split_layouts = [''s.ms'', ''s.us'', ''s.ns'']"

text \<open>
  \<open>fmtFloat\<close> is the library's formatting of a float with the given number of decimals, \<open>None\<close> for truncation to an integer.
\<close>

definition getEpochStamp :: "(nat option \<Rightarrow> u64 \<Rightarrow> string) \<Rightarrow> string \<Rightarrow> any \<Rightarrow> string + string" where
  "getEpochStamp fmtFloat layout v =
     (case v of
        VStr s \<Rightarrow> Inr s
      | VBytes s \<Rightarrow> Inr s
      | VInt k i \<Rightarrow>
          (if k \<in> {KInt, KInt32, KInt64, KUint32, KUint64}
           then (let d = (if k \<in> {KUint32, KUint64} then format_int (uint i) else format_int (sint i))
                 in if layout \<in> set whole_layouts then Inr d
                    else if layout \<in> set split_layouts then Inr (d @ ''.0'')
                    else Inl ''invalid layout'')
           else Inl ''cannot be parsed as a time'')
      | VFloat f \<Rightarrow>
          (if layout \<in> set whole_layouts then Inr (fmtFloat None f)
           else if layout = ''s.ms'' then Inr (fmtFloat (Some 3) f)
           else if layout = ''s.us'' then Inr (fmtFloat (Some 6) f)
           else if layout = ''s.ns'' then Inr (fmtFloat (Some 9) f)
           else Inl ''invalid layout'')
      | _ \<Rightarrow> Inl ''cannot be parsed as a time'')"

text \<open>The product of a fraction and its unit wraps around at 64 bits.\<close>

definition parseEpochTime :: "(nat option \<Rightarrow> u64 \<Rightarrow> string) \<Rightarrow> string \<Rightarrow> any \<Rightarrow> string + int" where
  "parseEpochTime fmtFloat layout v =
     (case getEpochStamp fmtFloat layout v of
        Inl e \<Rightarrow> Inl e
      | Inr stamp \<Rightarrow>
          (if layout \<in> set whole_layouts
           then (case parse_int64 stamp of None \<Rightarrow> Inl ''invalid value'' | Some i \<Rightarrow> Inr (toTime layout i))
           else if layout \<in> set split_layouts
           then (case split_dots [] stamp of
                   [a, b] \<Rightarrow>
                     (case (parse_int64 a, parse_int64 b) of
                        (Some sec, Some subsec) \<Rightarrow>
                          Inr (time_of_unix sec (sint (of_int (subsec * subsecToNs layout) :: i64)))
                      | _ \<Rightarrow> Inl ''invalid value'')
                 | _ \<Rightarrow> Inl ''invalid value'')
           else Inl ''invalid layout''))"

section \<open>The frame of a parser\<close>

text \<open>
  \<open>parsers\<close> are the optional time, severity, trace and scope parsers, in that order, each with the
  name its error is wrapped in. All of them run; the first error is reported.
\<close>

record parser_op =
  po_onError :: on_error
  po_ifExpr :: "bool program option"
  po_parseFrom :: field_ops
  po_parseTo :: field_ops
  po_bodyField :: "field_ops option"
  po_parsers :: "(string \<times> transform) list"

fun run_parsers :: "(string \<times> transform) list \<Rightarrow> transform" where
  "run_parsers [] e = Done (None, e)"
| "run_parsers ((name, f) # fs) e =
     bind_outcome (f e) (\<lambda>(err, e1).
     bind_outcome (run_parsers fs e1) (\<lambda>(err', e2).
       Done (case err of Some x \<Rightarrow> Some (name @ '': '' @ x) | None \<Rightarrow> err', e2)))"

definition ParseWith ::
  "parser_op \<Rightarrow> (entry \<Rightarrow> entry outcome) \<Rightarrow> (any \<Rightarrow> string + any) \<Rightarrow> transform" where
  "ParseWith p write parse e =
     bind_outcome (fGet (po_parseFrom p) e) (\<lambda>(v, e1).
       case v of
         None \<Rightarrow> HandleEntryError (po_onError p) write e1 ''Entry is missing the expected parse_from field.''
       | Some v \<Rightarrow>
           (case parse v of
              Inl err \<Rightarrow> HandleEntryError (po_onError p) write e1 err
            | Inr newValue \<Rightarrow>
                bind_outcome (fSet (po_parseTo p) newValue e1) (\<lambda>(err, e2).
                  case err of
                    Some err \<Rightarrow> HandleEntryError (po_onError p) write e2 (''set parse_to: '' @ err)
                  | None \<Rightarrow>
                      bind_outcome
                        (case po_bodyField p of
                           None \<Rightarrow> Done e2
                         | Some bf \<Rightarrow>
                             bind_outcome (fGet bf e2) (\<lambda>(b, e3).
                               Done (case b of Some b \<Rightarrow> e3\<lparr>eBody := b\<rparr> | None \<Rightarrow> e3)))
                        (\<lambda>e3. bind_outcome (run_parsers (po_parsers p) e3) (\<lambda>(err, e4).
                           case err of
                             Some err \<Rightarrow> HandleEntryError (po_onError p) write e4 err
                           | None \<Rightarrow> Done (None, e4))))))"

definition ParserProcessWith ::
  "(string \<Rightarrow> json_result) \<Rightarrow> parser_op \<Rightarrow> (entry \<Rightarrow> entry outcome) \<Rightarrow> (any \<Rightarrow> string + any) \<Rightarrow> transform" where
  "ParserProcessWith unmarshal p write parse e =
     bind_outcome (Skip unmarshal (po_ifExpr p) e) (\<lambda>(skip, e1).
       case skip of
         Inl err \<Rightarrow> HandleEntryError (po_onError p) write e1 err
       | Inr True \<Rightarrow> bind_outcome (write e1) (\<lambda>e2. Done (None, e2))
       | Inr False \<Rightarrow>
           bind_outcome (ParseWith p write parse e1) (\<lambda>(err, e2).
             case err of
               Some err \<Rightarrow> Done (Some err, e2)
             | None \<Rightarrow> bind_outcome (write e2) (\<lambda>e3. Done (None, e3))))"

section \<open>The normalizer\<close>

definition MessageField :: string where
  "MessageField = ''message''"

definition message_get :: "ops_env \<Rightarrow> entry \<Rightarrow> (any option \<times> entry) outcome" where
  "message_get env e = body_get (unmarshalJSON env) [MessageField] e"

definition Unquote :: "ops_env \<Rightarrow> string \<Rightarrow> string" where
  "Unquote env s = (case unquote env s of Some u \<Rightarrow> u | None \<Rightarrow> s)"

definition processTextLogs :: "ops_env \<Rightarrow> string \<Rightarrow> vmap" where
  "processTextLogs env str =
     (let unquoted = Unquote env str
      in if has_prefix ''{'' unquoted \<and> has_suffix ''}'' unquoted
         then (case sonicDecode env unquoted of
                 (output, True) \<Rightarrow> output
               | (output, False) \<Rightarrow> AList.update MessageField (VStr str) output)
         else [(MessageField, VStr str)])"

text \<open>
  \<^verbatim>\<open>reflect.TypeOf(val).Kind()\<close> calls a method of the nil type when the value is nil, which panics.
\<close>

datatype go_kind = KindMap | KindSlice | KindOther

fun reflect_kind :: "any \<Rightarrow> go_kind outcome" where
  "reflect_kind VNil = Panic"
| "reflect_kind (VMap m) = Done KindMap"
| "reflect_kind VNilMap = Done KindMap"
| "reflect_kind (VList vs) = Done KindSlice"
| "reflect_kind (VStrList vs) = Done KindSlice"
| "reflect_kind (VBytes bs) = Done KindSlice"
| "reflect_kind _ = Done KindOther"

text \<open>
  A map under \<open>message\<close> is shifted to the top level, entry by entry. Go leaves open whether entries
  the loop itself adds to the map (those of a nested \<open>message\<close> map) are visited; here they are not.
\<close>

fun shift_keys :: "vmap \<Rightarrow> entry \<Rightarrow> entry outcome" where
  "shift_keys [] e = Done e"
| "shift_keys ((k, v) # kvs) e = bind_outcome (body_set [k] v e) (shift_keys kvs)"

definition drop_empty_message :: "ops_env \<Rightarrow> entry \<Rightarrow> entry outcome" where
  "drop_empty_message env e =
     bind_outcome (message_get env e) (\<lambda>(v, e1).
       case v of
         Some (VMap []) \<Rightarrow> Done (snd (body_delete [MessageField] e1))
       | Some VNilMap \<Rightarrow> Done (snd (body_delete [MessageField] e1))
       | _ \<Rightarrow> Done e1)"

definition normalize_map :: "ops_env \<Rightarrow> entry \<Rightarrow> entry outcome" where
  "normalize_map env e =
     bind_outcome (message_get env e) (\<lambda>(v, e1).
       case v of
         None \<Rightarrow> Done e1
       | Some v \<Rightarrow>
           bind_outcome (reflect_kind v) (\<lambda>k.
             if k = KindMap
             then bind_outcome (shift_keys (case v of VMap m \<Rightarrow> m | _ \<Rightarrow> []) e1) (drop_empty_message env)
             else Done e1))"

text \<open>The first compatible field that holds a string becomes the message.\<close>

fun take_compatible :: "ops_env \<Rightarrow> string list \<Rightarrow> entry \<Rightarrow> entry outcome" where
  "take_compatible env [] e = Done e"
| "take_compatible env (f # fs) e =
     bind_outcome (body_get (unmarshalJSON env) [f] e) (\<lambda>(v, e1).
       case v of
         Some (VStr s) \<Rightarrow>
           bind_outcome (body_set [MessageField] (VStr s) e1) (\<lambda>e2. Done (snd (body_delete [f] e2)))
       | _ \<Rightarrow> take_compatible env fs e1)"

definition msgCompatibleFields :: "string list" where
  "msgCompatibleFields = [''log'', ''msg'']"

definition normalize_compatible :: "ops_env \<Rightarrow> entry \<Rightarrow> entry outcome" where
  "normalize_compatible env e =
     bind_outcome (message_get env e) (\<lambda>(v, e1).
       if v = None then take_compatible env msgCompatibleFields e1 else Done e1)"

definition normalize_string :: "ops_env \<Rightarrow> entry \<Rightarrow> entry outcome" where
  "normalize_string env e =
     bind_outcome (message_get env e) (\<lambda>(v, e1).
       case v of
         None \<Rightarrow> Done e1
       | Some v \<Rightarrow>
           bind_outcome (reflect_kind v) (\<lambda>k.
             if k = KindSlice
             then (case sonicMarshal env v of
                     None \<Rightarrow> Done e1
                   | Some s \<Rightarrow> body_set [MessageField] (VStr s) e1)
             else body_set [MessageField] (VStr (sprint env v)) e1))"

definition normalize :: "ops_env \<Rightarrow> entry \<Rightarrow> entry outcome" where
  "normalize env e =
     bind_outcome (normalize_map env e) (\<lambda>e1.
     bind_outcome (normalize_compatible env e1) (normalize_string env))"

text \<open>What \<^verbatim>\<open>transform\<close> makes of a body before it normalizes it.\<close>

definition parsed_value :: "ops_env \<Rightarrow> any \<Rightarrow> any" where
  "parsed_value env body =
     (case body of
        VStr s \<Rightarrow> VMap (processTextLogs env s)
      | VMap m \<Rightarrow> VMap m
      | VNilMap \<Rightarrow> VNilMap
      | v \<Rightarrow> VMap [(MessageField, v)])"

definition normalize_transform :: "ops_env \<Rightarrow> transform" where
  "normalize_transform env e =
     bind_outcome (normalize env (e\<lparr>eBody := parsed_value env (eBody e)\<rparr>)) (\<lambda>e'. Done (None, e'))"

section \<open>The JSON parser\<close>

record json_parser =
  enableFlattening :: bool
  maxFlatteningDepth :: int
  enablePaths :: bool
  pathPrefix :: string

definition generateKey :: "bool \<Rightarrow> string \<Rightarrow> string \<Rightarrow> string" where
  "generateKey paths parent key = (if paths \<and> parent \<noteq> [] then join_str ''.'' [parent, key] else key)"

lemma size_map_entry:
  fixes x :: "string \<times> any"
  shows "x \<in> set m \<Longrightarrow> size (snd x) < size (VMap m)"
  by (induction m) (auto simp: less_Suc_eq)

function flatten :: "bool \<Rightarrow> int \<Rightarrow> string \<Rightarrow> any \<Rightarrow> vmap \<Rightarrow> int \<Rightarrow> vmap" where
  "flatten paths maxDepth parent v destination depth =
     (case v of
        VMap m \<Rightarrow>
          if depth > maxDepth then AList.update parent v destination
          else fold (\<lambda>kv d. flatten paths maxDepth (generateKey paths parent (fst kv)) (snd kv) d (depth + 1))
                 (sort_key fst m) destination
      | VNilMap \<Rightarrow> if depth > maxDepth then AList.update parent v destination else destination
      | _ \<Rightarrow> AList.update parent v destination)"
  by pat_completeness auto
termination
  by (relation "measure (\<lambda>(paths, maxDepth, parent, v, destination, depth). size v)")
    (auto dest: size_map_entry simp del: any.size)

definition json_parse :: "ops_env \<Rightarrow> json_parser \<Rightarrow> any \<Rightarrow> string + any" where
  "json_parse env p v =
     (let parsed =
        (case v of
           VStr s \<Rightarrow>
             (case unmarshalJSON env (Unquote env s) of
                JErr \<Rightarrow> Inl ''json''
              | JNull \<Rightarrow> Inr VNilMap
              | JMap m \<Rightarrow> Inr (VMap m))
         | VMap m \<Rightarrow> Inr (VMap m)
         | VNilMap \<Rightarrow> Inr VNilMap
         | _ \<Rightarrow> Inl ''cannot be parsed as JSON'')
      in case parsed of
           Inl e \<Rightarrow> Inl e
         | Inr m \<Rightarrow> if enableFlattening p
                    then Inr (VMap (flatten (enablePaths p) (maxFlatteningDepth p) (pathPrefix p) m [] 0))
                    else Inr m)"

section \<open>The router\<close>

record route =
  rt_expr :: "bool program"
  rt_attribute :: transform
  rt_outputIDs :: "string list"
  rt_outputs :: transform

text \<open>
  The environment is built once, before the routes are tried. The first route whose expression holds labels the entry and hands it
  to its outputs, whose errors are ignored; an expression that fails is skipped.
\<close>

fun try_routes :: "route list \<Rightarrow> expr_env \<Rightarrow> transform" where
  "try_routes [] env e = Done (None, e)"
| "try_routes (r # rs) env e =
     (case prog_run (rt_expr r) env of
        Inl err \<Rightarrow> try_routes rs env e
      | Inr False \<Rightarrow> try_routes rs env e
      | Inr True \<Rightarrow>
          bind_outcome (rt_attribute r e) (\<lambda>(err, e1).
            case err of
              Some err \<Rightarrow> Done (Some err, e1)
            | None \<Rightarrow> bind_outcome (rt_outputs r e1) (\<lambda>(err', e2). Done (None, e2))))"

definition router_process :: "(string \<Rightarrow> json_result) \<Rightarrow> route list \<Rightarrow> transform" where
  "router_process unmarshal routes e =
     bind_outcome (GetExprEnv unmarshal e (list_ex (\<lambda>r. prog_bodyRef (rt_expr r)) routes))
       (\<lambda>(env, e1). try_routes routes env e1)"

definition findOperator :: "(string \<times> 'o) list \<Rightarrow> string \<Rightarrow> string + 'o" where
  "findOperator operators oid =
     (case map_of operators oid of
        Some op \<Rightarrow> Inr op
      | None \<Rightarrow> Inl (''operator '' @ oid @ '' does not exist''))"

fun findOperators :: "(string \<times> 'o) list \<Rightarrow> string list \<Rightarrow> string + 'o list" where
  "findOperators operators [] = Inr []"
| "findOperators operators (oid # ids) =
     (case findOperator operators oid of
        Inl e \<Rightarrow> Inl e
      | Inr op \<Rightarrow> (case findOperators operators ids of Inl e \<Rightarrow> Inl e | Inr ops \<Rightarrow> Inr (op # ops)))"

section \<open>The cache of the regex parser\<close>

record limiter =
  lim_count :: u64
  lim_max :: u64

record 'v memory_cache =
  mc_cache :: "string \<rightharpoonup> 'v"
  mc_keys :: "string list"
  mc_cap :: nat
  mc_limiter :: limiter

definition newMemoryCache :: "16 word \<Rightarrow> 'v memory_cache" where
  "newMemoryCache maxSize =
     \<lparr>mc_cache = Map.empty, mc_keys = [], mc_cap = unat maxSize,
      mc_limiter = \<lparr>lim_count = 0, lim_max = ucast maxSize + 1\<rparr>\<rparr>"

definition throttled :: "limiter \<Rightarrow> bool" where
  "throttled l \<longleftrightarrow> lim_max l \<le> lim_count l"

definition lim_increment :: "limiter \<Rightarrow> limiter" where
  "lim_increment l = (if lim_count l = lim_max l then l else l\<lparr>lim_count := lim_count l + 1\<rparr>)"

definition mc_get :: "'v memory_cache \<Rightarrow> string \<Rightarrow> 'v option" where
  "mc_get m key = mc_cache m key"

text \<open>
  Receiving from the empty channel of a cache of size zero would block.
\<close>

definition mc_add :: "'v memory_cache \<Rightarrow> string \<Rightarrow> 'v \<Rightarrow> (bool \<times> 'v memory_cache) outcome" where
  "mc_add m key data =
     (if throttled (mc_limiter m) then Done (False, m)
      else bind_outcome
             (if length (mc_keys m) = mc_cap m
              then (case mc_keys m of
                      [] \<Rightarrow> Blocked
                    | old # rest \<Rightarrow>
                        Done (m\<lparr>mc_cache := (mc_cache m)(old := None), mc_keys := rest,
                                mc_limiter := lim_increment (mc_limiter m)\<rparr>))
              else Done m)
             (\<lambda>m1. Done (True, m1\<lparr>mc_cache := (mc_cache m1)(key \<mapsto> data), mc_keys := mc_keys m1 @ [key]\<rparr>)))"

text \<open>
  A tick of the goroutine that should take a tenth of the maximum off the counter. \<^verbatim>\<open>math.Round\<close>
  rounds halves away from zero; the conversion of the negative result to an unsigned integer is
  left open by Go and is the two's complement here, what amd64 gives.
\<close>

definition round_tenth :: "u64 \<Rightarrow> int" where
  "round_tenth mx = (uint mx + 5) div 10"

definition lim_tick :: "limiter \<Rightarrow> limiter" where
  "lim_tick l =
     (if 0 < lim_count l then l\<lparr>lim_count := lim_count l + NOT (of_int (- round_tenth (lim_max l)))\<rparr> else l)"

text \<open>\<^verbatim>\<open>Parser.match\<close>; \<open>match\<close> is the library's matching of the compiled expression.\<close>

definition regex_match ::
  "(string \<Rightarrow> string + 'v) \<Rightarrow> 'v memory_cache option \<Rightarrow> string \<Rightarrow> ((string + 'v) \<times> 'v memory_cache option) outcome" where
  "regex_match mtch mc v =
     (case mc of
        None \<Rightarrow> Done (mtch v, None)
      | Some m \<Rightarrow>
          (case mc_get m v of
             Some x \<Rightarrow> Done (Inr x, mc)
           | None \<Rightarrow>
               (case mtch v of
                  Inl e \<Rightarrow> Done (Inl e, mc)
                | Inr x \<Rightarrow> bind_outcome (mc_add m v x) (\<lambda>(b, m'). Done (Inr x, Some m')))))"

end
