(* ===== verification/LogsConvert.thy ===== *)
theory LogsConvert
  imports StanzaOps
begin

text \<open>
  The logs pipeline processor around its operators
  (\<^verbatim>\<open>processor/signozlogspipelineprocessor/processor.go\<close>, \<^verbatim>\<open>utils.go\<close>): log records become
  entries, each entry goes through the first operator, and all entries become log records again,
  grouped by resource and scope.
\<close>

section \<open>Log records\<close>

text \<open>
  A value of a log record is given by what \<^verbatim>\<open>AsRaw\<close> makes of it. A trace id is 16 bytes, a span id 8.
\<close>

record log_record =
  lr_timestamp :: u64
  lr_observed :: u64
  lr_severityNumber :: u32
  lr_severityText :: string
  lr_attributes :: vmap
  lr_body :: any
  lr_traceID :: "u8 list"
  lr_spanID :: "u8 list"
  lr_flags :: u32
  lr_eventName :: string
  lr_droppedAttributes :: u32

record scope_logs =
  sl_name :: string
  sl_version :: string
  sl_attributes :: vmap
  sl_droppedAttributes :: u32
  sl_schemaUrl :: string
  sl_records :: "log_record list"

record resource_logs =
  rl_resource :: vmap
  rl_droppedAttributes :: u32
  rl_schemaUrl :: string
  rl_scopes :: "scope_logs list"

type_synonym logs = "resource_logs list"

text \<open>What is appended empty has the zero value in every field; then the name of a scope and the attributes of a resource are set.\<close>

definition new_scope :: "string \<Rightarrow> scope_logs" where
  "new_scope name =
     \<lparr>sl_name = name, sl_version = [], sl_attributes = [], sl_droppedAttributes = 0, sl_schemaUrl = [], sl_records = []\<rparr>"

definition new_resource :: "vmap \<Rightarrow> resource_logs" where
  "new_resource attrs = \<lparr>rl_resource = attrs, rl_droppedAttributes = 0, rl_schemaUrl = [], rl_scopes = []\<rparr>"

lemma new_fields [simp]:
  "sl_name (new_scope name) = name" "sl_records (new_scope name) = []"
  "rl_resource (new_resource attrs) = attrs" "rl_scopes (new_resource attrs) = []"
  by (simp_all add: new_scope_def new_resource_def)

section \<open>Severity numbers\<close>

definition severity_order :: "severity list" where
  "severity_order = SevDefault # severities"

text \<open>The two tables: a number the first does not have reads as the zero value, the default level.\<close>

definition fromPdataSevMap :: "u32 \<Rightarrow> severity" where
  "fromPdataSevMap n = (if unat n < length severity_order then severity_order ! unat n else SevDefault)"

fun index_of :: "severity \<Rightarrow> severity list \<Rightarrow> nat" where
  "index_of s [] = 0"
| "index_of s (t # ts) = (if s = t then 0 else Suc (index_of s ts))"

definition sevMap :: "severity \<Rightarrow> u32" where
  "sevMap s = of_nat (index_of s severity_order)"

definition severity_texts :: "string list" where
  "severity_texts = [[], ''TRACE'', ''TRACE2'', ''TRACE3'', ''TRACE4'', ''DEBUG'', ''DEBUG2'', ''DEBUG3'', ''DEBUG4'',
     ''INFO'', ''INFO2'', ''INFO3'', ''INFO4'', ''WARN'', ''WARN2'', ''WARN3'', ''WARN4'',
     ''ERROR'', ''ERROR2'', ''ERROR3'', ''ERROR4'', ''FATAL'', ''FATAL2'', ''FATAL3'', ''FATAL4'']"

definition defaultSevTextMap :: "severity \<Rightarrow> string" where
  "defaultSevTextMap s = severity_texts ! index_of s severity_order"

section \<open>Records to entries\<close>

definition all_zero :: "u8 list \<Rightarrow> bool" where
  "all_zero bs \<longleftrightarrow> list_all (\<lambda>b. b = 0) bs"

definition convertFrom :: "int \<Rightarrow> vmap \<Rightarrow> string \<Rightarrow> log_record \<Rightarrow> entry" where
  "convertFrom now resource scope src =
     \<lparr>eTimestamp = (if lr_timestamp src \<noteq> 0 then Some (sint (lr_timestamp src)) else None),
      eObservedTimestamp = (if lr_observed src = 0 then now else sint (lr_observed src)),
      eSeverity = fromPdataSevMap (lr_severityNumber src),
      eSeverityText = lr_severityText src,
      eAttributes = Some (lr_attributes src),
      eResource = Some resource,
      eBody = lr_body src,
      eTraceID = (if all_zero (lr_traceID src) then None else Some (lr_traceID src)),
      eSpanID = (if all_zero (lr_spanID src) then None else Some (lr_spanID src)),
      eTraceFlags = (if lr_flags src \<noteq> 0 then Some [ucast (lr_flags src)] else None),
      eScopeName = scope\<rparr>"

definition plogToEntries :: "int \<Rightarrow> logs \<Rightarrow> entry list" where
  "plogToEntries now src =
     concat (map (\<lambda>rl. concat (map (\<lambda>sl. map (convertFrom now (rl_resource rl) (sl_name sl)) (sl_records sl))
       (rl_scopes rl))) src)"

section \<open>Entries to records\<close>

text \<open>
  Keys with the internal prefix are left out, in the attributes, in the resource and in every map
  below them or below the body. A value of another type, nil among them, is printed.
\<close>

lemma size_list_entry: "x \<in> set vs \<Longrightarrow> size x < size (VList vs)"
  by (simp add: less_Suc_eq_le size_list_estimation')

function upsertToAttributeVal :: "(any \<Rightarrow> string) \<Rightarrow> any \<Rightarrow> any" where
  "upsertToAttributeVal pr v =
     (case v of
        VBool b \<Rightarrow> VBool b
      | VStr s \<Rightarrow> VStr s
      | VStrList ss \<Rightarrow> VList (map VStr ss)
      | VBytes s \<Rightarrow> VBytes s
      | VInt k i \<Rightarrow> VInt KInt64 i
      | VFloat f \<Rightarrow> VFloat f
      | VMap m \<Rightarrow>
          VMap (map (\<lambda>kv. (fst kv, upsertToAttributeVal pr (snd kv)))
                 (filter (\<lambda>kv. \<not> has_prefix InternalTempAttributePrefix (fst kv)) m))
      | VNilMap \<Rightarrow> VMap []
      | VList vs \<Rightarrow> VList (map (upsertToAttributeVal pr) vs)
      | v \<Rightarrow> VStr (pr v))"
  by pat_completeness auto
termination
  by (relation "measure (\<lambda>(pr, v). size v)")
    (auto dest: size_map_entry size_list_entry simp del: any.size)

declare upsertToAttributeVal.simps [simp del]

definition upsertToMap :: "(any \<Rightarrow> string) \<Rightarrow> vmap \<Rightarrow> vmap" where
  "upsertToMap pr m =
     map (\<lambda>kv. (fst kv, upsertToAttributeVal pr (snd kv)))
       (filter (\<lambda>kv. \<not> has_prefix InternalTempAttributePrefix (fst kv)) m)"

text \<open>An id is copied right-aligned into its buffer; of a longer one the first bytes fit.\<close>

definition pad_id :: "nat \<Rightarrow> u8 list \<Rightarrow> u8 list" where
  "pad_id n bs = replicate (n - length bs) 0 @ take n bs"

definition or_nil :: "vmap option \<Rightarrow> vmap" where
  "or_nil m = (case m of None \<Rightarrow> [] | Some m \<Rightarrow> m)"

definition convertInto :: "(any \<Rightarrow> string) \<Rightarrow> entry \<Rightarrow> log_record" where
  "convertInto pr ent =
     \<lparr>lr_timestamp = (case eTimestamp ent of None \<Rightarrow> 0 | Some t \<Rightarrow> of_int t),
      lr_observed = of_int (eObservedTimestamp ent),
      lr_severityNumber = sevMap (eSeverity ent),
      lr_severityText = (if eSeverityText ent = [] then defaultSevTextMap (eSeverity ent) else eSeverityText ent),
      lr_attributes = upsertToMap pr (or_nil (eAttributes ent)),
      lr_body = (if eBody ent = VNil then VNil else upsertToAttributeVal pr (eBody ent)),
      lr_traceID = (case eTraceID ent of None \<Rightarrow> replicate 16 0 | Some bs \<Rightarrow> pad_id 16 bs),
      lr_spanID = (case eSpanID ent of None \<Rightarrow> replicate 8 0 | Some bs \<Rightarrow> pad_id 8 bs),
      lr_flags = (case eTraceFlags ent of Some (b # bs) \<Rightarrow> ucast b | _ \<Rightarrow> 0),
      lr_eventName = [], lr_droppedAttributes = 0\<rparr>"

section \<open>Grouping\<close>

text \<open>
  \<open>hashResource\<close> is the library's hash of a resource. The maps from hashes to positions and from
  scope names to positions within a resource are association lists.
\<close>

record converter =
  cv_logs :: logs
  resourceHashToIdx :: "(u64 \<times> nat) list"
  scopeIdxByResource :: "(u64 \<times> (string \<times> nat) list) list"

definition append_record :: "nat \<Rightarrow> nat \<Rightarrow> log_record \<Rightarrow> logs \<Rightarrow> logs" where
  "append_record i j r ls =
     ls[i := (ls ! i)\<lparr>rl_scopes := (rl_scopes (ls ! i))[j :=
        (rl_scopes (ls ! i) ! j)\<lparr>sl_records := sl_records (rl_scopes (ls ! i) ! j) @ [r]\<rparr>]\<rparr>]"

definition append_scope :: "nat \<Rightarrow> string \<Rightarrow> logs \<Rightarrow> logs" where
  "append_scope i name ls =
     ls[i := (ls ! i)\<lparr>rl_scopes := rl_scopes (ls ! i) @ [new_scope name]\<rparr>]"

definition convert_step ::
  "(vmap option \<Rightarrow> u64) \<Rightarrow> (any \<Rightarrow> string) \<Rightarrow> entry \<Rightarrow> converter \<Rightarrow> converter" where
  "convert_step hashResource pr e c =
     (let h = hashResource (eResource e); name = eScopeName e; r = convertInto pr e
      in case map_of (resourceHashToIdx c) h of
           None \<Rightarrow>
             (let i = length (cv_logs c)
              in \<lparr>cv_logs = append_record i 0 r (append_scope i name
                     (cv_logs c @ [new_resource (upsertToMap pr (or_nil (eResource e)))])),
                  resourceHashToIdx = AList.update h i (resourceHashToIdx c),
                  scopeIdxByResource = AList.update h [(name, 0)] (scopeIdxByResource c)\<rparr>)
         | Some i \<Rightarrow>
             (let names = (case map_of (scopeIdxByResource c) h of None \<Rightarrow> [] | Some ns \<Rightarrow> ns)
              in case map_of names name of
                   None \<Rightarrow>
                     (let j = length (rl_scopes (cv_logs c ! i))
                      in c\<lparr>cv_logs := append_record i j r (append_scope i name (cv_logs c)),
                           scopeIdxByResource := AList.update h (AList.update name j names) (scopeIdxByResource c)\<rparr>)
                 | Some j \<Rightarrow> c\<lparr>cv_logs := append_record i j r (cv_logs c)\<rparr>))"

definition convertEntriesToPlogs ::
  "(vmap option \<Rightarrow> u64) \<Rightarrow> (any \<Rightarrow> string) \<Rightarrow> entry list \<Rightarrow> logs" where
  "convertEntriesToPlogs hashResource pr entries =
     cv_logs (fold (convert_step hashResource pr) entries
       \<lparr>cv_logs = [], resourceHashToIdx = [], scopeIdxByResource = []\<rparr>)"

section \<open>The processor\<close>

text \<open>
  \<^verbatim>\<open>ProcessLogs\<close>: \<open>firstOp\<close> changes each entry in place and reports an error that is only logged; the
  entries are independent, so the order in which the goroutines run does not matter. A
  panic of one of them ends the process.
\<close>

fun process_entries :: "transform \<Rightarrow> entry list \<Rightarrow> entry list outcome" where
  "process_entries firstOp [] = Done []"
| "process_entries firstOp (e # es) =
     bind_outcome (firstOp e) (\<lambda>(err, e').
     bind_outcome (process_entries firstOp es) (\<lambda>es'. Done (e' # es')))"

definition ProcessLogs ::
  "(vmap option \<Rightarrow> u64) \<Rightarrow> (any \<Rightarrow> string) \<Rightarrow> int \<Rightarrow> transform \<Rightarrow> logs \<Rightarrow> logs outcome" where
  "ProcessLogs hashResource pr now firstOp ld =
     bind_outcome (process_entries firstOp (plogToEntries now ld))
       (\<lambda>entries. Done (convertEntriesToPlogs hashResource pr entries))"

section \<open>What a payload holds\<close>

text \<open>The records of a payload with their resource and scope.\<close>

definition located :: "logs \<Rightarrow> (vmap \<times> string \<times> log_record) list" where
  "located ls =
     concat (map (\<lambda>rl. concat (map (\<lambda>sl. map (\<lambda>r. (rl_resource rl, sl_name sl, r)) (sl_records sl)) (rl_scopes rl))) ls)"

definition entry_located :: "(any \<Rightarrow> string) \<Rightarrow> entry \<Rightarrow> vmap \<times> string \<times> log_record" where
  "entry_located pr e = (upsertToMap pr (or_nil (eResource e)), eScopeName e, convertInto pr e)"

lemma located_append: "located (xs @ ys) = located xs @ located ys"
  by (simp add: located_def)

lemma mset_located_update:
  assumes "i < length ls" and "mset (located [x]) = mset (located [ls ! i]) + M"
  shows "mset (located (ls[i := x])) = mset (located ls) + M"
proof -
  have "ls = take i ls @ ls ! i # drop (Suc i) ls" using assms(1) by (simp add: id_take_nth_drop)
  then have l: "mset (located ls) = mset (located (take i ls)) + mset (located [ls ! i]) + mset (located (drop (Suc i) ls))"
    by (metis append_Cons append_Nil located_append mset_append union_assoc)
  have "ls[i := x] = take i ls @ [x] @ drop (Suc i) ls" using assms(1) by (simp add: upd_conv_take_nth_drop)
  then have "mset (located (ls[i := x])) = mset (located (take i ls)) + mset (located [x]) + mset (located (drop (Suc i) ls))"
    by (simp add: located_append del: append_Cons append_Nil)
  then show ?thesis using l assms(2) by simp
qed

definition scope_located :: "vmap \<Rightarrow> scope_logs list \<Rightarrow> (vmap \<times> string \<times> log_record) list" where
  "scope_located res sls = concat (map (\<lambda>sl. map (\<lambda>r. (res, sl_name sl, r)) (sl_records sl)) sls)"

lemma located_single: "located [rl] = scope_located (rl_resource rl) (rl_scopes rl)"
  by (simp add: located_def scope_located_def)

lemma scope_located_append: "scope_located res (xs @ ys) = scope_located res xs @ scope_located res ys"
  by (simp add: scope_located_def)

lemma mset_scope_update:
  assumes "j < length sls"
  shows "mset (scope_located res (sls[j := (sls ! j)\<lparr>sl_records := sl_records (sls ! j) @ [r]\<rparr>])) =
    mset (scope_located res sls) + {#(res, sl_name (sls ! j), r)#}"
proof -
  have "sls = take j sls @ [sls ! j] @ drop (Suc j) sls" using assms by (simp add: id_take_nth_drop)
  then have l: "mset (scope_located res sls) = mset (scope_located res (take j sls)) +
      mset (scope_located res [sls ! j]) + mset (scope_located res (drop (Suc j) sls))"
    by (metis mset_append scope_located_append union_assoc)
  have "sls[j := x] = take j sls @ [x] @ drop (Suc j) sls" for x using assms by (simp add: upd_conv_take_nth_drop)
  then show ?thesis
    using l by (simp add: scope_located_append del: append_Cons append_Nil) (simp add: scope_located_def)
qed

section \<open>The grouping loses nothing\<close>

text \<open>The resources and scope names of a payload, by position.\<close>

definition skeleton :: "logs \<Rightarrow> (vmap \<times> string list) list" where
  "skeleton ls = map (\<lambda>rl. (rl_resource rl, map sl_name (rl_scopes rl))) ls"

lemma skeleton_append_record:
  assumes "i < length ls"
  shows "skeleton (append_record i j r ls) = skeleton ls"
proof -
  let ?sls = "rl_scopes (ls ! i)"
  have "map sl_name (?sls[j := (?sls ! j)\<lparr>sl_records := x\<rparr>]) = map sl_name ?sls" for x
    by (cases "j < length ?sls") (simp_all add: map_update list_update_same_conv list_update_beyond)
  then show ?thesis
    using assms by (simp add: skeleton_def append_record_def map_update list_update_same_conv)
qed

lemma skeleton_append_scope:
  assumes "i < length ls"
  shows "skeleton (append_scope i name ls) =
    (skeleton ls)[i := (fst (skeleton ls ! i), snd (skeleton ls ! i) @ [name])]"
  using assms by (simp add: skeleton_def append_scope_def map_update)

lemma located_append_record:
  assumes "i < length ls" and "j < length (rl_scopes (ls ! i))"
  shows "mset (located (append_record i j r ls)) =
    mset (located ls) + {#(rl_resource (ls ! i), sl_name (rl_scopes (ls ! i) ! j), r)#}"
  unfolding append_record_def
  by (rule mset_located_update [OF assms(1)])
    (simp add: located_single mset_scope_update [OF assms(2)])

lemma located_append_scope:
  assumes "i < length ls"
  shows "mset (located (append_scope i name ls)) = mset (located ls)"
  using mset_located_update [OF assms, of "(ls ! i)\<lparr>rl_scopes := rl_scopes (ls ! i) @ [new_scope name]\<rparr>" "{#}"]
  by (simp add: append_scope_def located_single scope_located_append) (simp add: scope_located_def)

text \<open>A hash may be shared by resources that give the same attributes only.\<close>

definition hash_faithful :: "(vmap option \<Rightarrow> u64) \<Rightarrow> (any \<Rightarrow> string) \<Rightarrow> entry set \<Rightarrow> bool" where
  "hash_faithful H pr es \<longleftrightarrow>
     (\<forall>e \<in> es. \<forall>e' \<in> es. H (eResource e) = H (eResource e') \<longrightarrow>
        upsertToMap pr (or_nil (eResource e)) = upsertToMap pr (or_nil (eResource e')))"

definition conv_inv :: "(vmap option \<Rightarrow> u64) \<Rightarrow> (any \<Rightarrow> string) \<Rightarrow> entry set \<Rightarrow> converter \<Rightarrow> bool" where
  "conv_inv H pr es c \<longleftrightarrow>
     (\<forall>h i. map_of (resourceHashToIdx c) h = Some i \<longrightarrow>
        i < length (cv_logs c) \<and>
        (\<forall>e \<in> es. H (eResource e) = h \<longrightarrow> fst (skeleton (cv_logs c) ! i) = upsertToMap pr (or_nil (eResource e))) \<and>
        (\<forall>names name j. map_of (scopeIdxByResource c) h = Some names \<longrightarrow> map_of names name = Some j \<longrightarrow>
           j < length (snd (skeleton (cv_logs c) ! i)) \<and> snd (skeleton (cv_logs c) ! i) ! j = name))"

lemma skeleton_nth:
  "i < length ls \<Longrightarrow> skeleton ls ! i = (rl_resource (ls ! i), map sl_name (rl_scopes (ls ! i)))"
  by (simp add: skeleton_def)

lemma length_skeleton [simp]: "length (skeleton ls) = length ls"
  by (simp add: skeleton_def)

lemma skeleton_snoc: "skeleton (ls @ [x]) = skeleton ls @ [(rl_resource x, map sl_name (rl_scopes x))]"
  by (simp add: skeleton_def)

lemma length_append_ops [simp]:
  "length (append_record i j r ls) = length ls" "length (append_scope i name ls) = length ls"
  by (simp_all add: append_record_def append_scope_def)

lemma conv_inv_index:
  assumes "conv_inv H pr es c" and "map_of (resourceHashToIdx c) h = Some i"
  shows "i < length (cv_logs c)"
    and "e \<in> es \<Longrightarrow> H (eResource e) = h \<Longrightarrow>
      fst (skeleton (cv_logs c) ! i) = upsertToMap pr (or_nil (eResource e))"
    and "map_of (scopeIdxByResource c) h = Some names \<Longrightarrow> map_of names name = Some j \<Longrightarrow>
      j < length (snd (skeleton (cv_logs c) ! i)) \<and> snd (skeleton (cv_logs c) ! i) ! j = name"
  using assms unfolding conv_inv_def by blast+

lemma convert_step_new:
  assumes inv: "conv_inv H pr es c" and e: "e \<in> es" and hf: "hash_faithful H pr es"
    and none: "map_of (resourceHashToIdx c) (H (eResource e)) = None"
  shows "conv_inv H pr es (convert_step H pr e c) \<and>
    mset (located (cv_logs (convert_step H pr e c))) = mset (located (cv_logs c)) + {#entry_located pr e#}"
proof -
  let ?res = "upsertToMap pr (or_nil (eResource e))"
  let ?i = "length (cv_logs c)"
  let ?l0 = "cv_logs c @ [new_resource ?res]"
  let ?l1 = "append_scope ?i (eScopeName e) ?l0"
  let ?c = "convert_step H pr e c"
  have c': "?c = \<lparr>cv_logs = append_record ?i 0 (convertInto pr e) ?l1,
      resourceHashToIdx = AList.update (H (eResource e)) ?i (resourceHashToIdx c),
      scopeIdxByResource = AList.update (H (eResource e)) [(eScopeName e, 0)] (scopeIdxByResource c)\<rparr>"
    using none by (simp add: convert_step_def Let_def)
  have l1: "rl_resource (?l1 ! ?i) = ?res" "rl_scopes (?l1 ! ?i) = [new_scope (eScopeName e)]"
    by (simp_all add: append_scope_def)
  have sk: "skeleton (cv_logs ?c) = skeleton (cv_logs c) @ [(?res, [eScopeName e])]"
    by (simp add: c' skeleton_append_record skeleton_append_scope skeleton_snoc nth_append list_update_append)
  have "located ?l0 = located (cv_logs c)" by (simp add: located_append located_single scope_located_def)
  then have ms: "mset (located (cv_logs ?c)) = mset (located (cv_logs c)) + {#entry_located pr e#}"
    using located_append_record [of ?i ?l1 0 "convertInto pr e"] located_append_scope [of ?i ?l0] l1
    by (simp add: c' entry_located_def)
  have "conv_inv H pr es ?c"
    unfolding conv_inv_def sk
  proof (intro allI impI, goal_cases)
    case (1 h i)
    show ?case
    proof (cases "h = H (eResource e)")
      case True
      then have "i = ?i" using 1 by (simp add: c' update_conv')
      have "?res = upsertToMap pr (or_nil (eResource e'))" if "e' \<in> es" "H (eResource e') = h" for e'
        using hf e that True unfolding hash_faithful_def by metis
      then show ?thesis using True \<open>i = ?i\<close> by (auto simp: c' nth_append update_conv')
    next
      case False
      then have i: "map_of (resourceHashToIdx c) h = Some i" using 1 by (simp add: c' update_conv')
      have "i < length (cv_logs c)" using conv_inv_index(1) [OF inv i] .
      moreover have "fst (skeleton (cv_logs c) ! i) = upsertToMap pr (or_nil (eResource e'))"
        if "e' \<in> es" "H (eResource e') = h" for e'
        using conv_inv_index(2) [OF inv i that] .
      moreover have "j < length (snd (skeleton (cv_logs c) ! i)) \<and> snd (skeleton (cv_logs c) ! i) ! j = name"
        if "map_of (scopeIdxByResource c) h = Some names" "map_of names name = Some j" for names name j
        using conv_inv_index(3) [OF inv i that] .
      ultimately show ?thesis using False by (simp add: c' nth_append update_conv')
    qed
  qed
  then show ?thesis using ms by blast
qed

lemma convert_step_old:
  assumes inv: "conv_inv H pr es c" and e: "e \<in> es"
    and some: "map_of (resourceHashToIdx c) (H (eResource e)) = Some i"
  shows "conv_inv H pr es (convert_step H pr e c) \<and>
    mset (located (cv_logs (convert_step H pr e c))) = mset (located (cv_logs c)) + {#entry_located pr e#}"
proof -
  let ?h = "H (eResource e)"
  let ?names = "case map_of (scopeIdxByResource c) ?h of None \<Rightarrow> [] | Some ns \<Rightarrow> ns"
  have i: "i < length (cv_logs c)" "rl_resource (cv_logs c ! i) = upsertToMap pr (or_nil (eResource e))"
    using conv_inv_index(1,2) [OF inv some] e skeleton_nth [of i "cv_logs c"] by simp_all
  show ?thesis
  proof (cases "map_of ?names (eScopeName e)")
    case (Some j)
    then obtain ns where ns: "map_of (scopeIdxByResource c) ?h = Some ns" "map_of ns (eScopeName e) = Some j"
      by (cases "map_of (scopeIdxByResource c) ?h") auto
    have j: "j < length (rl_scopes (cv_logs c ! i))" "sl_name (rl_scopes (cv_logs c ! i) ! j) = eScopeName e"
      using conv_inv_index(3) [OF inv some ns] skeleton_nth [OF i(1)] by auto
    have c': "convert_step H pr e c = c\<lparr>cv_logs := append_record i j (convertInto pr e) (cv_logs c)\<rparr>"
      using some Some by (simp add: convert_step_def Let_def)
    show ?thesis
      using inv located_append_record [OF i(1) j(1), of "convertInto pr e"] i j
      by (simp add: c' conv_inv_def skeleton_append_record entry_located_def)
  next
    case None
    let ?j = "length (rl_scopes (cv_logs c ! i))"
    let ?l1 = "append_scope i (eScopeName e) (cv_logs c)"
    let ?c = "convert_step H pr e c"
    have c': "?c = c\<lparr>cv_logs := append_record i ?j (convertInto pr e) ?l1,
        scopeIdxByResource := AList.update ?h (AList.update (eScopeName e) ?j ?names) (scopeIdxByResource c)\<rparr>"
      using some None by (simp add: convert_step_def Let_def)
    have l1: "rl_resource (?l1 ! i) = rl_resource (cv_logs c ! i)"
        "rl_scopes (?l1 ! i) = rl_scopes (cv_logs c ! i) @ [new_scope (eScopeName e)]"
      using i(1) by (simp_all add: append_scope_def)
    have ms: "mset (located (cv_logs ?c)) = mset (located (cv_logs c)) + {#entry_located pr e#}"
      using located_append_record [of i ?l1 ?j "convertInto pr e"] located_append_scope [OF i(1)] l1 i
      by (simp add: c' entry_located_def)
    have sk: "skeleton (cv_logs ?c) =
        (skeleton (cv_logs c))[i := (fst (skeleton (cv_logs c) ! i), snd (skeleton (cv_logs c) ! i) @ [eScopeName e])]"
      using i(1) by (simp add: c' skeleton_append_record skeleton_append_scope)
    have lj: "length (snd (skeleton (cv_logs c) ! i)) = ?j" by (simp add: skeleton_nth [OF i(1)])
    have "conv_inv H pr es ?c"
      unfolding conv_inv_def sk
    proof (intro allI impI conjI ballI, goal_cases)
      case (1 h k)
      then have k: "map_of (resourceHashToIdx c) h = Some k" by (simp add: c')
      show ?case using conv_inv_index(1) [OF inv k] by (simp add: c')
    next
      case (2 h k e')
      then have k: "map_of (resourceHashToIdx c) h = Some k" by (simp add: c')
      show ?case using conv_inv_index(2) [OF inv k 2(2,3)] i(1) by (cases "k = i") simp_all
    next
      case (3 h k names name j)
      then have k: "map_of (resourceHashToIdx c) h = Some k" by (simp add: c')
      show ?case
        using 3 k inv i(1) some lj conv_inv_index(3) [OF inv k, of _ name j]
        by (cases "k = i"; cases "h = ?h"; cases "name = eScopeName e")
          (auto simp: c' update_conv' split: option.splits)
    next
      case (4 h k names name j)
      then have k: "map_of (resourceHashToIdx c) h = Some k" by (simp add: c')
      show ?case
        using 4 k inv i(1) some lj conv_inv_index(3) [OF inv k, of _ name j]
        by (cases "k = i"; cases "h = ?h"; cases "name = eScopeName e")
          (auto simp: c' nth_append update_conv' split: option.splits)
    qed
    then show ?thesis using ms by blast
  qed
qed

lemma convert_fold:
  assumes "hash_faithful H pr es"
  shows "set xs \<subseteq> es \<Longrightarrow> conv_inv H pr es c \<Longrightarrow>
    mset (located (cv_logs (fold (convert_step H pr) xs c))) = mset (located (cv_logs c)) + mset (map (entry_located pr) xs)"
proof (induction xs arbitrary: c)
  case (Cons x xs)
  have "conv_inv H pr es (convert_step H pr x c) \<and>
    mset (located (cv_logs (convert_step H pr x c))) = mset (located (cv_logs c)) + {#entry_located pr x#}"
    using Cons.prems convert_step_new [OF Cons.prems(2) _ assms] convert_step_old [OF Cons.prems(2)]
    by (cases "map_of (resourceHashToIdx c) (H (eResource x))") auto
  then show ?case using Cons.IH Cons.prems(1) by simp
qed simp

lemma convertEntries_located:
  assumes "hash_faithful H pr (set es)"
  shows "mset (located (convertEntriesToPlogs H pr es)) = mset (map (entry_located pr) es)"
proof -
  have "conv_inv H pr (set es) \<lparr>cv_logs = [], resourceHashToIdx = [], scopeIdxByResource = []\<rparr>"
    by (simp add: conv_inv_def)
  from convert_fold [OF assms subset_refl this] show ?thesis
    by (simp add: convertEntriesToPlogs_def located_def)
qed

end
