(* ===== verification/LogsTheorems.thy ===== *)
theory LogsTheorems
  imports LogsConvert
begin

text \<open>
  The properties of the logs pipeline: names of fields, moves between fields of the body, the
  normalizer, the cached body, what the processor emits and the cache of the regex parser.
\<close>

section \<open>Names of fields\<close>

text \<open>A field written in JSON dot notation reads back as the same field, for the body and for
  the attributes and the resource, when no key needs an escape the notation does not have.\<close>

theorem field_name_roundtrip:
  assumes "writable_keys keys"
  shows "NewField (body_field_string keys) = Inr (BodyField keys) \<and>
    unmarshal_body_field (body_field_string keys) = Inr keys \<and>
    newField (toJSONDot ''attributes'' keys) True = Inr (AttributeField keys) \<and>
    newField (toJSONDot ''resource'' keys) True = Inr (ResourceField keys)"
proof -
  have "fromJSONDot (toJSONDot p keys) = Inr (p # keys)" if "p \<in> {''body'', ''attributes'', ''resource''}" for p
    by (rule fromJSONDot_toJSONDot) (use that assms in \<open>auto simp: plain_key_def\<close>)
  then show ?thesis
    by (simp add: NewField_def newField_def unmarshal_body_field_def body_field_string_def)
qed

theorem field_name_roundtrip_witness:
  "NewField (body_field_string [''k8s.pod'', ''a[0]'']) = Inr (BodyField [''k8s.pod'', ''a[0]''])"
  using field_name_roundtrip [of "[''k8s.pod'', ''a[0]'']"] by (simp add: writable_keys_def)

section \<open>Moving within the body\<close>

text \<open>None of some values in a value.\<close>

fun without :: "any set \<Rightarrow> any \<Rightarrow> bool" where
  "without B (VMap m) \<longleftrightarrow> list_all (\<lambda>kv. without B (snd kv)) m"
| "without B v \<longleftrightarrow> v \<notin> B"

lemma without_lookup: "without B (VMap m) \<Longrightarrow> map_of m k = Some v \<Longrightarrow> without B v"
  by (induction m) (auto split: if_splits)

lemma without_update: "without B (VMap m) \<Longrightarrow> without B v \<Longrightarrow> without B (VMap (AList.update k v m))"
  by (induction m) auto

lemma without_delete: "without B (VMap m) \<Longrightarrow> without B (VMap (AList.delete k m))"
  by (induction m) auto

lemma without_nested:
  assumes "without B (VMap m)" and "VNilMap \<in> B"
  shows "\<exists>n. getNestedMap m k = Some n \<and> without B (VMap n)"
proof (cases "map_of m k")
  case (Some v)
  then have "without B v" by (rule without_lookup [OF assms(1)])
  then show ?thesis using Some assms(2) by (cases v) (auto simp: getNestedMap_def)
qed (simp add: getNestedMap_def)

lemma set_path_total:
  "without B (VMap m) \<Longrightarrow> VNilMap \<in> B \<Longrightarrow> \<exists>m'. set_path keys v (Some m) = Done (Some m')"
proof (induction keys v "Some m" arbitrary: m rule: set_path.induct)
  case (3 k k' ks v)
  obtain n where n: "getNestedMap m k = Some n" "without B (VMap n)"
    using without_nested [OF "3.prems"] by blast
  obtain n' where "set_path (k' # ks) v (Some n) = Done (Some n')"
    using "3.hyps" [OF refl n(1) n(2) "3.prems"(2)] n by auto
  then show ?case using n by simp
qed auto

lemma delete_path_without:
  "delete_path keys m = Some (v, m') \<Longrightarrow> without B (VMap m) \<Longrightarrow> without B (VMap m')"
proof (induction keys m arbitrary: m' rule: delete_path.induct)
  case (2 k m)
  then show ?case using without_delete [OF "2.prems"(2)] by (auto split: option.splits)
next
  case (3 k k' ks m)
  from "3.prems"(1) obtain n n' where n: "map_of m k = Some (VMap n)" "delete_path (k' # ks) n = Some (v, n')"
      "m' = AList.update k (VMap n') m"
    by (simp split: option.splits any.splits prod.splits)
  have "without B (VMap n)" by (rule without_lookup [OF "3.prems"(2) n(1)])
  then have "without B (VMap n')" by (rule "3.IH" [OF n(1) refl n(2)])
  then show ?case unfolding n(3) by (rule without_update [OF "3.prems"(2)])
qed simp

lemma delete_path_total:
  "get_path keys (VMap m) = Some v \<Longrightarrow> keys \<noteq> [] \<Longrightarrow> \<exists>m'. delete_path keys m = Some (v, m')"
proof (induction keys m rule: delete_path.induct)
  case (3 k k' ks m)
  from "3.prems"(1) obtain n where n: "map_of m k = Some (VMap n)" "get_path (k' # ks) (VMap n) = Some v"
    by (simp split: option.splits any.splits)
  then show ?case using "3.IH" [OF n(1) refl n(2)] by auto
qed (auto split: option.splits)

text \<open>A move from one path of a map body to another that neither contains nor is contained in it
  always succeeds: the value is at the new path, the old path is gone, and every path independent of both reads
  as before.\<close>

theorem move_renames_body_field:
  assumes "eBody e = VMap m" and "without {VNilMap} (VMap m)"
    and "get_path p (VMap m) = Some v" and "\<not> is_map v"
    and "p \<noteq> []" and "independent p q" and "independent q p"
  shows "\<exists>e'. move_transform (body_field_ops u p) (body_field_ops u q) e = Done (None, e') \<and>
    get_path q (eBody e') = Some v \<and> get_path p (eBody e') = None \<and>
    (\<forall>r. independent p r \<longrightarrow> independent q r \<longrightarrow> get_path r (eBody e') = get_path r (eBody e))"
proof -
  obtain m1 where m1: "delete_path p m = Some (v, m1)" using delete_path_total assms(3,5) by blast
  let ?e1 = "e\<lparr>eBody := VMap m1\<rparr>"
  have del: "body_delete p e = (Some v, ?e1)" using assms(1,5) m1 by (simp add: body_delete_def)
  obtain m2 where m2: "set_path q v (Some m1) = Done (Some m2)"
    using set_path_total [OF delete_path_without [OF m1 assms(2)]] by blast
  have "q \<noteq> []" using independent_nonempty [OF assms(6)] by simp
  then have set: "body_set q v ?e1 = Done (?e1\<lparr>eBody := VMap m2\<rparr>)"
    using assms(4) m2 by (simp add: body_set_scalar body_map_def)
  have "get_path r (VMap m2) = get_path r (eBody e)" if "independent p r" "independent q r" for r
    using body_delete_other [OF that(1) del] body_set_other [OF assms(4) that(2) set] by simp
  then show ?thesis
    using bf.move [OF del assms(4,5,7) set] del set
    by (simp add: move_transform_def body_field_ops_def)
qed

definition sample_entry :: "any \<Rightarrow> entry" where
  "sample_entry body = \<lparr>eTimestamp = None, eObservedTimestamp = 0, eSeverity = SevDefault, eSeverityText = [],
     eAttributes = Some [], eResource = None, eBody = body, eTraceID = None, eSpanID = None,
     eTraceFlags = None, eScopeName = []\<rparr>"

theorem move_renames_body_field_witness:
  "\<exists>e'. move_transform (body_field_ops (\<lambda>s. JErr) [''a'', ''b'']) (body_field_ops (\<lambda>s. JErr) [''c''])
     (sample_entry (VMap [(''a'', VMap [(''b'', VStr ''x''), (''d'', VBool True)])])) = Done (None, e') \<and>
     get_path [''c''] (eBody e') = Some (VStr ''x'') \<and> get_path [''a'', ''b''] (eBody e') = None \<and>
     get_path [''a'', ''d''] (eBody e') = Some (VBool True)"
proof -
  let ?e = "sample_entry (VMap [(''a'', VMap [(''b'', VStr ''x''), (''d'', VBool True)])])"
  obtain e' where e': "move_transform (body_field_ops (\<lambda>s. JErr) [''a'', ''b'']) (body_field_ops (\<lambda>s. JErr) [''c'']) ?e =
      Done (None, e')" "get_path [''c''] (eBody e') = Some (VStr ''x'')" "get_path [''a'', ''b''] (eBody e') = None"
      "\<forall>r. independent [''a'', ''b''] r \<longrightarrow> independent [''c''] r \<longrightarrow> get_path r (eBody e') = get_path r (eBody ?e)"
    using move_renames_body_field [of ?e _ "[''a'', ''b'']" "VStr ''x''" "[''c'']" "\<lambda>s. JErr"]
    by (auto simp: sample_entry_def is_map_def)
  moreover have "get_path [''a'', ''d''] (eBody e') = Some (VBool True)"
    using e'(4) [rule_format, of "[''a'', ''d'']"] by (simp add: sample_entry_def)
  ultimately show ?thesis by blast
qed

section \<open>The normalizer\<close>

abbreviation nils :: "any set" where
  "nils \<equiv> {VNil, VNilMap}"

lemma body_get_map: "eBody e = VMap m \<Longrightarrow> keys \<noteq> [] \<Longrightarrow> body_get u keys e = Done (get_path keys (VMap m), e)"
  by (simp add: body_get_def ParseBodyJson_def)

lemma message_get_map: "eBody e = VMap m \<Longrightarrow> message_get env e = Done (map_of m MessageField, e)"
  by (simp add: message_get_def body_get_map split: option.splits)

lemma body_set_top:
  "eBody e = VMap m \<Longrightarrow> \<not> is_map v \<Longrightarrow> body_set [k] v e = Done (e\<lparr>eBody := VMap (AList.update k v m)\<rparr>)"
  by (simp add: body_set_scalar body_map_def)

lemma body_delete_top:
  assumes "eBody e = VMap m"
  shows "\<exists>m'. eBody (snd (body_delete [k] e)) = VMap m' \<and> map_of m' = (map_of m)(k := None) \<and>
    (without B (VMap m) \<longrightarrow> without B (VMap m'))"
proof (cases "map_of m k")
  case None
  then show ?thesis using assms by (auto simp: body_delete_def)
next
  case (Some v)
  then show ?thesis using assms without_delete [of B m k] by (auto simp: body_delete_def delete_conv')
qed

lemma write_all_total:
  "list_all (\<lambda>kv. without B (snd kv)) kvs \<Longrightarrow> without B (VMap m) \<Longrightarrow>
   \<exists>m'. write_all kvs (Some m) = Done (Some m') \<and> without B (VMap m')"
proof (induction kvs arbitrary: m)
  case (Cons kv kvs)
  obtain k v where kv: "kv = (k, v)" by (cases kv)
  have "without B (VMap (AList.update k v m))" using Cons.prems kv without_update by simp
  then show ?case using Cons.IH [of "AList.update k v m"] Cons.prems kv by simp
qed simp

lemma merge_path_total:
  "list_all (\<lambda>kv. without B (snd kv)) mv \<Longrightarrow> without B (VMap m) \<Longrightarrow> VNilMap \<in> B \<Longrightarrow>
   \<exists>m'. merge_path keys mv (Some m) = Done (Some m') \<and> without B (VMap m')"
proof (induction keys arbitrary: m)
  case Nil
  then show ?case using write_all_total by simp
next
  case (Cons k ks)
  obtain n where n: "getNestedMap m k = Some n" "without B (VMap n)"
    using without_nested [OF Cons.prems(2,3)] by blast
  obtain n' where "merge_path ks mv (Some n) = Done (Some n')" "without B (VMap n')"
    using Cons.IH [OF Cons.prems(1) n(2) Cons.prems(3)] by blast
  then show ?case using n without_update [OF Cons.prems(2), of "VMap n'" k] by auto
qed

lemma body_set_top_total:
  assumes "eBody e = VMap m" and "without nils (VMap m)" and "without nils v"
  shows "\<exists>m'. body_set [k] v e = Done (e\<lparr>eBody := VMap m'\<rparr>) \<and> without nils (VMap m')"
proof (cases "is_map v")
  case False
  then show ?thesis using assms body_set_top without_update by blast
next
  case True
  then obtain mv where v: "v = VMap mv" using assms(3) by (cases v) (auto simp: is_map_def)
  then show ?thesis
    using merge_path_total [of nils mv m "[k]"] assms
    by (auto simp: body_set_def body_merge_def body_map_def)
qed

lemma shift_keys_total:
  "eBody e = VMap m \<Longrightarrow> without nils (VMap m) \<Longrightarrow> list_all (\<lambda>kv. without nils (snd kv)) kvs \<Longrightarrow>
   \<exists>e' m'. shift_keys kvs e = Done e' \<and> eBody e' = VMap m' \<and> without nils (VMap m')"
proof (induction kvs arbitrary: e m)
  case (Cons kv kvs)
  obtain k v where kv: "kv = (k, v)" by (cases kv)
  obtain m' where m': "body_set [k] v e = Done (e\<lparr>eBody := VMap m'\<rparr>)" "without nils (VMap m')"
    using body_set_top_total [OF Cons.prems(1,2)] Cons.prems(3) kv by auto
  show ?case using Cons.IH [of "e\<lparr>eBody := VMap m'\<rparr>" m'] m' Cons.prems(3) kv by auto
qed simp

lemma normalize_map_total:
  assumes "eBody e = VMap m" and "without nils (VMap m)"
  shows "\<exists>e' m'. normalize_map env e = Done e' \<and> eBody e' = VMap m' \<and> without nils (VMap m') \<and>
    ((\<forall>v. map_of m MessageField = Some v \<longrightarrow> \<not> is_map v) \<longrightarrow> e' = e)"
proof (cases "map_of m MessageField")
  case None
  then show ?thesis using assms by (simp add: normalize_map_def message_get_map)
next
  case (Some v)
  have v: "without nils v" by (rule without_lookup [OF assms(2) Some])
  show ?thesis
  proof (cases "is_map v")
    case False
    then show ?thesis using assms Some v by (cases v) (simp_all add: normalize_map_def message_get_map is_map_def)
  next
    case True
    then obtain mv where mv: "v = VMap mv" using v by (cases v) (auto simp: is_map_def)
    obtain e1 m1 where e1: "shift_keys mv e = Done e1" "eBody e1 = VMap m1" "without nils (VMap m1)"
      using shift_keys_total [OF assms, of mv] v mv by auto
    obtain m2 where "eBody (snd (body_delete [MessageField] e1)) = VMap m2" "without nils (VMap m2)"
      using body_delete_top [OF e1(2), of _ nils] e1(3) by blast
    then have "\<exists>e' m'. drop_empty_message env e1 = Done e' \<and> eBody e' = VMap m' \<and> without nils (VMap m')"
      using e1 by (auto simp: drop_empty_message_def message_get_map split: option.splits any.splits list.splits)
    then show ?thesis
      using assms Some mv e1 by (auto simp: normalize_map_def message_get_map is_map_def)
  qed
qed

lemma take_compatible_total:
  "eBody e = VMap m \<Longrightarrow> without nils (VMap m) \<Longrightarrow>
   \<exists>e' m'. take_compatible env fs e = Done e' \<and> eBody e' = VMap m' \<and> without nils (VMap m') \<and>
     (\<forall>k. k \<notin> insert MessageField (set fs) \<longrightarrow> map_of m' k = map_of m k)"
proof (induction fs)
  case (Cons f fs)
  have g: "body_get (unmarshalJSON env) [f] e = Done (map_of m f, e)"
    using body_get_map [OF Cons.prems(1), of "[f]"] by (simp split: option.splits)
  show ?case
  proof (cases "\<exists>s. map_of m f = Some (VStr s)")
    case False
    then have "take_compatible env (f # fs) e = take_compatible env fs e"
      using g by (simp split: option.splits any.splits)
    then show ?thesis using Cons by auto
  next
    case True
    then obtain s where s: "map_of m f = Some (VStr s)" by blast
    let ?m1 = "AList.update MessageField (VStr s) m"
    let ?e1 = "e\<lparr>eBody := VMap ?m1\<rparr>"
    have set: "body_set [MessageField] (VStr s) e = Done ?e1"
      using Cons.prems(1) by (rule body_set_top) (simp add: is_map_def)
    obtain m' where "eBody (snd (body_delete [f] ?e1)) = VMap m'" "map_of m' = (map_of ?m1)(f := None)"
        "without nils (VMap m')"
      using body_delete_top [of ?e1 ?m1 f nils] without_update [OF Cons.prems(2), of "VStr s"] by auto
    then show ?thesis using g s set by (auto simp: update_conv')
  qed
qed auto

lemma normalize_compatible_total:
  assumes "eBody e = VMap m" and "without nils (VMap m)"
  shows "\<exists>e' m'. normalize_compatible env e = Done e' \<and> eBody e' = VMap m' \<and> without nils (VMap m') \<and>
    (\<forall>k. k \<notin> {''message'', ''log'', ''msg''} \<longrightarrow> map_of m' k = map_of m k)"
proof (cases "map_of m MessageField")
  case None
  then have "normalize_compatible env e = take_compatible env msgCompatibleFields e"
    using assms(1) by (simp add: normalize_compatible_def message_get_map)
  then show ?thesis
    using take_compatible_total [OF assms, of env msgCompatibleFields]
    by (simp add: msgCompatibleFields_def MessageField_def)
next
  case (Some v)
  then have "normalize_compatible env e = Done e"
    using assms(1) by (simp add: normalize_compatible_def message_get_map)
  then show ?thesis using assms by blast
qed

text \<open>A message the normalizer may leave: none, a string, or a list that does not marshal.\<close>

definition message_ok :: "ops_env \<Rightarrow> vmap \<Rightarrow> bool" where
  "message_ok env m \<longleftrightarrow>
     (case map_of m MessageField of
        None \<Rightarrow> True
      | Some (VStr s) \<Rightarrow> True
      | Some v \<Rightarrow> reflect_kind v = Done KindSlice \<and> sonicMarshal env v = None)"

lemma message_ok_set: "message_ok env (AList.update MessageField (VStr s) m)"
  by (simp add: message_ok_def update_conv')

lemma normalize_string_total:
  assumes "eBody e = VMap m" and "without nils (VMap m)"
  shows "\<exists>e' m'. normalize_string env e = Done e' \<and> eBody e' = VMap m' \<and> message_ok env m' \<and>
    (\<forall>k. k \<noteq> MessageField \<longrightarrow> map_of m' k = map_of m k)"
proof (cases "map_of m MessageField")
  case None
  then show ?thesis using assms by (simp add: normalize_string_def message_get_map message_ok_def)
next
  case (Some v)
  have "without nils v" by (rule without_lookup [OF assms(2) Some])
  then obtain k where k: "reflect_kind v = Done k" by (cases v) auto
  have set: "body_set [MessageField] (VStr s) e = Done (e\<lparr>eBody := VMap (AList.update MessageField (VStr s) m)\<rparr>)" for s
    using assms(1) by (rule body_set_top) (simp add: is_map_def)
  show ?thesis
  proof (cases "k = KindSlice \<and> sonicMarshal env v = None")
    case True
    then show ?thesis
      using assms Some k by (auto simp: normalize_string_def message_get_map message_ok_def split: any.split)
  next
    case False
    then have "normalize_string env e =
        body_set [MessageField] (VStr (if k = KindSlice then the (sonicMarshal env v) else sprint env v)) e"
      using assms(1) Some k by (auto simp: normalize_string_def message_get_map)
    then show ?thesis using set message_ok_set by (auto simp: update_conv')
  qed
qed

subsection \<open>What it makes of a body\<close>

text \<open>
  The steps as functions of the body: the keys of a map under \<open>message\<close> replace those of the body, and the map itself
  goes only when it is empty; without a message the first of two fields that holds a string becomes the message; a
  message becomes text.
\<close>

definition lifted :: "vmap \<Rightarrow> string \<Rightarrow> any option" where
  "lifted m =
     (case map_of m ''message'' of
        Some (VMap mv) \<Rightarrow> if mv = [] then (map_of m)(''message'' := None) else map_of m ++ map_of mv
      | _ \<Rightarrow> map_of m)"

definition string_at :: "(string \<Rightarrow> any option) \<Rightarrow> string \<Rightarrow> bool" where
  "string_at g f = (case g f of Some (VStr s) \<Rightarrow> True | _ \<Rightarrow> False)"

definition with_compatible :: "(string \<Rightarrow> any option) \<Rightarrow> string \<Rightarrow> any option" where
  "with_compatible g =
     (if g ''message'' \<noteq> None then g
      else case find (string_at g) [''log'', ''msg''] of None \<Rightarrow> g | Some f \<Rightarrow> g(''message'' := g f, f := None))"

definition message_text :: "ops_env \<Rightarrow> any \<Rightarrow> any" where
  "message_text env v =
     (if reflect_kind v = Done KindSlice then (case sonicMarshal env v of None \<Rightarrow> v | Some s \<Rightarrow> VStr s) else VStr (sprint env v))"

definition as_text :: "ops_env \<Rightarrow> (string \<Rightarrow> any option) \<Rightarrow> string \<Rightarrow> any option" where
  "as_text env g = (case g ''message'' of None \<Rightarrow> g | Some v \<Rightarrow> g(''message'' := Some (message_text env v)))"

text \<open>A map under \<open>message\<close> holds no maps.\<close>

definition flat_message :: "vmap \<Rightarrow> bool" where
  "flat_message m =
     (case map_of m ''message'' of Some (VMap mv) \<Rightarrow> distinct (map fst mv) \<and> list_all (\<lambda>kv. \<not> is_map (snd kv)) mv | _ \<Rightarrow> True)"

lemma shift_keys_flat:
  "eBody e = VMap m \<Longrightarrow> distinct (map fst kvs) \<Longrightarrow> list_all (\<lambda>kv. \<not> is_map (snd kv)) kvs \<Longrightarrow>
   \<exists>e' m'. shift_keys kvs e = Done e' \<and> eBody e' = VMap m' \<and> map_of m' = map_of m ++ map_of kvs"
proof (induction kvs arbitrary: e m)
  case (Cons kv kvs)
  obtain k v where kv: "kv = (k, v)" by (cases kv)
  have set: "body_set [k] v e = Done (e\<lparr>eBody := VMap (AList.update k v m)\<rparr>)"
    using body_set_top [OF Cons.prems(1)] Cons.prems(3) kv by simp
  have "\<exists>e' m'. shift_keys kvs (e\<lparr>eBody := VMap (AList.update k v m)\<rparr>) = Done e' \<and> eBody e' = VMap m' \<and>
      map_of m' = map_of (AList.update k v m) ++ map_of kvs"
    by (rule Cons.IH) (use Cons.prems(2, 3) in simp_all)
  then obtain e' m' where r: "shift_keys kvs (e\<lparr>eBody := VMap (AList.update k v m)\<rparr>) = Done e'" "eBody e' = VMap m'"
      "map_of m' = map_of (AList.update k v m) ++ map_of kvs"
    by blast
  have "map_of kvs k = None" using Cons.prems(2) kv by (simp add: map_of_eq_None_iff)
  then have "map_of m' = map_of m ++ map_of (kv # kvs)"
    unfolding r(3) kv by (auto simp: fun_eq_iff map_add_def split: option.split)
  moreover have "shift_keys (kv # kvs) e = Done e'" using kv set r(1) by simp
  ultimately show ?case using r(2) by blast
qed simp

lemma normalize_map_flat:
  assumes "eBody e = VMap m" and "without nils (VMap m)" and "flat_message m"
  shows "\<exists>e' m'. normalize_map env e = Done e' \<and> eBody e' = VMap m' \<and> map_of m' = lifted m"
proof (cases "\<exists>mv. map_of m ''message'' = Some (VMap mv)")
  case False
  have "\<not> is_map v" if "map_of m MessageField = Some v" for v
    using False without_lookup [OF assms(2) that] that by (cases v) (auto simp: is_map_def MessageField_def)
  then obtain e' where "normalize_map env e = Done e'" "e' = e" using normalize_map_total [OF assms(1, 2), of env] by auto
  then show ?thesis using assms(1) False by (auto simp: lifted_def split: option.splits any.splits)
next
  case True
  then obtain mv where mv: "map_of m ''message'' = Some (VMap mv)" by blast
  then have flat: "distinct (map fst mv)" "list_all (\<lambda>kv. \<not> is_map (snd kv)) mv" using assms(3) by (simp_all add: flat_message_def)
  obtain e1 m1 where e1: "shift_keys mv e = Done e1" "eBody e1 = VMap m1" "map_of m1 = map_of m ++ map_of mv"
    using shift_keys_flat [OF assms(1) flat] by blast
  have run: "normalize_map env e = drop_empty_message env e1"
    using assms(1) mv e1(1) by (simp add: normalize_map_def message_get_map MessageField_def)
  show ?thesis
  proof (cases "mv = []")
    case empty: True
    obtain m2 where "eBody (snd (body_delete [MessageField] e1)) = VMap m2" "map_of m2 = (map_of m1)(MessageField := None)"
      using body_delete_top [OF e1(2)] by blast
    then show ?thesis
      using run mv e1 empty by (auto simp: drop_empty_message_def message_get_map MessageField_def lifted_def)
  next
    case full: False
    have "drop_empty_message env e1 = Done e1"
    proof (cases "map_of mv ''message''")
      case None
      then show ?thesis
        using full e1 mv by (cases mv) (auto simp: drop_empty_message_def message_get_map MessageField_def map_add_def)
    next
      case (Some v)
      then have "\<not> is_map v" using flat(2) map_of_SomeD by (fastforce simp: list_all_iff)
      then show ?thesis
        using Some e1 by (cases v) (auto simp: drop_empty_message_def message_get_map MessageField_def is_map_def)
    qed
    then show ?thesis using run mv e1 full by (simp add: lifted_def)
  qed
qed

lemma take_compatible_finds:
  "eBody e = VMap m \<Longrightarrow> \<exists>e' m'. take_compatible env fs e = Done e' \<and> eBody e' = VMap m' \<and>
     map_of m' = (case find (string_at (map_of m)) fs of None \<Rightarrow> map_of m | Some f \<Rightarrow> (map_of m)(MessageField := map_of m f, f := None))"
proof (induction fs)
  case (Cons f fs)
  have g: "body_get (unmarshalJSON env) [f] e = Done (map_of m f, e)"
    using body_get_map [OF Cons.prems(1), of "[f]"] by (simp split: option.splits)
  show ?case
  proof (cases "\<exists>s. map_of m f = Some (VStr s)")
    case False
    then have "take_compatible env (f # fs) e = take_compatible env fs e" "\<not> string_at (map_of m) f"
      using g by (simp_all add: string_at_def split: option.splits any.splits)
    then show ?thesis using Cons by simp
  next
    case True
    then obtain s where s: "map_of m f = Some (VStr s)" by blast
    let ?m1 = "AList.update MessageField (VStr s) m"
    have set: "body_set [MessageField] (VStr s) e = Done (e\<lparr>eBody := VMap ?m1\<rparr>)"
      using Cons.prems(1) by (rule body_set_top) (simp add: is_map_def)
    obtain m' where "eBody (snd (body_delete [f] (e\<lparr>eBody := VMap ?m1\<rparr>))) = VMap m'" "map_of m' = (map_of ?m1)(f := None)"
      using body_delete_top [of "e\<lparr>eBody := VMap ?m1\<rparr>" ?m1 f] by auto
    then show ?thesis using g s set by (auto simp: string_at_def fun_eq_iff)
  qed
qed simp

lemma normalize_compatible_finds:
  assumes "eBody e = VMap m"
  shows "\<exists>e' m'. normalize_compatible env e = Done e' \<and> eBody e' = VMap m' \<and> map_of m' = with_compatible (map_of m)"
  using take_compatible_finds [OF assms, of env msgCompatibleFields] assms
  by (auto simp: normalize_compatible_def message_get_map with_compatible_def MessageField_def msgCompatibleFields_def)

lemma normalize_string_text:
  assumes "eBody e = VMap m" and "without nils (VMap m)"
  shows "\<exists>e' m'. normalize_string env e = Done e' \<and> eBody e' = VMap m' \<and> map_of m' = as_text env (map_of m)"
proof (cases "map_of m MessageField")
  case None
  then show ?thesis using assms by (simp add: normalize_string_def message_get_map as_text_def MessageField_def)
next
  case (Some v)
  have "without nils v" by (rule without_lookup [OF assms(2) Some])
  then obtain k where k: "reflect_kind v = Done k" by (cases v) auto
  have set: "body_set [MessageField] (VStr s) e = Done (e\<lparr>eBody := VMap (AList.update MessageField (VStr s) m)\<rparr>)" for s
    using assms(1) by (rule body_set_top) (simp add: is_map_def)
  show ?thesis
  proof (cases "k = KindSlice \<and> sonicMarshal env v = None")
    case True
    then show ?thesis
      using assms Some k by (auto simp: normalize_string_def message_get_map as_text_def message_text_def MessageField_def fun_upd_triv)
  next
    case False
    then show ?thesis
      using assms(1) Some k set
      by (auto simp: normalize_string_def message_get_map as_text_def message_text_def MessageField_def split: option.splits)
  qed
qed

text \<open>A map under \<open>message\<close> that has no key \<open>message\<close> stays there beside its shifted keys, and becomes text.\<close>

lemma shifted_message_stays:
  "map_of (AList.update ''message'' v m) ''level'' = None \<Longrightarrow> v = VMap [(''level'', VStr ''info'')] \<Longrightarrow>
    as_text env (with_compatible (lifted (AList.update ''message'' v m))) ''message'' = Some (VStr (sprint env v)) \<and>
    as_text env (with_compatible (lifted (AList.update ''message'' v m))) ''level'' = Some (VStr ''info'')"
  by (simp add: as_text_def with_compatible_def lifted_def message_text_def map_add_def)

text \<open>C9: On a body without nil values the normalizer always returns, and leaves a map whose message, if it has one, is a string or a
  list that the JSON library cannot write. When no map under \<open>message\<close> holds maps, the body it leaves is given: the
  keys of a map under \<open>message\<close> replace those of the body (and the map itself goes only if it is empty), without a message
  the first string of \<open>log\<close> and \<open>msg\<close> becomes the message, the message becomes text, and all else stays.\<close>

theorem normalizer_leaves_string_message:
  assumes "parsed_value env (eBody e) = VMap m" and "without {VNil, VNilMap} (VMap m)"
  shows "\<exists>e' m'. normalize_transform env e = Done (None, e') \<and> eBody e' = VMap m' \<and> message_ok env m' \<and>
    (flat_message m \<longrightarrow> map_of m' = as_text env (with_compatible (lifted m)))"
proof -
  let ?e = "e\<lparr>eBody := parsed_value env (eBody e)\<rparr>"
  have body: "eBody ?e = VMap m" using assms(1) by simp
  obtain e1 m1 where 1: "normalize_map env ?e = Done e1" "eBody e1 = VMap m1" "without nils (VMap m1)"
    using normalize_map_total [OF body assms(2), of env] by blast
  obtain e2 m2 where 2: "normalize_compatible env e1 = Done e2" "eBody e2 = VMap m2" "without nils (VMap m2)"
    using normalize_compatible_total [OF 1(2,3), of env] by blast
  obtain e3 m3 where 3: "normalize_string env e2 = Done e3" "eBody e3 = VMap m3" "message_ok env m3"
    using normalize_string_total [OF 2(2,3), of env] by blast
  have run: "normalize_transform env e = Done (None, e3)"
    using 1(1) 2(1) 3(1) by (simp add: normalize_transform_def normalize_def)
  have "map_of m3 = as_text env (with_compatible (lifted m))" if "flat_message m"
  proof -
    have "map_of m1 = lifted m" using normalize_map_flat [OF body assms(2) that, of env] 1 by auto
    moreover have "map_of m2 = with_compatible (map_of m1)" using normalize_compatible_finds [OF 1(2), of env] 2 by auto
    moreover have "map_of m3 = as_text env (map_of m2)" using normalize_string_text [OF 2(2, 3), of env] 3 by auto
    ultimately show ?thesis by simp
  qed
  then show ?thesis using run 3(2,3) by blast
qed

definition sample_env :: ops_env where
  "sample_env = \<lparr>unmarshalJSON = (\<lambda>s. JErr), toLower = (\<lambda>s. s), wholeFloat = (\<lambda>f. None), sprint = (\<lambda>v. ''?''),
     unquote = (\<lambda>s. None), sonicDecode = (\<lambda>s. ([], False)), sonicMarshal = (\<lambda>v. None)\<rparr>"

theorem normalizer_leaves_string_message_witness:
  "\<exists>e' m'. normalize_transform sample_env (sample_entry (VMap [(''log'', VStr ''hi''), (''a'', VBool True)])) = Done (None, e') \<and>
     eBody e' = VMap m' \<and> map_of m' ''message'' = Some (VStr (sprint sample_env (VStr ''hi''))) \<and> map_of m' ''log'' = None \<and>
     map_of m' ''a'' = Some (VBool True)"
proof -
  let ?m = "[(''log'', VStr ''hi''), (''a'', VBool True)]"
  have "parsed_value sample_env (eBody (sample_entry (VMap ?m))) = VMap ?m" "without {VNil, VNilMap} (VMap ?m)"
    by (simp_all add: parsed_value_def sample_entry_def)
  moreover have "flat_message ?m" by (simp add: flat_message_def)
  moreover have "as_text sample_env (with_compatible (lifted ?m)) ''message'' = Some (VStr (sprint sample_env (VStr ''hi'')))"
      "as_text sample_env (with_compatible (lifted ?m)) ''log'' = None"
      "as_text sample_env (with_compatible (lifted ?m)) ''a'' = Some (VBool True)"
    by (simp_all add: as_text_def with_compatible_def lifted_def string_at_def message_text_def)
  ultimately show ?thesis using normalizer_leaves_string_message [of sample_env "sample_entry (VMap ?m)" ?m] by metis
qed

text \<open>A nil body, and a message that is nil, make the normalizer panic: the processor does not
  survive such a record.\<close>

theorem normalizer_panics_on_nil:
  assumes "eBody e = VNil \<or> (\<exists>m. parsed_value env (eBody e) = VMap m \<and> map_of m ''message'' = Some VNil)"
  shows "normalize_transform env e = Panic"
proof -
  obtain m where m: "parsed_value env (eBody e) = VMap m" "map_of m MessageField = Some VNil"
    using assms by (auto simp: parsed_value_def MessageField_def)
  let ?e = "e\<lparr>eBody := parsed_value env (eBody e)\<rparr>"
  have "message_get env ?e = Done (Some VNil, ?e)"
    using message_get_map [of ?e m env] m by simp
  then show ?thesis by (simp add: normalize_transform_def normalize_def normalize_map_def)
qed

theorem normalizer_panics_on_nil_witness: "normalize_transform sample_env (sample_entry VNil) = Panic"
  by (rule normalizer_panics_on_nil) (simp add: sample_entry_def)

section \<open>The parsed body\<close>

text \<open>Once a field below a JSON body has been read, the parsed body is kept: after an operator replaces the
  whole body by another text, reads of its fields still answer from the first one.\<close>

theorem parsed_body_survives_replacement:
  assumes "eBody e = VStr a" and "unmarshal a = JMap m"
    and "map_of (or_nil (eAttributes e)) cachedBodyJsonKey = None" and "keys \<noteq> []"
  shows "\<exists>e1. body_get unmarshal keys e = Done (get_path keys (VMap m), e1) \<and>
    body_set [] (VStr b) e1 = Done (e1\<lparr>eBody := VStr b\<rparr>) \<and>
    (\<forall>keys'. keys' \<noteq> [] \<longrightarrow>
       body_get unmarshal keys' (e1\<lparr>eBody := VStr b\<rparr>) = Done (get_path keys' (VMap m), e1\<lparr>eBody := VStr b\<rparr>))"
proof -
  let ?al = "or_nil (eAttributes e)"
  let ?e1 = "e\<lparr>eAttributes := Some (AList.update cachedBodyJsonKey (VMap m) ?al)\<rparr>"
  have "ParseBodyJson unmarshal e = Done (Some m, ?e1)"
    using assms(1-3) by (simp add: ParseBodyJson_def or_nil_def body_bytes_def Let_def)
  then have "body_get unmarshal keys e = Done (get_path keys (VMap m), ?e1)"
    using assms(4) by (simp add: body_get_def)
  moreover have "ParseBodyJson unmarshal (?e1\<lparr>eBody := VStr b\<rparr>) = Done (Some m, ?e1\<lparr>eBody := VStr b\<rparr>)"
    by (simp add: ParseBodyJson_def update_conv' Let_def)
  ultimately show ?thesis by (simp add: body_set_def body_get_def)
qed

theorem parsed_body_survives_replacement_witness:
  "\<exists>e1. body_get (\<lambda>s. if s = ''A'' then JMap [(''k'', VStr ''old'')] else JMap [(''k'', VStr ''new'')]) [''k''] (sample_entry (VStr ''A'')) =
      Done (Some (VStr ''old''), e1) \<and>
    body_get (\<lambda>s. if s = ''A'' then JMap [(''k'', VStr ''old'')] else JMap [(''k'', VStr ''new'')]) [''k''] (e1\<lparr>eBody := VStr ''B''\<rparr>) =
      Done (Some (VStr ''old''), e1\<lparr>eBody := VStr ''B''\<rparr>)"
  using parsed_body_survives_replacement [of "sample_entry (VStr ''A'')" "''A''"
      "\<lambda>s. if s = ''A'' then JMap [(''k'', VStr ''old'')] else JMap [(''k'', VStr ''new'')]"
      "[(''k'', VStr ''old'')]" "[''k'']" "''B''"]
  by (fastforce simp: sample_entry_def or_nil_def)

text \<open>A value of another type under the reserved attribute makes every read below the body panic.\<close>

lemma reserved_attribute_panics:
  assumes "eAttributes e = Some al" and "map_of al cachedBodyJsonKey = Some v" and "\<not> is_map v"
    and "\<not> is_map (eBody e)" and "keys \<noteq> []"
  shows "body_get unmarshal keys e = Panic"
  using assms by (auto simp: body_get_def ParseBodyJson_def is_map_def Let_def split: any.split)

end
