(* ===== verification/LogsFlowTheorems.thy ===== *)
theory LogsFlowTheorems
  imports LogsTheorems
begin

text \<open>
  What the logs pipeline emits for what it receives: no record is lost or doubled by the
  conversion to entries, the operators and the grouping; and the cache in front of the regular
  expressions, which is not observable.
\<close>

section \<open>Every record comes out\<close>





definition sample_record :: log_record where
  "sample_record = \<lparr>lr_timestamp = 5, lr_observed = 7, lr_severityNumber = 9, lr_severityText = ''INFO'',
     lr_attributes = [(''a'', VStr ''b'')], lr_body = VStr ''hello'', lr_traceID = replicate 16 1,
     lr_spanID = replicate 8 0, lr_flags = 1, lr_eventName = ''e'', lr_droppedAttributes = 2\<rparr>"

definition sample_logs :: logs where
  "sample_logs = [(new_resource [(''service.name'', VStr ''s'')])
     \<lparr>rl_schemaUrl := ''u'',
      rl_scopes := [(new_scope ''x'')\<lparr>sl_version := ''1'', sl_records := [sample_record, sample_record]\<rparr>,
                    (new_scope ''y'')\<lparr>sl_records := [sample_record]\<rparr>]\<rparr>]"


section \<open>Records survive the round trip\<close>

text \<open>The values a decoded payload holds, without nulls and without internal keys.\<close>

fun plain_value :: "any \<Rightarrow> bool" where
  "plain_value (VBool b) \<longleftrightarrow> True"
| "plain_value (VStr s) \<longleftrightarrow> True"
| "plain_value (VBytes s) \<longleftrightarrow> True"
| "plain_value (VInt k i) \<longleftrightarrow> k = KInt64"
| "plain_value (VFloat f) \<longleftrightarrow> True"
| "plain_value (VList vs) \<longleftrightarrow> list_all plain_value vs"
| "plain_value (VMap m) \<longleftrightarrow>
     list_all (\<lambda>kv. \<not> has_prefix InternalTempAttributePrefix (fst kv) \<and> plain_value (snd kv)) m"
| "plain_value _ \<longleftrightarrow> False"

lemma upsert_plain: "plain_value v \<Longrightarrow> upsertToAttributeVal pr v = v"
proof (induction v rule: plain_value.induct)
  case (6 vs)
  then show ?case by (subst upsertToAttributeVal.simps) (auto simp: list_all_iff intro: map_idI)
next
  case (7 m)
  have "filter (\<lambda>kv. \<not> has_prefix InternalTempAttributePrefix (fst kv)) m = m"
    using "7.prems" by (auto simp: list_all_iff intro: filter_True)
  moreover have "map (\<lambda>kv. (fst kv, upsertToAttributeVal pr (snd kv))) m = m"
    using 7 by (intro map_idI) (auto simp: list_all_iff)
  ultimately show ?case by (subst upsertToAttributeVal.simps) simp
qed (simp_all add: upsertToAttributeVal.simps)

lemma upsertToMap_plain: "plain_value (VMap m) \<Longrightarrow> upsertToMap pr m = m"
  using upsert_plain [of "VMap m" pr] by (simp add: upsertToMap_def upsertToAttributeVal.simps [of pr "VMap m"])

lemma index_of_nth: "distinct xs \<Longrightarrow> i < length xs \<Longrightarrow> index_of (xs ! i) xs = i"
proof (induction xs arbitrary: i)
  case (Cons x xs)
  then show ?case by (cases i) auto
qed simp

lemma severity_number_roundtrip:
  assumes "unat n \<le> 24"
  shows "sevMap (fromPdataSevMap n) = n"
proof -
  have "distinct severity_order" "length severity_order = 25"
    by (simp_all add: severity_order_def severities_def)
  then show ?thesis using assms by (simp add: sevMap_def fromPdataSevMap_def index_of_nth)
qed

text \<open>The records the entry type has room for.\<close>

definition plain_record :: "log_record \<Rightarrow> bool" where
  "plain_record r \<longleftrightarrow>
     lr_observed r \<noteq> 0 \<and> unat (lr_severityNumber r) \<le> 24 \<and>
     (lr_severityText r = [] \<longrightarrow> lr_severityNumber r = 0) \<and>
     plain_value (VMap (lr_attributes r)) \<and> (lr_body r = VNil \<or> plain_value (lr_body r)) \<and>
     length (lr_traceID r) = 16 \<and> length (lr_spanID r) = 8 \<and> unat (lr_flags r) < 256"

lemma pad_full: "length bs = n \<Longrightarrow> pad_id n bs = bs"
  by (simp add: pad_id_def)

lemma all_zero_replicate: "all_zero bs \<Longrightarrow> length bs = n \<Longrightarrow> replicate n 0 = bs"
  by (rule sym, rule replicate_eqI) (auto simp: all_zero_def list_all_iff)

lemma flags_roundtrip: "unat (f :: u32) < 256 \<Longrightarrow> ucast (ucast f :: u8) = f"
  by (rule word_unat_eq_iff [THEN iffD2]) (simp add: unsigned_ucast_eq take_bit_nat_eq_self unsigned_take_bit_eq)

text \<open>What the entry type has no room for.\<close>

definition without_event :: "log_record \<Rightarrow> log_record" where
  "without_event r = r\<lparr>lr_eventName := [], lr_droppedAttributes := 0\<rparr>"

lemma record_roundtrip:
  assumes "plain_record r"
  shows "convertInto pr (convertFrom now resource scope r) = without_event r"
proof -
  have "defaultSevTextMap (fromPdataSevMap 0) = []"
    by (simp add: defaultSevTextMap_def fromPdataSevMap_def severity_order_def severity_texts_def)
  then show ?thesis
    using assms
    by (cases r)
      (auto simp: without_event_def plain_record_def convertInto_def convertFrom_def severity_number_roundtrip
        upsertToMap_plain upsert_plain pad_full all_zero_replicate flags_roundtrip or_nil_def)
qed

definition plain_logs :: "logs \<Rightarrow> bool" where
  "plain_logs ld \<longleftrightarrow>
     list_all (\<lambda>rl. plain_value (VMap (rl_resource rl)) \<and>
       list_all (\<lambda>sl. list_all plain_record (sl_records sl)) (rl_scopes rl)) ld"

lemma located_entries:
  assumes "plain_logs ld"
  shows "map (entry_located pr) (plogToEntries now ld) = map (\<lambda>(res, scope, r). (res, scope, without_event r)) (located ld)"
proof -
  have "entry_located pr (convertFrom now (rl_resource rl) (sl_name sl) r) = (rl_resource rl, sl_name sl, without_event r)"
    if "rl \<in> set ld" "sl \<in> set (rl_scopes rl)" "r \<in> set (sl_records sl)" for rl sl r
  proof -
    have "plain_value (VMap (rl_resource rl))" "plain_record r"
      using assms that by (auto simp: plain_logs_def list_all_iff)
    then show ?thesis
      by (simp add: entry_located_def record_roundtrip upsertToMap_plain)
        (simp add: convertFrom_def or_nil_def upsertToMap_plain)
  qed
  then show ?thesis
    by (simp add: plogToEntries_def located_def map_concat comp_def cong: map_cong)
qed

lemma process_entries_noop: "process_entries (noop_process Done) es = Done es"
  by (induction es) (simp_all add: noop_process_def)

text \<open>Resources and scopes of a payload that the processor makes have what it sets and nothing else.\<close>

definition bare_scope :: "scope_logs \<Rightarrow> bool" where
  "bare_scope sl \<longleftrightarrow> sl = (new_scope (sl_name sl))\<lparr>sl_records := sl_records sl\<rparr>"

definition bare_resource :: "resource_logs \<Rightarrow> bool" where
  "bare_resource rl \<longleftrightarrow> rl = (new_resource (rl_resource rl))\<lparr>rl_scopes := rl_scopes rl\<rparr> \<and> list_all bare_scope (rl_scopes rl)"

lemma bare_new [simp]: "bare_scope (new_scope name)" "bare_resource (new_resource attrs)"
  by (simp_all add: bare_scope_def bare_resource_def new_scope_def new_resource_def)

lemma list_all_update: "list_all P xs \<Longrightarrow> (i < length xs \<Longrightarrow> P x) \<Longrightarrow> list_all P (xs[i := x])"
  by (cases "i < length xs") (auto simp: list_all_iff list_update_beyond dest!: set_update_subset_insert [THEN subsetD])

lemma bare_append_record: "list_all bare_resource ls \<Longrightarrow> list_all bare_resource (append_record i j r ls)"
proof -
  assume ls: "list_all bare_resource ls"
  have scope: "bare_scope (sl\<lparr>sl_records := x\<rparr>)" if "bare_scope sl" for sl x
    using that by (cases sl) (simp add: bare_scope_def new_scope_def)
  have resource: "bare_resource (rl\<lparr>rl_scopes := sls\<rparr>)" if "bare_resource rl" "list_all bare_scope sls" for rl sls
    using that by (cases rl) (simp add: bare_resource_def new_resource_def)
  have scopes: "list_all bare_scope (rl_scopes rl)" if "bare_resource rl" for rl
    using that by (simp add: bare_resource_def)
  show ?thesis
    unfolding append_record_def Let_def
  proof (rule list_all_update [OF ls])
    assume "i < length ls"
    then have i: "bare_resource (ls ! i)" using ls by (simp add: list_all_length)
    have "list_all bare_scope ((rl_scopes (ls ! i))[j := (rl_scopes (ls ! i) ! j)\<lparr>sl_records := x\<rparr>])" for x
      using scopes [OF i] by (intro list_all_update) (simp_all add: list_all_length scope)
    then show "bare_resource ((ls ! i)\<lparr>rl_scopes := (rl_scopes (ls ! i))[j := (rl_scopes (ls ! i) ! j)
        \<lparr>sl_records := sl_records (rl_scopes (ls ! i) ! j) @ [r]\<rparr>]\<rparr>)"
      by (rule resource [OF i])
  qed
qed

lemma bare_append_scope: "list_all bare_resource ls \<Longrightarrow> list_all bare_resource (append_scope i name ls)"
proof -
  assume ls: "list_all bare_resource ls"
  have "bare_resource (rl\<lparr>rl_scopes := rl_scopes rl @ [new_scope name]\<rparr>)" if "bare_resource rl" for rl
    using that by (cases rl) (simp add: bare_resource_def new_resource_def)
  then show ?thesis
    unfolding append_scope_def using ls by (intro list_all_update) (auto simp: list_all_length)
qed

lemma bare_converted: "list_all bare_resource (convertEntriesToPlogs H pr es)"
proof -
  have step: "list_all bare_resource (cv_logs (convert_step H pr e c))" if "list_all bare_resource (cv_logs c)" for e c
    using that by (auto simp: convert_step_def Let_def bare_append_record bare_append_scope split: option.split)
  have "list_all bare_resource (cv_logs c) \<Longrightarrow> list_all bare_resource (cv_logs (fold (convert_step H pr) es c))" for c
    by (induction es arbitrary: c) (simp_all add: step)
  then show ?thesis by (simp add: convertEntriesToPlogs_def)
qed

text \<open>C8: A pipeline without effect returns every record of a payload of plain records, up to their order, with the same
  timestamps, severity, ids, flags, attributes and body, under the same resource attributes and scope name, when resources
  with the same hash have the same attributes. It loses the rest: event names, versions and attributes of
  scopes, schema URLs and counts of dropped attributes are empty in what it returns. Plain records have an observed time, a
  known severity that has a text unless it is unspecified, ids of their lengths, flags in one byte, and values that the
  conversion to entries and back keeps.\<close>

theorem noop_pipeline_keeps_payload:
  assumes "plain_logs ld" and "hash_faithful H pr (set (plogToEntries now ld))"
  shows "\<exists>out. ProcessLogs H pr now (noop_process Done) ld = Done out \<and>
    mset (located out) = mset (map (\<lambda>(res, scope, r). (res, scope, r\<lparr>lr_eventName := [], lr_droppedAttributes := 0\<rparr>)) (located ld)) \<and>
    (\<forall>rl \<in> set out. rl_schemaUrl rl = [] \<and> rl_droppedAttributes rl = 0 \<and>
       (\<forall>sl \<in> set (rl_scopes rl). sl_version sl = [] \<and> sl_attributes sl = [] \<and> sl_droppedAttributes sl = 0 \<and> sl_schemaUrl sl = []))"
proof -
  let ?out = "convertEntriesToPlogs H pr (plogToEntries now ld)"
  have "ProcessLogs H pr now (noop_process Done) ld = Done ?out" by (simp add: ProcessLogs_def process_entries_noop)
  moreover have "mset (located ?out) = mset (map (\<lambda>(res, scope, r). (res, scope, without_event r)) (located ld))"
    using convertEntries_located [OF assms(2)] located_entries [OF assms(1)] by simp
  moreover have "rl_schemaUrl rl = []" "rl_droppedAttributes rl = 0" "list_all bare_scope (rl_scopes rl)" if "rl \<in> set ?out" for rl
  proof -
    have "bare_resource rl" using bare_converted that by (auto simp: list_all_iff)
    then have rl: "rl = (new_resource (rl_resource rl))\<lparr>rl_scopes := rl_scopes rl\<rparr>" "list_all bare_scope (rl_scopes rl)"
      by (simp_all add: bare_resource_def)
    show "rl_schemaUrl rl = []" "rl_droppedAttributes rl = 0" by (subst rl(1), simp add: new_resource_def)+
    show "list_all bare_scope (rl_scopes rl)" by (rule rl(2))
  qed
  moreover have "sl_version sl = []" "sl_attributes sl = []" "sl_droppedAttributes sl = 0" "sl_schemaUrl sl = []" if "bare_scope sl" for sl
  proof -
    have sl: "sl = (new_scope (sl_name sl))\<lparr>sl_records := sl_records sl\<rparr>" using that by (simp add: bare_scope_def)
    show "sl_version sl = []" "sl_attributes sl = []" "sl_droppedAttributes sl = 0" "sl_schemaUrl sl = []"
      by (subst sl, simp add: new_scope_def)+
  qed
  ultimately show ?thesis unfolding without_event_def list_all_iff by blast
qed

theorem noop_pipeline_keeps_payload_witness:
  "\<exists>out. ProcessLogs (\<lambda>r. 0) (\<lambda>v. []) 1 (noop_process Done) sample_logs = Done out \<and> length (located out) = 3 \<and>
     (\<forall>rl \<in> set out. rl_schemaUrl rl = [])"
proof -
  have "plain_logs sample_logs"
    by (simp add: plain_logs_def sample_logs_def plain_record_def sample_record_def has_prefix_def
      InternalTempAttributePrefix_def)
  moreover have "hash_faithful (\<lambda>r. 0) (\<lambda>v. []) (set (plogToEntries 1 sample_logs))"
    by (simp add: hash_faithful_def plogToEntries_def sample_logs_def convertFrom_def)
  ultimately obtain out where out: "ProcessLogs (\<lambda>r. 0) (\<lambda>v. []) 1 (noop_process Done) sample_logs = Done out"
      "mset (located out) = mset (map (\<lambda>(res, scope, r). (res, scope, r\<lparr>lr_eventName := [], lr_droppedAttributes := 0\<rparr>)) (located sample_logs))"
      "\<forall>rl \<in> set out. rl_schemaUrl rl = []"
    using noop_pipeline_keeps_payload by blast
  have "length (located out) = length (located sample_logs)" using arg_cong [OF out(2), of size] by simp
  also have "\<dots> = 3" by (simp add: located_def sample_logs_def)
  finally show ?thesis using out(1, 3) by blast
qed

section \<open>The cache of the regular expressions\<close>

text \<open>Lookups of values and ticks of the limiter, in any order.\<close>

datatype cache_event = MatchValue string | LimiterTick

fun run_cache ::
  "(string \<Rightarrow> string + 'v) \<Rightarrow> cache_event list \<Rightarrow> 'v memory_cache \<Rightarrow> ((string + 'v) list \<times> 'v memory_cache) outcome" where
  "run_cache mtch [] m = Done ([], m)"
| "run_cache mtch (LimiterTick # es) m = run_cache mtch es (m\<lparr>mc_limiter := lim_tick (mc_limiter m)\<rparr>)"
| "run_cache mtch (MatchValue v # es) m =
     bind_outcome (regex_match mtch (Some m) v) (\<lambda>(r, m').
     bind_outcome (run_cache mtch es (the m')) (\<lambda>(rs, m''). Done (r # rs, m'')))"

fun event_results :: "(string \<Rightarrow> string + 'v) \<Rightarrow> cache_event list \<Rightarrow> (string + 'v) list" where
  "event_results mtch [] = []"
| "event_results mtch (LimiterTick # es) = event_results mtch es"
| "event_results mtch (MatchValue v # es) = mtch v # event_results mtch es"

definition cache_ok :: "(string \<Rightarrow> string + 'v) \<Rightarrow> 'v memory_cache \<Rightarrow> bool" where
  "cache_ok mtch m \<longleftrightarrow>
     0 < mc_cap m \<and> length (mc_keys m) \<le> mc_cap m \<and> distinct (mc_keys m) \<and>
     dom (mc_cache m) = set (mc_keys m) \<and> (\<forall>k v. mc_cache m k = Some v \<longrightarrow> mtch k = Inr v)"

lemma mc_add_ok:
  assumes "cache_ok mtch m" and "mc_cache m k = None" and "mtch k = Inr v"
  shows "\<exists>b m'. mc_add m k v = Done (b, m') \<and> cache_ok mtch m' \<and> mc_cap m' = mc_cap m"
proof -
  have k: "k \<notin> set (mc_keys m)" using assms(1,2) by (auto simp: cache_ok_def)
  consider "throttled (mc_limiter m)" | "\<not> throttled (mc_limiter m)" "length (mc_keys m) < mc_cap m"
    | old rest where "\<not> throttled (mc_limiter m)" "mc_keys m = old # rest" "length (mc_keys m) = mc_cap m"
    using assms(1) by (cases "mc_keys m") (auto simp: cache_ok_def le_less)
  then show ?thesis
  proof cases
    case 1
    then have "mc_add m k v = Done (False, m)" by (simp add: mc_add_def)
    then show ?thesis using assms(1) by blast
  next
    case 2
    then show ?thesis using assms k by (auto simp: mc_add_def cache_ok_def)
  next
    case 3
    have "dom (mc_cache m) = insert old (set rest)" "old \<notin> set rest"
      using assms(1) 3(2) by (auto simp: cache_ok_def)
    then show ?thesis using assms k 3 by (auto simp: mc_add_def cache_ok_def)
  qed
qed

lemma regex_match_ok:
  assumes "cache_ok mtch m"
  shows "\<exists>m'. regex_match mtch (Some m) v = Done (mtch v, Some m') \<and> cache_ok mtch m' \<and> mc_cap m' = mc_cap m"
proof (cases "mc_cache m v")
  case None
  show ?thesis
  proof (cases "mtch v")
    case (Inl e)
    then show ?thesis using None assms by (simp add: regex_match_def mc_get_def)
  next
    case (Inr x)
    then show ?thesis using mc_add_ok [OF assms None Inr] None by (auto simp: regex_match_def mc_get_def)
  qed
next
  case (Some x)
  then show ?thesis using assms by (simp add: regex_match_def mc_get_def cache_ok_def)
qed

lemma run_cache_ok:
  "cache_ok mtch m \<Longrightarrow>
   \<exists>m'. run_cache mtch es m = Done (event_results mtch es, m') \<and> cache_ok mtch m' \<and> mc_cap m' = mc_cap m"
proof (induction mtch es m rule: run_cache.induct)
  case (2 mtch es m)
  then show ?case by (auto simp: cache_ok_def)
next
  case (3 mtch v es m)
  obtain m' where m': "regex_match mtch (Some m) v = Done (mtch v, Some m')" "cache_ok mtch m'" "mc_cap m' = mc_cap m"
    using regex_match_ok [OF "3.prems"] by blast
  then show ?case using "3.IH" [OF m'(1) refl] by auto
qed simp

text \<open>C40: With the cache in front of it, the regex parser answers every value as the expression does, for
  any sequence of values and limiter ticks; it never blocks, and it holds at most as many
  values as configured.\<close>

theorem regex_cache_transparent:
  assumes "0 < n"
  shows "\<exists>m. run_cache mtch es (newMemoryCache n) = Done (event_results mtch es, m) \<and>
    length (mc_keys m) \<le> unat n \<and> dom (mc_cache m) = set (mc_keys m)"
proof -
  have "cache_ok mtch (newMemoryCache n)"
    using assms by (simp add: cache_ok_def newMemoryCache_def unat_gt_0 word_neq_0_conv)
  from run_cache_ok [OF this, of es] show ?thesis
    by (auto simp: cache_ok_def newMemoryCache_def)
qed

theorem regex_cache_transparent_witness:
  "\<exists>m. run_cache (\<lambda>s. Inr (s @ s)) [MatchValue ''ab'', LimiterTick, MatchValue ''c'', MatchValue ''ab''] (newMemoryCache 1) =
     Done ([Inr ''abab'' :: string + string, Inr ''cc'', Inr ''abab''], m) \<and> length (mc_keys m) \<le> 1"
proof -
  let ?es = "[MatchValue ''ab'', LimiterTick, MatchValue ''c'', MatchValue ''ab'']"
  have ev: "event_results (\<lambda>s. Inr (s @ s)) ?es = [Inr ''abab'' :: string + string, Inr ''cc'', Inr ''abab'']" by simp
  have "(0 :: 16 word) < 1" by simp
  from regex_cache_transparent [OF this, of "\<lambda>s. Inr (s @ s) :: string + string" ?es]
  obtain m where "run_cache (\<lambda>s. Inr (s @ s)) ?es (newMemoryCache 1) =
      Done ([Inr ''abab'' :: string + string, Inr ''cc'', Inr ''abab''], m)" "length (mc_keys m) \<le> 1"
    unfolding ev unat_1 by (elim exE conjE)
  then show ?thesis by (intro exI conjI)
qed

text \<open>
  The tick of the limiter adds a tenth of the maximum, less one, to the counter instead of taking it off: a
  limiter that has stopped the cache stays stopped.
\<close>

lemma limiter_tick_adds:
  assumes "0 < lim_count l"
  shows "lim_count (lim_tick l) = lim_count l + of_int (round_tenth (lim_max l)) - 1"
proof -
  have "NOT (of_int (- i)) = (of_int i - 1 :: u64)" for i by (simp add: not_eq_complement)
  then show ?thesis using assms by (simp add: lim_tick_def)
qed

lemma limiter_stays_throttled:
  assumes "throttled l" and "5 \<le> uint (lim_max l)" and "uint (lim_max l) \<le> 65536" and "uint (lim_count l) < 2 ^ 32"
  shows "throttled (lim_tick l)"
proof -
  let ?r = "round_tenth (lim_max l)"
  have r: "0 \<le> ?r - 1" "?r - 1 \<le> 65536" using assms(2,3) by (auto simp: round_tenth_def)
  have le: "uint (lim_max l) \<le> uint (lim_count l)" using assms(1) by (simp add: throttled_def word_le_def)
  have "0 < lim_count l" using le assms(2) by (simp add: word_less_def)
  then have eq: "lim_count (lim_tick l) = lim_count l + of_int (?r - 1)"
    by (simp add: limiter_tick_adds algebra_simps)
  have "uint (of_int k :: u64) = k" if "0 \<le> k" "k \<le> 65536" for k
    using that by (simp add: uint_word_of_int_eq take_bit_int_eq_self)
  from this [OF r] have "uint (lim_count (lim_tick l)) = uint (lim_count l) + (?r - 1)"
    using r assms(4) unfolding eq uint_word_ariths(1) by simp
  then show ?thesis using le r by (simp add: throttled_def word_le_def lim_tick_def)
qed

end
