(* ===== verification/SystemTables.thy ===== *)
theory SystemTables
  imports LogsConvert
begin

text \<open>
  The receiver of ClickHouse's query log (\<^verbatim>\<open>receiver/clickhousesystemtablesreceiver\<close>): rows become log
  records, grouped by host, and a window of event times moves forward over the table.
\<close>

section \<open>Configuration\<close>

record system_tables_config =
  dsn :: string
  clusterName :: string
  cfgScrapeIntervalSeconds :: u32
  cfgMinScrapeDelaySeconds :: u32

definition systables_validate :: "system_tables_config \<Rightarrow> string list" where
  "systables_validate cfg =
     (if dsn cfg = [] then [''dsn must be specified''] else []) @
     (if cfgMinScrapeDelaySeconds cfg = 0 then 
        [''query_log_scrape_config.scrape_delay_seconds must be set to a value greater than '' @
         ''flush_interval_milliseconds setting for clickhouse query_log table''] else [])"

section \<open>Rows\<close>

text \<open>
  A row is a struct whose tagged fields are read by reflection, in order: \<open>ql_fields\<close> has their tags and
  values, \<^term>\<open>VOther\<close> standing for a time. The fields read by name come before.
\<close>

record query_log =
  ql_hostname :: string
  ql_eventType :: string
  ql_eventTimeMicros :: u64
  ql_query :: string
  ql_fields :: "(string \<times> any) list"

text \<open>RFC 3339 formatting of a time, \<^verbatim>\<open>%v\<close> formatting, and JSON decoding into a map.\<close>

record row_env =
  rowTime :: "nat \<Rightarrow> string option"
  rowSprint :: "any \<Rightarrow> string"
  rowJSON :: "string \<Rightarrow> json_result"

text \<open>A value as \<^verbatim>\<open>AsRaw\<close> gives it back. An unsigned integer keeps its bits.\<close>

function pcommonValue :: "row_env \<Rightarrow> any \<Rightarrow> any" where
  "pcommonValue E v =
     (case v of
        VList vs \<Rightarrow> VList (map (pcommonValue E) vs)
      | VStrList ss \<Rightarrow> VList (map VStr ss)
      | VBytes bs \<Rightarrow> VList (map (\<lambda>c. VInt KInt64 (of_nat (of_char c))) bs)
      | VMap m \<Rightarrow> VMap (map (\<lambda>kv. (fst kv, pcommonValue E (snd kv))) m)
      | VNilMap \<Rightarrow> VMap []
      | VOther t \<Rightarrow> (case rowTime E t of Some s \<Rightarrow> VStr s | None \<Rightarrow> VNil)
      | VInt k i \<Rightarrow> VInt KInt64 i
      | v \<Rightarrow> v)"
  by pat_completeness auto
termination
  by (relation "measure (\<lambda>(E, v). size v)") (auto dest: size_map_entry size_list_entry simp del: any.size)

declare pcommonValue.simps [simp del]

definition attr_prefix :: string where
  "attr_prefix = ''clickhouse.query_log.''"

definition field_value :: "row_env \<Rightarrow> string \<Rightarrow> any \<Rightarrow> any" where
  "field_value E tag v =
     (if tag = ''log_comment''
      then (case v of
              VStr s \<Rightarrow> (case rowJSON E s of JMap m \<Rightarrow> VMap m | JNull \<Rightarrow> VNilMap | JErr \<Rightarrow> v)
            | _ \<Rightarrow> v)
      else v)"

definition put_field :: "row_env \<Rightarrow> string \<times> any \<Rightarrow> vmap \<Rightarrow> vmap" where
  "put_field E = (\<lambda>(tag, v) attrs.
     if tag = [] then attrs
     else (let name = attr_prefix @ tag
           in case pcommonValue E (field_value E tag v) of
                VList vs \<Rightarrow> AList.update name (VStr (join_str '','' (map (rowSprint E) vs))) attrs
              | VMap m \<Rightarrow> fold (\<lambda>(k, w) a. AList.update (name @ ''.'' @ k) w a) m attrs
              | w \<Rightarrow> AList.update name w attrs))"

text \<open>Severity 17 is ERROR, 9 is INFO.\<close>

definition toLogRecord :: "row_env \<Rightarrow> query_log \<Rightarrow> log_record" where
  "toLogRecord E ql =
     (let err = has_prefix ''Exception'' (ql_eventType ql)
      in \<lparr>lr_timestamp = ql_eventTimeMicros ql, lr_observed = 0,
          lr_severityNumber = (if err then 17 else 9),
          lr_severityText = (if err then ''ERROR'' else ''INFO''),
          lr_attributes = AList.update ''source'' (VStr ''clickhouse'') (fold (put_field E) (ql_fields ql) []),
          lr_body = VStr (ql_query ql),
          lr_traceID = replicate 16 0, lr_spanID = replicate 8 0, lr_flags = 0,
          lr_eventName = [], lr_droppedAttributes = 0\<rparr>)"

section \<open>Grouping by host\<close>

text \<open>The map from hosts to the slices of their records, and the payload, which has the same slices.\<close>

type_synonym host_logs = "(string \<times> log_record list) list"

definition add_row :: "row_env \<Rightarrow> query_log \<Rightarrow> host_logs \<Rightarrow> host_logs" where
  "add_row E ql hosts =
     (let hosts' = (if map_of hosts (ql_hostname ql) = None then hosts @ [(ql_hostname ql, [])] else hosts)
      in map (\<lambda>(h, rs). if h = ql_hostname ql then (h, rs @ [toLogRecord E ql]) else (h, rs)) hosts')"

definition queryLogsToPlogs :: "row_env \<Rightarrow> query_log list \<Rightarrow> logs" where
  "queryLogsToPlogs E rows =
     map (\<lambda>(h, rs). (new_resource [(''hostname'', VStr h)])\<lparr>rl_scopes := [(new_scope [])\<lparr>sl_records := rs\<rparr>]\<rparr>)
       (fold (add_row E) rows [])"

section \<open>The receiver\<close>

text \<open>\<open>pushed\<close> has the windows whose rows the next consumer accepted, with the payloads.\<close>

record systables_receiver =
  scrapeIntervalSeconds :: u32
  scrapeDelaySeconds :: u32
  connected :: bool
  nextScrapeIntervalStartTs :: u32
  pushed :: "(u32 \<times> u32 \<times> logs) list"

text \<open>
  What an attempt meets: the result of connecting, the clock of the server, the rows of a window, and
  the error of the next consumer.
\<close>

record attempt =
  at_connect :: "string option"
  at_now :: "string + u32"
  at_rows :: "u32 \<Rightarrow> u32 \<Rightarrow> string + query_log list"
  at_consume :: "logs \<Rightarrow> string option"

definition createLogsReceiver :: "system_tables_config \<Rightarrow> systables_receiver" where
  "createLogsReceiver cfg =
     \<lparr>scrapeIntervalSeconds = (if cfgScrapeIntervalSeconds cfg = 0 then 10 else cfgScrapeIntervalSeconds cfg),
      scrapeDelaySeconds = cfgMinScrapeDelaySeconds cfg, connected = False,
      nextScrapeIntervalStartTs = 0, pushed = []\<rparr>"

definition scrapeAndPushQueryLogs ::
  "row_env \<Rightarrow> attempt \<Rightarrow> u32 \<Rightarrow> u32 \<Rightarrow> systables_receiver \<Rightarrow> (string + nat) \<times> systables_receiver" where
  "scrapeAndPushQueryLogs E a minTs maxTs r =
     (case at_rows a minTs maxTs of
        Inl e \<Rightarrow> (Inl e, r)
      | Inr rows \<Rightarrow>
          (let pl = queryLogsToPlogs E rows
           in case at_consume a pl of
                Some e \<Rightarrow> (Inl e, r)
              | None \<Rightarrow> (Inr (length rows), r\<lparr>pushed := pushed r @ [(minTs, maxTs, pl)]\<rparr>)))"

text \<open>The seconds to wait, the error if any, and the receiver.\<close>

definition scrapeQueryLogIfReady ::
  "row_env \<Rightarrow> attempt \<Rightarrow> systables_receiver \<Rightarrow> (u32 \<times> string option) \<times> systables_receiver" where
  "scrapeQueryLogIfReady E a r =
     (case (if connected r then None else at_connect a) of
        Some e \<Rightarrow> ((scrapeIntervalSeconds r, Some e), r)
      | None \<Rightarrow>
     (let r1 = r\<lparr>connected := True\<rparr> in
      case at_now a of
        Inl e \<Rightarrow> ((scrapeIntervalSeconds r, Some e), r1)
      | Inr now \<Rightarrow>
     (let r2 = (if nextScrapeIntervalStartTs r1 = 0 then r1\<lparr>nextScrapeIntervalStartTs := now\<rparr> else r1);
          start = nextScrapeIntervalStartTs r2;
          endTs = start + scrapeIntervalSeconds r2;
          minServerTs = endTs + scrapeDelaySeconds r2
      in if now < minServerTs then ((minServerTs - now, None), r2)
         else (case scrapeAndPushQueryLogs E a start endTs r2 of
                 (Inl e, r3) \<Rightarrow> ((scrapeIntervalSeconds r2, Some e), r3)
               | (Inr n, r3) \<Rightarrow>
                   (let nextMin = endTs + scrapeIntervalSeconds r2 + scrapeDelaySeconds r2
                    in ((if now < nextMin then nextMin - now else 0, None),
                        r3\<lparr>nextScrapeIntervalStartTs := endTs\<rparr>))))))"

text \<open>The ticker of \<^verbatim>\<open>run\<close> starts after this many seconds; \<^verbatim>\<open>time.NewTicker\<close> panics when it is zero.\<close>

definition first_wait :: "systables_receiver \<Rightarrow> u32 outcome" where
  "first_wait r = (let s = scrapeIntervalSeconds r + scrapeDelaySeconds r in if s = 0 then Panic else Done s)"

text \<open>The loop of \<^verbatim>\<open>run\<close> over the attempts it meets; errors are logged and the ticker is reset.\<close>

fun run_attempts :: "row_env \<Rightarrow> attempt list \<Rightarrow> systables_receiver \<Rightarrow> systables_receiver" where
  "run_attempts E [] r = r"
| "run_attempts E (a # as) r = run_attempts E as (snd (scrapeQueryLogIfReady E a r))"

end
