(* ===== verification/SystemTablesTheorems.thy ===== *)
theory SystemTablesTheorems
  imports SystemTables LogsFlowTheorems
begin

text \<open>
  The properties of the query log receiver: the payload of a window, the windows that reach the
  next consumer, and how the receiver catches up.
\<close>

section \<open>The payload of a window\<close>

definition first_hosts :: "query_log list \<Rightarrow> string list" where
  "first_hosts rows = rev (remdups (rev (map ql_hostname rows)))"

definition rows_of_host :: "row_env \<Rightarrow> query_log list \<Rightarrow> string \<Rightarrow> log_record list" where
  "rows_of_host E rows h = map (toLogRecord E) (filter (\<lambda>q. ql_hostname q = h) rows)"

lemma first_hosts_snoc:
  "first_hosts (rows @ [q]) =
     (if ql_hostname q \<in> set (first_hosts rows) then first_hosts rows else first_hosts rows @ [ql_hostname q])"
  by (simp add: first_hosts_def)

lemma map_of_pairs_None: "map_of (map (\<lambda>h. (h, f h)) hs) x = None \<longleftrightarrow> x \<notin> set hs"
  by (induction hs) auto

lemma add_row_groups:
  "fold (add_row E) rows [] = map (\<lambda>h. (h, rows_of_host E rows h)) (first_hosts rows)"
proof (induction rows rule: rev_induct)
  case Nil
  show ?case by (simp add: first_hosts_def)
next
  case (snoc q rows)
  have none: "rows_of_host E rows h = []" if "h \<notin> set (first_hosts rows)" for h
    using that by (auto simp: first_hosts_def rows_of_host_def filter_empty_conv)
  have "rows_of_host E (rows @ [q]) h = (if h = ql_hostname q then rows_of_host E rows h @ [toLogRecord E q] else rows_of_host E rows h)" for h
    by (simp add: rows_of_host_def)
  then show ?case
    using snoc none
    by (simp add: add_row_def map_of_pairs_None first_hosts_snoc Let_def)
qed

text \<open>The payload of a window has one resource per host, in the order in which hosts first appear,
  with the records of that host's rows in the order of the rows: no row is lost, doubled or moved
  to another host.\<close>

theorem query_logs_grouped_by_host:
  "queryLogsToPlogs E rows =
     map (\<lambda>h. (new_resource [(''hostname'', VStr h)])
               \<lparr>rl_scopes := [(new_scope [])\<lparr>sl_records := map (toLogRecord E) (filter (\<lambda>q. ql_hostname q = h) rows)\<rparr>]\<rparr>)
       (rev (remdups (rev (map ql_hostname rows))))"
  by (simp add: queryLogsToPlogs_def add_row_groups comp_def) (simp add: rows_of_host_def first_hosts_def)

section \<open>The windows\<close>

text \<open>The clock readings of a run, none of them zero nor so late that the end of a window wraps around.\<close>

definition clocks_fit :: "u32 \<Rightarrow> u32 \<Rightarrow> int \<Rightarrow> attempt list \<Rightarrow> bool" where
  "clocks_fit interval delay B as \<longleftrightarrow>
     B + 2 * uint interval + uint delay < 2 ^ 32 \<and>
     (\<forall>a \<in> set as. \<forall>now. at_now a = Inr now \<longrightarrow> 0 < uint now \<and> uint now \<le> B)"

definition window_at :: "int \<Rightarrow> u32 \<times> u32 \<times> logs \<Rightarrow> bool" where
  "window_at t w \<longleftrightarrow> uint (fst w) \<le> t \<and> t < uint (fst (snd w))"

text \<open>The windows pushed so far cover the times from \<open>s\<close> to the next start once each.\<close>

definition windows_ok :: "int \<Rightarrow> int \<Rightarrow> systables_receiver \<Rightarrow> bool" where
  "windows_ok B s r \<longleftrightarrow>
     0 < uint (nextScrapeIntervalStartTs r) \<and> uint (nextScrapeIntervalStartTs r) \<le> B \<and>
     s \<le> uint (nextScrapeIntervalStartTs r) \<and>
     (\<forall>t. length (filter (window_at t) (pushed r)) =
        (if s \<le> t \<and> t < uint (nextScrapeIntervalStartTs r) then 1 else 0))"

definition window_read :: "row_env \<Rightarrow> u32 \<Rightarrow> attempt set \<Rightarrow> u32 \<times> u32 \<times> logs \<Rightarrow> bool" where
  "window_read E delay as = (\<lambda>(lo, hi, pl).
     \<exists>a \<in> as. \<exists>now rows. at_now a = Inr now \<and> uint hi + uint delay \<le> uint now \<and>
       at_rows a lo hi = Inr rows \<and> pl = queryLogsToPlogs E rows \<and> at_consume a pl = None)"

lemma uint_add_fit: "uint a + uint b < 2 ^ 32 \<Longrightarrow> uint (a + b :: u32) = uint a + uint b"
  by (simp add: uint_word_ariths(1))

lemma uint_add3_fit:
  fixes a b c :: u32
  assumes "uint a + uint b + uint c < 2 ^ 32"
  shows "uint (a + b) = uint a + uint b" and "uint (a + b + c) = uint a + uint b + uint c"
proof -
  have "uint a + uint b < 2 ^ 32" using assms uint_ge_0 [of c] by linarith
  then show 1: "uint (a + b) = uint a + uint b" by (rule uint_add_fit)
  show "uint (a + b + c) = uint a + uint b + uint c" using assms uint_add_fit [of "a + b" c] 1 by simp
qed

text \<open>A step of the receiver: nothing, the first reading of the clock, or the next window.\<close>

inductive window_step :: "row_env \<Rightarrow> attempt \<Rightarrow> systables_receiver \<Rightarrow> systables_receiver \<Rightarrow> bool" for E a where
  idle: "pushed r' = pushed r \<Longrightarrow> nextScrapeIntervalStartTs r' = nextScrapeIntervalStartTs r \<Longrightarrow> window_step E a r r'"
| first: "at_now a = Inr now \<Longrightarrow> nextScrapeIntervalStartTs r = 0 \<Longrightarrow> pushed r' = pushed r \<Longrightarrow>
    nextScrapeIntervalStartTs r' = now \<Longrightarrow> window_step E a r r'"
| push: "at_now a = Inr now \<Longrightarrow> nextScrapeIntervalStartTs r \<noteq> 0 \<Longrightarrow>
    uint (nextScrapeIntervalStartTs r') = uint (nextScrapeIntervalStartTs r) + uint (scrapeIntervalSeconds r) \<Longrightarrow>
    uint (nextScrapeIntervalStartTs r') + uint (scrapeDelaySeconds r) \<le> uint now \<Longrightarrow>
    at_rows a (nextScrapeIntervalStartTs r) (nextScrapeIntervalStartTs r') = Inr rows \<Longrightarrow>
    at_consume a (queryLogsToPlogs E rows) = None \<Longrightarrow>
    pushed r' = pushed r @ [(nextScrapeIntervalStartTs r, nextScrapeIntervalStartTs r', queryLogsToPlogs E rows)] \<Longrightarrow>
    window_step E a r r'"

lemma scrape_settings:
  "scrapeIntervalSeconds (snd (scrapeQueryLogIfReady E a r)) = scrapeIntervalSeconds r"
  "scrapeDelaySeconds (snd (scrapeQueryLogIfReady E a r)) = scrapeDelaySeconds r"
  by (auto simp: scrapeQueryLogIfReady_def scrapeAndPushQueryLogs_def Let_def split: option.splits sum.splits)

lemma scrape_begin:
  assumes "at_now a = Inr now" and "nextScrapeIntervalStartTs r = 0" and "0 < scrapeIntervalSeconds r"
    and "uint now + uint (scrapeIntervalSeconds r) + uint (scrapeDelaySeconds r) < 2 ^ 32"
    and "connected r \<or> at_connect a = None"
  shows "scrapeQueryLogIfReady E a r =
    ((scrapeIntervalSeconds r + scrapeDelaySeconds r, None), r\<lparr>connected := True, nextScrapeIntervalStartTs := now\<rparr>)"
proof -
  let ?m = "now + scrapeIntervalSeconds r + scrapeDelaySeconds r"
  have "0 < uint (scrapeIntervalSeconds r)" using assms(3) by (simp add: word_less_def)
  moreover have "uint ?m = uint now + uint (scrapeIntervalSeconds r) + uint (scrapeDelaySeconds r)"
    using assms(4) by (rule uint_add3_fit(2))
  ultimately have "uint now < uint ?m" using uint_ge_0 [of "scrapeDelaySeconds r"] by linarith
  then have "now < ?m" by (simp add: word_less_def)
  moreover have "(if connected r then None else at_connect a) = None" using assms(5) by auto
  ultimately show ?thesis using assms(1,2) by (simp add: scrapeQueryLogIfReady_def Let_def)
qed

lemma scrape_step:
  assumes "clocks_fit (scrapeIntervalSeconds r) (scrapeDelaySeconds r) B as" and "a \<in> set as"
    and "0 < scrapeIntervalSeconds r" and "nextScrapeIntervalStartTs r = 0 \<or> uint (nextScrapeIntervalStartTs r) \<le> B"
  shows "window_step E a r (snd (scrapeQueryLogIfReady E a r))"
proof (cases "if connected r then None else at_connect a")
  case (Some e)
  then show ?thesis by (simp add: scrapeQueryLogIfReady_def window_step.idle)
next
  case conn: None
  show ?thesis
  proof (cases "at_now a")
    case (Inl e)
    then show ?thesis using conn by (simp add: scrapeQueryLogIfReady_def window_step.idle)
  next
    case now: (Inr now)
    have B: "uint now \<le> B" "B + 2 * uint (scrapeIntervalSeconds r) + uint (scrapeDelaySeconds r) < 2 ^ 32"
      using assms(1,2) now by (auto simp: clocks_fit_def)
    show ?thesis
    proof (cases "nextScrapeIntervalStartTs r = 0")
      case True
      have "scrapeQueryLogIfReady E a r =
          ((scrapeIntervalSeconds r + scrapeDelaySeconds r, None), r\<lparr>connected := True, nextScrapeIntervalStartTs := now\<rparr>)"
      proof (rule scrape_begin [OF now True assms(3)])
        show "uint now + uint (scrapeIntervalSeconds r) + uint (scrapeDelaySeconds r) < 2 ^ 32"
          using B uint_ge_0 [of "scrapeIntervalSeconds r"] by linarith
        show "connected r \<or> at_connect a = None" using conn by (auto split: if_splits)
      qed
      then show ?thesis using now True by (simp add: window_step.first)
    next
      case False
      let ?s = "nextScrapeIntervalStartTs r"
      let ?e = "?s + scrapeIntervalSeconds r"
      have "uint ?s \<le> B" using assms(4) False by simp
      then have fits: "uint ?s + uint (scrapeIntervalSeconds r) + uint (scrapeDelaySeconds r) < 2 ^ 32"
        using B(2) uint_ge_0 [of "scrapeIntervalSeconds r"] by linarith
      have fit: "uint ?e = uint ?s + uint (scrapeIntervalSeconds r)"
          "uint (?e + scrapeDelaySeconds r) = uint ?e + uint (scrapeDelaySeconds r)"
        using uint_add3_fit [of ?s "scrapeIntervalSeconds r" "scrapeDelaySeconds r"] fits by simp_all
      show ?thesis
      proof (cases "now < ?e + scrapeDelaySeconds r")
        case True
        then show ?thesis using conn now False by (simp add: scrapeQueryLogIfReady_def Let_def window_step.idle)
      next
        case ready: False
        then have late: "uint ?e + uint (scrapeDelaySeconds r) \<le> uint now" using fit by (simp add: word_less_def)
        show ?thesis
        proof (cases "\<exists>rows. at_rows a ?s ?e = Inr rows \<and> at_consume a (queryLogsToPlogs E rows) = None")
          case True
          then obtain rows where rows: "at_rows a ?s ?e = Inr rows" "at_consume a (queryLogsToPlogs E rows) = None" by blast
          have "snd (scrapeQueryLogIfReady E a r) =
              r\<lparr>connected := True, pushed := pushed r @ [(?s, ?e, queryLogsToPlogs E rows)], nextScrapeIntervalStartTs := ?e\<rparr>"
            using conn now False ready rows by (simp add: scrapeQueryLogIfReady_def scrapeAndPushQueryLogs_def Let_def)
          then show ?thesis using now False fit(1) late rows by (intro window_step.push) simp_all
        next
          case fails: False
          then have "snd (scrapeQueryLogIfReady E a r) = r\<lparr>connected := True\<rparr>"
            using conn now False ready
            by (cases "at_rows a ?s ?e")
              (auto simp: scrapeQueryLogIfReady_def scrapeAndPushQueryLogs_def Let_def split: option.splits)
          then show ?thesis by (simp add: window_step.idle)
        qed
      qed
    qed
  qed
qed

text \<open>
  The first reading of the server's clock in a run of attempts: that of the first attempt which has a connection,
  its own or an earlier one's, and is answered.
\<close>

fun first_reading :: "bool \<Rightarrow> attempt list \<Rightarrow> u32 option" where
  "first_reading conn [] = None"
| "first_reading conn (a # as) =
     (if conn \<or> at_connect a = None then (case at_now a of Inr now \<Rightarrow> Some now | Inl e \<Rightarrow> first_reading True as)
      else first_reading False as)"

text \<open>The invariant of a run: nothing has been read, or the windows pushed cover the times from the first reading on.\<close>

definition run_inv :: "row_env \<Rightarrow> u32 \<Rightarrow> attempt set \<Rightarrow> int \<Rightarrow> u32 option \<Rightarrow> systables_receiver \<Rightarrow> bool" where
  "run_inv E delay as B s r \<longleftrightarrow>
     (case s of None \<Rightarrow> nextScrapeIntervalStartTs r = 0 \<and> pushed r = [] | Some s \<Rightarrow> windows_ok B (uint s) r) \<and>
     (\<forall>w \<in> set (pushed r). window_read E delay as w)"

lemma run_inv_next:
  assumes "run_inv E delay as B s r"
  shows "nextScrapeIntervalStartTs r = 0 \<longleftrightarrow> s = None" and "nextScrapeIntervalStartTs r = 0 \<or> uint (nextScrapeIntervalStartTs r) \<le> B"
  using assms by (auto simp: run_inv_def windows_ok_def split: option.splits)

text \<open>When an attempt reads the clock: exactly then the first window begins.\<close>

lemma scrape_reads:
  fixes E :: row_env
  assumes "nextScrapeIntervalStartTs r = 0" and "clocks_fit (scrapeIntervalSeconds r) (scrapeDelaySeconds r) B as" and "a \<in> set as"
    and "0 < scrapeIntervalSeconds r"
  defines "r' \<equiv> snd (scrapeQueryLogIfReady E a r)"
  shows "case first_reading (connected r) [a] of
      Some now \<Rightarrow> at_now a = Inr now \<and> nextScrapeIntervalStartTs r' = now \<and> pushed r' = pushed r
    | None \<Rightarrow> nextScrapeIntervalStartTs r' = 0 \<and> pushed r' = pushed r \<and> connected r' = (connected r \<or> at_connect a = None)"
proof (cases "connected r \<or> at_connect a = None")
  case conn: True
  show ?thesis
  proof (cases "at_now a")
    case (Inl e)
    then show ?thesis using conn assms(1) by (auto simp: r'_def scrapeQueryLogIfReady_def split: option.splits)
  next
    case (Inr now)
    have "uint now \<le> B" "B + 2 * uint (scrapeIntervalSeconds r) + uint (scrapeDelaySeconds r) < 2 ^ 32"
      using assms(2,3) Inr by (auto simp: clocks_fit_def)
    then have "uint now + uint (scrapeIntervalSeconds r) + uint (scrapeDelaySeconds r) < 2 ^ 32"
      using uint_ge_0 [of "scrapeIntervalSeconds r"] by linarith
    from scrape_begin [OF Inr assms(1,4) this conn] show ?thesis using conn Inr by (simp add: r'_def)
  qed
next
  case False
  then show ?thesis using assms(1) by (auto simp: r'_def scrapeQueryLogIfReady_def split: option.splits)
qed

lemma window_step_inv:
  assumes step: "window_step E a r r'" and inv: "run_inv E (scrapeDelaySeconds r) as B (Some s) r" and a: "a \<in> as"
    and B: "\<And>now. at_now a = Inr now \<Longrightarrow> 0 < uint now \<and> uint now \<le> B"
  shows "run_inv E (scrapeDelaySeconds r) as B (Some s) r'"
  using step
proof cases
  case idle
  then show ?thesis using inv by (simp add: run_inv_def windows_ok_def)
next
  case (first now)
  then show ?thesis using run_inv_next(1) [OF inv] by simp
next
  case (push now rows)
  let ?s = "nextScrapeIntervalStartTs r" and ?e = "nextScrapeIntervalStartTs r'"
  have s: "windows_ok B (uint s) r" using inv by (simp add: run_inv_def)
  have le: "uint ?e \<le> B" using push(4) B [OF push(1)] uint_ge_0 [of "scrapeDelaySeconds r"] by linarith
  have ge: "uint ?s \<le> uint ?e" using push(3) by simp
  have "length (filter (window_at t) (pushed r')) = (if uint s \<le> t \<and> t < uint ?e then 1 else 0)" for t
    using s push(7) ge by (auto simp: windows_ok_def window_at_def)
  then have "windows_ok B (uint s) r'" using s le ge by (auto simp: windows_ok_def)
  moreover have "window_read E (scrapeDelaySeconds r) as (?s, ?e, queryLogsToPlogs E rows)"
    using push a by (auto simp: window_read_def)
  ultimately show ?thesis using inv push(7) by (auto simp: run_inv_def)
qed

lemma run_attempts_inv:
  "clocks_fit (scrapeIntervalSeconds r) (scrapeDelaySeconds r) B as \<Longrightarrow> set as' \<subseteq> set as \<Longrightarrow>
   0 < scrapeIntervalSeconds r \<Longrightarrow> run_inv E (scrapeDelaySeconds r) (set as) B s r \<Longrightarrow>
   run_inv E (scrapeDelaySeconds r) (set as) B (case s of None \<Rightarrow> first_reading (connected r) as' | _ \<Rightarrow> s) (run_attempts E as' r)"
proof (induction as' arbitrary: r s)
  case Nil
  then show ?case by (cases s) simp_all
next
  case (Cons a as')
  let ?r = "snd (scrapeQueryLogIfReady E a r)"
  have a: "a \<in> set as" using Cons.prems(2) by simp
  have fit: "0 < uint now \<and> uint now \<le> B" if "at_now a = Inr now" for now using Cons.prems(1) a that by (auto simp: clocks_fit_def)
  note IH = Cons.IH [of ?r, unfolded scrape_settings, OF Cons.prems(1) _ Cons.prems(3)]
  show ?case
  proof (cases s)
    case None
    then have fresh: "nextScrapeIntervalStartTs r = 0" "pushed r = []" using Cons.prems(4) by (auto simp: run_inv_def)
    note reads = scrape_reads [OF fresh(1) Cons.prems(1) a Cons.prems(3), of E]
    show ?thesis
    proof (cases "first_reading (connected r) [a]")
      case none: None
      then have "run_inv E (scrapeDelaySeconds r) (set as) B None ?r" "connected ?r = (connected r \<or> at_connect a = None)"
        using reads fresh by (simp_all add: run_inv_def)
      moreover have "first_reading (connected r) (a # as') = first_reading (connected r \<or> at_connect a = None) as'"
        using none by (auto split: if_splits sum.splits)
      ultimately show ?thesis using IH [of None] Cons.prems(2) None by simp
    next
      case (Some now)
      then have "run_inv E (scrapeDelaySeconds r) (set as) B (Some now) ?r"
        using reads fresh fit by (simp add: run_inv_def windows_ok_def)
      moreover have "first_reading (connected r) (a # as') = Some now"
        using Some by (auto split: if_splits sum.splits)
      ultimately show ?thesis using IH [of "Some now"] Cons.prems(2) None by simp
    qed
  next
    case (Some now)
    have "window_step E a r ?r" by (rule scrape_step [OF Cons.prems(1) a Cons.prems(3) run_inv_next(2) [OF Cons.prems(4)]])
    from window_step_inv [OF this Cons.prems(4) [unfolded Some] a fit] show ?thesis
      using IH [of s] Cons.prems(2) Some by simp
  qed
qed

text \<open>An attempt that is due and meets no failure pushes the next window.\<close>

definition due :: "attempt \<Rightarrow> u32 \<Rightarrow> u32 \<Rightarrow> u32 \<Rightarrow> bool" where
  "due a next interval delay \<longleftrightarrow>
     at_connect a = None \<and>
     (\<exists>now. at_now a = Inr now \<and> uint next + uint interval + uint delay \<le> uint now) \<and>
     (\<exists>rows. at_rows a next (next + interval) = Inr rows) \<and> (\<forall>pl. at_consume a pl = None)"

lemma due_push:
  assumes "due a (nextScrapeIntervalStartTs r) (scrapeIntervalSeconds r) (scrapeDelaySeconds r)" and "nextScrapeIntervalStartTs r \<noteq> 0"
    and "uint (nextScrapeIntervalStartTs r) + uint (scrapeIntervalSeconds r) + uint (scrapeDelaySeconds r) < 2 ^ 32"
  shows "uint (nextScrapeIntervalStartTs (snd (scrapeQueryLogIfReady E a r))) =
    uint (nextScrapeIntervalStartTs r) + uint (scrapeIntervalSeconds r)"
proof -
  let ?s = "nextScrapeIntervalStartTs r"
  let ?e = "?s + scrapeIntervalSeconds r"
  note fits = uint_add3_fit [OF assms(3)]
  obtain now where now: "at_now a = Inr now" "uint ?s + uint (scrapeIntervalSeconds r) + uint (scrapeDelaySeconds r) \<le> uint now"
    using assms(1) by (auto simp: due_def)
  then have "\<not> now < ?e + scrapeDelaySeconds r" using fits by (simp add: word_less_def)
  moreover obtain rows where "at_rows a ?s ?e = Inr rows" using assms(1) by (auto simp: due_def)
  ultimately show ?thesis
    using assms(1,2) now(1) fits(1)
    by (auto simp: due_def scrapeQueryLogIfReady_def scrapeAndPushQueryLogs_def Let_def split: if_splits option.splits)
qed

lemma run_attempts_snoc: "run_attempts E (as @ [a]) r = snd (scrapeQueryLogIfReady E a (run_attempts E as r))"
  by (induction as arbitrary: r) simp_all

lemma run_settings:
  "scrapeIntervalSeconds (run_attempts E as r) = scrapeIntervalSeconds r" "scrapeDelaySeconds (run_attempts E as r) = scrapeDelaySeconds r"
  by (induction as arbitrary: r) (simp_all add: scrape_settings)

text \<open>C7: Whatever fails in between, every event time from the first reading of the server's clock up to the
  start of the next window is in exactly one of the windows that reached the consumer, and no
  other time is; a window was only read once the server's clock had passed its end by the
  configured delay; and the next attempt that comes that late and meets no failure moves the start of the next window on by
  one interval. Before the first reading nothing is pushed.\<close>

theorem query_log_windows_exactly_once:
  assumes "r0 = createLogsReceiver cfg"
    and "clocks_fit (scrapeIntervalSeconds r0) (scrapeDelaySeconds r0) B as"
    and "r = run_attempts E as r0"
  shows "case first_reading False as of
      None \<Rightarrow> pushed r = []
    | Some start \<Rightarrow>
        (\<forall>t. length (filter (window_at t) (pushed r)) = (if uint start \<le> t \<and> t < uint (nextScrapeIntervalStartTs r) then 1 else 0)) \<and>
        (\<forall>w \<in> set (pushed r). window_read E (cfgMinScrapeDelaySeconds cfg) (set as) w) \<and>
        (\<forall>a. due a (nextScrapeIntervalStartTs r) (scrapeIntervalSeconds r0) (scrapeDelaySeconds r0) \<longrightarrow>
           uint (nextScrapeIntervalStartTs (run_attempts E (as @ [a]) r0)) = uint (nextScrapeIntervalStartTs r) + uint (scrapeIntervalSeconds r0))"
proof -
  have pos: "0 < scrapeIntervalSeconds r0"
    using assms(1) by (simp add: createLogsReceiver_def word_neq_0_conv)
  have "run_inv E (scrapeDelaySeconds r0) (set as) B None r0"
    by (simp add: run_inv_def assms(1) createLogsReceiver_def)
  from run_attempts_inv [OF assms(2) subset_refl pos this]
  have run: "run_inv E (scrapeDelaySeconds r0) (set as) B (first_reading False as) r"
    by (simp add: assms(1,3)) (simp add: createLogsReceiver_def)
  have settings: "scrapeDelaySeconds r0 = cfgMinScrapeDelaySeconds cfg" by (simp add: assms(1) createLogsReceiver_def)
  show ?thesis
  proof (cases "first_reading False as")
    case None
    then show ?thesis using run by (simp add: run_inv_def)
  next
    case (Some start)
    have "uint (nextScrapeIntervalStartTs (run_attempts E (as @ [a]) r0)) = uint (nextScrapeIntervalStartTs r) + uint (scrapeIntervalSeconds r0)"
      if "due a (nextScrapeIntervalStartTs r) (scrapeIntervalSeconds r0) (scrapeDelaySeconds r0)" for a
    proof -
      have "uint (nextScrapeIntervalStartTs r) \<le> B" "nextScrapeIntervalStartTs r \<noteq> 0" using run_inv_next [OF run] Some by auto
      moreover have "B + 2 * uint (scrapeIntervalSeconds r0) + uint (scrapeDelaySeconds r0) < 2 ^ 32"
        using assms(2) by (simp add: clocks_fit_def)
      ultimately show ?thesis
        using due_push [of a r E] that uint_ge_0 [of "scrapeIntervalSeconds r0"]
        by (simp add: run_attempts_snoc run_settings assms(3))
    qed
    then show ?thesis using run Some settings by (simp add: run_inv_def windows_ok_def)
  qed
qed

definition sample_row_env :: row_env where
  "sample_row_env = \<lparr>rowTime = (\<lambda>n. None), rowSprint = (\<lambda>v. []), rowJSON = (\<lambda>s. JErr)\<rparr>"

definition quiet_attempt :: "u32 \<Rightarrow> attempt" where
  "quiet_attempt now = \<lparr>at_connect = None, at_now = Inr now, at_rows = (\<lambda>lo hi. Inr []), at_consume = (\<lambda>pl. None)\<rparr>"

definition failing_attempt :: "u32 \<Rightarrow> attempt" where
  "failing_attempt now = (quiet_attempt now)\<lparr>at_consume := (\<lambda>pl. Some ''refused'')\<rparr>"

definition sample_systables_config :: system_tables_config where
  "sample_systables_config = \<lparr>dsn = ''d'', clusterName = [], cfgScrapeIntervalSeconds = 0, cfgMinScrapeDelaySeconds = 5\<rparr>"

theorem query_log_windows_exactly_once_witness:
  "\<forall>t. length (filter (window_at t)
      (pushed (run_attempts sample_row_env [quiet_attempt 100, failing_attempt 120, quiet_attempt 130] (createLogsReceiver sample_systables_config)))) =
      (if 100 \<le> t \<and> t < 110 then 1 else 0)"
proof -
  let ?as = "[quiet_attempt 100, failing_attempt 120, quiet_attempt 130]"
  let ?init = "createLogsReceiver sample_systables_config"
  let ?r = "run_attempts sample_row_env ?as ?init"
  have fit: "clocks_fit (scrapeIntervalSeconds ?init) (scrapeDelaySeconds ?init) 130 ?as"
    by (simp add: clocks_fit_def createLogsReceiver_def sample_systables_config_def quiet_attempt_def failing_attempt_def)
  have next110: "nextScrapeIntervalStartTs ?r = 110"
    by (simp add: createLogsReceiver_def sample_systables_config_def quiet_attempt_def failing_attempt_def
      scrapeQueryLogIfReady_def scrapeAndPushQueryLogs_def queryLogsToPlogs_def)
  have "first_reading False ?as = Some 100" by (simp add: quiet_attempt_def)
  with query_log_windows_exactly_once [OF refl fit refl, of sample_row_env] next110 show ?thesis
    by (simp del: run_attempts.simps)
qed

section \<open>Catching up\<close>

text \<open>An attempt at which everything works.\<close>

definition good_attempt :: "u32 \<Rightarrow> attempt \<Rightarrow> bool" where
  "good_attempt now a \<longleftrightarrow>
     at_connect a = None \<and> at_now a = Inr now \<and> (\<forall>lo hi. \<exists>rows. at_rows a lo hi = Inr rows) \<and> (\<forall>pl. at_consume a pl = None)"

lemma good_push:
  assumes "good_attempt now a" and "nextScrapeIntervalStartTs r \<noteq> 0"
    and "uint (nextScrapeIntervalStartTs r) + 2 * uint (scrapeIntervalSeconds r) + uint (scrapeDelaySeconds r) < 2 ^ 32"
    and "uint (nextScrapeIntervalStartTs r) + uint (scrapeIntervalSeconds r) + uint (scrapeDelaySeconds r) \<le> uint now"
  shows "\<exists>r'. snd (scrapeQueryLogIfReady E a r) = r' \<and>
    uint (nextScrapeIntervalStartTs r') = uint (nextScrapeIntervalStartTs r) + uint (scrapeIntervalSeconds r) \<and>
    length (pushed r') = Suc (length (pushed r))"
proof -
  let ?s = "nextScrapeIntervalStartTs r"
  let ?e = "?s + scrapeIntervalSeconds r"
  have "uint ?s + uint (scrapeIntervalSeconds r) + uint (scrapeDelaySeconds r) < 2 ^ 32"
    using assms(3) uint_ge_0 [of "scrapeIntervalSeconds r"] by linarith
  note fits = uint_add3_fit [OF this]
  then have fit: "uint ?e = uint ?s + uint (scrapeIntervalSeconds r)"
      "uint (?e + scrapeDelaySeconds r) = uint ?e + uint (scrapeDelaySeconds r)"
    by simp_all
  then have "\<not> now < ?e + scrapeDelaySeconds r" using assms(4) by (simp add: word_less_def)
  moreover obtain rows where "at_rows a ?s ?e = Inr rows" using assms(1) unfolding good_attempt_def by blast
  ultimately show ?thesis
    using assms(1,2) fit(1)
    by (auto simp: good_attempt_def scrapeQueryLogIfReady_def scrapeAndPushQueryLogs_def Let_def split: if_splits)
qed

text \<open>A receiver that is behind catches up: when nothing fails, as many attempts as whole intervals have
  passed since the end of its delay push as many windows, and then the next window ends less
  than the delay before the server's clock.\<close>

theorem query_log_receiver_catches_up:
  assumes "\<forall>a \<in> set as. good_attempt now a" and "nextScrapeIntervalStartTs r \<noteq> 0" and "0 < scrapeIntervalSeconds r"
    and "uint now + 2 * uint (scrapeIntervalSeconds r) + uint (scrapeDelaySeconds r) < 2 ^ 32"
    and "uint (nextScrapeIntervalStartTs r) + uint (scrapeDelaySeconds r) \<le> uint now"
    and "length as = nat ((uint now - uint (scrapeDelaySeconds r) - uint (nextScrapeIntervalStartTs r)) div uint (scrapeIntervalSeconds r))"
  shows "let r' = run_attempts E as r in
    length (pushed r') = length (pushed r) + length as \<and>
    uint (nextScrapeIntervalStartTs r') + uint (scrapeDelaySeconds r) \<le> uint now \<and>
    uint now < uint (nextScrapeIntervalStartTs r') + uint (scrapeIntervalSeconds r) + uint (scrapeDelaySeconds r)"
  using assms
proof (induction as arbitrary: r)
  case Nil
  have "0 < uint (scrapeIntervalSeconds r)" using Nil.prems(3) by (simp add: word_less_def)
  moreover have "\<not> 0 < (uint now - uint (scrapeDelaySeconds r) - uint (nextScrapeIntervalStartTs r)) div uint (scrapeIntervalSeconds r)"
    using Nil.prems(6) by simp
  ultimately have "uint now - uint (scrapeDelaySeconds r) - uint (nextScrapeIntervalStartTs r) < uint (scrapeIntervalSeconds r)"
    by (simp add: pos_imp_zdiv_pos_iff)
  then show ?case using Nil.prems(5) by simp
next
  case (Cons a as)
  let ?i = "uint (scrapeIntervalSeconds r)" and ?d = "uint (scrapeDelaySeconds r)"
  let ?s = "uint (nextScrapeIntervalStartTs r)"
  let ?r = "snd (scrapeQueryLogIfReady E a r)"
  have i: "0 < ?i" using Cons.prems(3) by (simp add: word_less_def)
  have q: "int (Suc (length as)) = (uint now - ?d - ?s) div ?i" using Cons.prems(6) by simp
  then have "0 < (uint now - ?d - ?s) div ?i" by linarith
  then have "?i \<le> uint now - ?d - ?s" using i by (simp add: pos_imp_zdiv_pos_iff)
  then have late: "?s + ?i + ?d \<le> uint now" by simp
  moreover have "?s + 2 * ?i + ?d < 2 ^ 32" using late Cons.prems(4) i uint_ge_0 [of "scrapeDelaySeconds r"] by linarith
  ultimately have next1: "uint (nextScrapeIntervalStartTs ?r) = ?s + ?i" "length (pushed ?r) = Suc (length (pushed r))"
    using good_push [of now a r E] Cons.prems(1,2) by auto
  have "(uint now - ?d - (?s + ?i)) div ?i = (uint now - ?d - ?s) div ?i - 1"
    using div_add_self2 [of ?i "uint now - ?d - ?s - ?i"] i by (simp add: algebra_simps)
  then have len: "length as = nat ((uint now - ?d - (?s + ?i)) div ?i)" using q by simp
  have nz: "nextScrapeIntervalStartTs ?r \<noteq> 0"
  proof
    assume "nextScrapeIntervalStartTs ?r = 0"
    then show False using next1(1) i uint_ge_0 [of "nextScrapeIntervalStartTs r"] by simp
  qed
  show ?case
    using Cons.IH [of ?r] Cons.prems(1,3,4) nz len late next1 by (simp add: scrape_settings Let_def)
qed

theorem query_log_receiver_catches_up_witness:
  "let r' = run_attempts sample_row_env (replicate 3 (quiet_attempt 140))
      \<lparr>scrapeIntervalSeconds = 10, scrapeDelaySeconds = 5, connected = True, nextScrapeIntervalStartTs = 100, pushed = []\<rparr> in
    length (pushed r') = 3 \<and> uint (nextScrapeIntervalStartTs r') + 5 \<le> 140 \<and>
    140 < uint (nextScrapeIntervalStartTs r') + 15"
proof -
  let ?r = "\<lparr>scrapeIntervalSeconds = 10, scrapeDelaySeconds = 5, connected = True, nextScrapeIntervalStartTs = 100, pushed = []\<rparr>
      :: systables_receiver"
  have "\<forall>a \<in> set (replicate 3 (quiet_attempt 140)). good_attempt 140 a"
    by (simp add: good_attempt_def quiet_attempt_def)
  from query_log_receiver_catches_up [OF this, of ?r sample_row_env] show ?thesis
    by (simp add: Let_def del: run_attempts.simps)
qed

end
