(* ===== verification/Otlp.thy ===== *)
theory Otlp
  imports StanzaEntry
begin

text \<open>
  The telemetry data that the meter and the exporters read through \<^verbatim>\<open>ptrace\<close> and \<^verbatim>\<open>pmetric\<close>: spans
  with links and events, and the five kinds of metrics with their data points. An attribute value is
  given by what \<^verbatim>\<open>AsRaw\<close> makes of it, a float by its bits.
\<close>

type_synonym f64 = u64
type_synonym i32 = "32 word"

section \<open>Spans\<close>

record span_link =
  link_traceID :: "u8 list"
  link_spanID :: "u8 list"

record span_event =
  ev_name :: string
  ev_timestamp :: u64
  ev_attrs :: vmap

record otlp_span =
  os_traceID :: "u8 list"
  os_spanID :: "u8 list"
  os_parentSpanID :: "u8 list"
  os_traceState :: string
  os_flags :: u32
  os_name :: string
  os_kind :: i32
  os_start :: u64
  os_end :: u64
  os_statusCode :: i32
  os_statusMessage :: string
  os_attrs :: vmap
  os_links :: "span_link list"
  os_events :: "span_event list"

record otlp_scope_spans =
  oss_name :: string
  oss_version :: string
  oss_attrs :: vmap
  oss_spans :: "otlp_span list"

record otlp_resource_spans =
  ors_resource :: vmap
  ors_scopes :: "otlp_scope_spans list"

type_synonym otlp_traces = "otlp_resource_spans list"

section \<open>Metrics\<close>

datatype temporality = TemporalityUnspecified | TemporalityDelta | TemporalityCumulative

datatype number_value = NumberEmpty | NumberInt i64 | NumberDouble f64

record number_point =
  np_attrs :: vmap
  np_time :: u64
  np_flags :: u32
  np_value :: number_value

text \<open>An optional float that is not set reads as zero.\<close>

record histogram_point =
  hp_attrs :: vmap
  hp_time :: u64
  hp_flags :: u32
  hp_count :: u64
  hp_sum :: "f64 option"
  hp_min :: "f64 option"
  hp_max :: "f64 option"
  hp_buckets :: "u64 list"
  hp_bounds :: "f64 list"

record exp_histogram_point =
  ep_attrs :: vmap
  ep_time :: u64
  ep_flags :: u32
  ep_count :: u64
  ep_sum :: "f64 option"
  ep_min :: "f64 option"
  ep_max :: "f64 option"
  ep_scale :: i32
  ep_zeroCount :: u64
  ep_positiveOffset :: i32
  ep_positive :: "u64 list"
  ep_negativeOffset :: i32
  ep_negative :: "u64 list"

record summary_point =
  sp_attrs :: vmap
  sp_time :: u64
  sp_flags :: u32
  sp_count :: u64
  sp_sum :: f64
  sp_quantiles :: "(f64 \<times> f64) list"

datatype metric_body =
    MetricEmpty
  | MetricGauge "number_point list"
  | MetricSum temporality bool "number_point list"
  | MetricHistogram temporality "histogram_point list"
  | MetricExponentialHistogram temporality "exp_histogram_point list"
  | MetricSummary "summary_point list"

record metric =
  m_name :: string
  m_description :: string
  m_unit :: string
  m_body :: metric_body

record scope_metrics =
  sm_scopeName :: string
  sm_scopeVersion :: string
  sm_scopeAttrs :: vmap
  sm_schemaUrl :: string
  sm_metrics :: "metric list"

record resource_metrics =
  rm_resource :: vmap
  rm_scopes :: "scope_metrics list"

type_synonym metrics = "resource_metrics list"

section \<open>Identifiers\<close>

definition is_zero_id :: "u8 list \<Rightarrow> bool" where
  "is_zero_id bs \<longleftrightarrow> list_all (\<lambda>b. b = 0) bs"

text \<open>\<^verbatim>\<open>hex.EncodeToString\<close>.\<close>

definition hex_char :: "nat \<Rightarrow> char" where
  "hex_char d = char_of (if d < 10 then 48 + d else 87 + d)"

definition hex_encode :: "u8 list \<Rightarrow> string" where
  "hex_encode bs = concat (map (\<lambda>b. [hex_char (unat b div 16), hex_char (unat b mod 16)]) bs)"

definition TraceIDToHexOrEmptyString :: "u8 list \<Rightarrow> string" where
  "TraceIDToHexOrEmptyString traceID = (if is_zero_id traceID then [] else hex_encode traceID)"

definition SpanIDToHexOrEmptyString :: "u8 list \<Rightarrow> string" where
  "SpanIDToHexOrEmptyString spanID = (if is_zero_id spanID then [] else hex_encode spanID)"

end
