(* ===== verification/Flatten.thy ===== *)
theory Flatten
  imports Otlp LogsConvert
begin

text \<open>
  Flattening of nested values into one map with dotted keys (\<^verbatim>\<open>utils/flatten/flatten.go\<close>), and what it
  does to maps whose keys have no dots: every scalar is found under its path, and nothing else is.
\<close>

section \<open>The code\<close>

text \<open>
  \<^verbatim>\<open>%v\<close> formatting, and the conversion of an integer to a float, given by its bits.
\<close>

record flatten_env =
  sprintv :: "any \<Rightarrow> string"
  floatOfInt :: "i64 \<Rightarrow> f64"

definition full_key :: "string \<Rightarrow> string \<Rightarrow> string" where
  "full_key prefix k = (if prefix \<noteq> [] then prefix @ ''.'' @ k else k)"

definition copy_into :: "vmap \<Rightarrow> vmap \<Rightarrow> vmap" where
  "copy_into sub result = fold (\<lambda>(k, v). AList.update k v) sub result"

text \<open>
  The body of the loop of \<^verbatim>\<open>FlattenJSON\<close> on one entry: \<open>flatten_value E key v result\<close> puts what
  the entry gives into the result. The call on the map with the single entry of an index is this body
  on that entry.
\<close>

lemma size_zip_entry: "(i, w) \<in> set (zip is vs) \<Longrightarrow> size w < size (VList vs)"
  by (rule size_list_entry) (rule set_zip_rightD)

function flatten_value :: "'e flatten_env_scheme \<Rightarrow> string \<Rightarrow> any \<Rightarrow> vmap \<Rightarrow> vmap" where
  "flatten_value E key v result =
     (case v of
        VMap m \<Rightarrow> copy_into (fold (\<lambda>kw. flatten_value E (full_key key (fst kw)) (snd kw)) m []) result
      | VNilMap \<Rightarrow> result
      | VList vs \<Rightarrow>
          fold (\<lambda>iw r. copy_into (flatten_value E (full_key key (nat_digits (fst iw))) (snd iw) []) r)
            (zip [0..<length vs] vs) result
      | VInt KInt i \<Rightarrow> AList.update key (VFloat (floatOfInt E i)) result
      | VInt KInt64 i \<Rightarrow> AList.update key (VFloat (floatOfInt E i)) result
      | VFloat f \<Rightarrow> AList.update key (VFloat f) result
      | VBool b \<Rightarrow> AList.update key (VBool b) result
      | _ \<Rightarrow> AList.update key (VStr (sprintv E v)) result)"
  by pat_completeness auto
termination
  by (relation "measure (\<lambda>(E, key, v, r). size v)")
    (auto dest: size_map_entry size_zip_entry simp del: any.size)

declare flatten_value.simps [simp del]

definition FlattenJSON :: "'e flatten_env_scheme \<Rightarrow> vmap \<Rightarrow> string \<Rightarrow> vmap" where
  "FlattenJSON E data prefix =
     fold (\<lambda>kw. flatten_value E (full_key prefix (fst kw)) (snd kw)) data []"

lemma flatten_value_map: "flatten_value E key (VMap m) r = copy_into (FlattenJSON E m key) r"
  by (subst flatten_value.simps) (simp add: FlattenJSON_def)

lemma flatten_value_list:
  "flatten_value E key (VList vs) r =
     fold (\<lambda>iw. copy_into (FlattenJSON E [(nat_digits (fst iw), snd iw)] key)) (zip [0..<length vs] vs) r"
  by (subst flatten_value.simps) (simp add: FlattenJSON_def)

section \<open>The result as a map\<close>

text \<open>Each entry overrides what the result had under its keys.\<close>

lemma distinct_fold_update:
  assumes "distinct (map fst r)"
  shows "distinct (map fst (fold (\<lambda>(k, v). AList.update k v) xs r))"
  using assms by (induction xs arbitrary: r) (auto simp: distinct_update)

lemma map_of_fold_update:
  "map_of (fold (\<lambda>(k, v). AList.update k v) xs r) = map_of r ++ map_of (rev xs)"
  by (induction xs arbitrary: r) (auto simp: map_add_assoc)

lemma map_of_copy_into:
  assumes "distinct (map fst sub)"
  shows "map_of (copy_into sub r) = map_of r ++ map_of sub"
proof -
  have "map_of (rev sub) = map_of sub" using assms by (simp add: map_of_inject_set rev_map [symmetric])
  then show ?thesis by (simp add: copy_into_def map_of_fold_update)
qed

lemma distinct_copy_into: "distinct (map fst r) \<Longrightarrow> distinct (map fst (copy_into sub r))"
  unfolding copy_into_def by (rule distinct_fold_update)

lemma distinct_fold:
  assumes "\<And>x r. x \<in> set xs \<Longrightarrow> distinct (map fst r) \<Longrightarrow> distinct (map fst (f x r))"
  shows "distinct (map fst r) \<Longrightarrow> distinct (map fst (fold f xs r))"
  using assms by (induction xs arbitrary: r) auto

lemma distinct_flatten_value: "distinct (map fst r) \<Longrightarrow> distinct (map fst (flatten_value E key v r))"
  by (subst flatten_value.simps)
    (auto intro!: distinct_copy_into distinct_fold simp: distinct_update split: any.split int_kind.split)

lemma distinct_FlattenJSON: "distinct (map fst (FlattenJSON E data prefix))"
  unfolding FlattenJSON_def by (rule distinct_fold) (auto intro: distinct_flatten_value)

definition add_all :: "('b \<Rightarrow> 'k \<Rightarrow> 'v option) \<Rightarrow> 'b list \<Rightarrow> 'k \<Rightarrow> 'v option" where
  "add_all g xs = foldl (\<lambda>m x. m ++ g x) Map.empty xs"

lemma add_all_snoc: "add_all g (xs @ [x]) = add_all g xs ++ g x"
  by (simp add: add_all_def)

lemma map_of_fold_adds:
  assumes "\<And>x r. x \<in> set xs \<Longrightarrow> map_of (f x r) = map_of r ++ g x"
  shows "map_of (fold f xs r) = map_of r ++ add_all g xs"
  using assms by (induction xs rule: rev_induct) (simp_all add: add_all_snoc add_all_def)

lemma add_all_iff:
  assumes "\<And>x y s. x \<in> set xs \<Longrightarrow> y \<in> set xs \<Longrightarrow> g x s \<noteq> None \<Longrightarrow> g y s \<noteq> None \<Longrightarrow> x = y"
  shows "add_all g xs s = Some w \<longleftrightarrow> (\<exists>x \<in> set xs. g x s = Some w)"
  using assms
proof (induction xs rule: rev_induct)
  case (snoc x xs)
  have IH: "add_all g xs s = Some w \<longleftrightarrow> (\<exists>y \<in> set xs. g y s = Some w)"
    by (rule snoc.IH) (rule snoc.prems, auto)
  show ?case
  proof (cases "g x s")
    case None
    then show ?thesis by (simp add: add_all_snoc map_add_def IH)
  next
    case (Some w')
    have "y = x" if "y \<in> set xs" "g y s = Some w" for y
      using snoc.prems [of y x s] that Some by simp
    then show ?thesis using Some by (auto simp: add_all_snoc)
  qed
qed (simp add: add_all_def)

lemma flatten_value_adds:
  "map_of (flatten_value E key v r) = map_of r ++ map_of (flatten_value E key v [])"
proof (cases v)
  case (VMap m)
  then show ?thesis by (simp add: flatten_value_map map_of_copy_into distinct_FlattenJSON)
next
  case (VList vs)
  let ?g = "\<lambda>iw. map_of (FlattenJSON E [(nat_digits (fst iw), snd iw)] key)"
  have "map_of (flatten_value E key v r) = map_of r ++ add_all ?g (zip [0..<length vs] vs)" for r
    unfolding VList flatten_value_list
    by (rule map_of_fold_adds) (simp add: map_of_copy_into distinct_FlattenJSON)
  then show ?thesis by simp
qed (simp_all add: flatten_value.simps split: int_kind.split)

lemma map_of_FlattenJSON:
  "map_of (FlattenJSON E data prefix) =
     add_all (\<lambda>kw. map_of (flatten_value E (full_key prefix (fst kw)) (snd kw) [])) data"
  unfolding FlattenJSON_def by (subst map_of_fold_adds [OF flatten_value_adds]) simp

lemma map_of_flatten_list:
  "map_of (flatten_value E key (VList vs) []) =
     add_all (\<lambda>iw. map_of (flatten_value E (full_key key (nat_digits (fst iw))) (snd iw) [])) (zip [0..<length vs] vs)"
  unfolding flatten_value_list
  by (subst map_of_fold_adds [where g = "\<lambda>iw. map_of (flatten_value E (full_key key (nat_digits (fst iw))) (snd iw) [])"])
    (simp_all add: map_of_copy_into distinct_FlattenJSON map_of_FlattenJSON add_all_def)

section \<open>Paths and leaves\<close>

text \<open>What a value holds at a path: of an array the keys are the decimal indices.\<close>

fun child :: "any \<Rightarrow> string \<Rightarrow> any option" where
  "child (VMap m) k = map_of m k"
| "child (VList vs) k =
     (case parse_digits k of
        None \<Rightarrow> None
      | Some i \<Rightarrow> if i < length vs \<and> nat_digits i = k then Some (vs ! i) else None)"
| "child _ k = None"

definition leaf_of :: "'e flatten_env_scheme \<Rightarrow> any \<Rightarrow> any option" where
  "leaf_of E v =
     (case v of
        VMap m \<Rightarrow> None | VNilMap \<Rightarrow> None | VList vs \<Rightarrow> None
      | VInt KInt i \<Rightarrow> Some (VFloat (floatOfInt E i))
      | VInt KInt64 i \<Rightarrow> Some (VFloat (floatOfInt E i))
      | VFloat f \<Rightarrow> Some (VFloat f)
      | VBool b \<Rightarrow> Some (VBool b)
      | _ \<Rightarrow> Some (VStr (sprintv E v)))"

fun leaf_at :: "'e flatten_env_scheme \<Rightarrow> any \<Rightarrow> string list \<Rightarrow> any option" where
  "leaf_at E v [] = leaf_of E v"
| "leaf_at E v (k # ks) = (case child v k of None \<Rightarrow> None | Some w \<Rightarrow> leaf_at E w ks)"

definition path_key :: "string \<Rightarrow> string list \<Rightarrow> string" where
  "path_key key ks = key @ concat (map (\<lambda>k. CHR ''.'' # k) ks)"

definition dotless :: "string \<Rightarrow> bool" where
  "dotless k \<longleftrightarrow> CHR ''.'' \<notin> set k"

text \<open>Maps with distinct keys that have no dots, all the way down.\<close>

function plain :: "any \<Rightarrow> bool" where
  "plain v \<longleftrightarrow>
     (case v of
        VMap m \<Rightarrow> distinct (map fst m) \<and> (\<forall>kw \<in> set m. dotless (fst kw) \<and> plain (snd kw))
      | VList vs \<Rightarrow> (\<forall>w \<in> set vs. plain w)
      | _ \<Rightarrow> True)"
  by pat_completeness auto
termination
  by (relation "measure size") (auto dest: size_map_entry size_list_entry simp del: any.size)

declare plain.simps [simp del]

lemma plain_map:
  "plain (VMap m) \<longleftrightarrow> distinct (map fst m) \<and> (\<forall>kw \<in> set m. dotless (fst kw) \<and> plain (snd kw))"
  by (subst plain.simps) simp

lemma plain_list: "plain (VList vs) \<longleftrightarrow> (\<forall>w \<in> set vs. plain w)"
  by (subst plain.simps) simp

lemma path_key_full: "key \<noteq> [] \<Longrightarrow> path_key (full_key key k) ks = path_key key (k # ks)"
  by (simp add: path_key_def full_key_def)

lemma path_key_inject:
  assumes "list_all dotless ks" and "list_all dotless ls"
  shows "path_key key ks = path_key key ls \<longleftrightarrow> ks = ls"
  using assms
proof (induction ks arbitrary: ls key)
  case Nil
  then show ?case by (cases ls) (auto simp: path_key_def)
next
  case (Cons k ks)
  show ?case
  proof (cases ls)
    case (Cons l ls')
    have split: "(xs @ concat (map (\<lambda>k. CHR ''.'' # k) ps) = ys @ concat (map (\<lambda>k. CHR ''.'' # k) qs)) \<longleftrightarrow>
        xs = ys \<and> concat (map (\<lambda>k. CHR ''.'' # k) ps) = concat (map (\<lambda>k. CHR ''.'' # k) qs)"
      if "dotless xs" "dotless ys" for xs ys :: string and ps qs
      using that
    proof (induction xs arbitrary: ys)
      case Nil
      then show ?case by (cases ps; cases ys) (auto simp: dotless_def)
    next
      case (Cons x xs)
      then show ?case by (cases ys; cases qs) (auto simp: dotless_def)
    qed
    show ?thesis
      using Cons.IH [of ls' "[]"] Cons.prems Cons split [of k l ks ls'] by (auto simp: path_key_def)
  qed (simp add: path_key_def)
qed

section \<open>Flattening keeps the leaves\<close>

definition flat_at :: "'e flatten_env_scheme \<Rightarrow> string \<Rightarrow> any \<Rightarrow> string \<Rightarrow> any \<Rightarrow> bool" where
  "flat_at E key v s w \<longleftrightarrow> (\<exists>ks. list_all dotless ks \<and> s = path_key key ks \<and> leaf_at E v ks = Some w)"

lemma flat_at_child:
  assumes "key \<noteq> []" and "\<And>k. child v k \<noteq> None \<Longrightarrow> dotless k" and "leaf_of E v = None"
  shows "flat_at E key v s w \<longleftrightarrow> (\<exists>k u. child v k = Some u \<and> flat_at E (full_key key k) u s w)"
proof
  assume "flat_at E key v s w"
  then obtain ks where ks: "list_all dotless ks" "s = path_key key ks" "leaf_at E v ks = Some w"
    unfolding flat_at_def by blast
  then obtain k ls where k: "ks = k # ls" using assms(3) by (cases ks) auto
  then obtain u where u: "child v k = Some u" "leaf_at E u ls = Some w"
    using ks(3) by (auto split: option.splits)
  moreover have "flat_at E (full_key key k) u s w"
    unfolding flat_at_def using ks k u assms(1) by (auto simp: path_key_full)
  ultimately show "\<exists>k u. child v k = Some u \<and> flat_at E (full_key key k) u s w" by blast
next
  assume "\<exists>k u. child v k = Some u \<and> flat_at E (full_key key k) u s w"
  then obtain k u ls where k: "child v k = Some u" "list_all dotless ls"
      "s = path_key (full_key key k) ls" "leaf_at E u ls = Some w"
    unfolding flat_at_def by blast
  then have "list_all dotless (k # ls)" "s = path_key key (k # ls)" "leaf_at E v (k # ls) = Some w"
    using assms(1,2) by (auto simp: path_key_full)
  then show "flat_at E key v s w" unfolding flat_at_def by blast
qed

lemma flat_at_same_child:
  assumes "key \<noteq> []" and "dotless k" and "dotless l"
    and "flat_at E (full_key key k) u s w" and "flat_at E (full_key key l) u' s w'"
  shows "k = l"
proof -
  obtain ks ls where "list_all dotless (k # ks)" "list_all dotless (l # ls)"
      "s = path_key key (k # ks)" "s = path_key key (l # ls)"
    using assms unfolding flat_at_def by (auto simp: path_key_full)
  then show ?thesis using path_key_inject [of "k # ks" "l # ls" key] by simp
qed

lemma add_all_children:
  assumes key: "key \<noteq> []" and dl: "\<And>x. x \<in> set xs \<Longrightarrow> dotless (h x)"
    and inj: "\<And>x y. x \<in> set xs \<Longrightarrow> y \<in> set xs \<Longrightarrow> h x = h y \<Longrightarrow> x = y"
    and IH: "\<And>x s w. x \<in> set xs \<Longrightarrow>
      map_of (flatten_value E (full_key key (h x)) (snd x) []) s = Some w \<longleftrightarrow> flat_at E (full_key key (h x)) (snd x) s w"
  shows "add_all (\<lambda>x. map_of (flatten_value E (full_key key (h x)) (snd x) [])) xs s = Some w \<longleftrightarrow>
    (\<exists>x \<in> set xs. flat_at E (full_key key (h x)) (snd x) s w)"
proof (subst add_all_iff)
  fix x y s
  assume xy: "x \<in> set xs" "y \<in> set xs"
    and n: "map_of (flatten_value E (full_key key (h x)) (snd x) []) s \<noteq> None"
      "map_of (flatten_value E (full_key key (h y)) (snd y) []) s \<noteq> None"
  from n obtain v v' where "flat_at E (full_key key (h x)) (snd x) s v" "flat_at E (full_key key (h y)) (snd y) s v'"
    using IH xy by blast
  then have "h x = h y" using flat_at_same_child key dl xy by blast
  then show "x = y" using inj xy by blast
qed (use IH in blast)

lemma dotless_digits: "dotless (nat_digits n)"
proof -
  have "\<not> is_digit CHR ''.''" by (simp add: is_digit_def)
  then show ?thesis using nat_digits_all_digits [of n] unfolding dotless_def list_all_iff by blast
qed

lemma nat_digits_inject: "nat_digits m = nat_digits n \<longleftrightarrow> m = n"
  by (metis digits_val_nat_digits)

lemma flatten_leaf:
  assumes "leaf_of E v = Some u"
  shows "map_of (flatten_value E key v []) s = Some w \<longleftrightarrow> flat_at E key v s w"
proof -
  have c: "child v k = None" for k using assms by (cases v) (auto simp: leaf_of_def)
  have "flatten_value E key v [] = [(key, u)]"
    using assms by (subst flatten_value.simps) (auto simp: leaf_of_def split: any.splits int_kind.splits)
  moreover have "flat_at E key v s w \<longleftrightarrow> s = key \<and> u = w"
  proof -
    have "leaf_at E v ks = Some w \<longleftrightarrow> ks = [] \<and> u = w" for ks
      using assms c by (cases ks) auto
    then show ?thesis by (auto simp: flat_at_def path_key_def)
  qed
  ultimately show ?thesis by auto
qed

lemma flatten_value_leaves:
  assumes "plain v" and "key \<noteq> []"
  shows "map_of (flatten_value E key v []) s = Some w \<longleftrightarrow> flat_at E key v s w"
  using assms
proof (induction "size v" arbitrary: v key s w rule: less_induct)
  case less
  consider (map) m where "v = VMap m" | (list) vs where "v = VList vs" | (nil) "v = VNilMap"
    | (leaf) u where "leaf_of E v = Some u"
  proof (cases v)
    case (VInt k i)
    then show ?thesis using leaf by (cases k) (simp_all add: leaf_of_def)
  qed (use map list nil leaf in \<open>simp_all add: leaf_of_def\<close>)
  then show ?case
  proof cases
    case map
    have p: "distinct (map fst m)" "\<And>kw. kw \<in> set m \<Longrightarrow> dotless (fst kw)" "\<And>kw. kw \<in> set m \<Longrightarrow> plain (snd kw)"
      using less.prems(1) by (auto simp: map plain_map)
    have fk: "full_key key k \<noteq> []" for k using less.prems(2) by (simp add: full_key_def)
    have "map_of (flatten_value E key v []) s = Some w \<longleftrightarrow>
        add_all (\<lambda>kw. map_of (flatten_value E (full_key key (fst kw)) (snd kw) [])) m s = Some w"
      by (simp add: map flatten_value_map map_of_copy_into distinct_FlattenJSON map_of_FlattenJSON)
    also have "\<dots> \<longleftrightarrow> (\<exists>kw \<in> set m. flat_at E (full_key key (fst kw)) (snd kw) s w)"
    proof (rule add_all_children [OF less.prems(2) p(2)])
      show "x = y" if "x \<in> set m" "y \<in> set m" "fst x = fst y" for x y
        using p(1) that by (auto simp: distinct_map inj_on_def)
      show "map_of (flatten_value E (full_key key (fst x)) (snd x) []) s = Some w \<longleftrightarrow>
          flat_at E (full_key key (fst x)) (snd x) s w" if "x \<in> set m" for x s w
        using that size_map_entry p(3) fk by (intro less.hyps) (auto simp: map simp del: any.size)
    qed
    also have "\<dots> \<longleftrightarrow> (\<exists>k u. child v k = Some u \<and> flat_at E (full_key key k) u s w)"
      using p(1) by (force simp: map map_of_eq_Some_iff)
    also have "\<dots> \<longleftrightarrow> flat_at E key v s w"
    proof (rule flat_at_child [symmetric, OF less.prems(2)])
      show "dotless k" if "child v k \<noteq> None" for k
        using that p(2) by (auto simp: map dest!: map_of_SomeD)
    qed (simp add: map leaf_of_def)
    finally show ?thesis .
  next
    case list
    let ?xs = "zip [0..<length vs] vs"
    have mem: "x \<in> set ?xs \<longleftrightarrow> fst x < length vs \<and> snd x = vs ! fst x" for x
      by (cases x) (auto simp: in_set_zip intro: exI [of _ "fst x"])
    have p: "\<And>u. u \<in> set vs \<Longrightarrow> plain u" using less.prems(1) by (simp add: list plain_list)
    have fk: "full_key key k \<noteq> []" for k using less.prems(2) by (simp add: full_key_def)
    have "map_of (flatten_value E key v []) s = Some w \<longleftrightarrow>
        add_all (\<lambda>x. map_of (flatten_value E (full_key key (nat_digits (fst x))) (snd x) [])) ?xs s = Some w"
      by (simp add: list map_of_flatten_list)
    also have "\<dots> \<longleftrightarrow> (\<exists>x \<in> set ?xs. flat_at E (full_key key (nat_digits (fst x))) (snd x) s w)"
    proof (rule add_all_children [OF less.prems(2) dotless_digits])
      show "x = y" if "x \<in> set ?xs" "y \<in> set ?xs" "nat_digits (fst x) = nat_digits (fst y)" for x y
        using that by (simp add: mem nat_digits_inject prod_eq_iff)
      show "map_of (flatten_value E (full_key key (nat_digits (fst x))) (snd x) []) s = Some w \<longleftrightarrow>
          flat_at E (full_key key (nat_digits (fst x))) (snd x) s w" if "x \<in> set ?xs" for x s w
      proof -
        have "snd x \<in> set vs" using that by (simp add: mem)
        then show ?thesis using size_list_entry p fk by (intro less.hyps) (auto simp: list simp del: any.size)
      qed
    qed
    also have "\<dots> \<longleftrightarrow> (\<exists>i < length vs. flat_at E (full_key key (nat_digits i)) (vs ! i) s w)"
      unfolding Bex_def mem by (metis fst_conv snd_conv)
    also have "\<dots> \<longleftrightarrow> (\<exists>k u. child v k = Some u \<and> flat_at E (full_key key k) u s w)"
    proof -
      have "child v k = Some u \<longleftrightarrow> (\<exists>i < length vs. k = nat_digits i \<and> u = vs ! i)" for k u
        by (auto simp: list parse_digits_nat_digits split: option.splits)
      then show ?thesis by metis
    qed
    also have "\<dots> \<longleftrightarrow> flat_at E key v s w"
    proof (rule flat_at_child [symmetric, OF less.prems(2)])
      show "dotless k" if "child v k \<noteq> None" for k
        using that by (auto simp: list dotless_digits split: option.splits if_splits)
    qed (simp add: list leaf_of_def)
    finally show ?thesis .
  next
    case nil
    have "leaf_at E VNilMap ks = None" for ks by (cases ks) (simp_all add: leaf_of_def)
    then show ?thesis by (simp add: nil flat_at_def flatten_value.simps)
  next
    case leaf
    then show ?thesis by (rule flatten_leaf)
  qed
qed

lemma FlattenJSON_leaves:
  assumes "plain (VMap data)" and "prefix \<noteq> []"
  shows "map_of (FlattenJSON E data prefix) s = Some w \<longleftrightarrow> flat_at E prefix (VMap data) s w"
  using flatten_value_leaves [OF assms, of E s w]
  by (simp add: flatten_value_map map_of_copy_into distinct_FlattenJSON)

text \<open>Only scalars come out: strings, floats and Booleans.\<close>

lemma leaf_at_scalar: "leaf_at E v ks = Some w \<Longrightarrow> (\<exists>s. w = VStr s) \<or> (\<exists>f. w = VFloat f) \<or> (\<exists>b. w = VBool b)"
  by (induction ks arbitrary: v) (auto simp: leaf_of_def split: any.splits int_kind.splits option.splits)

end
