(* ===== verification/Metering.thy ===== *)
theory Metering
  imports Flatten
begin

text \<open>
  Counting and sizing of telemetry for billing (\<^verbatim>\<open>pkg/metering\<close>): the size of a log record is that of
  its attributes as JSON and its body, the size of a span that of a JSON object, and metrics are counted
  by samples. With the parts of \<^verbatim>\<open>pkg/schema\<close> that render references and events.
\<close>

section \<open>What the meters call outside the repository\<close>

text \<open>
  \<^verbatim>\<open>Value.AsString\<close>, JSON marshalling of the values the meters hand to it (\<^term>\<open>None\<close> for an error), and
  \<^verbatim>\<open>SpanKind.String\<close>.
\<close>

record otel_span_ref =
  TraceId :: string
  SpanId :: string
  RefType :: string

record otel_event =
  Name :: string
  TimeUnixNano :: u64
  AttributeMap :: "(string \<times> string) list"
  IsError :: bool

record meter_env = flatten_env +
  asString :: "any \<Rightarrow> string"
  kindString :: "i32 \<Rightarrow> string"
  marshalAnyMap :: "vmap \<Rightarrow> string option"
  marshalStrMap :: "(string \<times> string) list \<Rightarrow> string option"
  marshalNumMap :: "(string \<times> f64) list \<Rightarrow> string option"
  marshalBoolMap :: "(string \<times> bool) list \<Rightarrow> string option"
  marshalStrings :: "string list \<Rightarrow> string option"
  marshalString :: "string \<Rightarrow> string option"
  marshalEvent :: "otel_event \<Rightarrow> string option"
  marshalRefs :: "otel_span_ref list \<Rightarrow> string option"

section \<open>Sizes\<close>

text \<open>The length of what is marshalled; an error gives zero.\<close>

definition json_size :: "string option \<Rightarrow> nat" where
  "json_size r = (case r of None \<Rightarrow> 0 | Some bs \<Rightarrow> length bs)"

text \<open>A float is finite unless its exponent is all ones.\<close>

definition IsValidFloat :: "f64 \<Rightarrow> bool" where
  "IsValidFloat f \<longleftrightarrow> drop_bit 52 f AND 0x7FF \<noteq> 0x7FF"

text \<open>The pattern \<^verbatim>\<open>^signoz.workspace.*\<close>, where a dot is any rune but a line feed.\<close>

definition ExcludeSigNozWorkspaceResourceAttrs :: "string \<Rightarrow> bool" where
  "ExcludeSigNozWorkspaceResourceAttrs s =
     (let rest = drop 6 s; (r, w) = decode_rune (map of_char rest)
      in has_prefix ''signoz'' s \<and> rest \<noteq> [] \<and> r \<noteq> 10 \<and> has_prefix ''workspace'' (drop w rest))"

type_synonym pattern = "(string \<Rightarrow> bool) option"

definition excluded :: "pattern \<Rightarrow> string \<Rightarrow> bool" where
  "excluded excl k = (case excl of None \<Rightarrow> False | Some matches \<Rightarrow> matches k)"

definition SizeOfMapStringAny :: "'e meter_env_scheme \<Rightarrow> pattern \<Rightarrow> vmap \<Rightarrow> nat" where
  "SizeOfMapStringAny E excl input =
     json_size (marshalAnyMap E (filter (\<lambda>kv. \<not> excluded excl (fst kv)) input))"

definition flat_strings :: "'e meter_env_scheme \<Rightarrow> pattern \<Rightarrow> string \<times> any \<Rightarrow> (string \<times> string) list \<Rightarrow> (string \<times> string) list" where
  "flat_strings E excl = (\<lambda>(k, v) output.
     if excluded excl k then output
     else (case v of
             VMap m \<Rightarrow> fold (\<lambda>(kf, vf). AList.update kf (sprintv E vf)) (FlattenJSON E m k) output
           | _ \<Rightarrow> AList.update k (asString E v) output))"

definition SizeOfFlatPcommonMapInMapStringString :: "'e meter_env_scheme \<Rightarrow> pattern \<Rightarrow> vmap \<Rightarrow> nat" where
  "SizeOfFlatPcommonMapInMapStringString E excl input =
     json_size (marshalStrMap E (fold (flat_strings E excl) input []))"

text \<open>The maps of numbers, strings and Booleans that the attributes of a span are split into.\<close>

type_synonym split_attrs = "(string \<times> f64) list \<times> (string \<times> string) list \<times> (string \<times> bool) list"

definition put_flat :: "string \<times> any \<Rightarrow> split_attrs \<Rightarrow> split_attrs" where
  "put_flat = (\<lambda>(kf, vf) (n, s, b).
     (case vf of
        VStr tvf \<Rightarrow> (n, AList.update kf tvf s, b)
      | VFloat tvf \<Rightarrow> (AList.update kf tvf n, s, b)
      | VBool tvf \<Rightarrow> (n, s, AList.update kf tvf b)
      | _ \<Rightarrow> (n, s, b)))"

definition split_attr :: "'e meter_env_scheme \<Rightarrow> string \<times> any \<Rightarrow> split_attrs \<Rightarrow> split_attrs" where
  "split_attr E = (\<lambda>(k, v) (n, s, b).
     (case v of
        VFloat f \<Rightarrow> (if IsValidFloat f then AList.update k f n else n, s, b)
      | VInt _ i \<Rightarrow> (AList.update k (floatOfInt E i) n, s, b)
      | VBool x \<Rightarrow> (n, s, AList.update k x b)
      | VMap m \<Rightarrow> fold put_flat (FlattenJSON E m k) (n, s, b)
      | _ \<Rightarrow> (n, AList.update k (asString E v) s, b)))"

definition SizeOfFlatPcommonMapInNumberStringBool :: "'e meter_env_scheme \<Rightarrow> vmap \<Rightarrow> nat \<times> nat \<times> nat" where
  "SizeOfFlatPcommonMapInNumberStringBool E input =
     (let (n, s, b) = fold (split_attr E) input ([], [], [])
      in (json_size (marshalNumMap E n), json_size (marshalStrMap E s), json_size (marshalBoolMap E b)))"

definition SizeOfInt :: "int \<Rightarrow> nat" where
  "SizeOfInt i = length (format_int i)"

definition SizeOfTraceID :: "u8 list \<Rightarrow> nat" where
  "SizeOfTraceID i = (if is_zero_id i then 0 else 32)"

definition SizeOfSpanID :: "u8 list \<Rightarrow> nat" where
  "SizeOfSpanID i = (if is_zero_id i then 0 else 16)"

definition SizeOfEvents :: "'e meter_env_scheme \<Rightarrow> string list \<Rightarrow> nat" where
  "SizeOfEvents E input = json_size (marshalStrings E input)"

definition SizeOfOtelSpanRefs :: "'e meter_env_scheme \<Rightarrow> otel_span_ref list option \<Rightarrow> nat" where
  "SizeOfOtelSpanRefs E input =
     (case input of
        None \<Rightarrow> 0
      | Some refs \<Rightarrow>
          (case marshalRefs E refs of
             None \<Rightarrow> 0
           | Some bs \<Rightarrow> length bs + count_list bs CHR 0x22))"

definition TotalSizeIfKeyExists :: "nat \<Rightarrow> nat \<Rightarrow> nat \<Rightarrow> nat" where
  "TotalSizeIfKeyExists key v extra = (if v = 0 then 0 else key + v + extra)"

definition TotalSizeIfKeyExistsAndValueIsMapOrSlice :: "nat \<Rightarrow> nat \<Rightarrow> nat \<Rightarrow> nat" where
  "TotalSizeIfKeyExistsAndValueIsMapOrSlice key v extra = (if v \<le> 2 then 0 else key + v + extra)"

section \<open>References, events, service name\<close>

text \<open>A span id is an array of eight bytes; \<^verbatim>\<open>parentSpanIDSet\<close> tests the length of that array.\<close>

definition NewOtelSpanRefs :: "span_link list \<Rightarrow> u8 list \<Rightarrow> u8 list \<Rightarrow> otel_span_ref list option" where
  "NewOtelSpanRefs links parentSpanID traceID =
     (let parentSpanIDSet = (length parentSpanID \<noteq> 0)
      in if \<not> parentSpanIDSet \<and> links = [] then None
         else Some
           ((if parentSpanIDSet
             then [\<lparr>TraceId = TraceIDToHexOrEmptyString traceID,
                    SpanId = SpanIDToHexOrEmptyString parentSpanID, RefType = ''CHILD_OF''\<rparr>]
             else []) @
            map (\<lambda>link. \<lparr>TraceId = TraceIDToHexOrEmptyString (link_traceID link),
                         SpanId = SpanIDToHexOrEmptyString (link_spanID link),
                         RefType = ''FOLLOWS_FROM''\<rparr>) links))"

record error_event =
  Event :: otel_event
  ErrorID :: string
  ErrorGroupID :: string

definition empty_event :: otel_event where
  "empty_event = \<lparr>Name = [], TimeUnixNano = 0, AttributeMap = [], IsError = False\<rparr>"

definition map_str :: "(string \<times> string) list \<Rightarrow> string \<Rightarrow> string" where
  "map_str m k = (case map_of m k of None \<Rightarrow> [] | Some s \<Rightarrow> s)"

text \<open>One event: \<open>uuid\<close> is the fresh identifier without hyphens, \<open>md5\<close> the digest in hexadecimal.\<close>

definition new_event ::
  "'e meter_env_scheme \<Rightarrow> (string \<Rightarrow> string) \<Rightarrow> string \<Rightarrow> string \<Rightarrow> bool \<Rightarrow> span_event \<Rightarrow> string \<times> error_event" where
  "new_event E md5 uuid serviceName lowCardinalExceptionGrouping input =
     (let event = \<lparr>Name = ev_name input, TimeUnixNano = ev_timestamp input,
                   AttributeMap = fold (\<lambda>(k, v). AList.update k (asString E v)) (ev_attrs input) [],
                   IsError = ev_name input = ''exception''\<rparr>;
          typ = map_str (AttributeMap event) ''exception.type'';
          msg = map_str (AttributeMap event) ''exception.message''
      in (case marshalEvent E event of None \<Rightarrow> [] | Some bs \<Rightarrow> bs,
          if IsError event
          then \<lparr>Event = event, ErrorID = uuid,
                ErrorGroupID = md5 (if lowCardinalExceptionGrouping then serviceName @ typ else serviceName @ typ @ msg)\<rparr>
          else \<lparr>Event = empty_event, ErrorID = [], ErrorGroupID = []\<rparr>))"

definition NewEventsAndErrorEvents ::
  "'e meter_env_scheme \<Rightarrow> (string \<Rightarrow> string) \<Rightarrow> (nat \<Rightarrow> string) \<Rightarrow> span_event list \<Rightarrow> string \<Rightarrow> bool \<Rightarrow>
     string list \<times> error_event list" where
  "NewEventsAndErrorEvents E md5 uuids input serviceName low =
     (let rs = map (\<lambda>(i, e). new_event E md5 (uuids i) serviceName low e) (zip [0..<length input] input)
      in (map fst rs, map snd rs))"

definition ServiceName :: "vmap \<Rightarrow> string" where
  "ServiceName attrs =
     (case map_of attrs ''service.name'' of
        None \<Rightarrow> ''<nil-service-name>''
      | Some (VStr s) \<Rightarrow> s
      | Some _ \<Rightarrow> [])"

section \<open>Logs\<close>

definition workspace :: pattern where
  "workspace = Some ExcludeSigNozWorkspaceResourceAttrs"

definition logs_SizePerResource :: "'e meter_env_scheme \<Rightarrow> resource_logs \<Rightarrow> i64" where
  "logs_SizePerResource E rld =
     (let resourceAttributesSize = SizeOfMapStringAny E workspace (rl_resource rld)
      in sum_list (map (\<lambda>scopeLogs. sum_list (map (\<lambda>logRecord.
           of_nat (resourceAttributesSize + SizeOfMapStringAny E workspace (lr_attributes logRecord) +
                   length (asString E (lr_body logRecord))))
           (sl_records scopeLogs))) (rl_scopes rld)))"

definition logs_CountPerResource :: "resource_logs \<Rightarrow> i64" where
  "logs_CountPerResource rld = sum_list (map (\<lambda>ill. of_nat (length (sl_records ill))) (rl_scopes rld))"

definition logs_Size :: "'e meter_env_scheme \<Rightarrow> logs \<Rightarrow> i64" where
  "logs_Size E ld = sum_list (map (logs_SizePerResource E) ld)"

section \<open>Traces\<close>

definition KeySizes :: "string \<Rightarrow> nat" where
  "KeySizes k = length (CHR 0x22 # k @ [CHR 0x22])"

definition span_size ::
  "'e meter_env_scheme \<Rightarrow> (string \<Rightarrow> string) \<Rightarrow> (nat \<Rightarrow> string) \<Rightarrow> nat \<Rightarrow> string \<Rightarrow> otlp_span \<Rightarrow> nat" where
  "span_size E md5 uuids resourceAttributesSize serviceName span =
     (let sizeOfOtelSpanRefs = SizeOfOtelSpanRefs E (NewOtelSpanRefs (os_links span) (os_parentSpanID span) (os_traceID span));
          sizeOfServiceName = json_size (marshalString E serviceName);
          sizeOfEvents = SizeOfEvents E (fst (NewEventsAndErrorEvents E md5 uuids (os_events span) serviceName False));
          (sizeOfNumberAttributes, sizeOfStringAttributes, sizeOfBoolAttributes) =
            SizeOfFlatPcommonMapInNumberStringBool E (os_attrs span);
          sizeOfFlags = (if os_flags span \<noteq> 0 then SizeOfInt (uint (os_flags span)) else 0)
      in 2 +
         TotalSizeIfKeyExistsAndValueIsMapOrSlice (KeySizes ''resources_string'') resourceAttributesSize 2 +
         TotalSizeIfKeyExists (KeySizes ''startTimeUnixNano'') (SizeOfInt (sint (os_start span))) 2 +
         TotalSizeIfKeyExists (KeySizes ''spanId'') (SizeOfSpanID (os_spanID span)) 4 +
         TotalSizeIfKeyExists (KeySizes ''traceId'') (SizeOfTraceID (os_traceID span)) 4 +
         TotalSizeIfKeyExists (KeySizes ''traceState'') (length (os_traceState span)) 4 +
         TotalSizeIfKeyExists (KeySizes ''parentSpanId'') (SizeOfSpanID (os_parentSpanID span)) 4 +
         TotalSizeIfKeyExists (KeySizes ''flags'') sizeOfFlags 2 +
         TotalSizeIfKeyExists (KeySizes ''name'') (length (os_name span)) 4 +
         TotalSizeIfKeyExists (KeySizes ''kind'') (SizeOfInt (sint (os_kind span))) 2 +
         TotalSizeIfKeyExists (KeySizes ''spanKind'') (length (kindString E (os_kind span))) 4 +
         TotalSizeIfKeyExistsAndValueIsMapOrSlice (KeySizes ''attributes_string'') sizeOfStringAttributes 2 +
         TotalSizeIfKeyExistsAndValueIsMapOrSlice (KeySizes ''attributes_bool'') sizeOfBoolAttributes 2 +
         TotalSizeIfKeyExistsAndValueIsMapOrSlice (KeySizes ''attributes_number'') sizeOfNumberAttributes 2 +
         TotalSizeIfKeyExists (KeySizes ''serviceName'') sizeOfServiceName 2 +
         TotalSizeIfKeyExistsAndValueIsMapOrSlice (KeySizes ''event'') sizeOfEvents 2 +
         TotalSizeIfKeyExistsAndValueIsMapOrSlice (KeySizes ''references'') sizeOfOtelSpanRefs 4 -
         1)"

definition traces_SizePerResource ::
  "'e meter_env_scheme \<Rightarrow> (string \<Rightarrow> string) \<Rightarrow> (nat \<Rightarrow> string) \<Rightarrow> otlp_resource_spans \<Rightarrow> i64" where
  "traces_SizePerResource E md5 uuids rtd =
     (let resourceAttributesSize = SizeOfFlatPcommonMapInMapStringString E workspace (ors_resource rtd)
      in sum_list (map (\<lambda>scopeSpans. sum_list (map (\<lambda>span.
           of_nat (span_size E md5 uuids resourceAttributesSize (ServiceName (ors_resource rtd)) span))
           (oss_spans scopeSpans))) (ors_scopes rtd)))"

definition traces_CountPerResource :: "otlp_resource_spans \<Rightarrow> i64" where
  "traces_CountPerResource rtd = sum_list (map (\<lambda>ils. of_nat (length (oss_spans ils))) (ors_scopes rtd))"

definition traces_Size :: "'e meter_env_scheme \<Rightarrow> (string \<Rightarrow> string) \<Rightarrow> (nat \<Rightarrow> string) \<Rightarrow> otlp_traces \<Rightarrow> i64" where
  "traces_Size E md5 uuids td = sum_list (map (traces_SizePerResource E md5 uuids) td)"

section \<open>Metrics\<close>

text \<open>The pattern \<^verbatim>\<open>^(signoz|otelcol).*\<close>.\<close>

definition excludeRegex :: "string \<Rightarrow> bool" where
  "excludeRegex s \<longleftrightarrow> has_prefix ''signoz'' s \<or> has_prefix ''otelcol'' s"

definition opt_count :: "'a option \<Rightarrow> nat" where
  "opt_count x = (case x of None \<Rightarrow> 0 | Some _ \<Rightarrow> 1)"

definition metric_samples :: "metric \<Rightarrow> nat" where
  "metric_samples m =
     (if excludeRegex (m_name m) then 0
      else case m_body m of
        MetricGauge dps \<Rightarrow> length dps
      | MetricSum t isMonotonic dps \<Rightarrow> length dps
      | MetricHistogram t dps \<Rightarrow>
          sum_list (map (\<lambda>dp. length (hp_buckets dp) + 1 +
            opt_count (hp_sum dp) + opt_count (hp_min dp) + opt_count (hp_max dp)) dps)
      | MetricSummary dps \<Rightarrow> sum_list (map (\<lambda>dp. length (sp_quantiles dp) + 2) dps)
      | MetricExponentialHistogram t dps \<Rightarrow>
          sum_list (map (\<lambda>dp. length (ep_negative dp) + length (ep_positive dp) + 1 +
            opt_count (ep_sum dp) + opt_count (ep_min dp) + opt_count (ep_max dp)) dps)
      | MetricEmpty \<Rightarrow> 0)"

definition metrics_CountPerResource :: "resource_metrics \<Rightarrow> i64" where
  "metrics_CountPerResource rmd =
     sum_list (map (\<lambda>sm. sum_list (map (\<lambda>m. of_nat (metric_samples m)) (sm_metrics sm))) (rm_scopes rmd))"

definition metrics_SizePerResource :: "resource_metrics \<Rightarrow> i64" where
  "metrics_SizePerResource rmd = 0"

definition metrics_Count :: "metrics \<Rightarrow> i64" where
  "metrics_Count md = sum_list (map metrics_CountPerResource md)"

end
