(* ===== verification/MeterConnector.thy ===== *)
theory MeterConnector
  imports Metering
begin

text \<open>
  The connector that turns telemetry into metrics of its volume (\<^verbatim>\<open>connectors/signozmeterconnector\<close>):
  counts and sizes are added up per set of resource dimensions and exported as deltas by a ticker.
\<close>

section \<open>Configuration\<close>

definition metricNameSpansCount :: string where "metricNameSpansCount = ''signoz.meter.span.count''"
definition metricDescSpansCount :: string where "metricDescSpansCount = ''The number of spans observed.''"
definition metricNameSpansSize :: string where "metricNameSpansSize = ''signoz.meter.span.size''"
definition metricDescSpansSize :: string where "metricDescSpansSize = ''The size of spans observed.''"

definition metricNameMetricsDataPointsCount :: string where
  "metricNameMetricsDataPointsCount = ''signoz.meter.metric.datapoint.count''"
definition metricDescMetricsDataPointsCount :: string where
  "metricDescMetricsDataPointsCount = ''The number of data points observed.''"
definition metricNameMetricsDataPointsSize :: string where
  "metricNameMetricsDataPointsSize = ''signoz.meter.metric.datapoint.size''"
definition metricDescMetricsDataPointsSize :: string where
  "metricDescMetricsDataPointsSize = ''The size of data points observed.''"

definition metricNameLogsCount :: string where "metricNameLogsCount = ''signoz.meter.log.count''"
definition metricDescLogsCount :: string where "metricDescLogsCount = ''The number of log records observed.''"
definition metricNameLogsSize :: string where "metricNameLogsSize = ''signoz.meter.log.size''"
definition metricDescLogsSize :: string where "metricDescLogsSize = ''The size of log records observed.''"

text \<open>The names of the configured dimensions; \<^term>\<open>Some name\<close> is the error that the name comes twice.\<close>

fun meter_validateDimensions :: "string list \<Rightarrow> string list \<Rightarrow> string option" where
  "meter_validateDimensions [] labelNames = None"
| "meter_validateDimensions (d # ds) labelNames =
     (if d \<in> set labelNames then Some d else meter_validateDimensions ds (d # labelNames))"

definition default_dimensions :: "string list" where
  "default_dimensions = [''service.name'', ''deployment.environment'', ''host.name'']"

section \<open>The aggregated state\<close>

record meter_metric =
  spanCount :: i64
  spanSize :: i64
  metricDataPointCount :: i64
  metricDataPointSize :: i64
  logCount :: i64
  logSize :: i64
  mm_attrs :: vmap

text \<open>The map from the hash of the dimensions; \<^verbatim>\<open>pdatautil.MapHash\<close> is an argument.\<close>

type_synonym meter_map = "(u8 list \<times> meter_metric) list"

definition new_meter_metric :: "vmap \<Rightarrow> meter_metric" where
  "new_meter_metric attrs =
     \<lparr>spanCount = 0, spanSize = 0, metricDataPointCount = 0, metricDataPointSize = 0,
      logCount = 0, logSize = 0, mm_attrs = attrs\<rparr>"

definition lookup_metric :: "u8 list \<Rightarrow> vmap \<Rightarrow> meter_map \<Rightarrow> meter_metric" where
  "lookup_metric key attrs m = (case map_of m key of Some mm \<Rightarrow> mm | None \<Rightarrow> new_meter_metric attrs)"

definition UpdateMetricDataPointsMeterMetrics ::
  "(vmap \<Rightarrow> u8 list) \<Rightarrow> vmap \<Rightarrow> i64 \<Rightarrow> i64 \<Rightarrow> meter_map \<Rightarrow> meter_map" where
  "UpdateMetricDataPointsMeterMetrics MapHash attrs cnt sz m =
     (let key = MapHash attrs; mm = lookup_metric key attrs m
      in AList.update key (mm\<lparr>metricDataPointCount := metricDataPointCount mm + cnt,
                              metricDataPointSize := metricDataPointSize mm + sz\<rparr>) m)"

definition UpdateSpanMeterMetrics ::
  "(vmap \<Rightarrow> u8 list) \<Rightarrow> vmap \<Rightarrow> i64 \<Rightarrow> i64 \<Rightarrow> meter_map \<Rightarrow> meter_map" where
  "UpdateSpanMeterMetrics MapHash attrs cnt sz m =
     (let key = MapHash attrs; mm = lookup_metric key attrs m
      in AList.update key (mm\<lparr>spanCount := spanCount mm + cnt, spanSize := spanSize mm + sz\<rparr>) m)"

definition UpdateLogMeterMetrics ::
  "(vmap \<Rightarrow> u8 list) \<Rightarrow> vmap \<Rightarrow> i64 \<Rightarrow> i64 \<Rightarrow> meter_map \<Rightarrow> meter_map" where
  "UpdateLogMeterMetrics MapHash attrs cnt sz m =
     (let key = MapHash attrs; mm = lookup_metric key attrs m
      in AList.update key (mm\<lparr>logCount := logCount mm + cnt, logSize := logSize mm + sz\<rparr>) m)"

section \<open>The connector\<close>

record connector_env = meter_env +
  mapHash :: "vmap \<Rightarrow> u8 list"
  md5hex :: "string \<Rightarrow> string"
  freshUUID :: "nat \<Rightarrow> string"

record meter_connector =
  connector_id :: string
  mc_dimensions :: "string list"
  meterMetrics :: meter_map
  mc_started :: bool

definition newConnector :: "string \<Rightarrow> string list \<Rightarrow> meter_connector" where
  "newConnector uuid dims =
     \<lparr>connector_id = uuid, mc_dimensions = remdups dims, meterMetrics = [], mc_started = False\<rparr>"

definition buildDimensionsMapFromResourceAttributes ::
  "'e connector_env_scheme \<Rightarrow> string list \<Rightarrow> vmap \<Rightarrow> vmap" where
  "buildDimensionsMapFromResourceAttributes E dims resourceAttributes =
     fold (\<lambda>(k, v) m. if k \<in> set dims then AList.update k (VStr (asString E v)) m else m) resourceAttributes []"

definition aggregateMeterMetricsFromTraces ::
  "'e connector_env_scheme \<Rightarrow> otlp_traces \<Rightarrow> meter_connector \<Rightarrow> meter_connector" where
  "aggregateMeterMetricsFromTraces E td c =
     c\<lparr>meterMetrics := fold (\<lambda>rs.
        UpdateSpanMeterMetrics (mapHash E)
          (buildDimensionsMapFromResourceAttributes E (mc_dimensions c) (ors_resource rs))
          (traces_CountPerResource rs) (traces_SizePerResource E (md5hex E) (freshUUID E) rs)) td (meterMetrics c)\<rparr>"

definition aggregateMeterMetricsFromMetrics ::
  "'e connector_env_scheme \<Rightarrow> metrics \<Rightarrow> meter_connector \<Rightarrow> meter_connector" where
  "aggregateMeterMetricsFromMetrics E md c =
     c\<lparr>meterMetrics := fold (\<lambda>rm.
        UpdateMetricDataPointsMeterMetrics (mapHash E)
          (buildDimensionsMapFromResourceAttributes E (mc_dimensions c) (rm_resource rm))
          (metrics_CountPerResource rm) (metrics_SizePerResource rm)) md (meterMetrics c)\<rparr>"

definition aggregateMeterMetricsFromLogs ::
  "'e connector_env_scheme \<Rightarrow> logs \<Rightarrow> meter_connector \<Rightarrow> meter_connector" where
  "aggregateMeterMetricsFromLogs E ld c =
     c\<lparr>meterMetrics := fold (\<lambda>rl.
        UpdateLogMeterMetrics (mapHash E)
          (buildDimensionsMapFromResourceAttributes E (mc_dimensions c) (rl_resource rl))
          (logs_CountPerResource rl) (logs_SizePerResource E rl)) ld (meterMetrics c)\<rparr>"

section \<open>Export\<close>

definition delta_sum :: "string \<Rightarrow> string \<Rightarrow> u64 \<Rightarrow> i64 \<Rightarrow> vmap \<Rightarrow> metric" where
  "delta_sum name desc ts v attrs =
     \<lparr>m_name = name, m_description = desc, m_unit = [],
      m_body = MetricSum TemporalityDelta True
        [\<lparr>np_attrs = attrs, np_time = ts, np_flags = 0, np_value = NumberInt v\<rparr>]\<rparr>"

definition collectLogMeterMetrics :: "meter_metric \<Rightarrow> u64 \<Rightarrow> metric list" where
  "collectLogMeterMetrics mm ts =
     (if logCount mm = 0 then []
      else [delta_sum metricNameLogsCount metricDescLogsCount ts (logCount mm) (mm_attrs mm),
            delta_sum metricNameLogsSize metricDescLogsSize ts (logSize mm) (mm_attrs mm)])"

definition collectTraceMeterMetrics :: "meter_metric \<Rightarrow> u64 \<Rightarrow> metric list" where
  "collectTraceMeterMetrics mm ts =
     (if spanCount mm = 0 then []
      else [delta_sum metricNameSpansCount metricDescSpansCount ts (spanCount mm) (mm_attrs mm),
            delta_sum metricNameSpansSize metricDescSpansSize ts (spanSize mm) (mm_attrs mm)])"

definition collectMetricMeterMetrics :: "meter_metric \<Rightarrow> u64 \<Rightarrow> metric list" where
  "collectMetricMeterMetrics mm ts =
     (if metricDataPointCount mm = 0 then []
      else [delta_sum metricNameMetricsDataPointsCount metricDescMetricsDataPointsCount ts
              (metricDataPointCount mm) (mm_attrs mm),
            delta_sum metricNameMetricsDataPointsSize metricDescMetricsDataPointsSize ts
              (metricDataPointSize mm) (mm_attrs mm)])"

definition meter_buildMetrics :: "u64 \<Rightarrow> meter_connector \<Rightarrow> metrics" where
  "meter_buildMetrics ts c =
     map (\<lambda>(_, mm).
       \<lparr>rm_resource = [],
        rm_scopes =
          [\<lparr>sm_scopeName = ''signozmeterconnector'', sm_scopeVersion = [],
            sm_scopeAttrs = [(''connector_id'', VStr (connector_id c))], sm_schemaUrl = [],
            sm_metrics = collectLogMeterMetrics mm ts @ collectTraceMeterMetrics mm ts @ collectMetricMeterMetrics mm ts\<rparr>]\<rparr>)
       (meterMetrics c)"

text \<open>\<^verbatim>\<open>Metrics.DataPointCount\<close> of the library.\<close>

definition body_points :: "metric_body \<Rightarrow> nat" where
  "body_points b =
     (case b of MetricEmpty \<Rightarrow> 0 | MetricGauge dps \<Rightarrow> length dps | MetricSum _ _ dps \<Rightarrow> length dps
      | MetricHistogram _ dps \<Rightarrow> length dps | MetricExponentialHistogram _ dps \<Rightarrow> length dps
      | MetricSummary dps \<Rightarrow> length dps)"

definition DataPointCount :: "metrics \<Rightarrow> nat" where
  "DataPointCount md =
     sum_list (map (\<lambda>rm. sum_list (map (\<lambda>sm. sum_list (map (body_points \<circ> m_body) (sm_metrics sm))) (rm_scopes rm))) md)"

text \<open>What was handed to the next consumer, if anything. Its answer changes nothing in the connector.\<close>

definition meter_exportMetrics :: "u64 \<Rightarrow> meter_connector \<Rightarrow> metrics option \<times> meter_connector" where
  "meter_exportMetrics ts c =
     (let md = meter_buildMetrics ts c; c' = c\<lparr>meterMetrics := []\<rparr>
      in (if DataPointCount md = 0 then None else Some md, c'))"

section \<open>Runs\<close>

text \<open>
  The mutex makes each call a step. A tick is that of the goroutine which \<^verbatim>\<open>Start\<close> launches and
  \<^verbatim>\<open>Shutdown\<close> stops after a last export; each export has its time.
\<close>

datatype meter_event = MStart | MTraces otlp_traces | MMetrics metrics | MLogs logs | MTick u64 | MShutdown u64

definition meter_step ::
  "'e connector_env_scheme \<Rightarrow> meter_event \<Rightarrow> meter_connector \<Rightarrow> metrics option \<times> meter_connector" where
  "meter_step E ev c =
     (case ev of
        MStart \<Rightarrow> (None, c\<lparr>mc_started := True\<rparr>)
      | MTraces td \<Rightarrow> (None, aggregateMeterMetricsFromTraces E td c)
      | MMetrics md \<Rightarrow> (None, aggregateMeterMetricsFromMetrics E md c)
      | MLogs ld \<Rightarrow> (None, aggregateMeterMetricsFromLogs E ld c)
      | MTick ts \<Rightarrow> (if mc_started c then meter_exportMetrics ts c else (None, c))
      | MShutdown ts \<Rightarrow>
          (if mc_started c
           then (let (sent, c') = meter_exportMetrics ts c in (sent, c'\<lparr>mc_started := False\<rparr>))
           else (None, c)))"

text \<open>The payloads offered to the next consumer over a run, in order.\<close>

fun meter_run :: "'e connector_env_scheme \<Rightarrow> meter_event list \<Rightarrow> meter_connector \<Rightarrow> metrics list \<times> meter_connector" where
  "meter_run E [] c = ([], c)"
| "meter_run E (ev # evs) c =
     (let (sent, c1) = meter_step E ev c; (rest, c2) = meter_run E evs c1
      in (case sent of None \<Rightarrow> rest | Some md \<Rightarrow> md # rest, c2))"

end
