(* ===== verification/MeterTheorems.thy ===== *)
theory MeterTheorems
  imports MeterConnector
begin

text \<open>
  What the meter connector guarantees: nothing that it consumed is lost between two exports or counted
  twice, for every set of dimensions; the size of a span is the length of a JSON object; internal
  attributes of the workspace cost nothing; flattening keeps every leaf.
\<close>

section \<open>Volumes\<close>

text \<open>The three signals, and the two counters of each.\<close>

datatype signal = Spans | Points | Records

datatype volume = CountOf signal | SizeOf signal

fun volume_name :: "volume \<Rightarrow> string" where
  "volume_name (CountOf Spans) = metricNameSpansCount"
| "volume_name (SizeOf Spans) = metricNameSpansSize"
| "volume_name (CountOf Points) = metricNameMetricsDataPointsCount"
| "volume_name (SizeOf Points) = metricNameMetricsDataPointsSize"
| "volume_name (CountOf Records) = metricNameLogsCount"
| "volume_name (SizeOf Records) = metricNameLogsSize"

fun counter :: "volume \<Rightarrow> meter_metric \<Rightarrow> i64" where
  "counter (CountOf Spans) mm = spanCount mm"
| "counter (SizeOf Spans) mm = spanSize mm"
| "counter (CountOf Points) mm = metricDataPointCount mm"
| "counter (SizeOf Points) mm = metricDataPointSize mm"
| "counter (CountOf Records) mm = logCount mm"
| "counter (SizeOf Records) mm = logSize mm"

text \<open>What one resource adds: the signal, the dimensions, the number of items and their size.\<close>

type_synonym contribution = "signal \<times> vmap \<times> nat \<times> i64"

fun volume_of :: "volume \<Rightarrow> contribution \<Rightarrow> i64" where
  "volume_of (CountOf s) (s', _, n, sz) = (if s = s' then of_nat n else 0)"
| "volume_of (SizeOf s) (s', _, n, sz) = (if s = s' then sz else 0)"

definition span_total :: "otlp_resource_spans \<Rightarrow> nat" where
  "span_total rs = sum_list (map (length \<circ> oss_spans) (ors_scopes rs))"

definition record_total :: "resource_logs \<Rightarrow> nat" where
  "record_total rl = sum_list (map (length \<circ> sl_records) (rl_scopes rl))"

definition sample_total :: "resource_metrics \<Rightarrow> nat" where
  "sample_total rm = sum_list (map (\<lambda>sm. sum_list (map metric_samples (sm_metrics sm))) (rm_scopes rm))"

fun contributions :: "'e connector_env_scheme \<Rightarrow> string list \<Rightarrow> meter_event \<Rightarrow> contribution list" where
  "contributions E dims (MTraces td) =
     map (\<lambda>rs. (Spans, buildDimensionsMapFromResourceAttributes E dims (ors_resource rs),
                span_total rs, traces_SizePerResource E (md5hex E) (freshUUID E) rs)) td"
| "contributions E dims (MMetrics md) =
     map (\<lambda>rm. (Points, buildDimensionsMapFromResourceAttributes E dims (rm_resource rm),
                sample_total rm, metrics_SizePerResource rm)) md"
| "contributions E dims (MLogs ld) =
     map (\<lambda>rl. (Records, buildDimensionsMapFromResourceAttributes E dims (rl_resource rl),
                record_total rl, logs_SizePerResource E rl)) ld"
| "contributions E dims _ = []"

text \<open>Totals over the dimensions in \<open>Q\<close>: consumed, held in memory, and offered to the consumer.\<close>

definition consumed :: "volume \<Rightarrow> (string \<rightharpoonup> any) set \<Rightarrow> contribution list \<Rightarrow> i64" where
  "consumed k Q xs = sum_list (map (\<lambda>x. if map_of (fst (snd x)) \<in> Q then volume_of k x else 0) xs)"

definition held :: "volume \<Rightarrow> (string \<rightharpoonup> any) set \<Rightarrow> meter_map \<Rightarrow> i64" where
  "held k Q m = sum_list (map ((\<lambda>mm. if map_of (mm_attrs mm) \<in> Q then counter k mm else 0) \<circ> snd) m)"

definition point_value :: "number_value \<Rightarrow> i64" where
  "point_value v = (case v of NumberInt i \<Rightarrow> i | _ \<Rightarrow> 0)"

definition metric_total :: "volume \<Rightarrow> (string \<rightharpoonup> any) set \<Rightarrow> metric \<Rightarrow> i64" where
  "metric_total k Q m =
     (if m_name m = volume_name k
      then (case m_body m of
              MetricSum _ _ dps \<Rightarrow>
                sum_list (map (\<lambda>dp. if map_of (np_attrs dp) \<in> Q then point_value (np_value dp) else 0) dps)
            | _ \<Rightarrow> 0)
      else 0)"

definition offered :: "volume \<Rightarrow> (string \<rightharpoonup> any) set \<Rightarrow> metrics \<Rightarrow> i64" where
  "offered k Q md =
     sum_list (map (\<lambda>rm. sum_list (map (\<lambda>sm. sum_list (map (metric_total k Q) (sm_metrics sm))) (rm_scopes rm))) md)"

section \<open>One update\<close>

fun add_volume :: "signal \<Rightarrow> i64 \<Rightarrow> i64 \<Rightarrow> meter_metric \<Rightarrow> meter_metric" where
  "add_volume Spans n sz mm = mm\<lparr>spanCount := spanCount mm + n, spanSize := spanSize mm + sz\<rparr>"
| "add_volume Points n sz mm = mm\<lparr>metricDataPointCount := metricDataPointCount mm + n, metricDataPointSize := metricDataPointSize mm + sz\<rparr>"
| "add_volume Records n sz mm = mm\<lparr>logCount := logCount mm + n, logSize := logSize mm + sz\<rparr>"

definition contribute :: "(vmap \<Rightarrow> u8 list) \<Rightarrow> contribution \<Rightarrow> meter_map \<Rightarrow> meter_map" where
  "contribute H = (\<lambda>(s, attrs, n, sz) m.
     AList.update (H attrs) (add_volume s (of_nat n) sz (lookup_metric (H attrs) attrs m)) m)"

lemma update_contribute:
  "UpdateSpanMeterMetrics H attrs (of_nat n) sz = contribute H (Spans, attrs, n, sz)"
  "UpdateMetricDataPointsMeterMetrics H attrs (of_nat n) sz = contribute H (Points, attrs, n, sz)"
  "UpdateLogMeterMetrics H attrs (of_nat n) sz = contribute H (Records, attrs, n, sz)"
  by (simp_all add: fun_eq_iff UpdateSpanMeterMetrics_def UpdateMetricDataPointsMeterMetrics_def
      UpdateLogMeterMetrics_def contribute_def Let_def)

text \<open>A resource without items has no size.\<close>

definition sized :: "contribution \<Rightarrow> bool" where
  "sized x \<longleftrightarrow> (case x of (s, attrs, n, sz) \<Rightarrow> n = 0 \<longrightarrow> sz = 0)"

text \<open>
  What the connector needs of a meter: it counts items, and where there are none there is no size.
\<close>

locale resource_meter =
  fixes total_items :: "'r \<Rightarrow> nat" and CountPerResource :: "'r \<Rightarrow> i64" and SizePerResource :: "'r \<Rightarrow> i64"
  assumes count_items: "CountPerResource r = of_nat (total_items r)"
    and no_items_no_size: "total_items r = 0 \<Longrightarrow> SizePerResource r = 0"
begin

lemma sized_contribution: "sized (s, attrs, total_items r, SizePerResource r)"
  using no_items_no_size by (simp add: sized_def)

lemma spans_update: "UpdateSpanMeterMetrics H attrs (CountPerResource r) (SizePerResource r) =
    contribute H (Spans, attrs, total_items r, SizePerResource r)"
  and points_update: "UpdateMetricDataPointsMeterMetrics H attrs (CountPerResource r) (SizePerResource r) =
    contribute H (Points, attrs, total_items r, SizePerResource r)"
  and records_update: "UpdateLogMeterMetrics H attrs (CountPerResource r) (SizePerResource r) =
    contribute H (Records, attrs, total_items r, SizePerResource r)"
  by (simp_all add: count_items update_contribute)

end

lemma sum_list_zero: "(\<And>x. x \<in> set xs \<Longrightarrow> f x = 0) \<Longrightarrow> sum_list (map f xs) = (0 :: 'a::comm_monoid_add)"
  by (induction xs) auto

interpretation traces_meter: resource_meter span_total traces_CountPerResource "traces_SizePerResource E md5 uuids"
  for E :: "'e meter_env_scheme" and md5 uuids
proof
  show "traces_CountPerResource r = of_nat (span_total r)" for r
    by (simp add: traces_CountPerResource_def span_total_def of_nat_sum_list comp_def)
  show "span_total r = 0 \<Longrightarrow> traces_SizePerResource E md5 uuids r = 0" for r
    by (auto simp: span_total_def traces_SizePerResource_def Let_def intro!: sum_list_zero)
qed

interpretation metrics_meter: resource_meter sample_total metrics_CountPerResource metrics_SizePerResource
proof
  show "metrics_CountPerResource r = of_nat (sample_total r)" for r
    by (simp add: metrics_CountPerResource_def sample_total_def of_nat_sum_list comp_def)
qed (simp add: metrics_SizePerResource_def)

interpretation logs_meter: resource_meter record_total logs_CountPerResource "logs_SizePerResource E"
  for E :: "'e meter_env_scheme"
proof
  show "logs_CountPerResource r = of_nat (record_total r)" for r
    by (simp add: logs_CountPerResource_def record_total_def of_nat_sum_list comp_def)
  show "record_total r = 0 \<Longrightarrow> logs_SizePerResource E r = 0" for r
    by (auto simp: record_total_def logs_SizePerResource_def Let_def intro!: sum_list_zero)
qed

lemma step_contributes:
  "\<forall>ts. ev \<noteq> MTick ts \<and> ev \<noteq> MShutdown ts \<Longrightarrow>
   fst (meter_step E ev c) = None \<and>
   meterMetrics (snd (meter_step E ev c)) =
     fold (contribute (mapHash E)) (contributions E (mc_dimensions c) ev) (meterMetrics c)"
  by (cases ev)
    (simp_all add: meter_step_def aggregateMeterMetricsFromTraces_def aggregateMeterMetricsFromMetrics_def
      aggregateMeterMetricsFromLogs_def traces_meter.spans_update metrics_meter.points_update logs_meter.records_update
      fold_map comp_def)

lemma step_dimensions: "mc_dimensions (snd (meter_step E ev c)) = mc_dimensions c"
  by (cases ev)
    (simp_all add: meter_step_def aggregateMeterMetricsFromTraces_def aggregateMeterMetricsFromMetrics_def
      aggregateMeterMetricsFromLogs_def meter_exportMetrics_def Let_def)

lemma contributions_sized: "x \<in> set (contributions E dims ev) \<Longrightarrow> sized x"
  by (cases ev)
    (auto intro: traces_meter.sized_contribution metrics_meter.sized_contribution logs_meter.sized_contribution)

section \<open>The invariant of the map\<close>

text \<open>
  After \<open>N\<close> items: an entry stands under the hash of its dimensions, which were consumed, and its
  counts do not wrap around.
\<close>

definition counted :: "nat \<Rightarrow> i64 \<Rightarrow> i64 \<Rightarrow> bool" where
  "counted N cnt sz \<longleftrightarrow> (\<exists>n \<le> N. cnt = of_nat n \<and> (n = 0 \<longrightarrow> sz = 0))"

definition entry_ok :: "(vmap \<Rightarrow> u8 list) \<Rightarrow> vmap set \<Rightarrow> nat \<Rightarrow> u8 list \<times> meter_metric \<Rightarrow> bool" where
  "entry_ok H D N e \<longleftrightarrow> mm_attrs (snd e) \<in> D \<and> fst e = H (mm_attrs (snd e)) \<and>
     (\<forall>s. counted N (counter (CountOf s) (snd e)) (counter (SizeOf s) (snd e)))"

definition meter_inv :: "(vmap \<Rightarrow> u8 list) \<Rightarrow> vmap set \<Rightarrow> nat \<Rightarrow> meter_map \<Rightarrow> bool" where
  "meter_inv H D N m \<longleftrightarrow> (\<forall>e \<in> set m. entry_ok H D N e)"

lemma counted_mono: "counted N cnt sz \<Longrightarrow> N \<le> N' \<Longrightarrow> counted N' cnt sz"
  unfolding counted_def using order_trans by blast

lemma counted_add: "counted N cnt sz \<Longrightarrow> (n = 0 \<longrightarrow> z = 0) \<Longrightarrow> counted (N + n) (cnt + of_nat n) (sz + z)"
  unfolding counted_def by (metis add_cancel_right_right add_is_0 add_le_mono1 of_nat_add)

lemma meter_inv_mono: "meter_inv H D N m \<Longrightarrow> N \<le> N' \<Longrightarrow> meter_inv H D N' m"
  unfolding meter_inv_def entry_ok_def using counted_mono by blast

lemma counter_add_volume:
  "counter k (add_volume s (of_nat n) sz mm) = counter k mm + volume_of k (s, attrs, n, sz)"
  by (cases k; rename_tac s'; case_tac s'; cases s) simp_all

lemma mm_attrs_add_volume [simp]: "mm_attrs (add_volume s n sz mm) = mm_attrs mm"
  by (cases s) simp_all

lemma counter_new [simp]: "counter k (new_meter_metric attrs) = 0"
  by (cases k; rename_tac s; case_tac s) (simp_all add: new_meter_metric_def)

lemma mm_attrs_new [simp]: "mm_attrs (new_meter_metric attrs) = attrs"
  by (simp add: new_meter_metric_def)

lemma entry_lookup:
  assumes "meter_inv H D N m" and "attrs \<in> D"
  shows "entry_ok H D N (H attrs, lookup_metric (H attrs) attrs m)"
proof (cases "map_of m (H attrs)")
  case None
  then show ?thesis using assms(2) by (auto simp: lookup_metric_def entry_ok_def counted_def intro: exI [of _ 0])
next
  case (Some mm)
  then have "(H attrs, mm) \<in> set m" by (rule map_of_SomeD)
  then show ?thesis using assms(1) Some by (simp add: meter_inv_def lookup_metric_def)
qed

lemma set_alist_update: "set (AList.update k v al) \<subseteq> insert (k, v) (set al)"
  by (induction al) auto

lemma contribute_inv:
  assumes "meter_inv H D N m" and "attrs \<in> D" and "sized (s, attrs, n, sz)"
  shows "meter_inv H D (N + n) (contribute H (s, attrs, n, sz) m)"
proof -
  let ?mm = "add_volume s (of_nat n) sz (lookup_metric (H attrs) attrs m)"
  have "entry_ok H D N (H attrs, lookup_metric (H attrs) attrs m)" by (rule entry_lookup [OF assms(1,2)])
  then have "entry_ok H D (N + n) (H attrs, ?mm)"
    using assms(3) counted_add counted_mono [of N _ _ "N + n"]
    by (auto simp: entry_ok_def counter_add_volume [where attrs = attrs] sized_def)
  moreover have "entry_ok H D (N + n) e" if "e \<in> set m" for e
    using assms(1) that meter_inv_mono [of H D N m "N + n"] by (simp add: meter_inv_def)
  moreover have "set (AList.update (H attrs) ?mm m) \<subseteq> insert (H attrs, ?mm) (set m)"
    by (rule set_alist_update)
  ultimately show ?thesis unfolding meter_inv_def contribute_def by auto
qed

text \<open>The hash does not mix the dimensions in \<open>Q\<close> with others.\<close>

definition hash_separates :: "(vmap \<Rightarrow> u8 list) \<Rightarrow> vmap set \<Rightarrow> (string \<rightharpoonup> any) set \<Rightarrow> bool" where
  "hash_separates H D Q \<longleftrightarrow> (\<forall>a \<in> D. \<forall>b \<in> D. H a = H b \<longrightarrow> (map_of a \<in> Q \<longleftrightarrow> map_of b \<in> Q))"

lemma contribute_held:
  assumes "meter_inv H D N m" and "fst (snd x) \<in> D" and "hash_separates H D Q"
  shows "held k Q (contribute H x m) = held k Q m + (if map_of (fst (snd x)) \<in> Q then volume_of k x else 0)"
proof -
  obtain s attrs n sz where x: "x = (s, attrs, n, sz)" by (cases x) auto
  have "entry_ok H D N (H attrs, lookup_metric (H attrs) attrs m)"
    using entry_lookup assms(1,2) x by simp
  then have mm: "mm_attrs (lookup_metric (H attrs) attrs m) \<in> D"
      "H attrs = H (mm_attrs (lookup_metric (H attrs) attrs m))"
    unfolding entry_ok_def fst_conv snd_conv by blast+
  have Q: "map_of (mm_attrs (lookup_metric (H attrs) attrs m)) \<in> Q \<longleftrightarrow> map_of attrs \<in> Q"
    using assms(2,3) mm unfolding hash_separates_def x fst_conv snd_conv by metis
  show ?thesis
  proof (cases "map_of m (H attrs)")
    case None
    then show ?thesis
      by (simp add: x held_def contribute_def sum_list_update_alist counter_add_volume [where attrs = attrs]
          lookup_metric_def)
  next
    case (Some w)
    then have "map_of (mm_attrs w) \<in> Q \<longleftrightarrow> map_of attrs \<in> Q" using Q by (simp add: lookup_metric_def)
    with Some show ?thesis
      by (simp add: x held_def contribute_def sum_list_update_alist counter_add_volume [where attrs = attrs]
          lookup_metric_def)
  qed
qed

lemma fold_contribute:
  assumes "hash_separates H D Q"
  shows "meter_inv H D N m \<Longrightarrow> \<forall>x \<in> set xs. sized x \<and> fst (snd x) \<in> D \<Longrightarrow>
    meter_inv H D (N + sum_list (map (fst \<circ> snd \<circ> snd) xs)) (fold (contribute H) xs m) \<and>
    held k Q (fold (contribute H) xs m) = held k Q m + consumed k Q xs"
proof (induction xs arbitrary: m N)
  case (Cons x xs)
  obtain s attrs n sz where x: "x = (s, attrs, n, sz)" by (cases x) auto
  have i: "meter_inv H D (N + n) (contribute H x m)"
    using contribute_inv [OF Cons.prems(1), of attrs s n sz] Cons.prems(2) by (simp add: x)
  have "held k Q (contribute H x m) = held k Q m + (if map_of attrs \<in> Q then volume_of k x else 0)"
    using contribute_held [OF Cons.prems(1) _ assms, of x k] Cons.prems(2) by (simp add: x)
  then show ?case using Cons.IH [OF i] Cons.prems(2) by (simp add: x consumed_def add.assoc)
qed (simp add: consumed_def)

section \<open>One export\<close>

lemmas meter_names = metricNameSpansCount_def metricNameSpansSize_def metricNameMetricsDataPointsCount_def
  metricNameMetricsDataPointsSize_def metricNameLogsCount_def metricNameLogsSize_def

lemmas meter_collect = collectLogMeterMetrics_def collectTraceMeterMetrics_def collectMetricMeterMetrics_def

lemma metric_total_delta:
  "metric_total k Q (delta_sum (volume_name k') desc ts v attrs) = (if k = k' \<and> map_of attrs \<in> Q then v else 0)"
proof -
  have "volume_name k' = volume_name k \<longleftrightarrow> k = k'"
    by (cases k; cases k'; rename_tac s s'; case_tac s; case_tac s') (simp_all add: meter_names)
  then show ?thesis by (simp add: metric_total_def delta_sum_def point_value_def)
qed

lemma collected_total:
  assumes "\<And>s. counter (CountOf s) mm = 0 \<Longrightarrow> counter (SizeOf s) mm = 0"
  shows "sum_list (map (metric_total k Q)
      (collectLogMeterMetrics mm ts @ collectTraceMeterMetrics mm ts @ collectMetricMeterMetrics mm ts)) =
    (if map_of (mm_attrs mm) \<in> Q then counter k mm else 0)"
proof -
  note d = metric_total_delta [of k Q "CountOf Spans"] metric_total_delta [of k Q "SizeOf Spans"]
    metric_total_delta [of k Q "CountOf Points"] metric_total_delta [of k Q "SizeOf Points"]
    metric_total_delta [of k Q "CountOf Records"] metric_total_delta [of k Q "SizeOf Records"]
  note z = assms [of Spans] assms [of Points] assms [of Records]
  show ?thesis
  proof (cases k)
    case (CountOf s)
    then show ?thesis using d by (cases s) (simp_all add: meter_collect)
  next
    case (SizeOf s)
    then show ?thesis using d z by (cases s) (simp_all add: meter_collect)
  qed
qed

lemma counted_zero: "counted N cnt sz \<Longrightarrow> N < 2 ^ 64 \<Longrightarrow> cnt = 0 \<Longrightarrow> sz = 0"
proof -
  assume "counted N cnt sz" "N < 2 ^ 64" "cnt = 0"
  then obtain n where n: "n \<le> N" "(of_nat n :: i64) = 0" "n = 0 \<longrightarrow> sz = 0" unfolding counted_def by auto
  have "n < 2 ^ 64" using n(1) \<open>N < 2 ^ 64\<close> by simp
  then have "unat (of_nat n :: i64) = n" by (simp add: unat_of_nat take_bit_nat_eq_self)
  then have "n = 0" using n(2) by simp
  then show "sz = 0" using n(3) by simp
qed

lemma offered_held:
  assumes "meter_inv H D N (meterMetrics c)" and "N < 2 ^ 64"
  shows "offered k Q (meter_buildMetrics ts c) = held k Q (meterMetrics c)"
proof -
  have "sum_list (map (metric_total k Q) (collectLogMeterMetrics mm ts @ collectTraceMeterMetrics mm ts @
      collectMetricMeterMetrics mm ts)) = (if map_of (mm_attrs mm) \<in> Q then counter k mm else 0)"
    if "(h, mm) \<in> set (meterMetrics c)" for h mm
  proof (rule collected_total)
    have "entry_ok H D N (h, mm)" using assms(1) that unfolding meter_inv_def by blast
    then show "counter (CountOf s) mm = 0 \<Longrightarrow> counter (SizeOf s) mm = 0" for s
      using counted_zero [OF _ assms(2)] unfolding entry_ok_def snd_conv by blast
  qed
  then show ?thesis
    unfolding offered_def held_def meter_buildMetrics_def map_map
    by (intro arg_cong [where f = sum_list] map_cong) auto
qed

lemma offered_none:
  assumes "DataPointCount (meter_buildMetrics ts c) = 0"
  shows "offered k Q (meter_buildMetrics ts c) = 0"
proof -
  have "sm_metrics sm = []" if "rm \<in> set (meter_buildMetrics ts c)" "sm \<in> set (rm_scopes rm)" for rm sm
  proof -
    have b: "body_points (m_body m) = 1" if "m \<in> set (sm_metrics sm)" for m
      using that \<open>rm \<in> _\<close> \<open>sm \<in> _\<close>
      by (auto simp: meter_buildMetrics_def meter_collect delta_sum_def body_points_def split: if_splits)
    have "sum_list (map (body_points \<circ> m_body) (sm_metrics sm)) = 0"
      using assms that by (simp add: DataPointCount_def)
    then show ?thesis using b by (cases "sm_metrics sm") auto
  qed
  then show ?thesis by (auto simp: offered_def intro!: sum_list_zero)
qed

lemma export_offers:
  assumes "meter_inv H D N (meterMetrics c)" and "N < 2 ^ 64"
  shows "(case fst (meter_exportMetrics ts c) of None \<Rightarrow> 0 | Some md \<Rightarrow> offered k Q md) = held k Q (meterMetrics c)"
    and "meterMetrics (snd (meter_exportMetrics ts c)) = []"
  using offered_held [OF assms, of k Q ts] offered_none [of ts c k Q]
  by (simp_all add: meter_exportMetrics_def Let_def)

section \<open>Runs\<close>

definition run_contributions :: "'e connector_env_scheme \<Rightarrow> string list \<Rightarrow> meter_event list \<Rightarrow> contribution list" where
  "run_contributions E dims evs = concat (map (contributions E dims) evs)"

definition items :: "contribution list \<Rightarrow> nat" where
  "items xs = sum_list (map (fst \<circ> snd \<circ> snd) xs)"

lemma consumed_append: "consumed k Q (xs @ ys) = consumed k Q xs + consumed k Q ys"
  by (simp add: consumed_def)

lemma items_append: "items (xs @ ys) = items xs + items ys"
  by (simp add: items_def)

lemma held_Nil [simp]: "held k Q [] = 0" "meter_inv H D N []"
  by (simp_all add: held_def meter_inv_def)

lemma step_conserves:
  assumes inv: "meter_inv (mapHash E) D N (meterMetrics c)"
    and D: "\<forall>x \<in> set (contributions E (mc_dimensions c) ev). fst (snd x) \<in> D"
    and N: "N + items (contributions E (mc_dimensions c) ev) < 2 ^ 64"
    and sep: "hash_separates (mapHash E) D Q"
  defines "c1 \<equiv> snd (meter_step E ev c)"
  shows "meter_inv (mapHash E) D (N + items (contributions E (mc_dimensions c) ev)) (meterMetrics c1) \<and>
    (case fst (meter_step E ev c) of None \<Rightarrow> 0 | Some md \<Rightarrow> offered k Q md) + held k Q (meterMetrics c1) =
      held k Q (meterMetrics c) + consumed k Q (contributions E (mc_dimensions c) ev)"
proof (cases "\<exists>ts. ev = MTick ts \<or> ev = MShutdown ts")
  case True
  then obtain ts where ts: "ev = MTick ts \<or> ev = MShutdown ts" by blast
  then have "contributions E (mc_dimensions c) ev = []" by auto
  moreover have "fst (meter_step E ev c) = (if mc_started c then fst (meter_exportMetrics ts c) else None)"
    "meterMetrics c1 = (if mc_started c then meterMetrics (snd (meter_exportMetrics ts c)) else meterMetrics c)"
    using ts by (auto simp: c1_def meter_step_def Let_def split: prod.split)
  ultimately show ?thesis
    using export_offers(1) [OF inv, where ts = ts and k = k and Q = Q] export_offers(2) [OF inv, of ts] N inv by (simp add: items_def consumed_def)
next
  case False
  then have e: "\<forall>ts. ev \<noteq> MTick ts \<and> ev \<noteq> MShutdown ts" by blast
  have "\<forall>x \<in> set (contributions E (mc_dimensions c) ev). sized x \<and> fst (snd x) \<in> D"
    using D contributions_sized by blast
  then show ?thesis
    using fold_contribute [OF sep inv] step_contributes [OF e, of E c] by (simp add: c1_def items_def)
qed

lemma run_conserves:
  assumes "hash_separates (mapHash E) D Q"
  shows "meter_inv (mapHash E) D N (meterMetrics c) \<Longrightarrow>
    \<forall>x \<in> set (run_contributions E (mc_dimensions c) evs). fst (snd x) \<in> D \<Longrightarrow>
    N + items (run_contributions E (mc_dimensions c) evs) < 2 ^ 64 \<Longrightarrow>
    meter_run E evs c = (sent, c') \<Longrightarrow>
    sum_list (map (offered k Q) sent) + held k Q (meterMetrics c') =
      held k Q (meterMetrics c) + consumed k Q (run_contributions E (mc_dimensions c) evs)"
proof (induction evs arbitrary: c N sent c')
  case Nil
  then show ?case by (simp add: run_contributions_def consumed_def)
next
  case (Cons ev evs)
  obtain o1 c1 where s: "meter_step E ev c = (o1, c1)" by force
  obtain rest c2 where r: "meter_run E evs c1 = (rest, c2)" by force
  let ?xs = "contributions E (mc_dimensions c) ev"
  have d: "mc_dimensions c1 = mc_dimensions c" using step_dimensions [of E ev c] s by simp
  have rc: "run_contributions E (mc_dimensions c) (ev # evs) = ?xs @ run_contributions E (mc_dimensions c1) evs"
    by (simp add: run_contributions_def d)
  have st: "meter_inv (mapHash E) D (N + items ?xs) (meterMetrics c1)"
    "(case o1 of None \<Rightarrow> 0 | Some md \<Rightarrow> offered k Q md) + held k Q (meterMetrics c1) =
      held k Q (meterMetrics c) + consumed k Q ?xs"
    using step_conserves [OF Cons.prems(1) _ _ assms, of ev k] Cons.prems(2,3) s
    by (simp_all add: rc items_append)
  have "sum_list (map (offered k Q) rest) + held k Q (meterMetrics c2) =
      held k Q (meterMetrics c1) + consumed k Q (run_contributions E (mc_dimensions c1) evs)"
    by (rule Cons.IH [OF st(1) _ _ r]) (use Cons.prems(2,3) in \<open>simp_all add: rc items_append add.assoc\<close>)
  moreover have "sent = (case o1 of None \<Rightarrow> rest | Some md \<Rightarrow> md # rest)" "c' = c2"
    using Cons.prems(4) by (simp_all add: s r)
  ultimately show ?case using st(2) by (cases o1) (simp_all add: rc consumed_append algebra_simps)
qed

lemma contributions_remdups [simp]: "contributions E (remdups dims) = contributions E dims"
  by (rule ext, rename_tac ev, case_tac ev) (simp_all add: buildDimensionsMapFromResourceAttributes_def)

text \<open>C10: Between any two exports nothing is lost and nothing is counted twice: over a run of starts, payloads,
  ticks and shutdowns, what was offered to the next consumer and what is still held add up to what was
  consumed, for each of the six counters and for every set \<open>Q\<close> of dimension maps that the hash
  does not mix with others (all of them together among these, whatever the hash).\<close>

theorem meter_conserves_volume:
  assumes "items (run_contributions E dims evs) < 2 ^ 64"
    and "hash_separates (mapHash E) ((fst \<circ> snd) ` set (run_contributions E dims evs)) Q"
    and "meter_run E evs (newConnector uuid dims) = (sent, c)"
  shows "sum_list (map (offered k Q) sent) + held k Q (meterMetrics c) =
    consumed k Q (run_contributions E dims evs)"
proof -
  have d: "run_contributions E (mc_dimensions (newConnector uuid dims)) evs = run_contributions E dims evs"
      "meterMetrics (newConnector uuid dims) = []"
    by (simp_all add: newConnector_def run_contributions_def)
  show ?thesis
    using run_conserves [OF assms(2), of 0 "newConnector uuid dims" evs sent c k] assms(1,3) by (simp add: d)
qed

definition sample_meter_env :: connector_env where
  "sample_meter_env =
     \<lparr>sprintv = (\<lambda>v. []), floatOfInt = (\<lambda>i. 0), asString = (\<lambda>v. case v of VStr s \<Rightarrow> s | _ \<Rightarrow> []), kindString = (\<lambda>k. ''k''),
      marshalAnyMap = (\<lambda>m. Some ''{}''), marshalStrMap = (\<lambda>m. Some ''{}''), marshalNumMap = (\<lambda>m. Some ''{}''),
      marshalBoolMap = (\<lambda>m. Some ''{}''), marshalStrings = (\<lambda>m. Some ''[]''), marshalString = (\<lambda>s. Some s),
      marshalEvent = (\<lambda>e. Some ''{}''), marshalRefs = (\<lambda>r. Some ''[]''),
      mapHash = (\<lambda>m. case map_of m ''service.name'' of Some (VStr s) \<Rightarrow> bytes_of s | _ \<Rightarrow> []),
      md5hex = (\<lambda>s. s), freshUUID = (\<lambda>n. [])\<rparr>"

definition sample_meter_logs :: "string \<Rightarrow> string \<Rightarrow> resource_logs" where
  "sample_meter_logs svc body =
     (new_resource [(''service.name'', VStr svc), (''x'', VStr ''y'')])
     \<lparr>rl_scopes := [(new_scope [])\<lparr>sl_records :=
        [\<lparr>lr_timestamp = 0, lr_observed = 0, lr_severityNumber = 0, lr_severityText = [], lr_attributes = [],
          lr_body = VStr body, lr_traceID = [], lr_spanID = [], lr_flags = 0,
          lr_eventName = [], lr_droppedAttributes = 0\<rparr>]\<rparr>]\<rparr>"

definition sample_meter_events :: "meter_event list" where
  "sample_meter_events =
     [MStart, MLogs [sample_meter_logs ''a'' ''xyz'', sample_meter_logs ''b'' ''x''], MTick 5,
      MLogs [sample_meter_logs ''a'' ''q'']]"

lemma sample_contributions:
  "run_contributions sample_meter_env [''service.name''] sample_meter_events =
     [(Records, [(''service.name'', VStr ''a'')], 1, 7), (Records, [(''service.name'', VStr ''b'')], 1, 5),
      (Records, [(''service.name'', VStr ''a'')], 1, 5)]"
  by (simp add: run_contributions_def sample_meter_events_def sample_meter_logs_def sample_meter_env_def
      buildDimensionsMapFromResourceAttributes_def record_total_def logs_SizePerResource_def Let_def
      SizeOfMapStringAny_def json_size_def)

theorem meter_conserves_volume_witness:
  "let (sent, c) = meter_run sample_meter_env sample_meter_events (newConnector ''id'' [''service.name''])
   in sum_list (map (offered (SizeOf Records) {[''service.name'' \<mapsto> VStr ''a'']}) sent) +
      held (SizeOf Records) {[''service.name'' \<mapsto> VStr ''a'']} (meterMetrics c) = 12"
proof -
  obtain sent c where r: "meter_run sample_meter_env sample_meter_events (newConnector ''id'' [''service.name'']) = (sent, c)"
    by force
  have sep: "hash_separates (mapHash sample_meter_env)
      ((fst \<circ> snd) ` set (run_contributions sample_meter_env [''service.name''] sample_meter_events))
      {[''service.name'' \<mapsto> VStr ''a'']}"
    unfolding sample_contributions by (simp add: hash_separates_def sample_meter_env_def bytes_of_def fun_eq_iff)
  have "map_of [(''service.name'', VStr ''b'')] \<noteq> [''service.name'' \<mapsto> VStr ''a'']"
    by (auto simp: fun_eq_iff)
  then show ?thesis
    using meter_conserves_volume [OF _ sep r, of "SizeOf Records"] r
    by (simp add: sample_contributions items_def consumed_def)
qed

section \<open>The size of a span\<close>

text \<open>
  The JSON object a span is billed as: its fields in the order of the code, with those left out that
  have no value, strings as they are and the references as a string of escaped JSON.
\<close>

definition quoted :: "string \<Rightarrow> string" where
  "quoted s = CHR 0x22 # s @ [CHR 0x22]"

definition escaped :: "string \<Rightarrow> string" where
  "escaped s = concat (map (\<lambda>c. if c = CHR 0x22 then [CHR 0x5C, c] else [c]) s)"

definition json_object :: "(string \<times> string) list \<Rightarrow> string" where
  "json_object fs = ''{'' @ join_str '','' (map (\<lambda>(k, v). quoted k @ '':'' @ v) fs) @ ''}''"

definition str_field :: "string \<Rightarrow> string \<Rightarrow> (string \<times> string) list" where
  "str_field k s = (if s = [] then [] else [(k, quoted s)])"

definition json_field :: "string \<Rightarrow> string option \<Rightarrow> (string \<times> string) list" where
  "json_field k r = (case r of None \<Rightarrow> [] | Some t \<Rightarrow> if length t \<le> 2 then [] else [(k, t)])"

definition span_object ::
  "'e meter_env_scheme \<Rightarrow> (string \<Rightarrow> string) \<Rightarrow> (nat \<Rightarrow> string) \<Rightarrow> string option \<Rightarrow> string \<Rightarrow> otlp_span \<Rightarrow>
     (string \<times> string) list" where
  "span_object E md5 uuids resources serviceName span =
     (let (n, s, b) = fold (split_attr E) (os_attrs span) ([], [], [])
      in json_field ''resources_string'' resources @
         [(''startTimeUnixNano'', format_int (sint (os_start span)))] @
         str_field ''spanId'' (SpanIDToHexOrEmptyString (os_spanID span)) @
         str_field ''traceId'' (TraceIDToHexOrEmptyString (os_traceID span)) @
         str_field ''traceState'' (os_traceState span) @
         str_field ''parentSpanId'' (SpanIDToHexOrEmptyString (os_parentSpanID span)) @
         (if os_flags span = 0 then [] else [(''flags'', format_int (uint (os_flags span)))]) @
         str_field ''name'' (os_name span) @
         [(''kind'', format_int (sint (os_kind span)))] @
         str_field ''spanKind'' (kindString E (os_kind span)) @
         json_field ''attributes_string'' (marshalStrMap E s) @
         json_field ''attributes_bool'' (marshalBoolMap E b) @
         json_field ''attributes_number'' (marshalNumMap E n) @
         (case marshalString E serviceName of None \<Rightarrow> [] | Some t \<Rightarrow> if t = [] then [] else [(''serviceName'', t)]) @
         json_field ''event'' (marshalStrings E (fst (NewEventsAndErrorEvents E md5 uuids (os_events span) serviceName False))) @
         (case NewOtelSpanRefs (os_links span) (os_parentSpanID span) (os_traceID span) of
            None \<Rightarrow> []
          | Some refs \<Rightarrow>
              (case marshalRefs E refs of
                 None \<Rightarrow> []
               | Some t \<Rightarrow> if length (escaped t) \<le> 2 then [] else [(''references'', quoted (escaped t))])))"

definition fields_cost :: "(string \<times> string) list \<Rightarrow> nat" where
  "fields_cost fs = sum_list (map (\<lambda>(k, v). KeySizes k + length v + 2) fs)"

lemma fields_cost_simps [simp]:
  "fields_cost [] = 0" "fields_cost ((k, v) # fs) = KeySizes k + length v + 2 + fields_cost fs"
  "fields_cost (fs @ gs) = fields_cost fs + fields_cost gs"
  by (simp_all add: fields_cost_def)

lemma length_join_fields:
  "fs \<noteq> [] \<Longrightarrow> length (join_str '','' (map (\<lambda>(k, v). quoted k @ '':'' @ v) fs)) + 1 = fields_cost fs"
proof (induction fs)
  case (Cons f fs)
  obtain k v where f: "f = (k, v)" by force
  show ?case
  proof (cases fs)
    case Nil
    then show ?thesis by (simp add: f quoted_def KeySizes_def)
  next
    case (Cons g gs)
    then show ?thesis using Cons.IH by (simp add: f quoted_def KeySizes_def)
  qed
qed simp

lemma length_json_object: "fs \<noteq> [] \<Longrightarrow> length (json_object fs) = 2 + fields_cost fs - 1"
  using length_join_fields [of fs] by (simp add: json_object_def)

lemma length_hex: "length (hex_encode bs) = 2 * length bs"
  by (induction bs) (simp_all add: hex_encode_def)

lemma length_escaped: "length (escaped t) = length t + count_list t CHR 0x22"
  by (induction t) (simp_all add: escaped_def)

lemma str_field_cost: "fields_cost (str_field k s) = TotalSizeIfKeyExists (KeySizes k) (length s) 4"
  by (simp add: str_field_def TotalSizeIfKeyExists_def quoted_def)

lemma json_field_cost:
  "fields_cost (json_field k r) = TotalSizeIfKeyExistsAndValueIsMapOrSlice (KeySizes k) (json_size r) 2"
  by (simp add: json_field_def TotalSizeIfKeyExistsAndValueIsMapOrSlice_def json_size_def split: option.split)

lemma id_size:
  "length i = 8 \<Longrightarrow> SizeOfSpanID i = length (SpanIDToHexOrEmptyString i)"
  "length i = 16 \<Longrightarrow> SizeOfTraceID i = length (TraceIDToHexOrEmptyString i)"
  by (simp_all add: SizeOfSpanID_def SizeOfTraceID_def SpanIDToHexOrEmptyString_def TraceIDToHexOrEmptyString_def
      length_hex)

lemma span_size_is_json:
  assumes "length (os_traceID span) = 16" and "length (os_spanID span) = 8" and "length (os_parentSpanID span) = 8"
  shows "span_size E md5 uuids (json_size resources) serviceName span =
    length (json_object (span_object E md5 uuids resources serviceName span))"
proof -
  obtain n s b where nsb: "fold (split_attr E) (os_attrs span) ([], [], []) = (n, s, b)"
    by (cases "fold (split_attr E) (os_attrs span) ([], [], [])") auto
  have ne: "span_object E md5 uuids resources serviceName span \<noteq> []" by (simp add: span_object_def nsb)
  have i: "TotalSizeIfKeyExists k (SizeOfInt x) 2 = k + length (format_int x) + 2" for k x
    by (simp add: TotalSizeIfKeyExists_def SizeOfInt_def)
  have sv: "fields_cost (case marshalString E serviceName of None \<Rightarrow> [] | Some t \<Rightarrow> if t = [] then [] else [(k, t)]) =
      TotalSizeIfKeyExists (KeySizes k) (json_size (marshalString E serviceName)) 2" for k
    by (simp add: TotalSizeIfKeyExists_def json_size_def split: option.split)
  have rf: "fields_cost (case r of None \<Rightarrow> []
      | Some refs \<Rightarrow> (case marshalRefs E refs of None \<Rightarrow> []
          | Some t \<Rightarrow> if length (escaped t) \<le> 2 then [] else [(k, quoted (escaped t))])) =
      TotalSizeIfKeyExistsAndValueIsMapOrSlice (KeySizes k) (SizeOfOtelSpanRefs E r) 4" for k r
    by (simp add: TotalSizeIfKeyExistsAndValueIsMapOrSlice_def SizeOfOtelSpanRefs_def length_escaped quoted_def
        split: option.split)
  have "fields_cost (span_object E md5 uuids resources serviceName span) + 1 =
      span_size E md5 uuids (json_size resources) serviceName span"
    unfolding span_object_def nsb
    by (cases "os_flags span = 0")
      (simp_all add: span_size_def SizeOfFlatPcommonMapInNumberStringBool_def nsb Let_def SizeOfEvents_def
        str_field_cost json_field_cost id_size assms sv rf i TotalSizeIfKeyExists_def [of _ 0])
  then show ?thesis using length_json_object [OF ne] by simp
qed

text \<open>C32: The size of a span is the length of that object, byte for byte: with \<open>resources\<close> the JSON of the
  resource attributes, every key with its quotes, colon and comma.\<close>

theorem span_size_is_json_length:
  assumes "length (os_traceID span) = 16" and "length (os_spanID span) = 8" and "length (os_parentSpanID span) = 8"
  shows "span_size E md5 uuids (json_size resources) serviceName span =
    length (json_object (span_object E md5 uuids resources serviceName span))"
  using assms by (rule span_size_is_json)

definition sample_otlp_span :: otlp_span where
  "sample_otlp_span =
     \<lparr>os_traceID = replicate 16 1, os_spanID = replicate 8 2, os_parentSpanID = replicate 8 0, os_traceState = [],
      os_flags = 1, os_name = ''get'', os_kind = 2, os_start = 7, os_end = 9, os_statusCode = 0, os_statusMessage = [],
      os_attrs = [(''a'', VStr ''b'')], os_links = [], os_events = []\<rparr>"

theorem span_size_is_json_length_witness:
  "span_size sample_meter_env (md5hex sample_meter_env) (freshUUID sample_meter_env) (json_size (Some ''{..}'')) ''svc'' sample_otlp_span =
    length (json_object (span_object sample_meter_env (md5hex sample_meter_env) (freshUUID sample_meter_env)
      (Some ''{..}'') ''svc'' sample_otlp_span))"
  by (rule span_size_is_json_length) (simp_all add: sample_otlp_span_def)

section \<open>Attributes of the workspace\<close>

definition without_workspace :: "vmap \<Rightarrow> vmap" where
  "without_workspace m = filter (\<lambda>kv. \<not> ExcludeSigNozWorkspaceResourceAttrs (fst kv)) m"

lemma map_of_without_workspace:
  "\<not> ExcludeSigNozWorkspaceResourceAttrs k \<Longrightarrow> map_of (without_workspace m) k = map_of m k"
  by (induction m) (auto simp: without_workspace_def)

lemma fold_flat_strings: "fold (flat_strings E workspace) (without_workspace m) out = fold (flat_strings E workspace) m out"
  by (induction m arbitrary: out) (auto simp: without_workspace_def flat_strings_def workspace_def excluded_def)

lemma ServiceName_without_workspace: "ServiceName (without_workspace m) = ServiceName m"
proof -
  have "\<not> ExcludeSigNozWorkspaceResourceAttrs ''service.name''"
    by (simp add: ExcludeSigNozWorkspaceResourceAttrs_def has_prefix_def)
  then show ?thesis by (simp add: ServiceName_def map_of_without_workspace)
qed

text \<open>The internal attributes of the workspace cost nothing: removing them from a resource, and from the
  log records below it, changes no size and no count.\<close>

theorem workspace_attributes_cost_nothing:
  "logs_SizePerResource E
     (rl\<lparr>rl_resource := without_workspace (rl_resource rl),
         rl_scopes := map (\<lambda>sl. sl\<lparr>sl_records := map (\<lambda>lr. lr\<lparr>lr_attributes := without_workspace (lr_attributes lr)\<rparr>)
           (sl_records sl)\<rparr>) (rl_scopes rl)\<rparr>) = logs_SizePerResource E rl \<and>
   traces_SizePerResource E md5 uuids (rs\<lparr>ors_resource := without_workspace (ors_resource rs)\<rparr>) =
     traces_SizePerResource E md5 uuids rs"
  unfolding logs_SizePerResource_def traces_SizePerResource_def SizeOfMapStringAny_def
    SizeOfFlatPcommonMapInMapStringString_def Let_def
  by (simp add: fold_flat_strings ServiceName_without_workspace comp_def)
    (simp add: without_workspace_def workspace_def excluded_def)

section \<open>References of a span\<close>

text \<open>
  A parent span id is an array of eight bytes, so the test on its length always succeeds: a root span
  gets a reference to a parent without an id.
\<close>

lemma root_span_has_parent_reference:
  "NewOtelSpanRefs [] (replicate 8 0) t = Some [\<lparr>TraceId = TraceIDToHexOrEmptyString t, SpanId = [], RefType = ''CHILD_OF''\<rparr>]"
  by (simp add: NewOtelSpanRefs_def SpanIDToHexOrEmptyString_def is_zero_id_def list_all_iff)

section \<open>Flattening\<close>

text \<open>C33: Flattening keeps every leaf and adds none: when the keys of the maps have no dots, the flat map has
  under the dotted path of a scalar that scalar (integers as floats, other types printed), and
  every key of the flat map is the path of a scalar. Arrays count as maps from their indices.\<close>

theorem flatten_keeps_leaves:
  assumes "plain (VMap data)" and "prefix \<noteq> []"
  shows "map_of (FlattenJSON E data prefix) s = Some w \<longleftrightarrow>
    (\<exists>ks. list_all dotless ks \<and> s = path_key prefix ks \<and> leaf_at E (VMap data) ks = Some w)"
  using FlattenJSON_leaves [OF assms] by (simp add: flat_at_def)

theorem flatten_keeps_leaves_witness:
  "map_of (FlattenJSON sample_meter_env [(''a'', VMap [(''b'', VList [VBool True, VStr ''x''])])] ''p'') ''p.a.b.0'' =
     Some (VBool True)"
proof -
  have p: "plain (VMap [(''a'', VMap [(''b'', VList [VBool True, VStr ''x''])])])"
    by (simp add: plain_map plain_list plain.simps [of "VBool True"] plain.simps [of "VStr x" for x] dotless_def)
  show ?thesis
    unfolding flatten_keeps_leaves [OF p list.distinct(2)]
    by (intro exI [of _ "[''a'', ''b'', ''0'']"])
      (simp add: dotless_def path_key_def leaf_of_def parse_digits_def digits_val_def digit_val_def is_digit_def
        nat_digits.simps digit_char_def char_of_def bit_0)
qed

end
