(* ===== verification/Fingerprint.thy ===== *)
theory Fingerprint
  imports Otlp "HOL-Library.Char_ord" "HOL-Library.List_Lexorder"
begin

text \<open>
  Fingerprints of attributes: the hashes that identify resources, scopes and metric points and the
  JSON text of labels (\<^verbatim>\<open>internal/common/fingerprint\<close>), and the readable fingerprint of a resource
  along a hierarchy of dimensions (\<^verbatim>\<open>utils/fingerprint\<close>). Strings are compared bytewise, as
  \<^verbatim>\<open>sort.Strings\<close> does.
\<close>

section \<open>Hashing\<close>

definition InitialOffset :: u64 where
  "InitialOffset = 14695981039346656037"

definition prime64 :: u64 where
  "prime64 = 1099511628211"

definition separatorByte :: u8 where
  "separatorByte = 255"

definition hashAddByte :: "u64 \<Rightarrow> u8 \<Rightarrow> u64" where
  "hashAddByte h b = (h XOR ucast b) * prime64"

definition hashAdd :: "u64 \<Rightarrow> string \<Rightarrow> u64" where
  "hashAdd h s = foldl hashAddByte h (bytes_of s)"

section \<open>Fingerprints of attributes\<close>

datatype value_type = ValueTypeEmpty | ValueTypeStr | ValueTypeInt | ValueTypeDouble | ValueTypeBool
  | ValueTypeMap | ValueTypeSlice | ValueTypeBytes

text \<open>The type of an attribute, given by what \<^verbatim>\<open>AsRaw\<close> makes of it.\<close>

fun value_type_of :: "any \<Rightarrow> value_type" where
  "value_type_of (VStr s) = ValueTypeStr"
| "value_type_of (VInt k i) = ValueTypeInt"
| "value_type_of (VFloat f) = ValueTypeDouble"
| "value_type_of (VBool b) = ValueTypeBool"
| "value_type_of (VMap m) = ValueTypeMap"
| "value_type_of (VList vs) = ValueTypeSlice"
| "value_type_of (VBytes bs) = ValueTypeBytes"
| "value_type_of _ = ValueTypeEmpty"

record fp_value =
  DataType :: value_type
  Val :: string

type_synonym fp_attributes = "(string \<times> fp_value) list"

datatype fingerprint_type = ResourceFingerprintType | ScopeFingerprintType | PointFingerprintType

fun fingerprint_type_string :: "fingerprint_type \<Rightarrow> string" where
  "fingerprint_type_string ResourceFingerprintType = ''resource''"
| "fingerprint_type_string ScopeFingerprintType = ''scope''"
| "fingerprint_type_string PointFingerprintType = ''point''"

record fingerprint =
  fp_attributes :: fp_attributes
  fp_hash :: u64
  fp_typ :: fingerprint_type

definition NewAttributesFromPcommonMap :: "(any \<Rightarrow> string) \<Rightarrow> vmap \<Rightarrow> fp_attributes" where
  "NewAttributesFromPcommonMap asStr attrs =
     fold (\<lambda>(k, v). AList.update k \<lparr>DataType = value_type_of v, Val = asStr v\<rparr>) attrs []"

definition add_extras :: "(string \<times> string) list \<Rightarrow> fp_attributes \<Rightarrow> fp_attributes" where
  "add_extras extras attributes =
     fold (\<lambda>(k, v). AList.update k \<lparr>DataType = ValueTypeStr, Val = v\<rparr>) extras attributes"

definition val_of :: "fp_attributes \<Rightarrow> string \<Rightarrow> string" where
  "val_of attributes k = (case map_of attributes k of None \<Rightarrow> [] | Some v \<Rightarrow> Val v)"

text \<open>The loop over the sorted keys.\<close>

definition hash_attributes :: "u64 \<Rightarrow> fp_attributes \<Rightarrow> u64" where
  "hash_attributes offset attributes =
     foldl (\<lambda>h k. hashAddByte (hashAdd (hashAddByte (hashAdd h k) separatorByte) (val_of attributes k)) separatorByte)
       offset (sort (map fst attributes))"

definition NewFingerprint ::
  "(any \<Rightarrow> string) \<Rightarrow> fingerprint_type \<Rightarrow> u64 \<Rightarrow> vmap \<Rightarrow> (string \<times> string) list \<Rightarrow> fingerprint" where
  "NewFingerprint asStr typ offset attrs extras =
     (let attributes = add_extras extras (NewAttributesFromPcommonMap asStr attrs)
      in \<lparr>fp_attributes = attributes, fp_hash = hash_attributes offset attributes, fp_typ = typ\<rparr>)"

definition AttributesAsMap :: "fingerprint \<Rightarrow> (string \<times> string) list" where
  "AttributesAsMap f = map (\<lambda>(k, v). (k, Val v)) (fp_attributes f)"

definition HashWithName :: "fingerprint \<Rightarrow> string \<Rightarrow> u64" where
  "HashWithName f name = hashAdd (hashAddByte (hashAdd (fp_hash f) ''__name__'') separatorByte) name"

section \<open>Labels as JSON\<close>

definition escape_char :: "char \<Rightarrow> string" where
  "escape_char c =
     (if c = CHR 0x5C \<or> c = CHR 0x22 then [CHR 0x5C, c]
      else if c = CHR 0x0A then [CHR 0x5C, CHR ''n'']
      else if c = CHR 0x0D then [CHR 0x5C, CHR ''r'']
      else if c = CHR 0x09 then [CHR 0x5C, CHR ''t'']
      else [c])"

text \<open>The loop appends a comma after each label, and the last one becomes the closing brace.\<close>

definition marshal_label :: "string \<times> string \<Rightarrow> string" where
  "marshal_label = (\<lambda>(name, v).
     [CHR 0x22] @ name @ [CHR 0x22, CHR '':'', CHR 0x22] @ concat (map escape_char v) @ [CHR 0x22, CHR '','' ])"

definition marshalLabels :: "(string \<times> string) list \<Rightarrow> string" where
  "marshalLabels attrs =
     (if attrs = [] then ''{}''
      else (let b = ''{'' @ concat (map (\<lambda>k. marshal_label (k, case map_of attrs k of None \<Rightarrow> [] | Some v \<Rightarrow> v))
                        (sort (map fst attrs)))
            in b[length b - 1 := CHR 0x7D]))"

definition merge_labels :: "(string \<times> string) list list \<Rightarrow> (string \<times> string) list" where
  "merge_labels ms = fold (fold (\<lambda>(k, v). AList.update k v)) ms []"

definition NewLabelsAsJSONString :: "string \<Rightarrow> (string \<times> string) list list \<Rightarrow> string" where
  "NewLabelsAsJSONString name ms = marshalLabels (AList.update ''__name__'' name (merge_labels ms))"

section \<open>Fingerprints along a hierarchy\<close>

datatype hierarchy = Node (labels: "string list") (subHierachies: "hierarchy list")

definition id_here :: "string list \<Rightarrow> vmap \<Rightarrow> (string \<times> any) list" where
  "id_here ls attributes =
     (case find (\<lambda>l. map_of attributes l \<noteq> None) ls of
        None \<Rightarrow> []
      | Some l \<Rightarrow> [(l, the (map_of attributes l))])"

text \<open>The first list that is not empty, of the lists that a function gives.\<close>

fun first_nonempty :: "'a list list \<Rightarrow> 'a list" where
  "first_nonempty [] = []"
| "first_nonempty (r # rs) = (if r \<noteq> [] then r else first_nonempty rs)"

primrec Identifier :: "hierarchy \<Rightarrow> vmap \<Rightarrow> (string \<times> any) list" where
  "Identifier (Node ls subs) = (\<lambda>attributes.
     id_here ls attributes @ first_nonempty (map (\<lambda>f. f attributes) (map Identifier subs)))"

primrec Synonyms :: "hierarchy \<Rightarrow> string \<Rightarrow> string list" where
  "Synonyms (Node ls subs) = (\<lambda>attribute.
     if attribute \<in> set ls then ls else first_nonempty (map (\<lambda>f. f attribute) (map Synonyms subs)))"

definition node_view :: hierarchy where
  "node_view =
     Node [''cloud.availability_zone'']
      [Node [''k8s.node.name'', ''k8s.node.uid'', ''host.id'', ''host.name'', ''host.ip'', ''host'']
       [Node [''k8s.pod.name'', ''k8s.pod.uid'', ''aws.ecs.task.id'', ''aws.ecs.task.arn'']
        [Node [''k8s.container.name'', ''container.name''] []]]]"

definition service_view :: hierarchy where
  "service_view =
     Node [''service.namespace'', ''k8s.namespace.name'', ''ec2.tag.service-group'']
      [Node [''service.name'', ''cloudwatch.log.group.name'', ''k8s.deployment.name'', ''k8s.deployment.uid'',
             ''k8s.statefulset.name'', ''k8s.statefulset.uid'', ''k8s.daemonset.name'', ''k8s.daemonset.uid'',
             ''k8s.job.name'', ''k8s.job.uid'', ''k8s.cronjob.name'', ''k8s.cronjob.uid'', ''faas.name'', ''ec2.tag.service'']
       [Node [''deployment.environment'', ''ec2.tag.env-short'', ''ec2.tag.env'', ''env'']
        [Node [''service.instance.id'', ''k8s.pod.name'', ''k8s.pod.uid'', ''aws.ecs.task.id'', ''aws.ecs.task.arn'',
               ''cloudwatch.log.stream'', ''cloud.resource_id'', ''faas.instance'', ''host.id'', ''host.name'', ''host.ip'', ''host'']
         [Node [''k8s.container.name'', ''container.name'', ''container_name'']
          [Node [''component''] []]]]]]"

definition ResourceHierarchy :: hierarchy where
  "ResourceHierarchy =
     Node [''cloud.provider'']
      [Node [''cloud.account.id'']
       [Node [''gcp.project'']
        [Node [''cloud.region'', ''aws.region'']
         [Node [''cloud.platform'', ''source_type'']
          [Node [''k8s.cluster.name'', ''k8s.cluster.uid'', ''aws.ecs.cluster.arn'']
           [service_view, node_view]]]]]]"

text \<open>\<^verbatim>\<open>%v\<close> and \<^verbatim>\<open>%s\<close> of a value are arguments; the hash is printed in decimal.\<close>

definition FingerprintHash :: "(any \<Rightarrow> string) \<Rightarrow> vmap \<Rightarrow> u64" where
  "FingerprintHash sprint attribs =
     (if attribs = [] then InitialOffset
      else foldl (\<lambda>h k. hashAddByte (hashAdd (hashAddByte (hashAdd h k) separatorByte)
                    (sprint (case map_of attribs k of None \<Rightarrow> VNil | Some v \<Rightarrow> v))) separatorByte)
             InitialOffset (sort (map fst attribs)))"

definition CalculateFingerprint :: "(any \<Rightarrow> string) \<Rightarrow> (any \<Rightarrow> string) \<Rightarrow> vmap \<Rightarrow> hierarchy \<Rightarrow> string" where
  "CalculateFingerprint sprint sprints attributes h =
     join_str '';''
       (map (\<lambda>(l, v). l @ ''='' @ sprints v) (Identifier h attributes) @
        [''hash='' @ format_int (uint (FingerprintHash sprint attributes))])"

end
