(* ===== verification/FingerprintTheorems.thy ===== *)
theory FingerprintTheorems
  imports Fingerprint
begin

text \<open>
  Fingerprints do not depend on the order in which Go visits its maps; what is hashed determines the
  labels of a point below its scope, but not on which level an attribute stands; the JSON text of
  labels reads back; and the readable fingerprints of resources sort next to each other when they agree
  on the hierarchy.
\<close>

section \<open>Order\<close>

definition fp_put :: "(any \<Rightarrow> string) \<Rightarrow> vmap \<Rightarrow> (string \<times> string) list \<Rightarrow> fp_attributes" where
  "fp_put asStr attrs extras = add_extras extras (NewAttributesFromPcommonMap asStr attrs)"

lemma fold_update_map:
  "fold (\<lambda>(k, v). AList.update k (g v)) xs al = fold (\<lambda>(k, v). AList.update k v) (map (\<lambda>(k, v). (k, g v)) xs) al"
  by (induction xs arbitrary: al) auto

lemma map_of_fold_updates: "map_of (fold (\<lambda>(k, v). AList.update k v) xs al) = map_of al ++ map_of (rev xs)"
  by (induction xs arbitrary: al) auto

lemma distinct_fold_updates:
  "distinct (map fst al) \<Longrightarrow> distinct (map fst (fold (\<lambda>(k, v). AList.update k v) xs al))"
  by (induction xs arbitrary: al) (auto simp: distinct_update)

lemma map_of_permuted:
  assumes "distinct (map fst xs)" and "mset ys = mset xs"
  shows "map_of (map (\<lambda>(k, v). (k, g v)) (rev ys)) = map_of (map (\<lambda>(k, v). (k, g v)) (rev xs))"
proof -
  have "distinct (map fst ys)" using assms by (metis distinct_map mset_eq_imp_distinct_iff mset_map set_mset_mset)
  moreover have "set ys = set xs" using assms(2) by (rule mset_eq_setD)
  ultimately have "map_of (rev ys) = map_of (rev xs)"
    using assms(1) by (subst map_of_inject_set) (simp_all add: rev_map [symmetric])
  then show ?thesis by (simp add: map_of_map)
qed

lemma sorted_keys_unique:
  assumes "map_of a = map_of b" and "distinct (map fst a)" and "distinct (map fst b)"
  shows "sort (map fst a) = sort (map fst b)"
proof -
  have "set (map fst a) = set (map fst b)" using assms(1) by (metis dom_map_of_conv_image_fst list.set_map)
  then have "mset (map fst a) = mset (map fst b)" using assms(2,3) by (metis set_eq_iff_mset_eq_distinct)
  then show ?thesis by (metis properties_for_sort mset_sort sorted_sort)
qed

lemma hash_attributes_cong:
  assumes "map_of a = map_of b" and "distinct (map fst a)" and "distinct (map fst b)"
  shows "hash_attributes offset a = hash_attributes offset b"
  using sorted_keys_unique [OF assms] assms(1) by (simp add: hash_attributes_def val_of_def)

lemma distinct_fp_put: "distinct (map fst (fp_put asStr attrs extras))"
  unfolding fp_put_def add_extras_def NewAttributesFromPcommonMap_def
  by (simp add: fold_update_map [where g = "\<lambda>v. \<lparr>DataType = ValueTypeStr, Val = v\<rparr>"]
      fold_update_map [where g = "\<lambda>v. \<lparr>DataType = value_type_of v, Val = asStr v\<rparr>"] distinct_fold_updates)

lemma map_of_fp_put:
  "map_of (fp_put asStr attrs extras) =
     map_of (map (\<lambda>(k, v). (k, \<lparr>DataType = value_type_of v, Val = asStr v\<rparr>)) (rev attrs)) ++
     map_of (map (\<lambda>(k, v). (k, \<lparr>DataType = ValueTypeStr, Val = v\<rparr>)) (rev extras))"
  unfolding fp_put_def add_extras_def NewAttributesFromPcommonMap_def
  by (simp add: fold_update_map [where g = "\<lambda>v. \<lparr>DataType = ValueTypeStr, Val = v\<rparr>"]
      fold_update_map [where g = "\<lambda>v. \<lparr>DataType = value_type_of v, Val = asStr v\<rparr>"]
      map_of_fold_updates rev_map)

text \<open>C35: A fingerprint does not depend on the order in which Go visits the attributes and the extra labels:
  permuting them changes neither the hash, nor the hash with a name, nor the labels.\<close>

theorem fingerprint_ignores_order:
  fixes asStr :: "any \<Rightarrow> string" and ft :: fingerprint_type and offset :: u64
  assumes "distinct (map fst attrs)" and "mset attrs' = mset attrs"
    and "distinct (map fst extras)" and "mset extras' = mset extras"
  defines "f \<equiv> NewFingerprint asStr ft offset attrs extras"
    and "f' \<equiv> NewFingerprint asStr ft offset attrs' extras'"
  shows "fp_hash f' = fp_hash f \<and> HashWithName f' name = HashWithName f name \<and>
    map_of (AttributesAsMap f') = map_of (AttributesAsMap f)"
proof -
  have m: "map_of (fp_put asStr attrs' extras') = map_of (fp_put asStr attrs extras)"
    using map_of_permuted [OF assms(1,2), where g = "\<lambda>v. \<lparr>DataType = value_type_of v, Val = asStr v\<rparr>"]
      map_of_permuted [OF assms(3,4), where g = "\<lambda>v. \<lparr>DataType = ValueTypeStr, Val = v\<rparr>"]
    by (simp add: map_of_fp_put)
  have h: "fp_hash f' = fp_hash f"
    using hash_attributes_cong [OF m distinct_fp_put distinct_fp_put]
    by (simp add: f_def f'_def NewFingerprint_def fp_put_def Let_def)
  have "map_of (AttributesAsMap f') = map_of (AttributesAsMap f)"
    using m by (simp add: f_def f'_def NewFingerprint_def AttributesAsMap_def map_of_map fp_put_def Let_def)
  with h show ?thesis by (simp add: HashWithName_def)
qed

theorem fingerprint_ignores_order_witness:
  "fp_hash (NewFingerprint (\<lambda>v. ''x'') PointFingerprintType InitialOffset [(''b'', VNil), (''a'', VNil)] [(''le'', ''1'')]) =
   fp_hash (NewFingerprint (\<lambda>v. ''x'') PointFingerprintType InitialOffset [(''a'', VNil), (''b'', VNil)] [(''le'', ''1'')])"
  using fingerprint_ignores_order [of "[(''a'', VNil), (''b'', VNil)]" "[(''b'', VNil), (''a'', VNil)]"
      "[(''le'', ''1'')]" "[(''le'', ''1'')]" "\<lambda>v. ''x''" PointFingerprintType InitialOffset] by simp

section \<open>What is hashed\<close>

text \<open>Fields, each but the last closed by the separator.\<close>

definition fields_bytes :: "string list \<Rightarrow> u8 list" where
  "fields_bytes fs = concat (map (\<lambda>f. bytes_of f @ [separatorByte]) fs)"

definition label_fields :: "fp_attributes \<Rightarrow> string list" where
  "label_fields a = concat (map (\<lambda>k. [k, val_of a k]) (sort (map fst a)))"

lemma hashAdd_write: "hashAdd h s = fnv1a_write h (bytes_of s)"
  by (simp add: hashAdd_def fnv1a_write_def hashAddByte_def [abs_def] fnv1a_step_def [abs_def] prime64_def fnv_prime64_def)

lemma hashAddByte_write: "hashAddByte h b = fnv1a_write h [b]"
  by (simp add: fnv1a_write_def hashAddByte_def fnv1a_step_def prime64_def fnv_prime64_def)

lemmas hash_writes = hashAdd_write hashAddByte_write fnv1a_write_append [symmetric]

lemma hash_attributes_write: "hash_attributes offset a = fnv1a_write offset (fields_bytes (label_fields a))"
proof -
  have "foldl (\<lambda>h k. hashAddByte (hashAdd (hashAddByte (hashAdd h k) separatorByte) (val_of a k)) separatorByte) h ks =
      fnv1a_write h (fields_bytes (concat (map (\<lambda>k. [k, val_of a k]) ks)))" for h ks
  proof (induction ks arbitrary: h)
    case (Cons k ks)
    then show ?case by (simp add: hash_writes fields_bytes_def)
  qed (simp add: fields_bytes_def fnv1a_write_def)
  then show ?thesis by (simp add: hash_attributes_def label_fields_def)
qed

definition clean :: "string \<Rightarrow> bool" where
  "clean s \<longleftrightarrow> separatorByte \<notin> set (bytes_of s)"

lemma bytes_of_inject: "bytes_of s = bytes_of t \<longleftrightarrow> s = t"
proof -
  have "of_char c = (of_char d :: u8) \<longleftrightarrow> c = d" for c d
  proof
    assume "of_char c = (of_char d :: u8)"
    then have "unat (of_char c :: u8) = unat (of_char d :: u8)" by simp
    moreover have "unat (of_char c :: u8) = (of_char c :: nat)" for c
    proof -
      have "(of_char c :: u8) = of_nat (of_char c :: nat)" by (rule of_nat_of_char [symmetric])
      moreover have "(of_char c :: nat) < 256" by simp
      ultimately show ?thesis by (simp add: unat_of_nat take_bit_nat_eq_self)
    qed
    ultimately show "c = d" by simp
  qed simp
  then have "inj (of_char :: char \<Rightarrow> u8)" by (auto intro: injI)
  then show ?thesis by (simp add: bytes_of_def inj_map_eq_map)
qed

lemma split_separator:
  assumes "separatorByte \<notin> set xs" and "separatorByte \<notin> set ys"
  shows "xs @ separatorByte # ps = ys @ separatorByte # qs \<longleftrightarrow> xs = ys \<and> ps = qs"
  using assms
proof (induction xs arbitrary: ys)
  case Nil
  then show ?case by (cases ys) auto
next
  case (Cons x xs)
  then show ?case by (cases ys) auto
qed

lemma fields_bytes_inject:
  assumes "list_all clean (fs @ [l])" and "list_all clean (gs @ [m])"
  shows "fields_bytes fs @ bytes_of l = fields_bytes gs @ bytes_of m \<longleftrightarrow> fs = gs \<and> l = m"
  using assms
proof (induction fs arbitrary: gs)
  case Nil
  show ?case
  proof (cases gs)
    case Nil
    then show ?thesis by (simp add: fields_bytes_def bytes_of_inject)
  next
    case (Cons g gs')
    have "separatorByte \<in> set (fields_bytes gs @ bytes_of m)" by (simp add: Cons fields_bytes_def)
    moreover have "separatorByte \<notin> set (bytes_of l)" using Nil.prems(1) by (simp add: clean_def)
    ultimately have "fields_bytes gs @ bytes_of m \<noteq> bytes_of l" by metis
    then show ?thesis by (auto simp: Cons fields_bytes_def)
  qed
next
  case (Cons f fs)
  show ?case
  proof (cases gs)
    case Nil
    have "separatorByte \<in> set (fields_bytes (f # fs) @ bytes_of l)" by (simp add: fields_bytes_def)
    moreover have "separatorByte \<notin> set (bytes_of m)" using Cons.prems(2) by (simp add: clean_def)
    ultimately have "fields_bytes (f # fs) @ bytes_of l \<noteq> bytes_of m" by metis
    then show ?thesis by (auto simp: Nil fields_bytes_def)
  next
    case (Cons g gs')
    have "separatorByte \<notin> set (bytes_of f)" "separatorByte \<notin> set (bytes_of g)"
      using Cons.prems Cons by (simp_all add: clean_def)
    from split_separator [OF this] show ?thesis
      using Cons.IH [of gs'] Cons.prems Cons by (simp add: fields_bytes_def bytes_of_inject)
  qed
qed

definition clean_labels :: "fp_attributes \<Rightarrow> bool" where
  "clean_labels a \<longleftrightarrow> (\<forall>(k, v) \<in> set a. clean k \<and> clean (Val v))"

lemma clean_label_fields:
  assumes "clean_labels a"
  shows "list_all clean (label_fields a)"
proof -
  have "clean (val_of a k)" for k
  proof (cases "map_of a k")
    case None
    then show ?thesis by (simp add: val_of_def clean_def bytes_of_def)
  next
    case (Some v)
    then have "(k, v) \<in> set a" by (rule map_of_SomeD)
    then show ?thesis using assms Some by (auto simp: val_of_def clean_labels_def)
  qed
  then show ?thesis using assms by (auto simp: label_fields_def clean_labels_def list_all_iff)
qed

lemma label_fields_map:
  assumes "distinct (map fst a)"
  shows "label_fields a = label_fields b \<Longrightarrow> distinct (map fst b) \<Longrightarrow>
    map_of (map (\<lambda>(k, v). (k, Val v)) a) = map_of (map (\<lambda>(k, v). (k, Val v)) b)"
proof -
  assume eq: "label_fields a = label_fields b" and db: "distinct (map fst b)"
  have pairs: "concat (map (\<lambda>k. [k, f k]) ks) = concat (map (\<lambda>k. [k, g k]) ls) \<longleftrightarrow>
      ks = ls \<and> (\<forall>k \<in> set ks. f k = g k)" for f g :: "string \<Rightarrow> string" and ks ls
  proof (induction ks arbitrary: ls)
    case (Cons k ks)
    then show ?case by (cases ls) auto
  next
    case Nil
    then show ?case by (cases ls) auto
  qed
  have ks: "sort (map fst a) = sort (map fst b)" and vs: "\<forall>k \<in> set (sort (map fst a)). val_of a k = val_of b k"
    using eq unfolding label_fields_def pairs by blast+
  have "set (map fst a) = set (map fst b)" using ks by (metis set_sort)
  then have dom: "map_of a k = None \<longleftrightarrow> map_of b k = None" for k by (simp add: map_of_eq_None_iff)
  have "map_option Val (map_of a k) = map_option Val (map_of b k)" for k
  proof (cases "map_of a k")
    case None
    then show ?thesis using dom by simp
  next
    case (Some v)
    then have "k \<in> set (map fst a)" by (force dest: map_of_SomeD)
    then have "val_of a k = val_of b k" using vs by auto
    then show ?thesis using Some dom [of k] by (cases "map_of b k") (simp_all add: val_of_def)
  qed
  then show ?thesis by (auto simp: map_of_map)
qed

lemma label_fields_cong:
  assumes "map_of (map (\<lambda>(k, v). (k, Val v)) a) = map_of (map (\<lambda>(k, v). (k, Val v)) b)"
    and "distinct (map fst a)" and "distinct (map fst b)"
  shows "label_fields a = label_fields b"
proof -
  have k: "sort (map fst a) = sort (map fst b)"
    using sorted_keys_unique [OF assms(1)] assms(2,3) by (simp add: comp_def case_prod_unfold)
  have "map_option Val (map_of a k) = map_option Val (map_of b k)" for k
    using fun_cong [OF assms(1), of k] by (simp add: map_of_map)
  then have "val_of a k = val_of b k" for k
    unfolding val_of_def by (metis (no_types, lifting) option.case_eq_if option.map_disc_iff option.map_sel)
  then show ?thesis by (simp add: label_fields_def k)
qed

text \<open>
  The bytes that are hashed for a point with a name below a scope with the hash \<open>offset\<close>.
\<close>

definition point_bytes :: "fp_attributes \<Rightarrow> string \<Rightarrow> u8 list" where
  "point_bytes a name = fields_bytes (label_fields a @ [''__name__'']) @ bytes_of name"

text \<open>C34: The fingerprint of a point is the FNV-1a hash of a byte string that determines its labels and its
  name: with strings free of the byte 255 (which no UTF-8 text has), two points below the same
  scope are hashed from the same bytes only if they have the same name and the same labels.\<close>

theorem point_fingerprint_bytes_faithful:
  fixes asStr :: "any \<Rightarrow> string" and offset :: u64
  assumes "f = NewFingerprint asStr PointFingerprintType offset attrs extras"
    and "f' = NewFingerprint asStr PointFingerprintType offset attrs' extras'"
    and "clean_labels (fp_attributes f)" and "clean_labels (fp_attributes f')" and "clean name" and "clean name'"
  shows "HashWithName f name = fnv1a_write offset (point_bytes (fp_attributes f) name) \<and>
    HashWithName f' name' = fnv1a_write offset (point_bytes (fp_attributes f') name') \<and>
    (point_bytes (fp_attributes f) name = point_bytes (fp_attributes f') name' \<longleftrightarrow>
      name = name' \<and> map_of (AttributesAsMap f) = map_of (AttributesAsMap f'))"
proof -
  have h: "HashWithName g n = fnv1a_write offset (point_bytes (fp_attributes g) n)"
    if "g = NewFingerprint asStr PointFingerprintType offset as es" for g n as es
    unfolding HashWithName_def that
    by (simp add: NewFingerprint_def Let_def hash_attributes_write hash_writes point_bytes_def fields_bytes_def)
  have d: "distinct (map fst (fp_attributes f))" "distinct (map fst (fp_attributes f'))"
    using distinct_fp_put by (simp_all add: assms(1,2) NewFingerprint_def fp_put_def Let_def)
  have cn: "clean ''__name__''" by (simp add: clean_def separatorByte_def bytes_of_def)
  have "point_bytes (fp_attributes f) name = point_bytes (fp_attributes f') name' \<longleftrightarrow>
      label_fields (fp_attributes f) = label_fields (fp_attributes f') \<and> name = name'"
    unfolding point_bytes_def
    by (subst fields_bytes_inject) (use assms(3-6) cn clean_label_fields in \<open>simp_all\<close>)
  moreover have "label_fields (fp_attributes f) = label_fields (fp_attributes f') \<longleftrightarrow>
      map_of (AttributesAsMap f) = map_of (AttributesAsMap f')"
    using label_fields_map [OF d(1) _ d(2)] label_fields_cong [OF _ d] by (auto simp: AttributesAsMap_def)
  ultimately show ?thesis using h [OF assms(1)] h [OF assms(2)] by blast
qed

theorem point_fingerprint_bytes_faithful_witness:
  "let f = NewFingerprint (\<lambda>v. ''x'') PointFingerprintType 7 [(''a'', VNil)] [(''le'', ''1'')];
       f' = NewFingerprint (\<lambda>v. ''x'') PointFingerprintType 7 [(''a'', VNil)] [(''le'', ''2'')]
   in point_bytes (fp_attributes f) ''m'' \<noteq> point_bytes (fp_attributes f') ''m''"
proof -
  let ?f = "\<lambda>s. NewFingerprint (\<lambda>v. ''x'') PointFingerprintType 7 [(''a'', VNil)] [(''le'', s)]"
  have c: "clean_labels (fp_attributes (?f ''1''))" "clean_labels (fp_attributes (?f ''2''))" "clean ''m''"
    by (simp_all add: NewFingerprint_def add_extras_def NewAttributesFromPcommonMap_def clean_labels_def clean_def
        separatorByte_def bytes_of_def Let_def)
  have "map_of (AttributesAsMap (?f ''1'')) ''le'' \<noteq> map_of (AttributesAsMap (?f ''2'')) ''le''"
    by (simp add: NewFingerprint_def add_extras_def NewAttributesFromPcommonMap_def AttributesAsMap_def Let_def)
  then show ?thesis
    using point_fingerprint_bytes_faithful [OF refl refl c(1,2,3,3)] unfolding Let_def by metis
qed

section \<open>Levels\<close>

text \<open>The fingerprint of a scope below a resource, as the metrics exporter chains them.\<close>

definition scope_extras :: "string \<Rightarrow> string \<Rightarrow> string \<Rightarrow> (string \<times> string) list" where
  "scope_extras name version url =
     [(''__scope.name__'', name), (''__scope.version__'', version), (''__scope.schema_url__'', url)]"

definition chain :: "(any \<Rightarrow> string) \<Rightarrow> vmap \<Rightarrow> vmap \<Rightarrow> (string \<times> string) list \<Rightarrow> u64" where
  "chain asStr resource scope extras =
     fp_hash (NewFingerprint asStr ScopeFingerprintType
       (fp_hash (NewFingerprint asStr ResourceFingerprintType InitialOffset resource [])) scope extras)"

text \<open>The level of an attribute is not hashed: an attribute whose key sorts before the labels of the scope
  gives the same fingerprints whether it stands at the resource or at the scope, for every point
  below them.\<close>

theorem fingerprint_confuses_levels:
  "chain asStr [(''Host'', v)] [] (scope_extras n w u) = chain asStr [] [(''Host'', v)] (scope_extras n w u)"
proof -
  have s: "sort [''__scope.name__'', ''__scope.version__'', ''__scope.schema_url__''] =
      [''__scope.name__'', ''__scope.schema_url__'', ''__scope.version__'']"
    "sort [''Host'', ''__scope.name__'', ''__scope.version__'', ''__scope.schema_url__''] =
      [''Host'', ''__scope.name__'', ''__scope.schema_url__'', ''__scope.version__'']"
    by code_simp+
  have r: "fp_hash (NewFingerprint asStr ResourceFingerprintType InitialOffset [(''Host'', v)] []) =
      fnv1a_write InitialOffset (fields_bytes [''Host'', asStr v])"
    "fp_hash (NewFingerprint asStr ResourceFingerprintType InitialOffset [] []) = InitialOffset"
    by (simp_all add: NewFingerprint_def NewAttributesFromPcommonMap_def add_extras_def hash_attributes_write
        label_fields_def val_of_def fields_bytes_def fnv1a_write_def)
  show ?thesis
    unfolding chain_def r
    by (simp add: NewFingerprint_def NewAttributesFromPcommonMap_def add_extras_def scope_extras_def
        hash_attributes_write label_fields_def val_of_def s fields_bytes_def fnv1a_write_append [symmetric]
        del: sort_key_simps)
qed

section \<open>Labels as JSON\<close>

text \<open>
  A reader of JSON as RFC 8259 has it, without white space and without escapes by code point, for objects whose values are
  strings: in a string no control character stands for itself, and a backslash begins one of eight escapes. What it
  accepts is JSON and has the value it gives.
\<close>

definition unescape_char :: "char \<Rightarrow> char option" where
  "unescape_char c =
     (if c = CHR 0x22 \<or> c = CHR 0x5C \<or> c = CHR 0x2F then Some c
      else if c = CHR ''b'' then Some (CHR 0x08) else if c = CHR ''f'' then Some (CHR 0x0C)
      else if c = CHR ''n'' then Some (CHR 0x0A) else if c = CHR ''r'' then Some (CHR 0x0D)
      else if c = CHR ''t'' then Some (CHR 0x09) else None)"

definition control :: "char \<Rightarrow> bool" where
  "control c \<longleftrightarrow> (of_char c :: nat) < 0x20"

fun read_string :: "string \<Rightarrow> (string \<times> string) option" where
  "read_string [] = None"
| "read_string (c # cs) =
     (if c = CHR 0x22 then Some ([], cs)
      else if control c then None
      else if c = CHR 0x5C
      then (case cs of
              [] \<Rightarrow> None
            | d # ds \<Rightarrow>
                (case unescape_char d of None \<Rightarrow> None | Some u \<Rightarrow> map_option (\<lambda>(s, r). (u # s, r)) (read_string ds)))
      else map_option (\<lambda>(s, r). (c # s, r)) (read_string cs))"

text \<open>The members after the opening brace or a comma; the number of members bounds the recursion.\<close>

primrec read_members :: "nat \<Rightarrow> string \<Rightarrow> (string \<times> string) list option" where
  "read_members 0 s = None"
| "read_members (Suc n) s =
     (if take 1 s \<noteq> [CHR 0x22] then None
      else case read_string (drop 1 s) of
        None \<Rightarrow> None
      | Some (k, s1) \<Rightarrow>
          (if take 2 s1 \<noteq> [CHR '':'', CHR 0x22] then None
           else case read_string (drop 2 s1) of
             None \<Rightarrow> None
           | Some (v, s2) \<Rightarrow>
               (if s2 = [CHR 0x7D] then Some [(k, v)]
                else if take 1 s2 = [CHR '',''] then map_option (\<lambda>kvs. (k, v) # kvs) (read_members n (drop 1 s2))
                else None)))"

definition read_labels :: "string \<Rightarrow> (string \<times> string) list option" where
  "read_labels s = (if s = ''{}'' then Some [] else case s of [] \<Rightarrow> None | c # cs \<Rightarrow> read_members (length s) cs)"

definition plain_key :: "string \<Rightarrow> bool" where
  "plain_key k \<longleftrightarrow> (\<forall>c \<in> set k. c \<noteq> CHR 0x22 \<and> c \<noteq> CHR 0x5C \<and> \<not> control c)"

text \<open>Of the control characters the code escapes the line feed, the carriage return and the tabulator.\<close>

definition plain_value :: "string \<Rightarrow> bool" where
  "plain_value v \<longleftrightarrow> (\<forall>c \<in> set v. control c \<longrightarrow> c \<in> {CHR 0x0A, CHR 0x0D, CHR 0x09})"

lemma read_plain_key: "plain_key k \<Longrightarrow> read_string (k @ CHR 0x22 # r) = Some (k, r)"
  by (induction k) (auto simp: plain_key_def)

lemma read_escaped: "read_string (concat (map escape_char v) @ CHR 0x22 # r) = (if plain_value v then Some (v, r) else None)"
proof (induction v)
  case (Cons c v)
  have k: "\<not> control (CHR 0x5C)" "\<not> control (CHR 0x22)" by (simp_all add: control_def)
  show ?case
    using Cons.IH k by (auto simp: escape_char_def unescape_char_def plain_value_def)
qed (simp add: plain_value_def)

definition member_text :: "string \<times> string \<Rightarrow> string" where
  "member_text = (\<lambda>(k, v). [CHR 0x22] @ k @ [CHR 0x22, CHR '':'', CHR 0x22] @ concat (map escape_char v) @ [CHR 0x22])"

lemma read_member:
  assumes "plain_key k"
  shows "read_members (Suc n) (member_text (k, v) @ [CHR 0x7D]) = (if plain_value v then Some [(k, v)] else None)"
    and "read_members (Suc n) (member_text (k, v) @ CHR '','' # x # s) =
      (if plain_value v then map_option (\<lambda>kvs. (k, v) # kvs) (read_members n (x # s)) else None)"
  using read_plain_key [OF assms] by (simp_all add: member_text_def read_escaped)

lemma marshal_members:
  "kvs \<noteq> [] \<Longrightarrow> butlast (concat (map marshal_label kvs)) = join_str '','' (map member_text kvs)"
proof (induction kvs)
  case (Cons kv kvs)
  have ne: "concat (map marshal_label kvs) \<noteq> []" if "kvs \<noteq> []"
    using that by (cases kvs) (auto simp: marshal_label_def)
  have m: "marshal_label kv = member_text kv @ '',''" by (cases kv) (simp add: marshal_label_def member_text_def)
  show ?case
  proof (cases kvs)
    case Nil
    then show ?thesis using m by (simp add: butlast_append)
  next
    case (Cons k2 kvs2)
    then show ?thesis using Cons.IH ne m by (simp add: butlast_append)
  qed
qed simp

lemma read_joined:
  assumes "kvs \<noteq> []" and "\<forall>(k, v) \<in> set kvs. plain_key k" and "length kvs \<le> n"
  shows "read_members n (join_str '','' (map member_text kvs) @ [CHR 0x7D]) =
    (if \<forall>(k, v) \<in> set kvs. plain_value v then Some kvs else None)"
  using assms
proof (induction kvs arbitrary: n)
  case (Cons kv kvs)
  obtain k v where kv: "kv = (k, v)" by force
  obtain m where n: "n = Suc m" using Cons.prems(3) by (cases n) auto
  have k: "plain_key k" using Cons.prems(2) kv by simp
  show ?case
  proof (cases kvs)
    case Nil
    then show ?thesis using read_member(1) [OF k] by (simp add: kv n)
  next
    case (Cons kv2 kvs2)
    obtain x s where xs: "join_str '','' (map member_text kvs) @ [CHR 0x7D] = x # s"
      by (cases "join_str '','' (map member_text kvs) @ [CHR 0x7D]") auto
    have j: "join_str '','' (map member_text (kv # kvs)) @ [CHR 0x7D] = member_text (k, v) @ CHR '','' # x # s"
      using xs Cons by (simp add: kv)
    have "read_members m (x # s) = (if \<forall>(k, v) \<in> set kvs. plain_value v then Some kvs else None)"
      using Cons.IH [of m] Cons.prems(2,3) xs n Cons by simp
    then show ?thesis unfolding j n read_member(2) [OF k] by (auto simp: kv)
  qed
qed simp

lemma last_to_brace: "xs \<noteq> [] \<Longrightarrow> xs[length xs - 1 := c] = butlast xs @ [c]"
  by (induction xs rule: rev_induct) (simp_all add: list_update_append)

text \<open>C36: When no key has a quote, a backslash or a control character, the JSON text of labels reads back as the labels in the
  order of their keys, exactly if the values have no control characters beside line feed, carriage return and
  tabulator; with another one the text is not JSON.\<close>

theorem labels_json_roundtrip:
  assumes "distinct (map fst attrs)" and "\<forall>k \<in> fst ` set attrs. plain_key k"
  shows "read_labels (marshalLabels attrs) =
    (if \<forall>v \<in> snd ` set attrs. plain_value v then Some (map (\<lambda>k. (k, the (map_of attrs k))) (sort (map fst attrs))) else None)"
proof (cases "attrs = []")
  case False
  define ks where "ks = sort (map fst attrs)"
  define kvs where "kvs = map (\<lambda>k. (k, case map_of attrs k of None \<Rightarrow> [] | Some v \<Rightarrow> v)) ks"
  have ne: "kvs \<noteq> []" using False by (simp add: kvs_def ks_def) (metis length_map length_sort list.size(3) length_0_conv)
  have eq: "kvs = map (\<lambda>k. (k, the (map_of attrs k))) ks"
  proof -
    have "k \<in> set ks \<Longrightarrow> map_of attrs k \<noteq> None" for k by (simp add: ks_def map_of_eq_None_iff)
    then show ?thesis by (fastforce simp: kvs_def)
  qed
  have c: "concat (map marshal_label kvs) \<noteq> []" using ne by (cases kvs) (auto simp: marshal_label_def)
  have t: "marshalLabels attrs = ''{'' @ join_str '','' (map member_text kvs) @ [CHR 0x7D]"
  proof -
    have "marshalLabels attrs = (''{'' @ concat (map marshal_label kvs))
        [length (''{'' @ concat (map marshal_label kvs)) - 1 := CHR 0x7D]"
      using False by (simp add: marshalLabels_def Let_def kvs_def ks_def comp_def)
    also have "\<dots> = butlast (''{'' @ concat (map marshal_label kvs)) @ [CHR 0x7D]"
      by (rule last_to_brace) simp
    finally show ?thesis using c marshal_members [OF ne] by (simp add: butlast_append)
  qed
  have j: "length kvs \<le> length (join_str '','' (map member_text kvs))" if "kvs \<noteq> []" for kvs
    using that by (induction kvs rule: induct_list012) (auto simp: member_text_def)
  then have l: "length kvs \<le> length (marshalLabels attrs)" using j [OF ne] unfolding t by simp
  have "read_labels (marshalLabels attrs) = read_members (length (marshalLabels attrs)) (join_str '','' (map member_text kvs) @ [CHR 0x7D])"
  proof -
    have "join_str '','' (map member_text kvs) \<noteq> []" using j [OF ne] ne by fastforce
    then show ?thesis unfolding t read_labels_def by simp
  qed
  also have "\<dots> = (if \<forall>(k, v) \<in> set kvs. plain_value v then Some kvs else None)"
    by (rule read_joined [OF ne _ l]) (use assms(2) in \<open>auto simp: kvs_def ks_def\<close>)
  also have "(\<forall>(k, v) \<in> set kvs. plain_value v) \<longleftrightarrow> (\<forall>v \<in> snd ` set attrs. plain_value v)"
    using assms(1) by (force simp: eq ks_def)
  finally show ?thesis by (simp add: eq ks_def)
qed (simp add: marshalLabels_def read_labels_def)

theorem labels_json_roundtrip_witness:
  "read_labels (marshalLabels [(''b'', [CHR 0x22, CHR 0x0A]), (''a'', ''1'')]) = Some [(''a'', ''1''), (''b'', [CHR 0x22, CHR 0x0A])] \<and>
   read_labels (marshalLabels [(''a'', [CHR 0x01])]) = None"
proof -
  have "sort [''b'', ''a''] = [''a'', ''b'']" by code_simp
  then show ?thesis
    using labels_json_roundtrip [of "[(''b'', [CHR 0x22, CHR 0x0A]), (''a'', ''1'')]"] labels_json_roundtrip [of "[(''a'', [CHR 0x01])]"]
    by (simp add: plain_key_def plain_value_def control_def del: sort_key_simps)
qed

text \<open>A key with quotes makes the text of other labels: the code takes for granted that keys have none.\<close>

lemma labels_json_ambiguous:
  "marshalLabels [([CHR ''a'', CHR 0x22, CHR '':'', CHR 0x22, CHR ''b'', CHR 0x22, CHR '','', CHR 0x22, CHR ''c''], ''d'')] =
   marshalLabels [(''a'', ''b''), (''c'', ''d'')]"
  by code_simp

section \<open>Fingerprints of resources\<close>

primrec all_labels :: "hierarchy \<Rightarrow> string set" where
  "all_labels (Node ls subs) = set ls \<union> \<Union> (set (map all_labels subs))"

lemma id_here_cong: "(\<And>l. l \<in> set ls \<Longrightarrow> map_of a l = map_of b l) \<Longrightarrow> id_here ls a = id_here ls b"
proof -
  assume eq: "\<And>l. l \<in> set ls \<Longrightarrow> map_of a l = map_of b l"
  then have "find (\<lambda>l. map_of a l \<noteq> None) ls = find (\<lambda>l. map_of b l \<noteq> None) ls"
    by (intro find_cong) auto
  moreover have "l \<in> set ls" if "find (\<lambda>l. map_of b l \<noteq> None) ls = Some l" for l
    using that by (auto simp: find_Some_iff)
  ultimately show ?thesis using eq by (auto simp: id_here_def split: option.split)
qed

lemma id_here_cases:
  "(id_here ls a = [] \<and> (\<forall>l \<in> set ls. map_of a l = None)) \<or>
   (\<exists>l v. l \<in> set ls \<and> map_of a l = Some v \<and> id_here ls a = [(l, v)])"
proof (induction ls)
  case Nil
  then show ?case by (simp add: id_here_def)
next
  case (Cons l ls)
  have "id_here (l # ls) a = (case map_of a l of None \<Rightarrow> id_here ls a | Some v \<Rightarrow> [(l, v)])"
    by (simp add: id_here_def split: option.split)
  with Cons show ?case by (cases "map_of a l") auto
qed

lemma Identifier_cong:
  "(\<And>l. l \<in> all_labels h \<Longrightarrow> map_of a l = map_of b l) \<Longrightarrow> Identifier h a = Identifier h b"
proof (induction h)
  case (Node ls subs)
  have "map (\<lambda>f. f a) (map Identifier subs) = map (\<lambda>f. f b) (map Identifier subs)"
    using Node by (auto intro!: Node.IH)
  moreover have "id_here ls a = id_here ls b" by (rule id_here_cong) (use Node.prems in simp)
  ultimately show ?case unfolding Identifier.simps by metis
qed

lemma first_nonempty_in: "first_nonempty rs \<noteq> [] \<Longrightarrow> first_nonempty rs \<in> set rs"
  by (induction rs) auto

lemma first_nonempty_Nil: "first_nonempty rs = [] \<longleftrightarrow> (\<forall>r \<in> set rs. r = [])"
  by (induction rs) auto

lemma Identifier_labels:
  "(l, v) \<in> set (Identifier h a) \<Longrightarrow> l \<in> all_labels h \<and> map_of a l = Some v"
proof (induction h)
  case (Node ls subs)
  show ?case
  proof (cases "(l, v) \<in> set (id_here ls a)")
    case True
    then show ?thesis using id_here_cases [of ls a] by auto
  next
    case False
    let ?rs = "map (\<lambda>f. f a) (map Identifier subs)"
    have m: "(l, v) \<in> set (first_nonempty ?rs)" using Node.prems False by simp
    then have "first_nonempty ?rs \<noteq> []" by auto
    from first_nonempty_in [OF this] obtain s where "s \<in> set subs" "first_nonempty ?rs = Identifier s a" by auto
    then show ?thesis using Node.IH [of s] m by auto
  qed
qed

lemma Identifier_empty: "Identifier h a = [] \<longleftrightarrow> (\<forall>l \<in> all_labels h. map_of a l = None)"
proof (induction h)
  case (Node ls subs)
  have "id_here ls a = [] \<longleftrightarrow> (\<forall>l \<in> set ls. map_of a l = None)"
    using id_here_cases [of ls a] by auto
  then show ?case using Node.IH by (auto simp: first_nonempty_Nil)
qed

text \<open>Resources that agree on the labels of the hierarchy have fingerprints that differ only after the last
  part, the hash, so they sort next to each other; the labels in front are labels of the hierarchy
  with the values the resource has for them, and there is none only if the resource has no
  label of the hierarchy.\<close>

theorem fingerprints_colocate:
  assumes "\<forall>l \<in> all_labels h. map_of a l = map_of b l"
  shows "\<exists>parts. CalculateFingerprint sprint sprints a h =
      join_str '';'' (parts @ [''hash='' @ format_int (uint (FingerprintHash sprint a))]) \<and>
    CalculateFingerprint sprint sprints b h =
      join_str '';'' (parts @ [''hash='' @ format_int (uint (FingerprintHash sprint b))]) \<and>
    (\<forall>p \<in> set parts. \<exists>l \<in> all_labels h. \<exists>v. map_of a l = Some v \<and> p = l @ ''='' @ sprints v) \<and>
    (parts = [] \<longrightarrow> (\<forall>l \<in> all_labels h. map_of a l = None))"
proof (intro exI conjI)
  let ?parts = "map (\<lambda>(l, v). l @ ''='' @ sprints v) (Identifier h a)"
  show "CalculateFingerprint sprint sprints a h =
      join_str '';'' (?parts @ [''hash='' @ format_int (uint (FingerprintHash sprint a))])"
    by (simp add: CalculateFingerprint_def)
  have "Identifier h a = Identifier h b" using assms by (intro Identifier_cong) blast
  then show "CalculateFingerprint sprint sprints b h =
      join_str '';'' (?parts @ [''hash='' @ format_int (uint (FingerprintHash sprint b))])"
    by (simp add: CalculateFingerprint_def)
  show "\<forall>p \<in> set ?parts. \<exists>l \<in> all_labels h. \<exists>v. map_of a l = Some v \<and> p = l @ ''='' @ sprints v"
    using Identifier_labels by fastforce
  show "?parts = [] \<longrightarrow> (\<forall>l \<in> all_labels h. map_of a l = None)"
    using Identifier_empty by simp
qed

theorem fingerprints_colocate_witness:
  "\<exists>parts. CalculateFingerprint (\<lambda>v. ''x'') (\<lambda>v. ''x'') [(''service.name'', VStr ''s''), (''p'', VStr ''1'')] ResourceHierarchy =
      join_str '';'' (parts @ [''hash='' @ format_int (uint (FingerprintHash (\<lambda>v. ''x'') [(''service.name'', VStr ''s''), (''p'', VStr ''1'')]))]) \<and>
    CalculateFingerprint (\<lambda>v. ''x'') (\<lambda>v. ''x'') [(''service.name'', VStr ''s'')] ResourceHierarchy =
      join_str '';'' (parts @ [''hash='' @ format_int (uint (FingerprintHash (\<lambda>v. ''x'') [(''service.name'', VStr ''s'')]))])"
proof -
  have "\<forall>l \<in> all_labels ResourceHierarchy.
      map_of [(''service.name'', VStr ''s''), (''p'', VStr ''1'')] l = map_of [(''service.name'', VStr ''s'')] l"
    by (simp add: ResourceHierarchy_def service_view_def node_view_def)
  from fingerprints_colocate [OF this] show ?thesis by blast
qed

lemma Synonyms_labels: "attribute \<in> all_labels h \<Longrightarrow> attribute \<in> set (Synonyms h attribute)"
  and Synonyms_none: "attribute \<notin> all_labels h \<Longrightarrow> Synonyms h attribute = []"
proof (induction h)
  case (Node ls subs)
  let ?rs = "map (\<lambda>f. f attribute) (map Synonyms subs)"
  case 1
  show ?case
  proof (cases "attribute \<in> set ls")
    case False
    then obtain s where s: "s \<in> set subs" "attribute \<in> all_labels s" using 1 by auto
    then have "Synonyms s attribute \<noteq> []" using Node(1) by fastforce
    then have "first_nonempty ?rs \<noteq> []" using s(1) by (auto simp: first_nonempty_Nil)
    from first_nonempty_in [OF this] obtain s' where s': "s' \<in> set subs" "first_nonempty ?rs = Synonyms s' attribute"
      by auto
    then have "attribute \<in> all_labels s'" using \<open>first_nonempty ?rs \<noteq> []\<close> Node(2) [of s'] by auto
    then show ?thesis using Node(1) [OF s'(1)] s'(2) False by simp
  qed simp
next
  case (Node ls subs)
  case 2
  then show ?case using Node(2) by (auto simp: first_nonempty_Nil)
qed

end
