(* ===== verification/MetricsExporter.thy ===== *)
theory MetricsExporter
  imports Fingerprint
begin

text \<open>
  The exporter of metrics (\<^verbatim>\<open>exporter/signozclickhousemetrics\<close>): each data point becomes samples, a
  series per sample and metadata per attribute; a batch is written to four tables, series only
  when the cache does not have them for the hour. The ClickHouse driver is an argument.
\<close>

section \<open>Rows\<close>

datatype metric_type = MetricTypeEmpty | MetricTypeGauge | MetricTypeSum | MetricTypeHistogram
  | MetricTypeExponentialHistogram | MetricTypeSummary

definition metric_type_of :: "metric_body \<Rightarrow> metric_type" where
  "metric_type_of b =
     (case b of MetricEmpty \<Rightarrow> MetricTypeEmpty | MetricGauge _ \<Rightarrow> MetricTypeGauge | MetricSum _ _ _ \<Rightarrow> MetricTypeSum
      | MetricHistogram _ _ \<Rightarrow> MetricTypeHistogram
      | MetricExponentialHistogram _ _ \<Rightarrow> MetricTypeExponentialHistogram
      | MetricSummary _ \<Rightarrow> MetricTypeSummary)"

record sample =
  s_env :: string
  s_temporality :: temporality
  s_metricName :: string
  s_fingerprint :: u64
  s_unixMilli :: int
  s_value :: f64
  s_flags :: u32

record dd_sketch =
  dd_gamma :: f64
  dd_positiveOffset :: i32
  dd_positive :: "f64 list"
  dd_negativeOffset :: i32
  dd_negative :: "f64 list"
  dd_zeroCount :: f64

record exp_sample =
  x_env :: string
  x_temporality :: temporality
  x_metricName :: string
  x_fingerprint :: u64
  x_unixMilli :: int
  x_sketch :: dd_sketch
  x_count :: f64
  x_sum :: f64
  x_min :: f64
  x_max :: f64
  x_flags :: u32

record time_series =
  ts_env :: string
  ts_temporality :: temporality
  ts_metricName :: string
  ts_description :: string
  ts_unit :: string
  ts_typ :: metric_type
  ts_isMonotonic :: bool
  ts_fingerprint :: u64
  ts_unixMilli :: int
  ts_labels :: string
  ts_attrs :: "(string \<times> string) list"
  ts_scopeAttrs :: "(string \<times> string) list"
  ts_resourceAttrs :: "(string \<times> string) list"

record metadata_row =
  md_metricName :: string
  md_temporality :: temporality
  md_description :: string
  md_unit :: string
  md_typ :: metric_type
  md_isMonotonic :: bool
  md_attrName :: string
  md_attrType :: string
  md_attrDatatype :: value_type
  md_attrStringValue :: string
  md_firstReported :: int
  md_lastReported :: int

record batch =
  b_samples :: "sample list"
  b_expHist :: "exp_sample list"
  b_ts :: "time_series list"
  b_metadata :: "metadata_row list"

definition newBatch :: batch where
  "newBatch = \<lparr>b_samples = [], b_expHist = [], b_ts = [], b_metadata = []\<rparr>"

definition addSample :: "sample \<Rightarrow> batch \<Rightarrow> batch" where
  "addSample s b = b\<lparr>b_samples := b_samples b @ [s]\<rparr>"

definition addTs :: "time_series \<Rightarrow> batch \<Rightarrow> batch" where
  "addTs t b = b\<lparr>b_ts := b_ts b @ [t]\<rparr>"

definition addExpHist :: "exp_sample \<Rightarrow> batch \<Rightarrow> batch" where
  "addExpHist x b = b\<lparr>b_expHist := b_expHist b @ [x]\<rparr>"

section \<open>What the exporter calls outside the repository\<close>

text \<open>
  \<^verbatim>\<open>Value.AsString\<close>, the name of a temporality, float formatting and conversions, the gamma of a scale,
  and the clock in milliseconds, by the number of metadata rows so far.
\<close>

record mx_env =
  mx_asString :: "any \<Rightarrow> string"
  mx_temporalityString :: "temporality \<Rightarrow> string"
  mx_formatFloat :: "f64 \<Rightarrow> string"
  mx_floatOfInt :: "i64 \<Rightarrow> f64"
  mx_floatOfUint :: "u64 \<Rightarrow> f64"
  mx_gamma :: "i32 \<Rightarrow> f64"
  mx_now :: "nat \<Rightarrow> int"

text \<open>\<^verbatim>\<open>math.IsNaN\<close>: all exponent bits are set and the fraction is not zero.\<close>

definition IsNaN :: "f64 \<Rightarrow> bool" where
  "IsNaN f \<longleftrightarrow> drop_bit 52 f AND 0x7FF = 0x7FF \<and> f AND 0xFFFFFFFFFFFFF \<noteq> 0"

text \<open>\<^verbatim>\<open>AsTime().UnixMilli()\<close> rounds down.\<close>

definition unix_milli :: "u64 \<Rightarrow> int" where
  "unix_milli t = sint t div 1000000"

definition addMetadata ::
  "'e mx_env_scheme \<Rightarrow> string \<Rightarrow> string \<Rightarrow> string \<Rightarrow> metric_type \<Rightarrow> temporality \<Rightarrow> bool \<Rightarrow> fingerprint \<Rightarrow> int \<Rightarrow> int \<Rightarrow>
     batch \<Rightarrow> batch" where
  "addMetadata E name desc un ty temp isMonotonic f firstSeen lastSeen b =
     (let now = mx_now E (length (b_metadata b));
          (first, last) = (if firstSeen = i64_max then (now, now) else (firstSeen, lastSeen))
      in b\<lparr>b_metadata := b_metadata b @ map (\<lambda>(key, v).
           \<lparr>md_metricName = name, md_temporality = temp, md_description = desc, md_unit = un, md_typ = ty,
            md_isMonotonic = isMonotonic, md_attrName = key, md_attrType = fingerprint_type_string (fp_typ f),
            md_attrDatatype = DataType v, md_attrStringValue = Val v,
            md_firstReported = first, md_lastReported = last\<rparr>) (fp_attributes f)\<rparr>)"

section \<open>One sample\<close>

text \<open>What the functions and closures of a metric share.\<close>

record series =
  se_env :: string
  se_name :: string
  se_desc :: string
  se_unit :: string
  se_typ :: metric_type
  se_temporality :: temporality
  se_isMonotonic :: bool
  se_resource :: fingerprint
  se_scope :: fingerprint

definition series_of :: "metric \<Rightarrow> string \<Rightarrow> fingerprint \<Rightarrow> fingerprint \<Rightarrow> temporality \<Rightarrow> bool \<Rightarrow> series" where
  "series_of m env resource scope temp isMonotonic =
     \<lparr>se_env = env, se_name = m_name m, se_desc = m_description m, se_unit = m_unit m,
      se_typ = metric_type_of (m_body m), se_temporality = temp, se_isMonotonic = isMonotonic,
      se_resource = resource, se_scope = scope\<rparr>"

definition countSuffix :: string where "countSuffix = ''.count''"
definition sumSuffix :: string where "sumSuffix = ''.sum''"
definition minSuffix :: string where "minSuffix = ''.min''"
definition maxSuffix :: string where "maxSuffix = ''.max''"
definition bucketSuffix :: string where "bucketSuffix = ''.bucket''"
definition quantilesSuffix :: string where "quantilesSuffix = ''.quantile''"

text \<open>The sequence every process function repeats: a sample, its metadata, its series.\<close>

definition put_series ::
  "'e mx_env_scheme \<Rightarrow> series \<Rightarrow> string \<Rightarrow> metric_type \<Rightarrow> temporality \<Rightarrow> fingerprint \<Rightarrow> int \<Rightarrow> batch \<Rightarrow> batch" where
  "put_series E se name ty temp f ms b =
     addTs
       \<lparr>ts_env = se_env se, ts_temporality = temp, ts_metricName = name, ts_description = se_desc se,
        ts_unit = se_unit se, ts_typ = ty, ts_isMonotonic = se_isMonotonic se,
        ts_fingerprint = HashWithName f name, ts_unixMilli = ms,
        ts_labels = NewLabelsAsJSONString name [AttributesAsMap f, AttributesAsMap (se_scope se), AttributesAsMap (se_resource se)],
        ts_attrs = AttributesAsMap f, ts_scopeAttrs = AttributesAsMap (se_scope se),
        ts_resourceAttrs = AttributesAsMap (se_resource se)\<rparr>
       (addMetadata E name (se_desc se) (se_unit se) ty temp (se_isMonotonic se) f ms ms b)"

definition put_point ::
  "'e mx_env_scheme \<Rightarrow> series \<Rightarrow> string \<Rightarrow> metric_type \<Rightarrow> temporality \<Rightarrow> (string \<times> string) list \<Rightarrow> vmap \<Rightarrow> int \<Rightarrow>
     f64 \<Rightarrow> u32 \<Rightarrow> batch \<Rightarrow> batch" where
  "put_point E se name ty temp extras attrs ms v flags b =
     (let f = NewFingerprint (mx_asString E) PointFingerprintType (fp_hash (se_scope se)) attrs extras
      in put_series E se name ty temp f ms
           (addSample
             \<lparr>s_env = se_env se, s_temporality = temp, s_metricName = name, s_fingerprint = HashWithName f name,
              s_unixMilli = ms, s_value = v, s_flags = flags\<rparr> b))"

definition temporality_label :: "'e mx_env_scheme \<Rightarrow> temporality \<Rightarrow> (string \<times> string) list" where
  "temporality_label E temp = [(''__temporality__'', mx_temporalityString E temp)]"

definition add_levels_metadata ::
  "'e mx_env_scheme \<Rightarrow> series \<Rightarrow> string \<Rightarrow> metric_type \<Rightarrow> temporality \<Rightarrow> int \<Rightarrow> int \<Rightarrow> batch \<Rightarrow> batch" where
  "add_levels_metadata E se name ty temp firstSeen lastSeen b =
     addMetadata E name (se_desc se) (se_unit se) ty temp (se_isMonotonic se) (se_scope se) firstSeen lastSeen
       (addMetadata E name (se_desc se) (se_unit se) ty temp (se_isMonotonic se) (se_resource se) firstSeen lastSeen b)"

section \<open>The loop over data points\<close>

text \<open>The batch with the first and last time seen, which also count for points that are skipped.\<close>

definition point_loop :: "('p \<Rightarrow> u64) \<Rightarrow> ('p \<Rightarrow> bool) \<Rightarrow> ('p \<Rightarrow> batch \<Rightarrow> batch) \<Rightarrow> 'p list \<Rightarrow> batch \<Rightarrow> batch \<times> int \<times> int" where
  "point_loop time skip put dps b =
     fold (\<lambda>dp (b, firstSeen, lastSeen).
        (if skip dp then b else put dp b, min firstSeen (unix_milli (time dp)), max lastSeen (unix_milli (time dp))))
       dps (b, i64_max, 0)"

definition number_float :: "'e mx_env_scheme \<Rightarrow> number_value \<Rightarrow> f64" where
  "number_float E v = (case v of NumberEmpty \<Rightarrow> 0 | NumberInt i \<Rightarrow> mx_floatOfInt E i | NumberDouble d \<Rightarrow> d)"

definition process_numbers :: "'e mx_env_scheme \<Rightarrow> series \<Rightarrow> number_point list \<Rightarrow> batch \<Rightarrow> batch" where
  "process_numbers E se dps b =
     (let (b1, firstSeen, lastSeen) =
        point_loop np_time (\<lambda>dp. IsNaN (number_float E (np_value dp)))
          (\<lambda>dp. put_point E se (se_name se) (se_typ se) (se_temporality se) (temporality_label E (se_temporality se))
             (np_attrs dp) (unix_milli (np_time dp)) (number_float E (np_value dp)) (np_flags dp)) dps b
      in add_levels_metadata E se (se_name se) (se_typ se) (se_temporality se) firstSeen lastSeen b1)"

definition processGauge ::
  "'e mx_env_scheme \<Rightarrow> metric \<Rightarrow> number_point list \<Rightarrow> string \<Rightarrow> fingerprint \<Rightarrow> fingerprint \<Rightarrow> batch \<Rightarrow> batch" where
  "processGauge E m dps env resource scope =
     process_numbers E (series_of m env resource scope TemporalityUnspecified False) dps"

definition processSum ::
  "'e mx_env_scheme \<Rightarrow> metric \<Rightarrow> temporality \<Rightarrow> bool \<Rightarrow> number_point list \<Rightarrow> string \<Rightarrow> fingerprint \<Rightarrow> fingerprint \<Rightarrow>
     batch \<Rightarrow> batch" where
  "processSum E m temp isMonotonic dps env resource scope =
     process_numbers E (series_of m env resource scope temp isMonotonic) dps"

section \<open>Histograms\<close>

definition or_zero :: "f64 option \<Rightarrow> f64" where
  "or_zero x = (case x of None \<Rightarrow> 0 | Some f \<Rightarrow> f)"

text \<open>The value, type and temporality of the sample with a suffix, of a point with the given fields.\<close>

definition suffix_sample ::
  "'e mx_env_scheme \<Rightarrow> series \<Rightarrow> u64 \<Rightarrow> f64 \<Rightarrow> f64 \<Rightarrow> f64 \<Rightarrow> string \<Rightarrow> f64 \<times> metric_type \<times> temporality" where
  "suffix_sample E se cnt sm mn mx suffix =
     (if suffix = countSuffix then (mx_floatOfUint E cnt, MetricTypeSum, se_temporality se)
      else if suffix = sumSuffix then (sm, MetricTypeSum, se_temporality se)
      else if suffix = minSuffix then (mn, MetricTypeGauge, TemporalityUnspecified)
      else if suffix = maxSuffix then (mx, MetricTypeGauge, TemporalityUnspecified)
      else (0, se_typ se, se_temporality se))"

definition histogram_addSample ::
  "'e mx_env_scheme \<Rightarrow> series \<Rightarrow> histogram_point \<Rightarrow> string \<Rightarrow> batch \<Rightarrow> batch" where
  "histogram_addSample E se dp suffix b =
     (let (v, sampleTyp, sampleTemporality) =
        suffix_sample E se (hp_count dp) (or_zero (hp_sum dp)) (or_zero (hp_min dp)) (or_zero (hp_max dp)) suffix
      in put_point E se (se_name se @ suffix) sampleTyp sampleTemporality (temporality_label E sampleTemporality)
           (hp_attrs dp) (unix_milli (hp_time dp)) v (hp_flags dp) b)"

definition put_bucket :: "'e mx_env_scheme \<Rightarrow> series \<Rightarrow> histogram_point \<Rightarrow> string \<Rightarrow> string \<Rightarrow> u64 \<Rightarrow> batch \<Rightarrow> batch" where
  "put_bucket E se dp suffix bound cumulativeCount =
     put_point E se (se_name se @ suffix) (se_typ se) (se_temporality se)
       ((''le'', bound) # temporality_label E (se_temporality se))
       (hp_attrs dp) (unix_milli (hp_time dp)) (mx_floatOfUint E cumulativeCount) (hp_flags dp)"

text \<open>The loop stops at the shorter of the bounds and the counts.\<close>

fun bucket_loop ::
  "'e mx_env_scheme \<Rightarrow> series \<Rightarrow> histogram_point \<Rightarrow> string \<Rightarrow> f64 list \<Rightarrow> u64 list \<Rightarrow> u64 \<Rightarrow> batch \<Rightarrow> batch" where
  "bucket_loop E se dp suffix (bound # bounds) (c # cs) cumulativeCount b =
     bucket_loop E se dp suffix bounds cs (cumulativeCount + c)
       (put_bucket E se dp suffix (mx_formatFloat E bound) (cumulativeCount + c) b)"
| "bucket_loop E se dp suffix _ _ cumulativeCount b = b"

definition addBucketSample :: "'e mx_env_scheme \<Rightarrow> series \<Rightarrow> histogram_point \<Rightarrow> string \<Rightarrow> batch \<Rightarrow> batch" where
  "addBucketSample E se dp suffix b =
     put_bucket E se dp suffix ''+Inf'' (hp_count dp)
       (bucket_loop E se dp suffix (hp_bounds dp) (hp_buckets dp) 0 b)"

definition when_set :: "'a option \<Rightarrow> ('b \<Rightarrow> 'b) \<Rightarrow> 'b \<Rightarrow> 'b" where
  "when_set x f b = (case x of None \<Rightarrow> b | Some _ \<Rightarrow> f b)"

definition histogram_point_samples :: "'e mx_env_scheme \<Rightarrow> series \<Rightarrow> histogram_point \<Rightarrow> batch \<Rightarrow> batch" where
  "histogram_point_samples E se dp b =
     addBucketSample E se dp bucketSuffix
       (when_set (hp_max dp) (histogram_addSample E se dp maxSuffix)
         (when_set (hp_min dp) (histogram_addSample E se dp minSuffix)
           (when_set (hp_sum dp) (histogram_addSample E se dp sumSuffix)
             (histogram_addSample E se dp countSuffix b))))"

definition processHistogram ::
  "'e mx_env_scheme \<Rightarrow> metric \<Rightarrow> temporality \<Rightarrow> histogram_point list \<Rightarrow> string \<Rightarrow> fingerprint \<Rightarrow> fingerprint \<Rightarrow>
     batch \<Rightarrow> batch" where
  "processHistogram E m temp dps env resource scope b =
     (let se = series_of m env resource scope temp True;
          (b1, firstSeen, lastSeen) =
            point_loop hp_time
              (\<lambda>dp. IsNaN (or_zero (hp_sum dp)) \<or> IsNaN (or_zero (hp_min dp)) \<or> IsNaN (or_zero (hp_max dp)))
              (histogram_point_samples E se) dps b
      in fold (\<lambda>(suffix, ty, te). add_levels_metadata E se (m_name m @ suffix) ty te firstSeen lastSeen)
           [(countSuffix, MetricTypeSum, temp), (sumSuffix, MetricTypeSum, temp),
            (minSuffix, MetricTypeGauge, TemporalityUnspecified), (maxSuffix, MetricTypeGauge, TemporalityUnspecified),
            (bucketSuffix, se_typ se, temp)] b1)"

section \<open>Summaries\<close>

definition summary_addSample :: "'e mx_env_scheme \<Rightarrow> series \<Rightarrow> summary_point \<Rightarrow> string \<Rightarrow> batch \<Rightarrow> batch" where
  "summary_addSample E se dp suffix b =
     (let (v, sampleTyp) =
        (if suffix = countSuffix then (mx_floatOfUint E (sp_count dp), MetricTypeSum)
         else if suffix = sumSuffix then (sp_sum dp, MetricTypeSum) else (0, se_typ se))
      in put_point E se (se_name se @ suffix) sampleTyp (se_temporality se) (temporality_label E (se_temporality se))
           (sp_attrs dp) (unix_milli (sp_time dp)) v (sp_flags dp) b)"

definition addQuantileSample :: "'e mx_env_scheme \<Rightarrow> series \<Rightarrow> summary_point \<Rightarrow> string \<Rightarrow> batch \<Rightarrow> batch" where
  "addQuantileSample E se dp suffix b =
     fold (\<lambda>(q, v). put_point E se (se_name se @ suffix) (se_typ se) (se_temporality se)
            ((''quantile'', mx_formatFloat E q) # temporality_label E (se_temporality se))
            (sp_attrs dp) (unix_milli (sp_time dp)) v (sp_flags dp)) (sp_quantiles dp) b"

definition summary_point_samples :: "'e mx_env_scheme \<Rightarrow> series \<Rightarrow> summary_point \<Rightarrow> batch \<Rightarrow> batch" where
  "summary_point_samples E se dp b =
     addQuantileSample E se dp quantilesSuffix (summary_addSample E se dp sumSuffix (summary_addSample E se dp countSuffix b))"

definition processSummary ::
  "'e mx_env_scheme \<Rightarrow> metric \<Rightarrow> summary_point list \<Rightarrow> string \<Rightarrow> fingerprint \<Rightarrow> fingerprint \<Rightarrow> batch \<Rightarrow> batch" where
  "processSummary E m dps env resource scope b =
     (let se = series_of m env resource scope TemporalityCumulative True;
          (b1, firstSeen, lastSeen) =
            point_loop sp_time (\<lambda>dp. IsNaN (sp_sum dp) \<or> list_ex (\<lambda>(q, v). IsNaN v) (sp_quantiles dp))
              (summary_point_samples E se) dps b
      in fold (\<lambda>(suffix, ty). add_levels_metadata E se (m_name m @ suffix) ty TemporalityCumulative firstSeen lastSeen)
           [(countSuffix, MetricTypeSum), (sumSuffix, MetricTypeSum), (quantilesSuffix, se_typ se)] b1)"

section \<open>Exponential histograms\<close>

text \<open>The labels have the temporality of the metric, also for the minimum and the maximum.\<close>

definition exp_addSample :: "'e mx_env_scheme \<Rightarrow> series \<Rightarrow> exp_histogram_point \<Rightarrow> string \<Rightarrow> batch \<Rightarrow> batch" where
  "exp_addSample E se dp suffix b =
     (let (v, sampleTyp, sampleTemporality) =
        suffix_sample E se (ep_count dp) (or_zero (ep_sum dp)) (or_zero (ep_min dp)) (or_zero (ep_max dp)) suffix
      in put_point E se (se_name se @ suffix) sampleTyp sampleTemporality (temporality_label E (se_temporality se))
           (ep_attrs dp) (unix_milli (ep_time dp)) v (ep_flags dp) b)"

definition addDDSketchSample :: "'e mx_env_scheme \<Rightarrow> series \<Rightarrow> exp_histogram_point \<Rightarrow> batch \<Rightarrow> batch" where
  "addDDSketchSample E se dp b =
     (let ms = unix_milli (ep_time dp);
          f = NewFingerprint (mx_asString E) PointFingerprintType (fp_hash (se_scope se)) (ep_attrs dp)
                (temporality_label E (se_temporality se))
      in put_series E se (se_name se) (se_typ se) (se_temporality se) f ms
           (addExpHist
             \<lparr>x_env = se_env se, x_temporality = se_temporality se, x_metricName = se_name se,
              x_fingerprint = HashWithName f (se_name se), x_unixMilli = ms,
              x_sketch =
                \<lparr>dd_gamma = mx_gamma E (ep_scale dp),
                 dd_positiveOffset = ep_positiveOffset dp, dd_positive = map (mx_floatOfUint E) (ep_positive dp),
                 dd_negativeOffset = ep_negativeOffset dp, dd_negative = map (mx_floatOfUint E) (ep_negative dp),
                 dd_zeroCount = mx_floatOfUint E (ep_zeroCount dp)\<rparr>,
              x_count = mx_floatOfUint E (ep_count dp), x_sum = or_zero (ep_sum dp),
              x_min = or_zero (ep_min dp), x_max = or_zero (ep_max dp), x_flags = ep_flags dp\<rparr> b))"

definition exp_point_samples :: "'e mx_env_scheme \<Rightarrow> series \<Rightarrow> exp_histogram_point \<Rightarrow> batch \<Rightarrow> batch" where
  "exp_point_samples E se dp b =
     addDDSketchSample E se dp
       (when_set (ep_max dp) (exp_addSample E se dp maxSuffix)
         (when_set (ep_min dp) (exp_addSample E se dp minSuffix)
           (when_set (ep_sum dp) (exp_addSample E se dp sumSuffix)
             (exp_addSample E se dp countSuffix b))))"

definition processExponentialHistogram ::
  "'e mx_env_scheme \<Rightarrow> bool \<Rightarrow> metric \<Rightarrow> temporality \<Rightarrow> exp_histogram_point list \<Rightarrow> string \<Rightarrow> fingerprint \<Rightarrow> fingerprint \<Rightarrow>
     batch \<Rightarrow> batch" where
  "processExponentialHistogram E enableExpHist m temp dps env resource scope b =
     (if \<not> enableExpHist \<or> temp \<noteq> TemporalityDelta then b
      else
        (let se = series_of m env resource scope temp True;
             (b1, firstSeen, lastSeen) =
               point_loop ep_time
                 (\<lambda>dp. IsNaN (or_zero (ep_sum dp)) \<or> IsNaN (or_zero (ep_min dp)) \<or> IsNaN (or_zero (ep_max dp)))
                 (exp_point_samples E se) dps b
         in fold (\<lambda>(suffix, ty, te). add_levels_metadata E se (m_name m @ suffix) ty te firstSeen lastSeen)
              [(countSuffix, MetricTypeSum, temp), (sumSuffix, MetricTypeSum, temp),
               (minSuffix, MetricTypeGauge, TemporalityUnspecified), (maxSuffix, MetricTypeGauge, TemporalityUnspecified)] b1))"

section \<open>A batch\<close>

definition process_metric ::
  "'e mx_env_scheme \<Rightarrow> bool \<Rightarrow> string \<Rightarrow> fingerprint \<Rightarrow> fingerprint \<Rightarrow> metric \<Rightarrow> batch \<Rightarrow> batch" where
  "process_metric E enableExpHist env resource scope m b =
     (case m_body m of
        MetricGauge dps \<Rightarrow> processGauge E m dps env resource scope b
      | MetricSum temp isMonotonic dps \<Rightarrow> processSum E m temp isMonotonic dps env resource scope b
      | MetricHistogram temp dps \<Rightarrow> processHistogram E m temp dps env resource scope b
      | MetricSummary dps \<Rightarrow> processSummary E m dps env resource scope b
      | MetricExponentialHistogram temp dps \<Rightarrow>
          processExponentialHistogram E enableExpHist m temp dps env resource scope b
      | MetricEmpty \<Rightarrow> b)"

definition resource_fingerprint :: "'e mx_env_scheme \<Rightarrow> resource_metrics \<Rightarrow> fingerprint" where
  "resource_fingerprint E rm = NewFingerprint (mx_asString E) ResourceFingerprintType InitialOffset (rm_resource rm) []"

definition scope_fingerprint :: "'e mx_env_scheme \<Rightarrow> fingerprint \<Rightarrow> scope_metrics \<Rightarrow> fingerprint" where
  "scope_fingerprint E resource sm =
     NewFingerprint (mx_asString E) ScopeFingerprintType (fp_hash resource) (sm_scopeAttrs sm)
       [(''__scope.name__'', sm_scopeName sm), (''__scope.version__'', sm_scopeVersion sm),
        (''__scope.schema_url__'', sm_schemaUrl sm)]"

definition deployment_env :: "'e mx_env_scheme \<Rightarrow> resource_metrics \<Rightarrow> string" where
  "deployment_env E rm =
     (case map_of (rm_resource rm) ''deployment.environment'' of None \<Rightarrow> [] | Some v \<Rightarrow> mx_asString E v)"

definition prepareBatch :: "'e mx_env_scheme \<Rightarrow> bool \<Rightarrow> metrics \<Rightarrow> batch" where
  "prepareBatch E enableExpHist md =
     fold (\<lambda>rm.
       let resource = resource_fingerprint E rm in
       fold (\<lambda>sm.
         let scope = scope_fingerprint E resource sm in
         fold (process_metric E enableExpHist (deployment_env E rm) resource scope) (sm_metrics sm)) (rm_scopes rm))
       md newBatch"

section \<open>Writing\<close>

text \<open>What the driver answers for a table: to preparing, to each row appended, to sending.\<close>

record 'row table_driver =
  prepareErr :: "string option"
  appendErr :: "'row \<Rightarrow> string option"
  sendErr :: "string option"

fun append_rows :: "('row \<Rightarrow> string option) \<Rightarrow> 'row list \<Rightarrow> string option" where
  "append_rows err [] = None"
| "append_rows err (r # rs) = (case err r of Some e \<Rightarrow> Some e | None \<Rightarrow> append_rows err rs)"

text \<open>The error and the rows that reach the table.\<close>

definition write_rows :: "'row table_driver \<Rightarrow> 'row list \<Rightarrow> string option \<times> 'row list" where
  "write_rows d rows =
     (if rows = [] then (None, [])
      else case prepareErr d of
        Some e \<Rightarrow> (Some e, [])
      | None \<Rightarrow>
          (case append_rows (appendErr d) rows of
             Some e \<Rightarrow> (Some e, [])
           | None \<Rightarrow> (case sendErr d of Some e \<Rightarrow> (Some e, []) | None \<Rightarrow> (None, rows))))"

definition makeCacheKey :: "u64 \<Rightarrow> u64 \<Rightarrow> string" where
  "makeCacheKey a b = nat_digits (unat a) @ '':'' @ nat_digits (unat b)"

definition roundedUnixMilli :: "int \<Rightarrow> int" where
  "roundedUnixMilli ms = go_quot ms 3600000 * 3600000"

definition series_key :: "time_series \<Rightarrow> string" where
  "series_key t = makeCacheKey (ts_fingerprint t) (word_of_int (roundedUnixMilli (ts_unixMilli t)))"

text \<open>The loop over the series: the error, the cache, and the rows appended so far.\<close>

fun series_loop ::
  "(time_series \<Rightarrow> string option) \<Rightarrow> time_series list \<Rightarrow> string set \<Rightarrow> time_series list \<Rightarrow>
     string option \<times> string set \<times> time_series list" where
  "series_loop err [] cache rows = (None, cache, rows)"
| "series_loop err (t # ts) cache rows =
     (if series_key t \<in> cache then series_loop err ts cache rows
      else (let row = t\<lparr>ts_unixMilli := roundedUnixMilli (ts_unixMilli t)\<rparr>
            in case err row of
                 Some e \<Rightarrow> (Some e, cache, rows)
               | None \<Rightarrow> series_loop err ts (insert (series_key t) cache) (rows @ [row])))"

definition writeTimeSeries ::
  "time_series table_driver \<Rightarrow> time_series list \<Rightarrow> string set \<Rightarrow> string option \<times> string set \<times> time_series list" where
  "writeTimeSeries d timeSeries cache =
     (if timeSeries = [] then (None, cache, [])
      else case prepareErr d of
        Some e \<Rightarrow> (Some e, cache, [])
      | None \<Rightarrow>
          (case series_loop (appendErr d) timeSeries cache [] of
             (Some e, cache', _) \<Rightarrow> (Some e, cache', [])
           | (None, cache', rows) \<Rightarrow>
               (case sendErr d of Some e \<Rightarrow> (Some e, cache', []) | None \<Rightarrow> (None, cache', rows))))"

definition collectUsage :: "sample \<Rightarrow> bool" where
  "collectUsage s \<longleftrightarrow> \<not> (has_prefix ''signoz'' (s_metricName s) \<or> has_prefix ''chi'' (s_metricName s) \<or>
     has_prefix ''otelcol'' (s_metricName s))"

text \<open>Samples, with the number added to the usage: it is recorded before sending.\<close>

definition writeSamples :: "sample table_driver \<Rightarrow> sample list \<Rightarrow> string option \<times> sample list \<times> nat" where
  "writeSamples d samples =
     (let (err, rows) = write_rows d samples;
          appended = (samples \<noteq> [] \<and> prepareErr d = None \<and> append_rows (appendErr d) samples = None)
      in (err, rows, if appended then length (filter collectUsage samples) else 0))"

record mx_driver =
  d_ts :: "time_series table_driver"
  d_samples :: "sample table_driver"
  d_expHist :: "exp_sample table_driver"
  d_metadata :: "metadata_row table_driver"

text \<open>The cache, the tables, the usage counter.\<close>

record mx_state =
  mx_cache :: "string set"
  t_series :: "time_series list"
  t_samples :: "sample list"
  t_expHist :: "exp_sample list"
  t_metadata :: "metadata_row list"
  mx_usage :: nat
  mx_closed :: bool

definition newExporter :: mx_state where
  "newExporter = \<lparr>mx_cache = {}, t_series = [], t_samples = [], t_expHist = [], t_metadata = [],
     mx_usage = 0, mx_closed = False\<rparr>"

text \<open>
  The four writes run in parallel on state of their own; their errors are joined, but that of the
  metadata is only logged.
\<close>

definition writeBatch :: "mx_driver \<Rightarrow> batch \<Rightarrow> mx_state \<Rightarrow> string list \<times> mx_state" where
  "writeBatch d b st =
     (let (e1, cache, series) = writeTimeSeries (d_ts d) (b_ts b) (mx_cache st);
          (e2, samples, used) = writeSamples (d_samples d) (b_samples b);
          (e3, expHist) = write_rows (d_expHist d) (b_expHist b);
          (e4, md) = write_rows (d_metadata d) (b_metadata b)
      in (map the (filter (\<lambda>e. e \<noteq> None) [e1, e2, e3]),
          st\<lparr>mx_cache := cache, t_series := t_series st @ series, t_samples := t_samples st @ samples,
             t_expHist := t_expHist st @ expHist, t_metadata := t_metadata st @ md, mx_usage := mx_usage st + used\<rparr>))"

definition PushMetrics ::
  "'e mx_env_scheme \<Rightarrow> bool \<Rightarrow> mx_driver \<Rightarrow> metrics \<Rightarrow> mx_state \<Rightarrow> string list \<times> mx_state" where
  "PushMetrics E enableExpHist d md st =
     (if mx_closed st then ([''shutdown has been called''], st)
      else writeBatch d (prepareBatch E enableExpHist md) st)"

definition mx_Shutdown :: "mx_state \<Rightarrow> mx_state" where
  "mx_Shutdown st = st\<lparr>mx_closed := True\<rparr>"

text \<open>An entry of the cache expires after 45 minutes.\<close>

definition cache_expire :: "string \<Rightarrow> mx_state \<Rightarrow> mx_state" where
  "cache_expire key st = st\<lparr>mx_cache := mx_cache st - {key}\<rparr>"

datatype mx_event = MxPush mx_driver metrics | MxExpire string | MxShutdown

fun mx_run :: "'e mx_env_scheme \<Rightarrow> bool \<Rightarrow> mx_event list \<Rightarrow> mx_state \<Rightarrow> mx_state" where
  "mx_run E en [] st = st"
| "mx_run E en (MxPush d md # evs) st = mx_run E en evs (snd (PushMetrics E en d md st))"
| "mx_run E en (MxExpire key # evs) st = mx_run E en evs (cache_expire key st)"
| "mx_run E en (MxShutdown # evs) st = mx_run E en evs (mx_Shutdown st)"

end
