(* ===== verification/MetricsExporterTheorems.thy ===== *)
theory MetricsExporterTheorems
  imports MetricsExporter Metering
begin

text \<open>
  What the metrics exporter writes: the samples of each kind of metric, as many as the meter bills, each
  with its series; and how the cache of series behaves when a write fails.
\<close>

section \<open>The samples of a batch\<close>

definition sample_row ::
  "'e mx_env_scheme \<Rightarrow> series \<Rightarrow> string \<Rightarrow> temporality \<Rightarrow> (string \<times> string) list \<Rightarrow> vmap \<Rightarrow> int \<Rightarrow> f64 \<Rightarrow> u32 \<Rightarrow> sample" where
  "sample_row E se name temp extras attrs ms v flags =
     \<lparr>s_env = se_env se, s_temporality = temp, s_metricName = name,
      s_fingerprint = HashWithName (NewFingerprint (mx_asString E) PointFingerprintType (fp_hash (se_scope se)) attrs extras) name,
      s_unixMilli = ms, s_value = v, s_flags = flags\<rparr>"

lemma b_samples_simps [simp]:
  "b_samples (addMetadata E name desc un ty temp isMonotonic f fs ls b) = b_samples b"
  "b_samples (addTs t b) = b_samples b"
  "b_samples (addExpHist x b) = b_samples b"
  "b_samples (addSample s b) = b_samples b @ [s]"
  "b_samples (put_series E se name ty temp f ms b) = b_samples b"
  "b_samples (add_levels_metadata E se name ty temp fs ls b) = b_samples b"
  "b_samples newBatch = []"
  by (simp_all add: addMetadata_def addTs_def addExpHist_def addSample_def put_series_def add_levels_metadata_def
      newBatch_def Let_def split: prod.split)

lemma b_samples_put_point [simp]:
  "b_samples (put_point E se name ty temp extras attrs ms v flags b) =
     b_samples b @ [sample_row E se name temp extras attrs ms v flags]"
  by (simp add: put_point_def Let_def sample_row_def)

lemma b_samples_fold_same:
  "(\<And>x b. b_samples (f x b) = b_samples b) \<Longrightarrow> b_samples (fold f xs b) = b_samples b"
  by (induction xs arbitrary: b) simp_all

text \<open>The loop over data points appends what each point that is not skipped gives.\<close>

lemma b_samples_point_loop:
  assumes "\<And>dp b. b_samples (put dp b) = b_samples b @ g dp"
  shows "b_samples (fst (point_loop time skip put dps b)) =
    b_samples b @ concat (map g (filter (\<lambda>dp. \<not> skip dp) dps))"
proof -
  have "b_samples (fst (fold (\<lambda>dp (b, x, y).
        (if skip dp then b else put dp b, min x (unix_milli (time dp)), max y (unix_milli (time dp)))) dps (b, x, y))) =
      b_samples b @ concat (map g (filter (\<lambda>dp. \<not> skip dp) dps))" for b x y
    by (induction dps arbitrary: b x y) (simp_all add: assms)
  then show ?thesis unfolding point_loop_def by blast
qed

lemmas point_loop_cases = prod.split

lemma b_samples_numbers:
  "b_samples (process_numbers E se dps b) = b_samples b @
     map (\<lambda>dp. sample_row E se (se_name se) (se_temporality se) (temporality_label E (se_temporality se)) (np_attrs dp)
            (unix_milli (np_time dp)) (number_float E (np_value dp)) (np_flags dp))
       (filter (\<lambda>dp. \<not> IsNaN (number_float E (np_value dp))) dps)"
proof -
  let ?put = "\<lambda>dp. put_point E se (se_name se) (se_typ se) (se_temporality se) (temporality_label E (se_temporality se))
     (np_attrs dp) (unix_milli (np_time dp)) (number_float E (np_value dp)) (np_flags dp)"
  let ?row = "\<lambda>dp. sample_row E se (se_name se) (se_temporality se) (temporality_label E (se_temporality se)) (np_attrs dp)
     (unix_milli (np_time dp)) (number_float E (np_value dp)) (np_flags dp)"
  obtain b1 x y where l: "point_loop np_time (\<lambda>dp. IsNaN (number_float E (np_value dp))) ?put dps b = (b1, x, y)"
    by (rule prod_cases3)
  have "b_samples b1 = b_samples b @ concat (map (\<lambda>dp. [?row dp]) (filter (\<lambda>dp. \<not> IsNaN (number_float E (np_value dp))) dps))"
    using b_samples_point_loop [of ?put "\<lambda>dp. [?row dp]" np_time "\<lambda>dp. IsNaN (number_float E (np_value dp))" dps b] l
    by simp
  then show ?thesis by (simp add: process_numbers_def l)
qed

section \<open>Histograms\<close>

text \<open>The sample of a bucket: the count of all observations up to its bound.\<close>

definition bucket_row :: "'e mx_env_scheme \<Rightarrow> series \<Rightarrow> histogram_point \<Rightarrow> string \<Rightarrow> u64 \<Rightarrow> sample" where
  "bucket_row E se dp bound n =
     sample_row E se (se_name se @ ''.bucket'') (se_temporality se)
       [(''le'', bound), (''__temporality__'', mx_temporalityString E (se_temporality se))]
       (hp_attrs dp) (unix_milli (hp_time dp)) (mx_floatOfUint E n) (hp_flags dp)"

definition part_row ::
  "'e mx_env_scheme \<Rightarrow> series \<Rightarrow> histogram_point \<Rightarrow> string \<Rightarrow> temporality \<Rightarrow> f64 \<Rightarrow> sample" where
  "part_row E se dp suffix temp v =
     sample_row E se (se_name se @ suffix) temp [(''__temporality__'', mx_temporalityString E temp)]
       (hp_attrs dp) (unix_milli (hp_time dp)) v (hp_flags dp)"

definition opt_row :: "'a option \<Rightarrow> ('a \<Rightarrow> sample) \<Rightarrow> sample list" where
  "opt_row x row = (case x of None \<Rightarrow> [] | Some v \<Rightarrow> [row v])"

definition histogram_rows :: "'e mx_env_scheme \<Rightarrow> series \<Rightarrow> histogram_point \<Rightarrow> sample list" where
  "histogram_rows E se dp =
     [part_row E se dp ''.count'' (se_temporality se) (mx_floatOfUint E (hp_count dp))] @
     opt_row (hp_sum dp) (part_row E se dp ''.sum'' (se_temporality se)) @
     opt_row (hp_min dp) (part_row E se dp ''.min'' TemporalityUnspecified) @
     opt_row (hp_max dp) (part_row E se dp ''.max'' TemporalityUnspecified) @
     map (\<lambda>i. bucket_row E se dp (mx_formatFloat E (hp_bounds dp ! i)) (sum_list (take (Suc i) (hp_buckets dp))))
       [0..<min (length (hp_bounds dp)) (length (hp_buckets dp))] @
     [bucket_row E se dp ''+Inf'' (hp_count dp)]"

lemmas suffix_defs = countSuffix_def sumSuffix_def minSuffix_def maxSuffix_def bucketSuffix_def quantilesSuffix_def

lemma b_samples_put_bucket [simp]:
  "b_samples (put_bucket E se dp bucketSuffix bound n b) = b_samples b @ [bucket_row E se dp bound n]"
  by (simp add: put_bucket_def bucket_row_def temporality_label_def suffix_defs)

lemma b_samples_bucket_loop:
  "b_samples (bucket_loop E se dp bucketSuffix bounds cs cum b) = b_samples b @
     map (\<lambda>i. bucket_row E se dp (mx_formatFloat E (bounds ! i)) (cum + sum_list (take (Suc i) cs)))
       [0..<min (length bounds) (length cs)]"
proof (induction E se dp bucketSuffix bounds cs cum b rule: bucket_loop.induct)
  case (1 E se dp bound bounds c cs cum b)
  have "[0..<min (length (bound # bounds)) (length (c # cs))] =
      0 # map Suc [0..<min (length bounds) (length cs)]"
    by (simp add: map_Suc_upt upt_conv_Cons del: upt_Suc)
  then show ?case using 1 by (simp add: add.assoc del: upt_Suc)
qed simp_all

lemma b_samples_histogram_part:
  "b_samples (histogram_addSample E se dp suffix b) = b_samples b @
     [case suffix_sample E se (hp_count dp) (or_zero (hp_sum dp)) (or_zero (hp_min dp)) (or_zero (hp_max dp)) suffix of
        (v, ty, temp) \<Rightarrow> part_row E se dp suffix temp v]"
  by (simp add: histogram_addSample_def part_row_def temporality_label_def split: prod.split)

lemma b_samples_histogram_parts:
  "b_samples (histogram_addSample E se dp countSuffix b) =
     b_samples b @ [part_row E se dp ''.count'' (se_temporality se) (mx_floatOfUint E (hp_count dp))]"
  "b_samples (histogram_addSample E se dp sumSuffix b) =
     b_samples b @ [part_row E se dp ''.sum'' (se_temporality se) (or_zero (hp_sum dp))]"
  "b_samples (histogram_addSample E se dp minSuffix b) =
     b_samples b @ [part_row E se dp ''.min'' TemporalityUnspecified (or_zero (hp_min dp))]"
  "b_samples (histogram_addSample E se dp maxSuffix b) =
     b_samples b @ [part_row E se dp ''.max'' TemporalityUnspecified (or_zero (hp_max dp))]"
  by (simp_all add: b_samples_histogram_part suffix_sample_def suffix_defs)

lemma b_samples_histogram_point:
  "b_samples (histogram_point_samples E se dp b) = b_samples b @ histogram_rows E se dp"
  by (cases "hp_sum dp"; cases "hp_min dp"; cases "hp_max dp")
    (simp_all add: histogram_point_samples_def addBucketSample_def b_samples_bucket_loop when_set_def
      b_samples_histogram_parts histogram_rows_def opt_row_def or_zero_def)

definition histogram_skipped :: "histogram_point \<Rightarrow> bool" where
  "histogram_skipped dp \<longleftrightarrow> IsNaN (or_zero (hp_sum dp)) \<or> IsNaN (or_zero (hp_min dp)) \<or> IsNaN (or_zero (hp_max dp))"

text \<open>C31: A histogram gives, for each point without a NaN, one sample with the count, one each for the sum, the
  minimum and the maximum that are set, one per bound with the number of observations up to it, and one
  for infinity with the count, in this order and with nothing else.\<close>

theorem histogram_samples:
  "b_samples (processHistogram E m temp dps env resource scope b) = b_samples b @
     concat (map (histogram_rows E (series_of m env resource scope temp True))
       (filter (\<lambda>dp. \<not> histogram_skipped dp) dps))"
proof -
  let ?se = "series_of m env resource scope temp True"
  let ?skip = "\<lambda>dp. IsNaN (or_zero (hp_sum dp)) \<or> IsNaN (or_zero (hp_min dp)) \<or> IsNaN (or_zero (hp_max dp))"
  obtain b1 x y where l: "point_loop hp_time ?skip (histogram_point_samples E ?se) dps b = (b1, x, y)"
    by (rule prod_cases3)
  have "b_samples b1 = b_samples b @ concat (map (histogram_rows E ?se) (filter (\<lambda>dp. \<not> ?skip dp) dps))"
    using b_samples_point_loop [where put = "histogram_point_samples E ?se" and g = "histogram_rows E ?se"
        and time = hp_time and skip = ?skip and dps = dps and b = b] l
    by (simp add: b_samples_histogram_point)
  then show ?thesis by (simp add: processHistogram_def Let_def l histogram_skipped_def)
qed

section \<open>As many samples as the meter bills\<close>

text \<open>
  Metrics that the meter bills and the exporter writes in the same way: a name that is billed, no NaN, as many
  buckets as the bounds delimit, no exponential histogram.
\<close>

definition billed_body :: "'e mx_env_scheme \<Rightarrow> metric_body \<Rightarrow> bool" where
  "billed_body E b \<longleftrightarrow>
     (case b of
        MetricEmpty \<Rightarrow> True
      | MetricGauge dps \<Rightarrow> list_all (\<lambda>dp. \<not> IsNaN (number_float E (np_value dp))) dps
      | MetricSum _ _ dps \<Rightarrow> list_all (\<lambda>dp. \<not> IsNaN (number_float E (np_value dp))) dps
      | MetricHistogram _ dps \<Rightarrow>
          list_all (\<lambda>dp. \<not> histogram_skipped dp \<and> length (hp_buckets dp) = length (hp_bounds dp) + 1) dps
      | MetricSummary dps \<Rightarrow>
          list_all (\<lambda>dp. \<not> (IsNaN (sp_sum dp) \<or> list_ex (\<lambda>(q, v). IsNaN v) (sp_quantiles dp))) dps
      | MetricExponentialHistogram _ dps \<Rightarrow> False)"

definition all_metrics :: "metrics \<Rightarrow> metric list" where
  "all_metrics md = concat (map (\<lambda>rm. concat (map sm_metrics (rm_scopes rm))) md)"

lemma length_quantiles:
  "length (b_samples (addQuantileSample E se dp suffix b)) = length (b_samples b) + length (sp_quantiles dp)"
proof -
  have "length (b_samples (fold (\<lambda>(q, v). put_point E se name ty temp (ex q) at ms v fl) qs b)) = length (b_samples b) + length qs"
    for qs name ty temp ex at ms fl b
    by (induction qs arbitrary: b) auto
  then show ?thesis by (simp add: addQuantileSample_def)
qed

lemma length_summary_point:
  "length (b_samples (summary_point_samples E se dp b)) = length (b_samples b) + (length (sp_quantiles dp) + 2)"
  by (simp add: summary_point_samples_def length_quantiles summary_addSample_def suffix_defs)

lemma length_point_loop:
  assumes "\<And>dp b. length (b_samples (put dp b)) = length (b_samples b) + n dp" and "list_all (\<lambda>dp. \<not> skip dp) dps"
  shows "length (b_samples (fst (point_loop time skip put dps b))) = length (b_samples b) + sum_list (map n dps)"
proof -
  have "length (b_samples (fst (fold (\<lambda>dp (b, x, y).
        (if skip dp then b else put dp b, min x (unix_milli (time dp)), max y (unix_milli (time dp)))) dps (b, x, y)))) =
      length (b_samples b) + sum_list (map n dps)" for b x y
    using assms(2) by (induction dps arbitrary: b x y) (simp_all add: assms(1))
  then show ?thesis unfolding point_loop_def by blast
qed

lemma length_histogram_rows:
  assumes "length (hp_buckets dp) = length (hp_bounds dp) + 1"
  shows "length (histogram_rows E se dp) =
    length (hp_buckets dp) + 1 + opt_count (hp_sum dp) + opt_count (hp_min dp) + opt_count (hp_max dp)"
  using assms by (simp add: histogram_rows_def opt_row_def opt_count_def split: option.split)

lemma length_process_metric:
  assumes "billed_body E (m_body m)" and "\<not> excludeRegex (m_name m)"
  shows "length (b_samples (process_metric E enableExpHist env resource scope m b)) = length (b_samples b) + metric_samples m"
proof (cases "m_body m")
  case (MetricHistogram temp dps)
  then have all: "list_all (\<lambda>dp. \<not> histogram_skipped dp \<and> length (hp_buckets dp) = length (hp_bounds dp) + 1) dps"
    using assms(1) by (simp add: billed_body_def)
  then have f: "filter (\<lambda>dp. \<not> histogram_skipped dp) dps = dps" by (simp add: filter_id_conv list_all_iff)
  have "length (concat (map (histogram_rows E se) dps)) = sum_list (map (\<lambda>dp. length (hp_buckets dp) + 1 +
      opt_count (hp_sum dp) + opt_count (hp_min dp) + opt_count (hp_max dp)) dps)" for se
    unfolding length_concat map_map comp_def
    by (rule arg_cong [where f = sum_list], rule map_cong [OF refl])
      (use all in \<open>simp add: list_all_iff length_histogram_rows\<close>)
  then show ?thesis
    using assms(2) MetricHistogram f by (simp add: process_metric_def histogram_samples metric_samples_def)
next
  case (MetricSummary dps)
  let ?se = "series_of m env resource scope TemporalityCumulative True"
  let ?skip = "\<lambda>dp. IsNaN (sp_sum dp) \<or> list_ex (\<lambda>(q, v). IsNaN v) (sp_quantiles dp)"
  obtain b1 x y where l: "point_loop sp_time ?skip (summary_point_samples E ?se) dps b = (b1, x, y)"
    by (rule prod_cases3)
  have "list_all (\<lambda>dp. \<not> ?skip dp) dps" using assms(1) MetricSummary by (simp add: billed_body_def)
  then have "length (b_samples b1) = length (b_samples b) + sum_list (map (\<lambda>dp. length (sp_quantiles dp) + 2) dps)"
    using length_point_loop [where put = "summary_point_samples E ?se" and n = "\<lambda>dp. length (sp_quantiles dp) + 2"
        and skip = ?skip and dps = dps and time = sp_time and b = b] l
    by (simp add: length_summary_point)
  then show ?thesis
    using assms(2) MetricSummary by (simp add: process_metric_def processSummary_def Let_def l metric_samples_def)
next
  case (MetricGauge dps)
  then show ?thesis
    using assms by (simp add: process_metric_def processGauge_def b_samples_numbers metric_samples_def billed_body_def
        filter_id_conv list_all_iff cong: filter_cong)
next
  case (MetricSum temp isMonotonic dps)
  then show ?thesis
    using assms by (simp add: process_metric_def processSum_def b_samples_numbers metric_samples_def billed_body_def
        filter_id_conv list_all_iff cong: filter_cong)
next
  case (MetricExponentialHistogram temp dps)
  then show ?thesis using assms(1) by (simp add: billed_body_def)
qed (simp add: process_metric_def metric_samples_def)

text \<open>C11: The exporter writes exactly as many samples as the meter counts for billing, for payloads whose
  metrics have names that are billed and well-formed points without NaN, and no exponential histograms.\<close>

theorem exported_samples_are_billed:
  assumes "\<forall>m \<in> set (all_metrics md). billed_body E (m_body m) \<and> \<not> excludeRegex (m_name m)"
  shows "of_nat (length (b_samples (prepareBatch E enableExpHist md))) = metrics_Count md"
proof -
  have ms: "length (b_samples (fold (process_metric E enableExpHist env resource scope) ms b)) =
      length (b_samples b) + sum_list (map metric_samples ms)"
    if "\<forall>m \<in> set ms. billed_body E (m_body m) \<and> \<not> excludeRegex (m_name m)" for env resource scope ms b
    using that by (induction ms arbitrary: b) (simp_all add: length_process_metric)
  let ?scope = "\<lambda>rm sm. fold (process_metric E enableExpHist (deployment_env E rm) (resource_fingerprint E rm)
     (scope_fingerprint E (resource_fingerprint E rm) sm)) (sm_metrics sm)"
  have sms: "length (b_samples (fold (?scope rm) sms b)) =
      length (b_samples b) + sum_list (map (\<lambda>sm. sum_list (map metric_samples (sm_metrics sm))) sms)"
    if "\<forall>m \<in> set (concat (map sm_metrics sms)). billed_body E (m_body m) \<and> \<not> excludeRegex (m_name m)" for rm sms b
    using that by (induction sms arbitrary: b) (simp_all add: ms)
  have "length (b_samples (fold (\<lambda>rm. fold (?scope rm) (rm_scopes rm)) md b)) = length (b_samples b) +
      sum_list (map (\<lambda>rm. sum_list (map (\<lambda>sm. sum_list (map metric_samples (sm_metrics sm))) (rm_scopes rm))) md)" for b
    using assms unfolding all_metrics_def
  proof (induction md arbitrary: b)
    case (Cons rm md)
    then show ?case using sms [of "rm_scopes rm" rm b] by simp
  qed simp
  then show ?thesis
    by (simp add: prepareBatch_def Let_def metrics_Count_def metrics_CountPerResource_def [abs_def] comp_def of_nat_sum_list)
qed

definition sample_mx_env :: mx_env where
  "sample_mx_env =
     \<lparr>mx_asString = (\<lambda>v. case v of VStr s \<Rightarrow> s | _ \<Rightarrow> []),
      mx_temporalityString = (\<lambda>t. case t of TemporalityDelta \<Rightarrow> ''Delta'' | TemporalityCumulative \<Rightarrow> ''Cumulative''
         | TemporalityUnspecified \<Rightarrow> ''Unspecified''),
      mx_formatFloat = (\<lambda>f. nat_digits (unat f)), mx_floatOfInt = (\<lambda>i. i), mx_floatOfUint = (\<lambda>i. i),
      mx_gamma = (\<lambda>s. 0), mx_now = (\<lambda>n. 0)\<rparr>"

definition sample_histogram :: metric where
  "sample_histogram =
     \<lparr>m_name = ''http.duration'', m_description = [], m_unit = ''ms'',
      m_body = MetricHistogram TemporalityDelta
        [\<lparr>hp_attrs = [], hp_time = 3600000000000, hp_flags = 0, hp_count = 6, hp_sum = Some 9, hp_min = None, hp_max = None,
          hp_buckets = [1, 2, 3], hp_bounds = [10, 20]\<rparr>]\<rparr>"

definition sample_metrics :: metrics where
  "sample_metrics =
     [\<lparr>rm_resource = [(''service.name'', VStr ''a'')],
       rm_scopes = [\<lparr>sm_scopeName = [], sm_scopeVersion = [], sm_scopeAttrs = [], sm_schemaUrl = [],
         sm_metrics = [sample_histogram]\<rparr>]\<rparr>]"

theorem exported_samples_are_billed_witness:
  "length (b_samples (prepareBatch sample_mx_env False sample_metrics)) mod 2 ^ 64 = 5"
proof -
  have n: "\<not> IsNaN 0" "\<not> IsNaN 9" by (simp_all add: IsNaN_def)
  have a: "\<forall>m \<in> set (all_metrics sample_metrics). billed_body sample_mx_env (m_body m) \<and> \<not> excludeRegex (m_name m)"
    using n by (simp add: all_metrics_def sample_metrics_def sample_histogram_def billed_body_def histogram_skipped_def or_zero_def
        excludeRegex_def has_prefix_def)
  have "metrics_Count sample_metrics = 5"
    by (simp add: metrics_Count_def metrics_CountPerResource_def sample_metrics_def sample_histogram_def metric_samples_def
        excludeRegex_def has_prefix_def opt_count_def)
  then have "of_nat (length (b_samples (prepareBatch sample_mx_env False sample_metrics))) = (5 :: i64)"
    using exported_samples_are_billed [OF a, of False] by simp
  then have "unat (of_nat (length (b_samples (prepareBatch sample_mx_env False sample_metrics))) :: i64) = unat (5 :: i64)"
    by (rule arg_cong)
  then show ?thesis by (simp add: unat_of_nat take_bit_eq_mod)
qed

section \<open>Every sample has its series\<close>

text \<open>A property of batches that the steps of all process functions keep.\<close>

definition series_for :: "sample \<Rightarrow> time_series \<Rightarrow> bool" where
  "series_for s t \<longleftrightarrow> ts_env t = s_env s \<and> ts_temporality t = s_temporality s \<and> ts_metricName t = s_metricName s \<and>
     ts_fingerprint t = s_fingerprint s \<and> ts_unixMilli t = s_unixMilli s"

definition has_series :: "batch \<Rightarrow> bool" where
  "has_series b \<longleftrightarrow> (\<forall>s \<in> set (b_samples b). \<exists>t \<in> set (b_ts b). series_for s t)"

lemma b_ts_simps [simp]:
  "b_ts (addMetadata E name desc un ty temp isMonotonic f fs ls b) = b_ts b"
  "b_ts (addExpHist x b) = b_ts b"
  "b_ts (addSample s b) = b_ts b"
  "b_ts (addTs t b) = b_ts b @ [t]"
  by (simp_all add: addMetadata_def addTs_def addExpHist_def addSample_def Let_def split: prod.split)

lemma has_series_metadata: "has_series (addMetadata E name desc un ty temp isMonotonic f fs ls b) = has_series b"
  by (simp add: has_series_def)

lemma has_series_levels: "has_series (add_levels_metadata E se name ty temp fs ls b) = has_series b"
  by (simp add: add_levels_metadata_def has_series_metadata)

lemma has_series_put_series: "has_series b \<Longrightarrow> has_series (put_series E se name ty temp f ms b)"
  unfolding has_series_def by (auto simp: put_series_def)

lemma has_series_put_point: "has_series b \<Longrightarrow> has_series (put_point E se name ty temp extras attrs ms v flags b)"
  unfolding has_series_def by (auto simp: put_point_def Let_def put_series_def series_for_def)

lemma has_series_exp: "has_series (addExpHist x b) = has_series b"
  by (simp add: has_series_def)

lemma fold_keeps: "(\<And>x b. P b \<Longrightarrow> P (f x b)) \<Longrightarrow> P b \<Longrightarrow> P (fold f xs b)"
  by (induction xs arbitrary: b) auto

lemma point_loop_keeps:
  assumes "\<And>dp b. P b \<Longrightarrow> P (put dp b)" and "P b"
  shows "P (fst (point_loop time skip put dps b))"
proof -
  have "P (fst (fold (\<lambda>dp (b, x, y).
        (if skip dp then b else put dp b, min x (unix_milli (time dp)), max y (unix_milli (time dp)))) dps (b, x, y)))" for x y
    using assms(2) by (induction dps arbitrary: b x y) (simp_all add: assms(1))
  then show ?thesis unfolding point_loop_def by blast
qed

lemma when_set_keeps: "(\<And>b. P b \<Longrightarrow> P (f b)) \<Longrightarrow> P b \<Longrightarrow> P (when_set x f b)"
  by (simp add: when_set_def split: option.split)

lemma bucket_loop_keeps: "has_series b \<Longrightarrow> has_series (bucket_loop E se dp suffix bounds cs cum b)"
  by (induction E se dp suffix bounds cs cum b rule: bucket_loop.induct) (simp_all add: put_bucket_def has_series_put_point)

lemma has_series_points:
  "has_series b \<Longrightarrow> has_series (histogram_point_samples E se hp b)"
  "has_series b \<Longrightarrow> has_series (summary_point_samples E se sp b)"
  "has_series b \<Longrightarrow> has_series (exp_point_samples E se ep b)"
  by (auto simp: histogram_point_samples_def histogram_addSample_def addBucketSample_def put_bucket_def
      summary_point_samples_def summary_addSample_def addQuantileSample_def exp_point_samples_def exp_addSample_def
      addDDSketchSample_def Let_def has_series_exp
      intro!: when_set_keeps [where P = has_series] has_series_put_point bucket_loop_keeps fold_keeps [where P = has_series]
      has_series_put_series split: prod.split)

lemma point_loop_keeps':
  assumes "point_loop time skip put dps b = (b1, x, y)" and "\<And>dp b. P b \<Longrightarrow> P (put dp b)" and "P b"
  shows "P b1"
  using point_loop_keeps [of P put b time skip dps] assms by simp

lemma has_series_metric: "has_series b \<Longrightarrow> has_series (process_metric E enableExpHist env resource scope m b)"
  by (auto simp: process_metric_def processGauge_def processSum_def process_numbers_def processHistogram_def processSummary_def
      processExponentialHistogram_def Let_def has_series_levels has_series_points has_series_put_point
      elim!: point_loop_keeps' [where P = has_series]
      split: metric_body.split prod.split)

lemma has_series_prepareBatch: "has_series (prepareBatch E enableExpHist md)"
  unfolding prepareBatch_def Let_def
  by (intro fold_keeps [where P = has_series] has_series_metric) (simp_all add: has_series_def newBatch_def)

section \<open>The cache of series\<close>

definition row_key :: "time_series \<Rightarrow> string" where
  "row_key row = makeCacheKey (ts_fingerprint row) (word_of_int (ts_unixMilli row))"

lemma no_colon: "CHR '':'' \<notin> set (nat_digits n)"
proof -
  have "\<not> is_digit CHR '':''" by (simp add: is_digit_def)
  then show ?thesis using nat_digits_all_digits [of n] unfolding list_all_iff by blast
qed

lemma split_colon:
  "CHR '':'' \<notin> set xs \<Longrightarrow> CHR '':'' \<notin> set ys \<Longrightarrow> xs @ CHR '':'' # ps = ys @ CHR '':'' # qs \<longleftrightarrow> xs = ys \<and> ps = qs"
proof (induction xs arbitrary: ys)
  case Nil
  then show ?case by (cases ys) auto
next
  case (Cons x xs)
  then show ?case by (cases ys) auto
qed

lemma makeCacheKey_inject: "makeCacheKey a b = makeCacheKey a' b' \<longleftrightarrow> a = a' \<and> b = b'"
  using split_colon [OF no_colon no_colon, of "unat a" _ "unat a'"]
  by (simp add: makeCacheKey_def) (metis digits_val_nat_digits word_unat_eq_iff)

lemma series_loop_done:
  "series_loop (\<lambda>_. None) ts cache rows = (e, cache', rows') \<Longrightarrow>
    e = None \<and> cache' = cache \<union> series_key ` set ts \<and>
    (\<exists>new. rows' = rows @ new \<and> (\<forall>k \<in> cache' - cache. \<exists>row \<in> set new. row_key row = k) \<and>
       (series_key ` set ts \<subseteq> cache \<longrightarrow> new = []))"
proof (induction ts arbitrary: cache rows)
  case (Cons t ts)
  show ?case
  proof (cases "series_key t \<in> cache")
    case True
    then show ?thesis using Cons.IH [of cache rows] Cons.prems by auto
  next
    case False
    let ?row = "t\<lparr>ts_unixMilli := roundedUnixMilli (ts_unixMilli t)\<rparr>"
    have l: "series_loop (\<lambda>_. None) ts (insert (series_key t) cache) (rows @ [?row]) = (e, cache', rows')"
      using Cons.prems False by (simp add: Let_def)
    have k: "row_key ?row = series_key t" by (simp add: row_key_def series_key_def)
    from Cons.IH [OF l] obtain new where n: "e = None" "cache' = insert (series_key t) cache \<union> series_key ` set ts"
        "rows' = (rows @ [?row]) @ new" "\<forall>k \<in> cache' - insert (series_key t) cache. \<exists>row \<in> set new. row_key row = k"
      by blast
    have "\<forall>k \<in> cache' - cache. \<exists>row \<in> set (?row # new). row_key row = k"
    proof
      fix x assume "x \<in> cache' - cache"
      then show "\<exists>row \<in> set (?row # new). row_key row = x"
        using n(4) k by (cases "x = series_key t") auto
    qed
    then show ?thesis using n(1-3) False by (intro conjI exI [of _ "?row # new"]) auto
  qed
qed simp

text \<open>The writes of series succeed.\<close>

definition series_writes_ok :: "mx_driver \<Rightarrow> bool" where
  "series_writes_ok d \<longleftrightarrow> prepareErr (d_ts d) = None \<and> appendErr (d_ts d) = (\<lambda>_. None) \<and> sendErr (d_ts d) = None"

fun event_ok :: "mx_event \<Rightarrow> bool" where
  "event_ok (MxPush d md) = series_writes_ok d"
| "event_ok _ = True"

definition cache_inv :: "mx_state \<Rightarrow> bool" where
  "cache_inv st \<longleftrightarrow> (\<forall>k \<in> mx_cache st. \<exists>row \<in> set (t_series st). row_key row = k) \<and>
     (\<forall>s \<in> set (t_samples st). \<exists>row \<in> set (t_series st).
        row_key row = makeCacheKey (s_fingerprint s) (word_of_int (roundedUnixMilli (s_unixMilli s))))"

lemma write_rows_subset: "snd (write_rows d rows) = rows \<or> snd (write_rows d rows) = []"
  by (auto simp: write_rows_def split: option.split)

lemma writeBatch_inv:
  assumes "cache_inv st" and "series_writes_ok d" and "has_series b"
  shows "cache_inv (snd (writeBatch d b st))"
proof -
  obtain e cache' rows where l: "series_loop (\<lambda>_. None) (b_ts b) (mx_cache st) [] = (e, cache', rows)"
    by (rule prod_cases3)
  from series_loop_done [OF this] have n: "e = None" "cache' = mx_cache st \<union> series_key ` set (b_ts b)"
      "\<forall>k \<in> cache' - mx_cache st. \<exists>row \<in> set rows. row_key row = k"
    by auto
  have ts: "writeTimeSeries (d_ts d) (b_ts b) (mx_cache st) = (None, cache', rows)"
    using assms(2) l n(1) by (auto simp: writeTimeSeries_def series_writes_ok_def)
  obtain e2 samples used where s: "writeSamples (d_samples d) (b_samples b) = (e2, samples, used)"
    by (rule prod_cases3)
  have sub: "set samples \<subseteq> set (b_samples b)"
    using s write_rows_subset [of "d_samples d" "b_samples b"] by (auto simp: writeSamples_def Let_def split: prod.splits)
  let ?st = "snd (writeBatch d b st)"
  have f: "mx_cache ?st = cache'" "t_series ?st = t_series st @ rows" "t_samples ?st = t_samples st @ samples"
    by (simp_all add: writeBatch_def ts s split: prod.split)
  have c: "\<exists>row \<in> set (t_series ?st). row_key row = k" if "k \<in> cache'" for k
    using that n(3) assms(1) unfolding f cache_inv_def by (cases "k \<in> mx_cache st") auto
  have "\<exists>row \<in> set (t_series ?st). row_key row = makeCacheKey (s_fingerprint x) (word_of_int (roundedUnixMilli (s_unixMilli x)))"
    if x: "x \<in> set samples" for x
  proof -
    obtain t where t: "t \<in> set (b_ts b)" "series_for x t"
      using x sub assms(3) unfolding has_series_def by blast
    then have "series_key t \<in> cache'" using n(2) by auto
    moreover have "series_key t = makeCacheKey (s_fingerprint x) (word_of_int (roundedUnixMilli (s_unixMilli x)))"
      using t(2) by (simp add: series_key_def series_for_def)
    ultimately show ?thesis using c by metis
  qed
  then show ?thesis using c assms(1) unfolding cache_inv_def f by auto
qed

text \<open>C12: While the writes of series succeed, every sample in the table has a series in the table with its
  fingerprint for its hour, whatever else fails, whatever expires in the cache, over any run of
  pushes: the cache never hides a series that was not written.\<close>

theorem samples_have_series:
  assumes "list_all event_ok evs" and "s \<in> set (t_samples (mx_run E enableExpHist evs newExporter))"
  shows "\<exists>row \<in> set (t_series (mx_run E enableExpHist evs newExporter)). ts_fingerprint row = s_fingerprint s \<and>
    (word_of_int (ts_unixMilli row) :: i64) = word_of_int (roundedUnixMilli (s_unixMilli s))"
proof -
  have "cache_inv (mx_run E enableExpHist evs st)" if "cache_inv st" "list_all event_ok evs" for st evs
    using that
  proof (induction evs arbitrary: st)
    case (Cons ev evs)
    show ?case
    proof (cases ev)
      case (MxPush d md)
      then show ?thesis
        using Cons writeBatch_inv [of st d "prepareBatch E enableExpHist md"] has_series_prepareBatch [of E enableExpHist md]
        by (simp add: PushMetrics_def)
    next
      case (MxExpire k)
      then show ?thesis using Cons by (auto simp: cache_expire_def cache_inv_def)
    next
      case MxShutdown
      then show ?thesis using Cons by (auto simp: mx_Shutdown_def cache_inv_def)
    qed
  qed simp
  moreover have "cache_inv newExporter" by (simp add: cache_inv_def newExporter_def)
  ultimately show ?thesis using assms unfolding cache_inv_def row_key_def makeCacheKey_inject by blast
qed

text \<open>C13: A failed send of series is not made good by a retry: the cache already has them, so pushing the same payload again
  writes none of them, while its samples are written, and the errors that the retry reports are those of the samples and of
  the exponential histograms only. The first push reports the failure.\<close>

theorem failed_series_are_not_retried:
  assumes "mx_closed st = False" and "prepareErr (d_ts d) = None" and "appendErr (d_ts d) = (\<lambda>_. None)"
    and "sendErr (d_ts d) = Some e" and "series_writes_ok d'"
    and "b_ts (prepareBatch E enableExpHist md) \<noteq> []"
    and "PushMetrics E enableExpHist d md st = (errs, st1)" and "PushMetrics E enableExpHist d' md st1 = (errs', st2)"
  shows "e \<in> set errs \<and> t_series st2 = t_series st \<and>
    errs' = map the (filter (\<lambda>e. e \<noteq> None)
      [fst (write_rows (d_samples d') (b_samples (prepareBatch E enableExpHist md))),
       fst (write_rows (d_expHist d') (b_expHist (prepareBatch E enableExpHist md)))]) \<and>
    t_samples st2 = t_samples st1 @ snd (write_rows (d_samples d') (b_samples (prepareBatch E enableExpHist md)))"
proof -
  let ?b = "prepareBatch E enableExpHist md"
  obtain e0 cache' rows where l: "series_loop (\<lambda>_. None) (b_ts ?b) (mx_cache st) [] = (e0, cache', rows)"
    by (rule prod_cases3)
  from series_loop_done [OF this] have n: "e0 = None" "cache' = mx_cache st \<union> series_key ` set (b_ts ?b)" by auto
  have w1: "writeTimeSeries (d_ts d) (b_ts ?b) (mx_cache st) = (Some e, cache', [])"
    using assms(2-4,6) l n(1) by (simp add: writeTimeSeries_def)
  have st1: "e \<in> set errs" "mx_cache st1 = cache'" "t_series st1 = t_series st" "mx_closed st1 = False"
    using assms(1,7) by (auto simp: PushMetrics_def writeBatch_def w1 split: prod.splits)
  obtain e1 cache2 rows2 where l2: "series_loop (\<lambda>_. None) (b_ts ?b) cache' [] = (e1, cache2, rows2)"
    by (rule prod_cases3)
  from series_loop_done [OF this] n(2) have n2: "e1 = None" "rows2 = []" by auto
  have w2: "writeTimeSeries (d_ts d') (b_ts ?b) (mx_cache st1) = (None, cache2, [])"
    using assms(5,6) l2 n2 st1(2) by (simp add: writeTimeSeries_def series_writes_ok_def)
  have "t_series st2 = t_series st1" "t_samples st2 = t_samples st1 @ snd (write_rows (d_samples d') (b_samples ?b))"
    using assms(8) st1(4) by (auto simp: PushMetrics_def writeBatch_def writeSamples_def w2 Let_def split: prod.splits)
  moreover have "errs' = map the (filter (\<lambda>e. e \<noteq> None) [fst (write_rows (d_samples d') (b_samples ?b)), fst (write_rows (d_expHist d') (b_expHist ?b))])"
    using assms(8) st1(4) by (auto simp: PushMetrics_def writeBatch_def writeSamples_def w2 Let_def split: prod.splits)
  ultimately show ?thesis using st1 by simp
qed

section \<open>A concrete run\<close>

definition table_ok :: "'row table_driver" where
  "table_ok = \<lparr>prepareErr = None, appendErr = (\<lambda>_. None), sendErr = None\<rparr>"

definition driver_ok :: mx_driver where
  "driver_ok = \<lparr>d_ts = table_ok, d_samples = table_ok, d_expHist = table_ok, d_metadata = table_ok\<rparr>"

definition driver_down :: mx_driver where
  "driver_down = driver_ok\<lparr>d_ts := table_ok\<lparr>sendErr := Some ''timeout''\<rparr>\<rparr>"

lemma write_rows_ok: "write_rows table_ok rows = (None, rows)"
proof -
  have "append_rows (\<lambda>_. None) rows = None" for rows :: "'a list" by (induction rows) simp_all
  then show ?thesis by (simp add: write_rows_def table_ok_def)
qed

lemma sample_batch: "b_samples (prepareBatch sample_mx_env False sample_metrics) \<noteq> []"
  "b_ts (prepareBatch sample_mx_env False sample_metrics) \<noteq> []"
proof -
  have n: "\<not> IsNaN 0" "\<not> IsNaN 9" by (simp_all add: IsNaN_def)
  show s: "b_samples (prepareBatch sample_mx_env False sample_metrics) \<noteq> []"
    using n by (simp add: prepareBatch_def sample_metrics_def sample_histogram_def process_metric_def histogram_samples
        histogram_skipped_def or_zero_def histogram_rows_def Let_def)
  show "b_ts (prepareBatch sample_mx_env False sample_metrics) \<noteq> []"
    using s has_series_prepareBatch [of sample_mx_env False sample_metrics] unfolding has_series_def
    by (cases "b_samples (prepareBatch sample_mx_env False sample_metrics)") auto
qed

theorem samples_have_series_witness:
  "\<exists>s row. s \<in> set (t_samples (mx_run sample_mx_env False [MxPush driver_ok sample_metrics] newExporter)) \<and>
    row \<in> set (t_series (mx_run sample_mx_env False [MxPush driver_ok sample_metrics] newExporter)) \<and>
    ts_fingerprint row = s_fingerprint s"
proof -
  have "t_samples (mx_run sample_mx_env False [MxPush driver_ok sample_metrics] newExporter) =
      b_samples (prepareBatch sample_mx_env False sample_metrics)"
    by (simp add: PushMetrics_def writeBatch_def newExporter_def driver_ok_def writeSamples_def write_rows_ok Let_def
        split: prod.split)
  then obtain s where s: "s \<in> set (t_samples (mx_run sample_mx_env False [MxPush driver_ok sample_metrics] newExporter))"
    using sample_batch(1) by (metis list.set_intros(1) neq_Nil_conv)
  have "list_all event_ok [MxPush driver_ok sample_metrics]"
    by (simp add: series_writes_ok_def driver_ok_def table_ok_def)
  from samples_have_series [OF this s] show ?thesis using s by blast
qed

lemma table_ok_writes: "fst (write_rows table_ok rows) = None"
proof -
  have "append_rows (\<lambda>_. None) rows = None" by (induction rows) simp_all
  then show ?thesis by (simp add: write_rows_def table_ok_def)
qed

theorem failed_series_are_not_retried_witness:
  "let (errs, st1) = PushMetrics sample_mx_env False driver_down sample_metrics newExporter;
       (errs', st2) = PushMetrics sample_mx_env False driver_ok sample_metrics st1
   in errs \<noteq> [] \<and> errs' = [] \<and> t_series st2 = []"
proof -
  obtain errs st1 where p: "PushMetrics sample_mx_env False driver_down sample_metrics newExporter = (errs, st1)" by force
  obtain errs' st2 where q: "PushMetrics sample_mx_env False driver_ok sample_metrics st1 = (errs', st2)" by force
  have d: "prepareErr (d_ts driver_down) = None" "appendErr (d_ts driver_down) = (\<lambda>_. None)"
      "sendErr (d_ts driver_down) = Some ''timeout''" "series_writes_ok driver_ok" "mx_closed newExporter = False"
    by (simp_all add: driver_down_def driver_ok_def table_ok_def series_writes_ok_def newExporter_def)
  note retry = failed_series_are_not_retried [OF d(5) d(1) d(2) d(3) d(4) sample_batch(2) p q]
  have "errs \<noteq> []" "t_series st2 = t_series newExporter" using retry by auto
  moreover have "errs' = []" using retry by (simp add: driver_ok_def table_ok_writes)
  moreover have "t_series newExporter = []" by (simp add: newExporter_def)
  ultimately show ?thesis by (simp add: p q)
qed

section \<open>Labels of exponential histograms\<close>

text \<open>
  The minimum has no temporality, but its fingerprint is made with the label of the metric's, unlike
  that of a histogram.
\<close>

lemma exp_histogram_minimum_label:
  "b_samples (exp_addSample E se dp minSuffix b) = b_samples b @
     [sample_row E se (se_name se @ minSuffix) TemporalityUnspecified
        [(''__temporality__'', mx_temporalityString E (se_temporality se))]
        (ep_attrs dp) (unix_milli (ep_time dp)) (or_zero (ep_min dp)) (ep_flags dp)]"
  by (simp add: exp_addSample_def suffix_sample_def suffix_defs temporality_label_def)

section \<open>Usage\<close>

text \<open>The usage counter, described as the points successfully sent, also counts those of a failed send.\<close>

lemma usage_counts_failed_send:
  assumes "prepareErr d = None" and "append_rows (appendErr d) samples = None" and "sendErr d = Some e" and "samples \<noteq> []"
  shows "writeSamples d samples = (Some e, [], length (filter collectUsage samples))"
  using assms by (simp add: writeSamples_def write_rows_def)

end
