(* ===== verification/WriteCache.thy ===== *)
theory WriteCache
  imports Prelude
begin

text \<open>
  What the exporters share: a loop over rows that appends a row only when its key is not in the cache, and
  puts the key there. The locale is the contract of such a loop; \<open>put r\<close> is what a row appends.
\<close>

locale write_once =
  fixes loop :: "'row list \<Rightarrow> string set \<Rightarrow> 'out list \<Rightarrow> string set \<times> 'out list"
    and key :: "'row \<Rightarrow> string" and put :: "'row \<Rightarrow> 'out list"
  assumes loop_Nil: "loop [] cache rows = (cache, rows)"
    and loop_hit: "key r \<in> cache \<Longrightarrow> loop (r # rs) cache rows = loop rs cache rows"
    and loop_miss: "key r \<notin> cache \<Longrightarrow> loop (r # rs) cache rows = loop rs (insert (key r) cache) (rows @ put r)"
begin

text \<open>Every key of the rows is in the cache afterwards.\<close>

lemma cache_after: "fst (loop rs cache rows) = cache \<union> key ` set rs"
proof (induction rs arbitrary: cache rows)
  case (Cons r rs)
  then show ?case by (cases "key r \<in> cache") (auto simp: loop_hit loop_miss)
qed (simp add: loop_Nil)

text \<open>Rows whose keys are all cached append nothing.\<close>

lemma nothing_new: "key ` set rs \<subseteq> cache \<Longrightarrow> loop rs cache rows = (cache, rows)"
  by (induction rs) (simp_all add: loop_Nil loop_hit)

lemma rows_grow: "set rows \<subseteq> set (snd (loop rs cache rows))"
proof (induction rs arbitrary: cache rows)
  case (Cons r rs)
  show ?case
  proof (cases "key r \<in> cache")
    case False
    then show ?thesis using Cons.IH [of "rows @ put r" "insert (key r) cache"] by (simp add: loop_miss)
  qed (simp add: loop_hit Cons.IH)
qed (simp add: loop_Nil)

text \<open>A key that was not cached has a row with that key whose output was appended.\<close>

lemma rows_cover:
  "r \<in> set rs \<Longrightarrow> key r \<notin> cache \<Longrightarrow> \<exists>q \<in> set rs. key q = key r \<and> set (put q) \<subseteq> set (snd (loop rs cache rows))"
proof (induction rs arbitrary: cache rows)
  case (Cons p rs)
  show ?case
  proof (cases "key p \<in> cache")
    case True
    then have "r \<in> set rs" using Cons.prems by auto
    then show ?thesis using Cons.IH [of cache rows] Cons.prems(2) True by (auto simp: loop_hit)
  next
    case False
    show ?thesis
    proof (cases "key p = key r")
      case True
      then show ?thesis
        using rows_grow [of "rows @ put p" rs "insert (key p) cache"] False by (auto simp: loop_miss)
    next
      case ne: False
      then have "r \<in> set rs" "key r \<notin> insert (key p) cache" using Cons.prems by auto
      then show ?thesis using Cons.IH [of "insert (key p) cache" "rows @ put p"] False by (auto simp: loop_miss)
    qed
  qed
qed simp

text \<open>Nothing is appended but what the rows give.\<close>

lemma rows_from: "set (snd (loop rs cache rows)) \<subseteq> set rows \<union> (\<Union>r \<in> set rs. set (put r))"
proof (induction rs arbitrary: cache rows)
  case (Cons r rs)
  show ?case
  proof (cases "key r \<in> cache")
    case True
    then show ?thesis using Cons.IH [of cache rows] by (auto simp: loop_hit)
  next
    case False
    then show ?thesis using Cons.IH [of "insert (key r) cache" "rows @ put r"] by (auto simp: loop_miss)
  qed
qed (simp add: loop_Nil)

end

end
