(* ===== verification/TracesExporter.thy ===== *)
theory TracesExporter
  imports Metering MetricsExporter WriteCache
begin

text \<open>
  The exporter of traces to ClickHouse (\<^verbatim>\<open>exporter/clickhousetracesexporter\<close>): from a payload to
  structured spans, and from these to the rows of the tables of spans, exceptions, attribute keys,
  field values and resources, with the two caches of what was written.
\<close>

section \<open>Structured spans\<close>

text \<open>Go maps are association lists without duplicate keys; the order of iteration is that of the list.\<close>

record span_attribute =
  sa_Key :: string
  sa_TagType :: string
  sa_DataType :: string
  sa_StringValue :: string
  sa_NumberValue :: f64
  sa_IsColumn :: bool

record span_v3 =
  sv_TsBucketStart :: u64
  sv_FingerPrint :: string
  sv_StartTimeUnixNano :: u64
  sv_TraceId :: string
  sv_SpanId :: string
  sv_TraceState :: string
  sv_ParentSpanId :: string
  sv_Flags :: u32
  sv_Name :: string
  sv_Kind :: "8 word"
  sv_SpanKind :: string
  sv_DurationNano :: u64
  sv_StatusCode :: "16 word"
  sv_StatusMessage :: string
  sv_StatusCodeString :: string
  sv_AttributeString :: "(string \<times> string) list"
  sv_AttributesNumber :: "(string \<times> f64) list"
  sv_AttributesBool :: "(string \<times> bool) list"
  sv_ResourcesString :: "(string \<times> string) list"
  sv_BillableResourcesString :: "(string \<times> string) list"
  sv_Events :: "string list"
  sv_ErrorEvents :: "error_event list"
  sv_ServiceName :: string
  sv_ResponseStatusCode :: string
  sv_ExternalHttpUrl :: string
  sv_HttpUrl :: string
  sv_ExternalHttpMethod :: string
  sv_HttpMethod :: string
  sv_HttpHost :: string
  sv_DBName :: string
  sv_DBOperation :: string
  sv_HasError :: bool
  sv_IsRemote :: string
  sv_Tenant :: string
  sv_References :: string
  sv_SpanAttributes :: "span_attribute list"

text \<open>
  Beside what the meter calls: \<^verbatim>\<open>%s\<close> of a value, the host of a URL that parses, the name of a status code, a
  float as text, MD5 in hexadecimal, and the span as JSON (\<^term>\<open>None\<close> for an error).
\<close>

record tx_env = meter_env +
  tx_sprints :: "any \<Rightarrow> string"
  tx_urlHostname :: "string \<Rightarrow> string option"
  tx_statusString :: "i32 \<Rightarrow> string"
  tx_formatFloat :: "f64 \<Rightarrow> string"
  tx_md5 :: "string \<Rightarrow> string"
  tx_marshalSpan :: "span_v3 \<Rightarrow> string option"

definition makeJaegerProtoReferences :: "span_link list \<Rightarrow> u8 list \<Rightarrow> u8 list \<Rightarrow> otel_span_ref list option" where
  "makeJaegerProtoReferences links parentSpanID traceID =
     (let parentSpanIDSet = (length parentSpanID \<noteq> 0)
      in if \<not> parentSpanIDSet \<and> links = [] then None
         else (let refs = (if parentSpanIDSet
                 then [\<lparr>TraceId = TraceIDToHexOrEmptyString traceID,
                        SpanId = SpanIDToHexOrEmptyString parentSpanID, RefType = ''CHILD_OF''\<rparr>]
                 else [])
               in Some (fold (\<lambda>link refs. refs @
                     [\<lparr>TraceId = TraceIDToHexOrEmptyString (link_traceID link),
                       SpanId = SpanIDToHexOrEmptyString (link_spanID link), RefType = ''FOLLOWS_FROM''\<rparr>]) links refs)))"

text \<open>\<^verbatim>\<open>Value.Str\<close> and \<^verbatim>\<open>Value.Int\<close> give the zero value on a value of another kind.\<close>

definition any_str :: "any \<Rightarrow> string" where
  "any_str v = (case v of VStr s \<Rightarrow> s | _ \<Rightarrow> [])"

definition any_int :: "any \<Rightarrow> int" where
  "any_int v = (case v of VInt k i \<Rightarrow> sint i | _ \<Rightarrow> 0)"

definition ServiceNameForResource :: "vmap \<Rightarrow> string" where
  "ServiceNameForResource resource =
     (case map_of resource ''service.name'' of None \<Rightarrow> ''<nil-service-name>'' | Some service \<Rightarrow> any_str service)"

subsection \<open>Columns of their own\<close>

definition possibleHostAttr :: "string list" where
  "possibleHostAttr = [''http.host'', ''server.address'', ''client.address'', ''http.request.header.host'', ''net.peer.name'']"

text \<open>A status code is a number or a string that \<^verbatim>\<open>strconv.Atoi\<close> reads.\<close>

definition status_code_text :: "any \<Rightarrow> string" where
  "status_code_text v =
     format_int (case parse_int64 (any_str v) of Some i \<Rightarrow> if i \<noteq> 0 then i else any_int v | None \<Rightarrow> any_int v)"

definition custom_attr :: "'e tx_env_scheme \<Rightarrow> string \<times> any \<Rightarrow> span_v3 \<Rightarrow> span_v3" where
  "custom_attr E = (\<lambda>(k, v) span.
     (if k = ''http.status_code'' \<or> k = ''http.response.status_code'' then
        span\<lparr>sv_ResponseStatusCode := status_code_text v\<rparr>
      else if (k = ''http.url'' \<or> k = ''url.full'') \<and> sv_Kind span = 3 then
        (let host = (case tx_urlHostname E (any_str v) of None \<Rightarrow> any_str v | Some h \<Rightarrow> h)
         in span\<lparr>sv_ExternalHttpUrl := host, sv_HttpUrl := any_str v,
                 sv_HttpHost := (if sv_HttpHost span = [] then host else sv_HttpHost span)\<rparr>)
      else if (k = ''http.method'' \<or> k = ''http.request.method'') \<and> sv_Kind span = 3 then
        span\<lparr>sv_ExternalHttpMethod := any_str v, sv_HttpMethod := any_str v\<rparr>
      else if (k = ''http.url'' \<or> k = ''url.full'') \<and> sv_Kind span \<noteq> 3 then span\<lparr>sv_HttpUrl := any_str v\<rparr>
      else if (k = ''http.method'' \<or> k = ''http.request.method'') \<and> sv_Kind span \<noteq> 3 then span\<lparr>sv_HttpMethod := any_str v\<rparr>
      else if k \<in> set possibleHostAttr then span\<lparr>sv_HttpHost := any_str v\<rparr>
      else if k = ''db.name'' \<or> k = ''db.namespace'' then span\<lparr>sv_DBName := any_str v\<rparr>
      else if k = ''db.operation'' \<or> k = ''db.operation.name'' then span\<lparr>sv_DBOperation := any_str v\<rparr>
      else if k = ''rpc.grpc.status_code'' then span\<lparr>sv_ResponseStatusCode := status_code_text v\<rparr>
      else if k = ''rpc.jsonrpc.error_code'' then span\<lparr>sv_ResponseStatusCode := any_str v\<rparr>
      else span))"

definition populateCustomAttrsAndAttrs :: "'e tx_env_scheme \<Rightarrow> vmap \<Rightarrow> span_v3 \<Rightarrow> span_v3" where
  "populateCustomAttrsAndAttrs E attributes span = fold (custom_attr E) attributes span"

subsection \<open>Events\<close>

definition populate_event ::
  "'e tx_env_scheme \<Rightarrow> bool \<Rightarrow> string \<Rightarrow> span_event \<Rightarrow> span_v3 \<Rightarrow> span_v3" where
  "populate_event E lowCardinalExceptionGrouping uuid e span =
     (let event = \<lparr>Name = ev_name e, TimeUnixNano = ev_timestamp e,
                   AttributeMap = fold (\<lambda>(k, v). AList.update k (asString E v)) (ev_attrs e) [], IsError = False\<rparr>;
          isException = (Name event = ''exception'');
          event = (if isException then event\<lparr>IsError := True\<rparr> else event);
          typ = map_str (AttributeMap event) ''exception.type'';
          msg = map_str (AttributeMap event) ''exception.message'';
          errorEvent =
            (if isException
             then \<lparr>Event = event, ErrorID = uuid,
                   ErrorGroupID = tx_md5 E (if lowCardinalExceptionGrouping then sv_ServiceName span @ typ
                                            else sv_ServiceName span @ typ @ msg)\<rparr>
             else \<lparr>Event = empty_event, ErrorID = [], ErrorGroupID = []\<rparr>);
          stringEvent = (case marshalEvent E event of None \<Rightarrow> [] | Some bs \<Rightarrow> bs)
      in span\<lparr>sv_Events := sv_Events span @ [stringEvent], sv_ErrorEvents := sv_ErrorEvents span @ [errorEvent]\<rparr>)"

definition populateEventsV3 ::
  "'e tx_env_scheme \<Rightarrow> bool \<Rightarrow> (nat \<Rightarrow> string) \<Rightarrow> span_event list \<Rightarrow> span_v3 \<Rightarrow> span_v3" where
  "populateEventsV3 E low uuids events span =
     fold (\<lambda>(i, e). populate_event E low (uuids i) e) (zip [0..<length events] events) span"

subsection \<open>Attributes\<close>

record attributes_data =
  ad_StringMap :: "(string \<times> string) list"
  ad_NumberMap :: "(string \<times> f64) list"
  ad_BoolMap :: "(string \<times> bool) list"
  ad_SpanAttributes :: "span_attribute list"

definition tag_of :: "string \<Rightarrow> string \<Rightarrow> string \<Rightarrow> string \<Rightarrow> f64 \<Rightarrow> span_attribute" where
  "tag_of key tagType dataType s n =
     \<lparr>sa_Key = key, sa_TagType = tagType, sa_DataType = dataType, sa_StringValue = s, sa_NumberValue = n, sa_IsColumn = False\<rparr>"

definition add_tag :: "span_attribute \<Rightarrow> attributes_data \<Rightarrow> attributes_data" where
  "add_tag a m = m\<lparr>ad_SpanAttributes := ad_SpanAttributes m @ [a]\<rparr>"

definition add_flat :: "string \<times> any \<Rightarrow> attributes_data \<Rightarrow> attributes_data" where
  "add_flat = (\<lambda>(tempKey, tempVal) m.
     (case tempVal of
        VStr s \<Rightarrow> add_tag (tag_of tempKey ''tag'' ''string'' s 0) (m\<lparr>ad_StringMap := AList.update tempKey s (ad_StringMap m)\<rparr>)
      | VFloat f \<Rightarrow>
          (if IsValidFloat f
           then add_tag (tag_of tempKey ''tag'' ''float64'' [] f) (m\<lparr>ad_NumberMap := AList.update tempKey f (ad_NumberMap m)\<rparr>)
           else m)
      | VBool b \<Rightarrow> add_tag (tag_of tempKey ''tag'' ''bool'' [] 0) (m\<lparr>ad_BoolMap := AList.update tempKey b (ad_BoolMap m)\<rparr>)
      | _ \<Rightarrow> add_tag (tag_of tempKey ''tag'' [] [] 0) m))"

definition attr_add :: "'e meter_env_scheme \<Rightarrow> string \<times> any \<Rightarrow> attributes_data \<Rightarrow> attributes_data" where
  "attr_add E = (\<lambda>(key, v) m.
     (case v of
        VFloat f \<Rightarrow>
          (if IsValidFloat f
           then add_tag (tag_of key ''tag'' ''float64'' [] f) (m\<lparr>ad_NumberMap := AList.update key f (ad_NumberMap m)\<rparr>)
           else m)
      | VInt _ i \<Rightarrow>
          add_tag (tag_of key ''tag'' ''float64'' [] (floatOfInt E i)) (m\<lparr>ad_NumberMap := AList.update key (floatOfInt E i) (ad_NumberMap m)\<rparr>)
      | VBool b \<Rightarrow> add_tag (tag_of key ''tag'' ''bool'' [] 0) (m\<lparr>ad_BoolMap := AList.update key b (ad_BoolMap m)\<rparr>)
      | VMap vm \<Rightarrow> fold add_flat (FlattenJSON E vm key) m
      | _ \<Rightarrow> add_tag (tag_of key ''tag'' ''string'' (asString E v) 0) (m\<lparr>ad_StringMap := AList.update key (asString E v) (ad_StringMap m)\<rparr>)))"

text \<open>The maps of resource attributes, all and billable, and the tags.\<close>

type_synonym resource_maps = "(string \<times> string) list \<times> (string \<times> string) list \<times> span_attribute list"

definition put_resource :: "bool \<Rightarrow> string \<Rightarrow> string \<Rightarrow> resource_maps \<Rightarrow> resource_maps" where
  "put_resource isBillable key strVal = (\<lambda>(rs, bs, tags).
     (AList.update key strVal rs, if isBillable then AList.update key strVal bs else bs,
      tags @ [tag_of key ''resource'' ''string'' strVal 0]))"

definition resource_attr :: "'e meter_env_scheme \<Rightarrow> string \<times> any \<Rightarrow> resource_maps \<Rightarrow> resource_maps" where
  "resource_attr E = (\<lambda>(k, v) maps.
     (let isBillable = (\<not> ExcludeSigNozWorkspaceResourceAttrs k)
      in case v of
           VMap m \<Rightarrow> fold (\<lambda>(tempKey, tempVal). put_resource isBillable tempKey (sprintv E tempVal)) (FlattenJSON E m k) maps
         | _ \<Rightarrow> put_resource isBillable k (asString E v) maps))"

subsection \<open>A span\<close>

definition hasIsRemoteMask :: u32 where "hasIsRemoteMask = 0x100"
definition isRemoteMask :: u32 where "isRemoteMask = 0x200"

definition GetTenantNameFromResource :: string where
  "GetTenantNameFromResource = ''default''"

definition is_remote :: "u32 \<Rightarrow> string" where
  "is_remote flags =
     (if flags AND hasIsRemoteMask \<noteq> 0 then (if flags AND isRemoteMask \<noteq> 0 then ''yes'' else ''no'') else ''unknown'')"

definition split_attributes :: "'e meter_env_scheme \<Rightarrow> vmap \<Rightarrow> attributes_data" where
  "split_attributes E attributes =
     fold (attr_add E) attributes \<lparr>ad_StringMap = [], ad_NumberMap = [], ad_BoolMap = [], ad_SpanAttributes = []\<rparr>"

text \<open>The references as JSON; no references give the JSON of a nil slice.\<close>

definition references_json :: "'e meter_env_scheme \<Rightarrow> otlp_span \<Rightarrow> string" where
  "references_json E otelSpan =
     (case makeJaegerProtoReferences (os_links otelSpan) (os_parentSpanID otelSpan) (os_traceID otelSpan) of
        None \<Rightarrow> ''null''
      | Some refs \<Rightarrow> (case marshalRefs E refs of None \<Rightarrow> [] | Some bs \<Rightarrow> bs))"

text \<open>The span before the columns of their own and the events are filled in.\<close>

definition plain_span_v3 ::
  "'e tx_env_scheme \<Rightarrow> u64 \<Rightarrow> string \<Rightarrow> otlp_span \<Rightarrow> string \<Rightarrow> attributes_data \<Rightarrow> resource_maps \<Rightarrow> span_v3" where
  "plain_span_v3 E bucketStart fingerprint otelSpan serviceName attrMap = (\<lambda>(resourceAttrs, billableResourceAttrs, tags).
     \<lparr>sv_TsBucketStart = bucketStart, sv_FingerPrint = fingerprint,
      sv_StartTimeUnixNano = os_start otelSpan,
      sv_TraceId = TraceIDToHexOrEmptyString (os_traceID otelSpan),
      sv_SpanId = SpanIDToHexOrEmptyString (os_spanID otelSpan),
      sv_TraceState = os_traceState otelSpan,
      sv_ParentSpanId = SpanIDToHexOrEmptyString (os_parentSpanID otelSpan),
      sv_Flags = os_flags otelSpan, sv_Name = os_name otelSpan,
      sv_Kind = ucast (os_kind otelSpan), sv_SpanKind = kindString E (os_kind otelSpan),
      sv_DurationNano = os_end otelSpan - os_start otelSpan,
      sv_StatusCode = ucast (os_statusCode otelSpan), sv_StatusMessage = os_statusMessage otelSpan,
      sv_StatusCodeString = tx_statusString E (os_statusCode otelSpan),
      sv_AttributeString = ad_StringMap attrMap, sv_AttributesNumber = ad_NumberMap attrMap,
      sv_AttributesBool = ad_BoolMap attrMap,
      sv_ResourcesString = resourceAttrs, sv_BillableResourcesString = billableResourceAttrs,
      sv_Events = [], sv_ErrorEvents = [], sv_ServiceName = serviceName,
      sv_ResponseStatusCode = [], sv_ExternalHttpUrl = [], sv_HttpUrl = [], sv_ExternalHttpMethod = [],
      sv_HttpMethod = [], sv_HttpHost = [], sv_DBName = [], sv_DBOperation = [],
      sv_HasError = (os_statusCode otelSpan = 2), sv_IsRemote = is_remote (os_flags otelSpan),
      sv_Tenant = GetTenantNameFromResource,
      sv_References = references_json E otelSpan, sv_SpanAttributes = tags\<rparr>)"

definition newStructuredSpanV3 ::
  "'e tx_env_scheme \<Rightarrow> bool \<Rightarrow> (nat \<Rightarrow> string) \<Rightarrow> u64 \<Rightarrow> string \<Rightarrow> otlp_span \<Rightarrow> string \<Rightarrow> vmap \<Rightarrow> span_v3" where
  "newStructuredSpanV3 E low uuids bucketStart fingerprint otelSpan serviceName resource =
     (let attrMap = split_attributes E (os_attrs otelSpan);
          span = plain_span_v3 E bucketStart fingerprint otelSpan serviceName attrMap
            (fold (resource_attr E) resource ([], [], ad_SpanAttributes attrMap))
      in populateEventsV3 E low uuids (os_events otelSpan) (populateCustomAttrsAndAttrs E (os_attrs otelSpan) span))"

section \<open>From a payload to a batch\<close>

definition distributedTracesResourceV2Seconds :: int where
  "distributedTracesResourceV2Seconds = 1800"

definition tsBucket :: "int \<Rightarrow> int \<Rightarrow> int" where
  "tsBucket ts bucketSize = go_quot ts bucketSize * bucketSize"

text \<open>The resources seen: per bucket the fingerprint of each resource, by its JSON.\<close>

type_synonym resources_seen = "(int \<times> (string \<times> string) list) list"

record push_acc =
  pa_resourcesSeen :: resources_seen
  pa_batchOfSpans :: "span_v3 list"
  pa_count :: nat
  pa_size :: nat

text \<open>The fingerprint of a resource in a bucket: the one stored before, or the new one, which is stored.\<close>

definition remember_resource :: "int \<Rightarrow> string \<Rightarrow> string \<Rightarrow> resources_seen \<Rightarrow> string \<times> resources_seen" where
  "remember_resource bucket resourceJson fp seen =
     (let seen = (if map_of seen bucket = None then AList.update bucket [] seen else seen);
          inner = the (map_of seen bucket)
      in case map_of inner resourceJson of
           Some fp \<Rightarrow> (fp, seen)
         | None \<Rightarrow> (fp, AList.update bucket (AList.update resourceJson fp inner) seen))"

definition see_resource :: "'e tx_env_scheme \<Rightarrow> int \<Rightarrow> string \<Rightarrow> vmap \<Rightarrow> resources_seen \<Rightarrow> string \<times> resources_seen" where
  "see_resource E bucket resourceJson resource seen =
     remember_resource bucket resourceJson (CalculateFingerprint (sprintv E) (tx_sprints E) resource ResourceHierarchy) seen"

definition span_bucket :: "otlp_span \<Rightarrow> int" where
  "span_bucket span = tsBucket (uint (os_start span div 1000000000)) distributedTracesResourceV2Seconds"

definition push_span ::
  "'e tx_env_scheme \<Rightarrow> bool \<Rightarrow> (nat \<Rightarrow> nat \<Rightarrow> string) \<Rightarrow> u64 \<Rightarrow> vmap \<Rightarrow> string \<Rightarrow> otlp_span \<Rightarrow> push_acc \<Rightarrow> string + push_acc" where
  "push_span E low uuids oldestAllowedTs resource resourceJson span acc =
     (if os_start span < oldestAllowedTs then Inr acc
      else (let lBucketStart = span_bucket span;
                (fp, seen) = see_resource E lBucketStart resourceJson resource (pa_resourcesSeen acc);
                structuredSpan = newStructuredSpanV3 E low (uuids (pa_count acc)) (word_of_int lBucketStart) fp span
                  (ServiceNameForResource resource) resource
            in case tx_marshalSpan E structuredSpan of
                 None \<Rightarrow> Inl ''failed to marshal structured span''
               | Some bs \<Rightarrow> Inr (acc\<lparr>pa_resourcesSeen := seen, pa_batchOfSpans := pa_batchOfSpans acc @ [structuredSpan],
                                    pa_count := pa_count acc + 1, pa_size := pa_size acc + length bs\<rparr>)))"

section \<open>Rows\<close>

text \<open>A row of the table of spans, by the names of its columns.\<close>

record index_row =
  ix_ts_bucket_start :: u64
  ix_resource_fingerprint :: string
  ix_timestamp :: int
  ix_trace_id :: string
  ix_span_id :: string
  ix_trace_state :: string
  ix_parent_span_id :: string
  ix_flags :: u32
  ix_name :: string
  ix_kind :: "8 word"
  ix_kind_string :: string
  ix_duration_nano :: u64
  ix_status_code :: "16 word"
  ix_status_message :: string
  ix_status_code_string :: string
  ix_attributes_string :: "(string \<times> string) list"
  ix_attributes_number :: "(string \<times> f64) list"
  ix_attributes_bool :: "(string \<times> bool) list"
  ix_resources_string :: "(string \<times> string) list"
  ix_resource :: "(string \<times> string) list"
  ix_events :: "string list"
  ix_links :: string
  ix_response_status_code :: string
  ix_external_http_url :: string
  ix_http_url :: string
  ix_external_http_method :: string
  ix_http_method :: string
  ix_http_host :: string
  ix_db_name :: string
  ix_db_operation :: string
  ix_has_error :: bool
  ix_is_remote :: string

definition index_row :: "span_v3 \<Rightarrow> index_row" where
  "index_row span =
     \<lparr>ix_ts_bucket_start = sv_TsBucketStart span, ix_resource_fingerprint = sv_FingerPrint span,
      ix_timestamp = sint (sv_StartTimeUnixNano span), ix_trace_id = sv_TraceId span, ix_span_id = sv_SpanId span,
      ix_trace_state = sv_TraceState span, ix_parent_span_id = sv_ParentSpanId span, ix_flags = sv_Flags span,
      ix_name = sv_Name span, ix_kind = sv_Kind span, ix_kind_string = sv_SpanKind span,
      ix_duration_nano = sv_DurationNano span, ix_status_code = sv_StatusCode span,
      ix_status_message = sv_StatusMessage span, ix_status_code_string = sv_StatusCodeString span,
      ix_attributes_string = sv_AttributeString span, ix_attributes_number = sv_AttributesNumber span,
      ix_attributes_bool = sv_AttributesBool span, ix_resources_string = sv_ResourcesString span,
      ix_resource = sv_ResourcesString span, ix_events = sv_Events span, ix_links = sv_References span,
      ix_response_status_code = sv_ResponseStatusCode span, ix_external_http_url = sv_ExternalHttpUrl span,
      ix_http_url = sv_HttpUrl span, ix_external_http_method = sv_ExternalHttpMethod span,
      ix_http_method = sv_HttpMethod span, ix_http_host = sv_HttpHost span, ix_db_name = sv_DBName span,
      ix_db_operation = sv_DBOperation span, ix_has_error = sv_HasError span, ix_is_remote = sv_IsRemote span\<rparr>"

record error_row =
  er_timestamp :: int
  er_errorID :: string
  er_groupID :: string
  er_traceID :: string
  er_spanID :: string
  er_serviceName :: string
  er_exceptionType :: string
  er_exceptionMessage :: string
  er_exceptionStacktrace :: string
  er_exceptionEscaped :: bool
  er_resourceTagsMap :: "(string \<times> string) list"

definition stringToBool :: "string \<Rightarrow> bool" where
  "stringToBool s \<longleftrightarrow> to_lower s = ''true''"

definition error_row :: "span_v3 \<Rightarrow> error_event \<Rightarrow> error_row" where
  "error_row span errorEvent =
     (let m = AttributeMap (Event errorEvent)
      in \<lparr>er_timestamp = sint (TimeUnixNano (Event errorEvent)), er_errorID = ErrorID errorEvent,
          er_groupID = ErrorGroupID errorEvent, er_traceID = sv_TraceId span, er_spanID = sv_SpanId span,
          er_serviceName = sv_ServiceName span, er_exceptionType = map_str m ''exception.type'',
          er_exceptionMessage = map_str m ''exception.message'',
          er_exceptionStacktrace = map_str m ''exception.stacktrace'',
          er_exceptionEscaped = stringToBool (map_str m ''exception.escaped''),
          er_resourceTagsMap = sv_ResourcesString span\<rparr>)"

definition error_rows :: "span_v3 list \<Rightarrow> error_row list" where
  "error_rows batchSpans =
     concat (map (\<lambda>span. map (error_row span) (filter (\<lambda>e. Name (Event e) \<noteq> []) (sv_ErrorEvents span))) batchSpans)"

text \<open>A row of the table of field values: nulls are \<^term>\<open>None\<close>. A row of the table of attribute keys.\<close>

record value_row =
  vr_unix_milli :: int
  vr_tag_key :: string
  vr_tag_type :: string
  vr_tag_data_type :: string
  vr_string_value :: "string option"
  vr_number_value :: "f64 option"

record key_row =
  kr_tagKey :: string
  kr_tagType :: string
  kr_dataType :: string
  kr_isColumn :: bool

record resource_row =
  rr_labels :: string
  rr_fingerprint :: string
  rr_seen_at_ts_bucket_start :: int

section \<open>The writer\<close>

text \<open>
  What the driver answers for each table; which of the two goroutines whose errors count answers first, and
  the order in which the map of resources is visited.
\<close>

record tx_driver =
  td_index :: "index_row table_driver"
  td_error :: "error_row table_driver"
  td_keys :: "key_row table_driver"
  td_values :: "value_row table_driver"
  td_resources :: "resource_row table_driver"
  td_errorFirst :: bool
  td_order :: "resource_row list \<Rightarrow> resource_row list"

text \<open>Prepare, append every row up to an error, send: the error, and the rows that reach the table.\<close>

definition send_batch :: "'row table_driver \<Rightarrow> 'row list \<Rightarrow> string option \<times> 'row list" where
  "send_batch d rows =
     (case prepareErr d of
        Some e \<Rightarrow> (Some e, [])
      | None \<Rightarrow>
          (case append_rows (appendErr d) rows of
             Some e \<Rightarrow> (Some e, [])
           | None \<Rightarrow> (case sendErr d of Some e \<Rightarrow> (Some e, []) | None \<Rightarrow> (None, rows))))"

definition writeIndexBatchV3 :: "tx_driver \<Rightarrow> span_v3 list \<Rightarrow> string option \<times> index_row list" where
  "writeIndexBatchV3 d batchSpans = send_batch (td_index d) (map index_row batchSpans)"

definition writeErrorBatchV3 :: "tx_driver \<Rightarrow> span_v3 list \<Rightarrow> string option \<times> error_row list" where
  "writeErrorBatchV3 d batchSpans = send_batch (td_error d) (error_rows batchSpans)"

subsection \<open>Attribute keys and field values\<close>

record should_skip_key =
  TagKey :: string
  TagType :: string
  TagDataType :: string
  StringCount :: u64
  NumberCount :: u64

definition MakeKeyForAttributeKeys :: "string \<Rightarrow> string \<Rightarrow> string \<Rightarrow> string" where
  "MakeKeyForAttributeKeys tagKey tagType tagDataType = tagKey @ '':'' @ tagType @ '':'' @ tagDataType"

definition MaxAttributeValueLength :: nat where
  "MaxAttributeValueLength = 256"

text \<open>The three sets of what the batch has, the cache of keys, and the rows of the two statements.\<close>

record tag_state =
  tg_attributeValues :: "string set"
  tg_attributeKeys :: "string set"
  tg_spanFields :: "string set"
  tg_keysCache :: "string set"
  tg_keyRows :: "key_row list"
  tg_valueRows :: "value_row list"

text \<open>Appending a value ignores the error.\<close>

definition append_value :: "tx_driver \<Rightarrow> value_row \<Rightarrow> tag_state \<Rightarrow> tag_state" where
  "append_value d row s =
     (if appendErr (td_values d) row = None then s\<lparr>tg_valueRows := tg_valueRows s @ [row]\<rparr> else s)"

definition attribute_value_key :: "'e tx_env_scheme \<Rightarrow> span_attribute \<Rightarrow> string" where
  "attribute_value_key E a = sa_Key a @ sa_TagType a @ sa_DataType a @ sa_StringValue a @ tx_formatFloat E (sa_NumberValue a)"

definition attribute_key :: "span_attribute \<Rightarrow> string" where
  "attribute_key a = sa_Key a @ sa_TagType a @ sa_DataType a @ (if sa_IsColumn a then ''true'' else ''false'')"

definition append_key :: "tx_driver \<Rightarrow> span_attribute \<Rightarrow> tag_state \<Rightarrow> string + tag_state" where
  "append_key d a s =
     (if attribute_key a \<in> tg_attributeKeys s \<or> attribute_key a \<in> tg_keysCache s then Inr s
      else (let row = \<lparr>kr_tagKey = sa_Key a, kr_tagType = sa_TagType a, kr_dataType = sa_DataType a, kr_isColumn = sa_IsColumn a\<rparr>
            in case appendErr (td_keys d) row of
                 Some e \<Rightarrow> Inl e
               | None \<Rightarrow> Inr (s\<lparr>tg_keyRows := tg_keyRows s @ [row], tg_keysCache := insert (attribute_key a) (tg_keysCache s)\<rparr>)))"

definition attribute_value_row :: "int \<Rightarrow> span_attribute \<Rightarrow> value_row option" where
  "attribute_value_row unixMilli a =
     (let row = \<lparr>vr_unix_milli = unixMilli, vr_tag_key = sa_Key a, vr_tag_type = sa_TagType a,
                 vr_tag_data_type = sa_DataType a, vr_string_value = None, vr_number_value = None\<rparr>
      in if sa_DataType a = ''string'' then Some (row\<lparr>vr_string_value := Some (sa_StringValue a)\<rparr>)
         else if sa_DataType a = ''float64'' then Some (row\<lparr>vr_number_value := Some (sa_NumberValue a)\<rparr>)
         else if sa_DataType a = ''bool'' then Some row
         else None)"

text \<open>The error carries the state as well: the cache of keys outlives the batch.\<close>

definition tag_attribute ::
  "'e tx_env_scheme \<Rightarrow> tx_driver \<Rightarrow> (string \<times> should_skip_key) list \<Rightarrow> int \<Rightarrow> span_attribute \<Rightarrow> tag_state \<Rightarrow>
     (string \<times> tag_state) + tag_state" where
  "tag_attribute E d shouldSkipKeys unixMilli a s =
     (if attribute_value_key E a \<in> tg_attributeValues s then Inr s
      else (let s = s\<lparr>tg_attributeValues := insert (attribute_value_key E a) (tg_attributeValues s)\<rparr>
            in case append_key d a s of
                 Inl e \<Rightarrow> Inl (e, s)
               | Inr s \<Rightarrow>
                   (let s = s\<lparr>tg_attributeKeys := insert (attribute_key a) (tg_attributeKeys s)\<rparr>;
                        v2Key = MakeKeyForAttributeKeys (sa_Key a) (sa_TagType a) (sa_DataType a)
                    in if length (sa_StringValue a) > MaxAttributeValueLength then Inr s
                       else if map_of shouldSkipKeys v2Key \<noteq> None then Inr s
                       else Inr (case attribute_value_row unixMilli a of
                                   None \<Rightarrow> s | Some row \<Rightarrow> append_value d row s))))"

definition field_row :: "int \<Rightarrow> string \<Rightarrow> string \<Rightarrow> string option \<Rightarrow> f64 option \<Rightarrow> value_row" where
  "field_row unixMilli key dataType str num =
     \<lparr>vr_unix_milli = unixMilli, vr_tag_key = key, vr_tag_type = ''spanfield'', vr_tag_data_type = dataType,
      vr_string_value = str, vr_number_value = num\<rparr>"

text \<open>The fields of a span: each value once in a batch, whatever field it is a value of.\<close>

definition tag_field :: "tx_driver \<Rightarrow> string \<Rightarrow> value_row list \<Rightarrow> tag_state \<Rightarrow> tag_state" where
  "tag_field d val rows s =
     (if val \<in> tg_spanFields s then s
      else fold (append_value d) rows (s\<lparr>tg_spanFields := insert val (tg_spanFields s)\<rparr>))"

definition span_hour :: "span_v3 \<Rightarrow> int" where
  "span_hour span = go_quot (uint (sv_StartTimeUnixNano span div 1000000)) 3600000 * 3600000"

definition tag_fields :: "'e tx_env_scheme \<Rightarrow> tx_driver \<Rightarrow> span_v3 \<Rightarrow> tag_state \<Rightarrow> tag_state" where
  "tag_fields E d span s =
     (let unixMilli = span_hour span;
          s = tag_field d (sv_Name span) [field_row unixMilli ''name'' ''string'' (Some (sv_Name span)) None] s;
          s = tag_field d (sv_SpanKind span)
                [field_row unixMilli ''kind_string'' ''string'' (Some (sv_SpanKind span)) None,
                 field_row unixMilli ''kind'' ''float64'' None (Some (floatOfInt E (scast (sv_Kind span))))] s
      in tag_field d (sv_StatusCodeString span)
           [field_row unixMilli ''status_code_string'' ''string'' (Some (sv_StatusCodeString span)) None,
            field_row unixMilli ''status_code'' ''float64'' None (Some (floatOfInt E (scast (sv_StatusCode span))))] s)"

definition tag_span ::
  "'e tx_env_scheme \<Rightarrow> tx_driver \<Rightarrow> (string \<times> should_skip_key) list \<Rightarrow> span_v3 \<Rightarrow> tag_state \<Rightarrow>
     (string \<times> tag_state) + tag_state" where
  "tag_span E d shouldSkipKeys span s =
     (case fold_result (tag_attribute E d shouldSkipKeys (span_hour span)) (sv_SpanAttributes span) s of
        Inl e \<Rightarrow> Inl e
      | Inr s \<Rightarrow> Inr (tag_fields E d span s))"

text \<open>The error, the cache of keys, and the rows that reach the two tables: first the values are sent.\<close>

definition writeTagBatchV3 ::
  "'e tx_env_scheme \<Rightarrow> tx_driver \<Rightarrow> (string \<times> should_skip_key) list \<Rightarrow> span_v3 list \<Rightarrow> string set \<Rightarrow>
     string option \<times> string set \<times> value_row list \<times> key_row list" where
  "writeTagBatchV3 E d shouldSkipKeys batchSpans cache =
     (case prepareErr (td_keys d) of Some e \<Rightarrow> (Some e, cache, [], []) | None \<Rightarrow>
     (case prepareErr (td_values d) of Some e \<Rightarrow> (Some e, cache, [], []) | None \<Rightarrow>
     (case fold_result (tag_span E d shouldSkipKeys) batchSpans
             \<lparr>tg_attributeValues = {}, tg_attributeKeys = {}, tg_spanFields = {}, tg_keysCache = cache,
              tg_keyRows = [], tg_valueRows = []\<rparr> of
        Inl (e, s) \<Rightarrow> (Some e, tg_keysCache s, [], [])
      | Inr s \<Rightarrow>
          (case sendErr (td_values d) of Some e \<Rightarrow> (Some e, tg_keysCache s, [], []) | None \<Rightarrow>
          (case sendErr (td_keys d) of Some e \<Rightarrow> (Some e, tg_keysCache s, tg_valueRows s, []) | None \<Rightarrow>
             (None, tg_keysCache s, tg_valueRows s, tg_keyRows s))))))"

subsection \<open>Usage\<close>

record usage_metric =
  um_Size :: i64
  um_Count :: i64

definition AddMetric :: "(string \<times> usage_metric) list \<Rightarrow> string \<Rightarrow> i64 \<Rightarrow> i64 \<Rightarrow> (string \<times> usage_metric) list" where
  "AddMetric metrics tenant cnt sz =
     (case map_of metrics tenant of
        Some entry \<Rightarrow> AList.update tenant (entry\<lparr>um_Count := um_Count entry + cnt, um_Size := um_Size entry + sz\<rparr>) metrics
      | None \<Rightarrow> AList.update tenant \<lparr>um_Size = sz, um_Count = cnt\<rparr> metrics)"

subsection \<open>State and operations\<close>

text \<open>The two caches, the keys to skip, the five tables, and the measures of usage recorded.\<close>

record tx_state =
  tx_keysCache :: "string set"
  tx_rfCache :: "string set"
  tx_shouldSkipKeys :: "(string \<times> should_skip_key) list"
  tt_spans :: "index_row list"
  tt_errors :: "error_row list"
  tt_keys :: "key_row list"
  tt_values :: "value_row list"
  tt_resources :: "resource_row list"
  tx_recorded :: "(string \<times> usage_metric) list"
  tx_closed :: bool

definition newTracesExporter :: tx_state where
  "newTracesExporter = \<lparr>tx_keysCache = {}, tx_rfCache = {}, tx_shouldSkipKeys = [], tt_spans = [], tt_errors = [],
     tt_keys = [], tt_values = [], tt_resources = [], tx_recorded = [], tx_closed = False\<rparr>"

text \<open>
  The three writers run in parallel on tables of their own. The errors of the first two count; the first
  that arrives is returned. Usage is recorded in any case.
\<close>

definition WriteBatchOfSpansV3 ::
  "'e tx_env_scheme \<Rightarrow> tx_driver \<Rightarrow> span_v3 list \<Rightarrow> (string \<times> usage_metric) list \<Rightarrow> tx_state \<Rightarrow> string option \<times> tx_state" where
  "WriteBatchOfSpansV3 E d batch metrics st =
     (let (e1, spans) = writeIndexBatchV3 d batch;
          (e2, errors) = writeErrorBatchV3 d batch;
          (_, cache, vals, keys) = writeTagBatchV3 E d (tx_shouldSkipKeys st) batch (tx_keysCache st);
          st = st\<lparr>tx_keysCache := cache, tt_spans := tt_spans st @ spans, tt_errors := tt_errors st @ errors,
                  tt_keys := tt_keys st @ keys, tt_values := tt_values st @ vals,
                  tx_recorded := tx_recorded st @ metrics\<rparr>;
          chErr = map the (filter (\<lambda>e. e \<noteq> None) (if td_errorFirst d then [e2, e1] else [e1, e2]))
      in (case chErr of [] \<Rightarrow> None | r # rs \<Rightarrow> Some r, st))"

definition MakeKeyForRFCache :: "int \<Rightarrow> string \<Rightarrow> string" where
  "MakeKeyForRFCache bucketTs fingerprint = format_int bucketTs @ '':'' @ fingerprint"

definition resource_rows :: "resources_seen \<Rightarrow> resource_row list" where
  "resource_rows resourcesSeen =
     concat (map (\<lambda>(bucketTs, resources). map (\<lambda>(resourceLabels, fingerprint).
       \<lparr>rr_labels = resourceLabels, rr_fingerprint = fingerprint, rr_seen_at_ts_bucket_start = bucketTs\<rparr>) resources) resourcesSeen)"

definition resource_key :: "resource_row \<Rightarrow> string" where
  "resource_key r = MakeKeyForRFCache (rr_seen_at_ts_bucket_start r) (rr_fingerprint r)"

text \<open>The loop over the resources: the cache, and the rows appended so far; errors of appending are ignored.\<close>

fun resource_loop ::
  "(resource_row \<Rightarrow> string option) \<Rightarrow> resource_row list \<Rightarrow> string set \<Rightarrow> resource_row list \<Rightarrow> string set \<times> resource_row list" where
  "resource_loop err [] cache rows = (cache, rows)"
| "resource_loop err (r # rs) cache rows =
     (if resource_key r \<in> cache then resource_loop err rs cache rows
      else resource_loop err rs (insert (resource_key r) cache) (if err r = None then rows @ [r] else rows))"

interpretation resource_cache: write_once "resource_loop err" resource_key "\<lambda>r. if err r = None then [r] else []" for err
  by unfold_locales auto

definition WriteResourcesV3 :: "tx_driver \<Rightarrow> resources_seen \<Rightarrow> tx_state \<Rightarrow> string option \<times> tx_state" where
  "WriteResourcesV3 d resourcesSeen st =
     (case prepareErr (td_resources d) of
        Some e \<Rightarrow> (Some e, st)
      | None \<Rightarrow>
          (let (cache, rows) = resource_loop (appendErr (td_resources d)) (td_order d (resource_rows resourcesSeen)) (tx_rfCache st) [];
               st = st\<lparr>tx_rfCache := cache\<rparr>
           in case sendErr (td_resources d) of
                Some e \<Rightarrow> (Some e, st)
              | None \<Rightarrow> (None, st\<lparr>tt_resources := tt_resources st @ rows\<rparr>)))"

text \<open>Spans that started before the oldest allowed time are skipped: it is \<open>days\<close> days before \<open>now\<close>.\<close>

definition oldest_allowed :: "int \<Rightarrow> nat \<Rightarrow> u64" where
  "oldest_allowed now days = word_of_int (now - int days * 24 * 3600000000000)"

definition push_resource ::
  "'e tx_env_scheme \<Rightarrow> bool \<Rightarrow> (nat \<Rightarrow> nat \<Rightarrow> string) \<Rightarrow> u64 \<Rightarrow> otlp_resource_spans \<Rightarrow> push_acc \<Rightarrow> string + push_acc" where
  "push_resource E low uuids oldestAllowedTs rs acc =
     (case marshalStrMap E (fold (\<lambda>(k, v). AList.update k (asString E v)) (ors_resource rs) []) of
        None \<Rightarrow> Inl ''couldn't serialize trace resource JSON''
      | Some resourceJson \<Rightarrow>
          fold_result (\<lambda>ils. fold_result (push_span E low uuids oldestAllowedTs (ors_resource rs) resourceJson) (oss_spans ils))
            (ors_scopes rs) acc)"

definition pushTraceDataV3 ::
  "'e tx_env_scheme \<Rightarrow> bool \<Rightarrow> nat \<Rightarrow> (nat \<Rightarrow> nat \<Rightarrow> string) \<Rightarrow> tx_driver \<Rightarrow> int \<Rightarrow> otlp_traces \<Rightarrow> tx_state \<Rightarrow> string option \<times> tx_state" where
  "pushTraceDataV3 E low maxAllowedDataAgeDays uuids d now td st =
     (if tx_closed st then (Some ''shutdown has been called'', st)
      else case fold_result (push_resource E low uuids (oldest_allowed now maxAllowedDataAgeDays)) td
                  \<lparr>pa_resourcesSeen = [], pa_batchOfSpans = [], pa_count = 0, pa_size = 0\<rparr> of
             Inl e \<Rightarrow> (Some e, st)
           | Inr acc \<Rightarrow>
               (let metrics = AddMetric [] ''default'' (of_nat (pa_count acc)) (of_nat (pa_size acc))
                in case WriteBatchOfSpansV3 E d (pa_batchOfSpans acc) metrics st of
                     (Some e, st) \<Rightarrow> (Some e, st)
                   | (None, st) \<Rightarrow> WriteResourcesV3 d (pa_resourcesSeen acc) st))"

text \<open>
  The background fetch of the keys to skip: what the query returned replaces the old ones, also with an error.
\<close>

definition doFetchShouldSkipKeys :: "should_skip_key list \<Rightarrow> tx_state \<Rightarrow> tx_state" where
  "doFetchShouldSkipKeys keys st =
     st\<lparr>tx_shouldSkipKeys :=
       fold (\<lambda>key. AList.update (MakeKeyForAttributeKeys (TagKey key) (TagType key) (TagDataType key)) key) keys []\<rparr>"

definition tx_Shutdown :: "tx_state \<Rightarrow> tx_state" where
  "tx_Shutdown st = st\<lparr>tx_closed := True\<rparr>"

text \<open>Entries leave the caches when they expire or room is needed.\<close>

definition tx_expire :: "string \<Rightarrow> tx_state \<Rightarrow> tx_state" where
  "tx_expire key st = st\<lparr>tx_keysCache := tx_keysCache st - {key}, tx_rfCache := tx_rfCache st - {key}\<rparr>"

datatype tx_event = TxPush "nat \<Rightarrow> nat \<Rightarrow> string" tx_driver int otlp_traces | TxFetch "should_skip_key list" | TxExpire string | TxShutdown

fun tx_run :: "'e tx_env_scheme \<Rightarrow> bool \<Rightarrow> nat \<Rightarrow> tx_event list \<Rightarrow> tx_state \<Rightarrow> tx_state" where
  "tx_run E low days [] st = st"
| "tx_run E low days (TxPush uuids d now td # evs) st = tx_run E low days evs (snd (pushTraceDataV3 E low days uuids d now td st))"
| "tx_run E low days (TxFetch keys # evs) st = tx_run E low days evs (doFetchShouldSkipKeys keys st)"
| "tx_run E low days (TxExpire key # evs) st = tx_run E low days evs (tx_expire key st)"
| "tx_run E low days (TxShutdown # evs) st = tx_run E low days evs (tx_Shutdown st)"

end
