(* ===== verification/TracesExporterTheorems.thy ===== *)
theory TracesExporterTheorems
  imports TracesExporter MeterTheorems MetricsExporterTheorems
begin

text \<open>
  What the traces exporter writes: one row per span of the window, one per exception, the resource of every
  span; what its caches do when a write fails; and that the size it reports is the size the meter bills.
\<close>

section \<open>Structured spans\<close>

subsection \<open>References and events are those of the schema\<close>

lemma references_eq: "makeJaegerProtoReferences links parentSpanID traceID = NewOtelSpanRefs links parentSpanID traceID"
proof -
  have "fold (\<lambda>link refs. refs @ [f link]) links refs = refs @ map f links" for f and refs :: "otel_span_ref list"
    by (induction links arbitrary: refs) simp_all
  then show ?thesis by (simp add: makeJaegerProtoReferences_def NewOtelSpanRefs_def Let_def)
qed

lemma populate_event_eq:
  "populate_event E low uuid e span =
     (let r = new_event E (tx_md5 E) uuid (sv_ServiceName span) low e
      in span\<lparr>sv_Events := sv_Events span @ [fst r], sv_ErrorEvents := sv_ErrorEvents span @ [snd r]\<rparr>)"
  by (simp add: populate_event_def new_event_def Let_def)

lemma populateEventsV3_eq:
  "populateEventsV3 E low uuids events span =
     (let (strs, errs) = NewEventsAndErrorEvents E (tx_md5 E) uuids events (sv_ServiceName span) low
      in span\<lparr>sv_Events := sv_Events span @ strs, sv_ErrorEvents := sv_ErrorEvents span @ errs\<rparr>)"
proof -
  have "fold (\<lambda>(i, e). populate_event E low (uuids i) e) ies span =
      span\<lparr>sv_Events := sv_Events span @ map (\<lambda>(i, e). fst (new_event E (tx_md5 E) (uuids i) (sv_ServiceName span) low e)) ies,
           sv_ErrorEvents := sv_ErrorEvents span @ map (\<lambda>(i, e). snd (new_event E (tx_md5 E) (uuids i) (sv_ServiceName span) low e)) ies\<rparr>"
    for ies
    by (induction ies arbitrary: span) (auto simp: populate_event_eq Let_def)
  then show ?thesis
    by (simp add: populateEventsV3_def NewEventsAndErrorEvents_def Let_def comp_def case_prod_unfold)
qed

lemma new_event_fst: "fst (new_event E md5 uuid serviceName low e) = fst (new_event E md5' uuid' serviceName' low' e)"
  by (simp add: new_event_def Let_def)

lemma events_independent:
  "fst (NewEventsAndErrorEvents E md5 uuids es serviceName low) = fst (NewEventsAndErrorEvents E md5' uuids' es serviceName' low')"
  unfolding NewEventsAndErrorEvents_def Let_def fst_conv
  by (simp add: case_prod_unfold comp_def new_event_fst [of E md5 _ serviceName low _ md5' _ serviceName' low'])

subsection \<open>What the populating functions leave alone\<close>

lemma custom_attr_keeps [simp]:
  "sv_TsBucketStart (custom_attr E kv s) = sv_TsBucketStart s" "sv_FingerPrint (custom_attr E kv s) = sv_FingerPrint s"
  "sv_StartTimeUnixNano (custom_attr E kv s) = sv_StartTimeUnixNano s" "sv_TraceId (custom_attr E kv s) = sv_TraceId s"
  "sv_SpanId (custom_attr E kv s) = sv_SpanId s" "sv_TraceState (custom_attr E kv s) = sv_TraceState s"
  "sv_ParentSpanId (custom_attr E kv s) = sv_ParentSpanId s" "sv_Flags (custom_attr E kv s) = sv_Flags s"
  "sv_Name (custom_attr E kv s) = sv_Name s" "sv_Kind (custom_attr E kv s) = sv_Kind s"
  "sv_SpanKind (custom_attr E kv s) = sv_SpanKind s" "sv_StatusCodeString (custom_attr E kv s) = sv_StatusCodeString s"
  "sv_AttributeString (custom_attr E kv s) = sv_AttributeString s"
  "sv_AttributesNumber (custom_attr E kv s) = sv_AttributesNumber s"
  "sv_AttributesBool (custom_attr E kv s) = sv_AttributesBool s"
  "sv_BillableResourcesString (custom_attr E kv s) = sv_BillableResourcesString s"
  "sv_Events (custom_attr E kv s) = sv_Events s" "sv_ErrorEvents (custom_attr E kv s) = sv_ErrorEvents s"
  "sv_ServiceName (custom_attr E kv s) = sv_ServiceName s" "sv_References (custom_attr E kv s) = sv_References s"
  by (simp_all add: custom_attr_def Let_def split: prod.split)

lemma fold_field: "(\<And>x s. f (g x s) = f s) \<Longrightarrow> f (fold g xs s) = f s"
  by (induction xs arbitrary: s) simp_all

lemma custom_attrs_keep [simp]:
  "sv_TsBucketStart (populateCustomAttrsAndAttrs E m s) = sv_TsBucketStart s"
  "sv_FingerPrint (populateCustomAttrsAndAttrs E m s) = sv_FingerPrint s"
  "sv_StartTimeUnixNano (populateCustomAttrsAndAttrs E m s) = sv_StartTimeUnixNano s"
  "sv_TraceId (populateCustomAttrsAndAttrs E m s) = sv_TraceId s"
  "sv_SpanId (populateCustomAttrsAndAttrs E m s) = sv_SpanId s"
  "sv_TraceState (populateCustomAttrsAndAttrs E m s) = sv_TraceState s"
  "sv_ParentSpanId (populateCustomAttrsAndAttrs E m s) = sv_ParentSpanId s"
  "sv_Flags (populateCustomAttrsAndAttrs E m s) = sv_Flags s"
  "sv_Name (populateCustomAttrsAndAttrs E m s) = sv_Name s"
  "sv_Kind (populateCustomAttrsAndAttrs E m s) = sv_Kind s"
  "sv_SpanKind (populateCustomAttrsAndAttrs E m s) = sv_SpanKind s"
  "sv_StatusCodeString (populateCustomAttrsAndAttrs E m s) = sv_StatusCodeString s"
  "sv_AttributeString (populateCustomAttrsAndAttrs E m s) = sv_AttributeString s"
  "sv_AttributesNumber (populateCustomAttrsAndAttrs E m s) = sv_AttributesNumber s"
  "sv_AttributesBool (populateCustomAttrsAndAttrs E m s) = sv_AttributesBool s"
  "sv_BillableResourcesString (populateCustomAttrsAndAttrs E m s) = sv_BillableResourcesString s"
  "sv_Events (populateCustomAttrsAndAttrs E m s) = sv_Events s"
  "sv_ErrorEvents (populateCustomAttrsAndAttrs E m s) = sv_ErrorEvents s"
  "sv_ServiceName (populateCustomAttrsAndAttrs E m s) = sv_ServiceName s"
  "sv_References (populateCustomAttrsAndAttrs E m s) = sv_References s"
  by (simp_all add: populateCustomAttrsAndAttrs_def fold_field)

lemma plain_span_fields [simp]:
  "sv_TsBucketStart (plain_span_v3 E b fp span svc am rm) = b"
  "sv_FingerPrint (plain_span_v3 E b fp span svc am rm) = fp"
  "sv_StartTimeUnixNano (plain_span_v3 E b fp span svc am rm) = os_start span"
  "sv_TraceId (plain_span_v3 E b fp span svc am rm) = TraceIDToHexOrEmptyString (os_traceID span)"
  "sv_SpanId (plain_span_v3 E b fp span svc am rm) = SpanIDToHexOrEmptyString (os_spanID span)"
  "sv_TraceState (plain_span_v3 E b fp span svc am rm) = os_traceState span"
  "sv_ParentSpanId (plain_span_v3 E b fp span svc am rm) = SpanIDToHexOrEmptyString (os_parentSpanID span)"
  "sv_Flags (plain_span_v3 E b fp span svc am rm) = os_flags span"
  "sv_Name (plain_span_v3 E b fp span svc am rm) = os_name span"
  "sv_Kind (plain_span_v3 E b fp span svc am rm) = ucast (os_kind span)"
  "sv_SpanKind (plain_span_v3 E b fp span svc am rm) = kindString E (os_kind span)"
  "sv_AttributeString (plain_span_v3 E b fp span svc am rm) = ad_StringMap am"
  "sv_AttributesNumber (plain_span_v3 E b fp span svc am rm) = ad_NumberMap am"
  "sv_AttributesBool (plain_span_v3 E b fp span svc am rm) = ad_BoolMap am"
  "sv_BillableResourcesString (plain_span_v3 E b fp span svc am rm) = fst (snd rm)"
  "sv_Events (plain_span_v3 E b fp span svc am rm) = []"
  "sv_ErrorEvents (plain_span_v3 E b fp span svc am rm) = []"
  "sv_ServiceName (plain_span_v3 E b fp span svc am rm) = svc"
  "sv_References (plain_span_v3 E b fp span svc am rm) = references_json E span"
  by (simp_all add: plain_span_v3_def split: prod.split)

lemma events_fields [simp]:
  "sv_TsBucketStart (populateEventsV3 E low uuids es s) = sv_TsBucketStart s"
  "sv_FingerPrint (populateEventsV3 E low uuids es s) = sv_FingerPrint s"
  "sv_StartTimeUnixNano (populateEventsV3 E low uuids es s) = sv_StartTimeUnixNano s"
  "sv_TraceId (populateEventsV3 E low uuids es s) = sv_TraceId s"
  "sv_SpanId (populateEventsV3 E low uuids es s) = sv_SpanId s"
  "sv_TraceState (populateEventsV3 E low uuids es s) = sv_TraceState s"
  "sv_ParentSpanId (populateEventsV3 E low uuids es s) = sv_ParentSpanId s"
  "sv_Flags (populateEventsV3 E low uuids es s) = sv_Flags s"
  "sv_Name (populateEventsV3 E low uuids es s) = sv_Name s"
  "sv_Kind (populateEventsV3 E low uuids es s) = sv_Kind s"
  "sv_SpanKind (populateEventsV3 E low uuids es s) = sv_SpanKind s"
  "sv_AttributeString (populateEventsV3 E low uuids es s) = sv_AttributeString s"
  "sv_AttributesNumber (populateEventsV3 E low uuids es s) = sv_AttributesNumber s"
  "sv_AttributesBool (populateEventsV3 E low uuids es s) = sv_AttributesBool s"
  "sv_BillableResourcesString (populateEventsV3 E low uuids es s) = sv_BillableResourcesString s"
  "sv_Events (populateEventsV3 E low uuids es s) =
     sv_Events s @ fst (NewEventsAndErrorEvents E (tx_md5 E) uuids es (sv_ServiceName s) low)"
  "sv_ErrorEvents (populateEventsV3 E low uuids es s) =
     sv_ErrorEvents s @ snd (NewEventsAndErrorEvents E (tx_md5 E) uuids es (sv_ServiceName s) low)"
  "sv_ServiceName (populateEventsV3 E low uuids es s) = sv_ServiceName s"
  "sv_References (populateEventsV3 E low uuids es s) = sv_References s"
  by (simp_all add: populateEventsV3_eq split: prod.split)

lemma structured_fields [simp]:
  "sv_TsBucketStart (newStructuredSpanV3 E low uuids b fp span svc r) = b"
  "sv_FingerPrint (newStructuredSpanV3 E low uuids b fp span svc r) = fp"
  "sv_StartTimeUnixNano (newStructuredSpanV3 E low uuids b fp span svc r) = os_start span"
  "sv_TraceId (newStructuredSpanV3 E low uuids b fp span svc r) = TraceIDToHexOrEmptyString (os_traceID span)"
  "sv_SpanId (newStructuredSpanV3 E low uuids b fp span svc r) = SpanIDToHexOrEmptyString (os_spanID span)"
  "sv_TraceState (newStructuredSpanV3 E low uuids b fp span svc r) = os_traceState span"
  "sv_ParentSpanId (newStructuredSpanV3 E low uuids b fp span svc r) = SpanIDToHexOrEmptyString (os_parentSpanID span)"
  "sv_Flags (newStructuredSpanV3 E low uuids b fp span svc r) = os_flags span"
  "sv_Name (newStructuredSpanV3 E low uuids b fp span svc r) = os_name span"
  "sv_Kind (newStructuredSpanV3 E low uuids b fp span svc r) = ucast (os_kind span)"
  "sv_SpanKind (newStructuredSpanV3 E low uuids b fp span svc r) = kindString E (os_kind span)"
  "sv_AttributeString (newStructuredSpanV3 E low uuids b fp span svc r) = ad_StringMap (split_attributes E (os_attrs span))"
  "sv_AttributesNumber (newStructuredSpanV3 E low uuids b fp span svc r) = ad_NumberMap (split_attributes E (os_attrs span))"
  "sv_AttributesBool (newStructuredSpanV3 E low uuids b fp span svc r) = ad_BoolMap (split_attributes E (os_attrs span))"
  "sv_BillableResourcesString (newStructuredSpanV3 E low uuids b fp span svc r) =
     fst (snd (fold (resource_attr E) r ([], [], ad_SpanAttributes (split_attributes E (os_attrs span)))))"
  "sv_Events (newStructuredSpanV3 E low uuids b fp span svc r) =
     fst (NewEventsAndErrorEvents E (tx_md5 E) uuids (os_events span) svc low)"
  "sv_ErrorEvents (newStructuredSpanV3 E low uuids b fp span svc r) =
     snd (NewEventsAndErrorEvents E (tx_md5 E) uuids (os_events span) svc low)"
  "sv_ServiceName (newStructuredSpanV3 E low uuids b fp span svc r) = svc"
  "sv_References (newStructuredSpanV3 E low uuids b fp span svc r) = references_json E span"
  by (simp_all add: newStructuredSpanV3_def Let_def)

section \<open>The attributes are those the meter sizes\<close>

definition maps_of :: "attributes_data \<Rightarrow> split_attrs" where
  "maps_of m = (ad_NumberMap m, ad_StringMap m, ad_BoolMap m)"

text \<open>No number below a map value is infinite or not a number: the exporter drops those, the meter does not.\<close>

definition finite_leaf :: "any \<Rightarrow> bool" where
  "finite_leaf v = (case v of VFloat f \<Rightarrow> IsValidFloat f | _ \<Rightarrow> True)"

definition nested_finite :: "'e flatten_env_scheme \<Rightarrow> vmap \<Rightarrow> bool" where
  "nested_finite E m = list_all (\<lambda>(k, v). case v of VMap vm \<Rightarrow> list_all (\<lambda>kv. finite_leaf (snd kv)) (FlattenJSON E vm k) | _ \<Rightarrow> True) m"

lemma maps_of_add_flat: "finite_leaf (snd kv) \<Longrightarrow> maps_of (add_flat kv m) = put_flat kv (maps_of m)"
  by (cases kv) (auto simp: maps_of_def add_flat_def put_flat_def add_tag_def finite_leaf_def split: any.splits)

lemma maps_of_fold_flat:
  "list_all (\<lambda>kv. finite_leaf (snd kv)) kvs \<Longrightarrow> maps_of (fold add_flat kvs m) = fold put_flat kvs (maps_of m)"
  by (induction kvs arbitrary: m) (simp_all add: maps_of_add_flat)

lemma maps_of_attr_add: "nested_finite E [kv] \<Longrightarrow> maps_of (attr_add E kv m) = split_attr E kv (maps_of m)"
  by (cases kv) (auto simp: nested_finite_def attr_add_def split_attr_def maps_of_fold_flat maps_of_def add_tag_def
      split: any.split intro: maps_of_fold_flat [unfolded maps_of_def])

lemma maps_of_split_attributes:
  "nested_finite E m \<Longrightarrow> maps_of (split_attributes E m) = fold (split_attr E) m ([], [], [])"
proof -
  have "nested_finite E m \<Longrightarrow> maps_of (fold (attr_add E) m a) = fold (split_attr E) m (maps_of a)" for a
    by (induction m arbitrary: a) (simp_all add: nested_finite_def maps_of_attr_add [unfolded nested_finite_def])
  then show "nested_finite E m \<Longrightarrow> maps_of (split_attributes E m) = fold (split_attr E) m ([], [], [])"
    by (simp add: split_attributes_def) (simp add: maps_of_def)
qed

lemma billable_put_resource: "fst (snd (put_resource True k v x)) = AList.update k v (fst (snd x))"
    "fst (snd (put_resource False k v x)) = fst (snd x)"
  by (simp_all add: put_resource_def split: prod.split)

lemma billable_fold:
  "fst (snd (fold (\<lambda>(k, v). put_resource b k (f v)) kvs x)) =
    (if b then fold (\<lambda>(k, v). AList.update k (f v)) kvs (fst (snd x)) else fst (snd x))"
  by (induction kvs arbitrary: x) (auto simp: billable_put_resource)

lemma billable_resource_attr: "fst (snd (resource_attr E kv x)) = flat_strings E workspace kv (fst (snd x))"
proof (cases kv)
  case (Pair k v)
  have "put_resource b k s x = (fst (put_resource b k s x), fst (snd (put_resource b k s x)), snd (snd (put_resource b k s x)))" for b s
    by simp
  then show ?thesis
    by (cases "ExcludeSigNozWorkspaceResourceAttrs k")
      (simp_all add: Pair resource_attr_def flat_strings_def workspace_def excluded_def billable_put_resource billable_fold
        split: any.split)
qed

lemma billable_resources: "fst (snd (fold (resource_attr E) r x)) = fold (flat_strings E workspace) r (fst (snd x))"
  by (induction r arbitrary: x) (simp_all add: billable_resource_attr)

subsection \<open>Numbers can be written as JSON\<close>

lemma numbers_update:
  "list_all (\<lambda>kv. IsValidFloat (snd kv)) m \<Longrightarrow> IsValidFloat f \<Longrightarrow> list_all (\<lambda>kv. IsValidFloat (snd kv)) (AList.update k f m)"
  by (induction m) auto

lemma numbers_add_flat:
  "list_all (\<lambda>kv. IsValidFloat (snd kv)) (ad_NumberMap m) \<Longrightarrow>
    list_all (\<lambda>kv. IsValidFloat (snd kv)) (ad_NumberMap (add_flat kv m))"
  by (cases kv) (auto simp: add_flat_def add_tag_def numbers_update split: any.splits)

lemma numbers_attr_add:
  assumes "\<And>i. IsValidFloat (floatOfInt E i)" and "list_all (\<lambda>kv. IsValidFloat (snd kv)) (ad_NumberMap m)"
  shows "list_all (\<lambda>kv. IsValidFloat (snd kv)) (ad_NumberMap (attr_add E kv m))"
proof -
  have "list_all (\<lambda>kv. IsValidFloat (snd kv)) (ad_NumberMap (fold add_flat kvs m))" for kvs
    using assms(2) by (induction kvs arbitrary: m) (simp_all add: numbers_add_flat)
  then show ?thesis
    using assms by (cases kv) (auto simp: attr_add_def add_tag_def numbers_update split: any.splits)
qed

text \<open>Every number in the attributes of a structured span is finite, whatever the attributes of the span, when
  integers convert to finite numbers: so the numbers never make the JSON of the span fail.\<close>

lemma span_numbers_are_finite:
  assumes "\<And>i. IsValidFloat (floatOfInt E i)"
  shows "list_all (\<lambda>kv. IsValidFloat (snd kv)) (sv_AttributesNumber (newStructuredSpanV3 E low uuids b fp span svc r))"
proof -
  have "list_all (\<lambda>kv. IsValidFloat (snd kv)) (ad_NumberMap m) \<Longrightarrow>
      list_all (\<lambda>kv. IsValidFloat (snd kv)) (ad_NumberMap (fold (attr_add E) attrs m))" for attrs m
    by (induction attrs arbitrary: m) (simp_all add: numbers_attr_add [OF assms])
  then show ?thesis by (simp add: split_attributes_def)
qed

section \<open>From a payload to a batch\<close>

definition in_window :: "u64 \<Rightarrow> otlp_traces \<Rightarrow> (vmap \<times> otlp_span) list" where
  "in_window oldest td =
     concat (map (\<lambda>rs. concat (map (\<lambda>ils. map (Pair (ors_resource rs)) (filter (\<lambda>s. oldest \<le> os_start s) (oss_spans ils))) (ors_scopes rs))) td)"

text \<open>A structured span of a span under a resource, whatever its fingerprint and fresh identifiers.\<close>

definition structured :: "'e tx_env_scheme \<Rightarrow> bool \<Rightarrow> vmap \<times> otlp_span \<Rightarrow> span_v3 \<Rightarrow> bool" where
  "structured E low = (\<lambda>(r, s) sv. \<exists>uuids fp. sv =
     newStructuredSpanV3 E low uuids (word_of_int (span_bucket s)) fp s (ServiceNameForResource r) r)"

definition json_len :: "'e tx_env_scheme \<Rightarrow> span_v3 \<Rightarrow> nat" where
  "json_len E sv = length (the (tx_marshalSpan E sv))"

definition seen_row :: "resources_seen \<Rightarrow> int \<Rightarrow> string \<Rightarrow> bool" where
  "seen_row seen b fp \<longleftrightarrow> (\<exists>q \<in> set (resource_rows seen). rr_fingerprint q = fp \<and> rr_seen_at_ts_bucket_start q = b)"

text \<open>The resources seen in a list of spans.\<close>

definition resource_json :: "'e meter_env_scheme \<Rightarrow> vmap \<Rightarrow> string" where
  "resource_json E r = the (marshalStrMap E (fold (\<lambda>(k, v). AList.update k (asString E v)) r []))"

definition seen_of :: "'e tx_env_scheme \<Rightarrow> (vmap \<times> otlp_span) list \<Rightarrow> resources_seen \<Rightarrow> resources_seen" where
  "seen_of E todo seen = fold (\<lambda>(r, s) seen. snd (see_resource E (span_bucket s) (resource_json E r) r seen)) todo seen"

text \<open>What a part of the loop does to the accumulator, for the spans that it visits.\<close>

definition pushes :: "'e tx_env_scheme \<Rightarrow> bool \<Rightarrow> (vmap \<times> otlp_span) list \<Rightarrow> push_acc \<Rightarrow> push_acc \<Rightarrow> bool" where
  "pushes E low todo acc acc' \<longleftrightarrow>
     (\<exists>svs. pa_batchOfSpans acc' = pa_batchOfSpans acc @ svs \<and> list_all2 (structured E low) todo svs \<and>
       pa_count acc' = pa_count acc + length svs \<and> pa_size acc' = pa_size acc + sum_list (map (json_len E) svs) \<and>
       (\<forall>sv \<in> set svs. tx_marshalSpan E sv \<noteq> None \<and> seen_row (pa_resourcesSeen acc') (uint (sv_TsBucketStart sv)) (sv_FingerPrint sv))) \<and>
     (\<forall>b fp. seen_row (pa_resourcesSeen acc) b fp \<longrightarrow> seen_row (pa_resourcesSeen acc') b fp) \<and>
     pa_resourcesSeen acc' = seen_of E todo (pa_resourcesSeen acc)"

lemma pushes_refl: "pushes E low [] acc acc"
  by (simp add: pushes_def seen_of_def)

lemma pushes_trans:
  assumes "pushes E low xs a b" and "pushes E low ys b c"
  shows "pushes E low (xs @ ys) a c"
proof -
  obtain s1 where 1: "pa_batchOfSpans b = pa_batchOfSpans a @ s1" "list_all2 (structured E low) xs s1"
      "pa_count b = pa_count a + length s1" "pa_size b = pa_size a + sum_list (map (json_len E) s1)"
      "\<forall>sv \<in> set s1. tx_marshalSpan E sv \<noteq> None \<and> seen_row (pa_resourcesSeen b) (uint (sv_TsBucketStart sv)) (sv_FingerPrint sv)"
    using assms(1) unfolding pushes_def by blast
  obtain s2 where 2: "pa_batchOfSpans c = pa_batchOfSpans b @ s2" "list_all2 (structured E low) ys s2"
      "pa_count c = pa_count b + length s2" "pa_size c = pa_size b + sum_list (map (json_len E) s2)"
      "\<forall>sv \<in> set s2. tx_marshalSpan E sv \<noteq> None \<and> seen_row (pa_resourcesSeen c) (uint (sv_TsBucketStart sv)) (sv_FingerPrint sv)"
    using assms(2) unfolding pushes_def by blast
  have m: "seen_row (pa_resourcesSeen a) i fp \<Longrightarrow> seen_row (pa_resourcesSeen b) i fp"
      "seen_row (pa_resourcesSeen b) i fp \<Longrightarrow> seen_row (pa_resourcesSeen c) i fp" for i fp
    using assms unfolding pushes_def by blast+
  have s: "pa_resourcesSeen c = seen_of E (xs @ ys) (pa_resourcesSeen a)"
    using assms by (simp add: pushes_def seen_of_def)
  show ?thesis
    unfolding pushes_def
    by (intro conjI exI [of _ "s1 @ s2"]) (use 1 2 m s in \<open>auto simp: list_all2_appendI\<close>)
qed

lemma fold_result_pushes:
  assumes "fold_result f xs acc = Inr acc'"
    and "\<And>x a a'. x \<in> set xs \<Longrightarrow> f x a = Inr a' \<Longrightarrow> pushes E low (g x) a a'"
  shows "pushes E low (concat (map g xs)) acc acc'"
  using assms
proof (induction xs arbitrary: acc)
  case (Cons x xs)
  obtain a where a: "f x acc = Inr a" "fold_result f xs a = Inr acc'"
    using Cons.prems(1) by (auto split: sum.splits)
  have "pushes E low (concat (map g xs)) a acc'"
    by (rule Cons.IH [OF a(2)]) (rule Cons.prems(2), simp_all)
  then show ?case using pushes_trans [OF Cons.prems(2) [OF _ a(1)]] by simp
qed (simp add: pushes_refl)

subsection \<open>The resources seen\<close>

lemma seen_row_iff:
  "seen_row seen b fp \<longleftrightarrow> (\<exists>inner j. (b, inner) \<in> set seen \<and> (j, fp) \<in> set inner)"
  by (force simp: seen_row_def resource_rows_def)

lemma update_new: "map_of al k = None \<Longrightarrow> AList.update k v al = al @ [(k, v)]"
  by (induction al) (auto split: if_splits)

lemma update_in_place:
  assumes "(b, m) \<in> set al"
  shows "(b, m) \<in> set (AList.update k v al) \<or> b = k \<and> map_of al k = Some m"
  using assms by (induction al) (auto split: if_splits)

lemma update_there: "(k, v) \<in> set (AList.update k v al)"
  by (induction al) auto

lemma remember_keeps:
  assumes "seen_row seen b fp"
  shows "seen_row (snd (remember_resource bucket j f seen)) b fp"
proof -
  define seen' where "seen' = (if map_of seen bucket = None then AList.update bucket [] seen else seen)"
  have 1: "seen_row seen' b fp"
    using assms by (auto simp: seen'_def seen_row_iff update_new)
  have "seen_row (AList.update bucket (AList.update j f (the (map_of seen' bucket))) seen') b fp"
    if n: "map_of (the (map_of seen' bucket)) j = None"
  proof -
    obtain inner k where i: "(b, inner) \<in> set seen'" "(k, fp) \<in> set inner" using 1 by (auto simp: seen_row_iff)
    show ?thesis
    proof (cases "b = bucket \<and> map_of seen' bucket = Some inner")
      case True
      then have "(k, fp) \<in> set (AList.update j f inner)" using i n by (simp add: update_new)
      then show ?thesis using True update_there [of bucket "AList.update j f inner" seen'] by (auto simp: seen_row_iff)
    next
      case False
      then show ?thesis
        using update_in_place [OF i(1), of bucket "AList.update j f (the (map_of seen' bucket))"] i(2)
        by (auto simp: seen_row_iff)
    qed
  qed
  then show ?thesis
    using 1 by (simp add: remember_resource_def Let_def seen'_def [symmetric] split: option.split)
qed

lemma remember_there: "seen_row (snd (remember_resource bucket j f seen)) bucket (fst (remember_resource bucket j f seen))"
proof -
  define seen' where "seen' = (if map_of seen bucket = None then AList.update bucket [] seen else seen)"
  have "map_of seen' bucket \<noteq> None" by (simp add: seen'_def)
  then obtain inner where inner: "map_of seen' bucket = Some inner" by blast
  have in': "(bucket, inner) \<in> set seen'" using inner by (rule map_of_SomeD)
  show ?thesis
  proof (cases "map_of inner j")
    case None
    then show ?thesis
      using update_there [of bucket _ seen'] update_there [of j _ inner]
      by (simp add: remember_resource_def Let_def seen'_def [symmetric] inner seen_row_iff) blast
  next
    case (Some fp)
    then show ?thesis
      using in' map_of_SomeD [OF Some]
      by (simp add: remember_resource_def Let_def seen'_def [symmetric] inner seen_row_iff) blast
  qed
qed

lemmas see_resource_keeps = remember_keeps [where f = "CalculateFingerprint (sprintv E) (tx_sprints E) r ResourceHierarchy" for E r,
    folded see_resource_def]

lemmas see_resource_there = remember_there [where f = "CalculateFingerprint (sprintv E) (tx_sprints E) r ResourceHierarchy" for E r,
    folded see_resource_def]

subsection \<open>The loop over the spans\<close>

lemma bucket_word:
  "uint (word_of_int (tsBucket (uint (w :: u64)) distributedTracesResourceV2Seconds) :: u64) = tsBucket (uint w) distributedTracesResourceV2Seconds"
proof -
  define t where "t = uint w"
  have t: "0 \<le> t" "t < 2 ^ 64" using uint_bounded [of w] by (simp_all add: t_def)
  have b: "tsBucket t distributedTracesResourceV2Seconds = t div 1800 * 1800"
    using t(1) by (cases "t = 0") (simp_all add: tsBucket_def distributedTracesResourceV2Seconds_def go_quot_def)
  have "0 \<le> t div 1800 * 1800" "t div 1800 * 1800 \<le> t" using t(1) by (simp_all add: div_times_less_eq_dividend)
  then have "0 \<le> tsBucket t distributedTracesResourceV2Seconds" "tsBucket t distributedTracesResourceV2Seconds < 2 ^ 64"
    using t b by linarith+
  then show ?thesis by (simp add: t_def uint_word_of_int_eq take_bit_int_eq_self)
qed

lemma span_bucket_word: "uint (word_of_int (span_bucket s) :: u64) = span_bucket s"
  unfolding span_bucket_def by (rule bucket_word)

lemma push_span_pushes:
  assumes "push_span E low uuids oldest resource j s acc = Inr acc'"
    and "j = resource_json E resource"
  shows "pushes E low (if oldest \<le> os_start s then [(resource, s)] else []) acc acc'"
proof (cases "os_start s < oldest")
  case True
  then show ?thesis using assms(1) by (auto simp: push_span_def pushes_refl)
next
  case False
  define fs where "fs = see_resource E (span_bucket s) j resource (pa_resourcesSeen acc)"
  define sv where "sv = newStructuredSpanV3 E low (uuids (pa_count acc)) (word_of_int (span_bucket s)) (fst fs) s
      (ServiceNameForResource resource) resource"
  obtain bs where bs: "tx_marshalSpan E sv = Some bs" and
    acc': "acc' = acc\<lparr>pa_resourcesSeen := snd fs, pa_batchOfSpans := pa_batchOfSpans acc @ [sv],
        pa_count := pa_count acc + 1, pa_size := pa_size acc + length bs\<rparr>"
    using assms(1) False
    by (auto simp: push_span_def Let_def fs_def [symmetric] sv_def split: prod.splits option.splits)
  have "structured E low (resource, s) sv" by (auto simp: structured_def sv_def)
  moreover have "seen_row (snd fs) (uint (sv_TsBucketStart sv)) (sv_FingerPrint sv)"
    by (simp add: sv_def span_bucket_word fs_def see_resource_there)
  moreover have "seen_row (pa_resourcesSeen acc) b fp \<Longrightarrow> seen_row (snd fs) b fp" for b fp
    by (simp add: fs_def see_resource_keeps)
  ultimately show ?thesis
    using False bs assms(2) by (auto simp: pushes_def acc' json_len_def seen_of_def fs_def intro!: exI [of _ "[sv]"])
qed

lemma concat_if: "concat (map (\<lambda>s. if P s then [f s] else []) xs) = map f (filter P xs)"
  by (induction xs) simp_all

lemma push_resources_pushes:
  assumes "fold_result (push_resource E low uuids oldest) td acc = Inr acc'"
  shows "pushes E low (in_window oldest td) acc acc'"
  unfolding in_window_def
proof (rule fold_result_pushes [OF assms])
  fix rs :: otlp_resource_spans and a a'
  assume "push_resource E low uuids oldest rs a = Inr a'"
  then obtain j where j: "fold_result (\<lambda>ils. fold_result (push_span E low uuids oldest (ors_resource rs) j) (oss_spans ils))
      (ors_scopes rs) a = Inr a'" and json: "j = resource_json E (ors_resource rs)"
    by (auto simp: push_resource_def resource_json_def split: option.splits)
  show "pushes E low (concat (map (\<lambda>ils. map (Pair (ors_resource rs)) (filter (\<lambda>s. oldest \<le> os_start s) (oss_spans ils)))
      (ors_scopes rs))) a a'"
  proof (rule fold_result_pushes [OF j])
    fix ils :: otlp_scope_spans and b b'
    assume "fold_result (push_span E low uuids oldest (ors_resource rs) j) (oss_spans ils) b = Inr b'"
    then have "pushes E low (concat (map (\<lambda>s. if oldest \<le> os_start s then [(ors_resource rs, s)] else []) (oss_spans ils))) b b'"
      by (rule fold_result_pushes) (rule push_span_pushes [OF _ json])
    then show "pushes E low (map (Pair (ors_resource rs)) (filter (\<lambda>s. oldest \<le> os_start s) (oss_spans ils))) b b'"
      by (simp add: concat_if)
  qed
qed

section \<open>Rows of spans and of exceptions\<close>

lemma send_batch_cases:
  "fst (send_batch d rows) = None \<and> snd (send_batch d rows) = rows \<or> fst (send_batch d rows) \<noteq> None \<and> snd (send_batch d rows) = []"
  by (simp add: send_batch_def split: option.split)

text \<open>A push, step by step.\<close>

lemma push_cases:
  assumes "pushTraceDataV3 E low days uuids d now td st = (r, st')"
  obtains (closed_or_json) e where "r = Some e" and "st' = st"
  | (wrote) acc rs st1 where "\<not> tx_closed st"
      and "pushes E low (in_window (oldest_allowed now days) td) \<lparr>pa_resourcesSeen = [], pa_batchOfSpans = [], pa_count = 0, pa_size = 0\<rparr> acc"
      and "WriteBatchOfSpansV3 E d (pa_batchOfSpans acc)
             [(''default'', \<lparr>um_Size = of_nat (pa_size acc), um_Count = of_nat (pa_count acc)\<rparr>)] st = (rs, st1)"
      and "rs \<noteq> None \<Longrightarrow> r = rs \<and> st' = st1" and "rs = None \<Longrightarrow> WriteResourcesV3 d (pa_resourcesSeen acc) st1 = (r, st')"
proof -
  let ?a = "\<lparr>pa_resourcesSeen = [], pa_batchOfSpans = [], pa_count = 0, pa_size = 0\<rparr>"
  show thesis
  proof (cases "tx_closed st")
    case True
    then have "r = Some ''shutdown has been called''" "st' = st" using assms by (simp_all add: pushTraceDataV3_def)
    then show thesis by (rule closed_or_json)
  next
    case False
    show thesis
    proof (cases "fold_result (push_resource E low uuids (oldest_allowed now days)) td ?a")
      case (Inl e)
      then have "r = Some e" "st' = st" using assms False by (simp_all add: pushTraceDataV3_def)
      then show thesis by (rule closed_or_json)
    next
      case (Inr acc)
      obtain rs st1 where w: "WriteBatchOfSpansV3 E d (pa_batchOfSpans acc)
             [(''default'', \<lparr>um_Size = of_nat (pa_size acc), um_Count = of_nat (pa_count acc)\<rparr>)] st = (rs, st1)"
        by force
      show thesis
      proof (rule wrote [OF False push_resources_pushes [OF Inr] w])
        show "rs \<noteq> None \<Longrightarrow> r = rs \<and> st' = st1" "rs = None \<Longrightarrow> WriteResourcesV3 d (pa_resourcesSeen acc) st1 = (r, st')"
          using assms False w by (auto simp: pushTraceDataV3_def Inr AddMetric_def)
      qed
    qed
  qed
qed

lemma WriteResources_frame:
  assumes "WriteResourcesV3 d seen st = (r, st')"
  shows "tt_spans st' = tt_spans st" "tt_errors st' = tt_errors st" "tx_recorded st' = tx_recorded st" "tx_closed st' = tx_closed st"
  using assms by (auto simp: WriteResourcesV3_def Let_def split: option.splits prod.splits)

lemma WriteBatch_fields:
  assumes "WriteBatchOfSpansV3 E d batch metrics st = (r, st')"
  shows "tt_spans st' = tt_spans st @ snd (writeIndexBatchV3 d batch)" "tt_errors st' = tt_errors st @ snd (writeErrorBatchV3 d batch)"
    "tx_recorded st' = tx_recorded st @ metrics" "tx_rfCache st' = tx_rfCache st" "tt_resources st' = tt_resources st"
    "tx_closed st' = tx_closed st"
    "r = None \<longleftrightarrow> fst (writeIndexBatchV3 d batch) = None \<and> fst (writeErrorBatchV3 d batch) = None"
  using assms by (auto simp: WriteBatchOfSpansV3_def Let_def split: prod.splits if_splits)

lemma writers_ok:
  "fst (writeIndexBatchV3 d batch) = None \<Longrightarrow> snd (writeIndexBatchV3 d batch) = map index_row batch"
  "fst (writeErrorBatchV3 d batch) = None \<Longrightarrow> snd (writeErrorBatchV3 d batch) = error_rows batch"
  "snd (writeIndexBatchV3 d batch) \<noteq> [] \<Longrightarrow> snd (writeIndexBatchV3 d batch) = map index_row batch"
  unfolding writeIndexBatchV3_def writeErrorBatchV3_def
  using send_batch_cases [of "td_index d" "map index_row batch"] send_batch_cases [of "td_error d" "error_rows batch"]
  by auto

section \<open>Resources\<close>

lemma format_int_no_colon: "CHR '':'' \<notin> set (format_int x)"
  using format_int_chars [of "CHR '':''" x] by (auto simp: is_digit_def)

lemma resource_key_inject:
  "MakeKeyForRFCache b fp = MakeKeyForRFCache b' fp' \<longleftrightarrow> b = b' \<and> fp = fp'"
proof
  assume "MakeKeyForRFCache b fp = MakeKeyForRFCache b' fp'"
  then have "format_int b @ '':'' @ fp = format_int b' @ '':'' @ fp'" by (simp add: MakeKeyForRFCache_def)
  then have "format_int b = format_int b' \<and> fp = fp'"
    by (simp add: split_colon format_int_no_colon)
  then show "b = b' \<and> fp = fp'" by (simp add: format_int_inject)
qed simp

lemma append_rows_accepts: "(\<And>r. err r = None) \<Longrightarrow> append_rows err rows = None"
  by (induction rows) simp_all

definition table_accepts :: "'row table_driver \<Rightarrow> bool" where
  "table_accepts d \<longleftrightarrow> prepareErr d = None \<and> (\<forall>r. appendErr d r = None) \<and> sendErr d = None"

lemma send_batch_accepts: "table_accepts d \<Longrightarrow> send_batch d rows = (None, rows)"
  by (simp add: table_accepts_def send_batch_def append_rows_accepts)

text \<open>The map of resources is visited in some order.\<close>

definition visits_all :: "tx_driver \<Rightarrow> bool" where
  "visits_all d \<longleftrightarrow> (\<forall>rs. set (td_order d rs) = set rs)"

definition has_resource :: "tx_state \<Rightarrow> int \<Rightarrow> string \<Rightarrow> bool" where
  "has_resource st b fp \<longleftrightarrow> (\<exists>q \<in> set (tt_resources st). rr_fingerprint q = fp \<and> rr_seen_at_ts_bucket_start q = b)"

definition tx_inv :: "tx_state \<Rightarrow> bool" where
  "tx_inv st \<longleftrightarrow>
     (\<forall>row \<in> set (tt_spans st). has_resource st (uint (ix_ts_bucket_start row)) (ix_resource_fingerprint row)) \<and>
     (\<forall>b fp. MakeKeyForRFCache b fp \<in> tx_rfCache st \<longrightarrow> has_resource st b fp)"

lemma write_resources_inv:
  assumes "WriteResourcesV3 d seen st = (r, st')" and "table_accepts (td_resources d)" and "visits_all d"
    and "\<And>b fp. MakeKeyForRFCache b fp \<in> tx_rfCache st \<Longrightarrow> has_resource st b fp"
  shows "r = None" and "tt_spans st' = tt_spans st" and "\<And>b fp. has_resource st b fp \<Longrightarrow> has_resource st' b fp"
    and "\<And>b fp. seen_row seen b fp \<Longrightarrow> has_resource st' b fp"
    and "\<And>b fp. MakeKeyForRFCache b fp \<in> tx_rfCache st' \<Longrightarrow> has_resource st' b fp"
proof -
  let ?qs = "td_order d (resource_rows seen)"
  let ?loop = "resource_loop (appendErr (td_resources d)) ?qs (tx_rfCache st) []"
  have a: "appendErr (td_resources d) q = None" for q using assms(2) by (simp add: table_accepts_def)
  have r: "r = None" and st': "st' = st\<lparr>tx_rfCache := fst ?loop, tt_resources := tt_resources st @ snd ?loop\<rparr>"
    using assms(1, 2) by (auto simp: WriteResourcesV3_def table_accepts_def Let_def split: prod.splits)
  show "r = None" "tt_spans st' = tt_spans st" using r st' by simp_all
  show keep: "has_resource st b fp \<Longrightarrow> has_resource st' b fp" for b fp by (auto simp: has_resource_def st')
  have qs: "set ?qs = set (resource_rows seen)" using assms(3) by (simp add: visits_all_def)
  have cover: "has_resource st' (rr_seen_at_ts_bucket_start q) (rr_fingerprint q)" if q: "q \<in> set ?qs" for q
  proof (cases "resource_key q \<in> tx_rfCache st")
    case True
    then show ?thesis using assms(4) keep by (simp add: resource_key_def)
  next
    case False
    obtain p where p: "resource_key p = resource_key q" "p \<in> set (snd ?loop)"
      using resource_cache.rows_cover [OF q False, of "appendErr (td_resources d)" "[]"] a by auto
    then show ?thesis by (auto simp: has_resource_def st' resource_key_def resource_key_inject)
  qed
  show "seen_row seen b fp \<Longrightarrow> has_resource st' b fp" for b fp
    using cover qs by (auto simp: seen_row_def)
  show "has_resource st' b fp" if k: "MakeKeyForRFCache b fp \<in> tx_rfCache st'" for b fp
  proof -
    have "MakeKeyForRFCache b fp \<in> tx_rfCache st \<or> (\<exists>q \<in> set ?qs. MakeKeyForRFCache b fp = resource_key q)"
      using k by (auto simp: st' resource_cache.cache_after)
    then show ?thesis using assms(4) keep cover by (auto simp: resource_key_def resource_key_inject)
  qed
qed

lemma push_inv:
  assumes "pushTraceDataV3 E low days uuids d now td st = (r, st')" and "tx_inv st"
    and "table_accepts (td_resources d)" and "table_accepts (td_error d)" and "visits_all d"
  shows "tx_inv st'"
  using assms(1)
proof (cases rule: push_cases)
  case (closed_or_json e)
  then show ?thesis using assms(2) by simp
next
  case (wrote acc rs st1)
  note w = WriteBatch_fields [OF wrote(3)]
  have err: "fst (writeErrorBatchV3 d (pa_batchOfSpans acc)) = None"
    using assms(4) by (simp add: writeErrorBatchV3_def send_batch_accepts)
  have hr: "has_resource st1 b fp = has_resource st b fp" for b fp by (simp add: has_resource_def w)
  show ?thesis
  proof (cases rs)
    case (Some e)
    then have "snd (writeIndexBatchV3 d (pa_batchOfSpans acc)) = []"
      using w(7) err send_batch_cases [of "td_index d" "map index_row (pa_batchOfSpans acc)"] by (auto simp: writeIndexBatchV3_def)
    then show ?thesis using wrote(4) Some assms(2) w hr by (simp add: tx_inv_def)
  next
    case None
    have c: "MakeKeyForRFCache b fp \<in> tx_rfCache st1 \<Longrightarrow> has_resource st1 b fp" for b fp
      using assms(2) by (simp add: tx_inv_def w hr)
    note W = write_resources_inv [OF wrote(5) [OF None] assms(3, 5) c]
    have spans: "tt_spans st' = tt_spans st @ map index_row (pa_batchOfSpans acc)"
      using W(2) w(1, 7) None writers_ok(1) by simp
    have seen: "\<forall>sv \<in> set (pa_batchOfSpans acc). seen_row (pa_resourcesSeen acc) (uint (sv_TsBucketStart sv)) (sv_FingerPrint sv)"
      using wrote(2) by (auto simp: pushes_def)
    show ?thesis
      unfolding tx_inv_def
    proof (intro conjI ballI allI impI)
      fix row
      assume "row \<in> set (tt_spans st')"
      then consider "row \<in> set (tt_spans st)" | sv where "sv \<in> set (pa_batchOfSpans acc)" "row = index_row sv"
        by (auto simp: spans)
      then show "has_resource st' (uint (ix_ts_bucket_start row)) (ix_resource_fingerprint row)"
      proof cases
        case 1
        then have "has_resource st (uint (ix_ts_bucket_start row)) (ix_resource_fingerprint row)"
          using assms(2) by (simp add: tx_inv_def)
        then show ?thesis using W(3) hr by blast
      next
        case 2
        then show ?thesis using W(4) seen by (simp add: index_row_def)
      qed
    qed (rule W(5))
  qed
qed

text \<open>C14: While the writes of exceptions and of resources succeed, every span in the table has the row of its
  resource, with its fingerprint in its bucket, over any run of pushes, fetches, expirations and shutdowns.\<close>

theorem spans_have_resources:
  assumes "\<And>uuids d now td. TxPush uuids d now td \<in> set evs \<Longrightarrow>
      table_accepts (td_resources d) \<and> table_accepts (td_error d) \<and> visits_all d"
    and "row \<in> set (tt_spans (tx_run E low days evs newTracesExporter))"
  shows "has_resource (tx_run E low days evs newTracesExporter) (uint (ix_ts_bucket_start row)) (ix_resource_fingerprint row)"
proof -
  have "tx_inv (tx_run E low days evs st)"
    if "tx_inv st" "\<And>uuids d now td. TxPush uuids d now td \<in> set evs \<Longrightarrow>
      table_accepts (td_resources d) \<and> table_accepts (td_error d) \<and> visits_all d" for st
    using that
  proof (induction evs arbitrary: st)
    case (Cons ev evs)
    have "tx_inv (tx_run E low days [ev] st)"
    proof (cases ev)
      case (TxPush uuids d now td)
      then show ?thesis
        using push_inv [OF surjective_pairing Cons.prems(1), of d E low days uuids now td] Cons.prems(2) [of uuids d now td] by simp
    next
      case (TxFetch keys)
      then show ?thesis using Cons.prems(1) by (simp add: doFetchShouldSkipKeys_def tx_inv_def has_resource_def)
    next
      case (TxExpire key)
      then show ?thesis using Cons.prems(1) by (simp add: tx_expire_def tx_inv_def has_resource_def)
    next
      case TxShutdown
      then show ?thesis using Cons.prems(1) by (simp add: tx_Shutdown_def tx_inv_def has_resource_def)
    qed
    then have "tx_inv (tx_run E low days evs (tx_run E low days [ev] st))"
      by (rule Cons.IH) (meson Cons.prems(2) list.set_intros(2))
    moreover have "tx_run E low days (ev # evs) st = tx_run E low days evs (tx_run E low days [ev] st)"
      by (cases ev) simp_all
    ultimately show ?case by simp
  qed simp
  moreover have "tx_inv newTracesExporter" by (simp add: tx_inv_def newTracesExporter_def)
  ultimately have "tx_inv (tx_run E low days evs newTracesExporter)" using assms(1) by blast
  then show ?thesis using assms(2) by (simp add: tx_inv_def)
qed

subsection \<open>When the resources are not written\<close>

lemma fold_result_total:
  assumes "\<And>x s e. x \<in> set xs \<Longrightarrow> f x s \<noteq> Inl e"
  shows "fold_result f xs s \<noteq> Inl e"
  using assms
proof (induction xs arbitrary: s)
  case (Cons x xs)
  have "f x s \<noteq> Inl e" by (rule Cons.prems) simp
  then show ?case
    using Cons by (cases "f x s") auto
qed simp

lemma push_total:
  assumes "\<And>sv. tx_marshalSpan E sv \<noteq> None" and "\<And>m. marshalStrMap E m \<noteq> None"
  shows "fold_result (push_resource E low uuids oldest) td acc \<noteq> Inl e"
proof (rule fold_result_total)
  fix rs :: otlp_resource_spans and s e
  obtain j where j: "marshalStrMap E (fold (\<lambda>(k, v). AList.update k (asString E v)) (ors_resource rs) []) = Some j"
    using assms(2) by blast
  have "push_span E low uuids oldest r j sp a \<noteq> Inl e'" for r sp a e'
  proof -
    obtain bs where "tx_marshalSpan E (newStructuredSpanV3 E low (uuids (pa_count a)) (word_of_int (span_bucket sp))
        (fst (see_resource E (span_bucket sp) j r (pa_resourcesSeen a))) sp (ServiceNameForResource r) r) = Some bs"
      using assms(1) by blast
    then show ?thesis by (simp add: push_span_def Let_def case_prod_unfold)
  qed
  then show "push_resource E low uuids oldest rs s \<noteq> Inl e"
    unfolding push_resource_def j option.case by (intro fold_result_total)
qed

text \<open>When sending the resources of a payload fails, a retry reports success and writes every span a second
  time, but no resource: the cache has their keys already.\<close>

theorem failed_resources_are_not_retried:
  assumes "\<And>sv. tx_marshalSpan E sv \<noteq> None" and "\<And>m. marshalStrMap E m \<noteq> None"
    and "\<not> tx_closed st"
    and "table_accepts (td_index d)" and "table_accepts (td_error d)" and "visits_all d"
    and "prepareErr (td_resources d) = None" and "sendErr (td_resources d) = Some e"
    and "pushTraceDataV3 E low days uuids d now td st = (r1, st1)"
    and "table_accepts (td_index d')" and "table_accepts (td_error d')" and "visits_all d'"
    and "table_accepts (td_resources d')"
    and "in_window (oldest_allowed now' days) td = in_window (oldest_allowed now days) td"
    and "pushTraceDataV3 E low days uuids' d' now' td st1 = (r2, st2)"
  shows "r1 = Some e \<and> r2 = None \<and> tt_resources st2 = tt_resources st \<and>
    length (tt_spans st2) = length (tt_spans st) + 2 * length (in_window (oldest_allowed now days) td)"
proof -
  let ?a = "\<lparr>pa_resourcesSeen = [], pa_batchOfSpans = [], pa_count = 0, pa_size = 0\<rparr>"
  let ?w = "in_window (oldest_allowed now days) td"
  obtain acc where acc: "fold_result (push_resource E low uuids (oldest_allowed now days)) td ?a = Inr acc"
    using push_total [OF assms(1, 2), of low uuids "oldest_allowed now days" td ?a]
    by (cases "fold_result (push_resource E low uuids (oldest_allowed now days)) td ?a") auto
  obtain acc' where acc': "fold_result (push_resource E low uuids' (oldest_allowed now' days)) td ?a = Inr acc'"
    using push_total [OF assms(1, 2), of low uuids' "oldest_allowed now' days" td ?a]
    by (cases "fold_result (push_resource E low uuids' (oldest_allowed now' days)) td ?a") auto
  note p = push_resources_pushes [OF acc] and p' = push_resources_pushes [OF acc', unfolded assms(14)]
  have seen: "pa_resourcesSeen acc' = pa_resourcesSeen acc" using p p' by (simp add: pushes_def)
  have len: "length (pa_batchOfSpans acc) = length ?w" "length (pa_batchOfSpans acc') = length ?w"
    using p p' by (auto simp: pushes_def dest: list_all2_lengthD)
  define m where "m = (\<lambda>a :: push_acc. [(''default'', \<lparr>um_Size = of_nat (pa_size a), um_Count = of_nat (pa_count a)\<rparr>)])"
  have ok: "fst (writeIndexBatchV3 d b) = None" "fst (writeErrorBatchV3 d b) = None"
      "fst (writeIndexBatchV3 d' b) = None" "fst (writeErrorBatchV3 d' b) = None" for b
    using assms(4, 5, 10, 11) by (simp_all add: writeIndexBatchV3_def writeErrorBatchV3_def send_batch_accepts)
  obtain x where x: "WriteBatchOfSpansV3 E d (pa_batchOfSpans acc) (m acc) st = (None, x)"
    using WriteBatch_fields(7) [of E d "pa_batchOfSpans acc" "m acc" st] ok by (metis surj_pair)
  note fx = WriteBatch_fields [OF x]
  have 1: "WriteResourcesV3 d (pa_resourcesSeen acc) x = (r1, st1)"
    using assms(3, 9) x by (simp add: pushTraceDataV3_def acc AddMetric_def m_def)
  let ?rows = "td_order d (resource_rows (pa_resourcesSeen acc))"
  have r1: "r1 = Some e" and st1: "st1 = x\<lparr>tx_rfCache := tx_rfCache x \<union> resource_key ` set ?rows\<rparr>"
    using 1 assms(7, 8) resource_cache.cache_after [of "appendErr (td_resources d)" ?rows "tx_rfCache x" "[]"]
    by (auto simp: WriteResourcesV3_def Let_def split: prod.splits)
  obtain y where y: "WriteBatchOfSpansV3 E d' (pa_batchOfSpans acc') (m acc') st1 = (None, y)"
    using WriteBatch_fields(7) [of E d' "pa_batchOfSpans acc'" "m acc'" st1] ok by (metis surj_pair)
  note fy = WriteBatch_fields [OF y]
  have "\<not> tx_closed st1" using assms(3) fx(6) by (simp add: st1)
  then have 2: "WriteResourcesV3 d' (pa_resourcesSeen acc') y = (r2, st2)"
    using assms(15) y by (simp add: pushTraceDataV3_def acc' AddMetric_def m_def)
  let ?rows' = "td_order d' (resource_rows (pa_resourcesSeen acc'))"
  have "resource_key ` set ?rows' \<subseteq> tx_rfCache y"
    using assms(6, 12) by (auto simp: fy(4) st1 seen visits_all_def)
  then have "resource_loop (appendErr (td_resources d')) ?rows' (tx_rfCache y) [] = (tx_rfCache y, [])"
    by (rule resource_cache.nothing_new)
  then have r2: "r2 = None" and st2: "st2 = y"
    using 2 assms(13) by (auto simp: WriteResourcesV3_def table_accepts_def)
  have "tt_resources st2 = tt_resources st" using fx(5) fy(5) by (simp add: st2 st1)
  moreover have "length (tt_spans st2) = length (tt_spans st) + 2 * length ?w"
    using fx(1) fy(1) writers_ok(1) ok len by (simp add: st2 st1)
  ultimately show ?thesis using r1 r2 by simp
qed

text \<open>When the write of exceptions fails but that of spans does not, the spans are there without their resources.\<close>

lemma failed_exceptions_leave_spans_without_resources:
  assumes "table_accepts (td_index d)" and "prepareErr (td_error d) = Some e"
    and "WriteBatchOfSpansV3 E d batch metrics st = (r, st')"
  shows "r \<noteq> None" and "tt_spans st' = tt_spans st @ map index_row batch" and "tt_resources st' = tt_resources st"
proof -
  note w = WriteBatch_fields [OF assms(3)]
  have "fst (writeErrorBatchV3 d batch) \<noteq> None" using assms(2) by (simp add: writeErrorBatchV3_def send_batch_def)
  then show "r \<noteq> None" using w(7) by simp
  show "tt_spans st' = tt_spans st @ map index_row batch"
    using w(1) assms(1) by (simp add: writeIndexBatchV3_def send_batch_accepts)
  show "tt_resources st' = tt_resources st" by (rule w(5))
qed

section \<open>The size that is reported\<close>

text \<open>A structured span as the object that its JSON tags describe: empty and zero fields are left out.\<close>

definition map_field :: "string \<Rightarrow> 'a list \<Rightarrow> string option \<Rightarrow> (string \<times> string) list" where
  "map_field k m r = (if m = [] then [] else [(k, the r)])"

definition num_field :: "string \<Rightarrow> int \<Rightarrow> (string \<times> string) list" where
  "num_field k i = (if i = 0 then [] else [(k, format_int i)])"

definition span_v3_object :: "'e meter_env_scheme \<Rightarrow> span_v3 \<Rightarrow> (string \<times> string) list" where
  "span_v3_object E s =
     num_field ''startTimeUnixNano'' (uint (sv_StartTimeUnixNano s)) @
     str_field ''traceId'' (sv_TraceId s) @ str_field ''spanId'' (sv_SpanId s) @
     str_field ''traceState'' (sv_TraceState s) @ str_field ''parentSpanId'' (sv_ParentSpanId s) @
     num_field ''flags'' (uint (sv_Flags s)) @ str_field ''name'' (sv_Name s) @
     num_field ''kind'' (sint (sv_Kind s)) @ str_field ''spanKind'' (sv_SpanKind s) @
     map_field ''attributes_string'' (sv_AttributeString s) (marshalStrMap E (sv_AttributeString s)) @
     map_field ''attributes_number'' (sv_AttributesNumber s) (marshalNumMap E (sv_AttributesNumber s)) @
     map_field ''attributes_bool'' (sv_AttributesBool s) (marshalBoolMap E (sv_AttributesBool s)) @
     map_field ''resources_string'' (sv_BillableResourcesString s) (marshalStrMap E (sv_BillableResourcesString s)) @
     map_field ''event'' (sv_Events s) (marshalStrings E (sv_Events s)) @
     map_field ''serviceName'' (sv_ServiceName s) (marshalString E (sv_ServiceName s)) @
     (if sv_References s = [] then [] else [(''references'', quoted (escaped (sv_References s)))])"

text \<open>JSON of maps and lists: it exists when the numbers are finite, and is longer than two only when not empty.\<close>

definition json_env :: "'e meter_env_scheme \<Rightarrow> bool" where
  "json_env E \<longleftrightarrow>
     (\<forall>m. \<exists>t. marshalStrMap E m = Some t \<and> (length t \<le> 2 \<longleftrightarrow> m = [])) \<and>
     (\<forall>m. list_all (\<lambda>kv. IsValidFloat (snd kv)) m \<longrightarrow> (\<exists>t. marshalNumMap E m = Some t \<and> (length t \<le> 2 \<longleftrightarrow> m = []))) \<and>
     (\<forall>m. \<exists>t. marshalBoolMap E m = Some t \<and> (length t \<le> 2 \<longleftrightarrow> m = [])) \<and>
     (\<forall>m. \<exists>t. marshalStrings E m = Some t \<and> (length t \<le> 2 \<longleftrightarrow> m = [])) \<and>
     (\<forall>s. \<exists>t. marshalString E s = Some t \<and> t \<noteq> []) \<and>
     (\<forall>m. \<exists>t. marshalRefs E m = Some t \<and> (length t \<le> 2 \<longleftrightarrow> m = [])) \<and>
     (\<forall>i. IsValidFloat (floatOfInt E i))"

text \<open>The spans for which the two sizes are meant to agree.\<close>

definition sizable :: "'e tx_env_scheme \<Rightarrow> vmap \<times> otlp_span \<Rightarrow> bool" where
  "sizable E = (\<lambda>(r, s).
     length (os_traceID s) = 16 \<and> length (os_spanID s) = 8 \<and> length (os_parentSpanID s) = 8 \<and>
     0 < uint (os_start s) \<and> uint (os_start s) < 2 ^ 63 \<and> 0 < uint (os_kind s) \<and> uint (os_kind s) < 2 ^ 7 \<and>
     ServiceNameForResource r \<noteq> [] \<and> nested_finite E (os_attrs s))"

lemma sint_small: "uint w < 2 ^ (LENGTH('a) - 1) \<Longrightarrow> sint (w :: 'a::len word) = uint w"
  using signed_take_bit_int_eq_self [of "LENGTH('a) - 1" "uint w"] order_trans [of "- (2 ^ (LENGTH('a) - 1))" 0 "uint w"]
  by (simp add: sint_uint)

lemma fields_cost_num: "fields_cost (num_field k i) = (if i = 0 then 0 else KeySizes k + length (format_int i) + 2)"
  by (simp add: num_field_def)

lemma json_map_cost:
  "\<exists>t. r = Some t \<and> (length t \<le> 2 \<longleftrightarrow> m = []) \<Longrightarrow> fields_cost (map_field k m r) = fields_cost (json_field k r)"
  by (auto simp: map_field_def json_field_def)

lemma fields_cost_span:
  assumes "json_env E" and "sizable E (r, s)"
  shows "fields_cost (span_v3_object E (newStructuredSpanV3 E low uuids b fp s (ServiceNameForResource r) r)) =
    fields_cost (span_object E md5 uuids' (marshalStrMap E (fold (flat_strings E workspace) r [])) (ServiceNameForResource r) s)"
proof -
  let ?svc = "ServiceNameForResource r"
  let ?sv = "newStructuredSpanV3 E low uuids b fp s ?svc r"
  obtain n st bo where nsb: "fold (split_attr E) (os_attrs s) ([], [], []) = (n, st, bo)"
    by (cases "fold (split_attr E) (os_attrs s) ([], [], [])") auto
  have maps: "sv_AttributesNumber ?sv = n" "sv_AttributeString ?sv = st" "sv_AttributesBool ?sv = bo"
    using maps_of_split_attributes [of E "os_attrs s"] assms(2) nsb by (auto simp: sizable_def maps_of_def)
  have fin: "list_all (\<lambda>kv. IsValidFloat (snd kv)) n"
    using span_numbers_are_finite [of E low uuids b fp s ?svc r] assms(1) by (simp only: maps(1) [symmetric]) (simp add: json_env_def)
  have bill: "sv_BillableResourcesString ?sv = fold (flat_strings E workspace) r []"
    by (simp add: billable_resources)
  have ev: "sv_Events ?sv = fst (NewEventsAndErrorEvents E md5 uuids' (os_events s) ?svc False)"
    by (simp add: events_independent [of E _ uuids _ _ low md5 uuids' _ False])
  have j1: "\<exists>t. marshalStrMap E m = Some t \<and> (length t \<le> 2 \<longleftrightarrow> m = [])" for m using assms(1) by (simp add: json_env_def)
  have j2: "\<exists>t. marshalNumMap E n = Some t \<and> (length t \<le> 2 \<longleftrightarrow> n = [])" using assms(1) fin by (simp add: json_env_def)
  have j3: "\<exists>t. marshalBoolMap E m = Some t \<and> (length t \<le> 2 \<longleftrightarrow> m = [])" for m using assms(1) by (simp add: json_env_def)
  have j4: "\<exists>t. marshalStrings E m = Some t \<and> (length t \<le> 2 \<longleftrightarrow> m = [])" for m using assms(1) by (simp add: json_env_def)
  have "\<exists>t. marshalString E ?svc = Some t \<and> t \<noteq> []" using assms(1) by (simp add: json_env_def)
  then obtain sn where sn: "marshalString E ?svc = Some sn" "sn \<noteq> []" by blast
  obtain refs where refs: "NewOtelSpanRefs (os_links s) (os_parentSpanID s) (os_traceID s) = Some refs" "refs \<noteq> []"
  proof -
    have "os_parentSpanID s \<noteq> []" using assms(2) by (auto simp: sizable_def)
    then show thesis using that by (simp add: NewOtelSpanRefs_def)
  qed
  have "\<exists>t. marshalRefs E refs = Some t \<and> (length t \<le> 2 \<longleftrightarrow> refs = [])" using assms(1) by (simp add: json_env_def)
  then obtain rt where rt: "marshalRefs E refs = Some rt" "2 < length rt" using refs(2) by auto
  have rl: "2 < length (escaped rt)" using rt(2) by (simp add: length_escaped)
  have ref: "sv_References ?sv = rt" by (simp add: references_json_def references_eq refs rt)
  have k: "0 < uint (os_kind s)" "uint (os_kind s) < 128" and st: "0 < uint (os_start s)" "uint (os_start s) < 2 ^ 63"
    using assms(2) by (auto simp: sizable_def)
  have "uint (ucast (os_kind s) :: 8 word) = uint (os_kind s)"
    using k by (simp add: unsigned_ucast_eq unsigned_take_bit_eq take_bit_int_eq_self)
  then have kind: "sint (ucast (os_kind s) :: 8 word) = sint (os_kind s)" "0 < sint (os_kind s)"
    using k sint_small [of "os_kind s"] sint_small [of "ucast (os_kind s) :: 8 word"] by simp_all
  have start: "uint (os_start s) = sint (os_start s)" "0 < sint (os_start s)"
    using st sint_small [of "os_start s"] by simp_all
  show ?thesis
    unfolding span_v3_object_def span_object_def nsb prod.case fields_cost_simps fields_cost_num maps ev bill
      json_map_cost [OF j1] json_map_cost [OF j2] json_map_cost [OF j3] json_map_cost [OF j4]
    using sn refs rt rl ref kind start assms(2)
    by (simp add: map_field_def sizable_def) (auto simp: uint_0_iff)
qed

lemma service_names_agree: "ServiceNameForResource r = ServiceName r"
  by (simp add: ServiceNameForResource_def ServiceName_def any_str_def split: option.split any.split)

lemma sum_list_concat: "sum_list (concat xss) = sum_list (map sum_list xss)"
  by (induction xss) simp_all

definition billed_size :: "'e meter_env_scheme \<Rightarrow> (string \<Rightarrow> string) \<Rightarrow> (nat \<Rightarrow> string) \<Rightarrow> vmap \<times> otlp_span \<Rightarrow> nat" where
  "billed_size E md5 uuids = (\<lambda>(r, s). span_size E md5 uuids (SizeOfFlatPcommonMapInMapStringString E workspace r) (ServiceName r) s)"

lemma json_len_billed:
  assumes "json_env E" and "sizable E rs" and "structured E low rs sv"
    and "tx_marshalSpan E sv = Some (json_object (span_v3_object E sv))"
  shows "json_len E sv = billed_size E md5 uuids rs"
proof -
  obtain r s where rs: "rs = (r, s)" by force
  obtain uu fp where sv: "sv = newStructuredSpanV3 E low uu (word_of_int (span_bucket s)) fp s (ServiceNameForResource r) r"
    using assms(3) by (auto simp: structured_def rs)
  let ?o = "span_object E md5 uuids (marshalStrMap E (fold (flat_strings E workspace) r [])) (ServiceName r) s"
  have ids: "length (os_traceID s) = 16" "length (os_spanID s) = 8" "length (os_parentSpanID s) = 8" "0 < uint (os_start s)"
    using assms(2) by (auto simp: rs sizable_def)
  have c: "fields_cost (span_v3_object E sv) = fields_cost ?o"
    unfolding sv using fields_cost_span [OF assms(1), of r s] assms(2) rs by (simp add: service_names_agree)
  have "span_v3_object E sv \<noteq> []" using ids(4) by (simp add: span_v3_object_def sv num_field_def)
  moreover have "?o \<noteq> []" by (simp add: span_object_def split: prod.split)
  ultimately have "json_len E sv = length (json_object ?o)"
    using c by (simp add: json_len_def assms(4) length_json_object)
  then show ?thesis
    by (simp add: billed_size_def rs SizeOfFlatPcommonMapInMapStringString_def span_size_is_json [OF ids(1-3)])
qed

text \<open>C15: A push that reports no error records as usage the count and the size that the meter computes for the payload, when
  every span started in the window and is \<open>sizable\<close>: its ids have their lengths, it starts after the epoch and before
  2 to the 63, its kind is set, its service has a name and the numbers below its map values are finite. The JSON library
  writes maps of strings and of finite numbers, and a structured span as the object of its members. A span of unspecified
  kind and a number that is not finite below a map are counted differently (\<open>TracesExamples\<close>).\<close>

theorem reported_usage_is_metered:
  assumes "json_env E"
    and "\<And>rs ils s. rs \<in> set td \<Longrightarrow> ils \<in> set (ors_scopes rs) \<Longrightarrow> s \<in> set (oss_spans ils) \<Longrightarrow>
      oldest_allowed now days \<le> os_start s \<and> sizable E (ors_resource rs, s)"
    and "\<And>rs sv. sizable E rs \<Longrightarrow> structured E low rs sv \<Longrightarrow> tx_marshalSpan E sv = Some (json_object (span_v3_object E sv))"
    and "pushTraceDataV3 E low days uuids d now td st = (None, st')"
  shows "tx_recorded st' = tx_recorded st @
    [(''default'', \<lparr>um_Size = traces_Size E md5 uuids' td, um_Count = sum_list (map traces_CountPerResource td)\<rparr>)]"
  using assms(4)
proof (cases rule: push_cases)
  case (wrote acc rs st1)
  have rs: "rs = None" using wrote(4) by blast
  let ?w = "in_window (oldest_allowed now days) td"
  have w: "?w = concat (map (\<lambda>rs. concat (map (\<lambda>ils. map (Pair (ors_resource rs)) (oss_spans ils)) (ors_scopes rs))) td)"
    unfolding in_window_def using assms(2)
    by (intro arg_cong [of _ _ concat] map_cong refl arg_cong [of _ _ "map (Pair _)"] filter_True) auto
  have siz: "\<forall>x \<in> set ?w. sizable E x" using assms(2) by (auto simp: w)
  have batch: "list_all2 (structured E low) ?w (pa_batchOfSpans acc)" "pa_count acc = length (pa_batchOfSpans acc)"
      "pa_size acc = sum_list (map (json_len E) (pa_batchOfSpans acc))"
    using wrote(2) by (auto simp: pushes_def)
  have "map (json_len E) (pa_batchOfSpans acc) = map (billed_size E md5 uuids') ?w"
    using batch(1) siz
    by (induction rule: list_all2_induct) (auto intro: json_len_billed [OF assms(1)] assms(3))
  then have "of_nat (pa_size acc) = (sum_list (map (\<lambda>x. of_nat (billed_size E md5 uuids' x)) ?w) :: i64)"
    by (simp add: batch(3) of_nat_sum_list comp_def)
  also have "\<dots> = traces_Size E md5 uuids' td"
    unfolding w
    by (simp add: traces_Size_def traces_SizePerResource_def [abs_def] billed_size_def Let_def map_concat sum_list_concat comp_def)
  finally have "of_nat (pa_size acc) = traces_Size E md5 uuids' td" .
  moreover have "(of_nat (pa_count acc) :: i64) = sum_list (map traces_CountPerResource td)"
    unfolding batch(2) list_all2_lengthD [OF batch(1), symmetric] w
    by (simp add: length_concat traces_CountPerResource_def [abs_def] of_nat_sum_list comp_def)
  ultimately show ?thesis
    using WriteBatch_fields(3) [OF wrote(3)] WriteResources_frame(3) [OF wrote(5) [OF rs]] by simp
qed simp

end
