(* ===== verification/TracesColumns.thy ===== *)
theory TracesColumns
  imports TracesExporterTheorems
begin

text \<open>
  The rows of spans and of exceptions, column by column: what each column holds is said of the span, its resource
  and its events, not of the structured span that the exporter goes through.
\<close>

section \<open>Maps\<close>

text \<open>A map to which pairs are put one after the other has for a key the last value put.\<close>

lemma map_of_puts: "map_of (fold (\<lambda>(k, v). AList.update k (f v)) kvs m) = map_of m ++ map_of (rev (map (\<lambda>(k, v). (k, f v)) kvs))"
  by (induction kvs arbitrary: m) (auto simp: fun_eq_iff map_add_def split: option.split)

section \<open>Attributes\<close>

text \<open>The map that holds an attribute, and its value there; numbers that are not finite are in none.\<close>

datatype place = InString string | InNumber f64 | InBool bool | Nowhere

definition number_place :: "f64 \<Rightarrow> place" where
  "number_place f = (if IsValidFloat f then InNumber f else Nowhere)"

definition top_place :: "'e meter_env_scheme \<Rightarrow> any \<Rightarrow> place" where
  "top_place E v = (case v of VFloat f \<Rightarrow> number_place f | VInt k i \<Rightarrow> InNumber (floatOfInt E i) | VBool b \<Rightarrow> InBool b | _ \<Rightarrow> InString (asString E v))"

definition leaf_place :: "any \<Rightarrow> place" where
  "leaf_place v = (case v of VFloat f \<Rightarrow> number_place f | VStr s \<Rightarrow> InString s | VBool b \<Rightarrow> InBool b | _ \<Rightarrow> Nowhere)"

text \<open>A map among the attributes stands for its leaves, with their paths as keys.\<close>

definition places :: "'e meter_env_scheme \<Rightarrow> string \<times> any \<Rightarrow> (string \<times> place) list" where
  "places E = (\<lambda>(k, v). case v of VMap m \<Rightarrow> map (\<lambda>(k, v). (k, leaf_place v)) (FlattenJSON E m k) | _ \<Rightarrow> [(k, top_place E v)])"

definition strings :: "(string \<times> place) list \<Rightarrow> (string \<times> string) list" where
  "strings ps = List.map_filter (\<lambda>(k, p). case p of InString s \<Rightarrow> Some (k, s) | _ \<Rightarrow> None) ps"

definition numbers :: "(string \<times> place) list \<Rightarrow> (string \<times> f64) list" where
  "numbers ps = List.map_filter (\<lambda>(k, p). case p of InNumber f \<Rightarrow> Some (k, f) | _ \<Rightarrow> None) ps"

definition bools :: "(string \<times> place) list \<Rightarrow> (string \<times> bool) list" where
  "bools ps = List.map_filter (\<lambda>(k, p). case p of InBool b \<Rightarrow> Some (k, b) | _ \<Rightarrow> None) ps"

definition attribute_places :: "'e meter_env_scheme \<Rightarrow> vmap \<Rightarrow> (string \<times> place) list" where
  "attribute_places E attrs = concat (map (places E) attrs)"

lemmas places_simps = places_def strings_def numbers_def bools_def top_place_def leaf_place_def number_place_def List.map_filter_simps

lemma places_append:
  "strings (ps @ qs) = strings ps @ strings qs" "numbers (ps @ qs) = numbers ps @ numbers qs" "bools (ps @ qs) = bools ps @ bools qs"
  by (simp_all add: strings_def numbers_def bools_def List.map_filter_def)

definition same_maps :: "(string \<times> place) list \<Rightarrow> attributes_data \<Rightarrow> attributes_data \<Rightarrow> bool" where
  "same_maps ps m m' \<longleftrightarrow>
     map_of (ad_StringMap m') = map_of (ad_StringMap m) ++ map_of (rev (strings ps)) \<and>
     map_of (ad_NumberMap m') = map_of (ad_NumberMap m) ++ map_of (rev (numbers ps)) \<and>
     map_of (ad_BoolMap m') = map_of (ad_BoolMap m) ++ map_of (rev (bools ps))"

lemma same_maps_trans: "same_maps ps m m1 \<Longrightarrow> same_maps qs m1 m2 \<Longrightarrow> same_maps (ps @ qs) m m2"
  by (simp add: same_maps_def places_append)

lemma same_maps_Nil: "same_maps [] m m"
  by (simp add: same_maps_def places_simps)

lemma same_maps_fold:
  assumes "\<And>x m. same_maps (f x) m (g x m)"
  shows "same_maps (concat (map f xs)) m (fold g xs m)"
  by (induction xs arbitrary: m) (auto intro: same_maps_Nil same_maps_trans assms)

lemma same_maps_flat: "same_maps [(fst kv, leaf_place (snd kv))] m (add_flat kv m)"
  by (cases kv; cases "snd kv") (auto simp: same_maps_def add_flat_def add_tag_def places_simps)

lemma same_maps_add: "same_maps (places E kv) m (attr_add E kv m)"
proof (cases kv)
  case (Pair k v)
  show ?thesis
  proof (cases v)
    case (VMap vm)
    have "same_maps (concat (map (\<lambda>kv. [(fst kv, leaf_place (snd kv))]) kvs)) m (fold add_flat kvs m)" for kvs
      by (rule same_maps_fold) (rule same_maps_flat)
    then have "same_maps (map (\<lambda>kv. (fst kv, leaf_place (snd kv))) kvs) m (fold add_flat kvs m)" for kvs by simp
    then show ?thesis by (simp add: Pair VMap places_def attr_add_def case_prod_unfold)
  qed (auto simp: Pair same_maps_def attr_add_def add_tag_def places_simps)
qed

lemma attribute_maps:
  "map_of (ad_StringMap (split_attributes E attrs)) = map_of (rev (strings (attribute_places E attrs)))"
  "map_of (ad_NumberMap (split_attributes E attrs)) = map_of (rev (numbers (attribute_places E attrs)))"
  "map_of (ad_BoolMap (split_attributes E attrs)) = map_of (rev (bools (attribute_places E attrs)))"
  using same_maps_fold [of "places E" "attr_add E" attrs, OF same_maps_add]
  by (simp_all add: same_maps_def split_attributes_def attribute_places_def)

text \<open>The attributes of a resource, all as strings.\<close>

definition resource_items :: "'e meter_env_scheme \<Rightarrow> string \<times> any \<Rightarrow> (string \<times> string) list" where
  "resource_items E = (\<lambda>(k, v). case v of VMap m \<Rightarrow> map (\<lambda>(k, v). (k, sprintv E v)) (FlattenJSON E m k) | _ \<Rightarrow> [(k, asString E v)])"

lemma fst_put_resource: "fst (put_resource b k s x) = AList.update k s (fst x)"
  by (simp add: put_resource_def split: prod.split)

lemma fst_put_resources: "fst (fold (\<lambda>(k, v). put_resource b k (f v)) kvs x) = fold (\<lambda>(k, v). AList.update k (f v)) kvs (fst x)"
  by (induction kvs arbitrary: x) (auto simp: fst_put_resource)

lemma resource_maps:
  "map_of (fst (fold (resource_attr E) r ([], x))) = map_of (rev (concat (map (resource_items E) r)))"
proof -
  have step: "map_of (fst (resource_attr E kv y)) = map_of (fst y) ++ map_of (rev (resource_items E kv))" for kv y
    by (cases kv; cases "snd kv")
      (simp_all add: resource_attr_def resource_items_def fst_put_resource fst_put_resources map_of_puts)
  have "map_of (fst (fold (resource_attr E) r y)) = map_of (fst y) ++ map_of (rev (concat (map (resource_items E) r)))" for y
    by (induction r arbitrary: y) (simp_all add: step)
  then show ?thesis by simp
qed

section \<open>Columns of their own\<close>

text \<open>The last of the attributes with one of some keys gives the value; without any it is empty.\<close>

definition last_value :: "string set \<Rightarrow> (string \<times> any \<Rightarrow> string) \<Rightarrow> vmap \<Rightarrow> string" where
  "last_value keys f attrs = (case rev (filter (\<lambda>kv. fst kv \<in> keys) attrs) of [] \<Rightarrow> [] | kv # _ \<Rightarrow> f kv)"

lemma last_value_simps [simp]:
  "last_value keys f [] = []"
  "last_value keys f (attrs @ [kv]) = (if fst kv \<in> keys then f kv else last_value keys f attrs)"
  by (simp_all add: last_value_def)

definition url_keys :: "string set" where "url_keys = {''http.url'', ''url.full''}"
definition method_keys :: "string set" where "method_keys = {''http.method'', ''http.request.method''}"
definition status_keys :: "string set" where "status_keys = {''http.status_code'', ''http.response.status_code'', ''rpc.grpc.status_code''}"
definition host_keys :: "string set" where
  "host_keys = {''http.host'', ''server.address'', ''client.address'', ''http.request.header.host'', ''net.peer.name''}"

definition url_host :: "'e tx_env_scheme \<Rightarrow> string \<times> any \<Rightarrow> string" where
  "url_host E kv = (case tx_urlHostname E (any_str (snd kv)) of None \<Rightarrow> any_str (snd kv) | Some h \<Rightarrow> h)"

text \<open>
  The host is the value of the last attribute for hosts; when that is empty or there is none, a client's span takes the
  first host that is not empty of the URLs after it.
\<close>

definition host_value :: "'e tx_env_scheme \<Rightarrow> bool \<Rightarrow> vmap \<Rightarrow> string" where
  "host_value E client attrs =
     (let named = last_value host_keys (any_str \<circ> snd) attrs;
          urls = filter (\<lambda>kv. fst kv \<in> url_keys) (rev (takeWhile (\<lambda>kv. fst kv \<notin> host_keys) (rev attrs)))
      in first_nonempty (named # (if client then map (url_host E) urls else [])))"

lemma first_nonempty_snoc: "first_nonempty (xs @ [x]) = (if first_nonempty xs = [] then x else first_nonempty xs)"
  by (induction xs) simp_all

lemma host_value_Nil [simp]: "host_value E client [] = []"
  by (simp add: host_value_def)

lemma host_value_snoc [simp]:
  "host_value E client (attrs @ [kv]) =
    (if fst kv \<in> host_keys then any_str (snd kv)
     else if fst kv \<in> url_keys \<and> client \<and> host_value E client attrs = [] then url_host E kv else host_value E client attrs)"
proof -
  have disjoint: "fst kv \<in> url_keys \<Longrightarrow> fst kv \<notin> host_keys" by (auto simp: url_keys_def host_keys_def)
  show ?thesis
    using disjoint by (auto simp: host_value_def Let_def first_nonempty_snoc)
qed

definition response_keys :: "string set" where
  "response_keys = insert ''rpc.jsonrpc.error_code'' status_keys"

definition response_value :: "string \<times> any \<Rightarrow> string" where
  "response_value kv = (if fst kv = ''rpc.jsonrpc.error_code'' then any_str (snd kv) else status_code_text (snd kv))"

definition db_keys :: "string set" where "db_keys = {''db.name'', ''db.namespace''}"
definition operation_keys :: "string set" where "operation_keys = {''db.operation'', ''db.operation.name''}"

lemmas column_keys =
  url_keys_def method_keys_def status_keys_def host_keys_def response_keys_def db_keys_def operation_keys_def

text \<open>What an attribute does to the columns.\<close>

definition columns_after :: "'e tx_env_scheme \<Rightarrow> string \<Rightarrow> any \<Rightarrow> span_v3 \<Rightarrow> bool" where
  "columns_after E k v s \<longleftrightarrow>
   sv_ResponseStatusCode (custom_attr E (k, v) s) = (if k \<in> response_keys then response_value (k, v) else sv_ResponseStatusCode s) \<and>
   sv_ExternalHttpUrl (custom_attr E (k, v) s) = (if k \<in> url_keys \<and> sv_Kind s = 3 then url_host E (k, v) else sv_ExternalHttpUrl s) \<and>
   sv_HttpUrl (custom_attr E (k, v) s) = (if k \<in> url_keys then any_str v else sv_HttpUrl s) \<and>
   sv_ExternalHttpMethod (custom_attr E (k, v) s) = (if k \<in> method_keys \<and> sv_Kind s = 3 then any_str v else sv_ExternalHttpMethod s) \<and>
   sv_HttpMethod (custom_attr E (k, v) s) = (if k \<in> method_keys then any_str v else sv_HttpMethod s) \<and>
   sv_HttpHost (custom_attr E (k, v) s) =
    (if k \<in> host_keys then any_str v
     else if k \<in> url_keys \<and> sv_Kind s = 3 \<and> sv_HttpHost s = [] then url_host E (k, v) else sv_HttpHost s) \<and>
   sv_DBName (custom_attr E (k, v) s) = (if k \<in> db_keys then any_str v else sv_DBName s) \<and>
   sv_DBOperation (custom_attr E (k, v) s) = (if k \<in> operation_keys then any_str v else sv_DBOperation s)"

definition column_key_list :: "string list" where
  "column_key_list =
     [''http.status_code'', ''http.response.status_code'', ''rpc.grpc.status_code'', ''rpc.jsonrpc.error_code'', ''http.url'', ''url.full'',
      ''http.method'', ''http.request.method'', ''http.host'', ''server.address'', ''client.address'', ''http.request.header.host'',
      ''net.peer.name'', ''db.name'', ''db.namespace'', ''db.operation'', ''db.operation.name'']"

lemma columns_after_known: "list_all (\<lambda>k. columns_after E k v s) column_key_list"
  by (simp add: column_key_list_def) (simp add: columns_after_def custom_attr_def Let_def column_keys response_value_def url_host_def possibleHostAttr_def split: option.split)

lemma columns_after_other: "k \<notin> set column_key_list \<Longrightarrow> columns_after E k v s"
  by (simp add: column_key_list_def columns_after_def custom_attr_def Let_def column_keys possibleHostAttr_def)

lemma custom_attr_columns:
  "sv_ResponseStatusCode (custom_attr E kv s) = (if fst kv \<in> response_keys then response_value kv else sv_ResponseStatusCode s)"
  "sv_ExternalHttpUrl (custom_attr E kv s) = (if fst kv \<in> url_keys \<and> sv_Kind s = 3 then url_host E kv else sv_ExternalHttpUrl s)"
  "sv_HttpUrl (custom_attr E kv s) = (if fst kv \<in> url_keys then any_str (snd kv) else sv_HttpUrl s)"
  "sv_ExternalHttpMethod (custom_attr E kv s) = (if fst kv \<in> method_keys \<and> sv_Kind s = 3 then any_str (snd kv) else sv_ExternalHttpMethod s)"
  "sv_HttpMethod (custom_attr E kv s) = (if fst kv \<in> method_keys then any_str (snd kv) else sv_HttpMethod s)"
  "sv_HttpHost (custom_attr E kv s) =
    (if fst kv \<in> host_keys then any_str (snd kv)
     else if fst kv \<in> url_keys \<and> sv_Kind s = 3 \<and> sv_HttpHost s = [] then url_host E kv else sv_HttpHost s)"
  "sv_DBName (custom_attr E kv s) = (if fst kv \<in> db_keys then any_str (snd kv) else sv_DBName s)"
  "sv_DBOperation (custom_attr E kv s) = (if fst kv \<in> operation_keys then any_str (snd kv) else sv_DBOperation s)"
  using columns_after_known [of E "snd kv" s] columns_after_other [of "fst kv" E "snd kv" s]
  by (cases kv; cases "fst kv \<in> set column_key_list"; auto simp: list_all_iff columns_after_def)+

definition own_columns :: "'e tx_env_scheme \<Rightarrow> bool \<Rightarrow> vmap \<Rightarrow> span_v3 \<Rightarrow> bool" where
  "own_columns E client attrs s \<longleftrightarrow>
     sv_ResponseStatusCode s = last_value response_keys response_value attrs \<and>
     sv_ExternalHttpUrl s = (if client then last_value url_keys (url_host E) attrs else []) \<and>
     sv_HttpUrl s = last_value url_keys (any_str \<circ> snd) attrs \<and>
     sv_ExternalHttpMethod s = (if client then last_value method_keys (any_str \<circ> snd) attrs else []) \<and>
     sv_HttpMethod s = last_value method_keys (any_str \<circ> snd) attrs \<and>
     sv_HttpHost s = host_value E client attrs \<and>
     sv_DBName s = last_value db_keys (any_str \<circ> snd) attrs \<and>
     sv_DBOperation s = last_value operation_keys (any_str \<circ> snd) attrs"

lemma custom_columns:
  assumes "own_columns E (sv_Kind s = 3) [] s"
  shows "own_columns E (sv_Kind s = 3) attrs (populateCustomAttrsAndAttrs E attrs s)"
proof (induction attrs rule: rev_induct)
  case Nil
  then show ?case using assms by (simp add: populateCustomAttrsAndAttrs_def)
next
  case (snoc kv attrs)
  let ?s = "populateCustomAttrsAndAttrs E attrs s"
  have "own_columns E (sv_Kind s = 3) (attrs @ [kv]) (custom_attr E kv ?s)"
    using snoc by (cases "sv_Kind s = 3") (simp_all add: own_columns_def custom_attr_columns)
  then show ?case by (simp add: populateCustomAttrsAndAttrs_def)
qed

section \<open>Rows\<close>

text \<open>An event as JSON, and the links as JSON: that to the parent first.\<close>

definition event_json :: "'e meter_env_scheme \<Rightarrow> span_event \<Rightarrow> string" where
  "event_json E e =
     (case marshalEvent E \<lparr>Name = ev_name e, TimeUnixNano = ev_timestamp e,
          AttributeMap = fold (\<lambda>(k, v). AList.update k (asString E v)) (ev_attrs e) [], IsError = (ev_name e = ''exception'')\<rparr> of
        None \<Rightarrow> [] | Some text \<Rightarrow> text)"

definition links_json :: "'e meter_env_scheme \<Rightarrow> otlp_span \<Rightarrow> string" where
  "links_json E s =
     (let refs =
        (if os_parentSpanID s = [] then []
         else [\<lparr>TraceId = TraceIDToHexOrEmptyString (os_traceID s), SpanId = SpanIDToHexOrEmptyString (os_parentSpanID s), RefType = ''CHILD_OF''\<rparr>]) @
        map (\<lambda>l. \<lparr>TraceId = TraceIDToHexOrEmptyString (link_traceID l), SpanId = SpanIDToHexOrEmptyString (link_spanID l), RefType = ''FOLLOWS_FROM''\<rparr>)
          (os_links s)
      in if refs = [] then ''null'' else (case marshalRefs E refs of None \<Rightarrow> [] | Some text \<Rightarrow> text))"

definition remote_text :: "u32 \<Rightarrow> string" where
  "remote_text flags = (if \<not> bit flags 8 then ''unknown'' else if bit flags 9 then ''yes'' else ''no'')"

text \<open>The columns of a row: what identifies the span, its attributes, and the columns of their own.\<close>

definition row_of_span :: "'e tx_env_scheme \<Rightarrow> vmap \<times> otlp_span \<Rightarrow> index_row \<Rightarrow> bool" where
  "row_of_span E = (\<lambda>(r, s) row.
     uint (ix_ts_bucket_start row) = uint (os_start s) div 1000000000 div 1800 * 1800 \<and>
     ix_timestamp row = sint (os_start s) \<and> ix_duration_nano row = os_end s - os_start s \<and>
     ix_trace_id row = TraceIDToHexOrEmptyString (os_traceID s) \<and> ix_span_id row = SpanIDToHexOrEmptyString (os_spanID s) \<and>
     ix_parent_span_id row = SpanIDToHexOrEmptyString (os_parentSpanID s) \<and> ix_trace_state row = os_traceState s \<and>
     ix_flags row = os_flags s \<and> ix_is_remote row = remote_text (os_flags s) \<and> ix_name row = os_name s \<and>
     ix_kind row = ucast (os_kind s) \<and> ix_kind_string row = kindString E (os_kind s) \<and>
     ix_status_code row = ucast (os_statusCode s) \<and> ix_status_message row = os_statusMessage s \<and>
     ix_status_code_string row = tx_statusString E (os_statusCode s) \<and> ix_has_error row = (os_statusCode s = 2) \<and>
     ix_events row = map (event_json E) (os_events s) \<and> ix_links row = links_json E s)"

definition row_of_attributes :: "'e tx_env_scheme \<Rightarrow> vmap \<times> otlp_span \<Rightarrow> index_row \<Rightarrow> bool" where
  "row_of_attributes E = (\<lambda>(r, s) row.
     map_of (ix_attributes_string row) = map_of (rev (strings (attribute_places E (os_attrs s)))) \<and>
     map_of (ix_attributes_number row) = map_of (rev (numbers (attribute_places E (os_attrs s)))) \<and>
     map_of (ix_attributes_bool row) = map_of (rev (bools (attribute_places E (os_attrs s)))) \<and>
     map_of (ix_resources_string row) = map_of (rev (concat (map (resource_items E) r))) \<and>
     ix_resource row = ix_resources_string row)"

definition row_of_columns :: "'e tx_env_scheme \<Rightarrow> vmap \<times> otlp_span \<Rightarrow> index_row \<Rightarrow> bool" where
  "row_of_columns E = (\<lambda>(r, s) row.
     let attrs = os_attrs s; client = ((ucast (os_kind s) :: 8 word) = 3) in
     ix_response_status_code row = last_value response_keys response_value attrs \<and>
     ix_external_http_url row = (if client then last_value url_keys (url_host E) attrs else []) \<and>
     ix_http_url row = last_value url_keys (any_str \<circ> snd) attrs \<and>
     ix_external_http_method row = (if client then last_value method_keys (any_str \<circ> snd) attrs else []) \<and>
     ix_http_method row = last_value method_keys (any_str \<circ> snd) attrs \<and>
     ix_http_host row = host_value E client attrs \<and>
     ix_db_name row = last_value db_keys (any_str \<circ> snd) attrs \<and>
     ix_db_operation row = last_value operation_keys (any_str \<circ> snd) attrs)"

lemma is_remote_text: "is_remote flags = remote_text flags"
proof -
  have "flags AND hasIsRemoteMask = 0 \<longleftrightarrow> \<not> bit flags 8" "flags AND isRemoteMask = 0 \<longleftrightarrow> \<not> bit flags 9"
    using and_exp_eq_0_iff_not_bit [of flags 8] and_exp_eq_0_iff_not_bit [of flags 9]
    by (simp_all add: hasIsRemoteMask_def isRemoteMask_def)
  then show ?thesis by (simp add: is_remote_def remote_text_def)
qed

lemma links_text: "references_json E s = links_json E s"
  by (auto simp: references_json_def links_json_def references_eq NewOtelSpanRefs_def Let_def)

lemma events_text: "fst (NewEventsAndErrorEvents E md5 uuids es svc low) = map (event_json E) es"
proof -
  have "map (\<lambda>(i, e). fst (new_event E md5 (uuids i) svc low e)) (zip is es) = map (event_json E) es" if "length is = length es" for "is"
    using that by (induction "is" es rule: list_induct2) (simp_all add: new_event_def event_json_def Let_def)
  from this [of "[0..<length es]"] show ?thesis
    by (simp add: NewEventsAndErrorEvents_def Let_def comp_def case_prod_unfold)
qed

lemma bucket_start: "uint (word_of_int (span_bucket s) :: u64) = uint (os_start s) div 1000000000 div 1800 * 1800"
proof -
  define secs where "secs = uint (os_start s div 1000000000)"
  have "0 \<le> secs" by (simp add: secs_def)
  then have "span_bucket s = secs div 1800 * 1800"
    unfolding span_bucket_def tsBucket_def distributedTracesResourceV2Seconds_def go_quot_def secs_def [symmetric] by (cases "secs = 0") simp_all
  moreover have "secs = uint (os_start s) div 1000000000" by (simp add: secs_def uint_div)
  ultimately show ?thesis using span_bucket_word [of s] by simp
qed

lemma custom_attrs_keep_rest [simp]:
  "sv_DurationNano (populateCustomAttrsAndAttrs E m s) = sv_DurationNano s" "sv_IsRemote (populateCustomAttrsAndAttrs E m s) = sv_IsRemote s"
  "sv_StatusCode (populateCustomAttrsAndAttrs E m s) = sv_StatusCode s" "sv_StatusMessage (populateCustomAttrsAndAttrs E m s) = sv_StatusMessage s"
  "sv_HasError (populateCustomAttrsAndAttrs E m s) = sv_HasError s" "sv_ResourcesString (populateCustomAttrsAndAttrs E m s) = sv_ResourcesString s"
  by (simp_all add: populateCustomAttrsAndAttrs_def fold_field custom_attr_def Let_def split: prod.split)

lemma structured_span_row:
  assumes "sv = newStructuredSpanV3 E low uuids (word_of_int (span_bucket s)) fp s svc r"
  shows "row_of_span E (r, s) (index_row sv)"
  unfolding assms row_of_span_def prod.case newStructuredSpanV3_def Let_def
  by (simp add: index_row_def populateEventsV3_eq events_text links_text bucket_start case_prod_unfold Let_def)
    (simp add: plain_span_v3_def is_remote_text case_prod_unfold)

lemma structured_attributes_row:
  assumes "sv = newStructuredSpanV3 E low uuids b fp s svc r"
  shows "row_of_attributes E (r, s) (index_row sv)"
  unfolding assms row_of_attributes_def prod.case newStructuredSpanV3_def Let_def
  by (simp add: index_row_def populateEventsV3_eq attribute_maps case_prod_unfold Let_def)
    (simp add: plain_span_v3_def resource_maps case_prod_unfold)

lemma structured_columns_row:
  assumes "sv = newStructuredSpanV3 E low uuids b fp s svc r"
  shows "row_of_columns E (r, s) (index_row sv)"
proof -
  let ?p = "plain_span_v3 E b fp s svc (split_attributes E (os_attrs s))
      (fold (resource_attr E) r ([], [], ad_SpanAttributes (split_attributes E (os_attrs s))))"
  have "own_columns E (sv_Kind ?p = 3) [] ?p" by (simp add: own_columns_def plain_span_v3_def case_prod_unfold)
  from custom_columns [OF this, of "os_attrs s"] show ?thesis
    by (simp add: assms row_of_columns_def own_columns_def newStructuredSpanV3_def Let_def index_row_def populateEventsV3_eq case_prod_unfold)
qed

section \<open>Exceptions\<close>

text \<open>The exceptions among the events of a span.\<close>

definition exceptions_of :: "vmap \<times> otlp_span \<Rightarrow> ((vmap \<times> otlp_span) \<times> span_event) list" where
  "exceptions_of rs = map (Pair rs) (filter (\<lambda>e. ev_name e = ''exception'') (os_events (snd rs)))"

definition event_text :: "'e meter_env_scheme \<Rightarrow> span_event \<Rightarrow> string \<Rightarrow> string" where
  "event_text E e k = (case map_of (rev (map (\<lambda>(k, v). (k, asString E v)) (ev_attrs e))) k of None \<Rightarrow> [] | Some text \<Rightarrow> text)"

definition row_of_exception :: "'e tx_env_scheme \<Rightarrow> bool \<Rightarrow> (vmap \<times> otlp_span) \<times> span_event \<Rightarrow> error_row \<Rightarrow> bool" where
  "row_of_exception E low = (\<lambda>((r, s), e) row.
     er_timestamp row = sint (ev_timestamp e) \<and>
     er_traceID row = TraceIDToHexOrEmptyString (os_traceID s) \<and> er_spanID row = SpanIDToHexOrEmptyString (os_spanID s) \<and>
     er_serviceName row = ServiceNameForResource r \<and>
     er_exceptionType row = event_text E e ''exception.type'' \<and> er_exceptionMessage row = event_text E e ''exception.message'' \<and>
     er_exceptionStacktrace row = event_text E e ''exception.stacktrace'' \<and>
     (er_exceptionEscaped row \<longleftrightarrow> to_lower (event_text E e ''exception.escaped'') = ''true'') \<and>
     er_groupID row = tx_md5 E (ServiceNameForResource r @ event_text E e ''exception.type'' @
       (if low then [] else event_text E e ''exception.message'')) \<and>
     map_of (er_resourceTagsMap row) = map_of (rev (concat (map (resource_items E) r))))"

lemma event_map: "map_str (fold (\<lambda>(k, v). AList.update k (asString E v)) (ev_attrs e) []) k = event_text E e k"
  by (simp add: map_str_def event_text_def map_of_puts)

lemma exception_rows:
  assumes "sv = newStructuredSpanV3 E low uuids b fp s (ServiceNameForResource r) r"
  shows "list_all2 (row_of_exception E low) (exceptions_of (r, s)) (map (error_row sv) (filter (\<lambda>e. Name (Event e) \<noteq> []) (sv_ErrorEvents sv)))"
proof -
  have tags: "map_of (sv_ResourcesString sv) = map_of (rev (concat (map (resource_items E) r)))"
    using structured_attributes_row [OF assms] by (simp add: row_of_attributes_def index_row_def)
  have row: "row_of_exception E low ((r, s), e) (error_row sv (snd (new_event E (tx_md5 E) u (ServiceNameForResource r) low e)))"
    if "ev_name e = ''exception''" for e u
    using that tags by (simp add: row_of_exception_def error_row_def new_event_def Let_def event_map stringToBool_def assms)
  have named: "Name (Event (snd (new_event E (tx_md5 E) u svc low e))) \<noteq> [] \<longleftrightarrow> ev_name e = ''exception''" for u svc e
    by (simp add: new_event_def Let_def empty_event_def)
  have "length is = length es \<Longrightarrow>
      list_all2 (row_of_exception E low) (map (Pair (r, s)) (filter (\<lambda>e. ev_name e = ''exception'') es))
        (map (error_row sv) (filter (\<lambda>e. Name (Event e) \<noteq> [])
          (map (\<lambda>(i, e). snd (new_event E (tx_md5 E) (uuids i) (ServiceNameForResource r) low e)) (zip is es))))" for "is" es
    by (induction "is" es rule: list_induct2) (simp_all add: named row)
  from this [of "[0..<length (os_events s)]" "os_events s"] show ?thesis
    by (simp add: exceptions_of_def assms NewEventsAndErrorEvents_def Let_def comp_def case_prod_unfold)
qed

section \<open>What a push writes\<close>

lemma structured_rows:
  assumes "list_all2 (structured E low) todo svs"
  shows "list_all2 (row_of_span E) todo (map index_row svs)" and "list_all2 (row_of_attributes E) todo (map index_row svs)"
    and "list_all2 (row_of_columns E) todo (map index_row svs)"
    and "list_all2 (row_of_exception E low) (concat (map exceptions_of todo)) (error_rows svs)"
  using assms
proof (induction rule: list_all2_induct)
  case (Cons x xs y ys)
  obtain r s where x: "x = (r, s)" by force
  obtain uuids fp where y: "y = newStructuredSpanV3 E low uuids (word_of_int (span_bucket s)) fp s (ServiceNameForResource r) r"
    using Cons(1) by (auto simp: structured_def x)
  {
    case 1 then show ?case using Cons structured_span_row [OF y] by (simp add: x)
  next
    case 2 then show ?case using Cons structured_attributes_row [OF y] by (simp add: x)
  next
    case 3 then show ?case using Cons structured_columns_row [OF y] by (simp add: x)
  next
    case 4 then show ?case using Cons exception_rows [OF y] by (simp add: x error_rows_def list_all2_appendI)
  }
qed (simp_all add: error_rows_def)

text \<open>C16: A push that reports no error writes, in order, one row for each span that started in the window, and one row for
  each of their exceptions; other spans leave no row. Every column but the fingerprint of the resource is the one that
  the description above gives of the span and its resource, and every column of an exception but its fresh identifier the
  one it gives of the event.\<close>

theorem spans_and_exceptions_written:
  assumes "pushTraceDataV3 E low days uuids d now td st = (None, st')"
  shows "\<exists>rows errs. tt_spans st' = tt_spans st @ rows \<and> tt_errors st' = tt_errors st @ errs \<and>
    list_all2 (row_of_span E) (in_window (oldest_allowed now days) td) rows \<and>
    list_all2 (row_of_attributes E) (in_window (oldest_allowed now days) td) rows \<and>
    list_all2 (row_of_columns E) (in_window (oldest_allowed now days) td) rows \<and>
    list_all2 (row_of_exception E low) (concat (map exceptions_of (in_window (oldest_allowed now days) td))) errs"
  using assms
proof (cases rule: push_cases)
  case (wrote acc rs st1)
  have rs: "rs = None" using wrote(4) by blast
  note w = WriteBatch_fields [OF wrote(3)] and f = WriteResources_frame [OF wrote(5) [OF rs]]
  have s: "list_all2 (structured E low) (in_window (oldest_allowed now days) td) (pa_batchOfSpans acc)"
    using wrote(2) by (auto simp: pushes_def)
  show ?thesis
  proof (intro exI conjI)
    show "tt_spans st' = tt_spans st @ map index_row (pa_batchOfSpans acc)" using w(1, 7) f(1) rs by (simp add: writers_ok)
    show "tt_errors st' = tt_errors st @ error_rows (pa_batchOfSpans acc)" using w(2, 7) f(2) rs by (simp add: writers_ok)
  qed (use structured_rows [OF s] in simp_all)
qed simp

end
