(* ===== verification/TracesExamples.thy ===== *)
theory TracesExamples
  imports TracesColumns
begin

text \<open>
  A concrete exporter of traces: the properties of \<open>TracesExporterTheorems\<close> at a payload with one span, and
  inputs on which the code does something it should not.
\<close>

section \<open>A concrete environment\<close>

definition json_pairs :: "('v \<Rightarrow> string) \<Rightarrow> (string \<times> 'v) list \<Rightarrow> string" where
  "json_pairs f m = json_object (map (\<lambda>(k, v). (k, f v)) m)"

definition json_list :: "string list \<Rightarrow> string" where
  "json_list xs = ''['' @ concat (map (\<lambda>x. quoted x @ '','') xs) @ '']''"

lemma json_pairs_length: "length (json_pairs f m) \<le> 2 \<longleftrightarrow> m = []"
proof (cases m)
  case Nil
  then show ?thesis by (simp add: json_pairs_def json_object_def)
next
  case (Cons kv m')
  obtain k v where kv: "kv = (k, v)" by force
  show ?thesis
    using length_json_object [of "map (\<lambda>(k, v). (k, f v)) m"] Cons kv
    by (simp add: json_pairs_def KeySizes_def)
qed

lemma json_list_length: "length (json_list xs) \<le> 2 \<longleftrightarrow> xs = []"
  by (cases xs) (simp_all add: json_list_def quoted_def)

definition sample_json_env :: meter_env where
  "sample_json_env =
     \<lparr>sprintv = (\<lambda>v. []), floatOfInt = (\<lambda>i. 0), asString = (\<lambda>v. case v of VStr s \<Rightarrow> s | _ \<Rightarrow> []), kindString = (\<lambda>k. ''Client''),
      marshalAnyMap = (\<lambda>m. Some ''{}''), marshalStrMap = (\<lambda>m. Some (json_pairs quoted m)),
      marshalNumMap = (\<lambda>m. Some (json_pairs (\<lambda>f. nat_digits (unat f)) m)),
      marshalBoolMap = (\<lambda>m. Some (json_pairs (\<lambda>b. if b then ''true'' else ''false'') m)),
      marshalStrings = (\<lambda>xs. Some (json_list xs)), marshalString = (\<lambda>s. Some (quoted s)),
      marshalEvent = (\<lambda>e. Some (quoted (Name e))), marshalRefs = (\<lambda>rs. Some (json_list (map SpanId rs)))\<rparr>"

definition sample_tx_env :: tx_env where
  "sample_tx_env = meter_env.extend sample_json_env
     \<lparr>tx_sprints = (\<lambda>v. []), tx_urlHostname = (\<lambda>u. None), tx_statusString = (\<lambda>c. ''Unset''), tx_formatFloat = (\<lambda>f. ''0''),
      tx_md5 = (\<lambda>s. s), tx_marshalSpan = (\<lambda>sv. Some (json_object (span_v3_object sample_json_env sv)))\<rparr>"

lemma sample_env_simps [simp]:
  "marshalStrMap sample_tx_env m = Some (json_pairs quoted m)"
  "marshalNumMap sample_tx_env m' = Some (json_pairs (\<lambda>f. nat_digits (unat f)) m')"
  "marshalBoolMap sample_tx_env m'' = Some (json_pairs (\<lambda>b. if b then ''true'' else ''false'') m'')"
  "marshalStrings sample_tx_env xs = Some (json_list xs)" "marshalString sample_tx_env s = Some (quoted s)"
  "marshalRefs sample_tx_env rs = Some (json_list (map SpanId rs))" "floatOfInt sample_tx_env i = 0"
  by (simp_all add: sample_tx_env_def sample_json_env_def meter_env.defs)

lemma sample_marshal_span: "tx_marshalSpan sample_tx_env sv = Some (json_object (span_v3_object sample_tx_env sv))"
proof -
  have "span_v3_object sample_tx_env sv = span_v3_object sample_json_env sv"
    by (simp add: span_v3_object_def) (simp add: sample_json_env_def)
  then show ?thesis by (simp add: sample_tx_env_def meter_env.defs)
qed

lemma sample_json: "json_env sample_tx_env"
  by (simp add: json_env_def json_pairs_length json_list_length quoted_def IsValidFloat_def)

definition sample_tx_span :: otlp_span where
  "sample_tx_span =
     \<lparr>os_traceID = replicate 16 1, os_spanID = replicate 8 2, os_parentSpanID = replicate 8 0, os_traceState = [],
      os_flags = 0x300, os_name = ''Client'', os_kind = 3, os_start = 1700000000000000000, os_end = 1700000000000000007,
      os_statusCode = 0, os_statusMessage = [], os_attrs = [(''a'', VStr ''b'')], os_links = [],
      os_events = [\<lparr>ev_name = ''exception'', ev_timestamp = 1700000000000000003, ev_attrs = []\<rparr>]\<rparr>"

definition sample_tx_traces :: otlp_traces where
  "sample_tx_traces = [\<lparr>ors_resource = [(''service.name'', VStr ''svc'')],
     ors_scopes = [\<lparr>oss_name = [], oss_version = [], oss_attrs = [], oss_spans = [sample_tx_span]\<rparr>]\<rparr>]"

definition tx_driver_ok :: tx_driver where
  "tx_driver_ok = \<lparr>td_index = table_ok, td_error = table_ok, td_keys = table_ok, td_values = table_ok, td_resources = table_ok,
     td_errorFirst = False, td_order = (\<lambda>rs. rs)\<rparr>"

lemma driver_ok: "table_accepts (table_ok :: 'row table_driver)" "visits_all tx_driver_ok"
  by (simp_all add: table_accepts_def table_ok_def visits_all_def tx_driver_ok_def)

definition sample_now :: int where "sample_now = 1700000000000000009"

lemma push_succeeds:
  assumes "\<And>sv. tx_marshalSpan E sv \<noteq> None" and "\<And>m. marshalStrMap E m \<noteq> None" and "\<not> tx_closed st"
    and "table_accepts (td_index d)" and "table_accepts (td_error d)" and "table_accepts (td_resources d)"
  shows "\<exists>st'. pushTraceDataV3 E low days uuids d now td st = (None, st')"
proof -
  obtain acc where acc: "fold_result (push_resource E low uuids (oldest_allowed now days)) td
      \<lparr>pa_resourcesSeen = [], pa_batchOfSpans = [], pa_count = 0, pa_size = 0\<rparr> = Inr acc"
    using push_total [OF assms(1, 2)]
    by (cases "fold_result (push_resource E low uuids (oldest_allowed now days)) td
      \<lparr>pa_resourcesSeen = [], pa_batchOfSpans = [], pa_count = 0, pa_size = 0\<rparr>") auto
  obtain r st1 where w: "WriteBatchOfSpansV3 E d (pa_batchOfSpans acc)
      (AddMetric [] ''default'' (of_nat (pa_count acc)) (of_nat (pa_size acc))) st = (r, st1)" by force
  have "r = None"
    using WriteBatch_fields(7) [OF w] assms(4, 5) by (simp add: writeIndexBatchV3_def writeErrorBatchV3_def send_batch_accepts)
  then show ?thesis
    using assms(3, 6) w by (simp add: pushTraceDataV3_def acc WriteResourcesV3_def table_accepts_def Let_def split: prod.split)
qed

abbreviation sample_push :: "tx_driver \<Rightarrow> tx_state \<Rightarrow> string option \<times> tx_state" where
  "sample_push d st \<equiv> pushTraceDataV3 sample_tx_env False 15 (\<lambda>i j. ''u'') d sample_now sample_tx_traces st"

lemma sample_marshals: "tx_marshalSpan sample_tx_env sv \<noteq> None" "marshalStrMap sample_tx_env m \<noteq> None"
  by (simp_all add: sample_marshal_span)

lemma sample_push_ok: "\<not> tx_closed st \<Longrightarrow> \<exists>st'. sample_push tx_driver_ok st = (None, st')"
  by (rule push_succeeds [OF sample_marshals]) (simp_all add: tx_driver_ok_def driver_ok)

lemma sample_window: "in_window (oldest_allowed sample_now 15) sample_tx_traces = [([(''service.name'', VStr ''svc'')], sample_tx_span)]"
proof -
  have "oldest_allowed sample_now 15 \<le> os_start sample_tx_span"
    by (simp add: oldest_allowed_def sample_now_def sample_tx_span_def)
  then show ?thesis by (simp add: in_window_def sample_tx_traces_def)
qed

section \<open>The properties at this payload\<close>

theorem spans_and_exceptions_written_witness:
  "\<exists>st' row err. sample_push tx_driver_ok newTracesExporter = (None, st') \<and> tt_spans st' = [row] \<and> tt_errors st' = [err] \<and>
    ix_duration_nano row = 7 \<and> ix_is_remote row = ''yes'' \<and> map_of (ix_attributes_string row) ''a'' = Some (asString sample_tx_env (VStr ''b'')) \<and>
    er_serviceName err = ''svc''"
proof -
  let ?rs = "([(''service.name'', VStr ''svc'')], sample_tx_span)"
  obtain st' where st': "sample_push tx_driver_ok newTracesExporter = (None, st')"
    using sample_push_ok [of newTracesExporter] by (auto simp: newTracesExporter_def)
  obtain rows errs where w: "tt_spans st' = tt_spans newTracesExporter @ rows" "tt_errors st' = tt_errors newTracesExporter @ errs"
      "list_all2 (row_of_span sample_tx_env) [?rs] rows" "list_all2 (row_of_attributes sample_tx_env) [?rs] rows"
      "list_all2 (row_of_exception sample_tx_env False) (concat (map exceptions_of [?rs])) errs"
    using spans_and_exceptions_written [OF st'] unfolding sample_window by blast
  have e: "tt_spans newTracesExporter = []" "tt_errors newTracesExporter = []" by (simp_all add: newTracesExporter_def)
  obtain row where row: "rows = [row]" "row_of_span sample_tx_env ?rs row" "row_of_attributes sample_tx_env ?rs row"
    using w(3, 4) by (auto simp: list_all2_Cons1)
  have x: "concat (map exceptions_of [?rs]) = [(?rs, \<lparr>ev_name = ''exception'', ev_timestamp = 1700000000000000003, ev_attrs = []\<rparr>)]"
    by (simp add: exceptions_of_def sample_tx_span_def)
  obtain err where err: "errs = [err]" "er_serviceName err = ''svc''"
    using w(5) unfolding x by (auto simp: list_all2_Cons1 row_of_exception_def ServiceNameForResource_def any_str_def)
  have "ix_duration_nano row = 7" "ix_is_remote row = ''yes''"
    using row(2) by (simp_all add: row_of_span_def remote_text_def sample_tx_span_def bit_numeral_rec)
  moreover have "map_of (ix_attributes_string row) ''a'' = Some (asString sample_tx_env (VStr ''b''))"
    using row(3) by (simp add: row_of_attributes_def sample_tx_span_def attribute_places_def places_simps)
  ultimately show ?thesis using st' w(1, 2) e row(1) err by simp
qed

theorem spans_have_resources_witness:
  "\<exists>row. row \<in> set (tt_spans (tx_run sample_tx_env False 15 [TxPush (\<lambda>i j. ''u'') tx_driver_ok sample_now sample_tx_traces] newTracesExporter)) \<and>
    has_resource (tx_run sample_tx_env False 15 [TxPush (\<lambda>i j. ''u'') tx_driver_ok sample_now sample_tx_traces] newTracesExporter)
      (uint (ix_ts_bucket_start row)) (ix_resource_fingerprint row)"
proof -
  let ?evs = "[TxPush (\<lambda>i j. ''u'') tx_driver_ok sample_now sample_tx_traces]"
  obtain st' where st': "sample_push tx_driver_ok newTracesExporter = (None, st')"
    using sample_push_ok [of newTracesExporter] by (auto simp: newTracesExporter_def)
  let ?a = "\<lparr>pa_resourcesSeen = [], pa_batchOfSpans = [], pa_count = 0, pa_size = 0\<rparr>"
  have "tt_spans st' \<noteq> []"
    using st'
  proof (cases rule: push_cases)
    case (wrote acc rs st1)
    have rs: "rs = None" using wrote(4) by blast
    have "length (pa_batchOfSpans acc) = 1" using wrote(2) by (auto simp: pushes_def sample_window dest: list_all2_lengthD)
    then show ?thesis
      using WriteBatch_fields(1) [OF wrote(3)] WriteResources_frame(1) [OF wrote(5) [OF rs]]
      by (auto simp: writeIndexBatchV3_def tx_driver_ok_def send_batch_accepts driver_ok)
  qed simp
  then obtain row where row: "row \<in> set (tt_spans (tx_run sample_tx_env False 15 ?evs newTracesExporter))"
    using st' by (cases "tt_spans st'") auto
  have "has_resource (tx_run sample_tx_env False 15 ?evs newTracesExporter) (uint (ix_ts_bucket_start row)) (ix_resource_fingerprint row)"
    by (rule spans_have_resources [OF _ row]) (auto simp: driver_ok(2) [unfolded tx_driver_ok_def] tx_driver_ok_def driver_ok(1))
  then show ?thesis using row by blast
qed

theorem failed_resources_are_not_retried_witness:
  "\<exists>st1 st2. sample_push (tx_driver_ok\<lparr>td_resources := table_ok\<lparr>sendErr := Some ''down''\<rparr>\<rparr>) newTracesExporter = (Some ''down'', st1) \<and>
    sample_push tx_driver_ok st1 = (None, st2) \<and> tt_resources st2 = [] \<and> length (tt_spans st2) = 2"
proof -
  let ?d = "tx_driver_ok\<lparr>td_resources := table_ok\<lparr>sendErr := Some ''down''\<rparr>\<rparr>"
  obtain r1 st1 where 1: "sample_push ?d newTracesExporter = (r1, st1)" by force
  obtain r2 st2 where 2: "sample_push tx_driver_ok st1 = (r2, st2)" by force
  have v: "visits_all ?d" by (simp add: visits_all_def tx_driver_ok_def)
  have t: "\<not> tx_closed newTracesExporter" "table_accepts (td_index ?d)" "table_accepts (td_error ?d)"
      "prepareErr (td_resources ?d) = None" "sendErr (td_resources ?d) = Some ''down''"
      "table_accepts (td_index tx_driver_ok)" "table_accepts (td_error tx_driver_ok)" "table_accepts (td_resources tx_driver_ok)"
    by (simp_all add: newTracesExporter_def tx_driver_ok_def driver_ok) (simp add: table_ok_def)
  have "r1 = Some ''down'' \<and> r2 = None \<and> tt_resources st2 = tt_resources newTracesExporter \<and>
      length (tt_spans st2) = length (tt_spans newTracesExporter) + 2 * length (in_window (oldest_allowed sample_now 15) sample_tx_traces)"
    by (rule failed_resources_are_not_retried [OF sample_marshals t(1-3) v t(4, 5) 1 t(6, 7) driver_ok(2) t(8) refl 2])
  then show ?thesis using 1 2 by (simp add: sample_window newTracesExporter_def)
qed

theorem reported_usage_is_metered_witness:
  "\<exists>st'. sample_push tx_driver_ok newTracesExporter = (None, st') \<and>
    tx_recorded st' = [(''default'', \<lparr>um_Size = traces_Size sample_tx_env (\<lambda>s. s) (\<lambda>n. []) sample_tx_traces, um_Count = 1\<rparr>)]"
proof -
  obtain st' where st': "sample_push tx_driver_ok newTracesExporter = (None, st')"
    using sample_push_ok [of newTracesExporter] by (auto simp: newTracesExporter_def)
  have s: "oldest_allowed sample_now 15 \<le> os_start sample_tx_span" "sizable sample_tx_env ([(''service.name'', VStr ''svc'')], sample_tx_span)"
    by (simp_all add: oldest_allowed_def sample_now_def sample_tx_span_def sizable_def ServiceNameForResource_def any_str_def nested_finite_def)
  have "tx_recorded st' = tx_recorded newTracesExporter @
      [(''default'', \<lparr>um_Size = traces_Size sample_tx_env (\<lambda>s. s) (\<lambda>n. []) sample_tx_traces,
         um_Count = sum_list (map traces_CountPerResource sample_tx_traces)\<rparr>)]"
    by (rule reported_usage_is_metered [OF sample_json _ sample_marshal_span st'])
      (auto simp: sample_tx_traces_def s)
  then show ?thesis using st' by (simp add: newTracesExporter_def traces_CountPerResource_def sample_tx_traces_def)
qed

section \<open>Where the code does not do what it should\<close>

text \<open>The values of the fields of spans share one set: a span named like its kind leaves no row for the kind.\<close>

lemma append_values_keys: "vr_tag_key ` set (tg_valueRows (fold (append_value d) rows s)) \<subseteq> vr_tag_key ` set (tg_valueRows s) \<union> vr_tag_key ` set rows"
proof (induction rows arbitrary: s)
  case (Cons r rows)
  have 1: "vr_tag_key ` set (tg_valueRows (append_value d r s)) \<subseteq> insert (vr_tag_key r) (vr_tag_key ` set (tg_valueRows s))"
    by (auto simp: append_value_def)
  show ?case
    unfolding fold_simps by (rule order_trans [OF Cons.IH]) (use 1 in \<open>simp, blast\<close>)
qed simp

lemma fold_append_spanFields: "tg_spanFields (fold (append_value d) rows s) = tg_spanFields s"
  by (induction rows arbitrary: s) (simp_all add: append_value_def)

lemma name_hides_kind:
  assumes "sv_Name span = sv_SpanKind span" and "row \<in> set (tg_valueRows (tag_fields E d span s))"
    and "''kind_string'' \<notin> vr_tag_key ` set (tg_valueRows s)"
  shows "vr_tag_key row \<noteq> ''kind_string''"
proof -
  have f: "vr_tag_key ` set (tg_valueRows (tag_field d v rows s)) \<subseteq> vr_tag_key ` set (tg_valueRows s) \<union> vr_tag_key ` set rows" for v rows s
    using append_values_keys [of d rows "s\<lparr>tg_spanFields := insert v (tg_spanFields s)\<rparr>"] by (auto simp: tag_field_def)
  let ?s1 = "tag_field d (sv_Name span) [field_row (span_hour span) ''name'' ''string'' (Some (sv_Name span)) None] s"
  have "sv_SpanKind span \<in> tg_spanFields ?s1"
    using assms(1) by (simp add: tag_field_def fold_append_spanFields append_value_def)
  let ?rows = "[field_row (span_hour span) ''status_code_string'' ''string'' (Some (sv_StatusCodeString span)) None,
      field_row (span_hour span) ''status_code'' ''float64'' None (Some (floatOfInt E (scast (sv_StatusCode span))))]"
  have eq: "tag_fields E d span s = tag_field d (sv_StatusCodeString span) ?rows ?s1"
    using \<open>sv_SpanKind span \<in> tg_spanFields ?s1\<close> by (simp add: tag_fields_def Let_def tag_field_def [of d "sv_SpanKind span"])
  have keys: "vr_tag_key ` set ?rows = {''status_code_string'', ''status_code''}" by (simp add: field_row_def)
  have "vr_tag_key row \<in> vr_tag_key ` set (tg_valueRows (tag_fields E d span s))" using assms(2) by (rule imageI)
  then have row: "vr_tag_key row \<in> vr_tag_key ` set (tg_valueRows ?s1) \<union> {''status_code_string'', ''status_code''}"
    unfolding eq using subsetD [OF f [of "sv_StatusCodeString span" ?rows ?s1]] unfolding keys by simp
  have "vr_tag_key ` set (tg_valueRows ?s1) \<subseteq> vr_tag_key ` set (tg_valueRows s) \<union> {''name''}"
    using f [of "sv_Name span" "[field_row (span_hour span) ''name'' ''string'' (Some (sv_Name span)) None]" s]
    by (simp add: field_row_def)
  then have "vr_tag_key row \<in> vr_tag_key ` set (tg_valueRows s) \<union> {''name'', ''status_code_string'', ''status_code''}"
    using row by blast
  then show ?thesis using assms(3) by (cases "vr_tag_key row = ''kind_string''") simp_all
qed

text \<open>Values of attributes are told apart by a text without separators: two attributes can share it, and the second
  gets no row. The hour of a value is not part of it either.\<close>

lemma attribute_values_confused:
  "attribute_value_key E (tag_of (k @ ''tagstring'') ''tag'' ''string'' v n) =
    attribute_value_key E (tag_of k ''tag'' ''string'' (''tagstring'' @ v) n)"
  by (simp add: attribute_value_key_def tag_of_def)

lemma later_hour_not_recorded:
  "attribute_value_key E a \<in> tg_attributeValues s \<Longrightarrow> tag_attribute E d skip later a s = Inr s"
  by (simp add: tag_attribute_def)

text \<open>The meter counts a kind of zero, which the JSON of a span leaves out.\<close>

lemma unspecified_kind_is_billed:
  "fields_cost (num_field ''kind'' (sint (0 :: 8 word))) = 0"
  "TotalSizeIfKeyExists (KeySizes ''kind'') (SizeOfInt 0) 2 = 9"
proof -
  show "TotalSizeIfKeyExists (KeySizes ''kind'') (SizeOfInt 0) 2 = 9"
    by (simp add: TotalSizeIfKeyExists_def KeySizes_def SizeOfInt_def format_int_def nat_digits.simps [of 0])
qed (simp add: num_field_def)

text \<open>A number below a map that is not finite is dropped by the exporter and kept by the meter.\<close>

lemma nested_nan_kept_by_meter:
  assumes "\<not> IsValidFloat f"
  shows "add_flat (k, VFloat f) m = m" "put_flat (k, VFloat f) (n, s, b) = (AList.update k f n, s, b)"
  using assms by (simp_all add: add_flat_def put_flat_def)

end
