(* ===== verification/KeyCheck.thy ===== *)
theory KeyCheck
  imports Prelude
begin

text \<open>
  Keys that look generated (\<^verbatim>\<open>pkg/keycheck\<close>): identifiers, hexadecimal and base64 text and timestamps are
  found segment by segment. The regular expressions of the source are written out as predicates.
\<close>

section \<open>The patterns\<close>

definition MaxKeyLength :: nat where "MaxKeyLength = 256"
definition ShortKeyLength :: nat where "ShortKeyLength = 15"
definition MediumKeyLength :: nat where "MediumKeyLength = 25"

text \<open>The letters of Unicode, by code point; \<^verbatim>\<open>unicode.IsLetter\<close> and \<^verbatim>\<open>unicode.IsLower\<close>.\<close>

record unicode =
  IsLetter :: "nat \<Rightarrow> bool"
  IsLower :: "nat \<Rightarrow> bool"

definition char_in :: "nat \<Rightarrow> nat \<Rightarrow> char \<Rightarrow> bool" where
  "char_in a b c \<longleftrightarrow> a \<le> of_char c \<and> of_char c \<le> b"

definition is_hex :: "char \<Rightarrow> bool" where
  "is_hex c \<longleftrightarrow> is_digit c \<or> char_in 97 102 c \<or> char_in 65 70 c"

text \<open>Groups of 8, 4, 4, 4 and 12 hexadecimal digits; the third starts with a version, the fourth with a variant.\<close>

definition uuidRegex :: "string \<Rightarrow> bool" where
  "uuidRegex s \<longleftrightarrow>
     length s = 36 \<and> list_all is_hex (take 8 s) \<and> s ! 8 = CHR ''-'' \<and> list_all is_hex (take 4 (drop 9 s)) \<and> s ! 13 = CHR ''-'' \<and>
     char_in 49 53 (s ! 14) \<and> list_all is_hex (take 3 (drop 15 s)) \<and> s ! 18 = CHR ''-'' \<and>
     s ! 19 \<in> set ''89abAB'' \<and> list_all is_hex (take 3 (drop 20 s)) \<and> s ! 23 = CHR ''-'' \<and> list_all is_hex (drop 24 s)"

definition hexRegex :: "string \<Rightarrow> bool" where
  "hexRegex s \<longleftrightarrow> 16 \<le> length s \<and> list_all is_hex s"

definition is_base64 :: "char \<Rightarrow> bool" where
  "is_base64 c \<longleftrightarrow> char_in 65 90 c \<or> char_in 97 122 c \<or> is_digit c \<or> c = CHR ''+'' \<or> c = CHR 0x2F"

text \<open>At least sixteen characters of the alphabet and at most two equals signs after them.\<close>

definition base64Regex :: "string \<Rightarrow> bool" where
  "base64Regex s \<longleftrightarrow>
     (let n = length (takeWhile is_base64 s); rest = dropWhile is_base64 s
      in 16 \<le> n \<and> length rest \<le> 2 \<and> list_all (\<lambda>c. c = CHR 0x3D) rest)"

definition timestampRegex :: "string \<Rightarrow> bool" where
  "timestampRegex s \<longleftrightarrow> length s = 13 \<and> list_all is_digit s"

section \<open>The checks\<close>

text \<open>\<^verbatim>\<open>containsNonAlpha\<close> and its relatives go over the runes of the text.\<close>

definition containsNonAlpha :: "unicode \<Rightarrow> string \<Rightarrow> bool" where
  "containsNonAlpha U s \<longleftrightarrow> list_ex (\<lambda>r. \<not> IsLetter U r) (runes s)"

definition isBase64String :: "unicode \<Rightarrow> string \<Rightarrow> bool" where
  "isBase64String U s \<longleftrightarrow> (if \<not> containsNonAlpha U s then False else base64Regex s)"

text \<open>
  The share of letters is compared with 0.7. The quotient of two small integers is rounded like the constant,
  so the comparison is exact.
\<close>

definition isMostlyLetters :: "unicode \<Rightarrow> string \<Rightarrow> bool" where
  "isMostlyLetters U s \<longleftrightarrow> 10 * length (filter (IsLetter U) (runes s)) > 7 * length s"

definition isAlphaLower :: "unicode \<Rightarrow> string \<Rightarrow> bool" where
  "isAlphaLower U s \<longleftrightarrow> list_all (\<lambda>r. \<not> (\<not> IsLower U r \<and> \<not> IsLetter U r)) (runes s)"

definition isULID :: "string \<Rightarrow> bool" where
  "isULID s \<longleftrightarrow> length s = 26 \<and>
     list_all (\<lambda>r. (65 \<le> r \<and> r \<le> 90 \<or> 48 \<le> r \<and> r \<le> 57) \<and> r \<noteq> 73 \<and> r \<noteq> 76 \<and> r \<noteq> 79 \<and> r \<noteq> 85) (runes s)"

definition isRandomSegment :: "unicode \<Rightarrow> string \<Rightarrow> bool" where
  "isRandomSegment U segment \<longleftrightarrow>
     (if length segment > MaxKeyLength then True
      else if uuidRegex segment then True
      else if hexRegex segment then True
      else if isBase64String U segment then True
      else if timestampRegex segment then True
      else isULID segment)"

text \<open>The loop over the bytes, with the segment read so far; the end of the key ends a segment.\<close>

fun segment_loop :: "unicode \<Rightarrow> string \<Rightarrow> string \<Rightarrow> bool" where
  "segment_loop U seg [] = (seg \<noteq> [] \<and> isRandomSegment U seg)"
| "segment_loop U seg (c # cs) =
     (if c = CHR ''.'' then (if seg = [] then segment_loop U [] cs
                            else if isRandomSegment U seg then True else segment_loop U [] cs)
      else segment_loop U (seg @ [c]) cs)"

definition processKeySegments :: "unicode \<Rightarrow> string \<Rightarrow> bool" where
  "processKeySegments U key = segment_loop U [] key"

definition contains_any :: "string \<Rightarrow> string \<Rightarrow> bool" where
  "contains_any s chars \<longleftrightarrow> list_ex (\<lambda>c. c \<in> set chars) s"

definition IsRandomKey :: "unicode \<Rightarrow> string \<Rightarrow> bool" where
  "IsRandomKey U key \<longleftrightarrow>
     (if length key > MaxKeyLength then True
      else if length key \<le> ShortKeyLength \<and> isAlphaLower U key then False
      else if length key \<le> MediumKeyLength \<and> contains_any key ''_-'' \<and> isMostlyLetters U key then False
      else processKeySegments U key)"

section \<open>Cardinal keys\<close>

definition JSONKeyAllowedSymbols :: "nat list" where "JSONKeyAllowedSymbols = [95, 46, 58, 64, 45]"

definition BacktickRequiredSymbols :: string where "BacktickRequiredSymbols = '':@-''"

definition containsDigits :: "string \<Rightarrow> bool" where
  "containsDigits s \<longleftrightarrow> list_ex (\<lambda>r. 48 \<le> r \<and> r \<le> 57) (runes s)"

definition hasNonAllowedSymbols :: "string \<Rightarrow> bool" where
  "hasNonAllowedSymbols s \<longleftrightarrow>
     list_ex (\<lambda>r. \<not> (97 \<le> r \<and> r \<le> 122 \<or> 65 \<le> r \<and> r \<le> 90 \<or> 48 \<le> r \<and> r \<le> 57) \<and> r \<notin> set JSONKeyAllowedSymbols) (runes s)"

definition IsCardinal :: "unicode \<Rightarrow> string \<Rightarrow> bool" where
  "IsCardinal U key \<longleftrightarrow>
     (if containsDigits key then True else if hasNonAllowedSymbols key then True else processKeySegments U key)"

definition IsBacktickRequired :: "string \<Rightarrow> bool" where
  "IsBacktickRequired key \<longleftrightarrow> contains_any key BacktickRequiredSymbols"

definition CleanBackticks :: "string \<Rightarrow> string" where
  "CleanBackticks key = filter (\<lambda>c. c \<noteq> CHR 0x60) key"

section \<open>Segments\<close>

text \<open>The reference: the parts of the key between its dots.\<close>

fun split_dots :: "string \<Rightarrow> string list" where
  "split_dots [] = [[]]"
| "split_dots (c # cs) =
     (if c = CHR ''.'' then [] # split_dots cs
      else (case split_dots cs of [] \<Rightarrow> [[c]] | s # ss \<Rightarrow> (c # s) # ss))"

lemma split_dots_nonempty: "split_dots cs \<noteq> []"
  by (cases cs) (auto split: list.split)

lemma segment_loop_split:
  "segment_loop U seg cs \<longleftrightarrow>
     (\<exists>s \<in> set ((seg @ hd (split_dots cs)) # tl (split_dots cs)). s \<noteq> [] \<and> isRandomSegment U s)"
proof (induction cs arbitrary: seg)
  case (Cons c cs)
  obtain s ss where s: "split_dots cs = s # ss" using split_dots_nonempty [of cs] by (cases "split_dots cs") auto
  show ?case using Cons.IH [of "[]"] Cons.IH [of "seg @ [c]"] by (auto simp: s)
qed simp

text \<open>A key is found random by its segments exactly when a part between its dots is not empty and looks random.\<close>

theorem segments_are_checked:
  "processKeySegments U key \<longleftrightarrow> (\<exists>s \<in> set (split_dots key). s \<noteq> [] \<and> isRandomSegment U s)"
  using split_dots_nonempty [of key] segment_loop_split [of U "[]" key]
  by (cases "split_dots key") (simp_all add: processKeySegments_def)

text \<open>The check documented to accept only lowercase letters accepts capitals, being letters.\<close>

lemma alpha_lower_accepts_capitals:
  assumes "\<And>r. 65 \<le> r \<and> r \<le> 90 \<Longrightarrow> IsLetter U r"
  shows "isAlphaLower U ''ABC''" and "\<not> IsRandomKey U ''ABC''"
proof -
  have r: "runes ''ABC'' = [65, 66, 67]" by (subst runes_ascii) simp_all
  show "isAlphaLower U ''ABC''" using assms by (simp add: isAlphaLower_def r)
  then show "\<not> IsRandomKey U ''ABC''" by (simp add: IsRandomKey_def MaxKeyLength_def ShortKeyLength_def)
qed

text \<open>A short key with a hyphen and enough letters is kept although a part of it is a generated identifier.\<close>

lemma whole_key_first:
  "length key \<le> MediumKeyLength \<Longrightarrow> contains_any key ''_-'' \<Longrightarrow> isMostlyLetters U key \<Longrightarrow> \<not> IsRandomKey U key"
  by (simp add: IsRandomKey_def MediumKeyLength_def MaxKeyLength_def)

end
