(* ===== verification/LogsExporter.thy ===== *)
theory LogsExporter
  imports TracesExporter KeyCheck
begin

text \<open>
  The exporter of logs to ClickHouse (\<^verbatim>\<open>exporter/clickhouselogsexporter\<close>). Producers prepare records and
  a consumer appends them: here each producer and each record consumed is one step, in an order that is
  given; \<open>LogsPipeline\<close> models how they interleave. The generator of identifiers is taken not to fail: it
  only does when the system has no randomness. The clock is read once for a push.
\<close>

section \<open>Records\<close>

record attribute_map =
  am_StringData :: "(string \<times> string) list"
  am_NumberData :: "(string \<times> f64) list"
  am_BoolData :: "(string \<times> bool) list"

record lx_record =
  rec_tsBucketStart :: u64
  rec_resourceFP :: string
  rec_ts :: u64
  rec_ots :: u64
  rec_id :: string
  rec_traceID :: string
  rec_spanID :: string
  rec_traceFlags :: u32
  rec_severityText :: string
  rec_severityNum :: u8
  rec_body :: string
  rec_scopeName :: string
  rec_scopeVersion :: string
  rec_resourceMap :: attribute_map
  rec_scopeMap :: attribute_map
  rec_attrsMap :: attribute_map
  rec_logFields :: attribute_map
  rec_recordSize :: nat

record otlp_scope_logs =
  ol_name :: string
  ol_version :: string
  ol_attrs :: vmap
  ol_records :: "log_record list"

record otlp_resource_logs =
  orl_resource :: vmap
  orl_scopes :: "otlp_scope_logs list"

type_synonym otlp_logs = "otlp_resource_logs list"

text \<open>The environment of the meter, \<^verbatim>\<open>%s\<close> of a value and the tables of Unicode.\<close>

record lx_env = meter_env +
  lx_sprints :: "any \<Rightarrow> string"
  lx_unicode :: unicode

definition empty_attribute_map :: attribute_map where
  "empty_attribute_map = \<lparr>am_StringData = [], am_NumberData = [], am_BoolData = []\<rparr>"

definition map_attribute :: "'e meter_env_scheme \<Rightarrow> bool \<Rightarrow> string \<times> any \<Rightarrow> attribute_map \<Rightarrow> attribute_map" where
  "map_attribute E forceStringValues = (\<lambda>(k, v) response.
     (if forceStringValues then response\<lparr>am_StringData := AList.update k (asString E v) (am_StringData response)\<rparr>
      else (case v of
              VInt _ i \<Rightarrow> response\<lparr>am_NumberData := AList.update k (floatOfInt E i) (am_NumberData response)\<rparr>
            | VFloat f \<Rightarrow> response\<lparr>am_NumberData := AList.update k f (am_NumberData response)\<rparr>
            | VBool b \<Rightarrow> response\<lparr>am_BoolData := AList.update k b (am_BoolData response)\<rparr>
            | _ \<Rightarrow> response\<lparr>am_StringData := AList.update k (asString E v) (am_StringData response)\<rparr>)))"

definition attributesToMap :: "'e meter_env_scheme \<Rightarrow> bool \<Rightarrow> vmap \<Rightarrow> attribute_map" where
  "attributesToMap E forceStringValues attributes = fold (map_attribute E forceStringValues) attributes empty_attribute_map"

definition getResourceAttributesByte :: "'e meter_env_scheme \<Rightarrow> vmap \<Rightarrow> string option" where
  "getResourceAttributesByte E resource =
     marshalAnyMap E (filter (\<lambda>kv. \<not> ExcludeSigNozWorkspaceResourceAttrs (fst kv)) resource)"

definition getStringifiedBody :: "'e meter_env_scheme \<Rightarrow> any \<Rightarrow> string" where
  "getStringifiedBody E body = (case body of VBytes bs \<Rightarrow> bs | _ \<Rightarrow> asString E body)"

section \<open>Producers\<close>

text \<open>A record with what the loops around it have computed: one job of a producer.\<close>

record job =
  jb_resource :: vmap
  jb_resBytes :: nat
  jb_resourcesMap :: attribute_map
  jb_resourceJson :: string
  jb_scopeName :: string
  jb_scopeVersion :: string
  jb_scopeMap :: attribute_map
  jb_record :: log_record

definition resource_jobs :: "'e meter_env_scheme \<Rightarrow> otlp_resource_logs \<Rightarrow> job list \<Rightarrow> string + job list" where
  "resource_jobs E logs jobs =
     (let resourcesMap = attributesToMap E True (orl_resource logs)
      in case marshalStrMap E (am_StringData resourcesMap) of
           None \<Rightarrow> Inl ''couldn't serialize log resource JSON''
         | Some resourceJson \<Rightarrow>
             Inr (jobs @ concat (map (\<lambda>sl. map (\<lambda>r.
               \<lparr>jb_resource = orl_resource logs, jb_resBytes = json_size (getResourceAttributesByte E (orl_resource logs)),
                jb_resourcesMap = resourcesMap, jb_resourceJson = resourceJson, jb_scopeName = ol_name sl,
                jb_scopeVersion = ol_version sl, jb_scopeMap = attributesToMap E True (ol_attrs sl), jb_record = r\<rparr>)
               (ol_records sl)) (orl_scopes logs))))"

text \<open>
  The map of resources seen: the fingerprint of a resource in a bucket is computed once, by the first
  producer that stores it.
\<close>

definition getOrCreateFingerprint :: "int \<Rightarrow> string \<Rightarrow> string \<Rightarrow> resources_seen \<Rightarrow> string \<times> resources_seen" where
  "getOrCreateFingerprint bucket resourceJSON created seen =
     (let seen = (if map_of seen bucket = None then AList.update bucket [] seen else seen);
          innerMap = the (map_of seen bucket)
      in case map_of innerMap resourceJSON of
           Some fp \<Rightarrow> (fp, seen)
         | None \<Rightarrow> (created, AList.update bucket (AList.update resourceJSON created innerMap) seen))"

definition logsResourceCacheSeconds :: int where
  "logsResourceCacheSeconds = 1800"

text \<open>The times of a record: a missing observed time is now, a missing time is the observed one.\<close>

definition record_times :: "u64 \<Rightarrow> log_record \<Rightarrow> u64 \<times> u64" where
  "record_times now r =
     (let ots = (if lr_observed r = 0 then now else lr_observed r);
          ts = (if lr_timestamp r = 0 then ots else lr_timestamp r)
      in (ts, ots))"

text \<open>A producer: no record when it is too old; \<open>id\<close> is the fresh identifier.\<close>

definition produce :: "'e lx_env_scheme \<Rightarrow> u64 \<Rightarrow> u64 \<Rightarrow> string \<times> job \<Rightarrow> resources_seen \<Rightarrow> lx_record option \<times> resources_seen" where
  "produce E oldestAllowedTs now = (\<lambda>(id, j) seen.
     (let r = jb_record j; (ts, ots) = record_times now r
      in if ts < oldestAllowedTs then (None, seen)
         else (let lBucketStart = tsBucket (uint (ts div 1000000000)) logsResourceCacheSeconds;
                   (fp, seen) = getOrCreateFingerprint lBucketStart (jb_resourceJson j)
                     (CalculateFingerprint (sprintv E) (lx_sprints E) (jb_resource j) ResourceHierarchy) seen
               in (Some
                    \<lparr>rec_tsBucketStart = word_of_int lBucketStart, rec_resourceFP = fp, rec_ts = ts, rec_ots = ots, rec_id = id,
                     rec_traceID = TraceIDToHexOrEmptyString (lr_traceID r), rec_spanID = SpanIDToHexOrEmptyString (lr_spanID r),
                     rec_traceFlags = lr_flags r, rec_severityText = lr_severityText r,
                     rec_severityNum = ucast (lr_severityNumber r), rec_body = getStringifiedBody E (lr_body r),
                     rec_scopeName = jb_scopeName j, rec_scopeVersion = jb_scopeVersion j,
                     rec_resourceMap = jb_resourcesMap j, rec_scopeMap = jb_scopeMap j,
                     rec_attrsMap = attributesToMap E False (lr_attributes r),
                     rec_logFields = \<lparr>am_StringData = [(''severity_text'', lr_severityText r)],
                       am_NumberData = [(''severity_number'', floatOfInt E (scast (lr_severityNumber r)))], am_BoolData = []\<rparr>,
                     rec_recordSize = length (asString E (lr_body r)) + json_size (marshalAnyMap E (lr_attributes r)) + jb_resBytes j\<rparr>,
                   seen))))"

fun produce_all :: "'e lx_env_scheme \<Rightarrow> u64 \<Rightarrow> u64 \<Rightarrow> (string \<times> job) list \<Rightarrow> resources_seen \<Rightarrow> lx_record list \<times> resources_seen" where
  "produce_all E oldest now [] seen = ([], seen)"
| "produce_all E oldest now (j # js) seen =
     (case produce E oldest now j seen of
        (None, seen) \<Rightarrow> produce_all E oldest now js seen
      | (Some r, seen) \<Rightarrow> (let (rs, seen) = produce_all E oldest now js seen in (r # rs, seen)))"

section \<open>The consumer\<close>

record log_row =
  lg_ts_bucket_start :: u64
  lg_resource_fingerprint :: string
  lg_timestamp :: u64
  lg_observed_timestamp :: u64
  lg_id :: string
  lg_trace_id :: string
  lg_span_id :: string
  lg_trace_flags :: u32
  lg_severity_text :: string
  lg_severity_number :: u8
  lg_body :: string
  lg_attributes_string :: "(string \<times> string) list"
  lg_attributes_number :: "(string \<times> f64) list"
  lg_attributes_bool :: "(string \<times> bool) list"
  lg_resources_string :: "(string \<times> string) list"
  lg_resource :: "(string \<times> string) list"
  lg_scope_name :: string
  lg_scope_version :: string
  lg_scope_string :: "(string \<times> string) list"

definition log_row :: "lx_record \<Rightarrow> log_row" where
  "log_row r =
     \<lparr>lg_ts_bucket_start = rec_tsBucketStart r, lg_resource_fingerprint = rec_resourceFP r, lg_timestamp = rec_ts r,
      lg_observed_timestamp = rec_ots r, lg_id = rec_id r, lg_trace_id = rec_traceID r, lg_span_id = rec_spanID r,
      lg_trace_flags = rec_traceFlags r, lg_severity_text = rec_severityText r, lg_severity_number = rec_severityNum r,
      lg_body = rec_body r, lg_attributes_string = am_StringData (rec_attrsMap r),
      lg_attributes_number = am_NumberData (rec_attrsMap r), lg_attributes_bool = am_BoolData (rec_attrsMap r),
      lg_resources_string = am_StringData (rec_resourceMap r), lg_resource = am_StringData (rec_resourceMap r),
      lg_scope_name = rec_scopeName r, lg_scope_version = rec_scopeVersion r,
      lg_scope_string = am_StringData (rec_scopeMap r)\<rparr>"

text \<open>A row of the tables of attribute keys and of resource keys: name and type.\<close>

type_synonym log_key_row = "string \<times> string"

record lx_driver =
  ld_logs :: "log_row table_driver"
  ld_resources :: "resource_row table_driver"
  ld_attributeKeys :: "log_key_row table_driver"
  ld_resourceKeys :: "log_key_row table_driver"
  ld_tags :: "value_row table_driver"
  ld_order :: "resource_row list \<Rightarrow> resource_row list"
  ld_errors :: "string option list \<Rightarrow> string option list"

text \<open>What the consumer has appended, the cache of keys and the usage counted so far.\<close>

record consumer =
  cs_keysCache :: "string set"
  cs_attributeKeys :: "log_key_row list"
  cs_resourceKeys :: "log_key_row list"
  cs_tags :: "value_row list"
  cs_logs :: "log_row list"
  cs_metrics :: "(string \<times> usage_metric) list"

definition append_ignoring :: "'row table_driver \<Rightarrow> 'row \<Rightarrow> 'row list \<Rightarrow> 'row list" where
  "append_ignoring d row rows = (if appendErr d row = None then rows @ [row] else rows)"

definition addAttrsToAttributeKeysStatement ::
  "'e lx_env_scheme \<Rightarrow> lx_driver \<Rightarrow> string \<Rightarrow> string \<Rightarrow> string \<Rightarrow> consumer \<Rightarrow> consumer" where
  "addAttrsToAttributeKeysStatement E d key tagType datatype c =
     (if IsRandomKey (lx_unicode E) key then c
      else (let cacheKey = MakeKeyForAttributeKeys key tagType datatype
            in if cacheKey \<in> cs_keysCache c then c
               else (let c = (if tagType = ''resource''
                              then c\<lparr>cs_resourceKeys := append_ignoring (ld_resourceKeys d) (key, datatype) (cs_resourceKeys c)\<rparr>
                              else if tagType = ''tag''
                              then c\<lparr>cs_attributeKeys := append_ignoring (ld_attributeKeys d) (key, datatype) (cs_attributeKeys c)\<rparr>
                              else c)
                     in c\<lparr>cs_keysCache := insert cacheKey (cs_keysCache c)\<rparr>)))"

text \<open>One attribute of a type: its key, then its value unless it is long (\<open>long\<close>) or its key is skipped.\<close>

definition add_tag_value ::
  "'e lx_env_scheme \<Rightarrow> lx_driver \<Rightarrow> (string \<times> should_skip_key) list \<Rightarrow> int \<Rightarrow> string \<Rightarrow> string \<Rightarrow> bool \<Rightarrow> string \<Rightarrow>
     string option \<Rightarrow> f64 option \<Rightarrow> consumer \<Rightarrow> (string \<times> consumer) + consumer" where
  "add_tag_value E d shouldSkipKeys unixMilli tagType datatype long key str num c =
     (if IsRandomKey (lx_unicode E) key then Inr c
      else (let c = addAttrsToAttributeKeysStatement E d key tagType datatype c
            in if long then Inr c
               else if map_of shouldSkipKeys (MakeKeyForAttributeKeys key tagType datatype) \<noteq> None then Inr c
               else (let row = \<lparr>vr_unix_milli = unixMilli, vr_tag_key = key, vr_tag_type = tagType, vr_tag_data_type = datatype,
                               vr_string_value = str, vr_number_value = num\<rparr>
                     in case appendErr (ld_tags d) row of
                          Some e \<Rightarrow> Inl (e, c)
                        | None \<Rightarrow> Inr (c\<lparr>cs_tags := cs_tags c @ [row]\<rparr>))))"

definition addAttrsToTagStatement ::
  "'e lx_env_scheme \<Rightarrow> lx_driver \<Rightarrow> (string \<times> should_skip_key) list \<Rightarrow> int \<Rightarrow> string \<Rightarrow> attribute_map \<Rightarrow> consumer \<Rightarrow>
     (string \<times> consumer) + consumer" where
  "addAttrsToTagStatement E d shouldSkipKeys nowMilli tagType attrs c =
     (let unixMilli = go_quot nowMilli 3600000 * 3600000;
          add = add_tag_value E d shouldSkipKeys unixMilli tagType
      in case fold_result (\<lambda>(k, v). add ''string'' (length v > MaxAttributeValueLength) k (Some v) None) (am_StringData attrs) c of
           Inl e \<Rightarrow> Inl e
         | Inr c \<Rightarrow>
             (case fold_result (\<lambda>(k, v). add ''float64'' False k None (Some v)) (am_NumberData attrs) c of
                Inl e \<Rightarrow> Inl e
              | Inr c \<Rightarrow> fold_result (\<lambda>(k, v). add ''bool'' False k None None) (am_BoolData attrs) c))"

text \<open>
  The consumer at one record: the tags of the resource, the scope, the attributes and the fields of the log
  (whose error is ignored), then the row, then the usage. An error carries the state: the cache outlives it.
\<close>

definition consume ::
  "'e lx_env_scheme \<Rightarrow> lx_driver \<Rightarrow> (string \<times> should_skip_key) list \<Rightarrow> int \<Rightarrow> lx_record \<Rightarrow> consumer \<Rightarrow>
     (string \<times> consumer) + consumer" where
  "consume E d skip nowMilli r c =
     (case addAttrsToTagStatement E d skip nowMilli ''resource'' (rec_resourceMap r) c of Inl e \<Rightarrow> Inl e | Inr c \<Rightarrow>
     (case addAttrsToTagStatement E d skip nowMilli ''scope'' (rec_scopeMap r) c of Inl e \<Rightarrow> Inl e | Inr c \<Rightarrow>
     (case addAttrsToTagStatement E d skip nowMilli ''tag'' (rec_attrsMap r) c of Inl e \<Rightarrow> Inl e | Inr c \<Rightarrow>
       (let c = (case addAttrsToTagStatement E d skip nowMilli ''logfield'' (rec_logFields r) c of Inl (_, c) \<Rightarrow> c | Inr c \<Rightarrow> c)
        in case appendErr (ld_logs d) (log_row r) of
             Some e \<Rightarrow> Inl (e, c)
           | None \<Rightarrow> Inr (c\<lparr>cs_logs := cs_logs c @ [log_row r],
               cs_metrics := AddMetric (cs_metrics c) GetTenantNameFromResource 1 (of_nat (rec_recordSize r))\<rparr>)))))"

section \<open>A push\<close>

text \<open>The loop over the resources seen: a row whose append fails is not cached, and ends the loop.\<close>

fun log_resource_loop ::
  "(resource_row \<Rightarrow> string option) \<Rightarrow> resource_row list \<Rightarrow> string set \<Rightarrow> resource_row list \<Rightarrow>
     string option \<times> string set \<times> resource_row list" where
  "log_resource_loop err [] cache rows = (None, cache, rows)"
| "log_resource_loop err (r # rs) cache rows =
     (if resource_key r \<in> cache then log_resource_loop err rs cache rows
      else (case err r of
              Some e \<Rightarrow> (Some e, cache, rows)
            | None \<Rightarrow> log_resource_loop err rs (insert (resource_key r) cache) (rows @ [r])))"

interpretation log_resource_cache: write_once "\<lambda>rs cache rows. snd (log_resource_loop (\<lambda>r. None) rs cache rows)" resource_key "\<lambda>r. [r]"
  by unfold_locales auto

text \<open>The two caches, the keys to skip, the five tables and the measures of usage.\<close>

record lx_state =
  lx_keysCache :: "string set"
  lx_rfCache :: "string set"
  lx_shouldSkipKeys :: "(string \<times> should_skip_key) list"
  lt_logs :: "log_row list"
  lt_resources :: "resource_row list"
  lt_attributeKeys :: "log_key_row list"
  lt_resourceKeys :: "log_key_row list"
  lt_tags :: "value_row list"
  lx_recorded :: "(string \<times> usage_metric) list"
  lx_closed :: bool

definition newLogsExporter :: lx_state where
  "newLogsExporter = \<lparr>lx_keysCache = {}, lx_rfCache = {}, lx_shouldSkipKeys = [], lt_logs = [], lt_resources = [],
     lt_attributeKeys = [], lt_resourceKeys = [], lt_tags = [], lx_recorded = [], lx_closed = False\<rparr>"

definition sent :: "'row table_driver \<Rightarrow> 'row list \<Rightarrow> 'row list" where
  "sent d rows = (if sendErr d = None then rows else [])"

definition first_error :: "string option list \<Rightarrow> string option" where
  "first_error es = (case filter (\<lambda>e. e \<noteq> None) es of [] \<Rightarrow> None | e # _ \<Rightarrow> e)"

text \<open>
  The five statements are sent in parallel; the errors arrive in an order of their own (\<open>ld_errors\<close>) and the
  first is returned. Usage is recorded when all were sent.
\<close>

definition send_all :: "lx_driver \<Rightarrow> consumer \<Rightarrow> resource_row list \<Rightarrow> lx_state \<Rightarrow> string option \<times> lx_state" where
  "send_all d c resources st =
     (let st = st\<lparr>lt_logs := lt_logs st @ sent (ld_logs d) (cs_logs c),
                  lt_resources := lt_resources st @ sent (ld_resources d) resources,
                  lt_attributeKeys := lt_attributeKeys st @ sent (ld_attributeKeys d) (cs_attributeKeys c),
                  lt_resourceKeys := lt_resourceKeys st @ sent (ld_resourceKeys d) (cs_resourceKeys c),
                  lt_tags := lt_tags st @ sent (ld_tags d) (cs_tags c)\<rparr>
      in case first_error (ld_errors d [sendErr (ld_logs d), sendErr (ld_resources d), sendErr (ld_attributeKeys d),
                sendErr (ld_resourceKeys d), sendErr (ld_tags d)]) of
           Some e \<Rightarrow> (Some e, st)
         | None \<Rightarrow> (None, st\<lparr>lx_recorded := lx_recorded st @ cs_metrics c\<rparr>))"

text \<open>
  What an attempt fixes beside the answers of the driver: the clock, the identifiers, the order of the producers
  at the map of resources (with the identifier of each) and the order of the records at the consumer.
\<close>

record attempt =
  at_driver :: lx_driver
  at_now :: int
  at_producers :: "job list \<Rightarrow> (string \<times> job) list"
  at_arrivals :: "lx_record list \<Rightarrow> lx_record list"

definition prepare_error :: "lx_driver \<Rightarrow> string option" where
  "prepare_error d = first_error [prepareErr (ld_tags d), prepareErr (ld_attributeKeys d), prepareErr (ld_resourceKeys d), prepareErr (ld_logs d)]"

text \<open>
  When the attributes of a resource cannot be written the push returns at once; its producers and its consumer were
  already at work on the records of the resources before, and what has arrived by then has left its keys in the cache.
\<close>

fun jobs_until :: "'e meter_env_scheme \<Rightarrow> otlp_logs \<Rightarrow> job list \<Rightarrow> job list" where
  "jobs_until E [] jobs = jobs"
| "jobs_until E (logs # ld) jobs = (case resource_jobs E logs jobs of Inl _ \<Rightarrow> jobs | Inr jobs' \<Rightarrow> jobs_until E ld jobs')"

definition pushToClickhouse :: "'e lx_env_scheme \<Rightarrow> nat \<Rightarrow> attempt \<Rightarrow> otlp_logs \<Rightarrow> lx_state \<Rightarrow> string option \<times> lx_state" where
  "pushToClickhouse E maxAllowedDataAgeDays a ld st =
     (let d = at_driver a;
          oldestAllowedTs = oldest_allowed (at_now a) maxAllowedDataAgeDays
      in if lx_closed st then (Some ''shutdown has been called'', st)
      else case prepare_error d of
        Some e \<Rightarrow> (Some e, st)
      | None \<Rightarrow>
     (let consumed = (\<lambda>recs. fold_result (consume E d (lx_shouldSkipKeys st) (go_quot (at_now a) 1000000)) (at_arrivals a recs)
               \<lparr>cs_keysCache = lx_keysCache st, cs_attributeKeys = [], cs_resourceKeys = [], cs_tags = [], cs_logs = [], cs_metrics = []\<rparr>)
      in case fold_result (resource_jobs E) ld [] of
        Inl e \<Rightarrow>
          let (recs, _) = produce_all E oldestAllowedTs (word_of_int (at_now a)) (at_producers a (jobs_until E ld [])) []
          in (Some e, st\<lparr>lx_keysCache := cs_keysCache (case consumed recs of Inl (_, c) \<Rightarrow> c | Inr c \<Rightarrow> c)\<rparr>)
      | Inr jobs \<Rightarrow>
     (let (recs, resourcesSeen) = produce_all E oldestAllowedTs (word_of_int (at_now a)) (at_producers a jobs) []
      in case consumed recs of
           Inl (e, c) \<Rightarrow> (Some e, st\<lparr>lx_keysCache := cs_keysCache c\<rparr>)
         | Inr c \<Rightarrow>
     (let st = st\<lparr>lx_keysCache := cs_keysCache c\<rparr>
      in case prepareErr (ld_resources d) of
           Some e \<Rightarrow> (Some e, st)
         | None \<Rightarrow>
     (case log_resource_loop (appendErr (ld_resources d)) (ld_order d (resource_rows resourcesSeen)) (lx_rfCache st) [] of
        (Some e, cache, _) \<Rightarrow> (Some e, st\<lparr>lx_rfCache := cache\<rparr>)
      | (None, cache, rows) \<Rightarrow> send_all d c rows (st\<lparr>lx_rfCache := cache\<rparr>))))))"

text \<open>A batch that touches too many partitions is dropped without an error.\<close>

fun contains :: "string \<Rightarrow> string \<Rightarrow> bool" where
  "contains sub [] = (sub = [])"
| "contains sub (c # cs) = (has_prefix sub (c # cs) \<or> contains sub cs)"

definition pushLogsData :: "'e lx_env_scheme \<Rightarrow> nat \<Rightarrow> attempt \<Rightarrow> otlp_logs \<Rightarrow> lx_state \<Rightarrow> string option \<times> lx_state" where
  "pushLogsData E days a ld st =
     (case pushToClickhouse E days a ld st of
        (None, st) \<Rightarrow> (None, st)
      | (Some e, st) \<Rightarrow> if contains ''code: 252'' e then (None, st) else (Some e, st))"

definition lx_doFetchShouldSkipKeys :: "should_skip_key list \<Rightarrow> lx_state \<Rightarrow> lx_state" where
  "lx_doFetchShouldSkipKeys keys st =
     st\<lparr>lx_shouldSkipKeys :=
       fold (\<lambda>key. AList.update (MakeKeyForAttributeKeys (TagKey key) (TagType key) (TagDataType key)) key) keys []\<rparr>"

definition lx_Shutdown :: "lx_state \<Rightarrow> lx_state" where
  "lx_Shutdown st = st\<lparr>lx_closed := True\<rparr>"

definition lx_expire :: "string \<Rightarrow> lx_state \<Rightarrow> lx_state" where
  "lx_expire key st = st\<lparr>lx_keysCache := lx_keysCache st - {key}, lx_rfCache := lx_rfCache st - {key}\<rparr>"

datatype lx_event = LxPush attempt otlp_logs | LxFetch "should_skip_key list" | LxExpire string | LxShutdown

fun lx_run :: "'e lx_env_scheme \<Rightarrow> nat \<Rightarrow> lx_event list \<Rightarrow> lx_state \<Rightarrow> lx_state" where
  "lx_run E days [] st = st"
| "lx_run E days (LxPush a ld # evs) st = lx_run E days evs (snd (pushLogsData E days a ld st))"
| "lx_run E days (LxFetch keys # evs) st = lx_run E days evs (lx_doFetchShouldSkipKeys keys st)"
| "lx_run E days (LxExpire key # evs) st = lx_run E days evs (lx_expire key st)"
| "lx_run E days (LxShutdown # evs) st = lx_run E days evs (lx_Shutdown st)"

end
