(* ===== verification/LogsPipeline.thy ===== *)
theory LogsPipeline
  imports Prelude "HOL-Library.Multiset"
begin

text \<open>
  How the goroutines of a push of logs interleave (\<^verbatim>\<open>pushToClickhouse\<close> in
  \<^verbatim>\<open>exporter/clickhouselogsexporter/exporter.go\<close>): the loop starts one producer per record, at most as many at
  a time as the limiter has slots; a producer sends its record, if it has one, into a channel with as many
  places; one consumer receives. The consumer stops at an error, at the end of the channel, or when the group
  is cancelled; the group is waited for.
\<close>

section \<open>Steps\<close>

datatype consumer_status = Running | Finished | Failed

text \<open>
  Records not yet started, producers that hold a slot, the channel, what the consumer appended, the consumer,
  whether the context of the group is cancelled and whether the channel is closed.
\<close>

record 'r pipeline =
  pl_todo :: "'r list"
  pl_producing :: "'r list"
  pl_stream :: "'r list"
  pl_appended :: "'r list"
  pl_status :: consumer_status
  pl_cancelled :: bool
  pl_closed :: bool

definition start_push :: "'r list \<Rightarrow> 'r pipeline" where
  "start_push rs = \<lparr>pl_todo = rs, pl_producing = [], pl_stream = [], pl_appended = [], pl_status = Running, pl_cancelled = False, pl_closed = False\<rparr>"

text \<open>
  \<open>timeouts\<close> tells whether the context of the push may end, \<open>n\<close> is the number of slots, \<open>keep\<close> tells the records inside the window, \<open>ok\<close> those that the consumer can
  append. The loop's \<^verbatim>\<open>select\<close> may take a free slot or, when the group is cancelled, leave the loop; the
  producer's send has no alternative.
\<close>

inductive pipeline_step :: "bool \<Rightarrow> nat \<Rightarrow> ('r \<Rightarrow> bool) \<Rightarrow> ('r \<Rightarrow> bool) \<Rightarrow> 'r pipeline \<Rightarrow> 'r pipeline \<Rightarrow> bool"
  for timeouts :: bool and n :: nat and keep ok :: "'r \<Rightarrow> bool"
where
  spawn: "pl_todo s = r # rs \<Longrightarrow> length (pl_producing s) < n \<Longrightarrow>
    pipeline_step timeouts n keep ok s (s\<lparr>pl_todo := rs, pl_producing := pl_producing s @ [r]\<rparr>)"
| leave: "pl_cancelled s \<Longrightarrow> pl_todo s \<noteq> [] \<Longrightarrow> pipeline_step timeouts n keep ok s (s\<lparr>pl_todo := []\<rparr>)"
| skip: "pl_producing s = xs @ r # ys \<Longrightarrow> \<not> keep r \<Longrightarrow> pipeline_step timeouts n keep ok s (s\<lparr>pl_producing := xs @ ys\<rparr>)"
| send: "pl_producing s = xs @ r # ys \<Longrightarrow> keep r \<Longrightarrow> length (pl_stream s) < n \<Longrightarrow>
    pipeline_step timeouts n keep ok s (s\<lparr>pl_producing := xs @ ys, pl_stream := pl_stream s @ [r]\<rparr>)"
| receive: "pl_status s = Running \<Longrightarrow> pl_stream s = r # q \<Longrightarrow> ok r \<Longrightarrow>
    pipeline_step timeouts n keep ok s (s\<lparr>pl_stream := q, pl_appended := pl_appended s @ [r]\<rparr>)"
| fail: "pl_status s = Running \<Longrightarrow> pl_stream s = r # q \<Longrightarrow> \<not> ok r \<Longrightarrow>
    pipeline_step timeouts n keep ok s (s\<lparr>pl_stream := q, pl_status := Failed, pl_cancelled := True\<rparr>)"
| give_up: "pl_status s = Running \<Longrightarrow> pl_cancelled s \<Longrightarrow> pipeline_step timeouts n keep ok s (s\<lparr>pl_status := Finished\<rparr>)"
| timeout: "timeouts \<Longrightarrow> \<not> pl_cancelled s \<Longrightarrow> pipeline_step timeouts n keep ok s (s\<lparr>pl_cancelled := True\<rparr>)"
| close: "pl_todo s = [] \<Longrightarrow> pl_producing s = [] \<Longrightarrow> \<not> pl_closed s \<Longrightarrow> pipeline_step timeouts n keep ok s (s\<lparr>pl_closed := True\<rparr>)"
| finish: "pl_status s = Running \<Longrightarrow> pl_closed s \<Longrightarrow> pl_stream s = [] \<Longrightarrow> pipeline_step timeouts n keep ok s (s\<lparr>pl_status := Finished\<rparr>)"

inductive pipeline_reach :: "bool \<Rightarrow> nat \<Rightarrow> ('r \<Rightarrow> bool) \<Rightarrow> ('r \<Rightarrow> bool) \<Rightarrow> 'r list \<Rightarrow> 'r pipeline \<Rightarrow> bool"
  for timeouts :: bool and n :: nat and keep ok :: "'r \<Rightarrow> bool" and jobs :: "'r list"
where
  start: "pipeline_reach timeouts n keep ok jobs (start_push jobs)"
| step: "pipeline_reach timeouts n keep ok jobs s \<Longrightarrow> pipeline_step timeouts n keep ok s s' \<Longrightarrow> pipeline_reach timeouts n keep ok jobs s'"

text \<open>\<^verbatim>\<open>group.Wait\<close> returns: the loop has ended, no producer is left, the consumer has returned.\<close>

definition wait_returns :: "'r pipeline \<Rightarrow> bool" where
  "wait_returns s \<longleftrightarrow> pl_todo s = [] \<and> pl_producing s = [] \<and> pl_status s \<noteq> Running"

inductive_cases pipeline_stepE: "pipeline_step timeouts n keep ok s s'"

section \<open>Without a failure\<close>

text \<open>Every record is somewhere, once; the consumer appends; nothing is cancelled; the order of closing.\<close>

definition pipeline_inv :: "nat \<Rightarrow> ('r \<Rightarrow> bool) \<Rightarrow> 'r list \<Rightarrow> 'r pipeline \<Rightarrow> bool" where
  "pipeline_inv n keep jobs s \<longleftrightarrow>
     filter_mset keep (mset (pl_todo s) + mset (pl_producing s)) + mset (pl_stream s) + mset (pl_appended s) = filter_mset keep (mset jobs) \<and>
     \<not> pl_cancelled s \<and> pl_status s \<noteq> Failed \<and> (pl_closed s \<longrightarrow> pl_todo s = [] \<and> pl_producing s = []) \<and>
     (pl_status s = Finished \<longrightarrow> pl_closed s \<and> pl_stream s = []) \<and>
     length (pl_producing s) \<le> n \<and> length (pl_stream s) \<le> n"

lemma pipeline_inv_step:
  assumes "pipeline_step False n keep ok s s'" and "pipeline_inv n keep jobs s" and "\<And>r. r \<in># filter_mset keep (mset jobs) \<Longrightarrow> ok r"
  shows "pipeline_inv n keep jobs s'"
  using assms(1)
proof cases
  case (fail r q)
  have "r \<in># filter_mset keep (mset jobs)"
    using assms(2) fail(3) unfolding pipeline_inv_def by (metis list.set_intros(1) set_mset_mset union_iff)
  then show ?thesis using assms(3) fail(4) by blast
qed (use assms(2) in \<open>auto simp: pipeline_inv_def ac_simps\<close>)

lemma pipeline_inv_reach:
  assumes "pipeline_reach False n keep ok jobs s" and "\<And>r. r \<in># filter_mset keep (mset jobs) \<Longrightarrow> ok r"
  shows "pipeline_inv n keep jobs s"
  using assms(1)
proof induction
  case start
  show ?case by (simp add: pipeline_inv_def start_push_def)
next
  case (step s s')
  then show ?case using pipeline_inv_step assms(2) by blast
qed

text \<open>A bound on the steps that are left.\<close>

definition steps_left :: "'r pipeline \<Rightarrow> nat" where
  "steps_left s = 4 * length (pl_todo s) + 3 * length (pl_producing s) + length (pl_stream s) +
     (if pl_closed s then 0 else 1) + (if pl_status s = Running then 1 else 0) + (if pl_cancelled s then 0 else 1)"

lemma steps_decrease:
  assumes "pipeline_step timeouts n keep ok s s'"
  shows "steps_left s' < steps_left s"
  using assms
proof cases
  case leave
  then show ?thesis by (cases "pl_todo s") (simp_all add: steps_left_def)
qed (simp_all add: steps_left_def)

lemma pipeline_progress:
  assumes "pipeline_inv n keep jobs s" and "\<And>r. r \<in># filter_mset keep (mset jobs) \<Longrightarrow> ok r" and "0 < n" and "\<not> wait_returns s"
  shows "\<exists>s'. pipeline_step False n keep ok s s'"
proof (cases "pl_status s")
  case Running
  consider r q where "pl_stream s = r # q" | r rs where "pl_stream s = []" "pl_producing s = r # rs"
    | r rs where "pl_stream s = []" "pl_producing s = []" "pl_todo s = r # rs" | "pl_stream s = []" "pl_producing s = []" "pl_todo s = []"
    by (cases "pl_stream s"; cases "pl_producing s"; cases "pl_todo s") auto
  then show ?thesis
  proof cases
    case 1
    then show ?thesis
      using Running pipeline_step.receive [of s r q ok False n keep] pipeline_step.fail [of s r q ok False n keep] by (cases "ok r") auto
  next
    case 2
    then show ?thesis
      using assms(3) pipeline_step.skip [of s "[]" r rs keep False n ok] pipeline_step.send [of s "[]" r rs keep n False ok] by (cases "keep r") auto
  next
    case 3
    then show ?thesis using assms(3) pipeline_step.spawn [of s r rs n False keep ok] by auto
  next
    case 4
    then show ?thesis
      using Running pipeline_step.close [of s False n keep ok] pipeline_step.finish [of s False n keep ok] by (cases "pl_closed s") auto
  qed
next
  case Finished
  then show ?thesis using assms(1, 4) by (auto simp: pipeline_inv_def wait_returns_def)
next
  case Failed
  then show ?thesis using assms(1) by (simp add: pipeline_inv_def)
qed

text \<open>C19: While the context of the push does not end, the consumer can append every record of the window and the limiter has a
  slot, no interleaving of the goroutines gets stuck, every run is shorter than a
  fixed bound, and when the wait returns each record of the window was appended exactly once. When the context may end, a
  push can get stuck (\<open>timeout_can_hang\<close> below).\<close>

theorem pipeline_delivers:
  assumes "pipeline_reach False n keep ok jobs s" and "\<And>r. r \<in># filter_mset keep (mset jobs) \<Longrightarrow> ok r" and "0 < n"
  shows "(wait_returns s \<longrightarrow> mset (pl_appended s) = filter_mset keep (mset jobs)) \<and>
    (\<not> wait_returns s \<longrightarrow> (\<exists>s'. pipeline_step False n keep ok s s')) \<and>
    (\<forall>s'. pipeline_step False n keep ok s s' \<longrightarrow> steps_left s' < steps_left s)"
proof -
  have inv: "pipeline_inv n keep jobs s" using assms(1, 2) by (rule pipeline_inv_reach)
  have "wait_returns s \<Longrightarrow> mset (pl_appended s) = filter_mset keep (mset jobs)"
    using inv by (cases "pl_status s") (auto simp: pipeline_inv_def wait_returns_def)
  then show ?thesis using pipeline_progress [where ok = ok, OF inv assms(2) assms(3)] steps_decrease [of False n keep ok s] by blast
qed

theorem pipeline_delivers_witness:
  "wait_returns (\<lparr>pl_todo = [], pl_producing = [], pl_stream = [], pl_appended = [1 :: nat], pl_status = Finished, pl_cancelled = False, pl_closed = True\<rparr>) \<and>
    mset [1 :: nat] = filter_mset (\<lambda>r. r \<noteq> 0) (mset [1])"
proof -
  let ?P = "\<lambda>t p q a st c. \<lparr>pl_todo = t, pl_producing = p, pl_stream = q, pl_appended = a, pl_status = st, pl_cancelled = False, pl_closed = c\<rparr> :: nat pipeline"
  let ?step = "pipeline_step False 1 (\<lambda>r. r \<noteq> (0 :: nat)) (\<lambda>r. True)"
  let ?reach = "pipeline_reach False 1 (\<lambda>r. r \<noteq> (0 :: nat)) (\<lambda>r. True) [1]"
  have "?reach (?P [1] [] [] [] Running False)" using pipeline_reach.start by (metis start_push_def)
  moreover have "?step (?P [1] [] [] [] Running False) (?P [] [1] [] [] Running False)"
    using pipeline_step.spawn [of "?P [1] [] [] [] Running False"] by simp
  ultimately have "?reach (?P [] [1] [] [] Running False)" by (rule pipeline_reach.step)
  moreover have "?step (?P [] [1] [] [] Running False) (?P [] [] [1] [] Running False)"
    using pipeline_step.send [of "?P [] [1] [] [] Running False" "[]" 1 "[]"] by simp
  ultimately have "?reach (?P [] [] [1] [] Running False)" by (rule pipeline_reach.step)
  moreover have "?step (?P [] [] [1] [] Running False) (?P [] [] [] [1] Running False)"
    using pipeline_step.receive [of "?P [] [] [1] [] Running False" 1 "[]"] by simp
  ultimately have "?reach (?P [] [] [] [1] Running False)" by (rule pipeline_reach.step)
  moreover have "?step (?P [] [] [] [1] Running False) (?P [] [] [] [1] Running True)"
    using pipeline_step.close [of "?P [] [] [] [1] Running False"] by simp
  ultimately have "?reach (?P [] [] [] [1] Running True)" by (rule pipeline_reach.step)
  moreover have "?step (?P [] [] [] [1] Running True) (?P [] [] [] [1] Finished True)"
    using pipeline_step.finish [of "?P [] [] [] [1] Running True"] by simp
  ultimately have "?reach (?P [] [] [] [1] Finished True)" by (rule pipeline_reach.step)
  then show ?thesis
    using pipeline_delivers [of 1 "\<lambda>r. r \<noteq> 0" "\<lambda>r. True" "[1]" "?P [] [] [] [1] Finished True"] by (simp add: wait_returns_def)
qed

section \<open>With a failure\<close>

lemma reach_trans:
  "pipeline_reach timeouts n keep ok jobs s \<Longrightarrow> (pipeline_step timeouts n keep ok)\<^sup>*\<^sup>* s s' \<Longrightarrow> pipeline_reach timeouts n keep ok jobs s'"
  by (rotate_tac 1, induction rule: rtranclp_induct) (auto intro: pipeline_reach.step)

text \<open>A run that starts producers one after the other and lets each send.\<close>

lemma send_run:
  assumes "pl_todo s = xs @ ys" and "pl_producing s = []" and "length (pl_stream s) + length xs \<le> n" and "list_all keep xs"
  shows "(pipeline_step timeouts n keep ok)\<^sup>*\<^sup>* s (s\<lparr>pl_todo := ys, pl_producing := [], pl_stream := pl_stream s @ xs\<rparr>)"
  using assms
proof (induction xs arbitrary: s)
  case Nil
  then have "s\<lparr>pl_todo := ys, pl_producing := [], pl_stream := pl_stream s @ []\<rparr> = s" by (cases s) simp
  then show ?case by simp
next
  case (Cons x xs)
  let ?s1 = "s\<lparr>pl_todo := xs @ ys, pl_producing := [x]\<rparr>"
    and ?s2 = "s\<lparr>pl_todo := xs @ ys, pl_producing := [], pl_stream := pl_stream s @ [x]\<rparr>"
  have "pipeline_step timeouts n keep ok s ?s1" using pipeline_step.spawn [of s x "xs @ ys" n timeouts keep ok] Cons.prems by simp
  moreover have "pipeline_step timeouts n keep ok ?s1 ?s2"
    using pipeline_step.send [of ?s1 "[]" x "[]" keep n timeouts ok] Cons.prems by simp
  moreover have "(pipeline_step timeouts n keep ok)\<^sup>*\<^sup>* ?s2 (?s2\<lparr>pl_todo := ys, pl_producing := [], pl_stream := pl_stream ?s2 @ xs\<rparr>)"
    by (rule Cons.IH) (use Cons.prems in auto)
  ultimately show ?case by (simp add: converse_rtranclp_into_rtranclp)
qed

text \<open>C18: When the consumer cannot append a record, a push can get stuck for ever: with as many records behind it as the
  channel has places and one more, there is a run after which the consumer has failed, the channel is full, a
  producer is waiting to send, and no goroutine can take a step.\<close>

theorem push_can_hang:
  assumes "0 < n" and "keep bad" and "\<not> ok bad" and "list_all keep rs" and "length rs = n + 1"
  shows "\<exists>s. pipeline_reach timeouts n keep ok (bad # rs) s \<and> \<not> wait_returns s \<and> (\<forall>s'. \<not> pipeline_step timeouts n keep ok s s')"
proof -
  obtain qs x y where rs: "rs = qs @ [x, y]" and n: "length qs = n - 1"
    using assms(1, 5) by (metis (no_types, lifting) Suc_eq_plus1 append_assoc append_Cons append_Nil append_butlast_last_id diff_Suc_1
      length_butlast length_greater_0_conv length_0_conv nat.simps(3) Suc_pred)
  have keeps: "list_all keep (bad # qs)" "keep x" "keep y" using assms(2, 4) by (simp_all add: rs)
  let ?s0 = "start_push (bad # rs)"
  let ?s1 = "?s0\<lparr>pl_todo := [x, y], pl_stream := bad # qs\<rparr>"
  let ?s2 = "?s1\<lparr>pl_stream := qs, pl_status := Failed, pl_cancelled := True\<rparr>"
  let ?s3 = "?s2\<lparr>pl_todo := [y], pl_producing := [x]\<rparr>"
  let ?s4 = "?s3\<lparr>pl_producing := [], pl_stream := qs @ [x]\<rparr>"
  let ?s5 = "?s4\<lparr>pl_todo := [], pl_producing := [y]\<rparr>"
  let ?step = "pipeline_step timeouts n keep ok"
  have "?step\<^sup>*\<^sup>* ?s0 (?s0\<lparr>pl_todo := [x, y], pl_producing := [], pl_stream := pl_stream ?s0 @ (bad # qs)\<rparr>)"
    by (rule send_run) (use n assms(1) keeps in \<open>auto simp: start_push_def rs\<close>)
  then have 1: "?step\<^sup>*\<^sup>* ?s0 ?s1" by (simp add: start_push_def)
  have 2: "?step ?s1 ?s2" using pipeline_step.fail [of ?s1 bad qs ok timeouts n keep] assms(3) by (simp add: start_push_def)
  have 3: "?step ?s2 ?s3" using pipeline_step.spawn [of ?s2 x "[y]" n timeouts keep ok] assms(1) by (simp add: start_push_def)
  have 4: "?step ?s3 ?s4" using pipeline_step.send [of ?s3 "[]" x "[]" keep n timeouts ok] n assms(1) keeps by (simp add: start_push_def)
  have 5: "?step ?s4 ?s5" using pipeline_step.spawn [of ?s4 y "[]" n timeouts keep ok] assms(1) by (simp add: start_push_def)
  have "?step\<^sup>*\<^sup>* ?s0 ?s5" using 1 2 3 4 5 by (meson rtranclp.rtrancl_into_rtrancl)
  then have "pipeline_reach timeouts n keep ok (bad # rs) ?s5" by (rule reach_trans [OF pipeline_reach.start])
  moreover have "\<not> wait_returns ?s5" by (simp add: wait_returns_def)
  moreover have "\<not> ?step ?s5 s'" for s'
    using n assms(1) keeps
    by (auto elim!: pipeline_stepE simp: start_push_def Cons_eq_append_conv)
  ultimately show ?thesis by blast
qed

theorem push_can_hang_witness:
  "\<exists>s. pipeline_reach False 1 (\<lambda>r. True) (\<lambda>r. r \<noteq> (0 :: nat)) [0, 1, 2] s \<and> \<not> wait_returns s \<and>
    (\<forall>s'. \<not> pipeline_step False 1 (\<lambda>r. True) (\<lambda>r. r \<noteq> 0) s s')"
  by (rule push_can_hang) simp_all

text \<open>The same when the context of the push ends while the channel is full, although every record could be appended.\<close>

lemma timeout_can_hang:
  assumes "0 < n" and "list_all keep rs" and "length rs = n + 1"
  shows "\<exists>s. pipeline_reach True n keep ok rs s \<and> \<not> wait_returns s \<and> (\<forall>s'. \<not> pipeline_step True n keep ok s s')"
proof -
  obtain qs y where rs: "rs = qs @ [y]" and n: "length qs = n" using assms(3) by (cases rs rule: rev_cases) auto
  have keeps: "list_all keep qs" "keep y" using assms(2) by (simp_all add: rs)
  let ?s0 = "start_push rs" and ?step = "pipeline_step True n keep ok"
  let ?s1 = "?s0\<lparr>pl_todo := [y], pl_stream := qs\<rparr>"
  let ?s2 = "?s1\<lparr>pl_cancelled := True\<rparr>"
  let ?s3 = "?s2\<lparr>pl_status := Finished\<rparr>"
  let ?s4 = "?s3\<lparr>pl_todo := [], pl_producing := [y]\<rparr>"
  have "?step\<^sup>*\<^sup>* ?s0 (?s0\<lparr>pl_todo := [y], pl_producing := [], pl_stream := pl_stream ?s0 @ qs\<rparr>)"
    by (rule send_run) (use n keeps in \<open>auto simp: start_push_def rs\<close>)
  then have 1: "?step\<^sup>*\<^sup>* ?s0 ?s1" by (simp add: start_push_def)
  have 2: "?step ?s1 ?s2" using pipeline_step.timeout [of True ?s1 n keep ok] by (simp add: start_push_def)
  have 3: "?step ?s2 ?s3" using pipeline_step.give_up [of ?s2 True n keep ok] by (simp add: start_push_def)
  have 4: "?step ?s3 ?s4" using pipeline_step.spawn [of ?s3 y "[]" n True keep ok] assms(1) by (simp add: start_push_def)
  have "?step\<^sup>*\<^sup>* ?s0 ?s4" using 1 2 3 4 by (meson rtranclp.rtrancl_into_rtrancl)
  then have "pipeline_reach True n keep ok rs ?s4" by (rule reach_trans [OF pipeline_reach.start])
  moreover have "\<not> wait_returns ?s4" by (simp add: wait_returns_def)
  moreover have "\<not> ?step ?s4 s'" for s'
    using n assms(1) keeps by (auto elim!: pipeline_stepE simp: start_push_def Cons_eq_append_conv)
  ultimately show ?thesis by blast
qed

end
