(* ===== verification/LogsExporterTheorems.thy ===== *)
theory LogsExporterTheorems
  imports LogsExporter LogsPipeline TracesExamples
begin

text \<open>
  What the logs exporter writes: each record of the window once, whatever the order of the goroutines, each with
  its resource, and the usage the meter bills. That the goroutines deliver every record, and when they do not,
  is shown in \<open>LogsPipeline\<close>.
\<close>

section \<open>Loops whose error carries the state\<close>

definition state_of :: "('e \<times> 's) + 's \<Rightarrow> 's" where
  "state_of x = (case x of Inl (e, s) \<Rightarrow> s | Inr s \<Rightarrow> s)"

lemma state_of_simps [simp]: "state_of (Inl (e, s)) = s" "state_of (Inr s) = s"
  by (simp_all add: state_of_def)

lemma fold_result_state: "(\<And>x s. g (state_of (f x s)) = g s) \<Longrightarrow> g (state_of (fold_result f xs s)) = g s"
proof (induction xs arbitrary: s)
  case (Cons x xs)
  show ?case
  proof (cases "f x s")
    case (Inl es)
    then show ?thesis using Cons.prems [of x s] by (cases es) simp
  next
    case (Inr s')
    then show ?thesis using Cons.prems [of x s] Cons.IH [OF Cons.prems] by simp
  qed
qed simp

section \<open>The consumer\<close>

text \<open>Tags touch neither the rows of logs nor the usage.\<close>

lemma keys_keep [simp]:
  "cs_logs (addAttrsToAttributeKeysStatement E d key tagType datatype c) = cs_logs c"
  "cs_metrics (addAttrsToAttributeKeysStatement E d key tagType datatype c) = cs_metrics c"
  by (simp_all add: addAttrsToAttributeKeysStatement_def Let_def)

lemma add_tag_value_keeps:
  "cs_logs (state_of (add_tag_value E d skip ms tagType datatype long key str num c)) = cs_logs c"
  "cs_metrics (state_of (add_tag_value E d skip ms tagType datatype long key str num c)) = cs_metrics c"
  by (simp_all add: add_tag_value_def Let_def split: option.split)

lemma addAttrs_keeps:
  "cs_logs (state_of (addAttrsToTagStatement E d skip ms tagType attrs c)) = cs_logs c"
  "cs_metrics (state_of (addAttrsToTagStatement E d skip ms tagType attrs c)) = cs_metrics c"
proof -
  have keep: "g (state_of (addAttrsToTagStatement E d skip ms tagType attrs c)) = g c"
    if g: "\<And>unixMilli datatype long key str num c. g (state_of (add_tag_value E d skip unixMilli tagType datatype long key str num c)) = g c"
    for g :: "consumer \<Rightarrow> 'x"
  proof -
    let ?ms = "go_quot ms 3600000 * 3600000"
    let ?add = "add_tag_value E d skip ?ms tagType"
    let ?f1 = "\<lambda>(k, v). ?add ''string'' (length v > MaxAttributeValueLength) k (Some v) None"
      and ?f2 = "\<lambda>(k, v). ?add ''float64'' False k None (Some v)" and ?f3 = "\<lambda>(k, v). ?add ''bool'' False k None None"
    have 1: "g (state_of (fold_result ?f1 xs c)) = g c" for xs c by (rule fold_result_state) (simp add: g split: prod.split)
    have 2: "g (state_of (fold_result ?f2 xs c)) = g c" for xs c by (rule fold_result_state) (simp add: g split: prod.split)
    have 3: "g (state_of (fold_result ?f3 xs c)) = g c" for xs c by (rule fold_result_state) (simp add: g split: prod.split)
    show ?thesis
    proof (cases "fold_result ?f1 (am_StringData attrs) c")
      case (Inl es)
      then show ?thesis using 1 [of "am_StringData attrs" c] by (simp add: addAttrsToTagStatement_def Let_def)
    next
      case c1: (Inr c1)
      show ?thesis
      proof (cases "fold_result ?f2 (am_NumberData attrs) c1")
        case (Inl es)
        then show ?thesis
          using 1 [of "am_StringData attrs" c] 2 [of "am_NumberData attrs" c1] c1 by (simp add: addAttrsToTagStatement_def Let_def)
      next
        case (Inr c2)
        then show ?thesis
          using 1 [of "am_StringData attrs" c] 2 [of "am_NumberData attrs" c1] 3 [of "am_BoolData attrs" c2] c1
          by (simp add: addAttrsToTagStatement_def Let_def)
      qed
    qed
  qed
  show "cs_logs (state_of (addAttrsToTagStatement E d skip ms tagType attrs c)) = cs_logs c"
    "cs_metrics (state_of (addAttrsToTagStatement E d skip ms tagType attrs c)) = cs_metrics c"
    by (rule keep, rule add_tag_value_keeps)+
qed

lemma consume_appends:
  assumes "consume E d skip ms r c = Inr c'"
  shows "cs_logs c' = cs_logs c @ [log_row r]"
    and "cs_metrics c' = AddMetric (cs_metrics c) GetTenantNameFromResource 1 (of_nat (rec_recordSize r))"
proof -
  obtain c1 where 1: "addAttrsToTagStatement E d skip ms ''resource'' (rec_resourceMap r) c = Inr c1"
    using assms by (auto simp: consume_def split: sum.splits)
  obtain c2 where 2: "addAttrsToTagStatement E d skip ms ''scope'' (rec_scopeMap r) c1 = Inr c2"
    using assms 1 by (auto simp: consume_def split: sum.splits)
  obtain c3 where 3: "addAttrsToTagStatement E d skip ms ''tag'' (rec_attrsMap r) c2 = Inr c3"
    using assms 1 2 by (auto simp: consume_def split: sum.splits)
  define c4 where "c4 = state_of (addAttrsToTagStatement E d skip ms ''logfield'' (rec_logFields r) c3)"
  have c': "c' = c4\<lparr>cs_logs := cs_logs c4 @ [log_row r],
      cs_metrics := AddMetric (cs_metrics c4) GetTenantNameFromResource 1 (of_nat (rec_recordSize r))\<rparr>"
    using assms 1 2 3 by (simp add: consume_def Let_def c4_def [unfolded state_of_def, symmetric] split: option.splits)
  have k: "cs_logs c4 = cs_logs c" "cs_metrics c4 = cs_metrics c"
    using addAttrs_keeps(1) [of E d skip ms "''resource''" "rec_resourceMap r" c] addAttrs_keeps(1) [of E d skip ms "''scope''" "rec_scopeMap r" c1]
      addAttrs_keeps(1) [of E d skip ms "''tag''" "rec_attrsMap r" c2] addAttrs_keeps(1) [of E d skip ms "''logfield''" "rec_logFields r" c3]
      addAttrs_keeps(2) [of E d skip ms "''resource''" "rec_resourceMap r" c] addAttrs_keeps(2) [of E d skip ms "''scope''" "rec_scopeMap r" c1]
      addAttrs_keeps(2) [of E d skip ms "''tag''" "rec_attrsMap r" c2] addAttrs_keeps(2) [of E d skip ms "''logfield''" "rec_logFields r" c3]
    by (simp_all add: 1 2 3 c4_def)
  show "cs_logs c' = cs_logs c @ [log_row r]"
    "cs_metrics c' = AddMetric (cs_metrics c) GetTenantNameFromResource 1 (of_nat (rec_recordSize r))"
    by (simp_all add: c' k)
qed

definition usage_after :: "(string \<times> usage_metric) list \<Rightarrow> lx_record list \<Rightarrow> (string \<times> usage_metric) list" where
  "usage_after metrics rs = fold (\<lambda>r m. AddMetric m GetTenantNameFromResource 1 (of_nat (rec_recordSize r))) rs metrics"

lemma consume_all:
  assumes "fold_result (consume E d skip ms) rs c = Inr c'"
  shows "cs_logs c' = cs_logs c @ map log_row rs" and "cs_metrics c' = usage_after (cs_metrics c) rs"
proof -
  have "cs_logs c' = cs_logs c @ map log_row rs \<and> cs_metrics c' = usage_after (cs_metrics c) rs"
    using assms
  proof (induction rs arbitrary: c)
    case (Cons r rs)
    obtain c1 where c1: "consume E d skip ms r c = Inr c1" "fold_result (consume E d skip ms) rs c1 = Inr c'"
      using Cons.prems by (auto split: sum.splits)
    show ?case using Cons.IH [OF c1(2)] consume_appends [OF c1(1)] by (simp add: usage_after_def)
  qed (simp add: usage_after_def)
  then show "cs_logs c' = cs_logs c @ map log_row rs" "cs_metrics c' = usage_after (cs_metrics c) rs" by simp_all
qed

text \<open>All usage is that of one tenant: the number of records and the sum of their sizes.\<close>

lemma usage_after_total:
  "usage_after [] rs = (if rs = [] then [] else
     [(GetTenantNameFromResource, \<lparr>um_Size = of_nat (sum_list (map rec_recordSize rs)), um_Count = of_nat (length rs)\<rparr>)])"
proof -
  have step: "usage_after m (r # rs) = usage_after (AddMetric m GetTenantNameFromResource 1 (of_nat (rec_recordSize r))) rs" for m r rs
    by (simp add: usage_after_def)
  have one: "AddMetric [] t c s = [(t, \<lparr>um_Size = s, um_Count = c\<rparr>)]"
    "AddMetric [(t, m)] t c s = [(t, \<lparr>um_Size = um_Size m + s, um_Count = um_Count m + c\<rparr>)]" for t c s m
    by (simp_all add: AddMetric_def)
  have rest: "usage_after [(GetTenantNameFromResource, m)] rs =
      [(GetTenantNameFromResource, \<lparr>um_Size = um_Size m + of_nat (sum_list (map rec_recordSize rs)), um_Count = um_Count m + of_nat (length rs)\<rparr>)]" for m rs
  proof (induction rs arbitrary: m)
    case (Cons r rs)
    show ?case by (simp add: step one Cons.IH add.assoc)
  qed (simp add: usage_after_def)
  show ?thesis by (cases rs) (simp_all add: step one rest, simp add: usage_after_def)
qed

section \<open>The producers\<close>

text \<open>The records of a payload, each below its resource and scope, and the job each becomes.\<close>

type_synonym log_item = "vmap \<times> otlp_scope_logs \<times> log_record"

definition log_items :: "otlp_logs \<Rightarrow> log_item list" where
  "log_items ld = concat (map (\<lambda>rl. concat (map (\<lambda>sl. map (\<lambda>r. (orl_resource rl, sl, r)) (ol_records sl)) (orl_scopes rl))) ld)"

definition job_of :: "'e meter_env_scheme \<Rightarrow> log_item \<Rightarrow> job" where
  "job_of E = (\<lambda>(res, sl, r).
     \<lparr>jb_resource = res, jb_resBytes = json_size (getResourceAttributesByte E res), jb_resourcesMap = attributesToMap E True res,
      jb_resourceJson = the (marshalStrMap E (am_StringData (attributesToMap E True res))), jb_scopeName = ol_name sl,
      jb_scopeVersion = ol_version sl, jb_scopeMap = attributesToMap E True (ol_attrs sl), jb_record = r\<rparr>)"

lemma job_of_fields:
  "jb_record (job_of E it) = snd (snd it)" "jb_resBytes (job_of E it) = json_size (getResourceAttributesByte E (fst it))"
  by (simp_all add: job_of_def split: prod.split)

lemma jobs_of_fold: "fold_result (resource_jobs E) ld js = Inr js' \<Longrightarrow> js' = js @ map (job_of E) (log_items ld)"
proof (induction ld arbitrary: js)
  case (Cons logs ld)
  obtain j where j: "marshalStrMap E (am_StringData (attributesToMap E True (orl_resource logs))) = Some j"
    using Cons.prems by (auto simp: resource_jobs_def Let_def split: option.splits)
  have "resource_jobs E logs js = Inr (js @ map (job_of E) (log_items [logs]))"
    by (simp add: resource_jobs_def log_items_def job_of_def j Let_def map_concat comp_def)
  then have "js' = (js @ map (job_of E) (log_items [logs])) @ map (job_of E) (log_items ld)"
    using Cons.prems Cons.IH [of "js @ map (job_of E) (log_items [logs])"] by simp
  then show ?case by (simp add: log_items_def)
qed (simp add: log_items_def)

text \<open>The time of a record, and the row that it becomes but for the fingerprint and the fresh identifier.\<close>

definition log_time :: "u64 \<Rightarrow> log_record \<Rightarrow> u64" where
  "log_time now r = (if lr_timestamp r \<noteq> 0 then lr_timestamp r else if lr_observed r \<noteq> 0 then lr_observed r else now)"

definition in_log_window :: "u64 \<Rightarrow> u64 \<Rightarrow> log_item \<Rightarrow> bool" where
  "in_log_window oldest now = (\<lambda>(res, sl, r). oldest \<le> log_time now r)"

definition written_log :: "'e lx_env_scheme \<Rightarrow> u64 \<Rightarrow> log_item \<Rightarrow> log_row" where
  "written_log E now = (\<lambda>(res, sl, r).
     \<lparr>lg_ts_bucket_start = word_of_int (tsBucket (uint (log_time now r div 1000000000)) 1800), lg_resource_fingerprint = [],
      lg_timestamp = log_time now r, lg_observed_timestamp = (if lr_observed r = 0 then now else lr_observed r), lg_id = [],
      lg_trace_id = TraceIDToHexOrEmptyString (lr_traceID r), lg_span_id = SpanIDToHexOrEmptyString (lr_spanID r),
      lg_trace_flags = lr_flags r, lg_severity_text = lr_severityText r, lg_severity_number = ucast (lr_severityNumber r),
      lg_body = getStringifiedBody E (lr_body r), lg_attributes_string = am_StringData (attributesToMap E False (lr_attributes r)),
      lg_attributes_number = am_NumberData (attributesToMap E False (lr_attributes r)),
      lg_attributes_bool = am_BoolData (attributesToMap E False (lr_attributes r)),
      lg_resources_string = am_StringData (attributesToMap E True res), lg_resource = am_StringData (attributesToMap E True res),
      lg_scope_name = ol_name sl, lg_scope_version = ol_version sl, lg_scope_string = am_StringData (attributesToMap E True (ol_attrs sl))\<rparr>)"

definition anonymous :: "log_row \<Rightarrow> log_row" where
  "anonymous row = row\<lparr>lg_resource_fingerprint := [], lg_id := []\<rparr>"

definition recent :: "u64 \<Rightarrow> u64 \<Rightarrow> job \<Rightarrow> bool" where
  "recent oldest now j \<longleftrightarrow> oldest \<le> fst (record_times now (jb_record j))"

definition expected_row :: "'e lx_env_scheme \<Rightarrow> u64 \<Rightarrow> job \<Rightarrow> log_row" where
  "expected_row E now j = anonymous (log_row (the (fst (produce E 0 now ([], j) []))))"

lemma produce_cases:
  assumes "produce E oldest now (u, j) seen = (ro, seen')"
  obtains (old) "\<not> recent oldest now j" "ro = None" "seen' = seen"
  | (kept) r where "recent oldest now j" "ro = Some r" "anonymous (log_row r) = expected_row E now j"
      "rec_recordSize r = length (asString E (lr_body (jb_record j))) + json_size (marshalAnyMap E (lr_attributes (jb_record j))) + jb_resBytes j"
      "seen_row seen' (uint (rec_tsBucketStart r)) (rec_resourceFP r)"
      "\<And>b fp. seen_row seen b fp \<Longrightarrow> seen_row seen' b fp"
proof -
  obtain ts ots where t: "record_times now (jb_record j) = (ts, ots)" by force
  show thesis
  proof (cases "ts < oldest")
    case True
    then show thesis using assms old by (simp add: produce_def t recent_def)
  next
    case False
    let ?b = "tsBucket (uint (ts div 1000000000)) logsResourceCacheSeconds"
    define f where "f = getOrCreateFingerprint ?b (jb_resourceJson j)
        (CalculateFingerprint (sprintv E) (lx_sprints E) (jb_resource j) ResourceHierarchy) seen"
    have f': "f = remember_resource ?b (jb_resourceJson j) (CalculateFingerprint (sprintv E) (lx_sprints E) (jb_resource j) ResourceHierarchy) seen"
      by (simp add: f_def getOrCreateFingerprint_def remember_resource_def)
    obtain r where r: "ro = Some r" "seen' = snd f" "rec_resourceFP r = fst f" "rec_tsBucketStart r = word_of_int ?b"
        "anonymous (log_row r) = expected_row E now j"
        "rec_recordSize r = length (asString E (lr_body (jb_record j))) + json_size (marshalAnyMap E (lr_attributes (jb_record j))) + jb_resBytes j"
      using assms False
      by (auto simp: produce_def t f_def [symmetric] expected_row_def anonymous_def log_row_def Let_def split: prod.splits)
    have b: "uint (word_of_int ?b :: u64) = ?b"
      using bucket_word [of "ts div 1000000000"] by (simp add: logsResourceCacheSeconds_def distributedTracesResourceV2Seconds_def)
    show thesis
      by (rule kept [of r])
        (use False r b remember_there remember_keeps in \<open>auto simp: recent_def t f'\<close>)
  qed
qed

lemma produce_all_rows:
  assumes "produce_all E oldest now js seen = (rs, seen')"
  shows "map (anonymous \<circ> log_row) rs = map (expected_row E now \<circ> snd) (filter (recent oldest now \<circ> snd) js)"
    and "map rec_recordSize rs = map (\<lambda>j. length (asString E (lr_body (jb_record (snd j)))) +
      json_size (marshalAnyMap E (lr_attributes (jb_record (snd j)))) + jb_resBytes (snd j)) (filter (recent oldest now \<circ> snd) js)"
    and "\<forall>r \<in> set rs. seen_row seen' (uint (rec_tsBucketStart r)) (rec_resourceFP r)"
    and "seen_row seen b fp \<Longrightarrow> seen_row seen' b fp"
proof -
  let ?sz = "\<lambda>j. length (asString E (lr_body (jb_record (snd j)))) + json_size (marshalAnyMap E (lr_attributes (jb_record (snd j)))) + jb_resBytes (snd j)"
  have all: "map (anonymous \<circ> log_row) rs = map (expected_row E now \<circ> snd) (filter (recent oldest now \<circ> snd) js) \<and>
      map rec_recordSize rs = map ?sz (filter (recent oldest now \<circ> snd) js) \<and>
      (\<forall>r \<in> set rs. seen_row seen' (uint (rec_tsBucketStart r)) (rec_resourceFP r)) \<and>
      (\<forall>b fp. seen_row seen b fp \<longrightarrow> seen_row seen' b fp)"
    using assms
  proof (induction js arbitrary: seen rs)
    case (Cons ij js)
    obtain u j where ij: "ij = (u, j)" by force
    obtain ro s1 where p: "produce E oldest now (u, j) seen = (ro, s1)" by force
    obtain rs1 where rs1: "produce_all E oldest now js s1 = (rs1, seen')" "rs = (case ro of None \<Rightarrow> rs1 | Some r \<Rightarrow> r # rs1)"
      using Cons.prems p ij by (auto split: prod.splits option.splits)
    note IH = Cons.IH [OF rs1(1)]
    show ?case
      using p
    proof (cases rule: produce_cases)
      case old
      then show ?thesis using IH rs1(2) ij by simp
    next
      case (kept r)
      then show ?thesis using IH rs1(2) ij by auto
    qed
  qed simp
  then show "map (anonymous \<circ> log_row) rs = map (expected_row E now \<circ> snd) (filter (recent oldest now \<circ> snd) js)"
    "map rec_recordSize rs = map ?sz (filter (recent oldest now \<circ> snd) js)"
    "\<forall>r \<in> set rs. seen_row seen' (uint (rec_tsBucketStart r)) (rec_resourceFP r)"
    "seen_row seen b fp \<Longrightarrow> seen_row seen' b fp"
    by blast+
qed


lemma expected_job: "expected_row E now (job_of E it) = written_log E now it"
  by (simp add: expected_row_def produce_def job_of_def written_log_def anonymous_def log_row_def record_times_def log_time_def
      logsResourceCacheSeconds_def Let_def split: prod.split)

lemma recent_job: "recent oldest now (job_of E it) = in_log_window oldest now it"
  by (simp add: recent_def in_log_window_def job_of_def record_times_def log_time_def Let_def split: prod.split)

section \<open>A push\<close>

lemma first_error_None: "first_error es = None \<longleftrightarrow> set es \<subseteq> {None}"
  by (induction es) (auto simp: first_error_def)

text \<open>A push that got as far as sending, and the others.\<close>

lemma lx_push_cases:
  assumes "pushToClickhouse E days a ld st = (res, st')"
  obtains (early) e where "res = Some e" "lt_logs st' = lt_logs st" "lx_recorded st' = lx_recorded st"
      "lt_resources st' = lt_resources st"
      "(\<forall>r. appendErr (ld_resources (at_driver a)) r = None) \<longrightarrow> lx_rfCache st' = lx_rfCache st"
  | (sending) recs seen c cache rows where
      "produce_all E (oldest_allowed (at_now a) days) (word_of_int (at_now a)) (at_producers a (map (job_of E) (log_items ld))) [] = (recs, seen)"
      "cs_logs c = map log_row (at_arrivals a recs)" "cs_metrics c = usage_after [] (at_arrivals a recs)"
      "log_resource_loop (appendErr (ld_resources (at_driver a))) (ld_order (at_driver a) (resource_rows seen)) (lx_rfCache st) [] = (None, cache, rows)"
      "send_all (at_driver a) c rows (st\<lparr>lx_keysCache := cs_keysCache c, lx_rfCache := cache\<rparr>) = (res, st')"
proof -
  let ?d = "at_driver a" and ?old = "oldest_allowed (at_now a) days" and ?now = "word_of_int (at_now a)"
  let ?c0 = "\<lparr>cs_keysCache = lx_keysCache st, cs_attributeKeys = [], cs_resourceKeys = [], cs_tags = [], cs_logs = [], cs_metrics = []\<rparr>"
  note push = assms [unfolded pushToClickhouse_def Let_def]
  consider "lx_closed st" | "\<not> lx_closed st" "prepare_error ?d \<noteq> None"
    | e where "\<not> lx_closed st" "prepare_error ?d = None" "fold_result (resource_jobs E) ld [] = Inl e"
    | jobs where "\<not> lx_closed st" "prepare_error ?d = None" "fold_result (resource_jobs E) ld [] = Inr jobs"
    by (cases "fold_result (resource_jobs E) ld []") auto
  then show thesis
  proof cases
    case 1
    then show thesis using push early by auto
  next
    case 2
    then obtain e where "prepare_error ?d = Some e" by auto
    then show thesis using push 2(1) early [of e] by simp
  next
    case 3
    then show thesis using push early by (auto split: prod.splits)
  next
    case 4
    have jobs: "jobs = map (job_of E) (log_items ld)" using jobs_of_fold [OF 4(3)] by simp
    obtain recs seen where p: "produce_all E ?old ?now (at_producers a jobs) [] = (recs, seen)" by force
    let ?consume = "fold_result (consume E ?d (lx_shouldSkipKeys st) (go_quot (at_now a) 1000000)) (at_arrivals a recs) ?c0"
    show thesis
    proof (cases ?consume)
      case (Inl ec)
      then show thesis using push 4 p early by (cases ec) auto
    next
      case c: (Inr c)
      note rows = consume_all [OF c]
      let ?loop = "log_resource_loop (appendErr (ld_resources ?d)) (ld_order ?d (resource_rows seen)) (lx_rfCache st) []"
      show thesis
      proof (cases "prepareErr (ld_resources ?d)")
        case (Some e)
        then have "res = Some e" "st' = st\<lparr>lx_keysCache := cs_keysCache c\<rparr>" using push 4 p c by auto
        then show thesis using early [of e] by simp
      next
        case None
        obtain re cache out where l: "?loop = (re, cache, out)" by (cases ?loop)
        show thesis
        proof (cases re)
          case (Some e)
          have "fst (log_resource_loop (\<lambda>r. None) qs k w) = None" for qs k w
            by (induction "\<lambda>r :: resource_row. None :: string option" qs k w rule: log_resource_loop.induct) simp_all
          then have "\<not> (\<forall>r. appendErr (ld_resources ?d) r = None)"
            using l Some by (metis ext fst_conv option.distinct(1))
          moreover have "res = Some e" "st' = st\<lparr>lx_keysCache := cs_keysCache c, lx_rfCache := cache\<rparr>"
            using push 4 p c None l Some by auto
          ultimately show thesis by (intro early [of e]) auto
        next
          case ok: None
          show thesis
            by (rule sending [OF p [unfolded jobs] _ _ l [unfolded ok]]) (use rows push 4 p c None l ok in auto)
        qed
      qed
    qed
  qed
qed

lemma send_all_fields:
  assumes "send_all d c resources st = (res, st')"
  shows "lt_logs st' = lt_logs st @ sent (ld_logs d) (cs_logs c)"
    and "lt_resources st' = lt_resources st @ sent (ld_resources d) resources"
    and "lx_rfCache st' = lx_rfCache st"
    and "res = None \<Longrightarrow> lx_recorded st' = lx_recorded st @ cs_metrics c"
    and "res = None \<Longrightarrow> set (ld_errors d [sendErr (ld_logs d), sendErr (ld_resources d), sendErr (ld_attributeKeys d),
                sendErr (ld_resourceKeys d), sendErr (ld_tags d)]) \<subseteq> {None}"
  using assms by (auto simp: send_all_def Let_def first_error_None split: option.splits)


text \<open>The orders of an attempt: every producer runs, every record arrives, every answer of a send is read.\<close>

definition fair_attempt :: "attempt \<Rightarrow> bool" where
  "fair_attempt a \<longleftrightarrow> (\<forall>js. mset (map snd (at_producers a js)) = mset js) \<and> (\<forall>rs. mset (at_arrivals a rs) = mset rs) \<and>
     (\<forall>es. set (ld_errors (at_driver a) es) = set es) \<and> (\<forall>rs. set (ld_order (at_driver a) rs) = set rs)"

lemma fair_mset:
  assumes "fair_attempt a" shows "mset (map (f \<circ> snd) (filter (P \<circ> snd) (at_producers a js))) = image_mset f (filter_mset P (mset js))"
proof -
  have "mset (map (f \<circ> snd) (filter (P \<circ> snd) (at_producers a js))) = image_mset f (filter_mset P (mset (map snd (at_producers a js))))"
    by (simp add: filter_mset_image_mset multiset.map_comp comp_def)
  then show ?thesis using assms by (simp add: fair_attempt_def)
qed

lemma produced_rows:
  assumes "produce_all E oldest now (at_producers a (map (job_of E) its)) [] = (recs, seen)" and "fair_attempt a"
  shows "mset (map (anonymous \<circ> log_row) (at_arrivals a recs)) = mset (map (written_log E now) (filter (in_log_window oldest now) its))"
    and "mset (map rec_recordSize (at_arrivals a recs)) = mset (map (\<lambda>it. length (asString E (lr_body (snd (snd it)))) +
      json_size (marshalAnyMap E (lr_attributes (snd (snd it)))) + json_size (getResourceAttributesByte E (fst it)))
      (filter (in_log_window oldest now) its))"
proof -
  let ?sz = "\<lambda>j. length (asString E (lr_body (jb_record j))) + json_size (marshalAnyMap E (lr_attributes (jb_record j))) + jb_resBytes j"
  have arr: "mset (at_arrivals a recs) = mset recs" using assms(2) by (simp add: fair_attempt_def)
  have f: "filter_mset (recent oldest now) (image_mset (job_of E) M) = image_mset (job_of E) (filter_mset (in_log_window oldest now) M)" for M
    by (simp add: filter_mset_image_mset recent_job)
  have "mset (map (anonymous \<circ> log_row) (at_arrivals a recs)) = mset (map (anonymous \<circ> log_row) recs)"
    using arr by (simp only: mset_map)
  also have "\<dots> = image_mset (expected_row E now) (filter_mset (recent oldest now) (mset (map (job_of E) its)))"
    by (simp only: produce_all_rows(1) [OF assms(1)] fair_mset [OF assms(2)])
  finally show "mset (map (anonymous \<circ> log_row) (at_arrivals a recs)) = mset (map (written_log E now) (filter (in_log_window oldest now) its))"
    by (simp add: f multiset.map_comp comp_def expected_job)
  have "mset (map rec_recordSize (at_arrivals a recs)) = mset (map rec_recordSize recs)"
    using arr by (simp only: mset_map)
  also have "\<dots> = image_mset ?sz (filter_mset (recent oldest now) (mset (map (job_of E) its)))"
    using fair_mset [OF assms(2), of ?sz "recent oldest now" "map (job_of E) its"]
    by (simp only: produce_all_rows(2) [OF assms(1)] comp_def)
  finally show "mset (map rec_recordSize (at_arrivals a recs)) = mset (map (\<lambda>it. length (asString E (lr_body (snd (snd it)))) +
      json_size (marshalAnyMap E (lr_attributes (snd (snd it)))) + json_size (getResourceAttributesByte E (fst it)))
      (filter (in_log_window oldest now) its))"
    by (simp add: f multiset.map_comp comp_def job_of_fields)
qed


text \<open>The same payload as the meter reads it.\<close>

definition metered_logs :: "otlp_logs \<Rightarrow> logs" where
  "metered_logs ld = map (\<lambda>rl. (new_resource (orl_resource rl))
     \<lparr>rl_scopes := map (\<lambda>sl. (new_scope (ol_name sl))\<lparr>sl_version := ol_version sl, sl_attributes := ol_attrs sl, sl_records := ol_records sl\<rparr>)
        (orl_scopes rl)\<rparr>) ld"

definition no_workspace_attribute :: "vmap \<Rightarrow> bool" where
  "no_workspace_attribute m \<longleftrightarrow> list_all (\<lambda>kv. \<not> ExcludeSigNozWorkspaceResourceAttrs (fst kv)) m"

lemma metered_size:
  "logs_Size E (metered_logs ld) = of_nat (sum_list (map (\<lambda>it. SizeOfMapStringAny E workspace (fst it) +
      SizeOfMapStringAny E workspace (lr_attributes (snd (snd it))) + length (asString E (lr_body (snd (snd it))))) (log_items ld)))"
proof -
  define g where "g = (\<lambda>res (r :: log_record). SizeOfMapStringAny E workspace res + SizeOfMapStringAny E workspace (lr_attributes r) + length (asString E (lr_body r)))"
  define h where "h = (\<lambda>it :: log_item. g (fst it) (snd (snd it)))"
  have app: "(of_nat (sum_list (map h (xs @ ys))) :: i64) = of_nat (sum_list (map h xs)) + of_nat (sum_list (map h ys))" for xs ys by simp
  have scope: "sum_list (map (\<lambda>r. of_nat (g res r)) rs) = (of_nat (sum_list (map h (map (\<lambda>r. (res, sl, r)) rs))) :: i64)" for res rs sl
    by (induction rs) (simp_all add: h_def)
  have res: "sum_list (map (\<lambda>sl. sum_list (map (\<lambda>r. of_nat (g res r)) (ol_records sl))) sls) =
      (of_nat (sum_list (map h (concat (map (\<lambda>sl. map (\<lambda>r. (res, sl, r)) (ol_records sl)) sls)))) :: i64)" for res sls
    by (induction sls) (simp, simp only: list.map concat.simps app scope [symmetric] sum_list.Cons)
  have items: "log_items (rl # ld) = concat (map (\<lambda>sl. map (\<lambda>r. (orl_resource rl, sl, r)) (ol_records sl)) (orl_scopes rl)) @ log_items ld" for rl ld
    by (simp add: log_items_def)
  have "logs_Size E (metered_logs ld) = sum_list (map (\<lambda>rl. sum_list (map (\<lambda>sl. sum_list (map (\<lambda>r. of_nat (g (orl_resource rl) r))
      (ol_records sl))) (orl_scopes rl))) ld)"
    by (simp add: logs_Size_def metered_logs_def logs_SizePerResource_def g_def comp_def)
  also have "\<dots> = of_nat (sum_list (map h (log_items ld)))"
    by (induction ld) (simp add: log_items_def, simp only: items list.map app res sum_list.Cons)
  finally show ?thesis by (simp add: h_def g_def)
qed

lemma metered_count: "sum_list (map logs_CountPerResource (metered_logs ld)) = of_nat (length (log_items ld))"
proof (induction ld)
  case (Cons rl ld)
  have "sum_list (map (\<lambda>sl. of_nat (length (ol_records sl))) sls) =
      (of_nat (length (concat (map (\<lambda>sl. map (\<lambda>r. (orl_resource rl, sl, r)) (ol_records sl)) sls))) :: i64)" for sls
    by (induction sls) simp_all
  then show ?case
    using Cons.IH by (simp add: metered_logs_def logs_CountPerResource_def log_items_def comp_def)
qed (simp add: metered_logs_def log_items_def)

lemma sum_list_mset_eq: "mset xs = mset ys \<Longrightarrow> sum_list xs = (sum_list ys :: nat)"
  by (metis sum_mset_sum_list)

text \<open>C20: When every record is in the window and no record has an attribute of the workspace, the usage recorded by a push of
  logs is the count and the size that the meter computes for the payload.\<close>

theorem logs_usage_is_metered:
  assumes "pushToClickhouse E days a ld st = (None, st')" and "fair_attempt a" and "log_items ld \<noteq> []"
    and "\<And>res sl r. (res, sl, r) \<in> set (log_items ld) \<Longrightarrow>
      oldest_allowed (at_now a) days \<le> log_time (word_of_int (at_now a)) r \<and> no_workspace_attribute (lr_attributes r)"
  shows "lx_recorded st' = lx_recorded st @ [(GetTenantNameFromResource,
    \<lparr>um_Size = logs_Size E (metered_logs ld), um_Count = sum_list (map logs_CountPerResource (metered_logs ld))\<rparr>)]"
  using assms(1)
proof (cases rule: lx_push_cases)
  case (sending recs seen c cache rows)
  let ?arr = "at_arrivals a recs"
  have win: "filter (in_log_window (oldest_allowed (at_now a) days) (word_of_int (at_now a))) (log_items ld) = log_items ld"
    by (rule filter_True) (use assms(4) in \<open>auto simp: in_log_window_def\<close>)
  have plain: "marshalAnyMap E (filter (\<lambda>kv. \<not> excluded workspace (fst kv)) (lr_attributes (snd (snd it)))) = marshalAnyMap E (lr_attributes (snd (snd it)))"
    if "it \<in> set (log_items ld)" for it
  proof -
    have "filter (\<lambda>kv. \<not> excluded workspace (fst kv)) (lr_attributes (snd (snd it))) = lr_attributes (snd (snd it))"
      by (rule filter_True)
        (use assms(4) [of "fst it" "fst (snd it)" "snd (snd it)"] that in \<open>simp add: no_workspace_attribute_def list_all_iff excluded_def workspace_def\<close>)
    then show ?thesis by simp
  qed
  note rows = produced_rows [OF sending(1) assms(2), unfolded win]
  have size: "sum_list (map rec_recordSize ?arr) = sum_list (map (\<lambda>it. SizeOfMapStringAny E workspace (fst it) +
      SizeOfMapStringAny E workspace (lr_attributes (snd (snd it))) + length (asString E (lr_body (snd (snd it))))) (log_items ld))"
    unfolding sum_list_mset_eq [OF rows(2)]
    by (rule arg_cong [of _ _ sum_list], rule map_cong [OF refl])
      (simp add: SizeOfMapStringAny_def getResourceAttributesByte_def excluded_def workspace_def plain [unfolded excluded_def workspace_def option.case])
  have n: "length ?arr = length (log_items ld)" using arg_cong [OF rows(1), of size] by simp
  then have "?arr \<noteq> []" using assms(3) by auto
  then have "usage_after [] ?arr = [(GetTenantNameFromResource,
      \<lparr>um_Size = logs_Size E (metered_logs ld), um_Count = sum_list (map logs_CountPerResource (metered_logs ld))\<rparr>)]"
    by (simp add: usage_after_total size metered_size metered_count n)
  then show ?thesis using send_all_fields(4) [OF sending(5)] sending(3) by simp
qed simp

section \<open>Resources\<close>

definition has_log_resource :: "lx_state \<Rightarrow> int \<Rightarrow> string \<Rightarrow> bool" where
  "has_log_resource st b fp \<longleftrightarrow> (\<exists>q \<in> set (lt_resources st). rr_fingerprint q = fp \<and> rr_seen_at_ts_bucket_start q = b)"

definition lx_inv :: "lx_state \<Rightarrow> bool" where
  "lx_inv st \<longleftrightarrow>
     (\<forall>row \<in> set (lt_logs st). has_log_resource st (uint (lg_ts_bucket_start row)) (lg_resource_fingerprint row)) \<and>
     (\<forall>b fp. MakeKeyForRFCache b fp \<in> lx_rfCache st \<longrightarrow> has_log_resource st b fp)"

lemma log_push_inv:
  assumes "pushToClickhouse E days a ld st = (res, st')" and "lx_inv st" and "table_accepts (ld_resources (at_driver a))" and "fair_attempt a"
  shows "lx_inv st'"
  using assms(1)
proof (cases rule: lx_push_cases)
  case (early e)
  then show ?thesis using assms(2, 3) by (simp add: lx_inv_def has_log_resource_def table_accepts_def)
next
  case (sending recs seen c cache rows)
  let ?d = "at_driver a"
  let ?qs = "ld_order ?d (resource_rows seen)"
  note s = send_all_fields [OF sending(5)]
  have "appendErr (ld_resources ?d) = (\<lambda>r. None)" using assms(3) by (auto simp: table_accepts_def)
  then have loop: "snd (log_resource_loop (\<lambda>r. None) ?qs (lx_rfCache st) []) = (cache, rows)" using sending(4) by simp
  have res: "lt_resources st' = lt_resources st @ rows" using s(2) assms(3) by (simp add: table_accepts_def sent_def)
  then have keep: "has_log_resource st b fp \<Longrightarrow> has_log_resource st' b fp" for b fp by (auto simp: has_log_resource_def)
  have cached: "MakeKeyForRFCache b fp \<in> lx_rfCache st \<Longrightarrow> has_log_resource st' b fp" for b fp
    using assms(2) keep by (simp add: lx_inv_def)
  have qs: "set ?qs = set (resource_rows seen)" using assms(4) by (simp add: fair_attempt_def)
  have cover: "has_log_resource st' (rr_seen_at_ts_bucket_start q) (rr_fingerprint q)" if q: "q \<in> set ?qs" for q
  proof (cases "resource_key q \<in> lx_rfCache st")
    case True
    then show ?thesis using cached by (simp add: resource_key_def)
  next
    case False
    obtain p where "resource_key p = resource_key q" "p \<in> set rows"
      using log_resource_cache.rows_cover [OF q False, of "[]"] loop by auto
    then show ?thesis by (auto simp: has_log_resource_def res resource_key_def resource_key_inject)
  qed
  have arr: "set (at_arrivals a recs) = set recs" using assms(4) unfolding fair_attempt_def by (metis set_mset_mset)
  show ?thesis
    unfolding lx_inv_def
  proof (intro conjI ballI allI impI)
    fix row
    assume "row \<in> set (lt_logs st')"
    then consider "row \<in> set (lt_logs st)" | r where "r \<in> set recs" "row = log_row r"
      using s(1) sending(2) arr by (auto simp: sent_def split: if_splits)
    then show "has_log_resource st' (uint (lg_ts_bucket_start row)) (lg_resource_fingerprint row)"
    proof cases
      case 1
      then show ?thesis using assms(2) keep by (simp add: lx_inv_def)
    next
      case 2
      then show ?thesis
        using produce_all_rows(3) [OF sending(1)] cover qs by (fastforce simp: log_row_def seen_row_def)
    qed
  next
    fix b fp
    assume "MakeKeyForRFCache b fp \<in> lx_rfCache st'"
    then have "MakeKeyForRFCache b fp \<in> lx_rfCache st \<or> (\<exists>q \<in> set ?qs. MakeKeyForRFCache b fp = resource_key q)"
      using log_resource_cache.cache_after [of ?qs "lx_rfCache st" "[]"] loop s(3) by auto
    then show "has_log_resource st' b fp" using cached cover by (auto simp: resource_key_def resource_key_inject)
  qed
qed

text \<open>C21: While the writes of resources succeed, every log in the table has the row of its resource, with its fingerprint in
  its bucket, over any run of pushes, fetches, expirations and shutdowns, whatever else fails.\<close>

theorem logs_have_resources:
  assumes "\<And>a ld. LxPush a ld \<in> set evs \<Longrightarrow> table_accepts (ld_resources (at_driver a)) \<and> fair_attempt a"
    and "row \<in> set (lt_logs (lx_run E days evs newLogsExporter))"
  shows "has_log_resource (lx_run E days evs newLogsExporter) (uint (lg_ts_bucket_start row)) (lg_resource_fingerprint row)"
proof -
  have "lx_inv (lx_run E days evs st)"
    if "lx_inv st" "\<And>a ld. LxPush a ld \<in> set evs \<Longrightarrow> table_accepts (ld_resources (at_driver a)) \<and> fair_attempt a" for st
    using that
  proof (induction evs arbitrary: st)
    case (Cons ev evs)
    have "lx_inv (lx_run E days [ev] st)"
    proof (cases ev)
      case (LxPush a ld)
      obtain res st' where p: "pushToClickhouse E days a ld st = (res, st')" by force
      then have "lx_inv st'" using log_push_inv [OF p Cons.prems(1)] Cons.prems(2) [of a ld] LxPush by simp
      then show ?thesis by (simp add: LxPush pushLogsData_def p split: option.split)
    qed (use Cons.prems(1) in \<open>simp_all add: lx_doFetchShouldSkipKeys_def lx_expire_def lx_Shutdown_def lx_inv_def has_log_resource_def\<close>)
    then have "lx_inv (lx_run E days evs (lx_run E days [ev] st))"
      by (rule Cons.IH) (meson Cons.prems(2) list.set_intros(2))
    moreover have "lx_run E days (ev # evs) st = lx_run E days evs (lx_run E days [ev] st)" by (cases ev) simp_all
    ultimately show ?case by simp
  qed simp
  moreover have "lx_inv newLogsExporter" by (simp add: lx_inv_def newLogsExporter_def)
  ultimately have "lx_inv (lx_run E days evs newLogsExporter)" using assms(1) by blast
  then show ?thesis using assms(2) by (simp add: lx_inv_def)
qed

end
