(* ===== verification/LogsExamples.thy ===== *)
theory LogsExamples
  imports LogsExporterTheorems
begin

text \<open>
  A concrete exporter of logs: a push that meets no error succeeds, the properties of
  \<open>LogsExporterTheorems\<close> at a payload with one record, and inputs on which the code does something it should not.
\<close>

section \<open>A push that meets no error\<close>

lemma addAttrs_accepts: "table_accepts (ld_tags d) \<Longrightarrow> addAttrsToTagStatement E d skip ms tagType attrs c \<noteq> Inl e"
proof -
  assume d: "table_accepts (ld_tags d)"
  have add: "add_tag_value E d skip m tagType dt long key str num c \<noteq> Inl e" for m dt long key str num c e
    using d by (simp add: add_tag_value_def table_accepts_def Let_def)
  have "fold_result (\<lambda>(k, v). add_tag_value E d skip m tagType dt (long v) k (str v) (num v)) xs c \<noteq> Inl e" for m dt long str num xs c e
    by (rule fold_result_total) (simp add: add split: prod.split)
  note fold = this [of _ _ "\<lambda>v. length v > MaxAttributeValueLength" Some "\<lambda>v. None"] this [of _ _ "\<lambda>v. False" "\<lambda>v. None" Some]
    this [of _ _ "\<lambda>v. False" "\<lambda>v. None" "\<lambda>v. None"]
  show ?thesis by (auto simp: addAttrsToTagStatement_def Let_def fold split: sum.splits)
qed

lemma consume_accepts:
  assumes "table_accepts (ld_tags d)" and "table_accepts (ld_logs d)"
  shows "fold_result (consume E d skip ms) rs c \<noteq> Inl e"
proof (rule fold_result_total)
  fix r c e
  show "consume E d skip ms r c \<noteq> Inl e"
    using assms(2) by (auto simp: consume_def Let_def table_accepts_def addAttrs_accepts [OF assms(1)] split: sum.splits)
qed

definition all_accept :: "lx_driver \<Rightarrow> bool" where
  "all_accept d \<longleftrightarrow> table_accepts (ld_logs d) \<and> table_accepts (ld_resources d) \<and> table_accepts (ld_attributeKeys d) \<and>
     table_accepts (ld_resourceKeys d) \<and> table_accepts (ld_tags d)"

lemma jobs_total: "(\<And>m. marshalStrMap E m \<noteq> None) \<Longrightarrow> fold_result (resource_jobs E) ld js \<noteq> Inl e"
proof (rule fold_result_total)
  fix logs :: otlp_resource_logs and js e
  assume "\<And>m. marshalStrMap E m \<noteq> None"
  then obtain j where "marshalStrMap E (am_StringData (attributesToMap E True (orl_resource logs))) = Some j" by blast
  then show "resource_jobs E logs js \<noteq> Inl e" by (simp add: resource_jobs_def Let_def)
qed

lemma loop_accepts: "fst (log_resource_loop (\<lambda>r. None) qs cache rows) = None"
  by (induction "\<lambda>r :: resource_row. None :: string option" qs cache rows rule: log_resource_loop.induct) simp_all

lemma log_push_succeeds:
  assumes "\<And>m. marshalStrMap E m \<noteq> None" and "all_accept (at_driver a)" and "fair_attempt a" and "\<not> lx_closed st"
  shows "\<exists>st'. pushToClickhouse E days a ld st = (None, st')"
proof -
  let ?d = "at_driver a"
  obtain jobs where jobs: "fold_result (resource_jobs E) ld [] = Inr jobs"
    using jobs_total [of E, OF assms(1)] by (cases "fold_result (resource_jobs E) ld []") auto
  obtain recs seen where p: "produce_all E (oldest_allowed (at_now a) days) (word_of_int (at_now a)) (at_producers a jobs) [] = (recs, seen)"
    by force
  let ?consume = "fold_result (consume E ?d (lx_shouldSkipKeys st) (go_quot (at_now a) 1000000)) (at_arrivals a recs)
      \<lparr>cs_keysCache = lx_keysCache st, cs_attributeKeys = [], cs_resourceKeys = [], cs_tags = [], cs_logs = [], cs_metrics = []\<rparr>"
  obtain c where c: "?consume = Inr c"
    using consume_accepts [of ?d E] assms(2) by (cases ?consume) (auto simp: all_accept_def)
  have err: "appendErr (ld_resources ?d) = (\<lambda>r. None)" using assms(2) by (auto simp: all_accept_def table_accepts_def)
  obtain cache rows where l: "log_resource_loop (\<lambda>r. None) (ld_order ?d (resource_rows seen)) (lx_rfCache st) [] = (None, cache, rows)"
    using loop_accepts [of "ld_order ?d (resource_rows seen)" "lx_rfCache st" "[]"] by (metis prod.collapse)
  have "set (ld_errors ?d [sendErr (ld_logs ?d), sendErr (ld_resources ?d), sendErr (ld_attributeKeys ?d), sendErr (ld_resourceKeys ?d),
      sendErr (ld_tags ?d)]) \<subseteq> {None}"
    using assms(2, 3) by (simp add: fair_attempt_def all_accept_def table_accepts_def)
  then have s: "\<exists>st'. send_all ?d c rows st = (None, st')" for st
    by (simp add: send_all_def Let_def first_error_None [symmetric])
  have "prepare_error ?d = None" "prepareErr (ld_resources ?d) = None"
    using assms(2) by (simp_all add: prepare_error_def first_error_None all_accept_def table_accepts_def)
  then show ?thesis using assms(4) s by (simp add: pushToClickhouse_def Let_def jobs p c err l)
qed

section \<open>The properties at a payload\<close>

definition sample_lx_env :: lx_env where
  "sample_lx_env = meter_env.extend sample_json_env
     \<lparr>lx_sprints = (\<lambda>v. []), lx_unicode = \<lparr>IsLetter = (\<lambda>c. False), IsLower = (\<lambda>c. False)\<rparr>\<rparr>"

definition sample_log :: log_record where
  "sample_log = \<lparr>lr_timestamp = 1700000000000000000, lr_observed = 0, lr_severityNumber = 9, lr_severityText = ''INFO'',
     lr_attributes = [(''a'', VStr ''b'')], lr_body = VStr ''hello'', lr_traceID = replicate 16 1, lr_spanID = replicate 8 2, lr_flags = 1,
     lr_eventName = [], lr_droppedAttributes = 0\<rparr>"

definition sample_scope_logs :: otlp_scope_logs where
  "sample_scope_logs = \<lparr>ol_name = ''lib'', ol_version = ''1'', ol_attrs = [], ol_records = [sample_log]\<rparr>"

definition sample_logs :: otlp_logs where
  "sample_logs = [\<lparr>orl_resource = [(''service.name'', VStr ''svc'')], orl_scopes = [sample_scope_logs]\<rparr>]"

definition lx_driver_ok :: lx_driver where
  "lx_driver_ok = \<lparr>ld_logs = table_ok, ld_resources = table_ok, ld_attributeKeys = table_ok, ld_resourceKeys = table_ok,
     ld_tags = table_ok, ld_order = (\<lambda>rs. rs), ld_errors = (\<lambda>es. es)\<rparr>"

text \<open>The producers and the arrivals of an attempt in the order of the payload, or in the opposite one.\<close>

definition sample_attempt :: "lx_driver \<Rightarrow> attempt" where
  "sample_attempt d = \<lparr>at_driver = d, at_now = sample_now, at_producers = map (\<lambda>j. (''u'', j)), at_arrivals = rev\<rparr>"

lemma sample_fair [simp]: "fair_attempt (sample_attempt lx_driver_ok)"
  by (simp add: fair_attempt_def sample_attempt_def lx_driver_ok_def comp_def)

lemma sample_log_marshals: "marshalStrMap sample_lx_env m \<noteq> None"
  by (simp add: sample_lx_env_def sample_json_env_def meter_env.defs)

lemma sample_accepts: "all_accept (at_driver (sample_attempt lx_driver_ok))"
  by (simp add: all_accept_def sample_attempt_def lx_driver_ok_def driver_ok)

lemma sample_log_push: "\<exists>st'. pushToClickhouse sample_lx_env 15 (sample_attempt lx_driver_ok) sample_logs newLogsExporter = (None, st')"
  by (rule log_push_succeeds [OF sample_log_marshals sample_accepts sample_fair]) (simp add: newLogsExporter_def)

lemma sample_items: "log_items sample_logs = [([(''service.name'', VStr ''svc'')], sample_scope_logs, sample_log)]"
  by (simp add: log_items_def sample_logs_def sample_scope_logs_def)

lemma sample_log_window: "oldest_allowed sample_now 15 \<le> log_time now sample_log"
  by (simp add: oldest_allowed_def sample_now_def log_time_def sample_log_def)


theorem logs_usage_is_metered_witness:
  "\<exists>st'. pushToClickhouse sample_lx_env 15 (sample_attempt lx_driver_ok) sample_logs newLogsExporter = (None, st') \<and>
    lx_recorded st' = [(GetTenantNameFromResource, \<lparr>um_Size = logs_Size sample_lx_env (metered_logs sample_logs), um_Count = 1\<rparr>)]"
proof -
  let ?a = "sample_attempt lx_driver_ok"
  obtain st' where st': "pushToClickhouse sample_lx_env 15 ?a sample_logs newLogsExporter = (None, st')" using sample_log_push by blast
  have now: "at_now ?a = sample_now" by (simp add: sample_attempt_def)
  have plain: "no_workspace_attribute (lr_attributes sample_log)"
    by (simp add: no_workspace_attribute_def sample_log_def ExcludeSigNozWorkspaceResourceAttrs_def)
  have "lx_recorded st' = lx_recorded newLogsExporter @ [(GetTenantNameFromResource,
      \<lparr>um_Size = logs_Size sample_lx_env (metered_logs sample_logs), um_Count = sum_list (map logs_CountPerResource (metered_logs sample_logs))\<rparr>)]"
    by (rule logs_usage_is_metered [OF st' sample_fair]) (auto simp: sample_items now sample_log_window plain)
  then show ?thesis using st' by (simp add: newLogsExporter_def metered_count sample_items)
qed

theorem logs_have_resources_witness:
  "\<exists>row. row \<in> set (lt_logs (lx_run sample_lx_env 15 [LxPush (sample_attempt lx_driver_ok) sample_logs] newLogsExporter)) \<and>
    has_log_resource (lx_run sample_lx_env 15 [LxPush (sample_attempt lx_driver_ok) sample_logs] newLogsExporter)
      (uint (lg_ts_bucket_start row)) (lg_resource_fingerprint row)"
proof -
  let ?a = "sample_attempt lx_driver_ok"
  let ?evs = "[LxPush ?a sample_logs]"
  obtain st' where st': "pushToClickhouse sample_lx_env 15 ?a sample_logs newLogsExporter = (None, st')" using sample_log_push by blast
  have "lt_logs st' \<noteq> []"
    using st'
  proof (cases rule: lx_push_cases)
    case (sending recs seen c cache rows)
    have now: "at_now ?a = sample_now" by (simp add: sample_attempt_def)
    have "size (mset (map (anonymous \<circ> log_row) (at_arrivals ?a recs))) = 1"
      unfolding produced_rows(1) [OF sending(1) sample_fair]
      by (simp add: sample_items now in_log_window_def sample_log_window)
    then show ?thesis using send_all_fields(1) [OF sending(5)] sending(2)
      by (auto simp: sample_attempt_def lx_driver_ok_def table_ok_def sent_def)
  qed simp
  then obtain row where row: "row \<in> set (lt_logs (lx_run sample_lx_env 15 ?evs newLogsExporter))"
    using st' by (cases "lt_logs st'") (auto simp: pushLogsData_def)
  have "has_log_resource (lx_run sample_lx_env 15 ?evs newLogsExporter) (uint (lg_ts_bucket_start row)) (lg_resource_fingerprint row)"
    by (rule logs_have_resources [OF _ row]) (auto simp: sample_attempt_def lx_driver_ok_def driver_ok(1)
      sample_fair [unfolded sample_attempt_def lx_driver_ok_def])
  then show ?thesis using row by blast
qed

section \<open>Where the code does not do what it should\<close>

text \<open>A batch refused by one table for its partitions is dropped without an error although the logs were not sent: the
  answer of the other table comes first, so the error that could be retried is lost.\<close>

lemma partition_error_hides_others:
  "sendErr (ld_resources d) = Some ''code: 252'' \<Longrightarrow> sendErr (ld_logs d) = Some e \<Longrightarrow>
    ld_errors d [Some e, Some ''code: 252'', sendErr (ld_attributeKeys d), sendErr (ld_resourceKeys d), sendErr (ld_tags d)] =
      [Some ''code: 252'', Some e, sendErr (ld_attributeKeys d), sendErr (ld_resourceKeys d), sendErr (ld_tags d)] \<Longrightarrow>
    pushToClickhouse E days a ld st = send_all d c rows st' \<Longrightarrow>
    fst (pushLogsData E days a ld st) = None \<and> lt_logs (snd (pushLogsData E days a ld st)) = lt_logs st'"
  by (simp add: send_all_def first_error_def pushLogsData_def has_prefix_def sent_def)

text \<open>The cache of resources is filled before their rows are sent: when that fails, a retry that finds them there
  appends none.\<close>

lemma failed_log_resources_stay_cached:
  assumes "log_resource_loop (\<lambda>r. None) qs cache [] = (None, cache', rows)" and "send_all d c rows (st\<lparr>lx_rfCache := cache'\<rparr>) = (res, st1)"
    and "sendErr (ld_resources d) = Some e"
  shows "lt_resources st1 = lt_resources st" and "log_resource_loop (\<lambda>r. None) qs (lx_rfCache st1) [] = (None, lx_rfCache st1, [])"
proof -
  note s = send_all_fields [OF assms(2)]
  show "lt_resources st1 = lt_resources st" using s(2) assms(3) by (simp add: sent_def)
  have "resource_key ` set qs \<subseteq> lx_rfCache st1"
    using log_resource_cache.cache_after [of qs cache "[]"] assms(1) s(3) by simp
  then show "log_resource_loop (\<lambda>r. None) qs (lx_rfCache st1) [] = (None, lx_rfCache st1, [])"
    using log_resource_cache.nothing_new [of qs "lx_rfCache st1" "[]"] loop_accepts [of qs "lx_rfCache st1" "[]"]
    by (metis prod.collapse)
qed

text \<open>Attributes that do not marshal (a number that is not finite) are not counted at all in the size of their record.\<close>

lemma unmarshalled_attributes_cost_nothing:
  assumes "produce E oldest now (u, j) seen = (Some r, seen')" and "marshalAnyMap E (lr_attributes (jb_record j)) = None"
  shows "rec_recordSize r = length (asString E (lr_body (jb_record j))) + jb_resBytes j"
  using assms by (cases rule: produce_cases) (auto simp: json_size_def)

text \<open>Attributes of the workspace on a record are counted by the exporter and excluded by the meter.\<close>

lemma workspace_attribute_of_record_counted:
  "SizeOfMapStringAny E workspace [(''signoz.workspace.key.id'', v)] = SizeOfMapStringAny E workspace []"
  by (simp add: SizeOfMapStringAny_def excluded_def workspace_def ExcludeSigNozWorkspaceResourceAttrs_def has_prefix_def)

end
