(* ===== verification/SchemaSql.thy ===== *)
theory SchemaSql
  imports KeyCheck
begin

text \<open>
  The statements of the schema migrator (\<^verbatim>\<open>cmd/siginsightschemamigrator/schema_migrator\<close>): column types,
  columns, indexes, engines and the operations with their SQL text and the flags that decide in which phase
  they run; and the expressions of indexes over parts of a JSON column.
\<close>

section \<open>Column types\<close>

datatype column_type_enum =
    EnumString | EnumInt8 | EnumInt16 | EnumInt32 | EnumInt64 | EnumInt128 | EnumInt256
  | EnumUInt8 | EnumUInt16 | EnumUInt32 | EnumUInt64 | EnumUInt128 | EnumUInt256
  | EnumFloat32 | EnumFloat64 | EnumBool | EnumDate | EnumDate32 | EnumUUID | EnumIPv4 | EnumIPv6
  | EnumLowCardinality | EnumNullable | EnumSimpleAggregateFunction | EnumAggregateFunction | EnumJSON
  | EnumFixedString | EnumDateTime | EnumDateTime64 | EnumArray | EnumMap | EnumTuple | EnumEnumeration

text \<open>The columns of a JSON type print their names and types only.\<close>

datatype column_type =
    PrimitiveColumnType string column_type_enum
  | JSONColumnType "nat option" "nat option" "(string \<times> column_type) list"
  | FixedStringColumnType int
  | DateTimeColumnType string
  | DateTime64ColumnType int string
  | ArrayColumnType column_type
  | MapColumnType column_type column_type
  | TupleColumnType "column_type list"
  | LowCardinalityColumnType column_type
  | EnumerationColumnType "string list" int
  | NullableColumnType column_type
  | SimpleAggregateFunction string "column_type list"
  | AggregateFunction string "column_type list"

definition comma :: string where "comma = '', ''"

text \<open>The two methods of a type, its text and its kind.\<close>

fun type_methods :: "column_type \<Rightarrow> string \<times> column_type_enum" where
  "type_methods (PrimitiveColumnType t e) =
     (t,
      e)"
| "type_methods (JSONColumnType paths types columns) =
     (''JSON('' @ join_str comma
       ((case paths of Some n \<Rightarrow> [''max_dynamic_paths='' @ nat_digits n] | None \<Rightarrow> []) @
        (case types of Some n \<Rightarrow> [''max_dynamic_types='' @ nat_digits n] | None \<Rightarrow> []) @
        map (\<lambda>(n, t). n @ '' '' @ fst (type_methods t)) columns) @ '')'',
      EnumJSON)"
| "type_methods (FixedStringColumnType n) =
     (''FixedString('' @ format_int n @ '')'',
      EnumFixedString)"
| "type_methods (DateTimeColumnType tz) =
     ((if tz = [] then ''DateTime'' else ''DateTime('' @ tz @ '')''),
      EnumDateTime)"
| "type_methods (DateTime64ColumnType p tz) =
     ((if tz = [] then ''DateTime64('' @ format_int p @ '')'' else ''DateTime64('' @ format_int p @ comma @ tz @ '')''),
      EnumDateTime64)"
| "type_methods (ArrayColumnType t) =
     (''Array('' @ fst (type_methods t) @ '')'',
      EnumArray)"
| "type_methods (MapColumnType k v) =
     (''Map('' @ fst (type_methods k) @ comma @ fst (type_methods v) @ '')'',
      EnumMap)"
| "type_methods (TupleColumnType ts) =
     (''Tuple('' @ join_str comma (map (\<lambda>t. fst (type_methods t)) ts) @ '')'',
      EnumTuple)"
| "type_methods (LowCardinalityColumnType t) =
     (''LowCardinality('' @ fst (type_methods t) @ '')'',
      EnumLowCardinality)"
| "type_methods (EnumerationColumnType vs n) =
     (''Enum'' @ format_int n @ ''('' @ join_str comma vs @ '')'',
      EnumEnumeration)"
| "type_methods (NullableColumnType t) =
     (''Nullable('' @ fst (type_methods t) @ '')'',
      EnumNullable)"
| "type_methods (SimpleAggregateFunction f args) =
     (''SimpleAggregateFunction('' @ f @ comma @ join_str comma (map (\<lambda>t. fst (type_methods t)) args) @ '')'',
      EnumSimpleAggregateFunction)"
| "type_methods (AggregateFunction f args) =
     (''AggregateFunction('' @ f @ comma @ join_str comma (map (\<lambda>t. fst (type_methods t)) args) @ '')'',
      EnumAggregateFunction)"

definition type_String :: "column_type \<Rightarrow> string" where
  "type_String t = fst (type_methods t)"

definition GetType :: "column_type \<Rightarrow> column_type_enum" where
  "GetType t = snd (type_methods t)"

text \<open>The primitive types, one per kind.\<close>

definition primitive_types :: "column_type list" where
  "primitive_types =
     [PrimitiveColumnType ''String'' EnumString, PrimitiveColumnType ''Int8'' EnumInt8, PrimitiveColumnType ''Int16'' EnumInt16,
      PrimitiveColumnType ''Int32'' EnumInt32, PrimitiveColumnType ''Int64'' EnumInt64, PrimitiveColumnType ''Int128'' EnumInt128,
      PrimitiveColumnType ''Int256'' EnumInt256, PrimitiveColumnType ''UInt8'' EnumUInt8, PrimitiveColumnType ''UInt16'' EnumUInt16,
      PrimitiveColumnType ''UInt32'' EnumUInt32, PrimitiveColumnType ''UInt64'' EnumUInt64, PrimitiveColumnType ''UInt128'' EnumUInt128,
      PrimitiveColumnType ''UInt256'' EnumUInt256, PrimitiveColumnType ''Float32'' EnumFloat32, PrimitiveColumnType ''Float64'' EnumFloat64,
      PrimitiveColumnType ''Bool'' EnumBool, PrimitiveColumnType ''Date'' EnumDate, PrimitiveColumnType ''Date32'' EnumDate32,
      PrimitiveColumnType ''UUID'' EnumUUID, PrimitiveColumnType ''IPv4'' EnumIPv4, PrimitiveColumnType ''IPv6'' EnumIPv6]"

section \<open>Columns, indexes, engines\<close>

text \<open>Settings of a column and of a table print alike.\<close>

type_synonym sql_setting = "string \<times> string"

definition setting_String :: "sql_setting \<Rightarrow> string" where
  "setting_String = (\<lambda>(n, v). n @ '' = '' @ v)"

definition settings_String :: "sql_setting list \<Rightarrow> string" where
  "settings_String ss = join_str comma (map setting_String ss)"

text \<open>The type of a column is an interface value, which may be nil; so may its settings.\<close>

record column =
  c_Name :: string
  c_Type :: "column_type option"
  c_Codec :: string
  c_Alias :: string
  c_Default :: string
  c_Materialized :: string
  c_TTL :: string
  c_Settings :: "sql_setting list option"
  c_Comment :: string

definition clause :: "string \<Rightarrow> string \<Rightarrow> string" where
  "clause keyword_text s = (if s = [] then [] else keyword_text @ s)"

definition codec_clause :: "string \<Rightarrow> string" where
  "codec_clause s = (if s = [] then [] else '' CODEC('' @ s @ '')'')"

definition settings_clause :: "sql_setting list option \<Rightarrow> string" where
  "settings_clause ss = (case ss of None \<Rightarrow> [] | Some ss \<Rightarrow> '' SETTINGS '' @ settings_String ss)"

definition column_ToSQL :: "column \<Rightarrow> string outcome" where
  "column_ToSQL c =
     (case c_Type c of
        None \<Rightarrow> Panic
      | Some t \<Rightarrow> Done (c_Name c @ '' '' @ type_String t @ clause '' ALIAS '' (c_Alias c) @ clause '' DEFAULT '' (c_Default c) @
          clause '' MATERIALIZED '' (c_Materialized c) @ codec_clause (c_Codec c) @ clause '' TTL '' (c_TTL c) @
          settings_clause (c_Settings c) @ clause '' COMMENT '' (c_Comment c)))"

fun all_done :: "'a outcome list \<Rightarrow> 'a list outcome" where
  "all_done [] = Done []"
| "all_done (x # xs) = bind_outcome x (\<lambda>y. bind_outcome (all_done xs) (\<lambda>ys. Done (y # ys)))"

record index =
  i_Name :: string
  i_Expression :: string
  i_Type :: string
  i_Granularity :: int

definition index_body :: "index \<Rightarrow> string" where
  "index_body i = i_Name i @ '' '' @ i_Expression i @ '' TYPE '' @ i_Type i @ '' GRANULARITY '' @ format_int (i_Granularity i)"

definition index_ToSQL :: "index \<Rightarrow> string" where
  "index_ToSQL i = ''INDEX '' @ index_body i"

record projection =
  p_Name :: string
  p_Query :: string

definition projection_ToSQL :: "projection \<Rightarrow> string" where
  "projection_ToSQL p = ''PROJECTION '' @ p_Name p @ '' ('' @ p_Query p @ '')''"

record merge_tree =
  mt_OrderBy :: string
  mt_PrimaryKey :: string
  mt_PartitionBy :: string
  mt_SampleBy :: string
  mt_TTL :: string
  mt_Settings :: "sql_setting list"

datatype table_engine = MergeTree merge_tree | ReplacingMergeTree merge_tree | AggregatingMergeTree merge_tree | SummingMergeTree merge_tree

definition EngineParams :: "merge_tree \<Rightarrow> string" where
  "EngineParams m = clause '' PRIMARY KEY '' (mt_PrimaryKey m) @ clause '' ORDER BY '' (mt_OrderBy m) @
     clause '' PARTITION BY '' (mt_PartitionBy m) @ clause '' SAMPLE BY '' (mt_SampleBy m) @ clause '' TTL '' (mt_TTL m) @
     (if mt_Settings m = [] then [] else '' SETTINGS '' @ settings_String (mt_Settings m))"

fun EngineType :: "table_engine \<Rightarrow> string" where
  "EngineType (MergeTree _) = ''MergeTree''"
| "EngineType (ReplacingMergeTree _) = ''ReplacingMergeTree''"
| "EngineType (AggregatingMergeTree _) = ''AggregatingMergeTree''"
| "EngineType (SummingMergeTree _) = ''SummingMergeTree''"

fun engine_tree :: "table_engine \<Rightarrow> merge_tree" where
  "engine_tree (MergeTree m) = m"
| "engine_tree (ReplacingMergeTree m) = m"
| "engine_tree (AggregatingMergeTree m) = m"
| "engine_tree (SummingMergeTree m) = m"

definition engine_ToSQL :: "table_engine \<Rightarrow> string" where
  "engine_ToSQL e = EngineType e @ EngineParams (engine_tree e)"

section \<open>Operations\<close>

datatype column_property =
    PropertyTTL | PropertyDefault | PropertyAlias | PropertyMaterialized | PropertyCodec | PropertyComment | PropertySettings

fun property_String :: "column_property \<Rightarrow> string" where
  "property_String PropertyTTL = ''TTL''"
| "property_String PropertyDefault = ''DEFAULT''"
| "property_String PropertyAlias = ''ALIAS''"
| "property_String PropertyMaterialized = ''MATERIALIZED''"
| "property_String PropertyCodec = ''CODEC''"
| "property_String PropertyComment = ''COMMENT''"
| "property_String PropertySettings = ''SETTINGS''"

text \<open>Each operation starts with its database and its table or view.\<close>

datatype operation =
    CreateTableOperation string string "column list" "index list" "projection list" table_engine
  | DropTableOperation string string "sql_setting list"
  | CreateMaterializedViewOperation string string string "column list" string
  | ModifyQueryMaterializedViewOperation string string string
  | TruncateTableOperation string string
  | AlterTableModifyTTL string string string bool
  | AlterTableDropTTL string string
  | AlterTableModifySettings string string "sql_setting list"
  | AlterTableAddColumn string string column "column option"
  | AlterTableDropColumn string string column
  | AlterTableModifyColumn string string column
  | AlterTableModifyColumnRemove string string column column_property
  | AlterTableModifyColumnModifySettings string string column "sql_setting list"
  | AlterTableModifyColumnResetSettings string string column "sql_setting list"
  | AlterTableMaterializeColumn string string column string string
  | AlterTableAddIndex string string index
  | AlterTableDropIndex string string index
  | AlterTableMaterializeIndex string string index string
  | AlterTableClearIndex string string index string
  | CreateProjectionOperation string string projection
  | DropProjectionOperation string string projection
  | InsertIntoTable string string "string list" bool bool string
  | StaticDDLOperation string string string

definition alter_table :: "string \<Rightarrow> string \<Rightarrow> string" where
  "alter_table db table = ''ALTER TABLE '' @ db @ ''.'' @ table"

definition partition_clause :: "string \<Rightarrow> string" where
  "partition_clause p = clause '' IN PARTITION '' p"

text \<open>The methods of an operation: its flags and its text.\<close>

record operation_methods =
  om_ForceMigrate :: bool
  om_IsMutation :: bool
  om_IsIdempotent :: bool
  om_IsLightweight :: bool
  om_ToSQL :: "string outcome"

definition CreateTableOperation_methods :: "string \<Rightarrow> string \<Rightarrow> column list \<Rightarrow> index list \<Rightarrow> projection list \<Rightarrow> table_engine \<Rightarrow> operation_methods" where
  "CreateTableOperation_methods db table columns indexes projections engine =
     \<lparr>om_ForceMigrate = False, om_IsMutation = False, om_IsIdempotent = True, om_IsLightweight = True,
      om_ToSQL =
       (bind_outcome (all_done (map column_ToSQL columns)) (\<lambda>parts.
       Done (''CREATE TABLE IF NOT EXISTS '' @ db @ ''.'' @ table @ '' ('' @ join_str comma parts @
         concat (map (\<lambda>i. comma @ index_ToSQL i) indexes) @ concat (map (\<lambda>p. comma @ projection_ToSQL p) projections) @
         '')'' @ '' ENGINE = '' @ engine_ToSQL engine)))\<rparr>"

definition DropTableOperation_methods :: "string \<Rightarrow> string \<Rightarrow> sql_setting list \<Rightarrow> operation_methods" where
  "DropTableOperation_methods db table settings =
     \<lparr>om_ForceMigrate = False, om_IsMutation = True, om_IsIdempotent = True, om_IsLightweight = True,
      om_ToSQL =
       (Done (''DROP TABLE IF EXISTS '' @ db @ ''.'' @ table @ (if settings = [] then [] else '' SETTINGS '' @ settings_String settings)))\<rparr>"

definition CreateMaterializedViewOperation_methods :: "string \<Rightarrow> string \<Rightarrow> string \<Rightarrow> column list \<Rightarrow> string \<Rightarrow> operation_methods" where
  "CreateMaterializedViewOperation_methods db view dest columns query =
     \<lparr>om_ForceMigrate = False, om_IsMutation = False, om_IsIdempotent = True, om_IsLightweight = True,
      om_ToSQL =
       (bind_outcome (all_done (map column_ToSQL columns)) (\<lambda>parts.
       Done (''CREATE MATERIALIZED VIEW IF NOT EXISTS '' @ db @ ''.'' @ view @ '' TO '' @ db @ ''.'' @ dest @
         (if columns = [] then [] else '' ('' @ join_str comma parts @ '')'') @ '' AS '' @ query)))\<rparr>"

definition ModifyQueryMaterializedViewOperation_methods :: "string \<Rightarrow> string \<Rightarrow> string \<Rightarrow> operation_methods" where
  "ModifyQueryMaterializedViewOperation_methods db view query =
     \<lparr>om_ForceMigrate = False, om_IsMutation = False, om_IsIdempotent = True, om_IsLightweight = True,
      om_ToSQL =
       (Done (alter_table db view @ '' MODIFY QUERY '' @ query))\<rparr>"

definition TruncateTableOperation_methods :: "string \<Rightarrow> string \<Rightarrow> operation_methods" where
  "TruncateTableOperation_methods db table =
     \<lparr>om_ForceMigrate = False, om_IsMutation = True, om_IsIdempotent = True, om_IsLightweight = False,
      om_ToSQL =
       (Done (''TRUNCATE TABLE IF EXISTS '' @ db @ ''.'' @ table))\<rparr>"

definition AlterTableModifyTTL_methods :: "string \<Rightarrow> string \<Rightarrow> string \<Rightarrow> bool \<Rightarrow> operation_methods" where
  "AlterTableModifyTTL_methods db table ttl materialize =
     \<lparr>om_ForceMigrate = False, om_IsMutation = (if \<not> materialize then False else True), om_IsIdempotent = True, om_IsLightweight = (\<not> materialize),
      om_ToSQL =
       (Done (alter_table db table @ '' MODIFY TTL '' @ ttl @ (if materialize then [] else '' SETTINGS '' @ ''materialize_ttl_after_modify = 0'')))\<rparr>"

definition AlterTableDropTTL_methods :: "string \<Rightarrow> string \<Rightarrow> operation_methods" where
  "AlterTableDropTTL_methods db table =
     \<lparr>om_ForceMigrate = False, om_IsMutation = False, om_IsIdempotent = True, om_IsLightweight = True,
      om_ToSQL =
       (Done (alter_table db table @ '' REMOVE TTL''))\<rparr>"

definition AlterTableModifySettings_methods :: "string \<Rightarrow> string \<Rightarrow> sql_setting list \<Rightarrow> operation_methods" where
  "AlterTableModifySettings_methods db table settings =
     \<lparr>om_ForceMigrate = False, om_IsMutation = False, om_IsIdempotent = True, om_IsLightweight = True,
      om_ToSQL =
       (Done (alter_table db table @ '' MODIFY SETTING '' @ settings_String settings))\<rparr>"

definition AlterTableAddColumn_methods :: "string \<Rightarrow> string \<Rightarrow> column \<Rightarrow> column option \<Rightarrow> operation_methods" where
  "AlterTableAddColumn_methods db table c after =
     \<lparr>om_ForceMigrate = False, om_IsMutation = False, om_IsIdempotent = True, om_IsLightweight = True,
      om_ToSQL =
       (bind_outcome (column_ToSQL c) (\<lambda>s. Done (alter_table db table @ '' ADD COLUMN IF NOT EXISTS '' @ s @
       (case after of None \<Rightarrow> [] | Some a \<Rightarrow> '' AFTER '' @ c_Name a))))\<rparr>"

definition AlterTableDropColumn_methods :: "string \<Rightarrow> string \<Rightarrow> column \<Rightarrow> operation_methods" where
  "AlterTableDropColumn_methods db table c =
     \<lparr>om_ForceMigrate = False, om_IsMutation = True, om_IsIdempotent = True, om_IsLightweight = True,
      om_ToSQL =
       (Done (alter_table db table @ '' DROP COLUMN IF EXISTS '' @ c_Name c))\<rparr>"

definition AlterTableModifyColumn_methods :: "string \<Rightarrow> string \<Rightarrow> column \<Rightarrow> operation_methods" where
  "AlterTableModifyColumn_methods db table c =
     \<lparr>om_ForceMigrate = False, om_IsMutation = (c_Type c \<noteq> None \<or> c_TTL c \<noteq> []), om_IsIdempotent = True, om_IsLightweight = (c_Type c \<noteq> None \<or> c_TTL c \<noteq> []),
      om_ToSQL =
       (Done (alter_table db table @ '' MODIFY COLUMN IF EXISTS '' @ c_Name c @
       (case c_Type c of None \<Rightarrow> [] | Some t \<Rightarrow> '' '' @ type_String t) @ clause '' DEFAULT '' (c_Default c) @ codec_clause (c_Codec c) @
       clause '' TTL '' (c_TTL c) @ settings_clause (c_Settings c)))\<rparr>"

definition AlterTableModifyColumnRemove_methods :: "string \<Rightarrow> string \<Rightarrow> column \<Rightarrow> column_property \<Rightarrow> operation_methods" where
  "AlterTableModifyColumnRemove_methods db table c p =
     \<lparr>om_ForceMigrate = False, om_IsMutation = False, om_IsIdempotent = False, om_IsLightweight = True,
      om_ToSQL =
       (Done (alter_table db table @ '' MODIFY COLUMN IF EXISTS '' @ c_Name c @ '' REMOVE '' @ property_String p))\<rparr>"

definition AlterTableModifyColumnModifySettings_methods :: "string \<Rightarrow> string \<Rightarrow> column \<Rightarrow> sql_setting list \<Rightarrow> operation_methods" where
  "AlterTableModifyColumnModifySettings_methods db table c settings =
     \<lparr>om_ForceMigrate = False, om_IsMutation = False, om_IsIdempotent = True, om_IsLightweight = True,
      om_ToSQL =
       (Done (alter_table db table @ '' MODIFY COLUMN IF EXISTS '' @ c_Name c @ '' MODIFY SETTING '' @ settings_String settings))\<rparr>"

definition AlterTableModifyColumnResetSettings_methods :: "string \<Rightarrow> string \<Rightarrow> column \<Rightarrow> sql_setting list \<Rightarrow> operation_methods" where
  "AlterTableModifyColumnResetSettings_methods db table c settings =
     \<lparr>om_ForceMigrate = False, om_IsMutation = False, om_IsIdempotent = True, om_IsLightweight = True,
      om_ToSQL =
       (Done (alter_table db table @ '' MODIFY COLUMN IF EXISTS '' @ c_Name c @ '' RESET SETTING '' @ join_str comma (map fst settings)))\<rparr>"

definition AlterTableMaterializeColumn_methods :: "string \<Rightarrow> string \<Rightarrow> column \<Rightarrow> string \<Rightarrow> string \<Rightarrow> operation_methods" where
  "AlterTableMaterializeColumn_methods db table c part partID =
     \<lparr>om_ForceMigrate = False, om_IsMutation = True, om_IsIdempotent = True, om_IsLightweight = False,
      om_ToSQL =
       (Done (alter_table db table @ '' MATERIALIZE COLUMN '' @ c_Name c @
       (if part \<noteq> [] then '' IN PARTITION '' @ part else if partID \<noteq> [] then '' IN PARTITION '' @ partID else [])))\<rparr>"

definition AlterTableAddIndex_methods :: "string \<Rightarrow> string \<Rightarrow> index \<Rightarrow> operation_methods" where
  "AlterTableAddIndex_methods db table i =
     \<lparr>om_ForceMigrate = False, om_IsMutation = False, om_IsIdempotent = True, om_IsLightweight = True,
      om_ToSQL =
       (Done (alter_table db table @ '' ADD INDEX IF NOT EXISTS '' @ index_body i))\<rparr>"

definition AlterTableDropIndex_methods :: "string \<Rightarrow> string \<Rightarrow> index \<Rightarrow> operation_methods" where
  "AlterTableDropIndex_methods db table i =
     \<lparr>om_ForceMigrate = False, om_IsMutation = True, om_IsIdempotent = True, om_IsLightweight = True,
      om_ToSQL =
       (Done (alter_table db table @ '' DROP INDEX IF EXISTS '' @ i_Name i))\<rparr>"

definition AlterTableMaterializeIndex_methods :: "string \<Rightarrow> string \<Rightarrow> index \<Rightarrow> string \<Rightarrow> operation_methods" where
  "AlterTableMaterializeIndex_methods db table i part =
     \<lparr>om_ForceMigrate = False, om_IsMutation = True, om_IsIdempotent = True, om_IsLightweight = False,
      om_ToSQL =
       (Done (alter_table db table @ '' MATERIALIZE INDEX IF EXISTS '' @ i_Name i @ partition_clause part))\<rparr>"

definition AlterTableClearIndex_methods :: "string \<Rightarrow> string \<Rightarrow> index \<Rightarrow> string \<Rightarrow> operation_methods" where
  "AlterTableClearIndex_methods db table i part =
     \<lparr>om_ForceMigrate = False, om_IsMutation = True, om_IsIdempotent = True, om_IsLightweight = False,
      om_ToSQL =
       (Done (alter_table db table @ '' CLEAR INDEX IF EXISTS '' @ i_Name i @ partition_clause part))\<rparr>"

definition CreateProjectionOperation_methods :: "string \<Rightarrow> string \<Rightarrow> projection \<Rightarrow> operation_methods" where
  "CreateProjectionOperation_methods db table p =
     \<lparr>om_ForceMigrate = False, om_IsMutation = False, om_IsIdempotent = True, om_IsLightweight = True,
      om_ToSQL =
       (Done (alter_table db table @ '' ADD PROJECTION IF NOT EXISTS '' @ p_Name p @ '' ('' @ p_Query p @ '')''))\<rparr>"

definition DropProjectionOperation_methods :: "string \<Rightarrow> string \<Rightarrow> projection \<Rightarrow> operation_methods" where
  "DropProjectionOperation_methods db table p =
     \<lparr>om_ForceMigrate = False, om_IsMutation = False, om_IsIdempotent = True, om_IsLightweight = True,
      om_ToSQL =
       (Done (alter_table db table @ '' DROP PROJECTION IF EXISTS '' @ p_Name p))\<rparr>"

definition InsertIntoTable_methods :: "string \<Rightarrow> string \<Rightarrow> string list \<Rightarrow> bool \<Rightarrow> bool \<Rightarrow> string \<Rightarrow> operation_methods" where
  "InsertIntoTable_methods db table columns lightweight synchronous vals =
     \<lparr>om_ForceMigrate = synchronous, om_IsMutation = False, om_IsIdempotent = False, om_IsLightweight = lightweight,
      om_ToSQL =
       (Done (''INSERT INTO '' @ db @ ''.'' @ table @ (if columns = [] then [] else '' ('' @ join_str comma columns @ '')'') @
       '' VALUES '' @ vals))\<rparr>"

definition StaticDDLOperation_methods :: "string \<Rightarrow> string \<Rightarrow> string \<Rightarrow> operation_methods" where
  "StaticDDLOperation_methods db table query =
     \<lparr>om_ForceMigrate = False, om_IsMutation = False, om_IsIdempotent = True, om_IsLightweight = True,
      om_ToSQL =
       (Done query)\<rparr>"

fun methods :: "operation \<Rightarrow> operation_methods" where
  "methods (CreateTableOperation db table columns indexes projections engine) = CreateTableOperation_methods db table columns indexes projections engine"
| "methods (DropTableOperation db table settings) = DropTableOperation_methods db table settings"
| "methods (CreateMaterializedViewOperation db view dest columns query) = CreateMaterializedViewOperation_methods db view dest columns query"
| "methods (ModifyQueryMaterializedViewOperation db view query) = ModifyQueryMaterializedViewOperation_methods db view query"
| "methods (TruncateTableOperation db table) = TruncateTableOperation_methods db table"
| "methods (AlterTableModifyTTL db table ttl materialize) = AlterTableModifyTTL_methods db table ttl materialize"
| "methods (AlterTableDropTTL db table) = AlterTableDropTTL_methods db table"
| "methods (AlterTableModifySettings db table settings) = AlterTableModifySettings_methods db table settings"
| "methods (AlterTableAddColumn db table c after) = AlterTableAddColumn_methods db table c after"
| "methods (AlterTableDropColumn db table c) = AlterTableDropColumn_methods db table c"
| "methods (AlterTableModifyColumn db table c) = AlterTableModifyColumn_methods db table c"
| "methods (AlterTableModifyColumnRemove db table c p) = AlterTableModifyColumnRemove_methods db table c p"
| "methods (AlterTableModifyColumnModifySettings db table c settings) = AlterTableModifyColumnModifySettings_methods db table c settings"
| "methods (AlterTableModifyColumnResetSettings db table c settings) = AlterTableModifyColumnResetSettings_methods db table c settings"
| "methods (AlterTableMaterializeColumn db table c part partID) = AlterTableMaterializeColumn_methods db table c part partID"
| "methods (AlterTableAddIndex db table i) = AlterTableAddIndex_methods db table i"
| "methods (AlterTableDropIndex db table i) = AlterTableDropIndex_methods db table i"
| "methods (AlterTableMaterializeIndex db table i part) = AlterTableMaterializeIndex_methods db table i part"
| "methods (AlterTableClearIndex db table i part) = AlterTableClearIndex_methods db table i part"
| "methods (CreateProjectionOperation db table p) = CreateProjectionOperation_methods db table p"
| "methods (DropProjectionOperation db table p) = DropProjectionOperation_methods db table p"
| "methods (InsertIntoTable db table columns lightweight synchronous vals) = InsertIntoTable_methods db table columns lightweight synchronous vals"
| "methods (StaticDDLOperation db table query) = StaticDDLOperation_methods db table query"

lemmas methods_defs = CreateTableOperation_methods_def DropTableOperation_methods_def CreateMaterializedViewOperation_methods_def ModifyQueryMaterializedViewOperation_methods_def TruncateTableOperation_methods_def AlterTableModifyTTL_methods_def AlterTableDropTTL_methods_def AlterTableModifySettings_methods_def AlterTableAddColumn_methods_def AlterTableDropColumn_methods_def AlterTableModifyColumn_methods_def AlterTableModifyColumnRemove_methods_def AlterTableModifyColumnModifySettings_methods_def AlterTableModifyColumnResetSettings_methods_def AlterTableMaterializeColumn_methods_def AlterTableAddIndex_methods_def AlterTableDropIndex_methods_def AlterTableMaterializeIndex_methods_def AlterTableClearIndex_methods_def CreateProjectionOperation_methods_def DropProjectionOperation_methods_def InsertIntoTable_methods_def StaticDDLOperation_methods_def

definition ToSQL :: "operation \<Rightarrow> string outcome" where
  "ToSQL item = om_ToSQL (methods item)"

definition IsMutation :: "operation \<Rightarrow> bool" where
  "IsMutation item = om_IsMutation (methods item)"

definition IsIdempotent :: "operation \<Rightarrow> bool" where
  "IsIdempotent item = om_IsIdempotent (methods item)"

definition IsLightweight :: "operation \<Rightarrow> bool" where
  "IsLightweight item = om_IsLightweight (methods item)"

definition ForceMigrate :: "operation \<Rightarrow> bool" where
  "ForceMigrate item = om_ForceMigrate (methods item)"

lemmas flag_defs = IsMutation_def IsIdempotent_def IsLightweight_def ForceMigrate_def methods_defs

definition isSyncOperation :: "operation \<Rightarrow> bool" where
  "isSyncOperation item \<longleftrightarrow> ForceMigrate item \<or> \<not> IsMutation item \<and> IsIdempotent item \<and> IsLightweight item"

definition IsAsyncOperation :: "operation \<Rightarrow> bool" where
  "IsAsyncOperation item =
     (if ForceMigrate item then False else if \<not> IsMutation item \<and> IsIdempotent item \<and> IsLightweight item then False else True)"

text \<open>An operation belongs to exactly one phase.\<close>

lemma one_phase: "IsAsyncOperation item \<longleftrightarrow> \<not> isSyncOperation item"
  by (simp add: IsAsyncOperation_def isSyncOperation_def)

text \<open>
  Whatever a modification of a column changes, it is never synchronous: with a type or an expiry it is a mutation,
  and without, it is not lightweight, contrary to the comment on the flag.
\<close>

lemma modify_column_is_async: "\<not> isSyncOperation (AlterTableModifyColumn db table c)"
  by (cases "c_Type c") (simp_all add: isSyncOperation_def flag_defs)

section \<open>Indexes over parts of a JSON column\<close>

definition quote_char :: char where "quote_char = CHR 0x27"
definition backtick :: char where "backtick = CHR 0x60"

definition JSONSubColumnIndexName :: "string \<Rightarrow> string \<Rightarrow> string \<Rightarrow> string \<Rightarrow> string" where
  "JSONSubColumnIndexName col path typeColumn ix =
     [backtick] @ (col @ ''.'' @ path) @ ''_'' @ typeColumn @ ''_'' @ ix @ [backtick]"

definition trim_backticks :: "string \<Rightarrow> string" where
  "trim_backticks s = rev (dropWhile (\<lambda>c. c = backtick) (rev (dropWhile (\<lambda>c. c = backtick) s)))"

definition quote_part :: "string \<Rightarrow> string" where
  "quote_part part = (if IsBacktickRequired part then [backtick] @ trim_backticks part @ [backtick] else part)"

definition quoted_path :: "string \<Rightarrow> string" where
  "quoted_path expr = join_str ''.'' (map quote_part (split_dots expr))"

definition number_head :: string where "number_head = ''assumeNotNull(dynamicElement(''"
definition string_head :: string where "string_head = ''lower('' @ number_head"

text \<open>The type stands in quotes; the text for numbers has one parenthesis less.\<close>

definition jsonSubColumnIndexExprFormat :: "string \<Rightarrow> string \<Rightarrow> string" where
  "jsonSubColumnIndexExprFormat expr typeColumn =
     (if typeColumn \<noteq> ''String''
      then number_head @ quoted_path expr @ comma @ [quote_char] @ typeColumn @ [quote_char] @ ''))''
      else string_head @ quoted_path expr @ comma @ [quote_char] @ typeColumn @ [quote_char] @ '')))'')"

definition JSONSubColumnIndexExpr :: "string \<Rightarrow> string \<Rightarrow> string \<Rightarrow> string" where
  "JSONSubColumnIndexExpr col path typeColumn = jsonSubColumnIndexExprFormat (col @ ''.'' @ path) typeColumn"

definition JSONPathsIndexExpr :: "string \<Rightarrow> string" where
  "JSONPathsIndexExpr col = ''JSONAllPaths('' @ col @ '')''"

definition JSONFullTextIndexExpr :: "string \<Rightarrow> string" where
  "JSONFullTextIndexExpr col = ''lower(toString('' @ col @ ''))''"

text \<open>
  Both regular expressions read their head, as few characters as possible but no line feed, a comma, white
  space, a type in quotes and three parentheses, which end the text. The leftmost match counts.
\<close>

definition re_space :: "char \<Rightarrow> bool" where
  "re_space c \<longleftrightarrow> of_char c \<in> {9, 10, 12, 13, 32 :: nat}"

definition match_type :: "string \<Rightarrow> string option" where
  "match_type s =
     (let t = takeWhile (\<lambda>c. c \<noteq> quote_char) s
      in if t \<noteq> [] \<and> drop (length t) s = [quote_char] @ '')))'' then Some t else None)"

fun match_comma :: "string \<Rightarrow> string option" where
  "match_comma [] = None"
| "match_comma (c # cs) =
     (if c = CHR '','' then (case dropWhile re_space cs of [] \<Rightarrow> None | q # s \<Rightarrow> if q = quote_char then match_type s else None)
      else None)"

fun match_expr :: "string \<Rightarrow> string \<Rightarrow> (string \<times> string) option" where
  "match_expr acc [] = None"
| "match_expr acc (c # cs) =
     (case (if acc = [] then None else match_comma (c # cs)) of
        Some t \<Rightarrow> Some (acc, t)
      | None \<Rightarrow> if of_char c = (10 :: nat) then None else match_expr (acc @ [c]) cs)"

fun find_match :: "string \<Rightarrow> string \<Rightarrow> (string \<times> string) option" where
  "find_match head [] = None"
| "find_match head (c # cs) =
     (case (if has_prefix head (c # cs) then match_expr [] (drop (length head) (c # cs)) else None) of
        Some m \<Rightarrow> Some m
      | None \<Rightarrow> find_match head cs)"

definition UnfoldJSONSubColumnIndexExpr :: "string \<Rightarrow> string + string \<times> string" where
  "UnfoldJSONSubColumnIndexExpr expr =
     (case find_match string_head expr of
        Some m \<Rightarrow> Inr m
      | None \<Rightarrow> (case find_match number_head expr of
                   Some m \<Rightarrow> Inr m
                 | None \<Rightarrow> Inl (''invalid expression: '' @ expr)))"

subsection \<open>What unfolds\<close>

lemma match_type_suffix: "match_type s = Some t \<Longrightarrow> \<exists>p. s = p @ [quote_char] @ '')))''"
  by (auto simp: match_type_def Let_def split: if_splits) (metis append_take_drop_id)

lemma match_comma_suffix: "match_comma s = Some t \<Longrightarrow> \<exists>p. s = p @ [quote_char] @ '')))''"
proof (induction s rule: match_comma.induct)
  case (2 c cs)
  obtain q s where s: "dropWhile re_space cs = q # s" "match_type s = Some t"
    using "2.prems" by (auto split: if_splits list.splits)
  obtain p where "s = p @ [quote_char] @ '')))''" using match_type_suffix [OF s(2)] by blast
  then have "c # cs = (c # takeWhile re_space cs @ q # p) @ [quote_char] @ '')))''"
    using s(1) takeWhile_dropWhile_id [of re_space cs] by simp
  then show ?case by blast
qed simp

lemma match_expr_suffix: "match_expr acc s = Some m \<Longrightarrow> \<exists>p. s = p @ [quote_char] @ '')))''"
proof (induction acc s rule: match_expr.induct)
  case (2 acc c cs)
  show ?case
  proof (cases "acc \<noteq> [] \<and> match_comma (c # cs) \<noteq> None")
    case True
    then show ?thesis using match_comma_suffix [of "c # cs"] by auto
  next
    case False
    then have none: "(if acc = [] then None else match_comma (c # cs)) = None" by (cases "acc = []") (simp_all del: match_comma.simps)
    have e: "match_expr (acc @ [c]) cs = Some m" and n: "of_char c \<noteq> (10 :: nat)"
      using "2.prems" unfolding match_expr.simps none by (simp_all split: if_splits)
    obtain p where "cs = p @ [quote_char] @ '')))''" using "2.IH" [OF none n e] by blast
    then have "c # cs = (c # p) @ [quote_char] @ '')))''" by simp
    then show ?thesis by blast
  qed
qed simp

lemma find_match_suffix: "find_match head s = Some m \<Longrightarrow> \<exists>p. s = p @ [quote_char] @ '')))''"
proof (induction s)
  case (Cons c cs)
  show ?case
  proof (cases "has_prefix head (c # cs) \<and> match_expr [] (drop (length head) (c # cs)) \<noteq> None")
    case True
    then obtain p where p: "drop (length head) (c # cs) = p @ [quote_char] @ '')))''" using match_expr_suffix by blast
    have "c # cs = (take (length head) (c # cs) @ p) @ [quote_char] @ '')))''"
      using append_take_drop_id [of "length head" "c # cs"] unfolding p by simp
    then show ?thesis by blast
  next
    case False
    then have none: "(if has_prefix head (c # cs) then match_expr [] (drop (length head) (c # cs)) else None) = None" by (cases "match_expr [] (drop (length head) (c # cs))") auto
    then have "find_match head cs = Some m" using Cons.prems unfolding find_match.simps none by simp
    then obtain p where "cs = p @ [quote_char] @ '')))''" using Cons.IH by blast
    then have "c # cs = (c # p) @ [quote_char] @ '')))''" by simp
    then show ?thesis by blast
  qed
qed simp

text \<open>The expression of an index over a part that is not a string is never unfolded: both patterns want three parentheses.\<close>

lemma number_index_does_not_unfold:
  assumes "typeColumn \<noteq> ''String''"
  shows "\<exists>e. UnfoldJSONSubColumnIndexExpr (JSONSubColumnIndexExpr col path typeColumn) = Inl e"
proof -
  let ?s = "JSONSubColumnIndexExpr col path typeColumn"
  have "find_match head ?s = None" for head
  proof (rule ccontr)
    assume "find_match head ?s \<noteq> None"
    then obtain p where "?s = p @ [quote_char] @ '')))''" using find_match_suffix by blast
    then have "rev ?s = rev (p @ [quote_char] @ '')))'')" by simp
    then show False using assms by (simp add: JSONSubColumnIndexExpr_def jsonSubColumnIndexExprFormat_def quote_char_def)
  qed
  then show ?thesis by (simp add: UnfoldJSONSubColumnIndexExpr_def)
qed

lemma match_expr_reads:
  assumes "list_all (\<lambda>c. c \<noteq> CHR '','' \<and> of_char c \<noteq> (10 :: nat)) e" and "acc @ e \<noteq> []" and "quote_char \<notin> set t" and "t \<noteq> []"
  shows "match_expr acc (e @ comma @ [quote_char] @ t @ [quote_char] @ '')))'') = Some (acc @ e, t)"
  using assms(1, 2)
proof (induction e arbitrary: acc)
  case Nil
  have tw: "takeWhile (\<lambda>c. c \<noteq> quote_char) (t @ quote_char # r) = t" for r
    using assms(3) by (induction t) auto
  have "match_type (t @ [quote_char] @ '')))'') = Some t" using assms(4) tw by (simp add: match_type_def)
  then show ?case using Nil by (simp add: comma_def re_space_def quote_char_def)
next
  case (Cons c e)
  then show ?case by simp
qed

text \<open>The expression of an index over a string part of a JSON column unfolds to the quoted path and its type, when
  the path has no comma and no line feed.\<close>

theorem string_index_unfolds:
  assumes "list_all (\<lambda>c. c \<noteq> CHR '','' \<and> of_char c \<noteq> (10 :: nat)) (quoted_path (col @ ''.'' @ path))"
    and "quoted_path (col @ ''.'' @ path) \<noteq> []"
  shows "UnfoldJSONSubColumnIndexExpr (JSONSubColumnIndexExpr col path ''String'') = Inr (quoted_path (col @ ''.'' @ path), ''String'')"
proof -
  let ?e = "quoted_path (col @ ''.'' @ path)"
  define body where "body = ?e @ comma @ [quote_char] @ ''String'' @ [quote_char] @ '')))''"
  have m: "match_expr [] body = Some (?e, ''String'')"
    unfolding body_def using match_expr_reads [OF assms(1), of "[]" "''String''"] assms(2) by (simp add: quote_char_def)
  have "find_match string_head (string_head @ body) = Some (?e, ''String'')"
  proof (cases "string_head @ body")
    case Nil
    then show ?thesis by (simp add: string_head_def)
  next
    case (Cons c cs)
    have "has_prefix string_head (c # cs)" "drop (length string_head) (c # cs) = body" unfolding Cons [symmetric] by simp_all
    then show ?thesis unfolding Cons by (simp add: m)
  qed
  then show ?thesis
    by (simp add: UnfoldJSONSubColumnIndexExpr_def JSONSubColumnIndexExpr_def jsonSubColumnIndexExprFormat_def body_def)
qed

theorem string_index_unfolds_witness:
  "UnfoldJSONSubColumnIndexExpr (JSONSubColumnIndexExpr ''body'' ''a-b.c'' ''String'') =
    Inr (''body.'' @ [backtick] @ ''a-b'' @ [backtick] @ ''.c'', ''String'')"
proof -
  have q: "quoted_path (''body'' @ ''.'' @ ''a-b.c'') = ''body.'' @ [backtick] @ ''a-b'' @ [backtick] @ ''.c''"
    by (simp add: quoted_path_def quote_part_def IsBacktickRequired_def contains_any_def BacktickRequiredSymbols_def trim_backticks_def backtick_def)
  show ?thesis
    using string_index_unfolds [of "''body''" "''a-b.c''", unfolded q] by (simp add: backtick_def)
qed

end
