(* ===== verification/SchemaMigrator.thy ===== *)
theory SchemaMigrator
  imports SchemaSql "HOL-Library.Sublist"
begin

text \<open>
  The migrations of the ClickHouse schema: the registry of migrations and its validation, the inspection of a
  store, the canonical baseline and the migrations after it, and the commands that run them
  (\<^verbatim>\<open>schema_migrator\<close> below \<^verbatim>\<open>cmd/siginsightschemamigrator\<close> and \<^verbatim>\<open>cmd/siginsightotelcollector/migrate\<close>).
  Commands run one at a time. The server answers every statement: it accepts it, or it refuses it, or the
  process dies, and in the last two cases the statement may still have taken effect.
\<close>

section \<open>The registry\<close>

definition SigInsightLogsDB :: string where "SigInsightLogsDB = ''siginsight_logs''"
definition SigInsightMetricsDB :: string where "SigInsightMetricsDB = ''siginsight_metrics''"
definition SigInsightTracesDB :: string where "SigInsightTracesDB = ''siginsight_traces''"
definition SigInsightMetadataDB :: string where "SigInsightMetadataDB = ''siginsight_metadata''"
definition SigInsightAnalyticsDB :: string where "SigInsightAnalyticsDB = ''siginsight_analytics''"
definition SigInsightMeterDB :: string where "SigInsightMeterDB = ''siginsight_meter''"

definition Databases :: "string list" where
  "Databases = [SigInsightTracesDB, SigInsightMetricsDB, SigInsightLogsDB, SigInsightMetadataDB, SigInsightAnalyticsDB, SigInsightMeterDB]"

definition isKnownDatabase :: "string \<Rightarrow> bool" where
  "isKnownDatabase db \<longleftrightarrow> db \<in> set Databases"

text \<open>The operations are interface values: a nil one is \<open>None\<close>.\<close>

record migration =
  m_ID :: u64
  m_UpItems :: "operation option list"
  m_DownItems :: "operation option list"

record post_migration =
  pb_Database :: string
  pb_Migration :: migration

abbreviation pb_ID :: "post_migration \<Rightarrow> u64" where
  "pb_ID item \<equiv> m_ID (pb_Migration item)"

datatype phase = SyncPhase | AsyncPhase

definition PostBaselineMigrationIDStart :: u64 where "PostBaselineMigrationIDStart = 2000"
definition CanonicalBaselineMigrationID :: u64 where "CanonicalBaselineMigrationID = 999"

definition IsSync :: "migration \<Rightarrow> bool" where
  "IsSync m \<longleftrightarrow> list_ex (\<lambda>item. case item of Some op \<Rightarrow> isSyncOperation op | None \<Rightarrow> False) (m_UpItems m)"

definition IsAsync :: "migration \<Rightarrow> bool" where
  "IsAsync m \<longleftrightarrow> list_ex (\<lambda>item. case item of Some op \<Rightarrow> IsAsyncOperation op | None \<Rightarrow> False) (m_UpItems m)"

subsection \<open>Validation\<close>

datatype validation_error =
    UnknownDatabase | IDTooSmall | NoOperations | DownOperations | NotIncreasing | DuplicateID | NilOperation | OtherPhase

text \<open>The identifiers seen in each database, and the last one of the phase, where zero stands for none.\<close>

record validation =
  va_seen :: "(string \<times> u64) set"
  va_last :: "string \<Rightarrow> u64"

definition validate_operation :: "phase \<Rightarrow> operation option \<Rightarrow> validation \<Rightarrow> validation_error + validation" where
  "validate_operation phase item v =
     (case item of
        None \<Rightarrow> Inl NilOperation
      | Some op \<Rightarrow> if (phase = SyncPhase) \<noteq> isSyncOperation op then Inl OtherPhase else Inr v)"

definition validate_item :: "phase \<Rightarrow> post_migration \<Rightarrow> validation \<Rightarrow> validation_error + validation" where
  "validate_item phase item v =
     (let m = pb_Migration item; db = pb_Database item; previous = va_last v db
      in if \<not> isKnownDatabase db then Inl UnknownDatabase
         else if m_ID m < PostBaselineMigrationIDStart then Inl IDTooSmall
         else if m_UpItems m = [] then Inl NoOperations
         else if m_DownItems m \<noteq> [] then Inl DownOperations
         else if previous \<noteq> 0 \<and> m_ID m \<le> previous then Inl NotIncreasing
         else if (db, m_ID m) \<in> va_seen v then Inl DuplicateID
         else fold_result (validate_operation phase) (m_UpItems m)
                (v\<lparr>va_last := (va_last v)(db := m_ID m), va_seen := insert (db, m_ID m) (va_seen v)\<rparr>))"

definition validatePostBaselineMigrations :: "post_migration list \<Rightarrow> post_migration list \<Rightarrow> validation_error + unit" where
  "validatePostBaselineMigrations sync async =
     (case fold_result (validate_item SyncPhase) sync \<lparr>va_seen = {}, va_last = (\<lambda>db. 0)\<rparr> of
        Inl e \<Rightarrow> Inl e
      | Inr v \<Rightarrow> (case fold_result (validate_item AsyncPhase) async (v\<lparr>va_last := (\<lambda>db. 0)\<rparr>) of
                   Inl e \<Rightarrow> Inl e
                 | Inr v \<Rightarrow> Inr ()))"

text \<open>All migrations, by database and identifier; both sorts are stable.\<close>

fun database_index :: "'a \<Rightarrow> 'a list \<Rightarrow> int" where
  "database_index x [] = -1"
| "database_index x (y # ys) = (if x = y then 0 else (let i = database_index x ys in if i = -1 then -1 else i + 1))"

definition allPostBaselineMigrations :: "post_migration list \<Rightarrow> post_migration list \<Rightarrow> post_migration list" where
  "allPostBaselineMigrations sync async = sort_key (\<lambda>item. database_index (pb_Database item) Databases) (sort_key pb_ID (sync @ async))"

definition postBaselineMigrationIDs :: "post_migration list \<Rightarrow> post_migration list \<Rightarrow> string \<Rightarrow> u64 list" where
  "postBaselineMigrationIDs sync async db = map pb_ID (filter (\<lambda>item. pb_Database item = db) (allPostBaselineMigrations sync async))"

section \<open>The store\<close>

record schema_fingerprint =
  TableCount :: u64
  TableHash :: u64
  ColumnCount :: u64
  ColumnHash :: u64
  IndexCount :: u64
  IndexHash :: u64

definition emptyFingerprintHash :: u64 where "emptyFingerprintHash = 11160318154034397263"

definition canonicalSchemaFingerprints :: "(string \<times> schema_fingerprint) list" where
  "canonicalSchemaFingerprints =
     [(SigInsightAnalyticsDB, \<lparr>TableCount = 1, TableHash = 11591339041108278501, ColumnCount = 11, ColumnHash = 3278462431271298120,
        IndexCount = 0, IndexHash = emptyFingerprintHash\<rparr>),
      (SigInsightLogsDB, \<lparr>TableCount = 6, TableHash = 11909639802394019030, ColumnCount = 43, ColumnHash = 6345803967174251801,
        IndexCount = 18, IndexHash = 4705711304205954561\<rparr>),
      (SigInsightMetadataDB, \<lparr>TableCount = 0, TableHash = emptyFingerprintHash, ColumnCount = 0, ColumnHash = emptyFingerprintHash,
        IndexCount = 0, IndexHash = emptyFingerprintHash\<rparr>),
      (SigInsightMeterDB, \<lparr>TableCount = 3, TableHash = 14168883310890703930, ColumnCount = 38, ColumnHash = 16828873058290010379,
        IndexCount = 0, IndexHash = emptyFingerprintHash\<rparr>),
      (SigInsightMetricsDB, \<lparr>TableCount = 15, TableHash = 3541604166905384461, ColumnCount = 174, ColumnHash = 8325196865590917439,
        IndexCount = 0, IndexHash = emptyFingerprintHash\<rparr>),
      (SigInsightTracesDB, \<lparr>TableCount = 15, TableHash = 6154575477337266297, ColumnCount = 131, ColumnHash = 14213257424511927958,
        IndexCount = 28, IndexHash = 813116833925738708\<rparr>)]"

text \<open>
  What ClickHouse does: the effect of an operation on the tables, the number of tables of a database beside
  those of migrations, that of the old tables of migrations, and the fingerprint the three queries compute. The
  DDL of the baseline and the two registries are arguments, too.
\<close>

record 'q migrate_env =
  me_apply :: "operation \<Rightarrow> 'q \<Rightarrow> 'q"
  me_domain :: "'q \<Rightarrow> string \<Rightarrow> nat"
  me_legacy :: "'q \<Rightarrow> string \<Rightarrow> nat"
  me_fingerprint :: "'q \<Rightarrow> string \<Rightarrow> schema_fingerprint"
  me_ddl :: "string \<Rightarrow> operation list"
  me_sync :: "post_migration list"
  me_async :: "post_migration list"

datatype answer = Accept | Refuse bool | Kill bool

text \<open>
  The tables, the databases, those that have a table of migrations, the final rows of these tables, and the
  answers to come; \<open>st_ran\<close> records every operation that was sent.
\<close>

record 'q store =
  st_schema :: 'q
  st_databases :: "string list"
  st_tracking :: "string list"
  st_rows :: "((string \<times> u64) \<times> string) list"
  st_answers :: "answer list"
  st_ran :: "(string \<times> u64 \<times> operation) list"

definition InProgressStatus :: string where "InProgressStatus = ''in-progress''"
definition FinishedStatus :: string where "FinishedStatus = ''finished''"
definition FailedStatus :: string where "FailedStatus = ''failed''"

definition takes_effect :: "answer \<Rightarrow> bool" where
  "takes_effect a = (case a of Accept \<Rightarrow> True | Refuse b \<Rightarrow> b | Kill b \<Rightarrow> b)"

text \<open>A statement: with no answer left every statement is accepted.\<close>

definition stmt :: "('q store \<Rightarrow> 'q store) \<Rightarrow> 'q store \<Rightarrow> answer \<times> 'q store" where
  "stmt effect s =
     (let a = (case st_answers s of [] \<Rightarrow> Accept | a # _ \<Rightarrow> a); s = s\<lparr>st_answers := tl (st_answers s)\<rparr>
      in (a, if takes_effect a then effect s else s))"

datatype migrate_error = Retryable | Fatal | Killed

type_synonym ('q, 'a) command = "'q store \<Rightarrow> (migrate_error + 'a) \<times> 'q store"

definition then_do :: "('q, 'a) command \<Rightarrow> ('a \<Rightarrow> ('q, 'b) command) \<Rightarrow> ('q, 'b) command" where
  "then_do f g s = (case f s of (Inl e, s) \<Rightarrow> (Inl e, s) | (Inr x, s) \<Rightarrow> g x s)"

text \<open>A query whose error is turned into an error of the command, and a statement likewise.\<close>

definition query :: "migrate_error \<Rightarrow> ('q store \<Rightarrow> 'a) \<Rightarrow> ('q, 'a) command" where
  "query err value_of s =
     (case stmt (\<lambda>s. s) s of
        (Accept, s) \<Rightarrow> (Inr (value_of s), s)
      | (Refuse _, s) \<Rightarrow> (Inl err, s)
      | (Kill _, s) \<Rightarrow> (Inl Killed, s))"

definition exec :: "migrate_error \<Rightarrow> ('q store \<Rightarrow> 'q store) \<Rightarrow> ('q, unit) command" where
  "exec err effect s =
     (case stmt effect s of
        (Accept, s) \<Rightarrow> (Inr (), s)
      | (Refuse _, s) \<Rightarrow> (Inl err, s)
      | (Kill _, s) \<Rightarrow> (Inl Killed, s))"

fun for_each :: "('a \<Rightarrow> ('q, unit) command) \<Rightarrow> 'a list \<Rightarrow> ('q, unit) command" where
  "for_each f [] s = (Inr (), s)"
| "for_each f (x # xs) s = then_do (f x) (\<lambda>_. for_each f xs) s"

section \<open>The manager\<close>

text \<open>An insert replaces the row of the identifier: the table keeps the newest.\<close>

definition put_row :: "string \<Rightarrow> u64 \<Rightarrow> string \<Rightarrow> 'q store \<Rightarrow> 'q store" where
  "put_row db migrationID status s = s\<lparr>st_rows := AList.update (db, migrationID) status (st_rows s)\<rparr>"

definition InsertMigrationEntry :: "migrate_error \<Rightarrow> string \<Rightarrow> u64 \<Rightarrow> string \<Rightarrow> ('q, unit) command" where
  "InsertMigrationEntry err db migrationID status = exec err (put_row db migrationID status)"

definition MigrationStatus :: "string \<Rightarrow> u64 \<Rightarrow> ('q, string option) command" where
  "MigrationStatus db migrationID = query Retryable (\<lambda>s. map_of (st_rows s) (db, migrationID))"

definition CheckMigrationStatus :: "string \<Rightarrow> u64 \<Rightarrow> string \<Rightarrow> ('q, bool) command" where
  "CheckMigrationStatus db migrationID status = then_do (MigrationStatus db migrationID) (\<lambda>r s. (Inr (r = Some status), s))"

definition MigrationTable :: string where "MigrationTable = ''schema_migrations_v2''"

text \<open>The tables of migrations are kept apart from the other tables.\<close>

definition apply_operation :: "'q migrate_env \<Rightarrow> operation \<Rightarrow> 'q store \<Rightarrow> 'q store" where
  "apply_operation E op s =
     (case op of
        CreateTableOperation db table _ _ _ _ \<Rightarrow>
          if table = MigrationTable then s\<lparr>st_tracking := List.insert db (st_tracking s)\<rparr>
          else s\<lparr>st_schema := me_apply E op (st_schema s)\<rparr>
      | _ \<Rightarrow> s\<lparr>st_schema := me_apply E op (st_schema s)\<rparr>)"

text \<open>Running an operation: a nil one, or one whose text cannot be built, ends the process.\<close>

definition RunOperationWithoutUpdate ::
  "'q migrate_env \<Rightarrow> operation option \<Rightarrow> u64 \<Rightarrow> string \<Rightarrow> ('q, unit) command" where
  "RunOperationWithoutUpdate E item migrationID db s =
     (case item of
        None \<Rightarrow> (Inl Killed, s)
      | Some op \<Rightarrow>
         (case ToSQL op of
            Done sql \<Rightarrow> exec Fatal (apply_operation E op) (s\<lparr>st_ran := st_ran s @ [(db, migrationID, op)]\<rparr>)
          | _ \<Rightarrow> (Inl Killed, s)))"

text \<open>An operation with its entries: in progress before, then finished or failed.\<close>

definition RunOperation :: "'q migrate_env \<Rightarrow> operation option \<Rightarrow> u64 \<Rightarrow> string \<Rightarrow> bool \<Rightarrow> ('q, unit) command" where
  "RunOperation E item migrationID db skipStatusUpdate s =
     then_do (if skipStatusUpdate then (\<lambda>s. (Inr (), s)) else exec Fatal (put_row db migrationID InProgressStatus))
       (\<lambda>_ s. case RunOperationWithoutUpdate E item migrationID db s of
           (Inl Killed, s) \<Rightarrow> (Inl Killed, s)
         | (Inl e, s) \<Rightarrow>
             if skipStatusUpdate then (Inl e, s)
             else then_do (exec Fatal (put_row db migrationID FailedStatus)) (\<lambda>_ s. (Inl e, s)) s
         | (Inr _, s) \<Rightarrow>
             if skipStatusUpdate then (Inr (), s) else exec Fatal (put_row db migrationID FinishedStatus) s) s"

subsection \<open>Inspection\<close>

datatype baseline_state = BaselineStateEmpty | BaselineStateComplete | BaselineStateIncompatible

record baseline_spec =
  bs_Database :: string
  bs_AllowedMigrationIDs :: "u64 list"
  bs_BaselineMigration :: migration

record snapshot =
  sn_DomainTableCount :: nat
  sn_LegacyTrackingTableCount :: nat
  sn_TrackingTableCount :: nat
  sn_MigrationStatuses :: "(u64 \<times> string) list"

record inspection =
  in_Database :: string
  in_State :: baseline_state
  in_DomainTableCount :: nat
  in_LegacyTrackingTableCount :: nat
  in_TrackingTableCount :: nat
  in_MissingBaselineMarker :: bool
  in_NonFinishedMigrationIDs :: "u64 list"
  in_UnexpectedMigrationIDs :: "u64 list"

definition CanonicalBaselineSpecs :: "'q migrate_env \<Rightarrow> baseline_spec list" where
  "CanonicalBaselineSpecs E =
     map (\<lambda>db. \<lparr>bs_Database = db, bs_AllowedMigrationIDs = postBaselineMigrationIDs (me_sync E) (me_async E) db,
       bs_BaselineMigration = \<lparr>m_ID = CanonicalBaselineMigrationID, m_UpItems = map Some (me_ddl E db), m_DownItems = []\<rparr>\<rparr>) Databases"

definition ClassifyBaselineState :: "baseline_spec \<Rightarrow> snapshot \<Rightarrow> inspection" where
  "ClassifyBaselineState spec sn =
     (let result = \<lparr>in_Database = bs_Database spec, in_State = BaselineStateIncompatible, in_DomainTableCount = sn_DomainTableCount sn,
            in_LegacyTrackingTableCount = sn_LegacyTrackingTableCount sn, in_TrackingTableCount = sn_TrackingTableCount sn,
            in_MissingBaselineMarker = False, in_NonFinishedMigrationIDs = [], in_UnexpectedMigrationIDs = []\<rparr>
      in if sn_DomainTableCount sn = 0 \<and> sn_LegacyTrackingTableCount sn = 0 \<and> length (sn_MigrationStatuses sn) = 0
         then result\<lparr>in_State := BaselineStateEmpty\<rparr>
         else (let marker = m_ID (bs_BaselineMigration spec);
                   allowed = insert marker (set (bs_AllowedMigrationIDs spec));
                   unexpected = map fst (filter (\<lambda>(i, t). i \<notin> allowed) (sn_MigrationStatuses sn));
                   nonFinished = map fst (filter (\<lambda>(i, t). i \<in> allowed \<and> t \<noteq> FinishedStatus) (sn_MigrationStatuses sn));
                   result = result\<lparr>in_MissingBaselineMarker := map_of (sn_MigrationStatuses sn) marker \<noteq> Some FinishedStatus,
                     in_NonFinishedMigrationIDs := sort nonFinished, in_UnexpectedMigrationIDs := sort unexpected\<rparr>
               in if in_LegacyTrackingTableCount result = 0 \<and> in_TrackingTableCount result = 1 \<and> \<not> in_MissingBaselineMarker result \<and>
                     length (in_NonFinishedMigrationIDs result) = 0 \<and> length (in_UnexpectedMigrationIDs result) = 0
                  then result\<lparr>in_State := BaselineStateComplete\<rparr>
                  else result\<lparr>in_State := BaselineStateIncompatible\<rparr>))"

definition rows_of :: "string \<Rightarrow> 'q store \<Rightarrow> (u64 \<times> string) list" where
  "rows_of db s = map (\<lambda>((d, i), t). (i, t)) (filter (\<lambda>((d, i), t). d = db) (st_rows s))"

definition InspectBaselineState :: "'q migrate_env \<Rightarrow> baseline_spec \<Rightarrow> ('q, inspection) command" where
  "InspectBaselineState E spec s =
     (let db = bs_Database spec
      in if \<not> isKnownDatabase db then (Inl Retryable, s)
         else then_do (query Retryable (\<lambda>s. (me_domain E (st_schema s) db, me_legacy E (st_schema s) db, if db \<in> set (st_tracking s) then 1 else 0)))
           (\<lambda>(domain, legacy, tracking).
              then_do (if tracking = (1 :: nat) then query Retryable (rows_of db) else (\<lambda>s. (Inr [], s)))
                (\<lambda>statuses s. (Inr (ClassifyBaselineState spec
                   \<lparr>sn_DomainTableCount = domain, sn_LegacyTrackingTableCount = legacy, sn_TrackingTableCount = tracking,
                    sn_MigrationStatuses = statuses\<rparr>), s))) s)"

definition CombineBaselineInspections :: "inspection list \<Rightarrow> baseline_state" where
  "CombineBaselineInspections inspections =
     (if inspections = [] then BaselineStateIncompatible
      else if list_all (\<lambda>i. in_State i = BaselineStateEmpty) inspections then BaselineStateEmpty
      else if list_all (\<lambda>i. in_State i = BaselineStateComplete) inspections then BaselineStateComplete
      else BaselineStateIncompatible)"

fun inspect_all :: "'q migrate_env \<Rightarrow> baseline_spec list \<Rightarrow> inspection list \<Rightarrow> ('q, inspection list) command" where
  "inspect_all E [] acc s = (Inr acc, s)"
| "inspect_all E (spec # specs) acc s = then_do (InspectBaselineState E spec) (\<lambda>i. inspect_all E specs (acc @ [i])) s"

definition InspectCanonicalBaselineState :: "'q migrate_env \<Rightarrow> ('q, baseline_state) command" where
  "InspectCanonicalBaselineState E =
     then_do (inspect_all E (CanonicalBaselineSpecs E) []) (\<lambda>is s. (Inr (CombineBaselineInspections is), s))"

text \<open>Verification of a database: does it exist, then tables, columns and indexes.\<close>

definition InspectCanonicalSchemaFingerprint :: "'q migrate_env \<Rightarrow> string \<Rightarrow> ('q, schema_fingerprint option) command" where
  "InspectCanonicalSchemaFingerprint E db s =
     (if \<not> isKnownDatabase db then (Inl Retryable, s)
      else then_do (query Retryable (\<lambda>s. db \<in> set (st_databases s)))
        (\<lambda>exists. if \<not> exists then (\<lambda>s. (Inr None, s))
           else then_do (query Retryable (\<lambda>s. me_fingerprint E (st_schema s) db))
             (\<lambda>tables. then_do (query Retryable (\<lambda>s. me_fingerprint E (st_schema s) db))
               (\<lambda>columns. then_do (query Retryable (\<lambda>s. me_fingerprint E (st_schema s) db))
                 (\<lambda>indexes s. (Inr (Some \<lparr>TableCount = TableCount tables, TableHash = TableHash tables, ColumnCount = ColumnCount columns,
                    ColumnHash = ColumnHash columns, IndexCount = IndexCount indexes, IndexHash = IndexHash indexes\<rparr>), s))))) s)"

definition VerifyCanonicalSchema :: "'q migrate_env \<Rightarrow> string \<Rightarrow> ('q, unit) command" where
  "VerifyCanonicalSchema E db =
     (case map_of canonicalSchemaFingerprints db of
        None \<Rightarrow> (\<lambda>s. (Inl Fatal, s))
      | Some expected \<Rightarrow> then_do (InspectCanonicalSchemaFingerprint E db)
          (\<lambda>actual s. (if actual = Some expected then Inr () else Inl Fatal, s)))"

section \<open>Commands\<close>

text \<open>
  Operations of one migration; when one fails the migration is marked as failed, and the error cannot be retried
  whatever becomes of the mark.
\<close>

definition run_marked :: "'q migrate_env \<Rightarrow> string \<Rightarrow> u64 \<Rightarrow> operation option \<Rightarrow> ('q, unit) command" where
  "run_marked E db migrationID item s =
     (case RunOperationWithoutUpdate E item migrationID db s of
        (Inr _, s) \<Rightarrow> (Inr (), s)
      | (Inl Killed, s) \<Rightarrow> (Inl Killed, s)
      | (Inl _, s) \<Rightarrow> (case InsertMigrationEntry Fatal db migrationID FailedStatus s of
                      (Inl Killed, s) \<Rightarrow> (Inl Killed, s) | (_, s) \<Rightarrow> (Inl Fatal, s)))"

definition validated :: "'q migrate_env \<Rightarrow> ('q, unit) command" where
  "validated E s = (case validatePostBaselineMigrations (me_sync E) (me_async E) of Inl _ \<Rightarrow> (Inl Fatal, s) | Inr _ \<Rightarrow> (Inr (), s))"

definition verifyCanonicalSchemas :: "'q migrate_env \<Rightarrow> ('q, unit) command" where
  "verifyCanonicalSchemas E = for_each (\<lambda>spec. VerifyCanonicalSchema E (bs_Database spec)) (CanonicalBaselineSpecs E)"

definition mark_baseline :: "baseline_spec \<Rightarrow> ('q, unit) command" where
  "mark_baseline spec =
     then_do (CheckMigrationStatus (bs_Database spec) (m_ID (bs_BaselineMigration spec)) FinishedStatus)
       (\<lambda>finished. if finished then (\<lambda>s. (Inr (), s))
          else InsertMigrationEntry Retryable (bs_Database spec) (m_ID (bs_BaselineMigration spec)) FinishedStatus)"

definition create_baseline :: "'q migrate_env \<Rightarrow> ('q, unit) command" where
  "create_baseline E =
     for_each (\<lambda>spec. for_each (run_marked E (bs_Database spec) (m_ID (bs_BaselineMigration spec))) (m_UpItems (bs_BaselineMigration spec)))
       (CanonicalBaselineSpecs E)"

definition ensureCanonicalBaseline :: "'q migrate_env \<Rightarrow> ('q, unit) command" where
  "ensureCanonicalBaseline E =
     then_do (validated E) (\<lambda>_. then_do (InspectCanonicalBaselineState E) (\<lambda>state.
       case state of
         BaselineStateEmpty \<Rightarrow>
           then_do (create_baseline E) (\<lambda>_. then_do (verifyCanonicalSchemas E) (\<lambda>_. for_each mark_baseline (CanonicalBaselineSpecs E)))
       | BaselineStateComplete \<Rightarrow> (\<lambda>s. (Inr (), s))
       | BaselineStateIncompatible \<Rightarrow> (\<lambda>s. (Inl Fatal, s))))"

definition requireCanonicalBaseline :: "'q migrate_env \<Rightarrow> ('q, unit) command" where
  "requireCanonicalBaseline E =
     then_do (validated E) (\<lambda>_. then_do (InspectCanonicalBaselineState E)
       (\<lambda>state s. (if state \<noteq> BaselineStateComplete then Inl Fatal else Inr (), s)))"

definition postBaselineMigrations :: "'q migrate_env \<Rightarrow> phase \<Rightarrow> post_migration list" where
  "postBaselineMigrations E phase = (if phase = SyncPhase then me_sync E else me_async E)"

definition prerequisitePostBaselineMigrations :: "'q migrate_env \<Rightarrow> post_migration \<Rightarrow> phase \<Rightarrow> post_migration list" where
  "prerequisitePostBaselineMigrations E current phase =
     filter (\<lambda>earlier. \<not> (pb_Database earlier \<noteq> pb_Database current \<or> pb_ID earlier \<ge> pb_ID current))
       (me_sync E @ (if phase = AsyncPhase then me_async E else []))"

definition require_finished :: "post_migration \<Rightarrow> ('q, unit) command" where
  "require_finished earlier =
     then_do (MigrationStatus (pb_Database earlier) (pb_ID earlier))
       (\<lambda>status s. (case status of None \<Rightarrow> Inl Fatal | Some t \<Rightarrow> if t \<noteq> FinishedStatus then Inl Fatal else Inr (), s))"

definition requireEarlierPostBaselineMigrations :: "'q migrate_env \<Rightarrow> post_migration \<Rightarrow> phase \<Rightarrow> ('q, unit) command" where
  "requireEarlierPostBaselineMigrations E current phase =
     for_each require_finished (prerequisitePostBaselineMigrations E current phase)"

text \<open>A migration that has no row yet: in progress, its operations, finished.\<close>

definition run_migration :: "'q migrate_env \<Rightarrow> post_migration \<Rightarrow> ('q, unit) command" where
  "run_migration E item =
     then_do (InsertMigrationEntry Retryable (pb_Database item) (pb_ID item) InProgressStatus) (\<lambda>_.
       then_do (for_each (run_marked E (pb_Database item) (pb_ID item)) (m_UpItems (pb_Migration item)))
         (\<lambda>_. InsertMigrationEntry Fatal (pb_Database item) (pb_ID item) FinishedStatus))"

definition post_baseline_item :: "'q migrate_env \<Rightarrow> phase \<Rightarrow> post_migration \<Rightarrow> ('q, unit) command" where
  "post_baseline_item E phase item =
     then_do (requireEarlierPostBaselineMigrations E item phase) (\<lambda>_.
       then_do (MigrationStatus (pb_Database item) (pb_ID item)) (\<lambda>status.
         case status of
           Some t \<Rightarrow> (\<lambda>s. (if t \<noteq> FinishedStatus then Inl Fatal else Inr (), s))
         | None \<Rightarrow> run_migration E item))"

definition runPostBaselineMigrations :: "'q migrate_env \<Rightarrow> phase \<Rightarrow> ('q, unit) command" where
  "runPostBaselineMigrations E phase =
     then_do (validated E) (\<lambda>_. then_do (requireCanonicalBaseline E)
       (\<lambda>_. for_each (post_baseline_item E phase) (postBaselineMigrations E phase)))"

definition check_item :: "'q migrate_env \<Rightarrow> phase \<Rightarrow> post_migration \<Rightarrow> ('q, unit) command" where
  "check_item E phase item =
     then_do (requireEarlierPostBaselineMigrations E item phase) (\<lambda>_.
       then_do (MigrationStatus (pb_Database item) (pb_ID item)) (\<lambda>status s.
         (case status of None \<Rightarrow> Inl Retryable | Some t \<Rightarrow> if t \<noteq> FinishedStatus then Inl Fatal else Inr (), s)))"

definition checkPostBaselineMigrations :: "'q migrate_env \<Rightarrow> phase \<Rightarrow> ('q, unit) command" where
  "checkPostBaselineMigrations E phase =
     then_do (validated E) (\<lambda>_. then_do (requireCanonicalBaseline E)
       (\<lambda>_. for_each (check_item E phase) (postBaselineMigrations E phase)))"

definition SyncUp :: "'q migrate_env \<Rightarrow> ('q, unit) command" where
  "SyncUp E = then_do (ensureCanonicalBaseline E) (\<lambda>_. runPostBaselineMigrations E SyncPhase)"

definition AsyncUp :: "'q migrate_env \<Rightarrow> ('q, unit) command" where
  "AsyncUp E = runPostBaselineMigrations E AsyncPhase"

definition SyncCheck :: "'q migrate_env \<Rightarrow> ('q, unit) command" where
  "SyncCheck E = then_do (requireCanonicalBaseline E) (\<lambda>_. then_do (checkPostBaselineMigrations E SyncPhase) (\<lambda>_. verifyCanonicalSchemas E))"

definition AsyncCheck :: "'q migrate_env \<Rightarrow> ('q, unit) command" where
  "AsyncCheck E = checkPostBaselineMigrations E AsyncPhase"

text \<open>\<open>n\<close> is the number of retries that the timeout of the backoff leaves time for.\<close>

fun with_retries :: "nat \<Rightarrow> ('q, unit) command \<Rightarrow> ('q, unit) command" where
  "with_retries n f s =
     (case f s of
        (Inl Retryable, s) \<Rightarrow> (case n of 0 \<Rightarrow> (Inl Fatal, s) | Suc m \<Rightarrow> with_retries m f s)
      | r \<Rightarrow> r)"

subsection \<open>Bootstrap\<close>

definition migration_column :: "string \<Rightarrow> column_type \<Rightarrow> column" where
  "migration_column name t =
     \<lparr>c_Name = name, c_Type = Some t, c_Codec = [], c_Alias = [], c_Default = [], c_Materialized = [], c_TTL = [], c_Settings = None, c_Comment = []\<rparr>"

definition migrationTableMigration :: "u64 \<Rightarrow> string \<Rightarrow> migration" where
  "migrationTableMigration i db =
     \<lparr>m_ID = i,
      m_UpItems = [Some (CreateTableOperation db MigrationTable
        [migration_column ''migration_id'' (PrimitiveColumnType ''UInt64'' EnumUInt64),
         migration_column ''status'' (PrimitiveColumnType ''String'' EnumString),
         migration_column ''error'' (PrimitiveColumnType ''String'' EnumString),
         migration_column ''created_at'' (DateTime64ColumnType 9 []),
         migration_column ''updated_at'' (DateTime64ColumnType 9 [])]
        [] []
        (ReplacingMergeTree \<lparr>mt_OrderBy = ''migration_id'', mt_PrimaryKey = ''migration_id'', mt_PartitionBy = [], mt_SampleBy = [],
           mt_TTL = [], mt_Settings = []\<rparr>))],
      m_DownItems = []\<rparr>"

text \<open>The tables of migrations in the order in which they are created, each with its database.\<close>

definition V2MigrationTables :: "(string \<times> migration) list" where
  "V2MigrationTables =
     map (\<lambda>(i, db). (db, migrationTableMigration i db))
       [(1, SigInsightLogsDB), (3, SigInsightMetricsDB), (2, SigInsightTracesDB), (4, SigInsightMetadataDB), (5, SigInsightAnalyticsDB),
        (6, SigInsightMeterDB)]"

text \<open>
  The names of the databases are read without looking at the error at the end of the rows: \<open>arrived\<close> is the number of
  names that arrived. The server refuses to create a database that is there.
\<close>

definition create_database :: "string \<Rightarrow> ('q, unit) command" where
  "create_database db s =
     (if db \<in> set (st_databases s) then (Inl Fatal, s)
      else exec Fatal (\<lambda>s. s\<lparr>st_databases := st_databases s @ [db]\<rparr>) s)"

definition CreateDatabases :: "nat \<Rightarrow> ('q, unit) command" where
  "CreateDatabases arrived =
     then_do (query Retryable (\<lambda>s. take arrived (st_databases s))) (\<lambda>databases.
       for_each create_database (filter (\<lambda>db. db \<notin> set databases) Databases))"

definition ShouldRunOperation :: "operation option \<Rightarrow> ('q, bool) command" where
  "ShouldRunOperation item =
     (case item of
        Some (CreateTableOperation db table _ _ _ _) \<Rightarrow>
          query Retryable (\<lambda>s. \<not> (table = MigrationTable \<and> db \<in> set (st_tracking s)))
      | _ \<Rightarrow> (\<lambda>s. (Inr True, s)))"

definition create_migration_table :: "'q migrate_env \<Rightarrow> string \<times> migration \<Rightarrow> ('q, unit) command" where
  "create_migration_table E = (\<lambda>(db, m).
     for_each (\<lambda>item. then_do (ShouldRunOperation item) (\<lambda>shouldRun.
       if \<not> shouldRun then (\<lambda>s. (Inr (), s)) else RunOperation E item (m_ID m) db True)) (m_UpItems m))"

definition CreateMigrationTables :: "'q migrate_env \<Rightarrow> ('q, unit) command" where
  "CreateMigrationTables E = for_each (create_migration_table E) V2MigrationTables"

definition Bootstrap :: "'q migrate_env \<Rightarrow> nat \<Rightarrow> ('q, unit) command" where
  "Bootstrap E arrived = then_do (CreateDatabases arrived) (\<lambda>_. CreateMigrationTables E)"

section \<open>Runs\<close>

text \<open>The commands with the retries their timeout allows, each with the answers the server will give it.\<close>

datatype migrate_command = RunBootstrap nat nat | RunSyncUp nat | RunAsyncUp nat | RunSyncCheck nat | RunAsyncCheck nat

fun command_of :: "'q migrate_env \<Rightarrow> migrate_command \<Rightarrow> ('q, unit) command" where
  "command_of E (RunBootstrap n arrived) = with_retries n (Bootstrap E arrived)"
| "command_of E (RunSyncUp n) = with_retries n (SyncUp E)"
| "command_of E (RunAsyncUp n) = with_retries n (AsyncUp E)"
| "command_of E (RunSyncCheck n) = with_retries n (SyncCheck E)"
| "command_of E (RunAsyncCheck n) = with_retries n (AsyncCheck E)"

fun migrate_run :: "'q migrate_env \<Rightarrow> (migrate_command \<times> answer list) list \<Rightarrow> 'q store \<Rightarrow> 'q store" where
  "migrate_run E [] s = s"
| "migrate_run E ((c, answers) # cs) s = migrate_run E cs (snd (command_of E c (s\<lparr>st_answers := answers\<rparr>)))"

text \<open>A new server.\<close>

definition new_store :: "'q \<Rightarrow> string list \<Rightarrow> 'q store" where
  "new_store schema databases =
     \<lparr>st_schema = schema, st_databases = databases, st_tracking = [], st_rows = [], st_answers = [], st_ran = []\<rparr>"

end
