(* ===== verification/MigratorTheorems.thy ===== *)
theory MigratorTheorems
  imports SchemaMigrator
begin

text \<open>
  What the migration commands keep over any run, whatever the server refuses and wherever the process dies: each
  migration runs once and in order, a store that is neither new nor complete is left alone, and the registry
  that passes validation is the one its comments describe.
\<close>

section \<open>What a command keeps\<close>

definition keeps :: "('q store \<Rightarrow> bool) \<Rightarrow> ('q, 'a) command \<Rightarrow> bool" where
  "keeps P f \<longleftrightarrow> (\<forall>s. P s \<longrightarrow> P (snd (f s)))"

lemma keeps_then:
  assumes "keeps P f" and "\<And>x. keeps P (g x)"
  shows "keeps P (then_do f g)"
  unfolding keeps_def
proof (intro allI impI)
  fix s
  assume "P s"
  obtain r t where f: "f s = (r, t)" by force
  then have "P t" using assms(1) \<open>P s\<close> unfolding keeps_def by (metis snd_conv)
  then show "P (snd (then_do f g s))" using assms(2) by (cases r) (simp_all add: then_do_def f keeps_def)
qed

lemma keeps_for_each: "(\<And>x. x \<in> set xs \<Longrightarrow> keeps P (f x)) \<Longrightarrow> keeps P (for_each f xs)"
proof (induction xs)
  case (Cons x xs)
  then have "keeps P (then_do (f x) (\<lambda>_. for_each f xs))" by (intro keeps_then) simp_all
  then show ?case by (simp add: keeps_def)
qed (simp add: keeps_def)

lemma keeps_retries:
  assumes "keeps P f"
  shows "keeps P (with_retries n f)"
  unfolding keeps_def
proof (intro allI impI)
  fix s
  assume "P s"
  then show "P (snd (with_retries n f s))"
  proof (induction n arbitrary: s)
    case 0
    obtain r t where f: "f s = (r, t)" by force
    then have "P t" using assms 0 unfolding keeps_def by (metis snd_conv)
    then show ?case by (simp add: f split: sum.split migrate_error.split)
  next
    case (Suc n)
    obtain r t where f: "f s = (r, t)" by force
    then have "P t" using assms Suc.prems unfolding keeps_def by (metis snd_conv)
    then show ?case using Suc.IH [of t] by (simp add: f split: sum.split migrate_error.split)
  qed
qed

section \<open>What a command touches\<close>

definition row_of :: "'q store \<Rightarrow> string \<times> u64 \<Rightarrow> string option" where
  "row_of s k = map_of (st_rows s) k"

definition ran_of :: "'q store \<Rightarrow> string \<times> u64 \<Rightarrow> operation list" where
  "ran_of s k = map (\<lambda>(d, i, op). op) (filter (\<lambda>(d, i, op). (d, i) = k) (st_ran s))"

text \<open>Only the keys of \<open>K\<close> get rows or operations.\<close>

definition touches :: "(string \<times> u64) set \<Rightarrow> 'q store \<Rightarrow> 'q store \<Rightarrow> bool" where
  "touches K s s' \<longleftrightarrow> (\<forall>k. k \<notin> K \<longrightarrow> row_of s' k = row_of s k \<and> ran_of s' k = ran_of s k)"

definition frame :: "(string \<times> u64) set \<Rightarrow> ('q, 'a) command \<Rightarrow> bool" where
  "frame K f \<longleftrightarrow> (\<forall>s. touches K s (snd (f s)))"

lemma touches_refl [simp]: "touches K s s"
  by (simp add: touches_def)

lemma touches_trans: "touches K s t \<Longrightarrow> touches K t u \<Longrightarrow> touches K s u"
  by (simp add: touches_def)

lemma touches_mono: "touches K s t \<Longrightarrow> K \<subseteq> L \<Longrightarrow> touches L s t"
  by (auto simp: touches_def)

lemma frame_mono: "frame K f \<Longrightarrow> K \<subseteq> L \<Longrightarrow> frame L f"
  by (auto simp: frame_def intro: touches_mono)

lemma frame_keeps:
  fixes f :: "('q, 'a) command"
  shows "frame K f \<longleftrightarrow> (\<forall>s0. keeps (touches K s0) f)"
proof
  assume f: "frame K f"
  show "\<forall>s0. keeps (touches K s0) f"
    unfolding keeps_def
  proof (intro allI impI)
    fix s0 s :: "'q store"
    assume "touches K s0 s"
    moreover have "touches K s (snd (f s))" using f by (simp add: frame_def)
    ultimately show "touches K s0 (snd (f s))" by (rule touches_trans)
  qed
next
  assume k: "\<forall>s0. keeps (touches K s0) f"
  show "frame K f"
    unfolding frame_def
  proof
    fix s :: "'q store"
    have "keeps (touches K s) f" using k ..
    then show "touches K s (snd (f s))" by (simp add: keeps_def)
  qed
qed

lemma frame_then: "frame K f \<Longrightarrow> (\<And>x. frame K (g x)) \<Longrightarrow> frame K (then_do f g)"
  unfolding frame_keeps by (intro allI keeps_then) simp_all

lemma frame_for_each: "(\<And>x. x \<in> set xs \<Longrightarrow> frame K (f x)) \<Longrightarrow> frame K (for_each f xs)"
  unfolding frame_keeps by (intro allI keeps_for_each) simp_all

lemma frame_retries: "frame K f \<Longrightarrow> frame K (with_retries n f)"
  unfolding frame_keeps by (intro allI keeps_retries) simp

lemma frame_return [simp]: "frame K (Pair r)" "frame K (\<lambda>s. (r' s, s))"
  by (simp_all add: frame_def)

text \<open>A statement either leaves the store but for the answers, or has its effect.\<close>

lemma stmt_cases:
  obtains as where "snd (stmt f s) = s\<lparr>st_answers := as\<rparr>" | as where "snd (stmt f s) = f (s\<lparr>st_answers := as\<rparr>)"
  by (cases "takes_effect (case st_answers s of [] \<Rightarrow> Accept | a # _ \<Rightarrow> a)") (auto simp: stmt_def Let_def)

lemma answers_irrelevant [simp]: "row_of (s\<lparr>st_answers := as\<rparr>) k = row_of s k" "ran_of (s\<lparr>st_answers := as\<rparr>) k = ran_of s k"
  by (simp_all add: row_of_def ran_of_def)

lemma touches_answers [simp]: "touches K s (s\<lparr>st_answers := as\<rparr>)"
  by (simp add: touches_def)

lemma exec_state: "snd (exec err f s) = snd (stmt f s)" "snd (query err g s) = snd (stmt (\<lambda>s. s) s)"
  by (auto simp: exec_def query_def split: prod.split answer.split)

lemma frame_query [simp]: "frame K (query err g)"
  unfolding frame_def exec_state by (metis stmt_cases touches_answers)

lemma frame_exec: "(\<And>s. touches K s (f s)) \<Longrightarrow> frame K (exec err f)"
  unfolding frame_def exec_state by (metis stmt_cases touches_answers touches_trans)

lemma row_of_put: "row_of (put_row db i t s) k = (if k = (db, i) then Some t else row_of s k)"
  by (simp add: put_row_def row_of_def)

lemma ran_of_put [simp]: "ran_of (put_row db i t s) k = ran_of s k"
  by (simp add: put_row_def ran_of_def)

lemma frame_insert: "frame {(db, i)} (InsertMigrationEntry err db i t)" "frame {(db, i)} (exec err (put_row db i t))"
  by (auto simp: InsertMigrationEntry_def touches_def row_of_put intro!: frame_exec)

lemma apply_operation_keeps [simp]:
  "row_of (apply_operation E op s) k = row_of s k" "ran_of (apply_operation E op s) k = ran_of s k"
  "st_rows (apply_operation E op s) = st_rows s" "st_ran (apply_operation E op s) = st_ran s"
  by (simp_all add: apply_operation_def row_of_def ran_of_def split: operation.split)

lemma ran_of_append: "ran_of (s\<lparr>st_ran := st_ran s @ [(db, i, op)]\<rparr>) k = ran_of s k @ (if k = (db, i) then [op] else [])"
  "row_of (s\<lparr>st_ran := st_ran s @ [(db, i, op)]\<rparr>) k = row_of s k"
  by (simp_all add: ran_of_def row_of_def)

lemma frame_run: "frame {(db, i)} (RunOperationWithoutUpdate E item i db)"
  unfolding frame_def
proof
  fix s
  show "touches {(db, i)} s (snd (RunOperationWithoutUpdate E item i db s))"
  proof (cases item)
    case None
    then show ?thesis by (simp add: RunOperationWithoutUpdate_def)
  next
    case (Some op)
    let ?s = "s\<lparr>st_ran := st_ran s @ [(db, i, op)]\<rparr>"
    have "touches {(db, i)} s ?s" by (auto simp: touches_def ran_of_append)
    moreover have "touches {(db, i)} ?s (snd (exec Fatal (apply_operation E op) ?s))"
      using frame_exec [of "{(db, i)}" "apply_operation E op" Fatal] by (simp add: touches_def frame_def)
    ultimately have "touches {(db, i)} s (snd (exec Fatal (apply_operation E op) ?s))" by (rule touches_trans)
    then show ?thesis by (cases "ToSQL op") (simp_all add: RunOperationWithoutUpdate_def Some)
  qed
qed

lemma frame_marked: "frame {(db, i)} (run_marked E db i item)"
  unfolding frame_def
proof
  fix s
  obtain r t where f: "RunOperationWithoutUpdate E item i db s = (r, t)" by force
  have 1: "touches {(db, i)} s t" using frame_run [of db i E item] f unfolding frame_def by (metis snd_conv)
  have 2: "touches {(db, i)} t (snd (InsertMigrationEntry Fatal db i FailedStatus t))" by (rule frame_insert(1) [unfolded frame_def, rule_format])
  show "touches {(db, i)} s (snd (run_marked E db i item s))"
    using 1 touches_trans [OF 1 2]
    by (auto simp: run_marked_def f split: sum.split migrate_error.split prod.split)
qed

lemma frame_status [simp]: "frame K (MigrationStatus db i)" "frame K (CheckMigrationStatus db i t)"
  by (auto simp: MigrationStatus_def CheckMigrationStatus_def intro!: frame_then)

lemma frame_validated [simp]: "frame K (validated E)"
  by (simp add: frame_def validated_def split: sum.split)

lemma frame_if: "frame K f \<Longrightarrow> frame K g \<Longrightarrow> frame K (\<lambda>s. if c s then f s else g s)"
  by (simp add: frame_def)

lemma frame_inspect [simp]: "frame K (InspectBaselineState E spec)"
  unfolding InspectBaselineState_def [abs_def] Let_def
  by (intro frame_if frame_then frame_return frame_query) (auto intro!: frame_then split: prod.split)

lemma frame_inspect_all [simp]: "frame K (inspect_all E specs acc)"
proof (induction specs arbitrary: acc)
  case (Cons spec specs)
  have "frame K (then_do (InspectBaselineState E spec) (\<lambda>i. inspect_all E specs (acc @ [i])))"
    by (rule frame_then [OF frame_inspect Cons.IH])
  then show ?case by (simp add: frame_def)
qed (simp add: frame_def)

lemma frame_canonical [simp]: "frame K (InspectCanonicalBaselineState E)"
  unfolding InspectCanonicalBaselineState_def by (rule frame_then) simp_all

lemma frame_require [simp]: "frame K (requireCanonicalBaseline E)"
  unfolding requireCanonicalBaseline_def by (intro frame_then) simp_all

lemma frame_fingerprint [simp]: "frame K (InspectCanonicalSchemaFingerprint E db)"
  unfolding InspectCanonicalSchemaFingerprint_def [abs_def]
  by (intro frame_if frame_then frame_return frame_query) (auto intro!: frame_then)

lemma frame_verify [simp]: "frame K (verifyCanonicalSchemas E)"
proof -
  have "frame K (VerifyCanonicalSchema E db)" for db
    unfolding VerifyCanonicalSchema_def by (auto intro!: frame_then split: option.split)
  then show ?thesis unfolding verifyCanonicalSchemas_def by (intro frame_for_each)
qed

lemma frame_require_finished [simp]: "frame K (requireEarlierPostBaselineMigrations E item phase)"
proof -
  have "frame K (require_finished e)" for e unfolding require_finished_def by (rule frame_then) simp_all
  then show ?thesis unfolding requireEarlierPostBaselineMigrations_def by (intro frame_for_each)
qed

lemma frame_check [simp]: "frame K (checkPostBaselineMigrations E phase)"
proof -
  have "frame K (check_item E phase item)" for item unfolding check_item_def by (intro frame_then) simp_all
  then have "frame K (for_each (check_item E phase) xs)" for xs by (intro frame_for_each)
  then show ?thesis unfolding checkPostBaselineMigrations_def by (intro frame_then) simp_all
qed

text \<open>The baseline and the tables of migrations have identifiers below those of the registry.\<close>

definition early_keys :: "(string \<times> u64) set" where
  "early_keys = {(db, i). i < PostBaselineMigrationIDStart}"

lemma frame_baseline: "frame early_keys (ensureCanonicalBaseline E)"
proof -
  have early: "(bs_Database spec, m_ID (bs_BaselineMigration spec)) \<in> early_keys" if "spec \<in> set (CanonicalBaselineSpecs E)" for spec
    using that by (auto simp: CanonicalBaselineSpecs_def early_keys_def CanonicalBaselineMigrationID_def PostBaselineMigrationIDStart_def)
  have create: "frame early_keys (create_baseline E)"
    unfolding create_baseline_def
    by (intro frame_for_each) (use early in \<open>auto intro!: frame_mono [OF frame_marked]\<close>)
  have mark: "frame early_keys (for_each mark_baseline (CanonicalBaselineSpecs E))"
  proof (rule frame_for_each)
    fix spec
    assume "spec \<in> set (CanonicalBaselineSpecs E)"
    then have k: "{(bs_Database spec, m_ID (bs_BaselineMigration spec))} \<subseteq> early_keys" using early by simp
    show "frame early_keys (mark_baseline spec)"
      unfolding mark_baseline_def by (intro frame_then) (auto intro: frame_mono [OF frame_insert(1) k])
  qed
  have "frame early_keys (then_do (create_baseline E) (\<lambda>_. then_do (verifyCanonicalSchemas E) (\<lambda>_. for_each mark_baseline (CanonicalBaselineSpecs E))))"
    by (intro frame_then create mark) simp
  then show ?thesis unfolding ensureCanonicalBaseline_def by (intro frame_then) (auto split: baseline_state.split)
qed

lemma frame_bootstrap: "frame early_keys (Bootstrap (E :: 'q migrate_env) n)"
proof -
  have run: "frame {(db, i)} (RunOperation E item i db True)" for db i item
    unfolding frame_def
  proof
    fix s
    obtain r t where f: "RunOperationWithoutUpdate E item i db s = (r, t)" by force
    have "touches {(db, i)} s t" using frame_run [of db i E item] f unfolding frame_def by (metis snd_conv)
    then show "touches {(db, i)} s (snd (RunOperation E item i db True s))"
      by (auto simp: RunOperation_def then_do_def f split: sum.split migrate_error.split)
  qed
  have should: "frame K (ShouldRunOperation item)" for K item
    by (auto simp: ShouldRunOperation_def split: option.split operation.split)
  have table: "frame {(db, m_ID m)} (create_migration_table E (db, m))" for db m
    unfolding create_migration_table_def by (auto intro!: frame_for_each frame_then run should)
  have "(db, m_ID m) \<in> early_keys" if "(db, m) \<in> set V2MigrationTables" for db m
    using that by (auto simp: V2MigrationTables_def migrationTableMigration_def early_keys_def PostBaselineMigrationIDStart_def)
  then have tables: "frame early_keys (CreateMigrationTables E)"
    unfolding CreateMigrationTables_def by (intro frame_for_each) (auto intro!: frame_mono [OF table])
  have "frame K (create_database db :: ('q, unit) command)" for K db
    unfolding create_database_def [abs_def]
    by (intro frame_if frame_return frame_exec) (simp add: touches_def row_of_def ran_of_def)
  then have "frame K (CreateDatabases n :: ('q, unit) command)" for K
    unfolding CreateDatabases_def by (intro frame_then frame_for_each) simp_all
  then show ?thesis unfolding Bootstrap_def by (intro frame_then tables)
qed

section \<open>The registry\<close>

definition valid_item :: "phase \<Rightarrow> post_migration \<Rightarrow> bool" where
  "valid_item phase item \<longleftrightarrow> isKnownDatabase (pb_Database item) \<and> PostBaselineMigrationIDStart \<le> pb_ID item \<and>
     m_UpItems (pb_Migration item) \<noteq> [] \<and> m_DownItems (pb_Migration item) = [] \<and>
     (\<forall>o' \<in> set (m_UpItems (pb_Migration item)). \<exists>op. o' = Some op \<and> isSyncOperation op = (phase = SyncPhase))"

definition key_of :: "post_migration \<Rightarrow> string \<times> u64" where
  "key_of item = (pb_Database item, pb_ID item)"

definition ids_in :: "string \<Rightarrow> post_migration list \<Rightarrow> u64 list" where
  "ids_in db items = map pb_ID (filter (\<lambda>item. pb_Database item = db) items)"

definition valid_registry :: "post_migration list \<Rightarrow> post_migration list \<Rightarrow> bool" where
  "valid_registry sync async \<longleftrightarrow>
     list_all (valid_item SyncPhase) sync \<and> list_all (valid_item AsyncPhase) async \<and>
     (\<forall>db. sorted_wrt (<) (ids_in db sync)) \<and> (\<forall>db. sorted_wrt (<) (ids_in db async)) \<and>
     key_of ` set sync \<inter> key_of ` set async = {}"

lemma validate_operations:
  "fold_result (validate_operation phase) items v = Inr v' \<longleftrightarrow>
     v' = v \<and> (\<forall>o' \<in> set items. \<exists>op. o' = Some op \<and> isSyncOperation op = (phase = SyncPhase))"
  by (induction items) (auto simp: validate_operation_def split: option.split)

lemma validate_item_iff:
  "validate_item phase item v = Inr v' \<longleftrightarrow>
     valid_item phase item \<and> (va_last v (pb_Database item) = 0 \<or> va_last v (pb_Database item) < pb_ID item) \<and> key_of item \<notin> va_seen v \<and>
     v' = v\<lparr>va_last := (va_last v)(pb_Database item := pb_ID item), va_seen := insert (key_of item) (va_seen v)\<rparr>"
  by (auto simp: validate_item_def Let_def valid_item_def validate_operations key_of_def split: if_splits)

text \<open>The identifiers still to come follow the last one of their database.\<close>

definition follows :: "(string \<Rightarrow> u64) \<Rightarrow> post_migration list \<Rightarrow> bool" where
  "follows prev items \<longleftrightarrow> (\<forall>db. sorted_wrt (<) ((if prev db = 0 then [] else [prev db]) @ ids_in db items))"

lemma follows_Cons:
  assumes "pb_ID item \<noteq> 0"
  shows "follows prev (item # items) \<longleftrightarrow>
    (prev (pb_Database item) = 0 \<or> prev (pb_Database item) < pb_ID item) \<and> follows (prev(pb_Database item := pb_ID item)) items"
    (is "?l \<longleftrightarrow> ?r")
proof -
  let ?db = "pb_Database item"
  let ?S = "\<lambda>p db. sorted_wrt (<) ((if p db = 0 then [] else [p db]) @ ids_in db items)"
  have here: "sorted_wrt (<) ((if prev ?db = 0 then [] else [prev ?db]) @ ids_in ?db (item # items)) \<longleftrightarrow>
      (prev ?db = 0 \<or> prev ?db < pb_ID item) \<and> ?S (prev(?db := pb_ID item)) ?db"
    using assms by (auto simp: ids_in_def intro: less_trans)
  have other: "db \<noteq> ?db \<Longrightarrow> sorted_wrt (<) ((if prev db = 0 then [] else [prev db]) @ ids_in db (item # items)) \<longleftrightarrow>
      ?S (prev(?db := pb_ID item)) db" for db by (simp add: ids_in_def)
  show ?thesis
  proof
    assume l: ?l
    then have "(prev ?db = 0 \<or> prev ?db < pb_ID item) \<and> ?S (prev(?db := pb_ID item)) ?db"
      unfolding follows_def here [symmetric] by blast
    moreover have "?S (prev(?db := pb_ID item)) db" if "db \<noteq> ?db" for db
      using l that unfolding follows_def other [OF that, symmetric] by blast
    ultimately show ?r unfolding follows_def by metis
  next
    assume r: ?r
    show ?l
      unfolding follows_def
    proof
      fix db
      show "sorted_wrt (<) ((if prev db = 0 then [] else [prev db]) @ ids_in db (item # items))"
      proof (cases "db = ?db")
        case True
        have "?S (prev(?db := pb_ID item)) ?db" using r unfolding follows_def by blast
        then show ?thesis unfolding True here using r by blast
      next
        case False
        show ?thesis unfolding other [OF False] using r unfolding follows_def by blast
      qed
    qed
  qed
qed

lemma follows_fresh: "follows prev items \<Longrightarrow> prev db \<noteq> 0 \<Longrightarrow> (db, prev db) \<notin> key_of ` set items"
  by (fastforce simp: follows_def key_of_def ids_in_def dest!: spec [of _ db])

lemma validate_phase:
  "(\<exists>v'. fold_result (validate_item phase) items v = Inr v' \<and> va_seen v' = va_seen v \<union> key_of ` set items) \<longleftrightarrow>
     list_all (valid_item phase) items \<and> follows (va_last v) items \<and> key_of ` set items \<inter> va_seen v = {}"
proof (induction items arbitrary: v)
  case Nil
  then show ?case by (simp add: follows_def ids_in_def)
next
  case (Cons item items)
  let ?v = "v\<lparr>va_last := (va_last v)(pb_Database item := pb_ID item), va_seen := insert (key_of item) (va_seen v)\<rparr>"
  have nz: "valid_item phase item \<Longrightarrow> pb_ID item \<noteq> 0"
    by (auto simp: valid_item_def PostBaselineMigrationIDStart_def)
  show ?case
  proof (cases "validate_item phase item v")
    case (Inl e)
    then have "\<not> (valid_item phase item \<and> (va_last v (pb_Database item) = 0 \<or> va_last v (pb_Database item) < pb_ID item) \<and> key_of item \<notin> va_seen v)"
      using validate_item_iff [of phase item v ?v] by simp
    then show ?thesis using Inl nz follows_Cons [of item "va_last v" items] by auto
  next
    case (Inr w)
    then have w: "w = ?v" and ok: "valid_item phase item" "va_last v (pb_Database item) = 0 \<or> va_last v (pb_Database item) < pb_ID item"
        "key_of item \<notin> va_seen v" using validate_item_iff by blast+
    have fresh: "follows (va_last ?v) items \<Longrightarrow> key_of item \<notin> key_of ` set items"
      using follows_fresh [of "va_last ?v" items "pb_Database item"] nz [OF ok(1)] by (auto simp: key_of_def)
    have f: "follows (va_last v) (item # items) \<longleftrightarrow> follows (va_last ?v) items"
      using follows_Cons [OF nz [OF ok(1)], of "va_last v" items] ok(2) by simp
    have "(\<exists>v'. fold_result (validate_item phase) (item # items) v = Inr v' \<and> va_seen v' = va_seen v \<union> key_of ` set (item # items)) \<longleftrightarrow>
        (\<exists>v'. fold_result (validate_item phase) items ?v = Inr v' \<and> va_seen v' = va_seen ?v \<union> key_of ` set items)"
      using Inr w by simp
    also have "\<dots> \<longleftrightarrow> list_all (valid_item phase) items \<and> follows (va_last ?v) items \<and> key_of ` set items \<inter> va_seen ?v = {}"
      by (rule Cons.IH)
    also have "\<dots> \<longleftrightarrow> list_all (valid_item phase) (item # items) \<and> follows (va_last v) (item # items) \<and> key_of ` set (item # items) \<inter> va_seen v = {}"
      using ok fresh by (auto simp: f)
    finally show ?thesis .
  qed
qed

lemma validate_seen: "fold_result (validate_item phase) items v = Inr v' \<Longrightarrow> va_seen v' = va_seen v \<union> key_of ` set items"
proof (induction items arbitrary: v)
  case (Cons item items)
  then obtain w where "validate_item phase item v = Inr w" "fold_result (validate_item phase) items w = Inr v'" by (auto split: sum.splits)
  then show ?case using Cons.IH validate_item_iff [of phase item v w] by auto
qed simp

text \<open>C26: The registry is accepted exactly when every migration is in a known database, has an identifier of at least 2000,
  operations of its own phase and none to undo it, and the identifiers of a database increase within each phase and
  are not shared between the phases.\<close>

theorem validation_is_exact:
  "validatePostBaselineMigrations sync async = Inr () \<longleftrightarrow> valid_registry sync async"
proof -
  let ?v = "\<lparr>va_seen = {}, va_last = (\<lambda>db. 0)\<rparr>"
  have sorted: "follows (\<lambda>db. 0) items \<longleftrightarrow> (\<forall>db. sorted_wrt (<) (ids_in db items))" for items by (simp add: follows_def)
  have sync: "(\<exists>v. fold_result (validate_item SyncPhase) sync ?v = Inr v) \<longleftrightarrow>
      list_all (valid_item SyncPhase) sync \<and> (\<forall>db. sorted_wrt (<) (ids_in db sync))"
    using validate_phase [of SyncPhase sync ?v] validate_seen [of SyncPhase sync ?v] by (auto simp: sorted)
  show ?thesis
  proof (cases "fold_result (validate_item SyncPhase) sync ?v")
    case (Inl e)
    then show ?thesis using sync by (auto simp: validatePostBaselineMigrations_def valid_registry_def)
  next
    case (Inr v)
    have seen: "va_seen v = key_of ` set sync" using validate_seen [OF Inr] by simp
    let ?w = "v\<lparr>va_last := (\<lambda>db. 0)\<rparr>"
    have "(\<exists>w. fold_result (validate_item AsyncPhase) async ?w = Inr w) \<longleftrightarrow>
        list_all (valid_item AsyncPhase) async \<and> (\<forall>db. sorted_wrt (<) (ids_in db async)) \<and> key_of ` set async \<inter> key_of ` set sync = {}"
      using validate_phase [of AsyncPhase async ?w] validate_seen [of AsyncPhase async ?w] by (auto simp: sorted seen)
    moreover have "validatePostBaselineMigrations sync async = Inr () \<longleftrightarrow> (\<exists>w. fold_result (validate_item AsyncPhase) async ?w = Inr w)"
      by (simp add: validatePostBaselineMigrations_def Inr split: sum.split)
    ultimately show ?thesis using sync Inr by (auto simp: valid_registry_def)
  qed
qed

section \<open>Each migration runs once and in order\<close>

definition once :: "'q store \<Rightarrow> post_migration \<Rightarrow> bool" where
  "once s item \<longleftrightarrow>
     prefix (map Some (ran_of s (key_of item))) (m_UpItems (pb_Migration item)) \<and>
     (row_of s (key_of item) = None \<longrightarrow> ran_of s (key_of item) = []) \<and>
     (row_of s (key_of item) = Some FinishedStatus \<longrightarrow> map Some (ran_of s (key_of item)) = m_UpItems (pb_Migration item))"

definition in_order :: "'q migrate_env \<Rightarrow> 'q store \<Rightarrow> phase \<Rightarrow> post_migration \<Rightarrow> bool" where
  "in_order E s phase item \<longleftrightarrow> (ran_of s (key_of item) \<noteq> [] \<longrightarrow>
     (\<forall>earlier \<in> set (prerequisitePostBaselineMigrations E item phase). row_of s (key_of earlier) = Some FinishedStatus))"

definition migration_inv :: "'q migrate_env \<Rightarrow> 'q store \<Rightarrow> bool" where
  "migration_inv E s \<longleftrightarrow> (\<forall>phase. \<forall>item \<in> set (postBaselineMigrations E phase). once s item \<and> in_order E s phase item)"

abbreviation registered :: "'q migrate_env \<Rightarrow> bool" where
  "registered E \<equiv> valid_registry (me_sync E) (me_async E)"

lemma inv_answers: "migration_inv E (s\<lparr>st_answers := as\<rparr>) = migration_inv E s"
  unfolding migration_inv_def once_def in_order_def answers_irrelevant ..

text \<open>In a valid registry the key of a migration determines it and its phase.\<close>

lemma same_key:
  assumes "sorted_wrt (<) (ids_in (pb_Database a) items)" and "a \<in> set items" and "b \<in> set items" and "key_of a = key_of b"
  shows "a = b"
proof -
  let ?here = "filter (\<lambda>item. pb_Database item = pb_Database a) items"
  have "distinct (map pb_ID ?here)" using assms(1) unfolding ids_in_def strict_sorted_iff by simp
  then have "inj_on pb_ID (set ?here)" by (simp only: distinct_map)
  then show ?thesis by (rule inj_onD) (use assms(2-4) in \<open>auto simp: key_of_def\<close>)
qed

lemma key_determines:
  assumes "registered E" and "a \<in> set (postBaselineMigrations E p)" and "b \<in> set (postBaselineMigrations E q)" and "key_of a = key_of b"
  shows "p = q" and "a = b"
proof -
  have d: "key_of ` set (me_sync E) \<inter> key_of ` set (me_async E) = {}" using assms(1) by (simp add: valid_registry_def)
  show pq: "p = q"
  proof (rule ccontr)
    assume "p \<noteq> q"
    have "key_of a \<in> key_of ` set (postBaselineMigrations E p)" "key_of a \<in> key_of ` set (postBaselineMigrations E q)"
      using imageI [OF assms(2), of key_of] imageI [OF assms(3), of key_of] assms(4) by simp_all
    then have "key_of a \<in> key_of ` set (me_sync E) \<inter> key_of ` set (me_async E)"
      using \<open>p \<noteq> q\<close> by (cases p; cases q) (simp_all add: postBaselineMigrations_def)
    then show False using d by simp
  qed
  have "sorted_wrt (<) (ids_in (pb_Database a) (postBaselineMigrations E p))"
    using assms(1) by (simp add: valid_registry_def postBaselineMigrations_def)
  then show "a = b" by (rule same_key) (use assms pq in auto)
qed

lemma late_key: "registered E \<Longrightarrow> item \<in> set (postBaselineMigrations E phase) \<Longrightarrow> key_of item \<notin> early_keys"
  by (auto simp: valid_registry_def postBaselineMigrations_def list_all_iff valid_item_def early_keys_def key_of_def not_less split: if_splits)

lemma prerequisite_registered:
  "earlier \<in> set (prerequisitePostBaselineMigrations E item phase) \<Longrightarrow>
    pb_ID earlier < pb_ID item \<and> (\<exists>p. earlier \<in> set (postBaselineMigrations E p))"
  by (auto simp: prerequisitePostBaselineMigrations_def postBaselineMigrations_def not_le split: if_splits)

text \<open>What touches no key of the registry keeps the invariant.\<close>

lemma early_keeps:
  assumes "registered E" and "frame early_keys f"
  shows "keeps (migration_inv E) f"
  unfolding keeps_def
proof (intro allI impI)
  fix s
  assume inv: "migration_inv E s"
  have same: "row_of (snd (f s)) k = row_of s k \<and> ran_of (snd (f s)) k = ran_of s k" if "k \<notin> early_keys" for k
    using assms(2) that unfolding frame_def touches_def by blast
  have "once (snd (f s)) item \<and> in_order E (snd (f s)) phase item" if i: "item \<in> set (postBaselineMigrations E phase)" for phase item
  proof -
    have "row_of (snd (f s)) (key_of e) = row_of s (key_of e)" if "e \<in> set (prerequisitePostBaselineMigrations E item phase)" for e
      using same late_key [OF assms(1)] prerequisite_registered [OF that] by blast
    note earlier = this
    have "once s item" "in_order E s phase item" using inv i unfolding migration_inv_def by blast+
    moreover note eq = same [OF late_key [OF assms(1) i]]
    ultimately show ?thesis
      unfolding once_def in_order_def eq [THEN conjunct1] eq [THEN conjunct2] using earlier by (simp only: simp_thms) metis
  qed
  then show "migration_inv E (snd (f s))" by (simp add: migration_inv_def)
qed

text \<open>The operations of a migration: those that are sent are the first ones, each once, and the row is not the final one.\<close>

definition under_way :: "'q store \<Rightarrow> string \<times> u64 \<Rightarrow> bool" where
  "under_way s k \<longleftrightarrow> row_of s k \<noteq> None \<and> row_of s k \<noteq> Some FinishedStatus"

lemma exec_cases:
  assumes "exec err f s = (r, t)"
  obtains (accepted) as where "r = Inr ()" "t = f (s\<lparr>st_answers := as\<rparr>)"
  | (failed) e as where "r = Inl e" "e = err \<or> e = Killed" "t = s\<lparr>st_answers := as\<rparr> \<or> t = f (s\<lparr>st_answers := as\<rparr>)"
proof -
  let ?s = "s\<lparr>st_answers := tl (st_answers s)\<rparr>"
  define a where "a = (case st_answers s of [] \<Rightarrow> Accept | a # _ \<Rightarrow> a)"
  have st: "stmt f s = (a, if takes_effect a then f ?s else ?s)" by (simp add: stmt_def Let_def a_def)
  show thesis
  proof (cases a)
    case Accept
    then show thesis using assms accepted [of "tl (st_answers s)"] by (simp add: exec_def st takes_effect_def)
  next
    case (Refuse b)
    then show thesis using assms failed [of err] by (cases b) (auto simp: exec_def st takes_effect_def)
  next
    case (Kill b)
    then show thesis using assms failed [of Killed] by (cases b) (auto simp: exec_def st takes_effect_def)
  qed
qed

lemma exec_apply:
  assumes "exec err (apply_operation E op) s = (r, t)"
  shows "row_of t k = row_of s k" and "ran_of t k = ran_of s k"
  using assms by (cases rule: exec_cases; auto)+

lemma run_marked_step:
  assumes "run_marked E db i item s = (r, t)" and "under_way s (db, i)"
  shows "under_way t (db, i)"
    and "map Some (ran_of t (db, i)) = map Some (ran_of s (db, i)) @ [item] \<or> r \<noteq> Inr () \<and> ran_of t (db, i) = ran_of s (db, i)"
proof -
  obtain r1 t1 where run: "RunOperationWithoutUpdate E item i db s = (r1, t1)" by force
  have 1: "row_of t1 (db, i) = row_of s (db, i)"
      "map Some (ran_of t1 (db, i)) = map Some (ran_of s (db, i)) @ [item] \<or> r1 = Inl Killed \<and> ran_of t1 (db, i) = ran_of s (db, i)"
  proof (atomize (full), cases item)
    case None
    then show "row_of t1 (db, i) = row_of s (db, i) \<and> (map Some (ran_of t1 (db, i)) = map Some (ran_of s (db, i)) @ [item] \<or>
        r1 = Inl Killed \<and> ran_of t1 (db, i) = ran_of s (db, i))" using run by (auto simp: RunOperationWithoutUpdate_def)
  next
    case (Some op)
    then show "row_of t1 (db, i) = row_of s (db, i) \<and> (map Some (ran_of t1 (db, i)) = map Some (ran_of s (db, i)) @ [item] \<or>
        r1 = Inl Killed \<and> ran_of t1 (db, i) = ran_of s (db, i))"
      using run by (cases "ToSQL op") (auto simp: RunOperationWithoutUpdate_def exec_apply ran_of_append)
  qed
  obtain r2 t2 where mark: "InsertMigrationEntry Fatal db i FailedStatus t1 = (r2, t2)" by force
  have 2: "under_way t2 (db, i)" "ran_of t2 (db, i) = ran_of t1 (db, i)"
  proof (atomize (full))
    show "under_way t2 (db, i) \<and> ran_of t2 (db, i) = ran_of t1 (db, i)"
      using mark unfolding InsertMigrationEntry_def
      by (cases rule: exec_cases) (use assms(2) 1(1) in \<open>auto simp: under_way_def row_of_put FailedStatus_def FinishedStatus_def\<close>)
  qed
  have t: "t = t1 \<and> (r = r1 \<and> (r1 = Inr () \<or> r1 = Inl Killed)) \<or> t = t2 \<and> r \<noteq> Inr () \<and> r1 \<noteq> Inl Killed"
    using assms(1) by (auto simp: run_marked_def run mark split: sum.splits migrate_error.splits prod.splits)
  show "under_way t (db, i)" using t 2 1(1) assms(2) by (auto simp: under_way_def)
  show "map Some (ran_of t (db, i)) = map Some (ran_of s (db, i)) @ [item] \<or> r \<noteq> Inr () \<and> ran_of t (db, i) = ran_of s (db, i)"
    using t 2 1(2) by auto
qed

lemma run_marked_all:
  assumes "for_each (run_marked E db i) items s = (r, t)" and "under_way s (db, i)"
  shows "under_way t (db, i) \<and> (\<exists>sent rest. items = sent @ rest \<and> map Some (ran_of t (db, i)) = map Some (ran_of s (db, i)) @ sent \<and>
    (r = Inr () \<longrightarrow> rest = []))"
  using assms
proof (induction items arbitrary: s)
  case (Cons item items)
  obtain r1 t1 where 1: "run_marked E db i item s = (r1, t1)" by force
  note step = run_marked_step [OF 1 Cons.prems(2)]
  show ?case
  proof (cases r1)
    case (Inl e)
    then have "r = Inl e" "t = t1" using Cons.prems(1) by (simp_all add: then_do_def 1)
    then show ?thesis using step by (metis Inl append.right_neutral append_Cons append_Nil sum.distinct(1))
  next
    case (Inr u)
    then have "for_each (run_marked E db i) items t1 = (r, t)" using Cons.prems(1) by (simp add: then_do_def 1)
    then obtain sent rest where IH: "under_way t (db, i)" "items = sent @ rest"
        "map Some (ran_of t (db, i)) = map Some (ran_of t1 (db, i)) @ sent" "r = Inr () \<longrightarrow> rest = []"
      using Cons.IH step(1) by blast
    have "map Some (ran_of t1 (db, i)) = map Some (ran_of s (db, i)) @ [item]" using step(2) Inr by simp
    then show ?thesis using IH by (intro conjI exI [of _ "item # sent"] exI [of _ rest]) simp_all
  qed
qed auto

lemma frame_run_migration: "frame {key_of item} (run_migration E item)"
  unfolding run_migration_def key_of_def by (intro frame_then frame_for_each frame_insert(1) frame_marked)

lemma run_migration_once:
  assumes "once s item" and "row_of s (key_of item) = None"
  shows "once (snd (run_migration E item s)) item"
proof -
  let ?k = "key_of item" and ?db = "pb_Database item" and ?ops = "m_UpItems (pb_Migration item)"
  have k: "?k = (?db, pb_ID item)" by (simp add: key_of_def)
  have none: "ran_of s ?k = []" using assms by (simp add: once_def)
  obtain r1 t1 where 1: "InsertMigrationEntry Retryable ?db (pb_ID item) InProgressStatus s = (r1, t1)" by force
  have e1: "exec Retryable (put_row ?db (pb_ID item) InProgressStatus) s = (r1, t1)" using 1 by (simp add: InsertMigrationEntry_def)
  have way: "r1 = Inr () \<Longrightarrow> under_way t1 ?k" and ran1: "ran_of t1 ?k = []" and row1: "row_of t1 ?k \<noteq> Some FinishedStatus"
    using e1
    by (cases rule: exec_cases;
        use none assms(2) in \<open>auto simp: under_way_def row_of_put k InProgressStatus_def FinishedStatus_def\<close>)+
  show ?thesis
  proof (cases r1)
    case (Inl e)
    then show ?thesis using ran1 row1 by (simp add: run_migration_def then_do_def 1 once_def)
  next
    case (Inr u)
    obtain r2 t2 where 2: "for_each (run_marked E ?db (pb_ID item)) ?ops t1 = (r2, t2)" by force
    obtain sent rest where l: "under_way t2 ?k" "?ops = sent @ rest" "map Some (ran_of t2 ?k) = sent" "r2 = Inr () \<Longrightarrow> rest = []"
      using run_marked_all [OF 2] way Inr ran1 by (auto simp: k)
    show ?thesis
    proof (cases r2)
      case (Inl e)
      then have "snd (run_migration E item s) = t2" using Inr by (simp add: run_migration_def then_do_def 1 2)
      then show ?thesis using l by (auto simp: once_def under_way_def)
    next
      case (Inr u2)
      obtain r3 t3 where 3: "InsertMigrationEntry Fatal ?db (pb_ID item) FinishedStatus t2 = (r3, t3)" by force
      have s: "snd (run_migration E item s) = t3" using \<open>r1 = Inr u\<close> Inr by (simp add: run_migration_def then_do_def 1 2 3)
      have "exec Fatal (put_row ?db (pb_ID item) FinishedStatus) t2 = (r3, t3)" using 3 by (simp add: InsertMigrationEntry_def)
      then have "ran_of t3 ?k = ran_of t2 ?k \<and> row_of t3 ?k \<noteq> None"
        by (cases rule: exec_cases) (use l(1) in \<open>auto simp: under_way_def row_of_put k\<close>)
      then show ?thesis using l Inr by (auto simp: s once_def)
    qed
  qed
qed

lemma query_result:
  assumes "query err g s = (Inr x, t)"
  shows "x = g t" and "\<exists>as. t = s\<lparr>st_answers := as\<rparr>"
  using assms by (auto simp: query_def stmt_def Let_def takes_effect_def split: answer.splits)

lemma status_result: "MigrationStatus db i s = (Inr x, t) \<Longrightarrow> x = row_of t (db, i) \<and> (\<exists>as. t = s\<lparr>st_answers := as\<rparr>)"
  using query_result [of Retryable "\<lambda>s. map_of (st_rows s) (db, i)" s x t] by (auto simp: MigrationStatus_def row_of_def)

lemma required_finished:
  "for_each require_finished items s = (Inr u, t) \<Longrightarrow>
    (\<forall>e \<in> set items. row_of s (key_of e) = Some FinishedStatus) \<and> (\<exists>as. t = s\<lparr>st_answers := as\<rparr>)"
proof (induction items arbitrary: s)
  case Nil
  then show ?case by (intro conjI exI [of _ "st_answers s"]) simp_all
next
  case (Cons e items)
  obtain r1 t1 where 1: "MigrationStatus (pb_Database e) (pb_ID e) s = (r1, t1)" by force
  have e: "require_finished e s = (case r1 of Inl err \<Rightarrow> Inl err
      | Inr status \<Rightarrow> case status of None \<Rightarrow> Inl Fatal | Some t \<Rightarrow> if t \<noteq> FinishedStatus then Inl Fatal else Inr (), t1)"
    by (cases r1) (simp_all add: require_finished_def then_do_def 1)
  have "\<exists>x. r1 = Inr x \<and> x = Some FinishedStatus \<and> for_each require_finished items t1 = (Inr u, t)"
    using Cons.prems unfolding for_each.simps then_do_def e by (auto split: sum.splits option.splits if_splits)
  then obtain x where x: "r1 = Inr x" "x = Some FinishedStatus" "for_each require_finished items t1 = (Inr u, t)" by blast
  obtain as where "t1 = s\<lparr>st_answers := as\<rparr>" "x = row_of t1 (key_of e)"
    using status_result [OF 1 [unfolded x(1)]] by (auto simp: key_of_def)
  then show ?case using Cons.IH [OF x(3)] x(2) by auto
qed

lemma post_baseline_keeps:
  assumes "registered E" and "item \<in> set (postBaselineMigrations E phase)"
  shows "keeps (migration_inv E) (post_baseline_item E phase item)"
  unfolding keeps_def
proof (intro allI impI)
  fix s
  assume inv: "migration_inv E s"
  obtain r1 t1 where 1: "requireEarlierPostBaselineMigrations E item phase s = (r1, t1)" by force
  have inv1: "migration_inv E t1"
    using early_keeps [OF assms(1) frame_require_finished, of E item phase] inv 1 unfolding keeps_def by (metis snd_conv)
  show "migration_inv E (snd (post_baseline_item E phase item s))"
  proof (cases r1)
    case (Inl e)
    then show ?thesis using inv1 by (simp add: post_baseline_item_def then_do_def 1)
  next
    case (Inr u1)
    obtain as where pre: "\<forall>e \<in> set (prerequisitePostBaselineMigrations E item phase). row_of s (key_of e) = Some FinishedStatus"
        and t1: "t1 = s\<lparr>st_answers := as\<rparr>"
      using required_finished [OF 1 [unfolded requireEarlierPostBaselineMigrations_def Inr]] by blast
    obtain r2 t2 where 2: "MigrationStatus (pb_Database item) (pb_ID item) t1 = (r2, t2)" by force
    show ?thesis
    proof (cases "r2 = Inr None")
      case False
      have "migration_inv E t2"
        using early_keeps [OF assms(1) frame_status(1)] inv1 2 unfolding keeps_def by (metis snd_conv)
      then show ?thesis
        using False Inr by (cases r2) (auto simp: post_baseline_item_def then_do_def 1 2 split: option.split)
    next
      case True
      obtain as2 where t2: "t2 = s\<lparr>st_answers := as2\<rparr>" and none: "row_of s (key_of item) = None"
        using status_result [OF 2 [unfolded True]] by (auto simp: key_of_def t1)
      let ?t = "snd (run_migration E item t2)"
      have res: "snd (post_baseline_item E phase item s) = ?t"
        using Inr True by (simp add: post_baseline_item_def then_do_def 1 2)
      have "once s item" using inv assms(2) by (simp add: migration_inv_def)
      then have here: "once ?t item" by (intro run_migration_once) (use none in \<open>simp_all add: t2 once_def\<close>)
      have other: "row_of ?t k = row_of s k \<and> ran_of ?t k = ran_of s k" if "k \<noteq> key_of item" for k
      proof -
        have "touches {key_of item} t2 ?t" using frame_run_migration [of item E] by (simp only: frame_def)
        then show ?thesis using that by (cases k) (simp add: touches_def t2)
      qed
      have "once ?t j \<and> in_order E ?t p j" if j: "j \<in> set (postBaselineMigrations E p)" for p j
      proof (cases "key_of j = key_of item")
        case True
        then have "j = item" "p = phase" using key_determines [OF assms(1) j assms(2)] by simp_all
        have "row_of ?t (key_of e) = Some FinishedStatus" if e: "e \<in> set (prerequisitePostBaselineMigrations E item phase)" for e
        proof -
          have "key_of e \<noteq> key_of item" using prerequisite_registered [OF e] by (auto simp: key_of_def)
          then show ?thesis using other pre e by simp
        qed
        then show ?thesis using here \<open>j = item\<close> \<open>p = phase\<close> by (simp add: in_order_def)
      next
        case False
        have js: "once s j" "in_order E s p j" using inv j by (simp_all add: migration_inv_def)
        note eq = other [OF False, THEN conjunct1] other [OF False, THEN conjunct2]
        have "in_order E ?t p j"
          unfolding in_order_def eq
        proof (intro impI ballI)
          fix e
          assume "ran_of s (key_of j) \<noteq> []" "e \<in> set (prerequisitePostBaselineMigrations E j p)"
          then have f: "row_of s (key_of e) = Some FinishedStatus" using js(2) by (simp add: in_order_def)
          then have "key_of e \<noteq> key_of item" using none by auto
          then show "row_of ?t (key_of e) = Some FinishedStatus" using other f by simp
        qed
        moreover have "once ?t j" using js(1) unfolding once_def eq .
        ultimately show ?thesis by simp
      qed
      then show ?thesis unfolding res migration_inv_def by blast
    qed
  qed
qed

lemma run_keeps:
  assumes "registered E"
  shows "keeps (migration_inv E) (runPostBaselineMigrations E phase)"
  unfolding runPostBaselineMigrations_def
  by (intro keeps_then keeps_for_each post_baseline_keeps early_keeps [OF assms frame_validated] early_keeps [OF assms frame_require] assms)

lemma command_keeps:
  assumes "registered E"
  shows "keeps (migration_inv E) (command_of E c)"
proof (cases c)
  case (RunBootstrap n arrived)
  then show ?thesis by (auto intro!: keeps_retries early_keeps assms frame_bootstrap)
next
  case (RunSyncUp n)
  then show ?thesis by (auto simp: SyncUp_def intro!: keeps_retries keeps_then run_keeps early_keeps [OF assms frame_baseline] assms)
next
  case (RunAsyncUp n)
  then show ?thesis by (auto simp: AsyncUp_def intro!: keeps_retries run_keeps assms)
next
  case (RunSyncCheck n)
  then show ?thesis by (auto simp: SyncCheck_def intro!: keeps_retries keeps_then early_keeps [OF assms frame_require] early_keeps [OF assms frame_check] early_keeps [OF assms frame_verify])
next
  case (RunAsyncCheck n)
  then show ?thesis by (auto simp: AsyncCheck_def intro!: keeps_retries early_keeps assms)
qed

lemma migrate_run_inv:
  assumes "registered E"
  shows "migration_inv E s \<Longrightarrow> migration_inv E (migrate_run E cmds s)"
proof (induction cmds arbitrary: s)
  case (Cons ca cmds)
  obtain c as where ca: "ca = (c, as)" by force
  have "migration_inv E (s\<lparr>st_answers := as\<rparr>)" using Cons.prems by (simp only: inv_answers)
  then have "migration_inv E (snd (command_of E c (s\<lparr>st_answers := as\<rparr>)))"
    using command_keeps [OF assms, of c] unfolding keeps_def by blast
  then show ?case using Cons.IH by (simp add: ca)
qed simp

lemma new_store_inv: "migration_inv E (new_store schema databases)"
  by (simp add: migration_inv_def once_def in_order_def ran_of_def row_of_def new_store_def FinishedStatus_def)

text \<open>C22: Over any run of commands on a new server, whatever statements are refused, take effect without an answer, or see the
  process die, the operations of a registered migration that are sent are the first of its operations, in order and
  each at most once; a migration that is marked as finished has had all of them sent.\<close>

theorem migrations_run_once:
  assumes "registered E" and "item \<in> set (postBaselineMigrations E phase)"
  shows "prefix (map Some (ran_of (migrate_run E cmds (new_store schema databases)) (key_of item))) (m_UpItems (pb_Migration item)) \<and>
    (row_of (migrate_run E cmds (new_store schema databases)) (key_of item) = Some FinishedStatus \<longrightarrow>
      map Some (ran_of (migrate_run E cmds (new_store schema databases)) (key_of item)) = m_UpItems (pb_Migration item))"
  using migrate_run_inv [OF assms(1) new_store_inv, of cmds schema databases] assms(2) unfolding migration_inv_def once_def by blast

text \<open>C23: No operation of a registered migration is sent before every migration that must precede it, those of the same
  database with a smaller identifier, in its own phase or an earlier one, is finished.\<close>

theorem migrations_run_in_order:
  assumes "registered E" and "item \<in> set (postBaselineMigrations E phase)"
    and "ran_of (migrate_run E cmds (new_store schema databases)) (key_of item) \<noteq> []"
    and "earlier \<in> set (me_sync E) \<or> phase = AsyncPhase \<and> earlier \<in> set (me_async E)"
    and "pb_Database earlier = pb_Database item" and "pb_ID earlier < pb_ID item"
  shows "row_of (migrate_run E cmds (new_store schema databases)) (key_of earlier) = Some FinishedStatus"
proof -
  have "earlier \<in> set (prerequisitePostBaselineMigrations E item phase)"
    using assms(4-6) by (auto simp: prerequisitePostBaselineMigrations_def not_le)
  then show ?thesis
    using migrate_run_inv [OF assms(1) new_store_inv, of cmds schema databases] assms(2, 3) unfolding migration_inv_def in_order_def by blast
qed

end
