(* ===== verification/BaselineTheorems.thy ===== *)
theory BaselineTheorems
  imports MigratorTheorems
begin

text \<open>
  The canonical baseline: when a store counts as new or as complete, that every other store is left alone for
  good, and what the verification of the schema asks of the migrations; and the properties of
  \<open>MigratorTheorems\<close> at a concrete registry.
\<close>

section \<open>New and complete stores\<close>

definition db_snapshot :: "'q migrate_env \<Rightarrow> 'q store \<Rightarrow> string \<Rightarrow> snapshot" where
  "db_snapshot E s db =
     \<lparr>sn_DomainTableCount = me_domain E (st_schema s) db, sn_LegacyTrackingTableCount = me_legacy E (st_schema s) db,
      sn_TrackingTableCount = (if db \<in> set (st_tracking s) then 1 else 0),
      sn_MigrationStatuses = (if db \<in> set (st_tracking s) then rows_of db s else [])\<rparr>"

definition store_state :: "'q migrate_env \<Rightarrow> 'q store \<Rightarrow> baseline_state" where
  "store_state E s = CombineBaselineInspections
     (map (\<lambda>spec. ClassifyBaselineState spec (db_snapshot E s (bs_Database spec))) (CanonicalBaselineSpecs E))"

text \<open>A new database has no tables and no rows; a complete one has its marker, and only finished rows that are expected.\<close>

definition pristine :: "'q migrate_env \<Rightarrow> 'q store \<Rightarrow> string \<Rightarrow> bool" where
  "pristine E s db \<longleftrightarrow> me_domain E (st_schema s) db = 0 \<and> me_legacy E (st_schema s) db = 0 \<and>
     (db \<in> set (st_tracking s) \<longrightarrow> rows_of db s = [])"

definition complete :: "'q migrate_env \<Rightarrow> 'q store \<Rightarrow> string \<Rightarrow> bool" where
  "complete E s db \<longleftrightarrow> me_legacy E (st_schema s) db = 0 \<and> db \<in> set (st_tracking s) \<and>
     map_of (rows_of db s) CanonicalBaselineMigrationID = Some FinishedStatus \<and>
     (\<forall>(i, t) \<in> set (rows_of db s). t = FinishedStatus \<and>
       (i = CanonicalBaselineMigrationID \<or> i \<in> set (postBaselineMigrationIDs (me_sync E) (me_async E) db)))"

lemma complete_iff:
  "in_State (ClassifyBaselineState spec sn) = BaselineStateComplete \<longleftrightarrow>
     in_State (ClassifyBaselineState spec sn) \<noteq> BaselineStateEmpty \<and> sn_LegacyTrackingTableCount sn = 0 \<and> sn_TrackingTableCount sn = 1 \<and>
     map_of (sn_MigrationStatuses sn) (m_ID (bs_BaselineMigration spec)) = Some FinishedStatus \<and>
     (\<forall>(i, t) \<in> set (sn_MigrationStatuses sn). t = FinishedStatus \<and>
       (i = m_ID (bs_BaselineMigration spec) \<or> i \<in> set (bs_AllowedMigrationIDs spec)))"
proof -
  have sort_nil: "sort xs = [] \<longleftrightarrow> xs = []" for xs :: "u64 list" by (metis length_0_conv length_sort)
  have f: "filter (\<lambda>(i, t). i \<notin> A) xs = [] \<and> filter (\<lambda>(i, t). i \<in> A \<and> t \<noteq> F) xs = [] \<longleftrightarrow> (\<forall>(i, t) \<in> set xs. t = F \<and> i \<in> A)"
    for xs :: "(u64 \<times> string) list" and A F by (auto simp: filter_empty_conv)
  show ?thesis
    using f [of "insert (m_ID (bs_BaselineMigration spec)) (set (bs_AllowedMigrationIDs spec))" "sn_MigrationStatuses sn" FinishedStatus]
    unfolding ClassifyBaselineState_def Let_def by (simp add: sort_nil) blast
qed

lemma classify_state:
  fixes E :: "'q migrate_env" and s :: "'q store"
  assumes "spec \<in> set (CanonicalBaselineSpecs E)"
  defines "st \<equiv> in_State (ClassifyBaselineState spec (db_snapshot E s (bs_Database spec)))"
  shows "st = BaselineStateEmpty \<longleftrightarrow> pristine E s (bs_Database spec)"
    and "st = BaselineStateComplete \<longleftrightarrow> complete E s (bs_Database spec)"
proof -
  obtain db where spec: "spec = \<lparr>bs_Database = db, bs_AllowedMigrationIDs = postBaselineMigrationIDs (me_sync E) (me_async E) db,
       bs_BaselineMigration = \<lparr>m_ID = CanonicalBaselineMigrationID, m_UpItems = map Some (me_ddl E db), m_DownItems = []\<rparr>\<rparr>"
    using assms(1) by (auto simp: CanonicalBaselineSpecs_def)
  show 1: "st = BaselineStateEmpty \<longleftrightarrow> pristine E s (bs_Database spec)"
    by (simp add: st_def ClassifyBaselineState_def db_snapshot_def pristine_def spec Let_def)
  let ?sn = "db_snapshot E s db"
  have d: "bs_Database spec = db" by (simp add: spec)
  have "st = BaselineStateComplete \<longleftrightarrow> st \<noteq> BaselineStateEmpty \<and> me_legacy E (st_schema s) db = 0 \<and> db \<in> set (st_tracking s) \<and>
      map_of (sn_MigrationStatuses ?sn) CanonicalBaselineMigrationID = Some FinishedStatus \<and>
      (\<forall>(i, t) \<in> set (sn_MigrationStatuses ?sn). t = FinishedStatus \<and>
        (i = CanonicalBaselineMigrationID \<or> i \<in> set (postBaselineMigrationIDs (me_sync E) (me_async E) db)))"
    unfolding st_def d complete_iff by (simp add: spec) (simp add: db_snapshot_def)
  also have "\<dots> \<longleftrightarrow> st \<noteq> BaselineStateEmpty \<and> complete E s db"
    by (auto simp: complete_def db_snapshot_def)
  also have "\<dots> \<longleftrightarrow> complete E s db"
    unfolding 1 d by (auto simp: complete_def pristine_def)
  finally show "st = BaselineStateComplete \<longleftrightarrow> complete E s (bs_Database spec)" by (simp add: spec)
qed

lemma store_state_iff:
  "store_state E s = BaselineStateEmpty \<longleftrightarrow> (\<forall>db \<in> set Databases. pristine E s db)"
  "store_state E s = BaselineStateComplete \<longleftrightarrow> (\<forall>db \<in> set Databases. complete E s db)"
proof -
  let ?is = "map (\<lambda>spec. ClassifyBaselineState spec (db_snapshot E s (bs_Database spec))) (CanonicalBaselineSpecs E)"
  have dbs: "bs_Database ` set (CanonicalBaselineSpecs E) = set Databases" by (auto simp: CanonicalBaselineSpecs_def image_image)
  have e: "list_all (\<lambda>i. in_State i = BaselineStateEmpty) ?is \<longleftrightarrow> (\<forall>db \<in> set Databases. pristine E s db)"
    using classify_state(1) [of _ E s] unfolding dbs [symmetric] by (simp add: list_all_iff)
  have c: "list_all (\<lambda>i. in_State i = BaselineStateComplete) ?is \<longleftrightarrow> (\<forall>db \<in> set Databases. complete E s db)"
    using classify_state(2) [of _ E s] unfolding dbs [symmetric] by (simp add: list_all_iff)
  have ne: "?is \<noteq> []" by (simp add: CanonicalBaselineSpecs_def Databases_def)
  have x: "pristine E s db \<Longrightarrow> \<not> complete E s db" for db by (auto simp: pristine_def complete_def)
  have d: "SigInsightLogsDB \<in> set Databases" by (simp add: Databases_def)
  show "store_state E s = BaselineStateEmpty \<longleftrightarrow> (\<forall>db \<in> set Databases. pristine E s db)"
    unfolding store_state_def CombineBaselineInspections_def e c using ne by simp
  show "store_state E s = BaselineStateComplete \<longleftrightarrow> (\<forall>db \<in> set Databases. complete E s db)"
    unfolding store_state_def CombineBaselineInspections_def e c using ne x d by auto
qed

section \<open>Inspection reads the store\<close>

definition same_store :: "'q store \<Rightarrow> 'q store \<Rightarrow> bool" where
  "same_store s t \<longleftrightarrow> (\<exists>as. t = s\<lparr>st_answers := as\<rparr>)"

lemma same_store_simps [simp]:
  "same_store s s" "same_store s (s\<lparr>st_answers := as\<rparr>)"
  by (auto simp: same_store_def intro: exI [of _ "st_answers s"])

lemma same_store_trans: "same_store s t \<Longrightarrow> same_store t u \<Longrightarrow> same_store s u"
  by (auto simp: same_store_def)

lemma rows_of_answers [simp]: "rows_of db (s\<lparr>st_answers := as\<rparr>) = rows_of db s"
  by (simp add: rows_of_def)

lemma same_store_fields:
  assumes "same_store s t"
  shows "st_schema t = st_schema s" "st_rows t = st_rows s" "st_tracking t = st_tracking s" "st_databases t = st_databases s"
    "st_ran t = st_ran s" "store_state E t = store_state E s" "db_snapshot E t db = db_snapshot E s db"
proof -
  obtain as where t: "t = s\<lparr>st_answers := as\<rparr>" using assms by (auto simp: same_store_def)
  show snap: "db_snapshot E t db = db_snapshot E s db" for db by (simp add: t db_snapshot_def)
  show "store_state E t = store_state E s" by (simp add: store_state_def snap)
qed (use assms in \<open>auto simp: same_store_def\<close>)

text \<open>A command that only reads: what it returns is a function of the store without its answers.\<close>

definition reads :: "('q, 'a) command \<Rightarrow> ('q store \<Rightarrow> 'a) \<Rightarrow> bool" where
  "reads f g \<longleftrightarrow> (\<forall>s as. g (s\<lparr>st_answers := as\<rparr>) = g s) \<and>
     (\<forall>s. same_store s (snd (f s)) \<and> (\<forall>x. fst (f s) = Inr x \<longrightarrow> x = g s))"

lemma reads_return [simp]: "reads (\<lambda>s. (Inr x, s)) (\<lambda>s. x)"
  by (simp add: reads_def)

lemma query_answers:
  "query err g s =
     ((case (case st_answers s of [] \<Rightarrow> Accept | a # _ \<Rightarrow> a) of
         Accept \<Rightarrow> Inr (g (s\<lparr>st_answers := tl (st_answers s)\<rparr>)) | Refuse _ \<Rightarrow> Inl err | Kill _ \<Rightarrow> Inl Killed),
      s\<lparr>st_answers := tl (st_answers s)\<rparr>)"
  by (cases "case st_answers s of [] \<Rightarrow> Accept | a # _ \<Rightarrow> a") (simp_all add: query_def stmt_def Let_def)

lemma reads_query: "(\<And>s as. g (s\<lparr>st_answers := as\<rparr>) = g s) \<Longrightarrow> reads (query err g) g"
  by (auto simp: reads_def query_answers split: answer.splits)

lemma reads_then:
  assumes f: "reads f g" and k: "\<And>x. reads (k x) (h x)"
  shows "reads (then_do f k) (\<lambda>s. h (g s) s)"
  unfolding reads_def
proof (intro conjI allI impI)
  fix s as
  show "h (g (s\<lparr>st_answers := as\<rparr>)) (s\<lparr>st_answers := as\<rparr>) = h (g s) s" using f k by (simp add: reads_def)
next
  fix s
  obtain r t where e: "f s = (r, t)" by force
  have t: "same_store s t" "\<And>x. r = Inr x \<Longrightarrow> x = g s" using f e unfolding reads_def by (metis fst_conv snd_conv)+
  show "same_store s (snd (then_do f k s))"
  proof (cases r)
    case (Inr x)
    have "same_store t (snd (k x t))" using k by (simp add: reads_def)
    then show ?thesis using t(1) same_store_trans by (auto simp: then_do_def e Inr)
  qed (simp add: then_do_def e t)
  fix y assume y: "fst (then_do f k s) = Inr y"
  then obtain x where x: "r = Inr x" "fst (k x t) = Inr y" by (cases r) (auto simp: then_do_def e)
  have "y = h x t" using k x(2) by (simp add: reads_def)
  also have "h x t = h x s" using k t(1) unfolding reads_def same_store_def by blast
  finally show "y = h (g s) s" using t(2) [OF x(1)] by simp
qed

lemma reads_InspectBaselineState:
  fixes E :: "'q migrate_env"
  assumes "isKnownDatabase (bs_Database spec)"
  shows "reads (InspectBaselineState E spec) (\<lambda>s. ClassifyBaselineState spec (db_snapshot E s (bs_Database spec)))"
proof -
  let ?db = "bs_Database spec"
  let ?g = "\<lambda>s. (me_domain E (st_schema s) ?db, me_legacy E (st_schema s) ?db, if ?db \<in> set (st_tracking s) then 1 else (0 :: nat))"
  let ?c = "\<lambda>domain legacy tracking statuses. ClassifyBaselineState spec
     \<lparr>sn_DomainTableCount = domain, sn_LegacyTrackingTableCount = legacy, sn_TrackingTableCount = tracking, sn_MigrationStatuses = statuses\<rparr>"
  have rows: "reads (if tracking = (1 :: nat) then query Retryable (rows_of ?db) else (\<lambda>s. (Inr [], s)))
      (\<lambda>s :: 'q store. if tracking = 1 then rows_of ?db s else [])" for tracking
    by (simp add: reads_query)
  have k: "reads (then_do (if tracking = (1 :: nat) then query Retryable (rows_of ?db) else (\<lambda>s. (Inr [], s)))
        (\<lambda>statuses s. (Inr (?c domain legacy tracking statuses), s)))
      (\<lambda>s :: 'q store. ?c domain legacy tracking (if tracking = 1 then rows_of ?db s else []))" for domain legacy tracking
    by (rule reads_then [OF rows, where h = "\<lambda>statuses s. ?c domain legacy tracking statuses"]) (rule reads_return)
  have q: "reads (query Retryable ?g) ?g" by (rule reads_query) simp
  have "reads (then_do (query Retryable ?g) (\<lambda>x. case x of (domain, legacy, tracking) \<Rightarrow>
        then_do (if tracking = (1 :: nat) then query Retryable (rows_of ?db) else (\<lambda>s. (Inr [], s)))
        (\<lambda>statuses s. (Inr (?c domain legacy tracking statuses), s))))
      (\<lambda>s. case ?g s of (domain, legacy, tracking) \<Rightarrow> ?c domain legacy tracking (if tracking = 1 then rows_of ?db s else []))"
    by (rule reads_then [OF q, where h = "\<lambda>x s. case x of (domain, legacy, tracking) \<Rightarrow> ?c domain legacy tracking (if tracking = 1 then rows_of ?db s else [])"])
      (use k in \<open>auto split: prod.split\<close>)
  moreover have "InspectBaselineState E spec = then_do (query Retryable ?g) (\<lambda>x. case x of (domain, legacy, tracking) \<Rightarrow>
        then_do (if tracking = (1 :: nat) then query Retryable (rows_of ?db) else (\<lambda>s. (Inr [], s)))
        (\<lambda>statuses s. (Inr (?c domain legacy tracking statuses), s)))"
    using assms by (simp add: fun_eq_iff InspectBaselineState_def Let_def)
  moreover have "(case ?g s of (domain, legacy, tracking) \<Rightarrow> ?c domain legacy tracking (if tracking = 1 then rows_of ?db s else [])) =
      ClassifyBaselineState spec (db_snapshot E s ?db)" for s
    by (simp add: db_snapshot_def)
  ultimately show ?thesis by simp
qed

lemma reads_inspect_all:
  assumes "\<forall>spec \<in> set specs. isKnownDatabase (bs_Database spec)"
  shows "reads (inspect_all E specs acc) (\<lambda>s. acc @ map (\<lambda>spec. ClassifyBaselineState spec (db_snapshot E s (bs_Database spec))) specs)"
  using assms
proof (induction specs arbitrary: acc)
  case Nil
  have "inspect_all E [] acc = (\<lambda>s. (Inr acc, s))" by (simp add: fun_eq_iff)
  then show ?case by simp
next
  case (Cons spec specs)
  have "inspect_all E (spec # specs) acc = then_do (InspectBaselineState E spec) (\<lambda>i. inspect_all E specs (acc @ [i]))"
    by (simp add: fun_eq_iff)
  moreover have "reads (then_do (InspectBaselineState E spec) (\<lambda>i. inspect_all E specs (acc @ [i])))
     (\<lambda>s. (acc @ [ClassifyBaselineState spec (db_snapshot E s (bs_Database spec))]) @
        map (\<lambda>spec. ClassifyBaselineState spec (db_snapshot E s (bs_Database spec))) specs)"
    by (rule reads_then [OF reads_InspectBaselineState, where h = "\<lambda>i s. (acc @ [i]) @ map (\<lambda>spec. ClassifyBaselineState spec (db_snapshot E s (bs_Database spec))) specs"])
      (use Cons.prems Cons.IH [of "acc @ [x]" for x] in simp_all)
  ultimately show ?case by simp
qed

lemma known_specs: "\<forall>spec \<in> set (CanonicalBaselineSpecs E). isKnownDatabase (bs_Database spec)"
  by (auto simp: CanonicalBaselineSpecs_def isKnownDatabase_def)

lemma inspect_canonical_reads:
  assumes "InspectCanonicalBaselineState E s = (r, t)"
  shows "same_store s t" and "r = Inr st \<Longrightarrow> st = store_state E s"
proof -
  have "reads (then_do (inspect_all E (CanonicalBaselineSpecs E) []) (\<lambda>is s. (Inr (CombineBaselineInspections is), s)))
     (\<lambda>s. CombineBaselineInspections ([] @ map (\<lambda>spec. ClassifyBaselineState spec (db_snapshot E s (bs_Database spec))) (CanonicalBaselineSpecs E)))"
    by (rule reads_then [OF reads_inspect_all [OF known_specs], where h = "\<lambda>is s. CombineBaselineInspections is"]) simp
  then have "reads (InspectCanonicalBaselineState E) (store_state E)"
    by (simp add: InspectCanonicalBaselineState_def store_state_def [abs_def])
  then show "same_store s t" "r = Inr st \<Longrightarrow> st = store_state E s"
    using assms unfolding reads_def by (metis fst_conv snd_conv)+
qed

lemma incompatible_fails:
  assumes "store_state E s = BaselineStateIncompatible" and "ensureCanonicalBaseline E s = (r, t)"
  shows "same_store s t \<and> r \<noteq> Inr ()"
proof -
  obtain r2 t2 where 2: "InspectCanonicalBaselineState E s = (r2, t2)" by force
  note read = inspect_canonical_reads [OF 2]
  show ?thesis
    using assms(2) read(1) read(2) [of BaselineStateIncompatible] read(2) assms(1)
    by (cases r2; cases "validatePostBaselineMigrations (me_sync E) (me_async E)")
      (auto simp: ensureCanonicalBaseline_def then_do_def validated_def 2)
qed

lemma sync_up_fails:
  "store_state E s = BaselineStateIncompatible \<Longrightarrow> with_retries n (SyncUp E) s = (r, t) \<Longrightarrow> same_store s t \<and> r \<noteq> Inr ()"
proof (induction n arbitrary: s)
  case 0
  obtain r1 t1 where e: "ensureCanonicalBaseline E s = (r1, t1)" by force
  note f = incompatible_fails [OF "0.prems"(1) e]
  obtain err where err: "r1 = Inl err" using f by (cases r1) auto
  then show ?case using f "0.prems"(2) by (auto simp: SyncUp_def then_do_def e split: migrate_error.splits)
next
  case (Suc n)
  obtain r1 t1 where e: "ensureCanonicalBaseline E s = (r1, t1)" by force
  note f = incompatible_fails [OF Suc.prems(1) e]
  obtain err where err: "r1 = Inl err" using f by (cases r1) auto
  have up: "SyncUp E s = (Inl err, t1)" by (simp add: SyncUp_def then_do_def e err)
  show ?case
  proof (cases "err = Retryable")
    case True
    then have "with_retries n (SyncUp E) t1 = (r, t)" using Suc.prems(2) up by simp
    moreover have "store_state E t1 = BaselineStateIncompatible" using f Suc.prems(1) same_store_fields(6) by metis
    ultimately have "same_store t1 t \<and> r \<noteq> Inr ()" using Suc.IH by blast
    then show ?thesis using f same_store_trans by blast
  next
    case False
    then show ?thesis using Suc.prems(2) up f by (auto split: migrate_error.splits)
  qed
qed

text \<open>C24: A server that is neither new nor complete, some database with tables or rows and some database without a finished
  baseline or with a row that is unfinished or not expected, is left alone by the synchronous migrations: every run
  fails, whatever the server answers and however often it is retried, and nothing is created, marked or sent.\<close>

theorem foreign_store_untouched:
  assumes "db \<in> set Databases" and "\<not> pristine E s db" and "db' \<in> set Databases" and "\<not> complete E s db'"
    and "with_retries n (SyncUp E) s = (r, t)"
  shows "r \<noteq> Inr () \<and> st_schema t = st_schema s \<and> st_rows t = st_rows s \<and> st_ran t = st_ran s \<and> st_databases t = st_databases s"
proof -
  have inc: "store_state E s = BaselineStateIncompatible"
    using assms(1-4) store_state_iff [of E s] by (cases "store_state E s") auto
  have "same_store s t \<and> r \<noteq> Inr ()" using inc assms(5) by (rule sync_up_fails)
  then show ?thesis using same_store_fields(1, 2, 4, 5) [of s t] by simp
qed

text \<open>In particular an installation whose tables exist while a marker is missing stays as it is, also when the insert of
  the marker failed with an error that the command calls retryable.\<close>

lemma unmarked_baseline_is_final:
  assumes "db \<in> set Databases" and "me_domain E (st_schema s) db \<noteq> 0"
    and "db' \<in> set Databases" and "map_of (rows_of db' s) CanonicalBaselineMigrationID \<noteq> Some FinishedStatus"
  shows "fst (with_retries n (SyncUp E) s) \<noteq> Inr ()"
proof -
  have "store_state E s = BaselineStateIncompatible"
    using assms store_state_iff [of E s] by (cases "store_state E s") (auto simp: pristine_def complete_def)
  then show ?thesis using sync_up_fails [of E s n "fst (with_retries n (SyncUp E) s)" "snd (with_retries n (SyncUp E) s)"] by simp
qed

section \<open>Verification of the schema\<close>

definition known_fingerprint :: "'q migrate_env \<Rightarrow> 'q store \<Rightarrow> string \<Rightarrow> bool" where
  "known_fingerprint E s db \<longleftrightarrow> db \<in> set (st_databases s) \<and>
     (\<exists>f. map_of canonicalSchemaFingerprints db = Some f \<and> me_fingerprint E (st_schema s) db = f)"

lemma reads_InspectCanonicalSchemaFingerprint:
  fixes E :: "'q migrate_env"
  assumes "isKnownDatabase db"
  shows "reads (InspectCanonicalSchemaFingerprint E db)
    (\<lambda>s. if db \<in> set (st_databases s) then Some (me_fingerprint E (st_schema s) db) else None)"
proof -
  let ?fp = "query Retryable (\<lambda>s. me_fingerprint E (st_schema s) db)"
  let ?three = "then_do ?fp (\<lambda>tables. then_do ?fp (\<lambda>columns. then_do ?fp (\<lambda>indexes s.
      (Inr (Some \<lparr>TableCount = TableCount tables, TableHash = TableHash tables, ColumnCount = ColumnCount columns,
         ColumnHash = ColumnHash columns, IndexCount = IndexCount indexes, IndexHash = IndexHash indexes\<rparr>), s))))"
  have fp: "reads ?fp (\<lambda>s. me_fingerprint E (st_schema s) db)" by (rule reads_query) simp
  let ?f = "\<lambda>s. me_fingerprint E (st_schema s) db"
  have "reads ?three (\<lambda>s. Some \<lparr>TableCount = TableCount (?f s), TableHash = TableHash (?f s), ColumnCount = ColumnCount (?f s),
         ColumnHash = ColumnHash (?f s), IndexCount = IndexCount (?f s), IndexHash = IndexHash (?f s)\<rparr>)"
    by (rule reads_then [OF fp reads_then [OF fp reads_then [OF fp reads_return]]])
  moreover have "\<lparr>TableCount = TableCount x, TableHash = TableHash x, ColumnCount = ColumnCount x,
         ColumnHash = ColumnHash x, IndexCount = IndexCount x, IndexHash = IndexHash x\<rparr> = x" for x :: schema_fingerprint by simp
  ultimately have three: "reads ?three (\<lambda>s. Some (?f s))" by simp
  let ?k = "\<lambda>exists. if \<not> exists then (\<lambda>s. (Inr None, s)) else ?three"
  have "reads (then_do (query Retryable (\<lambda>s. db \<in> set (st_databases s))) ?k)
      (\<lambda>s. if db \<in> set (st_databases s) then Some (me_fingerprint E (st_schema s) db) else None)"
    by (rule reads_then [OF reads_query, where h = "\<lambda>exists s. if exists then Some (me_fingerprint E (st_schema s) db) else None"])
      (use three in simp_all)
  moreover have "InspectCanonicalSchemaFingerprint E db = then_do (query Retryable (\<lambda>s. db \<in> set (st_databases s))) ?k"
    using assms by (simp add: fun_eq_iff InspectCanonicalSchemaFingerprint_def)
  ultimately show ?thesis by simp
qed

lemma verify_reads:
  assumes "isKnownDatabase db" and "VerifyCanonicalSchema E db s = (r, t)"
  shows "same_store s t \<and> (r = Inr () \<longrightarrow> known_fingerprint E s db)"
proof (cases "map_of canonicalSchemaFingerprints db")
  case None
  then show ?thesis using assms(2) by (auto simp: VerifyCanonicalSchema_def)
next
  case (Some f)
  obtain r1 t1 where 1: "InspectCanonicalSchemaFingerprint E db s = (r1, t1)" by force
  have "same_store s t1" "\<And>x. r1 = Inr x \<Longrightarrow> x = (if db \<in> set (st_databases s) then Some (me_fingerprint E (st_schema s) db) else None)"
    using reads_InspectCanonicalSchemaFingerprint [OF assms(1), of E] 1 unfolding reads_def by (metis fst_conv snd_conv)+
  then show ?thesis using assms(2) Some
    by (cases r1) (auto simp: VerifyCanonicalSchema_def then_do_def 1 known_fingerprint_def split: if_splits)
qed

lemma for_each_verify:
  assumes "\<forall>spec \<in> set specs. isKnownDatabase (bs_Database spec)"
    and "for_each (\<lambda>spec. VerifyCanonicalSchema E (bs_Database spec)) specs s = (Inr (), t)"
  shows "\<forall>spec \<in> set specs. known_fingerprint E s (bs_Database spec)"
  using assms
proof (induction specs arbitrary: s)
  case (Cons spec specs)
  obtain r1 t1 where 1: "VerifyCanonicalSchema E (bs_Database spec) s = (r1, t1)" by force
  have v: "same_store s t1 \<and> (r1 = Inr () \<longrightarrow> known_fingerprint E s (bs_Database spec))"
    using verify_reads [OF _ 1] Cons.prems(1) by simp
  have r1: "r1 = Inr ()" "for_each (\<lambda>spec. VerifyCanonicalSchema E (bs_Database spec)) specs t1 = (Inr (), t)"
    using Cons.prems(2) by (cases r1; simp add: then_do_def 1)+
  have "known_fingerprint E t1 = known_fingerprint E s"
    using v same_store_fields(1, 4) [of s t1] by (simp add: known_fingerprint_def fun_eq_iff)
  then show ?case using Cons.IH [OF _ r1(2)] Cons.prems(1) v r1(1) by simp
qed simp

lemma verified_schemas:
  "verifyCanonicalSchemas E s = (Inr (), t) \<Longrightarrow> db \<in> set Databases \<Longrightarrow> known_fingerprint E s db"
  using for_each_verify [of "CanonicalBaselineSpecs E" E s t, OF known_specs] unfolding verifyCanonicalSchemas_def
  by (auto simp: CanonicalBaselineSpecs_def)



text \<open>Checks change nothing.\<close>

definition quiet :: "('q, 'a) command \<Rightarrow> bool" where
  "quiet f \<longleftrightarrow> (\<forall>s. same_store s (snd (f s)))"

lemma quiet_return [simp]: "quiet (\<lambda>s. (r, s))"
  by (simp add: quiet_def)

lemma quiet_query [simp]: "quiet (query err g)"
  by (simp add: quiet_def query_answers)

lemma quiet_then:
  assumes "quiet f" and "\<And>x. quiet (k x)"
  shows "quiet (then_do f k)"
  unfolding quiet_def
proof
  fix s
  obtain r t where e: "f s = (r, t)" by force
  then have t: "same_store s t" using assms(1) unfolding quiet_def by (metis snd_conv)
  show "same_store s (snd (then_do f k s))"
  proof (cases r)
    case (Inr x)
    have "same_store t (snd (k x t))" using assms(2) by (simp add: quiet_def)
    then show ?thesis using t same_store_trans by (auto simp: then_do_def e Inr)
  qed (simp add: then_do_def e t)
qed

lemma quiet_for_each: "(\<And>x. quiet (f x)) \<Longrightarrow> quiet (for_each f xs)"
proof (induction xs)
  case Nil
  have "for_each f [] = (\<lambda>s. (Inr (), s))" by (simp add: fun_eq_iff)
  then show ?case by simp
next
  case (Cons x xs)
  have "for_each f (x # xs) = then_do (f x) (\<lambda>_. for_each f xs)" by (simp add: fun_eq_iff)
  then show ?case using quiet_then Cons by metis
qed

lemma quiet_validated: "quiet (validated E)"
  by (simp add: quiet_def validated_def split: sum.split)

lemma quiet_status: "quiet (MigrationStatus db i)"
  by (simp add: MigrationStatus_def)

lemma quiet_inspect: "quiet (InspectCanonicalBaselineState E)"
  using inspect_canonical_reads(1) [of E] unfolding quiet_def by (metis prod.collapse)

lemmas quiet_rules = quiet_then quiet_for_each quiet_validated quiet_status quiet_inspect quiet_return

lemma quiet_checks:
  "quiet (requireCanonicalBaseline E)" "quiet (require_finished e)" "quiet (check_item E phase item)"
  "quiet (checkPostBaselineMigrations E phase)"
proof -
  show b: "quiet (requireCanonicalBaseline E)" unfolding requireCanonicalBaseline_def by (intro quiet_rules)
  show e: "quiet (require_finished e)" for e unfolding require_finished_def by (intro quiet_rules)
  show c: "quiet (check_item E phase item)" for item
    unfolding check_item_def requireEarlierPostBaselineMigrations_def by (intro quiet_rules e)
  show "quiet (checkPostBaselineMigrations E phase)"
    unfolding checkPostBaselineMigrations_def by (intro quiet_rules b c)
qed

lemma quiet_verify: "quiet (VerifyCanonicalSchema E db)"
proof (cases "map_of canonicalSchemaFingerprints db")
  case (Some f)
  have "quiet (InspectCanonicalSchemaFingerprint E db)"
  proof (cases "isKnownDatabase db")
    case True
    then show ?thesis using reads_InspectCanonicalSchemaFingerprint [of db E] by (simp add: reads_def quiet_def)
  qed (simp add: quiet_def InspectCanonicalSchemaFingerprint_def)
  then show ?thesis unfolding VerifyCanonicalSchema_def Some option.case by (intro quiet_rules)
qed (simp add: VerifyCanonicalSchema_def)

lemma quiet_step:
  assumes "quiet f" and "then_do f k s = (Inr y, t)"
  obtains x s' where "f s = (Inr x, s')" and "same_store s s'" and "k x s' = (Inr y, t)"
  using assms unfolding quiet_def then_do_def by (auto split: prod.splits sum.splits) (metis snd_conv)

lemma baseline_required:
  assumes "requireCanonicalBaseline E s = (Inr (), t)"
  shows "\<forall>db \<in> set Databases. complete E s db"
proof -
  obtain x s1 where 1: "same_store s s1" "then_do (InspectCanonicalBaselineState E)
      (\<lambda>state s. (if state \<noteq> BaselineStateComplete then Inl Fatal else Inr (), s)) s1 = (Inr (), t)"
    using assms unfolding requireCanonicalBaseline_def by (rule quiet_step [OF quiet_validated]) blast
  obtain st s2 where 2: "InspectCanonicalBaselineState E s1 = (Inr st, s2)" "st = BaselineStateComplete"
    using 1(2) by (rule quiet_step [OF quiet_inspect]) (auto split: if_splits)
  show ?thesis using inspect_canonical_reads(2) [OF 2(1)] 2(2) same_store_fields(6) [OF 1(1)] store_state_iff(2) [of E s] by simp
qed

lemma checked_item:
  assumes "check_item E phase item s = (Inr (), t)"
  shows "row_of s (key_of item) = Some FinishedStatus"
proof -
  have q: "quiet (requireEarlierPostBaselineMigrations E item phase)"
    unfolding requireEarlierPostBaselineMigrations_def by (intro quiet_rules quiet_checks)
  obtain s1 where 1: "same_store s s1" "then_do (MigrationStatus (pb_Database item) (pb_ID item)) (\<lambda>status s.
         (case status of None \<Rightarrow> Inl Retryable | Some t \<Rightarrow> if t \<noteq> FinishedStatus then Inl Fatal else Inr (), s)) s1 = (Inr (), t)"
    using assms unfolding check_item_def by (rule quiet_step [OF q]) blast
  obtain st s2 where 2: "MigrationStatus (pb_Database item) (pb_ID item) s1 = (Inr st, s2)" "st = Some FinishedStatus"
    using 1(2) by (rule quiet_step [OF quiet_status]) (auto split: option.splits if_splits)
  have "reads (MigrationStatus (pb_Database item) (pb_ID item)) (\<lambda>s. map_of (st_rows s) (pb_Database item, pb_ID item))"
    unfolding MigrationStatus_def by (rule reads_query) simp
  then have "st = map_of (st_rows s1) (pb_Database item, pb_ID item)" using 2(1) unfolding reads_def by (metis fst_conv)
  then show ?thesis using 2(2) same_store_fields(2) [OF 1(1)] by (simp add: row_of_def key_of_def)
qed

lemma checked_items:
  "for_each (check_item E phase) items s = (Inr (), t) \<Longrightarrow> item \<in> set items \<Longrightarrow> row_of s (key_of item) = Some FinishedStatus"
proof (induction items arbitrary: s)
  case (Cons i items)
  have e: "for_each (check_item E phase) (i # items) s = then_do (check_item E phase i) (\<lambda>_. for_each (check_item E phase) items) s" by simp
  obtain s1 where 1: "check_item E phase i s = (Inr (), s1)" "same_store s s1" "for_each (check_item E phase) items s1 = (Inr (), t)"
    using Cons.prems(1) unfolding e by (rule quiet_step [OF quiet_checks(3)]) auto
  have "row_of s1 = row_of s" using same_store_fields(2) [OF 1(2)] by (simp add: row_of_def fun_eq_iff)
  then show ?case using Cons.IH [OF 1(3)] checked_item [OF 1(1)] Cons.prems(2) by auto
qed simp

lemma quiet_SyncCheck: "quiet (SyncCheck E)"
  unfolding SyncCheck_def verifyCanonicalSchemas_def by (intro quiet_rules quiet_checks quiet_verify)

text \<open>C25: A synchronous check, whether it succeeds or fails, changes nothing but the answers it consumes; when it succeeds, every
  database has a complete baseline, every synchronous migration is finished, and the tables, columns and indexes of every
  database are those of the baseline without any later migration.\<close>

theorem sync_check_is_sound:
  assumes "SyncCheck E s = (r, t)"
  shows "same_store s t \<and>
    (r = Inr () \<longrightarrow>
      (\<forall>db \<in> set Databases. complete E s db \<and> known_fingerprint E s db) \<and>
      (\<forall>item \<in> set (me_sync E). row_of s (key_of item) = Some FinishedStatus))"
proof (intro conjI impI)
  show "same_store s t" using quiet_SyncCheck [of E] assms unfolding quiet_def by (metis snd_conv)
  assume "r = Inr ()"
  then have ok: "SyncCheck E s = (Inr (), t)" using assms by simp
  obtain s1 where 1: "requireCanonicalBaseline E s = (Inr (), s1)" "same_store s s1"
      "then_do (checkPostBaselineMigrations E SyncPhase) (\<lambda>_. verifyCanonicalSchemas E) s1 = (Inr (), t)"
    using ok unfolding SyncCheck_def by (rule quiet_step [OF quiet_checks(1)]) auto
  obtain s2 where 2: "checkPostBaselineMigrations E SyncPhase s1 = (Inr (), s2)" "same_store s1 s2" "verifyCanonicalSchemas E s2 = (Inr (), t)"
    using 1(3) by (rule quiet_step [OF quiet_checks(4)]) auto
  obtain s3 where 3: "same_store s1 s3" "then_do (requireCanonicalBaseline E)
      (\<lambda>_. for_each (check_item E SyncPhase) (postBaselineMigrations E SyncPhase)) s3 = (Inr (), s2)"
    using 2(1) unfolding checkPostBaselineMigrations_def by (rule quiet_step [OF quiet_validated]) auto
  obtain s4 where 4: "same_store s3 s4" "for_each (check_item E SyncPhase) (postBaselineMigrations E SyncPhase) s4 = (Inr (), s2)"
    using 3(2) by (rule quiet_step [OF quiet_checks(1)]) auto
  have s4: "same_store s s4" and s2: "same_store s s2" using 1(2) 2(2) 3(1) 4(1) same_store_trans by metis+
  have fp: "known_fingerprint E s db" if "db \<in> set Databases" for db
    using verified_schemas [OF 2(3) that] same_store_fields(1, 4) [OF s2] by (simp add: known_fingerprint_def)
  have rows: "row_of s (key_of item) = Some FinishedStatus" if "item \<in> set (me_sync E)" for item
    using checked_items [OF 4(2), of item] that same_store_fields(2) [OF s4] by (simp add: postBaselineMigrations_def row_of_def)
  show "\<forall>db \<in> set Databases. complete E s db \<and> known_fingerprint E s db" using baseline_required [OF 1(1)] fp by simp
  show "\<forall>item \<in> set (me_sync E). row_of s (key_of item) = Some FinishedStatus" using rows by blast
qed

section \<open>At a concrete registry\<close>

definition example_sync :: post_migration where
  "example_sync = \<lparr>pb_Database = SigInsightLogsDB,
     pb_Migration = \<lparr>m_ID = 2000, m_UpItems = [Some (AlterTableDropTTL SigInsightLogsDB ''logs''), Some (StaticDDLOperation SigInsightLogsDB ''logs'' ''SELECT 1'')],
       m_DownItems = []\<rparr>\<rparr>"

definition example_async :: post_migration where
  "example_async = \<lparr>pb_Database = SigInsightLogsDB,
     pb_Migration = \<lparr>m_ID = 2001, m_UpItems = [Some (AlterTableModifyTTL SigInsightLogsDB ''logs'' ''day'' True)], m_DownItems = []\<rparr>\<rparr>"

definition example_env :: "nat migrate_env" where
  "example_env =
     \<lparr>me_apply = (\<lambda>op n. n + 1), me_domain = (\<lambda>n db. n), me_legacy = (\<lambda>n db. 0),
      me_fingerprint = (\<lambda>n db. case map_of canonicalSchemaFingerprints db of Some f \<Rightarrow> f | None \<Rightarrow> \<lparr>TableCount = 0, TableHash = 0,
         ColumnCount = 0, ColumnHash = 0, IndexCount = 0, IndexHash = 0\<rparr>),
      me_ddl = (\<lambda>db. [StaticDDLOperation db ''tables'' ''CREATE'']), me_sync = [example_sync], me_async = [example_async]\<rparr>"

definition example_run :: "(migrate_command \<times> answer list) list" where
  "example_run = [(RunBootstrap 0 9, []), (RunSyncUp 0, []), (RunAsyncUp 0, [])]"

lemma example_registered: "registered example_env"
  by (auto simp: valid_registry_def example_env_def example_sync_def example_async_def valid_item_def isKnownDatabase_def Databases_def
      PostBaselineMigrationIDStart_def ids_in_def key_of_def isSyncOperation_def flag_defs)

lemma migrations_run_once_witness:
  "prefix (map Some (ran_of (migrate_run example_env [(RunBootstrap 0 9, []), (RunSyncUp 0, [])] (new_store 0 [])) (key_of example_sync)))
     (m_UpItems (pb_Migration example_sync)) \<and>
   row_of (migrate_run example_env [(RunBootstrap 0 9, []), (RunSyncUp 0, [])] (new_store 0 [])) (key_of example_sync) = Some FinishedStatus"
proof -
  have "example_sync \<in> set (postBaselineMigrations example_env SyncPhase)"
    by (simp add: postBaselineMigrations_def example_env_def)
  moreover have "row_of (migrate_run example_env [(RunBootstrap 0 9, []), (RunSyncUp 0, [])] (new_store 0 [])) (key_of example_sync) = Some FinishedStatus"
    by code_simp
  ultimately show ?thesis
    using migrations_run_once [OF example_registered, of example_sync SyncPhase "[(RunBootstrap 0 9, []), (RunSyncUp 0, [])]" 0 "[]"] by simp
qed

lemma migrations_run_in_order_witness:
  "ran_of (migrate_run example_env example_run (new_store 0 [])) (key_of example_async) \<noteq> [] \<and>
   row_of (migrate_run example_env example_run (new_store 0 [])) (key_of example_sync) = Some FinishedStatus"
proof -
  have ran: "ran_of (migrate_run example_env example_run (new_store 0 [])) (key_of example_async) \<noteq> []" by code_simp
  have "row_of (migrate_run example_env example_run (new_store 0 [])) (key_of example_sync) = Some FinishedStatus"
    by (rule migrations_run_in_order [OF example_registered _ ran, where phase = AsyncPhase])
      (simp_all add: postBaselineMigrations_def example_env_def example_sync_def example_async_def)
  then show ?thesis using ran by simp
qed

text \<open>A server whose logs database has a table that no migration created.\<close>

definition foreign_store :: "nat store" where
  "foreign_store = new_store 1 Databases"

lemma foreign_store_untouched_witness:
  "fst (with_retries 2 (SyncUp example_env) foreign_store) \<noteq> Inr () \<and>
   st_ran (snd (with_retries 2 (SyncUp example_env) foreign_store)) = []"
proof -
  have db: "SigInsightLogsDB \<in> set Databases" by (simp add: Databases_def)
  have p: "\<not> pristine example_env foreign_store SigInsightLogsDB"
    by (simp add: pristine_def foreign_store_def example_env_def new_store_def)
  have c: "\<not> complete example_env foreign_store SigInsightLogsDB"
    by (simp add: complete_def foreign_store_def new_store_def rows_of_def)
  show ?thesis
    using foreign_store_untouched [OF db p db c, of 2 "fst (with_retries 2 (SyncUp example_env) foreign_store)"
        "snd (with_retries 2 (SyncUp example_env) foreign_store)"]
    by (simp add: foreign_store_def new_store_def del: with_retries.simps)
qed

lemma sync_check_is_sound_witness:
  "same_store (migrate_run example_env example_run (new_store 0 []))
     (snd (SyncCheck example_env (migrate_run example_env example_run (new_store 0 [])))) \<and>
   row_of (migrate_run example_env example_run (new_store 0 [])) (key_of example_sync) = Some FinishedStatus"
proof -
  let ?s = "migrate_run example_env example_run (new_store 0 [])"
  have "fst (SyncCheck example_env ?s) = Inr ()" by code_simp
  then have "SyncCheck example_env ?s = (Inr (), snd (SyncCheck example_env ?s))" by (metis prod.collapse)
  moreover have "example_sync \<in> set (me_sync example_env)" by (simp add: example_env_def)
  ultimately show ?thesis using sync_check_is_sound [of example_env ?s "Inr ()" "snd (SyncCheck example_env ?s)"] by blast
qed

end
