(* ===== verification/ManagedCollector.thy ===== *)
theory ManagedCollector
  imports Prelude "HOL-Library.Sublist"
begin

text \<open>
  The collector under the control of a server (\<^verbatim>\<open>siginsightcol/collector.go\<close>, \<^verbatim>\<open>opamp\<close>, \<^verbatim>\<open>service\<close>): the
  wrapped collector that can be started again, the configuration manager, the client of the OpAMP server, which
  starts the collector with a configuration without effect and then applies what the server sends, and
  the simple client. The operating system, the collector below the wrapper, the OpAMP library and the
  library that reads configurations are arguments.
\<close>

section \<open>The host\<close>

text \<open>A write may fail without opening the file, or after some bytes of a file that was emptied.\<close>

datatype write_result = Written | NotOpened | Partly nat

text \<open>What becomes of a collector that is started.\<close>

datatype run_result = Started | FailedToStart | NeverStarts

datatype nop_value = EmptyMap | NopList

text \<open>A library for configurations: a configuration of type \<open>'k\<close> with flattened keys.\<close>

record 'k koanf =
  kf_new :: 'k
  kf_load :: "'k \<Rightarrow> string \<Rightarrow> 'k option"
  kf_string :: "'k \<Rightarrow> string \<Rightarrow> string"
  kf_exists :: "'k \<Rightarrow> string \<Rightarrow> bool"
  kf_keys :: "'k \<Rightarrow> string list"
  kf_set :: "'k \<Rightarrow> string \<Rightarrow> nop_value \<Rightarrow> 'k option"
  kf_delete :: "'k \<Rightarrow> string \<Rightarrow> 'k"
  kf_marshal :: "'k \<Rightarrow> string option"

text \<open>
  Everything that is answered from outside is a function of the number of questions so far: whether a read
  succeeds, how a write goes, whether a collector can be made of its settings, what becomes of it when it
  is started with a configuration, whether it returns an error when it is shut down, whether the OpAMP
  library takes a status, and a fresh identifier. \<open>ae_instances\<close> and \<open>ae_dotted\<close> read configurations with
  different separators of keys.
\<close>

record 'k agent_env =
  ae_path :: string
  ae_hash :: "string \<Rightarrow> string"
  ae_read :: "nat \<Rightarrow> bool"
  ae_write :: "nat \<Rightarrow> write_result"
  ae_new :: "nat \<Rightarrow> bool"
  ae_run :: "nat \<Rightarrow> string option \<Rightarrow> run_result"
  ae_stop_error :: "nat \<Rightarrow> bool"
  ae_library :: "nat \<Rightarrow> bool"
  ae_uuid :: "nat \<Rightarrow> string"
  ae_instances :: "'k koanf"
  ae_dotted :: "'k koanf"

datatype collector_state = StateRunning | StateClosed | StateUnknown

datatype agent_error =
    ReadFailed | WriteFailed | AlreadyRunning | NotCreated | NotStarted | NotParsed | NotMarshalled | NotSet
  | BackupFailed | UpdateFailed | RestartFailed | ReloadFailed | HashFailed | LibraryFailed | CollectorFailed | BadManagerConfig

text \<open>
  The files, the collector with the configuration it was started with, the channel of its errors, which has room for one,
  where \<open>True\<close> is an error and \<open>False\<close> is nil, the number of goroutines that wait for a collector
  that will never run, the flags and the hash of the client, what the server was told, and the
  configuration that all calls of \<open>UpsertInstanceID\<close> load into.
\<close>

record 'k agent =
  ag_clock :: nat
  ag_files :: "(string \<times> string) list"
  ag_svc :: "(string option \<times> collector_state) option"
  ag_errChan :: "bool list"
  ag_waiting :: nat
  ag_isReloading :: bool
  ag_stopped :: bool
  ag_currentHash :: string
  ag_initialConfigReceived :: bool
  ag_runningNopConfig :: bool
  ag_receivedInitialConfig :: string
  ag_statuses :: "(string \<times> bool) list"
  ag_effective :: "string list"
  ag_k :: 'k

definition tick :: "'k agent \<Rightarrow> 'k agent" where
  "tick s = s\<lparr>ag_clock := ag_clock s + 1\<rparr>"

definition ReadFile :: "'k agent_env \<Rightarrow> string \<Rightarrow> 'k agent \<Rightarrow> (agent_error + string) \<times> 'k agent" where
  "ReadFile E path s =
     ((if ae_read E (ag_clock s) then (case map_of (ag_files s) path of Some c \<Rightarrow> Inr c | None \<Rightarrow> Inl ReadFailed) else Inl ReadFailed), tick s)"

definition WriteFile :: "'k agent_env \<Rightarrow> string \<Rightarrow> string \<Rightarrow> 'k agent \<Rightarrow> (agent_error + unit) \<times> 'k agent" where
  "WriteFile E path contents s =
     (case ae_write E (ag_clock s) of
        Written \<Rightarrow> (Inr (), (tick s)\<lparr>ag_files := AList.update path contents (ag_files s)\<rparr>)
      | NotOpened \<Rightarrow> (Inl WriteFailed, tick s)
      | Partly n \<Rightarrow> (Inl WriteFailed, (tick s)\<lparr>ag_files := AList.update path (take n contents) (ag_files s)\<rparr>))"

definition copy_file :: "'k agent_env \<Rightarrow> string \<Rightarrow> string \<Rightarrow> 'k agent \<Rightarrow> (agent_error + unit) \<times> 'k agent" where
  "copy_file E src dest s =
     (case ReadFile E src s of
        (Inl e, s) \<Rightarrow> (Inl e, s)
      | (Inr contents, s) \<Rightarrow> WriteFile E dest contents s)"

text \<open>With a manager the collector uses a copy of its configuration.\<close>

definition copyConfigFile :: "'k agent_env \<Rightarrow> string \<Rightarrow> string \<Rightarrow> 'k agent \<Rightarrow> (agent_error + unit) \<times> 'k agent" where
  "copyConfigFile E configPath copyPath s =
     (if map_of (ag_files s) configPath = None then (Inl ReadFailed, s) else copy_file E configPath copyPath s)"

section \<open>The wrapped collector\<close>

definition reportError :: "bool \<Rightarrow> 'k agent \<Rightarrow> 'k agent" where
  "reportError err s = (if ag_errChan s = [] then s\<lparr>ag_errChan := [err]\<rparr> else s)"

text \<open>
  \<open>Run\<close> returns when the collector runs or has failed. When it has failed the goroutine that waits for it to run
  stays.
\<close>

definition collector_Run :: "'k agent_env \<Rightarrow> 'k agent \<Rightarrow> ((agent_error + unit) \<times> 'k agent) outcome" where
  "collector_Run E s =
     (case ag_svc s of
        Some _ \<Rightarrow> Done (Inl AlreadyRunning, s)
      | None \<Rightarrow>
          if \<not> ae_new E (ag_clock s) then Done (Inl NotCreated, tick s)
          else (let config = map_of (ag_files s) (ae_path E); s = tick s
                in case ae_run E (ag_clock s) config of
                     Started \<Rightarrow> Done (Inr (), (tick s)\<lparr>ag_svc := Some (config, StateRunning)\<rparr>)
                   | FailedToStart \<Rightarrow>
                       Done (Inl NotStarted, reportError True ((tick s)\<lparr>ag_svc := Some (config, StateClosed), ag_waiting := ag_waiting s + 1\<rparr>))
                   | NeverStarts \<Rightarrow> Blocked))"

text \<open>Without a collector \<open>Shutdown\<close> sends nil into the channel of errors, and waits for room while it holds the mutex.\<close>

definition collector_Shutdown :: "'k agent_env \<Rightarrow> 'k agent \<Rightarrow> 'k agent outcome" where
  "collector_Shutdown E s =
     (case ag_svc s of
        Some (_, state) \<Rightarrow>
          Done ((if state = StateRunning then reportError (ae_stop_error E (ag_clock s)) (tick s) else s)\<lparr>ag_svc := None\<rparr>)
      | None \<Rightarrow> if ag_errChan s = [] then Done (s\<lparr>ag_errChan := [False]\<rparr>) else Blocked)"

definition collector_Restart :: "'k agent_env \<Rightarrow> 'k agent \<Rightarrow> ((agent_error + unit) \<times> 'k agent) outcome" where
  "collector_Restart E s = bind_outcome (collector_Shutdown E s) (collector_Run E)"

definition GetState :: "'k agent \<Rightarrow> collector_state" where
  "GetState s = (case ag_svc s of Some (_, state) \<Rightarrow> state | None \<Rightarrow> StateUnknown)"

text \<open>A collector may stop by itself.\<close>

definition collector_dies :: "bool \<Rightarrow> 'k agent \<Rightarrow> 'k agent" where
  "collector_dies err s =
     (case ag_svc s of
        Some (config, StateRunning) \<Rightarrow> reportError err (s\<lparr>ag_svc := Some (config, StateClosed)\<rparr>)
      | _ \<Rightarrow> s)"

text \<open>A round of the goroutine that looks after the collector: it leaves, reports that the collector has stopped, or goes on.\<close>

datatype poll_result = Leave | Report | Again

definition ensureRunning_poll :: "'k agent \<Rightarrow> poll_result" where
  "ensureRunning_poll s =
     (if ag_stopped s then Leave else if GetState s = StateClosed \<and> \<not> ag_isReloading s then Report else Again)"

section \<open>The configuration manager\<close>

definition collectorConfigKey :: string where "collectorConfigKey = ''collector.yaml''"

definition instance_key :: string where "instance_key = ''service::telemetry::resource::service.instance.id''"

definition servicePartialConfig :: "string \<Rightarrow> string" where
  "servicePartialConfig instanceID =
     [CHR 0x0A] @ ''service:'' @ [CHR 0x0A] @ ''  telemetry:'' @ [CHR 0x0A] @ ''    resource:'' @ [CHR 0x0A] @ ''      service.instance.id: '' @ instanceID"

definition UpsertInstanceID :: "'k agent_env \<Rightarrow> 'k agent \<Rightarrow> (agent_error + unit) \<times> 'k agent" where
  "UpsertInstanceID E s =
     (case ReadFile E (ae_path E) s of
        (Inl e, s) \<Rightarrow> (Inl e, s)
      | (Inr contents, s) \<Rightarrow>
          (case kf_load (ae_instances E) (ag_k s) contents of
             None \<Rightarrow> (Inl NotParsed, s)
           | Some k \<Rightarrow>
              (let s = s\<lparr>ag_k := k\<rparr>; present = kf_string (ae_instances E) k instance_key;
                   instanceID = (if present = [] then ae_uuid E (ag_clock s) else present);
                   s = tick s
               in case kf_load (ae_instances E) k (servicePartialConfig instanceID) of
                    None \<Rightarrow> (Inl NotParsed, s)
                  | Some k \<Rightarrow>
                     (let s = s\<lparr>ag_k := k\<rparr>
                      in case kf_marshal (ae_instances E) k of
                           None \<Rightarrow> (Inl NotMarshalled, s)
                         | Some bytes \<Rightarrow> WriteFile E (ae_path E) bytes s))))"

definition UpdateCurrentHash :: "'k agent_env \<Rightarrow> 'k agent \<Rightarrow> (agent_error + unit) \<times> 'k agent" where
  "UpdateCurrentHash E s =
     (case ReadFile E (ae_path E) s of
        (Inl e, s) \<Rightarrow> (Inl HashFailed, s\<lparr>ag_currentHash := ae_hash E []\<rparr>)
      | (Inr contents, s) \<Rightarrow> (Inr (), s\<lparr>ag_currentHash := ae_hash E contents\<rparr>))"

definition NewDynamicConfig :: "'k agent_env \<Rightarrow> 'k agent \<Rightarrow> (agent_error + unit) \<times> 'k agent" where
  "NewDynamicConfig E s =
     (case UpsertInstanceID E s of
        (Inl e, s) \<Rightarrow> (Inl e, s)
      | (Inr _, s) \<Rightarrow> UpdateCurrentHash E s)"

definition CreateEffectiveConfigMsg :: "'k agent_env \<Rightarrow> string option \<Rightarrow> 'k agent \<Rightarrow> (agent_error + string) \<times> 'k agent" where
  "CreateEffectiveConfigMsg E override s =
     (case override of Some body \<Rightarrow> (Inr body, s) | None \<Rightarrow> ReadFile E (ae_path E) s)"

text \<open>
  Reloading: a copy of the file, the new contents, a restart; when that fails the copy is put back and the collector
  restarted, whatever becomes of it.
\<close>

definition rollback_path :: "'k agent_env \<Rightarrow> string" where
  "rollback_path E = ae_path E @ ''.rollback''"

definition reload_locked :: "'k agent_env \<Rightarrow> string \<Rightarrow> 'k agent \<Rightarrow> ((agent_error + unit) \<times> 'k agent) outcome" where
  "reload_locked E contents s =
     (case copy_file E (ae_path E) (rollback_path E) s of
        (Inl e, s) \<Rightarrow> Done (Inl BackupFailed, s)
      | (Inr _, s) \<Rightarrow>
          (case WriteFile E (ae_path E) contents s of
             (Inl e, s) \<Rightarrow> Done (Inl UpdateFailed, s)
           | (Inr _, s) \<Rightarrow>
               bind_outcome (collector_Restart E s) (\<lambda>(r, s).
                 case r of
                   Inr _ \<Rightarrow> Done (Inr (), s)
                 | Inl e \<Rightarrow>
                     bind_outcome (collector_Restart E (snd (copy_file E (rollback_path E) (ae_path E) s)))
                       (\<lambda>(_, s). Done (Inl RestartFailed, s)))))"

definition reload :: "'k agent_env \<Rightarrow> string \<Rightarrow> 'k agent \<Rightarrow> ((agent_error + unit) \<times> 'k agent) outcome" where
  "reload E contents s =
     bind_outcome (reload_locked E contents (s\<lparr>ag_isReloading := True\<rparr>)) (\<lambda>(r, s). Done (r, s\<lparr>ag_isReloading := False\<rparr>))"

text \<open>The result is whether the configuration has changed, and an error.\<close>

definition applyRemoteConfig :: "'k agent_env \<Rightarrow> string \<Rightarrow> 'k agent \<Rightarrow> ((bool \<times> agent_error option) \<times> 'k agent) outcome" where
  "applyRemoteConfig E newContents s =
     (if ag_initialConfigReceived s \<and> ag_currentHash s = ae_hash E newContents then Done ((False, None), s)
      else bind_outcome (reload E newContents s) (\<lambda>(r, s).
        case r of
          Inl e \<Rightarrow> Done ((False, Some ReloadFailed), s)
        | Inr _ \<Rightarrow>
            (case UpdateCurrentHash E s of
               (Inl e, s) \<Rightarrow> Done ((True, Some HashFailed), s)
             | (Inr _, s) \<Rightarrow> Done ((True, None), s\<lparr>ag_initialConfigReceived := True\<rparr>))))"

record remote_config =
  rc_ConfigHash :: string
  rc_ConfigMap :: "(string \<times> string) list option"

definition Apply :: "'k agent_env \<Rightarrow> remote_config \<Rightarrow> 'k agent \<Rightarrow> ((bool \<times> agent_error option) \<times> 'k agent) outcome" where
  "Apply E remoteConfig s =
     (case rc_ConfigMap remoteConfig of
        None \<Rightarrow> Done ((False, None), s)
      | Some m \<Rightarrow>
          (case map_of m collectorConfigKey of
             None \<Rightarrow> Done ((False, None), s)
           | Some body \<Rightarrow> applyRemoteConfig E body s))"

section \<open>The client of the server\<close>

definition GetEffectiveConfig :: "'k agent_env \<Rightarrow> 'k agent \<Rightarrow> (agent_error + string) \<times> 'k agent" where
  "GetEffectiveConfig E s =
     CreateEffectiveConfigMsg E (if ag_runningNopConfig s then Some (ag_receivedInitialConfig s) else None) s"

text \<open>The library asks the callback for the effective configuration and sends it.\<close>

definition UpdateEffectiveConfig :: "'k agent_env \<Rightarrow> 'k agent \<Rightarrow> (agent_error + unit) \<times> 'k agent" where
  "UpdateEffectiveConfig E s =
     (case GetEffectiveConfig E s of
        (Inl e, s) \<Rightarrow> (Inl e, s)
      | (Inr c, s) \<Rightarrow> if ae_library E (ag_clock s) then (Inr (), (tick s)\<lparr>ag_effective := ag_effective s @ [c]\<rparr>) else (Inl LibraryFailed, tick s))"

definition SetRemoteConfigStatus :: "'k agent_env \<Rightarrow> string \<Rightarrow> bool \<Rightarrow> 'k agent \<Rightarrow> (agent_error + unit) \<times> 'k agent" where
  "SetRemoteConfigStatus E hash applied s =
     (if ae_library E (ag_clock s) then (Inr (), (tick s)\<lparr>ag_statuses := ag_statuses s @ [(hash, applied)]\<rparr>) else (Inl LibraryFailed, tick s))"

definition onRemoteConfigHandler :: "'k agent_env \<Rightarrow> remote_config \<Rightarrow> 'k agent \<Rightarrow> ((agent_error + unit) \<times> 'k agent) outcome" where
  "onRemoteConfigHandler E remoteConfig s =
     bind_outcome (Apply E remoteConfig s) (\<lambda>((changed, err), s).
       case SetRemoteConfigStatus E (rc_ConfigHash remoteConfig) (err = None) s of
         (Inl e, s) \<Rightarrow> Done (Inl e, s)
       | (Inr _, s) \<Rightarrow>
           if changed then Done (UpdateEffectiveConfig E (s\<lparr>ag_runningNopConfig := False\<rparr>))
           else Done (Inr (), s))"

definition onMessageFuncHandler :: "'k agent_env \<Rightarrow> remote_config option \<Rightarrow> 'k agent \<Rightarrow> 'k agent outcome" where
  "onMessageFuncHandler E msg s =
     (case msg of
        None \<Rightarrow> Done s
      | Some remoteConfig \<Rightarrow> bind_outcome (onRemoteConfigHandler E remoteConfig s) (\<lambda>(_, s). Done s))"

subsection \<open>The configuration without effect\<close>

definition pipeline_key :: "string \<Rightarrow> string \<Rightarrow> bool" where
  "pipeline_key part key \<longleftrightarrow> prefix ''service.pipelines.'' key \<and> suffix part key"

definition set_missing :: "'k koanf \<Rightarrow> string \<Rightarrow> 'k \<Rightarrow> 'k option" where
  "set_missing K key k = (if \<not> kf_exists K k key then kf_set K k key EmptyMap else Some k)"

definition nop_key :: "'k koanf \<Rightarrow> string \<Rightarrow> 'k \<Rightarrow> 'k option" where
  "nop_key K key k =
     (case (if pipeline_key ''.receivers'' key then kf_set K (kf_delete K k key) key NopList else Some k) of
        None \<Rightarrow> None
      | Some k \<Rightarrow>
         (let k = (if pipeline_key ''.processors'' key then kf_delete K k key else k)
          in if pipeline_key ''.exporters'' key then kf_set K (kf_delete K k key) key NopList else Some k))"

fun nop_keys :: "'k koanf \<Rightarrow> string list \<Rightarrow> 'k \<Rightarrow> 'k option" where
  "nop_keys K [] k = Some k"
| "nop_keys K (key # keys) k = (case nop_key K key k of None \<Rightarrow> None | Some k \<Rightarrow> nop_keys K keys k)"

definition nop_config :: "'k koanf \<Rightarrow> 'k \<Rightarrow> 'k option" where
  "nop_config K k =
     (case set_missing K ''receivers.nop'' k of
        None \<Rightarrow> None
      | Some k \<Rightarrow> (case set_missing K ''exporters.nop'' k of None \<Rightarrow> None | Some k \<Rightarrow> nop_keys K (kf_keys K k) k))"

definition initialNopConfig :: "'k agent_env \<Rightarrow> string \<Rightarrow> agent_error + string" where
  "initialNopConfig E initial =
     (case kf_load (ae_dotted E) (kf_new (ae_dotted E)) initial of
        None \<Rightarrow> Inl NotParsed
      | Some k \<Rightarrow>
         (case nop_config (ae_dotted E) k of
            None \<Rightarrow> Inl NotSet
          | Some k \<Rightarrow> (case kf_marshal (ae_dotted E) k of None \<Rightarrow> Inl NotMarshalled | Some bytes \<Rightarrow> Inr bytes)))"

subsection \<open>Start and stop\<close>

text \<open>A new client reads the file before the instance identifier is put into it.\<close>

definition NewServerClient :: "'k agent_env \<Rightarrow> 'k agent \<Rightarrow> (agent_error + unit) \<times> 'k agent" where
  "NewServerClient E s =
     (case ReadFile E (ae_path E) s of
        (Inl e, s) \<Rightarrow> (Inl e, s)
      | (Inr contents, s) \<Rightarrow> NewDynamicConfig E (s\<lparr>ag_receivedInitialConfig := contents\<rparr>))"

text \<open>
  \<open>Start\<close> describes the agent, sets its health and starts the library, and from then on messages may come; then it
  starts the collector.
\<close>

definition Start_connect :: "'k agent_env \<Rightarrow> 'k agent \<Rightarrow> (agent_error + unit) \<times> 'k agent" where
  "Start_connect E s =
     (if \<not> ae_library E (ag_clock s) then (Inl LibraryFailed, tick s)
      else if \<not> ae_library E (ag_clock s + 1) then (Inl LibraryFailed, tick (tick s))
      else if \<not> ae_library E (ag_clock s + 2) then (Inl LibraryFailed, tick (tick (tick s)))
      else (Inr (), tick (tick (tick s))))"

definition Start_collector :: "'k agent_env \<Rightarrow> 'k agent \<Rightarrow> ((agent_error + unit) \<times> 'k agent) outcome" where
  "Start_collector E s =
     (case initialNopConfig E (ag_receivedInitialConfig s) of
        Inl e \<Rightarrow> Done (Inl e, s)
      | Inr noopConfig \<Rightarrow> reload E noopConfig (s\<lparr>ag_runningNopConfig := True\<rparr>))"

text \<open>The messages that come before the collector is started.\<close>

fun onMessages :: "'k agent_env \<Rightarrow> remote_config option list \<Rightarrow> 'k agent \<Rightarrow> 'k agent outcome" where
  "onMessages E [] s = Done s"
| "onMessages E (m # ms) s = bind_outcome (onMessageFuncHandler E m s) (onMessages E ms)"

definition serverClient_Start :: "'k agent_env \<Rightarrow> remote_config option list \<Rightarrow> 'k agent \<Rightarrow> ((agent_error + unit) \<times> 'k agent) outcome" where
  "serverClient_Start E early s =
     (case Start_connect E s of
        (Inl e, s) \<Rightarrow> Done (Inl e, s)
      | (Inr _, s) \<Rightarrow> bind_outcome (onMessages E early s) (Start_collector E))"

definition take_error :: "'k agent \<Rightarrow> (bool \<times> 'k agent) outcome" where
  "take_error s = (case ag_errChan s of [] \<Rightarrow> Blocked | err # errs \<Rightarrow> Done (err, s\<lparr>ag_errChan := errs\<rparr>))"

text \<open>The channel \<open>stopped\<close> is closed; closing it again panics.\<close>

definition serverClient_Stop :: "'k agent_env \<Rightarrow> 'k agent \<Rightarrow> ((agent_error + unit) \<times> 'k agent) outcome" where
  "serverClient_Stop E s =
     (if ag_stopped s then Panic
      else bind_outcome (collector_Shutdown E (s\<lparr>ag_stopped := True\<rparr>)) (\<lambda>s.
        let opampErr = \<not> ae_library E (ag_clock s)
        in bind_outcome (take_error (tick s)) (\<lambda>(collErr, s).
             Done (if opampErr \<or> collErr then Inl (if opampErr then LibraryFailed else CollectorFailed) else Inr (), s))))"

definition simpleClient_Start :: "'k agent_env \<Rightarrow> 'k agent \<Rightarrow> ((agent_error + unit) \<times> 'k agent) outcome" where
  "simpleClient_Start E s = collector_Run E s"

definition simpleClient_Stop :: "'k agent_env \<Rightarrow> 'k agent \<Rightarrow> ((agent_error + unit) \<times> 'k agent) outcome" where
  "simpleClient_Stop E s =
     (if ag_stopped s then Panic
      else bind_outcome (collector_Shutdown E (s\<lparr>ag_stopped := True\<rparr>)) (\<lambda>s.
        bind_outcome (take_error s) (\<lambda>(collErr, s). Done (if collErr then Inl CollectorFailed else Inr (), s))))"

section \<open>The service\<close>

record manager_config =
  mc_ServerEndpoint :: string
  mc_ID :: string

text \<open>\<open>unmarshal\<close> reads the text of a manager's configuration, \<open>ulid\<close> makes an identifier.\<close>

definition ParseAgentManagerConfig ::
  "(string \<Rightarrow> manager_config option) \<Rightarrow> string \<Rightarrow> 'k agent_env \<Rightarrow> string \<Rightarrow> 'k agent \<Rightarrow> (agent_error + manager_config) \<times> 'k agent" where
  "ParseAgentManagerConfig unmarshal ulid E configLocation s =
     (case ReadFile E configLocation s of
        (Inl e, s) \<Rightarrow> (Inl e, s)
      | (Inr data, s) \<Rightarrow>
         ((case unmarshal data of
             None \<Rightarrow> Inl BadManagerConfig
           | Some config \<Rightarrow>
               if mc_ServerEndpoint config = [] then Inl BadManagerConfig
               else Inr (if mc_ID config = [] then config\<lparr>mc_ID := ulid\<rparr> else config)), s))"

datatype agent_client = SimpleClient | ServerClient

definition service_New ::
  "(string \<Rightarrow> manager_config option) \<Rightarrow> string \<Rightarrow> 'k agent_env \<Rightarrow> string \<Rightarrow> 'k agent \<Rightarrow> (agent_error + agent_client) \<times> 'k agent" where
  "service_New unmarshal ulid E managerConfigPath s =
     (if managerConfigPath = [] then (Inr SimpleClient, s)
      else (case ParseAgentManagerConfig unmarshal ulid E managerConfigPath s of
              (Inl e, s) \<Rightarrow> (Inl e, s)
            | (Inr _, s) \<Rightarrow> (case NewServerClient E s of (Inl e, s) \<Rightarrow> (Inl e, s) | (Inr _, s) \<Rightarrow> (Inr ServerClient, s))))"

definition service_Start :: "agent_client \<Rightarrow> 'k agent_env \<Rightarrow> remote_config option list \<Rightarrow> 'k agent \<Rightarrow> ((agent_error + unit) \<times> 'k agent) outcome" where
  "service_Start client E early s =
     (case client of SimpleClient \<Rightarrow> simpleClient_Start E s | ServerClient \<Rightarrow> serverClient_Start E early s)"

definition service_Shutdown :: "agent_client \<Rightarrow> 'k agent_env \<Rightarrow> 'k agent \<Rightarrow> ((agent_error + unit) \<times> 'k agent) outcome" where
  "service_Shutdown client E s =
     (case client of SimpleClient \<Rightarrow> simpleClient_Stop E s | ServerClient \<Rightarrow> serverClient_Stop E s)"

end
