(* ===== verification/ManagedTheorems.thy ===== *)
theory ManagedTheorems
  imports ManagedCollector
begin

text \<open>
  What the client of the OpAMP server promises: on a host on which files can be read and written, the collector runs
  the last configuration it could be started with, and the server is told so; and the places where the
  code does not keep this.
\<close>

section \<open>A host without failures\<close>

definition calm :: "'k agent_env \<Rightarrow> bool" where
  "calm E \<longleftrightarrow> (\<forall>n. ae_read E n) \<and> (\<forall>n. ae_write E n = Written) \<and> (\<forall>n. ae_library E n) \<and> (\<forall>n. ae_new E n)"

text \<open>Whether a collector starts depends on its configuration.\<close>

definition starts_by :: "'k agent_env \<Rightarrow> (string \<Rightarrow> bool) \<Rightarrow> bool" where
  "starts_by E starts \<longleftrightarrow> (\<forall>n c. ae_run E n (Some c) = (if starts c then Started else FailedToStart))"

lemma tick_simps [simp]:
  "ag_files (tick s) = ag_files s" "ag_svc (tick s) = ag_svc s" "ag_errChan (tick s) = ag_errChan s"
  "ag_isReloading (tick s) = ag_isReloading s" "ag_stopped (tick s) = ag_stopped s" "ag_currentHash (tick s) = ag_currentHash s"
  "ag_initialConfigReceived (tick s) = ag_initialConfigReceived s" "ag_runningNopConfig (tick s) = ag_runningNopConfig s"
  "ag_receivedInitialConfig (tick s) = ag_receivedInitialConfig s" "ag_statuses (tick s) = ag_statuses s"
  "ag_effective (tick s) = ag_effective s" "ag_k (tick s) = ag_k s" "ag_waiting (tick s) = ag_waiting s"
  by (simp_all add: tick_def)

lemma calm_ReadFile: "calm E \<Longrightarrow> map_of (ag_files s) p = Some c \<Longrightarrow> ReadFile E p s = (Inr c, tick s)"
  by (simp add: calm_def ReadFile_def)

lemma calm_WriteFile: "calm E \<Longrightarrow> WriteFile E p c s = (Inr (), (tick s)\<lparr>ag_files := AList.update p c (ag_files s)\<rparr>)"
  by (simp add: calm_def WriteFile_def)

lemma calm_copy:
  "calm E \<Longrightarrow> map_of (ag_files s) src = Some c \<Longrightarrow>
     copy_file E src dest s = (Inr (), (tick (tick s))\<lparr>ag_files := AList.update dest c (ag_files s)\<rparr>)"
  by (simp add: copy_file_def calm_ReadFile calm_WriteFile)

lemma rollback_path_other [simp]: "rollback_path E \<noteq> ae_path E" "ae_path E \<noteq> rollback_path E"
  by (simp_all add: rollback_path_def)

section \<open>Reloading\<close>

text \<open>The part of the client that reloading leaves alone.\<close>

definition same_client :: "'k agent \<Rightarrow> 'k agent \<Rightarrow> bool" where
  "same_client s t \<longleftrightarrow> ag_currentHash t = ag_currentHash s \<and> ag_initialConfigReceived t = ag_initialConfigReceived s \<and>
     ag_runningNopConfig t = ag_runningNopConfig s \<and> ag_receivedInitialConfig t = ag_receivedInitialConfig s \<and>
     ag_statuses t = ag_statuses s \<and> ag_effective t = ag_effective s \<and> ag_stopped t = ag_stopped s"

definition running :: "'k agent_env \<Rightarrow> 'k agent \<Rightarrow> string \<Rightarrow> bool" where
  "running E s c \<longleftrightarrow> map_of (ag_files s) (ae_path E) = Some c \<and> ag_svc s = Some (Some c, StateRunning) \<and> ag_errChan s = [False]"

text \<open>Without a collector the first shutdown puts nil into the channel of errors; from then on it is full.\<close>

definition ready :: "'k agent_env \<Rightarrow> 'k agent \<Rightarrow> string \<Rightarrow> bool" where
  "ready E s c \<longleftrightarrow> map_of (ag_files s) (ae_path E) = Some c \<and>
     (ag_svc s = None \<and> ag_errChan s = [] \<or> (\<exists>x. ag_svc s = Some x) \<and> ag_errChan s = [False])"

lemma running_ready: "running E s c \<Longrightarrow> ready E s c"
  by (simp add: running_def ready_def)

lemma restart_calm:
  assumes "calm E" and "starts_by E starts" and "ready E s c"
  obtains t where "collector_Restart E s = Done (if starts c then Inr () else Inl NotStarted, t)"
    and "ag_files t = ag_files s" and "same_client s t" and "ag_errChan t = [False]"
    and "ag_svc t = Some (Some c, if starts c then StateRunning else StateClosed)"
proof -
  obtain u where u: "collector_Shutdown E s = Done u" "ag_svc u = None" "ag_errChan u = [False]" "ag_files u = ag_files s" "same_client s u"
  proof (cases "ag_svc s")
    case None
    then show ?thesis using assms(3) that [of "s\<lparr>ag_errChan := [False]\<rparr>"] by (auto simp: ready_def collector_Shutdown_def same_client_def)
  next
    case (Some x)
    then show ?thesis using assms(3)
      that [of "(if snd x = StateRunning then reportError (ae_stop_error E (ag_clock s)) (tick s) else s)\<lparr>ag_svc := None\<rparr>"]
      by (cases x) (auto simp: ready_def collector_Shutdown_def same_client_def reportError_def)
  qed
  have c: "map_of (ag_files u) (ae_path E) = Some c" using assms(3) u(4) by (simp add: ready_def)
  show ?thesis
  proof (rule that)
    let ?t = "if starts c then (tick (tick u))\<lparr>ag_svc := Some (Some c, StateRunning)\<rparr>
      else (tick (tick u))\<lparr>ag_svc := Some (Some c, StateClosed), ag_waiting := ag_waiting u + 1\<rparr>"
    show "collector_Restart E s = Done (if starts c then Inr () else Inl NotStarted, ?t)"
      using assms(1, 2) u(2, 3) by (simp add: collector_Restart_def u(1) collector_Run_def calm_def starts_by_def c reportError_def)
    show "ag_files ?t = ag_files s" "same_client s ?t" "ag_errChan ?t = [False]"
      "ag_svc ?t = Some (Some c, if starts c then StateRunning else StateClosed)"
      using u by (simp_all add: same_client_def)
  qed
qed

lemma same_client_trans: "same_client s t \<Longrightarrow> same_client t u \<Longrightarrow> same_client s u"
  by (simp add: same_client_def)

text \<open>A reload runs the new configuration when the collector can be started with it, and the old one otherwise.\<close>

lemma reload_calm:
  assumes "calm E" and "starts_by E starts" and "ready E s cur" and "starts new \<or> starts cur"
  obtains t where "reload E new s = Done (if starts new then Inr () else Inl RestartFailed, t)"
    and "running E t (if starts new then new else cur)" and "same_client s t" and "\<not> ag_isReloading t"
proof -
  define s0 where "s0 = s\<lparr>ag_isReloading := True\<rparr>"
  define s1 where "s1 = (tick (tick s0))\<lparr>ag_files := AList.update (rollback_path E) cur (ag_files s0)\<rparr>"
  define s2 where "s2 = (tick s1)\<lparr>ag_files := AList.update (ae_path E) new (ag_files s1)\<rparr>"
  have copy: "copy_file E (ae_path E) (rollback_path E) s0 = (Inr (), s1)"
    unfolding s1_def by (rule calm_copy [OF assms(1)]) (use assms(3) in \<open>simp add: ready_def s0_def\<close>)
  have write1: "WriteFile E (ae_path E) new s1 = (Inr (), s2)"
    unfolding s2_def by (rule calm_WriteFile [OF assms(1)])
  have ready2: "ready E s2 new" using assms(3) by (auto simp: ready_def s2_def s1_def s0_def)
  obtain t where t: "collector_Restart E s2 = Done (if starts new then Inr () else Inl NotStarted, t)"
      "ag_files t = ag_files s2" "same_client s2 t" "ag_errChan t = [False]"
      "ag_svc t = Some (Some new, if starts new then StateRunning else StateClosed)"
    using restart_calm [OF assms(1, 2) ready2] by blast
  have st: "same_client s t" using t(3) by (simp add: same_client_def s2_def s1_def s0_def)
  have files: "map_of (ag_files t) (ae_path E) = Some new" "map_of (ag_files t) (rollback_path E) = Some cur"
    by (simp_all add: t(2) s2_def s1_def)
  have e: "reload E new s = bind_outcome (case (if starts new then Inr () else Inl NotStarted) of
                   Inr _ \<Rightarrow> Done (Inr (), t)
                 | Inl e \<Rightarrow>
                     bind_outcome (collector_Restart E (snd (copy_file E (rollback_path E) (ae_path E) t)))
                       (\<lambda>(_, s). Done (Inl RestartFailed, s))) (\<lambda>(r, s). Done (r, s\<lparr>ag_isReloading := False\<rparr>))"
    by (simp add: reload_def reload_locked_def s0_def [symmetric] copy write1 t(1))
  show ?thesis
  proof (cases "starts new")
    case True
    have "reload E new s = Done (Inr (), t\<lparr>ag_isReloading := False\<rparr>)" using True by (simp add: e)
    moreover have "running E (t\<lparr>ag_isReloading := False\<rparr>) new" using t(4, 5) files True by (simp add: running_def)
    ultimately show ?thesis using that True st by (simp add: same_client_def)
  next
    case False
    define u where "u = (tick (tick t))\<lparr>ag_files := AList.update (ae_path E) cur (ag_files t)\<rparr>"
    have undo: "copy_file E (rollback_path E) (ae_path E) t = (Inr (), u)"
      unfolding u_def by (rule calm_copy [OF assms(1) files(2)])
    have "ready E u cur" using t(4, 5) by (simp add: ready_def u_def)
    then obtain v where v: "collector_Restart E u = Done (if starts cur then Inr () else Inl NotStarted, v)" "ag_files v = ag_files u"
        "same_client u v" "ag_errChan v = [False]" "ag_svc v = Some (Some cur, if starts cur then StateRunning else StateClosed)"
      using restart_calm [OF assms(1, 2)] by blast
    have "reload E new s = Done (Inl RestartFailed, v\<lparr>ag_isReloading := False\<rparr>)" using False by (simp add: e undo v(1))
    moreover have "running E (v\<lparr>ag_isReloading := False\<rparr>) cur" using v assms(4) False by (simp add: running_def u_def)
    moreover have "same_client s v" using st v(3) by (simp add: same_client_def u_def)
    ultimately show ?thesis using that False by (simp add: same_client_def)
  qed
qed

section \<open>Following the server\<close>

text \<open>A message carries a configuration and the hash the server calls it by.\<close>

definition message :: "string \<times> string \<Rightarrow> remote_config option" where
  "message m = Some \<lparr>rc_ConfigHash = fst m, rc_ConfigMap = Some [(collectorConfigKey, snd m)]\<rparr>"

text \<open>The configuration to run after some are offered: the last one that can be started.\<close>

definition last_started :: "(string \<Rightarrow> bool) \<Rightarrow> string \<Rightarrow> (string \<times> string) list \<Rightarrow> string" where
  "last_started starts cur ms = fold (\<lambda>m cur. if starts (snd m) then snd m else cur) ms cur"

definition following :: "'k agent_env \<Rightarrow> (string \<Rightarrow> bool) \<Rightarrow> string \<Rightarrow> 'k agent \<Rightarrow> string \<Rightarrow> bool" where
  "following E starts initial s cur \<longleftrightarrow> running E s cur \<and> starts cur \<and> \<not> ag_stopped s \<and> ag_receivedInitialConfig s = initial \<and>
     (if ag_initialConfigReceived s then ag_currentHash s = ae_hash E cur \<and> \<not> ag_runningNopConfig s else ag_runningNopConfig s)"

lemma calm_handler:
  assumes "calm E"
  shows "onMessageFuncHandler E (message m) s = bind_outcome (applyRemoteConfig E (snd m) s) (\<lambda>((changed, err), s).
      Done (if changed then snd (UpdateEffectiveConfig E ((tick s)\<lparr>ag_statuses := ag_statuses s @ [(fst m, err = None)], ag_runningNopConfig := False\<rparr>))
        else (tick s)\<lparr>ag_statuses := ag_statuses s @ [(fst m, err = None)]\<rparr>))"
proof (cases "applyRemoteConfig E (snd m) s")
  case (Done x)
  have lib: "ae_library E n" for n using assms by (simp add: calm_def)
  obtain c e u where x: "x = ((c, e), u)" by (cases x) auto
  have a: "Apply E \<lparr>rc_ConfigHash = fst m, rc_ConfigMap = Some [(collectorConfigKey, snd m)]\<rparr> s = Done ((c, e), u)"
    using Done by (simp add: Apply_def x)
  obtain r v where v: "UpdateEffectiveConfig E ((tick u)\<lparr>ag_statuses := ag_statuses u @ [(fst m, e = None)], ag_runningNopConfig := False\<rparr>) = (r, v)"
    by force
  show ?thesis
    by (cases c) (simp_all add: onMessageFuncHandler_def message_def onRemoteConfigHandler_def a SetRemoteConfigStatus_def lib Done x v)
qed (simp_all add: onMessageFuncHandler_def message_def onRemoteConfigHandler_def Apply_def)

text \<open>A configuration that is new and can be started is taken over.\<close>

lemma accepted_message:
  assumes "calm E" and "starts_by E starts" and "ready E s cur" and "starts (snd m)"
    and "\<not> (ag_initialConfigReceived s \<and> ag_currentHash s = ae_hash E (snd m))"
  obtains t where "onMessageFuncHandler E (message m) s = Done t" and "running E t (snd m)" and "ag_currentHash t = ae_hash E (snd m)"
    and "ag_initialConfigReceived t" and "\<not> ag_runningNopConfig t" and "ag_statuses t = ag_statuses s @ [(fst m, True)]"
    and "ag_receivedInitialConfig t = ag_receivedInitialConfig s" and "ag_stopped t = ag_stopped s"
proof -
  define b where "b = snd m"
  have lib: "ae_library E n" for n using assms(1) by (simp add: calm_def)
  have b: "starts b" using assms(4) by (simp add: b_def)
  obtain t where t: "reload E b s = Done (Inr (), t)" "running E t b" "same_client s t"
    using reload_calm [OF assms(1-3), of b] b by auto
  have disk: "map_of (ag_files t) (ae_path E) = Some b" using t(2) by (simp add: running_def)
  define t1 where "t1 = (tick t)\<lparr>ag_currentHash := ae_hash E b, ag_initialConfigReceived := True\<rparr>"
  define t2 where "t2 = (tick t1)\<lparr>ag_statuses := ag_statuses t1 @ [(fst m, True)], ag_runningNopConfig := False\<rparr>"
  define t3 where "t3 = (tick (tick t2))\<lparr>ag_effective := ag_effective t2 @ [b]\<rparr>"
  have "UpdateCurrentHash E t = (Inr (), (tick t)\<lparr>ag_currentHash := ae_hash E b\<rparr>)"
    by (simp add: UpdateCurrentHash_def calm_ReadFile [OF assms(1) disk])
  then have applied: "applyRemoteConfig E (snd m) s = Done ((True, None), t1)"
    using assms(5) t(1) by (simp add: applyRemoteConfig_def t1_def b_def)
  have disk2: "map_of (ag_files t2) (ae_path E) = Some b" by (simp add: t2_def t1_def disk)
  have nop2: "\<not> ag_runningNopConfig t2" by (simp add: t2_def)
  have eff: "UpdateEffectiveConfig E t2 = (Inr (), t3)"
    by (simp add: UpdateEffectiveConfig_def GetEffectiveConfig_def CreateEffectiveConfigMsg_def calm_ReadFile [OF assms(1) disk2] nop2 lib t3_def)
  show ?thesis
  proof (rule that [of t3])
    show "onMessageFuncHandler E (message m) s = Done t3"
      by (simp add: calm_handler [OF assms(1)] applied t2_def [symmetric] eff)
    show "running E t3 (snd m)" using t(2) by (simp add: running_def t3_def t2_def t1_def b_def)
  qed (use t(3) in \<open>simp_all add: t3_def t2_def t1_def same_client_def b_def\<close>)
qed

text \<open>One that is known changes nothing.\<close>

lemma known_message:
  assumes "calm E" and "ag_initialConfigReceived s" and "ag_currentHash s = ae_hash E (snd m)"
  shows "onMessageFuncHandler E (message m) s = Done ((tick s)\<lparr>ag_statuses := ag_statuses s @ [(fst m, True)]\<rparr>)"
  using assms(2, 3) by (simp add: calm_handler [OF assms(1)] applyRemoteConfig_def)

lemma message_step:
  assumes "calm E" and "starts_by E starts" and "following E starts initial s cur" and "inj_on (ae_hash E) {cur, snd m}"
  obtains t where "onMessageFuncHandler E (message m) s = Done t" and "following E starts initial t (if starts (snd m) then snd m else cur)"
    and "ag_statuses t = ag_statuses s @ [(fst m, starts (snd m))]"
    and "ag_initialConfigReceived t = (ag_initialConfigReceived s \<or> starts (snd m))"
proof -
  note inv = assms(3) [unfolded following_def]
  have ready: "ready E s cur" using inv running_ready by blast
  show ?thesis
  proof (cases "ag_initialConfigReceived s \<and> ag_currentHash s = ae_hash E (snd m)")
    case True
    then have "ae_hash E (snd m) = ae_hash E cur" using inv by argo
    then have b: "snd m = cur" by (rule inj_onD [OF assms(4)]) simp_all
    define t where "t = (tick s)\<lparr>ag_statuses := ag_statuses s @ [(fst m, True)]\<rparr>"
    have "onMessageFuncHandler E (message m) s = Done t" unfolding t_def by (rule known_message) (use assms(1) True in simp_all)
    moreover have "following E starts initial t cur" using inv by (simp add: following_def running_def t_def)
    moreover have "starts cur" using inv by simp
    ultimately show ?thesis using that [of t] b True by (simp add: t_def)
  next
    case False
    show ?thesis
    proof (cases "starts (snd m)")
      case True
      obtain t where t: "onMessageFuncHandler E (message m) s = Done t" "running E t (snd m)" "ag_currentHash t = ae_hash E (snd m)"
          "ag_initialConfigReceived t" "\<not> ag_runningNopConfig t" "ag_statuses t = ag_statuses s @ [(fst m, True)]" "ag_stopped t = ag_stopped s"
          "ag_receivedInitialConfig t = ag_receivedInitialConfig s"
        using accepted_message [OF assms(1, 2) ready True False] by blast
      have "following E starts initial t (snd m)" using t(2-5, 7, 8) True inv by (simp add: following_def)
      then show ?thesis using that [of t] t(1, 4, 6) True by simp
    next
      case nostart: False
      obtain t where t: "reload E (snd m) s = Done (Inl RestartFailed, t)" "running E t cur" "same_client s t"
        using reload_calm [OF assms(1, 2) ready, of "snd m"] nostart inv by auto
      define t1 where "t1 = (tick t)\<lparr>ag_statuses := ag_statuses t @ [(fst m, False)]\<rparr>"
      have "applyRemoteConfig E (snd m) s = Done ((False, Some ReloadFailed), t)"
        using False t(1) by (simp add: applyRemoteConfig_def)
      then have "onMessageFuncHandler E (message m) s = Done t1" by (simp add: calm_handler [OF assms(1)] t1_def)
      moreover have "following E starts initial t1 cur"
        using t(2, 3) inv by (simp add: following_def running_def same_client_def t1_def)
      moreover have "ag_statuses t1 = ag_statuses s @ [(fst m, False)]" "ag_initialConfigReceived t1 = ag_initialConfigReceived s"
        using t(3) by (simp_all add: t1_def same_client_def)
      ultimately show ?thesis using that [of t1] nostart by simp
    qed
  qed
qed

lemma messages_follow:
  assumes "calm E" and "starts_by E starts" and "following E starts initial s cur" and "inj_on (ae_hash E) (insert cur (snd ` set ms))"
  shows "\<exists>t. onMessages E (map message ms) s = Done t \<and> following E starts initial t (last_started starts cur ms) \<and>
    ag_statuses t = ag_statuses s @ map (\<lambda>m. (fst m, starts (snd m))) ms \<and>
    ag_initialConfigReceived t = (ag_initialConfigReceived s \<or> (\<exists>m \<in> set ms. starts (snd m)))"
  using assms(3, 4)
proof (induction ms arbitrary: s cur)
  case Nil
  then show ?case by (simp add: last_started_def)
next
  case (Cons m ms)
  have "inj_on (ae_hash E) {cur, snd m}" by (rule inj_on_subset [OF Cons.prems(2)]) auto
  then obtain t where t: "onMessageFuncHandler E (message m) s = Done t" "following E starts initial t (if starts (snd m) then snd m else cur)"
      "ag_statuses t = ag_statuses s @ [(fst m, starts (snd m))]" "ag_initialConfigReceived t = (ag_initialConfigReceived s \<or> starts (snd m))"
    using message_step [OF assms(1, 2) Cons.prems(1)] by blast
  have "inj_on (ae_hash E) (insert (if starts (snd m) then snd m else cur) (snd ` set ms))"
    by (rule inj_on_subset [OF Cons.prems(2)]) auto
  from Cons.IH [OF t(2) this] show ?case using t by (auto simp: last_started_def)
qed

section \<open>From start to stop\<close>

text \<open>A client on a host that has the configuration, and nothing else.\<close>

definition new_agent :: "'k agent_env \<Rightarrow> 'k \<Rightarrow> string \<Rightarrow> 'k agent" where
  "new_agent E k initial =
     \<lparr>ag_clock = 0, ag_files = [(ae_path E, initial)], ag_svc = None, ag_errChan = [], ag_waiting = 0, ag_isReloading = False,
      ag_stopped = False, ag_currentHash = [], ag_initialConfigReceived = False, ag_runningNopConfig = False,
      ag_receivedInitialConfig = [], ag_statuses = [], ag_effective = [], ag_k = k\<rparr>"

definition idle :: "'k agent_env \<Rightarrow> 'k agent \<Rightarrow> string \<Rightarrow> bool" where
  "idle E s initial \<longleftrightarrow> ag_svc s = None \<and> ag_errChan s = [] \<and> (\<exists>c. map_of (ag_files s) (ae_path E) = Some c) \<and>
     ag_receivedInitialConfig s = initial \<and> \<not> ag_initialConfigReceived s \<and> \<not> ag_stopped s \<and> ag_statuses s = []"

lemma upsert_calm:
  assumes "calm E" and "map_of (ag_files s) (ae_path E) = Some c" and "UpsertInstanceID E s = (Inr (), u)"
  shows "\<exists>k bytes n. u = s\<lparr>ag_k := k, ag_files := AList.update (ae_path E) bytes (ag_files s), ag_clock := n\<rparr>"
proof -
  define r where "r = tick s"
  have "ReadFile E (ae_path E) s = (Inr c, r)" unfolding r_def by (rule calm_ReadFile [OF assms(1, 2)])
  then obtain k bytes where "u = (tick (tick (r\<lparr>ag_k := k\<rparr>)))\<lparr>ag_files := AList.update (ae_path E) bytes (ag_files r)\<rparr>"
    using assms(3) by (auto simp: UpsertInstanceID_def Let_def calm_WriteFile [OF assms(1)] tick_def split: option.splits)
  then have "u = s\<lparr>ag_k := k, ag_files := AList.update (ae_path E) bytes (ag_files s), ag_clock := ag_clock s + 3\<rparr>"
    by (simp add: r_def tick_def)
  then show ?thesis by blast
qed

lemma new_client_idle:
  assumes "calm E" and "NewServerClient E (new_agent E k initial) = (Inr (), s)"
  shows "idle E s initial"
proof -
  let ?K = "ae_instances E" and ?a = "(tick (new_agent E k initial))\<lparr>ag_receivedInitialConfig := initial\<rparr>"
  have a: "map_of (ag_files ?a) (ae_path E) = Some initial" by (simp add: new_agent_def)
  have "ReadFile E (ae_path E) (new_agent E k initial) = (Inr initial, tick (new_agent E k initial))"
    by (rule calm_ReadFile [OF assms(1)]) (simp add: new_agent_def)
  then have 1: "NewDynamicConfig E ?a = (Inr (), s)" using assms(2) by (simp add: NewServerClient_def)
  then obtain u where u: "UpsertInstanceID E ?a = (Inr (), u)" "UpdateCurrentHash E u = (Inr (), s)"
    by (auto simp: NewDynamicConfig_def split: prod.splits sum.splits)
  obtain k2 bytes n where n: "u = ?a\<lparr>ag_k := k2, ag_files := AList.update (ae_path E) bytes (ag_files ?a), ag_clock := n\<rparr>"
    using upsert_calm [OF assms(1) a u(1)] by blast
  then have "map_of (ag_files u) (ae_path E) = Some bytes" by simp
  then have "s = (tick u)\<lparr>ag_currentHash := ae_hash E bytes\<rparr>" using u(2) by (simp add: UpdateCurrentHash_def calm_ReadFile [OF assms(1)])
  then show ?thesis using n by (simp add: idle_def new_agent_def)
qed

lemma start_collector:
  assumes "calm E" and "starts_by E starts" and "ready E s c" and "initialNopConfig E (ag_receivedInitialConfig s) = Inr noop" and "starts noop"
  obtains t where "Start_collector E s = Done (Inr (), t)" and "running E t noop" and "same_client (s\<lparr>ag_runningNopConfig := True\<rparr>) t"
proof -
  have "ready E (s\<lparr>ag_runningNopConfig := True\<rparr>) c" using assms(3) by (simp add: ready_def)
  then obtain t where "reload E noop (s\<lparr>ag_runningNopConfig := True\<rparr>) = Done (Inr (), t)" "running E t noop"
      "same_client (s\<lparr>ag_runningNopConfig := True\<rparr>) t"
    using reload_calm [OF assms(1, 2), of "s\<lparr>ag_runningNopConfig := True\<rparr>" c noop] assms(5) by auto
  then show ?thesis using that assms(4) by (simp add: Start_collector_def)
qed

lemma calm_connect: "calm E \<Longrightarrow> Start_connect E s = (Inr (), tick (tick (tick s)))"
  by (simp add: Start_connect_def calm_def)

lemma idle_ready:
  assumes "idle E s initial"
  obtains c where "ready E (tick (tick (tick s))) c"
  using assms by (auto simp: idle_def ready_def)

lemma start_follows:
  assumes "calm E" and "starts_by E starts" and "idle E s initial" and "initialNopConfig E initial = Inr noop" and "starts noop"
  obtains t where "serverClient_Start E [] s = Done (Inr (), t)" and "following E starts initial t noop" and "ag_statuses t = []"
    and "\<not> ag_initialConfigReceived t"
proof -
  obtain c where c: "ready E (tick (tick (tick s))) c" using idle_ready [OF assms(3)] .
  have "initialNopConfig E (ag_receivedInitialConfig (tick (tick (tick s)))) = Inr noop" using assms(3, 4) by (simp add: idle_def)
  then obtain t where t: "Start_collector E (tick (tick (tick s))) = Done (Inr (), t)" "running E t noop"
      "same_client ((tick (tick (tick s)))\<lparr>ag_runningNopConfig := True\<rparr>) t"
    using start_collector [OF assms(1, 2) c _ assms(5)] by blast
  have "serverClient_Start E [] s = Done (Inr (), t)" using t(1) by (simp add: serverClient_Start_def calm_connect [OF assms(1)])
  then show ?thesis using that t(2, 3) assms(3, 5) by (simp add: following_def same_client_def idle_def)
qed

text \<open>C27: On a host without failures of files and of the library, a client of the server starts the collector with the configuration
  without effect; then, for any messages, the collector runs the last configuration with which it can be started, or the
  one without effect while there is none, and every message is answered with whether its configuration is one of these.
  What the client reports as effective is that configuration, and while there is none the configuration it was started
  with, which does not run. Hashes of the configurations are taken to differ.\<close>

theorem agent_follows_server:
  assumes "calm E" and "starts_by E starts" and "NewServerClient E (new_agent E k initial) = (Inr (), s)"
    and "initialNopConfig E initial = Inr noop" and "starts noop" and "inj_on (ae_hash E) (insert noop (snd ` set ms))"
  shows "\<exists>t u. serverClient_Start E [] s = Done (Inr (), t) \<and> running E t noop \<and> onMessages E (map message ms) t = Done u \<and>
    running E u (last_started starts noop ms) \<and> ag_statuses u = map (\<lambda>m. (fst m, starts (snd m))) ms \<and>
    fst (GetEffectiveConfig E u) = Inr (if \<exists>m \<in> set ms. starts (snd m) then last_started starts noop ms else initial)"
proof -
  obtain t where t: "serverClient_Start E [] s = Done (Inr (), t)" "following E starts initial t noop" "ag_statuses t = []"
      "\<not> ag_initialConfigReceived t"
    using start_follows [OF assms(1, 2) new_client_idle [OF assms(1, 3)] assms(4, 5)] by blast
  obtain u where u: "onMessages E (map message ms) t = Done u" "following E starts initial u (last_started starts noop ms)"
      "ag_statuses u = ag_statuses t @ map (\<lambda>m. (fst m, starts (snd m))) ms"
      "ag_initialConfigReceived u = (ag_initialConfigReceived t \<or> (\<exists>m \<in> set ms. starts (snd m)))"
    using messages_follow [OF assms(1, 2) t(2) assms(6)] by blast
  have run: "running E u (last_started starts noop ms)" using u(2) by (simp add: following_def)
  then have disk: "map_of (ag_files u) (ae_path E) = Some (last_started starts noop ms)" by (simp add: running_def)
  have "fst (GetEffectiveConfig E u) = Inr (if \<exists>m \<in> set ms. starts (snd m) then last_started starts noop ms else initial)"
  proof (cases "\<exists>m \<in> set ms. starts (snd m)")
    case True
    then have "\<not> ag_runningNopConfig u" using u(2, 4) by (simp add: following_def)
    then show ?thesis using True by (simp add: GetEffectiveConfig_def CreateEffectiveConfigMsg_def calm_ReadFile [OF assms(1) disk])
  next
    case False
    then have "ag_runningNopConfig u" "ag_receivedInitialConfig u = initial" using u(2, 4) t(4) by (auto simp: following_def)
    then show ?thesis using False by (simp add: GetEffectiveConfig_def CreateEffectiveConfigMsg_def)
  qed
  then show ?thesis using t u(1, 3) run by (auto simp: following_def)
qed

text \<open>C28: A configuration with which the collector can be started, and which arrives between the start of the library and that of
  the collector, runs only until the latter: then the configuration without effect replaces it, and sending it again,
  however often, does not bring it back, while every time the server is told that it was applied. Files and library
  do not fail.\<close>

theorem early_config_is_lost:
  assumes "calm E" and "starts_by E starts" and "NewServerClient E (new_agent E k initial) = (Inr (), s)"
    and "initialNopConfig E initial = Inr noop" and "starts noop" and "starts (snd m)"
  shows "\<exists>v t. onMessages E [message m] (snd (Start_connect E s)) = Done v \<and> running E v (snd m) \<and>
    serverClient_Start E [message m] s = Done (Inr (), t) \<and>
    (\<forall>n. \<exists>u. onMessages E (replicate n (message m)) t = Done u \<and> running E u noop \<and> ag_statuses u = replicate (n + 1) (fst m, True))"
proof -
  note idle = new_client_idle [OF assms(1, 3)]
  let ?s = "tick (tick (tick s))"
  obtain c where c: "ready E ?s c" using idle_ready [OF idle] .
  have "\<not> (ag_initialConfigReceived ?s \<and> ag_currentHash ?s = ae_hash E (snd m))" using idle by (simp add: idle_def)
  then obtain v where v: "onMessageFuncHandler E (message m) ?s = Done v" "running E v (snd m)" "ag_currentHash v = ae_hash E (snd m)"
      "ag_initialConfigReceived v" "ag_statuses v = ag_statuses ?s @ [(fst m, True)]" "ag_receivedInitialConfig v = ag_receivedInitialConfig ?s"
    using accepted_message [OF assms(1, 2) c assms(6)] by blast
  have "initialNopConfig E (ag_receivedInitialConfig v) = Inr noop" using v(6) idle assms(4) by (simp add: idle_def)
  then obtain t where t: "Start_collector E v = Done (Inr (), t)" "running E t noop" "same_client (v\<lparr>ag_runningNopConfig := True\<rparr>) t"
    using start_collector [OF assms(1, 2) running_ready [OF v(2)] _ assms(5)] by blast
  have start: "serverClient_Start E [message m] s = Done (Inr (), t)"
    using t(1) v(1) by (simp add: serverClient_Start_def calm_connect [OF assms(1)])
  have again: "\<exists>u. onMessages E (replicate n (message m)) w = Done u \<and> running E u noop \<and> ag_statuses u = ag_statuses w @ replicate n (fst m, True)"
    if "running E w noop" "ag_initialConfigReceived w" "ag_currentHash w = ae_hash E (snd m)" for n w
    using that
  proof (induction n arbitrary: w)
    case (Suc n)
    let ?w = "(tick w)\<lparr>ag_statuses := ag_statuses w @ [(fst m, True)]\<rparr>"
    have "onMessageFuncHandler E (message m) w = Done ?w" using known_message [OF assms(1) Suc.prems(2, 3)] .
    moreover have "running E ?w noop" using Suc.prems(1) by (simp add: running_def)
    then have "\<exists>u. onMessages E (replicate n (message m)) ?w = Done u \<and> running E u noop \<and> ag_statuses u = ag_statuses ?w @ replicate n (fst m, True)"
      by (rule Suc.IH) (use Suc.prems in simp_all)
    ultimately show ?case by auto
  qed simp
  have "ag_initialConfigReceived t" "ag_currentHash t = ae_hash E (snd m)" "ag_statuses t = [(fst m, True)]"
    using t(3) v idle by (simp_all add: same_client_def idle_def)
  moreover have "onMessages E [message m] (snd (Start_connect E s)) = Done v" using v(1) by (simp add: calm_connect [OF assms(1)])
  ultimately show ?thesis using start v(2) again [OF t(2)] by auto
qed

text \<open>C29: Stopping a client of the server never reports an error of the collector: the nil that the first shutdown has left in the
  channel of errors is taken for the answer of the collector, whatever that is.\<close>

theorem stop_hides_errors:
  assumes "calm E" and "starts_by E starts" and "NewServerClient E (new_agent E k initial) = (Inr (), s)"
    and "initialNopConfig E initial = Inr noop" and "starts noop" and "inj_on (ae_hash E) (insert noop (snd ` set ms))"
    and "\<forall>n. ae_stop_error E n"
  shows "\<exists>t u v. serverClient_Start E [] s = Done (Inr (), t) \<and> onMessages E (map message ms) t = Done u \<and>
    serverClient_Stop E u = Done (Inr (), v)"
proof -
  obtain t where t: "serverClient_Start E [] s = Done (Inr (), t)" "following E starts initial t noop" "ag_statuses t = []"
    using start_follows [OF assms(1, 2) new_client_idle [OF assms(1, 3)] assms(4, 5)] by blast
  obtain u where u: "onMessages E (map message ms) t = Done u" "following E starts initial u (last_started starts noop ms)"
    using messages_follow [OF assms(1, 2) t(2) assms(6)] by blast
  have lib: "ae_library E n" for n using assms(1) by (simp add: calm_def)
  have "\<exists>v. serverClient_Stop E u = Done (Inr (), v)"
    using u(2) by (simp add: following_def running_def serverClient_Stop_def collector_Shutdown_def reportError_def take_error_def lib Let_def)
  then show ?thesis using t(1) u(1) by blast
qed

section \<open>The configuration without effect\<close>

text \<open>Keys of which neither is below the other.\<close>

definition independent :: "string \<Rightarrow> string \<Rightarrow> bool" where
  "independent p q \<longleftrightarrow> p \<noteq> q \<and> \<not> prefix (p @ ''.'') q \<and> \<not> prefix (q @ ''.'') p"

text \<open>
  What is used of the library: \<open>value_at k p\<close> is the value of the configuration \<open>k\<close> under the flattened key \<open>p\<close>; to set or
  delete a key leaves independent ones alone.
\<close>

definition koanf_laws :: "'k koanf \<Rightarrow> ('k \<Rightarrow> string \<Rightarrow> 'v option) \<Rightarrow> (nop_value \<Rightarrow> 'v) \<Rightarrow> bool" where
  "koanf_laws K value_at emb \<longleftrightarrow>
     (\<forall>k k' p v. kf_set K k p v = Some k' \<longrightarrow> value_at k' p = Some (emb v) \<and> (\<forall>q. independent p q \<longrightarrow> value_at k' q = value_at k q)) \<and>
     (\<forall>k p. value_at (kf_delete K k p) p = None \<and> (\<forall>q. independent p q \<longrightarrow> value_at (kf_delete K k p) q = value_at k q))"

lemma koanf_set:
  "koanf_laws K value_at emb \<Longrightarrow> kf_set K k p v = Some k' \<Longrightarrow> value_at k' p = Some (emb v)"
  "koanf_laws K value_at emb \<Longrightarrow> kf_set K k p v = Some k' \<Longrightarrow> independent p q \<Longrightarrow> value_at k' q = value_at k q"
  by (simp_all add: koanf_laws_def)

lemma koanf_delete:
  "koanf_laws K value_at emb \<Longrightarrow> value_at (kf_delete K k p) p = None"
  "koanf_laws K value_at emb \<Longrightarrow> independent p q \<Longrightarrow> value_at (kf_delete K k p) q = value_at k q"
  by (simp_all add: koanf_laws_def)

text \<open>What the loop makes of the value \<open>x\<close> of a key.\<close>

definition nop_value_of :: "(nop_value \<Rightarrow> 'v) \<Rightarrow> string \<Rightarrow> 'v option \<Rightarrow> 'v option" where
  "nop_value_of emb key x =
     (if pipeline_key ''.receivers'' key \<or> pipeline_key ''.exporters'' key then Some (emb NopList)
      else if pipeline_key ''.processors'' key then None else x)"

lemma one_part:
  "pipeline_key ''.receivers'' key \<Longrightarrow> \<not> pipeline_key ''.processors'' key" "pipeline_key ''.receivers'' key \<Longrightarrow> \<not> pipeline_key ''.exporters'' key"
  "pipeline_key ''.processors'' key \<Longrightarrow> \<not> pipeline_key ''.exporters'' key"
proof -
  have "suffix a b \<or> suffix b a" if "pipeline_key a key" "pipeline_key b key" for a b
    using that suffix_same_cases unfolding pipeline_key_def by blast
  note same = this
  have "\<not> suffix ''.receivers'' ''.processors''" "\<not> suffix ''.processors'' ''.receivers''" "\<not> suffix ''.receivers'' ''.exporters''"
    "\<not> suffix ''.exporters'' ''.receivers''" "\<not> suffix ''.processors'' ''.exporters''" "\<not> suffix ''.exporters'' ''.processors''"
    by (simp_all add: suffix_to_prefix)
  then show "pipeline_key ''.receivers'' key \<Longrightarrow> \<not> pipeline_key ''.processors'' key" "pipeline_key ''.receivers'' key \<Longrightarrow> \<not> pipeline_key ''.exporters'' key"
    "pipeline_key ''.processors'' key \<Longrightarrow> \<not> pipeline_key ''.exporters'' key"
    using same by blast+
qed

lemma nop_key_value:
  assumes "koanf_laws K value_at emb" and "nop_key K key k = Some k'"
  shows "value_at k' key = nop_value_of emb key (value_at k key)" and "independent key q \<Longrightarrow> value_at k' q = value_at k q"
proof -
  consider (r) "pipeline_key ''.receivers'' key" | (p) "pipeline_key ''.processors'' key" | (e) "pipeline_key ''.exporters'' key"
    | (n) "\<not> pipeline_key ''.receivers'' key" "\<not> pipeline_key ''.processors'' key" "\<not> pipeline_key ''.exporters'' key" by blast
  then have "value_at k' key = nop_value_of emb key (value_at k key) \<and> (independent key q \<longrightarrow> value_at k' q = value_at k q)"
  proof cases
    case r
    then have "\<not> pipeline_key ''.processors'' key" "\<not> pipeline_key ''.exporters'' key" using one_part by blast+
    then have "kf_set K (kf_delete K k key) key NopList = Some k'" using assms(2) r by (simp add: nop_key_def Let_def split: option.splits)
    from koanf_set [OF assms(1) this] show ?thesis using r koanf_delete(2) [OF assms(1)] by (simp add: nop_value_of_def)
  next
    case p
    then have n: "\<not> pipeline_key ''.receivers'' key" "\<not> pipeline_key ''.exporters'' key" using one_part by blast+
    then have "k' = kf_delete K k key" using assms(2) p by (simp add: nop_key_def Let_def)
    then show ?thesis using p n koanf_delete [OF assms(1)] by (simp add: nop_value_of_def)
  next
    case e
    then have "\<not> pipeline_key ''.receivers'' key" "\<not> pipeline_key ''.processors'' key" using one_part by blast+
    then have "kf_set K (kf_delete K k key) key NopList = Some k'" using assms(2) e by (simp add: nop_key_def Let_def)
    from koanf_set [OF assms(1) this] show ?thesis using e koanf_delete(2) [OF assms(1)] by (simp add: nop_value_of_def)
  next
    case n
    then have "k' = k" using assms(2) by (simp add: nop_key_def Let_def)
    then show ?thesis using n by (simp add: nop_value_of_def)
  qed
  then show "value_at k' key = nop_value_of emb key (value_at k key)" "independent key q \<Longrightarrow> value_at k' q = value_at k q" by simp_all
qed

definition independent_keys :: "string list \<Rightarrow> bool" where
  "independent_keys keys \<longleftrightarrow> distinct keys \<and> (\<forall>p \<in> set keys. \<forall>q \<in> set keys. p \<noteq> q \<longrightarrow> independent p q)"

lemma nop_keys_values:
  assumes "koanf_laws K value_at emb" and "independent_keys keys" and "nop_keys K keys k = Some k'"
  shows "(\<forall>key \<in> set keys. value_at k' key = nop_value_of emb key (value_at k key)) \<and>
    (\<forall>q. (\<forall>key \<in> set keys. independent key q) \<longrightarrow> value_at k' q = value_at k q)"
  using assms(2, 3)
proof (induction keys arbitrary: k)
  case (Cons key keys)
  obtain k1 where k1: "nop_key K key k = Some k1" "nop_keys K keys k1 = Some k'" using Cons.prems(2) by (auto split: option.splits)
  note step = nop_key_value [OF assms(1) k1(1)]
  have ind: "independent_keys keys" "key \<notin> set keys" using Cons.prems(1) by (auto simp: independent_keys_def)
  have IH: "\<forall>key \<in> set keys. value_at k' key = nop_value_of emb key (value_at k1 key)"
    "\<And>q. \<forall>key \<in> set keys. independent key q \<Longrightarrow> value_at k' q = value_at k1 q"
    using Cons.IH [OF ind(1) k1(2)] by blast+
  have other: "independent key' key" "independent key key'" if "key' \<in> set keys" for key'
    using Cons.prems(1) ind(2) that unfolding independent_keys_def by (metis list.set_intros)+
  have "value_at k' key = nop_value_of emb key (value_at k key)" using IH(2) [of key] other(1) step(1) by simp
  moreover have "value_at k' key' = nop_value_of emb key' (value_at k key')" if "key' \<in> set keys" for key'
    using IH(1) that step(2) [OF other(2) [OF that]] by simp
  ultimately show ?case using IH(2) step(2) by auto
qed simp

text \<open>C30: In the configuration without effect every pipeline has the list of nop as its receivers and its exporters and no processors,
  and every other key has the value it had after the receiver and the exporter nop were added.\<close>

theorem nop_config_shape:
  assumes "koanf_laws K value_at emb" and "set_missing K ''receivers.nop'' k = Some k0" and "set_missing K ''exporters.nop'' k0 = Some k1"
    and "independent_keys (kf_keys K k1)" and "nop_config K k = Some r"
  shows "\<forall>key \<in> set (kf_keys K k1). value_at r key =
    (if pipeline_key ''.receivers'' key \<or> pipeline_key ''.exporters'' key then Some (emb NopList)
     else if pipeline_key ''.processors'' key then None else value_at k1 key)"
proof -
  have "nop_keys K (kf_keys K k1) k1 = Some r" using assms(2, 3, 5) by (simp add: nop_config_def)
  then show ?thesis using nop_keys_values [OF assms(1, 4)] by (simp add: nop_value_of_def)
qed

section \<open>Where the host fails\<close>

text \<open>A file that was written in part is not put back, although the copy is there: the collector goes on with the old configuration,
  and what is left of the new one is what it will read next.\<close>

lemma partial_write_is_kept:
  assumes "map_of (ag_files s) (ae_path E) = Some cur" and "ae_read E (ag_clock s)"
    and "ae_write E (ag_clock s + 1) = Written" and "ae_write E (ag_clock s + 2) = Partly n"
  shows "\<exists>t. reload E new s = Done (Inl UpdateFailed, t) \<and> map_of (ag_files t) (ae_path E) = Some (take n new) \<and> ag_svc t = ag_svc s"
  using assms by (simp add: reload_def reload_locked_def copy_file_def ReadFile_def WriteFile_def tick_def)

text \<open>When no collector can be made of the settings, the restart with the old configuration waits for ever for room in the channel
  of errors, and holds the mutex of the collector and that of the client.\<close>

lemma restart_blocks: "ag_svc s = None \<Longrightarrow> ag_errChan s \<noteq> [] \<Longrightarrow> collector_Restart E s = Blocked"
  by (simp add: collector_Restart_def collector_Shutdown_def)

lemma failed_creation_blocks:
  assumes "\<forall>n. ae_read E n" and "\<forall>n. ae_write E n = Written" and "\<forall>n. \<not> ae_new E n" and "running E s cur"
  shows "reload E new s = Blocked"
proof -
  define s0 where "s0 = s\<lparr>ag_isReloading := True\<rparr>"
  obtain s1 where s1: "copy_file E (ae_path E) (rollback_path E) s0 = (Inr (), s1)" "ag_svc s1 = ag_svc s" "ag_errChan s1 = [False]"
    using assms by (simp add: copy_file_def ReadFile_def WriteFile_def running_def s0_def)
  obtain s2 where s2: "WriteFile E (ae_path E) new s1 = (Inr (), s2)" "ag_svc s2 = ag_svc s" "ag_errChan s2 = [False]"
    using assms(2) s1 by (simp add: WriteFile_def)
  define s3 where "s3 = (reportError (ae_stop_error E (ag_clock s2)) (tick s2))\<lparr>ag_svc := None\<rparr>"
  have restart: "collector_Restart E s2 = Done (Inl NotCreated, tick s3)"
    using s2(2, 3) assms(3, 4) by (simp add: collector_Restart_def collector_Shutdown_def running_def s3_def collector_Run_def reportError_def)
  have s3: "ag_svc s3 = None" "ag_errChan s3 = [False]" using s2(3) by (simp_all add: s3_def reportError_def)
  obtain r s4 where s4: "copy_file E (rollback_path E) (ae_path E) (tick s3) = (r, s4)" by force
  have "ag_svc s4 = None" "ag_errChan s4 \<noteq> []"
    using s4 s3 by (auto simp: copy_file_def ReadFile_def WriteFile_def split: prod.splits sum.splits write_result.splits if_splits option.splits)
  then have "collector_Restart E s4 = Blocked" by (rule restart_blocks)
  then show ?thesis by (simp add: reload_def reload_locked_def s0_def [symmetric] s1(1) s2(1) restart s4)
qed

section \<open>At a concrete host\<close>

definition example_koanf :: "(string \<times> nop_value) list koanf" where
  "example_koanf =
     \<lparr>kf_new = [], kf_load = (\<lambda>k c. Some k), kf_string = (\<lambda>k key. ''id''), kf_exists = (\<lambda>k key. map_of k key \<noteq> None),
      kf_keys = map fst, kf_set = (\<lambda>k key v. Some (AList.update key v k)), kf_delete = (\<lambda>k key. AList.delete key k),
      kf_marshal = (\<lambda>k. Some ''nop'')\<rparr>"

definition example_host :: "(string \<times> nop_value) list agent_env" where
  "example_host =
     \<lparr>ae_path = ''p'', ae_hash = (\<lambda>c. c), ae_read = (\<lambda>n. True), ae_write = (\<lambda>n. Written), ae_new = (\<lambda>n. True),
      ae_run = (\<lambda>n c. if c = Some ''bad'' then FailedToStart else Started), ae_stop_error = (\<lambda>n. True), ae_library = (\<lambda>n. True),
      ae_uuid = (\<lambda>n. ''u''), ae_instances = example_koanf, ae_dotted = example_koanf\<rparr>"

definition example_client :: "(string \<times> nop_value) list agent" where
  "example_client = snd (NewServerClient example_host (new_agent example_host [] ''initial''))"

lemma example_laws: "koanf_laws example_koanf (\<lambda>k p. map_of k p) (\<lambda>v. v)"
  by (auto simp: koanf_laws_def example_koanf_def independent_def delete_conv')

lemma example_host_facts:
  "calm example_host" "starts_by example_host (\<lambda>c. c \<noteq> ''bad'')" "inj (ae_hash example_host)" "\<forall>n. ae_stop_error example_host n"
  "NewServerClient example_host (new_agent example_host [] ''initial'') = (Inr (), example_client)"
  "initialNopConfig example_host ''initial'' = Inr ''nop''"
proof -
  show "NewServerClient example_host (new_agent example_host [] ''initial'') = (Inr (), example_client)"
    by (rule prod_eqI) (simp_all add: example_client_def NewServerClient_def NewDynamicConfig_def UpsertInstanceID_def UpdateCurrentHash_def ReadFile_def
        WriteFile_def example_host_def example_koanf_def new_agent_def tick_def Let_def)
  show "initialNopConfig example_host ''initial'' = Inr ''nop''" by code_simp
qed (auto simp: calm_def starts_by_def example_host_def)

lemma agent_follows_server_witness:
  "\<exists>t u. serverClient_Start example_host [] example_client = Done (Inr (), t) \<and>
     onMessages example_host (map message [(''h1'', ''good''), (''h2'', ''bad'')]) t = Done u \<and>
     running example_host u ''good'' \<and> ag_statuses u = [(''h1'', True), (''h2'', False)]"
proof -
  have "inj_on (ae_hash example_host) (insert ''nop'' (snd ` set [(''h1'', ''good''), (''h2'', ''bad'')]))"
    using example_host_facts(3) by (rule inj_on_subset) simp
  from agent_follows_server [OF example_host_facts(1, 2, 5, 6) _ this] show ?thesis by (auto simp: last_started_def)
qed

lemma early_config_is_lost_witness:
  "\<exists>t u. serverClient_Start example_host [message (''h'', ''good'')] example_client = Done (Inr (), t) \<and>
     onMessages example_host (replicate 3 (message (''h'', ''good''))) t = Done u \<and> running example_host u ''nop'' \<and>
     ag_statuses u = replicate 4 (''h'', True)"
proof -
  obtain t where t: "serverClient_Start example_host [message (''h'', ''good'')] example_client = Done (Inr (), t)"
      "\<forall>n. \<exists>u. onMessages example_host (replicate n (message (''h'', ''good''))) t = Done u \<and> running example_host u ''nop'' \<and>
        ag_statuses u = replicate (n + 1) (''h'', True)"
    using early_config_is_lost [OF example_host_facts(1, 2, 5, 6), of "(''h'', ''good'')"] by auto
  show ?thesis using t(1) t(2) [rule_format, of 3] by auto
qed

lemma stop_hides_errors_witness:
  "\<exists>t u v. serverClient_Start example_host [] example_client = Done (Inr (), t) \<and>
     onMessages example_host (map message [(''h1'', ''good'')]) t = Done u \<and> serverClient_Stop example_host u = Done (Inr (), v)"
proof -
  have "inj_on (ae_hash example_host) (insert ''nop'' (snd ` set [(''h1'', ''good'')]))"
    using example_host_facts(3) by (rule inj_on_subset) simp
  from stop_hides_errors [OF example_host_facts(1, 2, 5, 6) _ this example_host_facts(4)] show ?thesis by simp
qed

definition example_pipelines :: "(string \<times> nop_value) list" where
  "example_pipelines = [(''service.pipelines.logs.receivers'', EmptyMap), (''service.pipelines.logs.processors'', EmptyMap), (''extensions.x'', EmptyMap)]"

definition example_nop :: "(string \<times> nop_value) list" where
  "example_nop = example_pipelines @ [(''receivers.nop'', EmptyMap), (''exporters.nop'', EmptyMap)]"

lemma nop_config_shape_witness:
  "\<exists>r. nop_config example_koanf example_pipelines = Some r \<and> map_of r ''service.pipelines.logs.receivers'' = Some NopList \<and>
     map_of r ''service.pipelines.logs.processors'' = None \<and> map_of r ''extensions.x'' = Some EmptyMap"
proof -
  have "nop_config example_koanf example_pipelines \<noteq> None" by code_simp
  then obtain r where r: "nop_config example_koanf example_pipelines = Some r" by blast
  have 1: "set_missing example_koanf ''receivers.nop'' example_pipelines = Some (example_pipelines @ [(''receivers.nop'', EmptyMap)])"
    by code_simp
  have 2: "set_missing example_koanf ''exporters.nop'' (example_pipelines @ [(''receivers.nop'', EmptyMap)]) = Some example_nop"
    by code_simp
  have 3: "independent_keys (kf_keys example_koanf example_nop)"
    by code_simp
  have parts: "pipeline_key ''.receivers'' ''service.pipelines.logs.receivers''" "pipeline_key ''.processors'' ''service.pipelines.logs.processors''"
    "\<not> pipeline_key ''.receivers'' ''extensions.x''" "\<not> pipeline_key ''.processors'' ''extensions.x''" "\<not> pipeline_key ''.exporters'' ''extensions.x''"
    by code_simp+
  have members: "''service.pipelines.logs.receivers'' \<in> set (kf_keys example_koanf example_nop)"
    "''service.pipelines.logs.processors'' \<in> set (kf_keys example_koanf example_nop)" "''extensions.x'' \<in> set (kf_keys example_koanf example_nop)"
    "map_of example_nop ''extensions.x'' = Some EmptyMap" by code_simp+
  note shape = nop_config_shape [OF example_laws 1 2 3 r]
  show ?thesis using r members(4) shape [rule_format, OF members(1)] shape [rule_format, OF members(2)] shape [rule_format, OF members(3)]
      parts one_part(3) [OF parts(2)] one_part(1) [of "''service.pipelines.logs.processors''"] by auto
qed

end
