(* ===== verification/CompositeTheorems.thy ===== *)
theory CompositeTheorems
  imports SamplingTheorems
begin

text \<open>
  The budgets of a composite policy (\<^verbatim>\<open>composite.go\<close>), said of the decisions of a run: what each sub-policy has sampled in a second is
  read off the ledger of the run, not off the counters of the code.
\<close>

section \<open>The ledger of a run\<close>

type_synonym 'c call = "'c eval_env \<times> trace_id \<times> trace_data"

definition verdict :: "'c call \<Rightarrow> 'c evaluator \<Rightarrow> decision" where
  "verdict c e = (case c of (env, tid, trace) \<Rightarrow> fst (fst (evaluate env tid trace e)))"

text \<open>The sub-policy that is charged for a trace: the first whose own verdict is to sample.\<close>

fun charged :: "('e \<Rightarrow> decision) \<Rightarrow> 'e subpolicy list \<Rightarrow> nat option" where
  "charged v [] = None"
| "charged v (s # subs) = (if v (fst s) = Sampled \<or> v (fst s) = InvertSampled then Some 0 else map_option Suc (charged v subs))"

record charge =
  ch_second :: i64
  ch_sub :: "nat option"
  ch_spans :: int
  ch_decision :: decision

fun subpolicies :: "'c evaluator \<Rightarrow> 'c evaluator subpolicy list" where
  "subpolicies (CompositePolicy subs maxTotal cs) = subs"
| "subpolicies _ = []"

definition charge_of :: "'c call \<Rightarrow> 'c evaluator \<Rightarrow> charge" where
  "charge_of c e =
     \<lparr>ch_second = curSecond (fst c), ch_sub = charged (verdict c) (subpolicies e), ch_spans = sint (spanCount (snd (snd c))),
      ch_decision = verdict c e\<rparr>"

fun ledger :: "'c evaluator \<Rightarrow> 'c call list \<Rightarrow> charge list" where
  "ledger e [] = []"
| "ledger e (c # cs) = charge_of c e # ledger (case c of (env, tid, trace) \<Rightarrow> snd (evaluate env tid trace e)) cs"

text \<open>The spans of the traces that a sub-policy sampled in a second.\<close>

definition spent :: "i64 \<Rightarrow> nat \<Rightarrow> charge list \<Rightarrow> int" where
  "spent \<sigma> i L = sum_list (map (\<lambda>c. if ch_second c = \<sigma> \<and> ch_sub c = Some i \<and> ch_decision c = Sampled then ch_spans c else 0) L)"

lemma spent_simps [simp]:
  "spent \<sigma> i [] = 0"
  "spent \<sigma> i (L @ [c]) = spent \<sigma> i L + (if ch_second c = \<sigma> \<and> ch_sub c = Some i \<and> ch_decision c = Sampled then ch_spans c else 0)"
  by (simp_all add: spent_def)

lemma spent_other: "(\<And>c. c \<in> set L \<Longrightarrow> ch_second c \<noteq> \<sigma>) \<Longrightarrow> spent \<sigma> i L = 0"
  by (induction L rule: rev_induct) auto

lemma spent_bounds: "\<forall>c \<in> set L. 0 \<le> ch_spans c \<Longrightarrow> 0 \<le> spent \<sigma> i L \<and> spent \<sigma> i L \<le> sum_list (map ch_spans L)"
  by (induction L rule: rev_induct) auto

text \<open>A decision is right when a trace is sampled exactly if its sub-policy stays within its share and the total.\<close>

definition within_budget :: "i64 list \<Rightarrow> i64 \<Rightarrow> charge list \<Rightarrow> charge \<Rightarrow> bool" where
  "within_budget shares maxTotal before c \<longleftrightarrow>
     (case ch_sub c of
        None \<Rightarrow> ch_decision c = NotSampled
      | Some i \<Rightarrow> i < length shares \<and>
          (let n = spent (ch_second c) i before + ch_spans c
           in ch_decision c = (if n \<le> sint (shares ! i) \<and> n \<le> sint maxTotal then Sampled else NotSampled)))"

section \<open>One decision\<close>

definition fits :: "i64 \<Rightarrow> i64 \<Rightarrow> 'e subpolicy \<Rightarrow> bool" where
  "fits maxTotal n s \<longleftrightarrow> snd (snd s) + n \<le>s fst (snd s) \<and> snd (snd s) + n \<le>s maxTotal"

lemma charged_bound: "charged v subs = Some i \<Longrightarrow> i < length subs"
  by (induction subs arbitrary: i) (auto split: if_splits)

lemma composite_loop_charges:
  assumes "\<And>e. snd (fst (ev e)) = None"
  defines "v \<equiv> \<lambda>e. fst (fst (ev e))"
  shows "fst (fst (composite_loop ev maxTotal n subs)) =
      (case charged v subs of None \<Rightarrow> NotSampled | Some i \<Rightarrow> if fits maxTotal n (subs ! i) then Sampled else NotSampled)"
    and "map (fst \<circ> snd) (snd (composite_loop ev maxTotal n subs)) = map (fst \<circ> snd) subs"
    and "map (snd \<circ> snd) (snd (composite_loop ev maxTotal n subs)) =
      (case charged v subs of
         None \<Rightarrow> map (snd \<circ> snd) subs
       | Some i \<Rightarrow> if fits maxTotal n (subs ! i) then (map (snd \<circ> snd) subs)[i := snd (snd (subs ! i)) + n] else map (snd \<circ> snd) subs)"
proof (induction subs)
  case (Cons s subs)
  obtain e alloc k where s: "s = (e, alloc, k)" by (cases s)
  {
    case 1 then show ?case using Cons assms(1) by (auto simp: s v_def fits_def Let_def split_beta split: option.splits)
  next
    case 2 then show ?case using Cons assms(1) by (auto simp: s v_def fits_def Let_def split_beta)
  next
    case 3 then show ?case using Cons assms(1) by (auto simp: s v_def fits_def Let_def split_beta split: option.splits)
  }
qed simp_all

section \<open>The counters are what was spent\<close>

lemma charged_reset: "charged v (reset_sps subs) = charged v subs"
  by (induction subs) (auto simp: reset_sps_def)

definition counters_ok :: "i64 list \<Rightarrow> i64 \<Rightarrow> charge list \<Rightarrow> i64 \<Rightarrow> 'e subpolicy list \<Rightarrow> bool" where
  "counters_ok shares maxTotal before \<sigma> subs \<longleftrightarrow>
     map (fst \<circ> snd) subs = shares \<and> map (sint \<circ> snd \<circ> snd) subs = map (\<lambda>i. spent \<sigma> i before) [0..<length shares]"

lemma counters_okD:
  assumes "counters_ok shares maxTotal before \<sigma> subs"
  shows "length subs = length shares" and "i < length shares \<Longrightarrow> fst (snd (subs ! i)) = shares ! i"
    and "i < length shares \<Longrightarrow> sint (snd (snd (subs ! i))) = spent \<sigma> i before"
proof -
  have m: "map (fst \<circ> snd) subs = shares" "map (sint \<circ> snd \<circ> snd) subs = map (\<lambda>i. spent \<sigma> i before) [0..<length shares]"
    using assms by (simp_all add: counters_ok_def)
  show l: "length subs = length shares" using m(1) by (metis length_map)
  show "fst (snd (subs ! i)) = shares ! i" if "i < length shares" using m(1) l that by (metis comp_apply nth_map)
  show "sint (snd (snd (subs ! i))) = spent \<sigma> i before" if "i < length shares"
    using arg_cong [OF m(2), of "\<lambda>xs. xs ! i"] l that by simp
qed

lemma counters_reset:
  assumes "map (fst \<circ> snd) subs = shares" and "\<And>c. c \<in> set before \<Longrightarrow> ch_second c \<noteq> \<sigma>"
  shows "counters_ok shares maxTotal before \<sigma> (reset_sps subs)"
proof -
  have "map (\<lambda>i. spent \<sigma> i before) [0..<length shares] = map (\<lambda>_. 0) [0..<length shares]"
    using spent_other [of before \<sigma>] assms(2) by simp
  moreover have "map (sint \<circ> snd \<circ> snd) (reset_sps subs) = map (\<lambda>_. 0) subs" by (induction subs) (auto simp: reset_sps_def)
  moreover have "map (\<lambda>_. 0) subs = map (\<lambda>_. 0 :: int) [0..<length shares]" using assms(1) by (auto simp: map_replicate_const)
  moreover have "map (fst \<circ> snd) (reset_sps subs) = shares" unfolding assms(1) [symmetric] by (induction subs) (auto simp: reset_sps_def)
  ultimately show ?thesis by (simp add: counters_ok_def)
qed

lemma fits_budget:
  assumes "counters_ok shares maxTotal before \<sigma> subs" and "i < length shares"
    and "0 \<le> sint n" and "0 \<le> spent \<sigma> i before" and "spent \<sigma> i before + sint n \<le> i64_max"
  shows "fits maxTotal n (subs ! i) \<longleftrightarrow> spent \<sigma> i before + sint n \<le> sint (shares ! i) \<and> spent \<sigma> i before + sint n \<le> sint maxTotal"
    and "sint (snd (snd (subs ! i)) + n) = spent \<sigma> i before + sint n"
proof -
  note ok = counters_okD [OF assms(1)]
  show s: "sint (snd (snd (subs ! i)) + n) = spent \<sigma> i before + sint n"
    using sint_add_fit [of "snd (snd (subs ! i))" n] ok(3) [OF assms(2)] assms(3-5) by simp
  show "fits maxTotal n (subs ! i) \<longleftrightarrow> spent \<sigma> i before + sint n \<le> sint (shares ! i) \<and> spent \<sigma> i before + sint n \<le> sint maxTotal"
    using ok(2) [OF assms(2)] s by (simp add: fits_def word_sle_eq)
qed

text \<open>A call with counters that are right decides rightly and leaves counters that are right.\<close>

lemma charge_step:
  assumes "counters_ok shares maxTotal before (curSecond (fst c)) subs" and "\<forall>p \<in> set before. 0 \<le> ch_spans p"
    and "0 \<le> sint (spanCount (snd (snd c)))" and "sum_list (map ch_spans before) + sint (spanCount (snd (snd c))) \<le> i64_max"
  defines "ev \<equiv> (case c of (env, tid, trace) \<Rightarrow> evaluate env tid trace)"
  defines "r \<equiv> composite_loop ev maxTotal (spanCount (snd (snd c))) subs"
  defines "p \<equiv> \<lparr>ch_second = curSecond (fst c), ch_sub = charged (verdict c) subs, ch_spans = sint (spanCount (snd (snd c))),
      ch_decision = fst (fst r)\<rparr>"
  shows "within_budget shares maxTotal before p" and "counters_ok shares maxTotal (before @ [p]) (curSecond (fst c)) (snd r)"
proof -
  let ?n = "spanCount (snd (snd c))" and ?\<sigma> = "curSecond (fst c)"
  have v: "verdict c = (\<lambda>e. fst (fst (ev e)))" by (simp add: verdict_def ev_def fun_eq_iff split: prod.split)
  have ne: "snd (fst (ev e)) = None" for e by (simp add: ev_def evaluate_no_error split: prod.split)
  note loop = composite_loop_charges [of ev, OF ne, of maxTotal ?n subs, folded v r_def]
  note ok = counters_okD [OF assms(1)]
  have fit: "fits maxTotal ?n (subs ! i) \<longleftrightarrow> spent ?\<sigma> i before + sint ?n \<le> sint (shares ! i) \<and> spent ?\<sigma> i before + sint ?n \<le> sint maxTotal"
      "sint (snd (snd (subs ! i)) + ?n) = spent ?\<sigma> i before + sint ?n" if "i < length shares" for i
    using fits_budget [OF assms(1) that, of ?n] spent_bounds [OF assms(2), of ?\<sigma> i] assms(3, 4) by auto
  show "within_budget shares maxTotal before p"
    using charged_bound [of "verdict c" subs] fit(1) ok(1)
    by (auto simp: within_budget_def p_def loop(1) Let_def split: option.split)
  have shares: "map (fst \<circ> snd) (snd r) = shares" using assms(1) loop(2) by (simp add: counters_ok_def)
  have "map (sint \<circ> snd \<circ> snd) (snd r) ! i = spent ?\<sigma> i (before @ [p])" if "i < length shares" for i
  proof -
    have l: "length (snd r) = length shares" using shares by (metis length_map)
    have "snd (snd (snd r ! i)) = map (snd \<circ> snd) (snd r) ! i" using l that by simp
    also have "\<dots> = (if charged (verdict c) subs = Some i \<and> fits maxTotal ?n (subs ! i) then snd (snd (subs ! i)) + ?n else snd (snd (subs ! i)))"
      using that ok(1) charged_bound [of "verdict c" subs] by (auto simp: loop(3) nth_list_update split: option.split)
    finally show ?thesis
      using that l ok(3) [OF that] fit(2) [OF that] loop(1) by (auto simp: p_def split: option.splits if_splits)
  qed
  then have "map (sint \<circ> snd \<circ> snd) (snd r) = map (\<lambda>i. spent ?\<sigma> i (before @ [p])) [0..<length shares]"
    using shares by (intro nth_equalityI) auto
  then show "counters_ok shares maxTotal (before @ [p]) ?\<sigma> (snd r)" using shares by (simp add: counters_ok_def)
qed

section \<open>A run\<close>

definition run_ok :: "i64 list \<Rightarrow> i64 \<Rightarrow> charge list \<Rightarrow> 'c call list \<Rightarrow> i64 \<Rightarrow> 'c evaluator subpolicy list \<Rightarrow> bool" where
  "run_ok shares maxTotal before calls cs subs \<longleftrightarrow>
     counters_ok shares maxTotal before cs subs \<and> (\<forall>p \<in> set before. 0 \<le> ch_spans p \<and> sint (ch_second p) \<le> sint cs) \<and>
     (\<forall>c \<in> set calls. 0 \<le> sint (spanCount (snd (snd c))) \<and> (before \<noteq> [] \<longrightarrow> sint cs \<le> sint (curSecond (fst c)))) \<and>
     sorted (map (sint \<circ> curSecond \<circ> fst) calls) \<and>
     sum_list (map ch_spans before) + sum_list (map (sint \<circ> spanCount \<circ> snd \<circ> snd) calls) \<le> i64_max"

lemma run_within:
  "run_ok shares maxTotal before calls cs subs \<Longrightarrow> L = ledger (CompositePolicy subs maxTotal cs) calls \<Longrightarrow>
    \<forall>k < length L. within_budget shares maxTotal (before @ take k L) (L ! k)"
proof (induction calls arbitrary: before cs subs L)
  case (Cons c calls)
  let ?\<sigma> = "curSecond (fst c)" and ?n = "spanCount (snd (snd c))"
  define subs1 where "subs1 = (if cs \<noteq> ?\<sigma> then reset_sps subs else subs)"
  define r where "r = composite_loop (case c of (env, tid, trace) \<Rightarrow> evaluate env tid trace) maxTotal ?n subs1"
  define p where "p = \<lparr>ch_second = ?\<sigma>, ch_sub = charged (verdict c) subs1, ch_spans = sint ?n, ch_decision = fst (fst r)\<rparr>"
  have ok: "counters_ok shares maxTotal before cs subs" "\<forall>p \<in> set before. 0 \<le> ch_spans p" "0 \<le> sint ?n"
      "sum_list (map ch_spans before) + sint ?n + sum_list (map (sint \<circ> spanCount \<circ> snd \<circ> snd) calls) \<le> i64_max"
    using Cons.prems(1) by (simp_all add: run_ok_def)
  have rest: "0 \<le> sum_list (map (sint \<circ> spanCount \<circ> snd \<circ> snd) calls)"
    using Cons.prems(1) by (intro sum_list_nonneg) (auto simp: run_ok_def)
  have "counters_ok shares maxTotal before ?\<sigma> subs1"
  proof (cases "cs = ?\<sigma>")
    case False
    have "ch_second q \<noteq> ?\<sigma>" if q: "q \<in> set before" for q
    proof
      assume e: "ch_second q = ?\<sigma>"
      have "sint ?\<sigma> \<le> sint cs" "sint cs \<le> sint ?\<sigma>" using Cons.prems(1) q by (auto simp: run_ok_def simp flip: e)
      then show False using False by (metis order_antisym signed_word_eqI)
    qed
    moreover have "map (fst \<circ> snd) subs = shares" using ok(1) by (simp add: counters_ok_def)
    ultimately show ?thesis using False counters_reset [of subs shares before ?\<sigma> maxTotal] by (simp add: subs1_def)
  qed (use ok(1) subs1_def in simp)
  from charge_step [OF this ok(2, 3), folded r_def, folded p_def] ok(4) rest
  have now: "within_budget shares maxTotal before p" "counters_ok shares maxTotal (before @ [p]) ?\<sigma> (snd r)" by simp_all
  have charged1: "charged (verdict c) subs1 = charged (verdict c) subs" by (simp add: subs1_def charged_reset)
  obtain env tid trace where c: "c = (env, tid, trace)" by (cases c)
  have "evaluate env tid trace (CompositePolicy subs maxTotal cs) = (fst r, CompositePolicy (snd r) maxTotal ?\<sigma>)"
    by (simp add: r_def subs1_def c case_prod_unfold Let_def)
  then have L: "L = p # ledger (CompositePolicy (snd r) maxTotal ?\<sigma>) calls"
    using Cons.prems(2) charged1 by (simp add: charge_of_def p_def verdict_def c)
  have "run_ok shares maxTotal (before @ [p]) calls ?\<sigma> (snd r)"
    using Cons.prems(1) now(2) unfolding run_ok_def by (auto simp: p_def)
  from Cons.IH [OF this refl] show ?case
    using now(1) by (auto simp: L less_Suc_eq_0_disj)
qed simp

text \<open>What was spent stays within the budgets when every decision is right.\<close>

lemma spent_within:
  assumes "\<forall>k < length L. within_budget shares maxTotal (take k L) (L ! k)" and "i < length shares"
  shows "spent \<sigma> i L \<le> max 0 (min (sint (shares ! i)) (sint maxTotal))"
proof -
  have "spent \<sigma> i (take k L) \<le> max 0 (min (sint (shares ! i)) (sint maxTotal))" if "k \<le> length L" for k
    using that
  proof (induction k)
    case (Suc k)
    have "within_budget shares maxTotal (take k L) (L ! k)" using assms(1) Suc.prems by simp
    then show ?case
      using Suc by (auto simp: take_Suc_conv_app_nth within_budget_def Let_def split: option.splits if_splits)
  qed simp
  from this [of "length L"] show ?thesis by simp
qed

text \<open>C38: Over any run of a composite policy whose clock does not go back, a trace is sampled exactly when some sub-policy
  samples it and, with what the first of these sampled in that second before, it stays within the share of that
  sub-policy and within the total. So what a sub-policy samples in a second never exceeds its share or the total.
  Counts of spans are not negative and add up to less than 2 to the 63.\<close>

theorem composite_budgets_kept:
  assumes "sorted (map (sint \<circ> curSecond \<circ> fst) calls)" and "counts_fit 0 (map snd calls)"
    and "L = ledger (NewComposite maxTotal params) calls"
  shows "(\<forall>k < length L. within_budget (map snd params) maxTotal (take k L) (L ! k)) \<and>
    (\<forall>\<sigma> i. i < length params \<longrightarrow> spent \<sigma> i L \<le> max 0 (min (sint (snd (params ! i))) (sint maxTotal)))"
proof -
  let ?subs = "map (\<lambda>(e, m). (e, m, 0 :: i64)) params"
  have "counters_ok (map snd params) maxTotal [] 0 ?subs"
    by (auto simp: counters_ok_def map_replicate_const split_beta comp_def)
  then have "run_ok (map snd params) maxTotal [] calls 0 ?subs"
    using assms(1, 2) by (auto simp: run_ok_def counts_fit_def comp_def)
  from run_within [OF this assms(3) [unfolded NewComposite_def]]
  have within: "\<forall>k < length L. within_budget (map snd params) maxTotal (take k L) (L ! k)" by simp
  then show ?thesis using spent_within [OF within] by auto
qed

text \<open>Two traces of two spans in one second under a share of three: the first is sampled, the second is not.\<close>

theorem composite_budgets_kept_witness:
  "let L = ledger (NewComposite 5 [(NeverSample, 5), (AlwaysSample, 3)])
      [(ex_env, [1], ex_trace [ex_span [1] 1 2 [], ex_span [1] 1 2 []]), (ex_env, [2], ex_trace [ex_span [2] 1 2 [], ex_span [2] 1 2 []])]
   in map ch_decision L = [Sampled, NotSampled] \<and> map ch_sub L = [Some 1, Some 1] \<and> spent (curSecond ex_env) 1 L \<le> 3"
proof -
  let ?tr = "\<lambda>n. ex_trace [ex_span [n] 1 2 [], ex_span [n] 1 2 []]"
  let ?calls = "[(ex_env, [1], ?tr 1), (ex_env, [2], ?tr 2)]"
  let ?params = "[(NeverSample, 5), (AlwaysSample, 3)]"
  have ok: "sorted (map (sint \<circ> curSecond \<circ> fst) ?calls)" "counts_fit 0 (map snd ?calls)"
    by (simp_all add: counts_fit_def ex_trace_def i64_max_def)
  have "spent (curSecond ex_env) 1 (ledger (NewComposite 5 ?params) ?calls) \<le> 3"
    using composite_budgets_kept [OF ok refl, of 5 ?params, THEN conjunct2, THEN spec, THEN spec, of 1 "curSecond ex_env"]
    by (simp del: ledger.simps)
  moreover have "map ch_decision (ledger (NewComposite 5 ?params) ?calls) = [Sampled, NotSampled]"
      "map ch_sub (ledger (NewComposite 5 ?params) ?calls) = [Some 1, Some 1]"
    by (simp_all add: NewComposite_def charge_of_def verdict_def ex_trace_def reset_sps_def word_sle_eq)
  ultimately show ?thesis by (simp add: Let_def del: ledger.simps)
qed

end
