(* ===== verification/Spec2Isabelle.thy ===== *)
theory Spec2Isabelle
  imports TailTheorems SamplingTheorems SpanMetricsTheorems SpanMetricsKeyTheorems LogsFlowTheorems
    SystemTablesTheorems MeterTheorems FingerprintTheorems MetricsExporterTheorems TracesExamples LogsExamples
    BaselineTheorems ManagedTheorems CompositeTheorems
begin

text \<open>
  A verification library for the OpenTelemetry collector distribution in
  \<^verbatim>\<open>src/\<close>. The distribution receives traces, metrics and logs, runs them through processors and
  exports them to ClickHouse. This library models its processors, the meter connector, the exporters of
  metrics, traces and logs, the receiver of ClickHouse's query log, the migrations of ClickHouse's schema and the client
  that runs the collector under the control of a server.

  \<^bold>\<open>Shared.\<close> \<open>Prelude\<close> holds the model of the Go runtime that the components use: 64-bit words,
  truncated division, decimal printing and parsing, UTF-8 decoding, FNV-1a, binary search over
  bucket bounds, and \<open>outcome\<close>, the result of code that may block for ever or panic. \<open>Pdata\<close> holds
  spans, scopes and resources with their attributes.

  \<^bold>\<open>Tail sampler\<close> (\<^verbatim>\<open>processor/signoztailsampler\<close>). \<open>Sampling\<close> and \<open>SamplingSpec\<close> hold the policies
  of \<^verbatim>\<open>internal/sampling\<close> as one datatype \<open>evaluator\<close> with the method \<open>evaluate\<close>; the locale
  \<open>policy_method\<close> states what the loops over policies rely on. \<open>TailConfig\<close> holds the
  configuration, its validation and the construction of evaluators. \<open>IdBatcher\<close> is the batcher of
  \<^verbatim>\<open>internal/idbatcher\<close> as steps of its producers, its goroutine and its consumer; the locale
  \<open>trace_batcher\<close> is its contract. \<open>TailSampler\<close> is \<^verbatim>\<open>processor.go\<close>: construction, the tick, decisions,
  consumption, eviction. \<open>TailSamplerProps\<close> has the invariant and one lemma per operation that
  keeps it. \<open>TailTheorems\<close> and \<open>SamplingTheorems\<close> state the properties: which policy decides, where
  spans go, how many traces are kept, that every operation returns, exactly-once delivery of ids,
  the budgets of rate limits, and that the configured policies never reach the processor.
  \<open>CompositeTheorems\<close> reads off the ledger of a run's decisions what each sub-policy of a composite policy has sampled
  in a second, and shows that exactly the traces within the budgets are sampled.

  \<^bold>\<open>Span metrics\<close> (\<^verbatim>\<open>processor/signozspanmetricsprocessor\<close>). \<open>SpanMetricsKeys\<close> holds the
  configuration, label sanitizing, dimensions, metric keys and times, limits on services and
  operations, and remote addresses. \<open>LruCache\<close> is \<^verbatim>\<open>internal/cache\<close> over an LRU list given by its
  laws; the locale \<open>dimension_store\<close> is what the processor needs of it. \<open>SpanMetrics\<close> is the
  processor: aggregation into five families, collection, export, eviction and reset; floats are a
  type with the order and the sum the code uses. \<open>SpanMetricsProps\<close> has the invariant and shows that
  collection implements \<open>metrics_spec\<close>, one point per key with its dimensions.
  \<open>SpanMetricsTheorems\<close> and \<open>SpanMetricsKeyTheorems\<close> state the properties.

  \<^bold>\<open>Logs pipeline\<close> (\<^verbatim>\<open>processor/signozlogspipelineprocessor\<close>). \<open>StanzaField\<close> is the state machine of
  field names, \<open>StanzaEntry\<close> entries, body fields and the operators that move values (the locale
  \<open>field_store\<close> is the contract of fields) and the frame of an operator, \<open>StanzaOps\<close> the severity,
  time, trace and scope parsers, the parser frame, the normalizer, JSON flattening, the router and
  the cache of the regular expressions. \<open>LogsConvert\<close> is the conversion of records to entries and
  back with the grouping by resource and scope. \<open>LogsTheorems\<close> and \<open>LogsFlowTheorems\<close> state the
  properties: round trips of names and records, conservation of records, the body that the normalizer
  leaves and when it panics, and transparency of the cache. A payload has every field of the protocol; conversion to
  entries and back keeps those that an entry has room for and empties the others (event names, dropped counts, schema
  URLs, versions and attributes of scopes), which the round trip states.

  \<^bold>\<open>System tables receiver\<close> (\<^verbatim>\<open>receiver/clickhousesystemtablesreceiver\<close>). \<open>SystemTables\<close> is the
  receiver of ClickHouse's query log: rows to records by reflection, grouping by host, the window that
  moves over event times and the loop of attempts, each with what the server and the next consumer
  answer. \<open>SystemTablesTheorems\<close> shows that from the first reading of the clock no event time is skipped or read twice,
  whatever fails, and that a receiver that is behind catches up.

  \<^bold>\<open>Metering\<close> (\<^verbatim>\<open>connectors/signozmeterconnector\<close>, \<^verbatim>\<open>pkg/metering\<close>, \<^verbatim>\<open>pkg/schema\<close>). \<open>Otlp\<close> holds spans
  with links and events and the five kinds of metrics. \<open>Flatten\<close> is \<^verbatim>\<open>utils/flatten\<close> with the proof that
  it keeps every leaf, \<open>Metering\<close> the sizes and counts of the three signals, \<open>MeterConnector\<close> the
  connector that adds them up per set of resource dimensions and exports deltas. \<open>MeterTheorems\<close>
  shows that no volume is lost or doubled between exports and what a size is the length of.

  \<^bold>\<open>Metrics exporter\<close> (\<^verbatim>\<open>exporter/signozclickhousemetrics\<close>, \<^verbatim>\<open>internal/common/fingerprint\<close>,
  \<^verbatim>\<open>utils/fingerprint\<close>). \<open>Fingerprint\<close> holds the hashes of attributes, the JSON text of labels and the
  fingerprints of resources along a hierarchy; \<open>FingerprintTheorems\<close> what they identify,
  and, with a reader of JSON after RFC 8259, for which labels the text is JSON.
  \<open>MetricsExporter\<close> turns data points into samples, series and metadata and writes them to four tables
  behind a cache of series; a push is one step, and the driver answers each write.
  \<open>MetricsExporterTheorems\<close> shows which samples are written, that they are those the meter bills, and
  when a sample has its series.

  \<^bold>\<open>Traces exporter\<close> (\<^verbatim>\<open>exporter/clickhousetracesexporter\<close>). \<open>TracesExporter\<close> turns spans into structured spans
  (attributes split by type and flattened, columns of their own, events, references), collects the resources
  of a payload per bucket of half an hour and writes five tables behind two caches; \<open>WriteCache\<close> is the
  locale of loops that write a row once. \<open>TracesExporterTheorems\<close> shows which spans a push writes, that spans
  have their resources, what a failed send does, and that the reported size is the meter's; \<open>TracesColumns\<close> describes
  the columns of spans and of exceptions by the span, its resource and its events; \<open>TracesExamples\<close>
  has an exporter to compute with and inputs on which the code errs.

  \<^bold>\<open>Logs exporter\<close> (\<^verbatim>\<open>exporter/clickhouselogsexporter\<close>, \<^verbatim>\<open>pkg/keycheck\<close>). \<open>LogsPipeline\<close> is the interleaving of
  the goroutines of a push: producers behind a limiter, a bounded channel and a consumer; it shows that a push
  without errors delivers every record once and ends, and that one with an error can hang. \<open>KeyCheck\<close> finds keys
  that look generated. \<open>LogsExporter\<close> is what the goroutines compute, in an order that is given, and the five
  sends; \<open>LogsExporterTheorems\<close> shows that the order does not matter for the rows and the usage, and that logs
  have their resources; \<open>LogsExamples\<close> has a push to compute with and inputs on which the code errs.

  \<^bold>\<open>Schema migrations\<close> (\<^verbatim>\<open>cmd/siginsightschemamigrator/schema_migrator\<close>,
  \<^verbatim>\<open>cmd/siginsightotelcollector/migrate\<close>). \<open>SchemaSql\<close> holds column types, columns, engines and the operations,
  each with its text and the flags that decide its phase, and the expressions of JSON indexes. \<open>SchemaMigrator\<close> has the registry and
  its validation, the inspection of a server, the baseline, the migrations after it and the commands with their
  retries; the server accepts or refuses a statement or the process dies, and a statement that was not accepted may
  have taken effect. The number of retries that the timeout allows is an argument. \<open>MigratorTheorems\<close> shows that the
  validation is exact and that every migration runs once and in order over any run of commands;
  \<open>BaselineTheorems\<close> when a server counts as new or complete, that any other server is left alone, that a check
  changes nothing and what one that succeeds says, with a registry to compute with. The text of the DDL of the baseline and what
  ClickHouse does with a statement are arguments.

  \<^bold>\<open>Managed collector\<close> (\<^verbatim>\<open>opamp\<close>, \<^verbatim>\<open>siginsightcol\<close>, \<^verbatim>\<open>service\<close>). \<open>ManagedCollector\<close> is the wrapped collector with its
  channel of errors, the configuration manager and the client of the OpAMP server: start with a configuration without
  effect, messages, reload with rollback, stop. Files, the collector below the wrapper, the OpAMP library and the
  library for configurations are arguments that answer by the number of questions so far. \<open>ManagedTheorems\<close> shows
  that the client runs the last configuration that can be started and, once there is one, tells the server so, what the configuration
  without effect is, and where the code loses a configuration or an error.

  \<^bold>\<open>Conventions.\<close> A Go map is an association list or a map; where the iteration order of a map
  matters, the order is an argument. A mutex makes a method one step. Loops that may block give
  \<open>Blocked\<close>, a run-time panic gives \<open>Panic\<close>, and a theorem that says that an operation returns says
  that it gives \<open>Done\<close>. No fuel is used. Libraries that are not in \<^verbatim>\<open>src/\<close> (regular expressions, LRU
  lists, JSON, hashes, URL parsing, exponential histograms, expressions) are arguments; the laws used of
  them are named hypotheses with an instance in a witness.

  \<^bold>\<open>Not modelled.\<close> Start and shutdown of components, configuration unmarshalling, logging and
  internal statistics; time layouts other than epochs; the exporter of meter samples to ClickHouse; the Prometheus receiver, a fork of the upstream one; test helpers and generators.
\<close>

end
